(* ===== verification/Prelude.thy ===== *)
theory Prelude
  imports Main "HOL-Library.Sublist" "HOL-Library.List_Lexorder" "HOL-Library.Char_ord"
begin

text \<open>
  Shared vocabulary of the development.

  \<^item> Python exceptions are values: a fallible function returns \<open>'e + 'a\<close>, \<open>Inl\<close> the exception.
    \<open>rbind\<close> is the sequencing of two fallible calls and \<open>rfold\<close> the fallible \<open>for\<close> loop.
  \<^item> An operation on a mutable collaborator (an event store, a checkpoint store) is a function
    \<open>'w \<Rightarrow> ('e + 'a) \<times> 'w\<close>: the world is returned also when the operation raises, because what
    Python wrote before the exception stays written. \<open>ebind\<close> and \<open>efold\<close> sequence such calls.
  \<^item> \<open>peel\<close> is the layer-by-layer dependency check that three modules of the repository share
    (runtime/state.py, runtime/graph.py, runtime/financial_branches.py); its correctness with
    respect to acyclicity is proved once here.
  \<^item> \<open>close_deps\<close> is the worklist closure of output_dependencies.py and closure_policy.py.
\<close>

named_theorems result_simps \<open>unfolding of the fallible and effectful sequencing operators\<close>

named_theorems step_elims \<open>inversion of successful fallible steps\<close>

section \<open>Fallible computations\<close>

fun rbind :: "'e + 'a \<Rightarrow> ('a \<Rightarrow> 'e + 'b) \<Rightarrow> 'e + 'b" where
  "rbind (Inl e) f = Inl e"
| "rbind (Inr x) f = f x"

fun rfold :: "('s \<Rightarrow> 'a \<Rightarrow> 'e + 's) \<Rightarrow> 's \<Rightarrow> 'a list \<Rightarrow> 'e + 's" where
  "rfold f s [] = Inr s"
| "rfold f s (x # xs) = rbind (f s x) (\<lambda>s'. rfold f s' xs)"

fun rmap :: "('a \<Rightarrow> 'e + 'b) \<Rightarrow> 'a list \<Rightarrow> 'e + 'b list" where
  "rmap f [] = Inr []"
| "rmap f (x # xs) = rbind (f x) (\<lambda>y. rbind (rmap f xs) (\<lambda>ys. Inr (y # ys)))"

definition guard :: "bool \<Rightarrow> 'e \<Rightarrow> 'e + unit" where
  "guard b e = (if b then Inr () else Inl e)"

definition is_ok :: "'e + 'a \<Rightarrow> bool" where
  "is_ok r = (case r of Inl _ \<Rightarrow> False | Inr _ \<Rightarrow> True)"

lemma is_ok_simps [simp]: "is_ok (Inr x)" "\<not> is_ok (Inl e)"
  by (simp_all add: is_ok_def)

lemma is_ok_iff: "is_ok r \<longleftrightarrow> (\<exists>x. r = Inr x)"
  by (cases r) simp_all

lemma rbind_Inr_iff [result_simps]: "rbind r f = Inr y \<longleftrightarrow> (\<exists>x. r = Inr x \<and> f x = Inr y)"
  by (cases r) auto

lemma rbind_InrE [step_elims]:
  assumes "rbind r f = Inr y"
  obtains x where "r = Inr x" and "f x = Inr y"
  using assms by (auto simp: rbind_Inr_iff)

lemma guard_Inr_iff [simp]: "guard b e = Inr u \<longleftrightarrow> b"
  by (simp add: guard_def)

lemma guard_Inl_iff [simp]: "guard b e = Inl e' \<longleftrightarrow> \<not> b \<and> e' = e"
  by (auto simp: guard_def)

lemma guard_bind_Inr_iff [result_simps]: "rbind (guard b e) f = Inr y \<longleftrightarrow> b \<and> f () = Inr y"
  by (auto simp: guard_def)

lemma guard_True [simp]: "guard True e = Inr ()"
  by (simp add: guard_def)

lemma guard_False [simp]: "guard False e = Inl e"
  by (simp add: guard_def)

lemma rmap_Inr_iff: "rmap f xs = Inr ys \<longleftrightarrow> list_all2 (\<lambda>x y. f x = Inr y) xs ys"
proof (induction xs arbitrary: ys)
  case Nil
  then show ?case by auto
next
  case (Cons x xs)
  then show ?case by (cases ys) (auto simp: rbind_Inr_iff)
qed

lemma rfold_append: "rfold f s (xs @ ys) = rbind (rfold f s xs) (\<lambda>s'. rfold f s' ys)"
proof (induction xs arbitrary: s)
  case Nil
  then show ?case by simp
next
  case (Cons x xs)
  then show ?case by (cases "f s x") simp_all
qed

lemma rfold_snoc:
  fixes f :: "'s \<Rightarrow> 'a \<Rightarrow> 'e + 's"
  shows "rfold f s (xs @ [x]) = rbind (rfold f s xs) (\<lambda>s'. f s' x)"
proof -
  have "rbind r (\<lambda>x. Inr x) = r" for r :: "'e + 's"
    by (cases r) simp_all
  then show ?thesis by (simp add: rfold_append)
qed

lemma rfold_invariant:
  assumes "rfold f s xs = Inr s'" and "P s"
    and "\<And>s x s'. x \<in> set xs \<Longrightarrow> P s \<Longrightarrow> f s x = Inr s' \<Longrightarrow> P s'"
  shows "P s'"
  using assms
proof (induction xs arbitrary: s)
  case Nil
  then show ?case by simp
next
  case (Cons x xs)
  from Cons.prems(1) obtain t where t: "f s x = Inr t" and r: "rfold f t xs = Inr s'"
    by (auto simp: rbind_Inr_iff)
  have "P t" using Cons.prems(2,3) t by auto
  then show ?case using Cons.IH [OF r] Cons.prems(3) by auto
qed

section \<open>Effectful computations\<close>

type_synonym ('e, 'w, 'a) eff = "'w \<Rightarrow> ('e + 'a) \<times> 'w"

definition eret :: "'a \<Rightarrow> ('e, 'w, 'a) eff" where
  "eret x w = (Inr x, w)"

definition eraise :: "'e \<Rightarrow> ('e, 'w, 'a) eff" where
  "eraise e w = (Inl e, w)"

definition ebind :: "('e, 'w, 'a) eff \<Rightarrow> ('a \<Rightarrow> ('e, 'w, 'b) eff) \<Rightarrow> ('e, 'w, 'b) eff" where
  "ebind m f w = (case m w of (Inl e, w') \<Rightarrow> (Inl e, w') | (Inr x, w') \<Rightarrow> f x w')"

fun efold :: "('a \<Rightarrow> ('e, 'w, unit) eff) \<Rightarrow> 'a list \<Rightarrow> ('e, 'w, unit) eff" where
  "efold f [] = eret ()"
| "efold f (x # xs) = ebind (f x) (\<lambda>_. efold f xs)"

lemma eret_apply [simp]: "eret x w = (Inr x, w)"
  by (simp add: eret_def)

lemma eraise_apply [simp]: "eraise e w = (Inl e, w)"
  by (simp add: eraise_def)

lemma ebind_Inr [simp]: "m w = (Inr x, w') \<Longrightarrow> ebind m f w = f x w'"
  by (simp add: ebind_def)

lemma ebind_Inl [simp]: "m w = (Inl e, w') \<Longrightarrow> ebind m f w = (Inl e, w')"
  by (simp add: ebind_def)

lemma ebind_eq_Inr_iff [result_simps]:
  "ebind m f w = (Inr y, w'') \<longleftrightarrow> (\<exists>x w'. m w = (Inr x, w') \<and> f x w' = (Inr y, w''))"
  by (auto simp: ebind_def split: prod.splits sum.splits)

lemma ebind_world:
  assumes m: "\<And>r w'. m w = (r, w') \<Longrightarrow> P w w'"
    and f: "\<And>x w' r w''. m w = (Inr x, w') \<Longrightarrow> f x w' = (r, w'') \<Longrightarrow> P w' w''"
    and tr: "\<And>a b c. P a b \<Longrightarrow> P b c \<Longrightarrow> P a c"
    and run: "ebind m f w = (r, w'')"
  shows "P w w''"
proof (cases "m w")
  case (Pair res w')
  show ?thesis
  proof (cases res)
    case (Inl e)
    with Pair run m show ?thesis by simp
  next
    case (Inr x)
    with Pair run have "f x w' = (r, w'')" by simp
    with m [OF Pair] f Pair Inr tr show ?thesis by blast
  qed
qed

lemma efold_world:
  assumes step: "\<And>x w r w'. x \<in> set xs \<Longrightarrow> f x w = (r, w') \<Longrightarrow> P w w'"
    and refl: "\<And>a. P a a"
    and tr: "\<And>a b c. P a b \<Longrightarrow> P b c \<Longrightarrow> P a c"
    and run: "efold f xs w = (r, w')"
  shows "P w w'"
  using step run
proof (induction xs arbitrary: w)
  case Nil
  then show ?case by (simp add: refl)
next
  case (Cons x xs)
  obtain u w1 where u: "f x w = (u, w1)" by (cases "f x w") auto
  have p1: "P w w1" using Cons.prems(1) [OF _ u] by simp
  show ?case
  proof (cases u)
    case (Inl e)
    with u Cons.prems(2) p1 show ?thesis by simp
  next
    case (Inr y)
    with u Cons.prems(2) have "efold f xs w1 = (r, w')" by simp
    moreover have "\<And>x w r w'. x \<in> set xs \<Longrightarrow> f x w = (r, w') \<Longrightarrow> P w w'"
      by (rule Cons.prems(1)) simp_all
    ultimately have "P w1 w'" using Cons.IH by blast
    with p1 tr show ?thesis by blast
  qed
qed

section \<open>Peeling a dependency relation layer by layer\<close>

text \<open>
  The loop \<open>while remaining: ready = {x in remaining with no dependency in remaining}; if not
  ready: raise; remaining -= ready\<close>. The Python sets are lists without repetition here.
\<close>

definition peel_layer :: "('a \<Rightarrow> 'a list) \<Rightarrow> 'a list \<Rightarrow> 'a list" where
  "peel_layer deps remaining =
     filter (\<lambda>x. list_all (\<lambda>d. d \<notin> set remaining) (deps x)) remaining"

function peel :: "('a \<Rightarrow> 'a list) \<Rightarrow> 'a list \<Rightarrow> bool" where
  "peel deps remaining =
     (if remaining = [] then True
      else let ready = peel_layer deps remaining
           in if ready = [] then False
              else peel deps (filter (\<lambda>x. x \<notin> set ready) remaining))"
  by pat_completeness auto
termination
proof (relation "measure (\<lambda>(deps, remaining). length remaining)", goal_cases)
  case 1
  then show ?case by simp
next
  case (2 deps remaining ready)
  then obtain x where x: "x \<in> set ready" by (metis list.set_intros(1) neq_Nil_conv)
  with 2 have "x \<in> set remaining" by (auto simp: peel_layer_def)
  with x have "length (filter (\<lambda>x. x \<notin> set ready) remaining) < length remaining"
    by (intro length_filter_less) auto
  with 2 show ?case by simp
qed

declare peel.simps [simp del]

definition dep_rel :: "('a \<Rightarrow> 'a list) \<Rightarrow> 'a set \<Rightarrow> ('a \<times> 'a) set" where
  "dep_rel deps A = {(d, x). x \<in> A \<and> d \<in> A \<and> d \<in> set (deps x)}"

lemma dep_rel_mono: "A \<subseteq> B \<Longrightarrow> dep_rel deps A \<subseteq> dep_rel deps B"
  by (auto simp: dep_rel_def)

lemma dep_rel_subset: "dep_rel deps A \<subseteq> A \<times> A"
  by (auto simp: dep_rel_def)

lemma finite_dep_rel: "finite A \<Longrightarrow> finite (dep_rel deps A)"
  by (rule finite_subset [OF dep_rel_subset]) simp

lemma set_peel_layer:
  "set (peel_layer deps remaining) = {x \<in> set remaining. set (deps x) \<inter> set remaining = {}}"
  by (auto simp: peel_layer_def list_all_iff)

lemma acyclic_extend_layer:
  assumes ac: "acyclic (dep_rel deps (A - L))"
    and L: "\<And>x. x \<in> L \<Longrightarrow> set (deps x) \<inter> A = {}"
  shows "acyclic (dep_rel deps A)"
proof (rule acyclicI, rule allI, rule notI)
  fix x assume cyc: "(x, x) \<in> (dep_rel deps A)\<^sup>+"
  have stay: "y \<notin> L \<and> (x \<notin> L \<longrightarrow> (x, y) \<in> (dep_rel deps (A - L))\<^sup>+)"
    if "(x, y) \<in> (dep_rel deps A)\<^sup>+" for x y
    using that
  proof (induction rule: trancl_induct)
    case (base y)
    then show ?case using L by (fastforce simp: dep_rel_def)
  next
    case (step y z)
    then have "z \<notin> L" using L by (fastforce simp: dep_rel_def)
    with step have "(y, z) \<in> dep_rel deps (A - L)" by (auto simp: dep_rel_def)
    with step \<open>z \<notin> L\<close> show ?case by (meson trancl.trancl_into_trancl)
  qed
  from stay [OF cyc] have "(x, x) \<in> (dep_rel deps (A - L))\<^sup>+" by blast
  with ac show False by (simp add: acyclic_def)
qed

lemma peel_sound: "peel deps remaining \<Longrightarrow> acyclic (dep_rel deps (set remaining))"
proof (induction deps remaining rule: peel.induct)
  case (1 deps remaining)
  show ?case
  proof (cases "remaining = []")
    case True
    then show ?thesis by (simp add: dep_rel_def acyclic_def)
  next
    case False
    define L where "L = peel_layer deps remaining"
    from 1(2) False have L: "L \<noteq> []" and p: "peel deps (filter (\<lambda>x. x \<notin> set L) remaining)"
      by (auto simp: peel.simps [of deps remaining] Let_def L_def split: if_splits)
    have "acyclic (dep_rel deps (set (filter (\<lambda>x. x \<notin> set L) remaining)))"
      using 1(1) [OF False L_def L p] .
    then have "acyclic (dep_rel deps (set remaining - set L))"
      by (simp add: set_diff_eq)
    then show ?thesis
      by (rule acyclic_extend_layer) (simp add: L_def set_peel_layer)
  qed
qed

lemma acyclic_has_source:
  assumes "acyclic (dep_rel deps A)" and "finite A" and "A \<noteq> {}"
  obtains x where "x \<in> A" and "set (deps x) \<inter> A = {}"
proof -
  have "wf (dep_rel deps A)"
    using assms by (intro finite_acyclic_wf finite_dep_rel)
  then have "\<exists>x\<in>A. \<forall>y. (y, x) \<in> dep_rel deps A \<longrightarrow> y \<notin> A"
    using assms(3) by (rule wfE_min') blast
  then obtain x where x: "x \<in> A" and min: "\<And>y. (y, x) \<in> dep_rel deps A \<Longrightarrow> y \<notin> A"
    by auto
  have "set (deps x) \<inter> A = {}"
    using x min unfolding dep_rel_def by blast
  with x that show ?thesis by blast
qed

lemma peel_complete: "acyclic (dep_rel deps (set remaining)) \<Longrightarrow> peel deps remaining"
proof (induction deps remaining rule: peel.induct)
  case (1 deps remaining)
  show ?case
  proof (cases "remaining = []")
    case True
    then show ?thesis by (simp add: peel.simps)
  next
    case False
    define L where "L = peel_layer deps remaining"
    obtain x where "x \<in> set remaining" "set (deps x) \<inter> set remaining = {}"
      using acyclic_has_source [OF 1(2)] False by auto
    then have "x \<in> set L" by (simp add: L_def set_peel_layer)
    then have L: "L \<noteq> []" by auto
    have "acyclic (dep_rel deps (set (filter (\<lambda>x. x \<notin> set L) remaining)))"
      using 1(2) by (rule acyclic_subset) (rule dep_rel_mono, auto)
    then have "peel deps (filter (\<lambda>x. x \<notin> set L) remaining)"
      using 1(1) [OF False L_def L] by simp
    with False L show ?thesis
      by (simp add: peel.simps [of deps remaining] Let_def L_def)
  qed
qed

theorem peel_iff_acyclic: "peel deps remaining \<longleftrightarrow> acyclic (dep_rel deps (set remaining))"
  using peel_sound peel_complete by blast

lemma peel_cong_set: "set xs = set ys \<Longrightarrow> peel deps xs = peel deps ys"
  by (simp add: peel_iff_acyclic)

section \<open>Worklist closure\<close>

text \<open>
  The loop \<open>found = set(start); pending = list(found); while pending: for key in
  successors(pending.pop()): if key not in found: add it to both\<close>. The successors come from a
  dictionary, and an unknown key raises, which is \<open>None\<close> here. \<open>pop()\<close> takes the last element
  appended: the worklist is that list reversed.
\<close>

fun push_new :: "'a list \<Rightarrow> 'a list \<Rightarrow> 'a list \<Rightarrow> 'a list \<times> 'a list" where
  "push_new [] found pending = (found, pending)"
| "push_new (k # ks) found pending =
     (if k \<in> set found then push_new ks found pending
      else push_new ks (k # found) (k # pending))"

lemma push_new_found:
  "push_new ks found pending = (f', p') \<Longrightarrow> set f' = set found \<union> set ks"
proof (induction ks arbitrary: found pending)
  case Nil
  then show ?case by simp
next
  case (Cons k ks)
  show ?case
  proof (cases "k \<in> set found")
    case True
    with Cons.prems have "push_new ks found pending = (f', p')" by simp
    from Cons.IH [OF this] True show ?thesis by auto
  next
    case False
    with Cons.prems have "push_new ks (k # found) (k # pending) = (f', p')" by simp
    from Cons.IH [OF this] show ?thesis by auto
  qed
qed

lemma push_new_pending:
  "push_new ks found pending = (f', p') \<Longrightarrow> set p' = set pending \<union> (set ks - set found)"
proof (induction ks arbitrary: found pending)
  case Nil
  then show ?case by simp
next
  case (Cons k ks)
  show ?case
  proof (cases "k \<in> set found")
    case True
    with Cons.prems have "push_new ks found pending = (f', p')" by simp
    from Cons.IH [OF this] True show ?thesis by auto
  next
    case False
    with Cons.prems have "push_new ks (k # found) (k # pending) = (f', p')" by simp
    from Cons.IH [OF this] False show ?thesis by auto
  qed
qed

lemma push_new_measure:
  assumes "push_new ks found pending = (f', p')" and "set ks \<subseteq> U" and "finite U"
  shows "2 * card (U - set f') + length p' \<le> 2 * card (U - set found) + length pending"
  using assms
proof (induction ks found pending arbitrary: f' p' rule: push_new.induct)
  case (1 found pending)
  then show ?case by simp
next
  case (2 k ks found pending)
  show ?case
  proof (cases "k \<in> set found")
    case True
    with 2 show ?thesis by simp
  next
    case False
    with 2 have "2 * card (U - set f') + length p'
        \<le> 2 * card (U - set (k # found)) + length (k # pending)" by simp
    moreover have "card (U - set (k # found)) < card (U - set found)"
      using 2 False by (intro psubset_card_mono) auto
    ultimately show ?thesis by simp
  qed
qed

definition succ_universe :: "('a \<times> 'a list) list \<Rightarrow> 'a set" where
  "succ_universe g = (\<Union>(_, ks) \<in> set g. set ks)"

lemma finite_succ_universe [simp]: "finite (succ_universe g)"
  by (auto simp: succ_universe_def)

lemma map_of_succ_universe: "map_of g k = Some ks \<Longrightarrow> set ks \<subseteq> succ_universe g"
  by (auto simp: succ_universe_def dest: map_of_SomeD)

function close_deps :: "('a \<times> 'a list) list \<Rightarrow> 'a list \<Rightarrow> 'a list \<Rightarrow> 'a list option" where
  "close_deps g found [] = Some found"
| "close_deps g found (p # pending) =
     (case map_of g p of
        None \<Rightarrow> None
      | Some ks \<Rightarrow> (case push_new ks found pending of (f', p') \<Rightarrow> close_deps g f' p'))"
  by pat_completeness auto
termination
proof (relation "measure (\<lambda>(g, found, pending). 2 * card (succ_universe g - set found) + length pending)",
    goal_cases)
  case 1
  then show ?case by simp
next
  case (2 g found p pending ks f' p')
  then have "push_new ks found pending = (f', p')" by simp
  from push_new_measure [OF this map_of_succ_universe [OF 2(1)]] show ?case by simp
qed

definition succ_rel :: "('a \<times> 'a list) list \<Rightarrow> ('a \<times> 'a) set" where
  "succ_rel g = {(k, d). \<exists>ks. map_of g k = Some ks \<and> d \<in> set ks}"

lemma close_deps_invariant:
  assumes "close_deps g found pending = Some A"
    and "set pending \<subseteq> set found"
    and "\<And>x. x \<in> set found - set pending \<Longrightarrow> succ_rel g `` {x} \<subseteq> set found \<and> x \<in> dom (map_of g)"
  shows "set found \<subseteq> set A \<and> set A \<subseteq> (succ_rel g)\<^sup>* `` set found
    \<and> succ_rel g `` set A \<subseteq> set A \<and> set A \<subseteq> dom (map_of g)"
  using assms
proof (induction g found pending arbitrary: A rule: close_deps.induct)
  case (1 g found)
  then show ?case by auto
next
  case (2 g found p pending)
  from "2.prems"(1) obtain ks f' p' where ks: "map_of g p = Some ks"
    and pn: "push_new ks found pending = (f', p')" and rec: "close_deps g f' p' = Some A"
    by (auto split: option.splits prod.splits)
  note f' = push_new_found [OF pn] and p' = push_new_pending [OF pn]
  have succ_p: "succ_rel g `` {p} = set ks"
    using ks by (auto simp: succ_rel_def)
  have "set f' \<subseteq> set A \<and> set A \<subseteq> (succ_rel g)\<^sup>* `` set f'
    \<and> succ_rel g `` set A \<subseteq> set A \<and> set A \<subseteq> dom (map_of g)"
  proof (rule "2.IH" [OF ks pn [symmetric] rec])
    show "set p' \<subseteq> set f'" using f' p' "2.prems"(2) by auto
    fix x assume x: "x \<in> set f' - set p'"
    show "succ_rel g `` {x} \<subseteq> set f' \<and> x \<in> dom (map_of g)"
    proof (cases "x = p")
      case True
      then show ?thesis using succ_p f' ks by auto
    next
      case False
      with x f' p' have "x \<in> set found - set (p # pending)" by auto
      from "2.prems"(3) [OF this] show ?thesis using f' by auto
    qed
  qed
  moreover have "(succ_rel g)\<^sup>* `` set f' \<subseteq> (succ_rel g)\<^sup>* `` set found"
  proof -
    have "set ks \<subseteq> (succ_rel g)\<^sup>* `` set found"
      using "2.prems"(2) succ_p by auto
    then have "set f' \<subseteq> (succ_rel g)\<^sup>* `` set found" using f' by auto
    then have "(succ_rel g)\<^sup>* `` set f' \<subseteq> (succ_rel g)\<^sup>* `` (succ_rel g)\<^sup>* `` set found"
      by (rule Image_mono [OF subset_refl])
    then show ?thesis by (simp add: relcomp_Image [symmetric])
  qed
  ultimately show ?case using f' by auto
qed

theorem close_deps_reachable:
  assumes "close_deps g (remdups ds) (remdups ds) = Some A"
  shows "set A = (succ_rel g)\<^sup>* `` set ds"
proof -
  from close_deps_invariant [OF assms]
  have A: "set ds \<subseteq> set A" "set A \<subseteq> (succ_rel g)\<^sup>* `` set ds" "succ_rel g `` set A \<subseteq> set A"
    by simp_all
  have "(succ_rel g)\<^sup>* `` set A \<subseteq> set A"
    using A(3) Image_closed_trancl by blast
  with A(1,2) show ?thesis by blast
qed

theorem close_deps_total:
  assumes "set found \<union> set pending \<subseteq> dom (map_of g)" and "succ_universe g \<subseteq> dom (map_of g)"
  shows "\<exists>A. close_deps g found pending = Some A"
  using assms
proof (induction g found pending rule: close_deps.induct)
  case (1 g found)
  then show ?case by simp
next
  case (2 g found p pending)
  then obtain ks where ks: "map_of g p = Some ks" by auto
  obtain f' p' where pn: "push_new ks found pending = (f', p')" by fastforce
  have "set f' \<union> set p' \<subseteq> dom (map_of g)"
    using push_new_found [OF pn] push_new_pending [OF pn] map_of_succ_universe [OF ks] "2.prems"
    by auto
  from "2.IH" [OF ks pn [symmetric] this] "2.prems"(2) ks pn show ?case by simp
qed

end
