(* ===== verification/Domain.thy ===== *)
theory Domain
  imports Complex_Main Prelude
begin

text \<open>
  The shared data model: the enumerations of \<open>src/domain/enums.py\<close>, the task and graph models of
  \<open>src/domain/task.py\<close>, the output contracts of \<open>src/domain/output_dependency.py\<close>, the JSON values
  that event payloads carry, and the exceptions of the runtime package as one datatype.

  Record fields carry a short prefix naming their class (\<open>t_\<close> Task, \<open>g_\<close> graph, \<open>rq_\<close> replan
  request, \<open>oo_\<close> output outcome, \<open>or_\<close> output requirements), because several classes share field
  names. Enumeration members carry the prefix of their enumeration for the same reason. Strings are
  lists of code points below 256. Datetimes are integers (microseconds since the epoch), JSON
  numbers that are Python floats are rationals or one of the non-finite values.
\<close>

section \<open>JSON values and Python equality\<close>

datatype pyfloat = Finite rat | PosInf | NegInf | NaN

datatype json =
    JNull
  | JBool bool
  | JInt int
  | JFloat pyfloat
  | JStr string
  | JList "json list"
  | JObj "(string \<times> json) list"

type_synonym json_object = "(string \<times> json) list"

text \<open>
  \<open>value == literal\<close> for a scalar literal: Python compares booleans, integers and floats by value,
  so that \<open>1 == True\<close>; a NaN equals nothing; strings and \<open>None\<close> only equal themselves.
\<close>

fun json_number :: "json \<Rightarrow> rat option" where
  "json_number (JBool b) = Some (if b then 1 else 0)"
| "json_number (JInt i) = Some (of_int i)"
| "json_number (JFloat (Finite r)) = Some r"
| "json_number _ = None"

fun scalar_eq :: "json \<Rightarrow> json \<Rightarrow> bool" where
  "scalar_eq (JStr s) (JStr t) = (s = t)"
| "scalar_eq JNull JNull = True"
| "scalar_eq a b = (case (json_number a, json_number b) of
     (Some x, Some y) \<Rightarrow> x = y
   | _ \<Rightarrow> a = b \<and> (a = JFloat PosInf \<or> a = JFloat NegInf))"

section \<open>Enumerations\<close>

datatype run_status =
    RS_DRAFT | RS_SCHEME_GENERATING | RS_AWAITING_CONFIRMATION | RS_PLANNING | RS_RUNNING
  | RS_REVIEW | RS_PROVING | RS_RELEASED | RS_FAILED | RS_CANCELLED

datatype task_status =
    TS_CREATED | TS_WAITING | TS_READY | TS_RUNNING | TS_WAITING_FOR_CAPABILITY
  | TS_SELF_CORRECTING | TS_BLOCKED | TS_REVIEW | TS_COMPLETED | TS_FAILED
  | TS_CAPABILITY_BUILD_FAILED | TS_CANCELLED

datatype task_origin = TO_PLAN | TO_REPLAN | TO_REVIEW_FIX

datatype evidence_acquisition_status =
  EA_COMPLETED | EA_PARTIAL | EA_ENTITLEMENT_BLOCKED | EA_FAILED

datatype replan_decision = RD_PENDING | RD_APPROVED | RD_REJECTED

fun run_status_value :: "run_status \<Rightarrow> string" where
  "run_status_value RS_DRAFT = ''DRAFT''"
| "run_status_value RS_SCHEME_GENERATING = ''SCHEME_GENERATING''"
| "run_status_value RS_AWAITING_CONFIRMATION = ''AWAITING_CONFIRMATION''"
| "run_status_value RS_PLANNING = ''PLANNING''"
| "run_status_value RS_RUNNING = ''RUNNING''"
| "run_status_value RS_REVIEW = ''REVIEW''"
| "run_status_value RS_PROVING = ''PROVING''"
| "run_status_value RS_RELEASED = ''RELEASED''"
| "run_status_value RS_FAILED = ''FAILED''"
| "run_status_value RS_CANCELLED = ''CANCELLED''"

fun task_status_value :: "task_status \<Rightarrow> string" where
  "task_status_value TS_CREATED = ''CREATED''"
| "task_status_value TS_WAITING = ''WAITING''"
| "task_status_value TS_READY = ''READY''"
| "task_status_value TS_RUNNING = ''RUNNING''"
| "task_status_value TS_WAITING_FOR_CAPABILITY = ''WAITING_FOR_CAPABILITY''"
| "task_status_value TS_SELF_CORRECTING = ''SELF_CORRECTING''"
| "task_status_value TS_BLOCKED = ''BLOCKED''"
| "task_status_value TS_REVIEW = ''REVIEW''"
| "task_status_value TS_COMPLETED = ''COMPLETED''"
| "task_status_value TS_FAILED = ''FAILED''"
| "task_status_value TS_CAPABILITY_BUILD_FAILED = ''CAPABILITY_BUILD_FAILED''"
| "task_status_value TS_CANCELLED = ''CANCELLED''"

section \<open>Exceptions of the runtime package\<close>

text \<open>One constructor per raise site of a class that has several, one class per Python class.\<close>

datatype state_reason =
    Planned_graph_other_run
  | Planned_tasks_other_run
  | Planned_graph_cycle

datatype permission_reason =
    Only_lead_or_planner
  | Replan_not_approved
  | Actor_not_decider

datatype graph_reason =
    Must_add_a_task
  | Inserted_task_has_dependencies
  | Replan_other_run
  | Requesting_task_unknown
  | New_task_other_run
  | New_task_not_created
  | Duplicate_task_id
  | Unknown_graph_task_ids "string list"
  | Dependencies_immutable task_status string
  | Edge_exists string string
  | Edge_missing string string
  | Task_ids_not_unique
  | Unknown_task_dependencies
  | Self_referential_edge
  | Dependency_cycle

datatype sequence_reason =
    Run_already_terminal
  | Unexpected_sequence int int
  | Duplicate_event_id string

datatype event_recovery_reason =
    WRONG_RUN | MALFORMED_EVENT | PERSISTED_EVENT_MISMATCH | SEQUENCE_GAP | STALE_EVENT
  | DUPLICATE_SEQUENCE | CONFLICTING_DUPLICATE | DUPLICATE_EVENT_ID | POST_TERMINAL_EVENT

datatype cursor_error_code = INVALID_CURSOR | CURSOR_AHEAD

datatype checkpoint_reason =
    Ckpt_planned_graph_other_run
  | Ckpt_planned_graph_identity
  | Ckpt_planned_tasks_other_run
  | Ckpt_payload_malformed
  | Ckpt_actual_graph_other_run
  | Ckpt_actual_graph_identity
  | Ckpt_version_mismatch
  | Ckpt_actual_tasks_other_run
  | Ckpt_task_states_mismatch
  | Ckpt_stored_other_run

datatype exn =
    KeyError string
  | ValidationError string
  | ValueError string
  | TypeError
  | InvalidTaskTransition string task_status task_status
  | RuntimeStateError state_reason
  | GraphMutationPermissionError permission_reason
  | GraphMutationValidationError graph_reason
  | EventSequenceError sequence_reason
  | EventReconciliationRequired event_recovery_reason string int "int option"
  | CursorPreflightError cursor_error_code
  | UnsupportedRuntimeEventError string int
  | RuntimeCheckpointIntegrityError checkpoint_reason
  | DependencyDeadlockError
  | LocalOutputFailure
  | ExecutorError string bool
  | CancelledError
  | ExceptionGroup "exn list"

section \<open>Output contracts\<close>

datatype output_status =
    OS_COMPLETED | OS_PARTIAL | OS_INSUFFICIENT_DATA | OS_INSUFFICIENT_EVIDENCE
  | OS_UNAVAILABLE_ENTITLEMENT | OS_UNAVAILABLE_PROVIDER | OS_BLOCKED_BY_RUNTIME
  | OS_BLOCKED_BY_DEPENDENCY | OS_FAILED

record output_outcome =
  oo_output_id :: string
  oo_status :: output_status
  oo_refs :: "string list"
  oo_reason_code :: "string option"

definition output_outcome_valid :: "output_outcome \<Rightarrow> bool" where
  "output_outcome_valid o' \<longleftrightarrow>
     oo_output_id o' \<noteq> [] \<and> (oo_status o' = OS_COMPLETED \<longrightarrow> oo_refs o' \<noteq> [])"

record output_requirements =
  or_hard_required :: "string list"
  or_any_of :: "string list list"
  or_supporting :: "string list"
  or_enrichment :: "string list"

datatype sufficiency_status = SUFFICIENT | PARTIAL_BUT_SUFFICIENT | INSUFFICIENT

record sufficiency =
  sf_status :: sufficiency_status
  sf_missing_required :: "string list"
  sf_unavailable_optional :: "string list"

fun join_with :: "string \<Rightarrow> string list \<Rightarrow> string" where
  "join_with sep [] = []"
| "join_with sep [x] = x"
| "join_with sep (x # xs) = x @ sep @ join_with sep xs"

definition any_of_label :: "string list \<Rightarrow> string" where
  "any_of_label grp = ''ANY_OF('' @ join_with ''|'' grp @ '')''"

definition evidence_sufficiency :: "output_requirements \<Rightarrow> string set \<Rightarrow> sufficiency" where
  "evidence_sufficiency requirements available =
     (let missing = filter (\<lambda>key. key \<notin> available) (or_hard_required requirements)
          @ map any_of_label
              (filter (\<lambda>grp. grp = [] \<or> list_all (\<lambda>k. k \<notin> available) grp) (or_any_of requirements));
        optional = filter (\<lambda>key. key \<notin> available)
          (or_supporting requirements @ or_enrichment requirements)
      in \<lparr> sf_status = (if missing \<noteq> [] then INSUFFICIENT
                        else if optional \<noteq> [] then PARTIAL_BUT_SUFFICIENT else SUFFICIENT),
           sf_missing_required = missing,
           sf_unavailable_optional = optional \<rparr>)"

text \<open>What the contract promises: every hard key and one key of every alternative is there.\<close>

definition requirements_met :: "output_requirements \<Rightarrow> string set \<Rightarrow> bool" where
  "requirements_met req available \<longleftrightarrow>
     set (or_hard_required req) \<subseteq> available \<and>
     (\<forall>grp \<in> set (or_any_of req). set grp \<inter> available \<noteq> {})"

lemma sufficiency_missing_iff:
  "sf_missing_required (evidence_sufficiency req available) = [] \<longleftrightarrow> requirements_met req available"
  by (auto simp: evidence_sufficiency_def requirements_met_def Let_def filter_empty_conv list_all_iff)

lemma sufficiency_status_iff:
  "sf_status (evidence_sufficiency req available) = INSUFFICIENT \<longleftrightarrow> \<not> requirements_met req available"
  by (simp add: sufficiency_missing_iff [symmetric]) (simp add: evidence_sufficiency_def Let_def)

lemma sufficiency_mono:
  "requirements_met req A \<Longrightarrow> A \<subseteq> B \<Longrightarrow> requirements_met req B"
  unfolding requirements_met_def by blast

section \<open>Tasks and graphs\<close>

record task =
  t_created_at :: int
  t_task_id :: string
  t_run_id :: string
  t_parent_task_id :: "string option"
  t_task_type :: string
  t_goal :: string
  t_assigned_agent :: string
  t_skill_id :: string
  t_dependencies :: "string list"
  t_origin :: task_origin
  t_reason_code :: "string option"
  t_status :: task_status
  t_progress :: rat
  t_attempt_count :: int
  t_result_ref :: "string option"
  t_task_input_evidence_ids :: "string list"
  t_task_output_evidence_ids :: "string list"
  t_evidence_acquisition_status :: "evidence_acquisition_status option"
  t_evidence_source_coverage :: json_object
  t_output_requirements :: "output_requirements option"
  t_output_outcomes :: "output_outcome list"
  t_missing_output_dependencies :: "string list"

definition task_fields_valid :: "task \<Rightarrow> bool" where
  "task_fields_valid t \<longleftrightarrow> 0 \<le> t_progress t \<and> t_progress t \<le> 1 \<and> 0 \<le> t_attempt_count t
     \<and> list_all output_outcome_valid (t_output_outcomes t)"

record planned_task_graph =
  g_created_at :: int
  g_graph_id :: string
  g_run_id :: string
  g_version :: int
  g_tasks :: "task list"

datatype audit_operation =
    Audit_add_node string
  | Audit_add_edge string string
  | Audit_remove_edge string string

record mutation_entry =
  mh_replan_id :: string
  mh_approved_by :: string
  mh_version_before :: int
  mh_version_after :: int
  mh_operations :: "audit_operation list"
  mh_created_task_ids :: "string list"

record actual_runtime_graph = planned_task_graph +
  g_mutation_history :: "mutation_entry list"

record replan_request =
  rq_created_at :: int
  rq_replan_id :: string
  rq_run_id :: string
  rq_requesting_task_id :: string
  rq_requested_by :: string
  rq_reason_code :: string
  rq_reason_detail :: string
  rq_proposed_graph_change :: json_object
  rq_decision :: replan_decision
  rq_decided_by :: "string option"
  rq_created_task_ids :: "string list"

definition task_ids :: "task list \<Rightarrow> string list" where
  "task_ids ts = map t_task_id ts"

text \<open>The pydantic validator of \<open>PlannedTaskGraph\<close>, field constraints included.\<close>

definition dependencies_reference_known_tasks :: "'a planned_task_graph_scheme \<Rightarrow> bool" where
  "dependencies_reference_known_tasks g \<longleftrightarrow>
     distinct (task_ids (g_tasks g)) \<and>
     list_all (\<lambda>t. list_all (\<lambda>d. d \<in> set (task_ids (g_tasks g))) (t_dependencies t)) (g_tasks g)"

definition graph_model_valid :: "'a planned_task_graph_scheme \<Rightarrow> bool" where
  "graph_model_valid g \<longleftrightarrow> 1 \<le> g_version g \<and> list_all task_fields_valid (g_tasks g)
     \<and> dependencies_reference_known_tasks g"

text \<open>
  Task objects are shared and mutated in place. \<open>find_task\<close> is the first-match loop of
  \<open>RuntimeState.task\<close>; \<open>upd_task\<close> is a mutation of the object that loop returns.
\<close>

fun find_task :: "string \<Rightarrow> task list \<Rightarrow> task option" where
  "find_task k [] = None"
| "find_task k (t # ts) = (if t_task_id t = k then Some t else find_task k ts)"

fun upd_task :: "string \<Rightarrow> (task \<Rightarrow> task) \<Rightarrow> task list \<Rightarrow> task list" where
  "upd_task k f [] = []"
| "upd_task k f (t # ts) = (if t_task_id t = k then f t # ts else t # upd_task k f ts)"

lemma task_ids_simps [simp]:
  "task_ids [] = []" "task_ids (t # ts) = t_task_id t # task_ids ts"
  "task_ids (ts @ us) = task_ids ts @ task_ids us"
  by (simp_all add: task_ids_def)

lemma length_task_ids [simp]: "length (task_ids ts) = length ts"
  by (simp add: task_ids_def)

lemma find_task_None_iff: "find_task k ts = None \<longleftrightarrow> k \<notin> set (task_ids ts)"
  by (induction ts) auto

lemma find_task_SomeD: "find_task k ts = Some t \<Longrightarrow> t \<in> set ts \<and> t_task_id t = k"
  by (induction ts) (auto split: if_splits)

lemma find_task_distinct:
  "distinct (task_ids ts) \<Longrightarrow> t \<in> set ts \<Longrightarrow> find_task (t_task_id t) ts = Some t"
  by (induction ts) (auto simp: task_ids_def)

lemma task_ids_upd_task [simp]:
  assumes "\<And>t. t_task_id (f t) = t_task_id t"
  shows "task_ids (upd_task k f ts) = task_ids ts"
  using assms by (induction ts) auto

lemma find_task_upd_same:
  assumes "\<And>t. t_task_id (f t) = t_task_id t"
  shows "find_task k (upd_task k f ts) = map_option f (find_task k ts)"
  using assms by (induction ts) auto

lemma find_task_upd_other:
  assumes "\<And>t. t_task_id (f t) = t_task_id t" and "j \<noteq> k"
  shows "find_task j (upd_task k f ts) = find_task j ts"
  using assms by (induction ts) auto

lemma set_upd_taskD: "u \<in> set (upd_task k f ts) \<Longrightarrow>
    u \<in> set ts \<or> (\<exists>t \<in> set ts. t_task_id t = k \<and> find_task k ts = Some t \<and> u = f t)"
  by (induction ts) (auto split: if_splits)

lemma upd_task_eq_map:
  "distinct (task_ids ts) \<Longrightarrow> upd_task k f ts = map (\<lambda>t. if t_task_id t = k then f t else t) ts"
proof (induction ts)
  case Nil
  then show ?case by simp
next
  case (Cons t ts)
  show ?case
  proof (cases "t_task_id t = k")
    case True
    with Cons.prems have "k \<notin> t_task_id ` set ts" by (simp add: task_ids_def)
    then have "\<And>u. u \<in> set ts \<Longrightarrow> t_task_id u \<noteq> k" by blast
    then have "map (\<lambda>t. if t_task_id t = k then f t else t) ts = ts" by (simp add: map_idI)
    with True show ?thesis by simp
  next
    case False
    with Cons show ?thesis by simp
  qed
qed

end
