(* ===== verification/Lifecycle.thy ===== *)
theory Lifecycle
  imports Domain
begin

text \<open>
  \<open>src/runtime/lifecycle.py\<close>: the table of allowed task transitions, \<open>transition_task\<close>, and the
  projection of a raw status to its display stage and terminal bit. The step relation
  \<open>status_step\<close> is one effective transition; \<open>status_reach\<close> is any number of them.
\<close>

section \<open>The transition table\<close>

fun allowed_transitions :: "task_status \<Rightarrow> task_status list" where
  "allowed_transitions TS_CREATED = [TS_WAITING, TS_READY, TS_CANCELLED]"
| "allowed_transitions TS_WAITING = [TS_READY, TS_BLOCKED, TS_CANCELLED]"
| "allowed_transitions TS_READY = [TS_RUNNING, TS_CANCELLED]"
| "allowed_transitions TS_RUNNING =
     [TS_READY, TS_WAITING_FOR_CAPABILITY, TS_SELF_CORRECTING, TS_REVIEW, TS_COMPLETED, TS_FAILED,
      TS_CANCELLED]"
| "allowed_transitions TS_WAITING_FOR_CAPABILITY =
     [TS_READY, TS_BLOCKED, TS_CAPABILITY_BUILD_FAILED, TS_CANCELLED]"
| "allowed_transitions TS_SELF_CORRECTING = [TS_READY, TS_RUNNING, TS_FAILED, TS_CANCELLED]"
| "allowed_transitions TS_BLOCKED = [TS_READY, TS_CANCELLED]"
| "allowed_transitions TS_REVIEW = [TS_COMPLETED, TS_FAILED, TS_CANCELLED]"
| "allowed_transitions TS_COMPLETED = []"
| "allowed_transitions TS_FAILED = []"
| "allowed_transitions TS_CAPABILITY_BUILD_FAILED = [TS_READY, TS_BLOCKED, TS_FAILED, TS_CANCELLED]"
| "allowed_transitions TS_CANCELLED = []"

definition transition_task :: "task \<Rightarrow> task_status \<Rightarrow> exn + task" where
  "transition_task t target =
     (if target = t_status t then Inr t
      else if target \<notin> set (allowed_transitions (t_status t))
      then Inl (InvalidTaskTransition (t_task_id t) (t_status t) target)
      else Inr (t\<lparr>t_status := target\<rparr>))"

section \<open>The display projection\<close>

datatype task_projection_stage =
    PS_QUEUED | PS_READY | PS_ACTIVE | PS_WAITING_SUPPORT | PS_CORRECTING | PS_BLOCKED
  | PS_REVIEW | PS_COMPLETE | PS_FAILED | PS_CANCELLED

record task_lifecycle_projection =
  lp_status :: task_status
  lp_stage :: task_projection_stage
  lp_terminal :: bool

fun task_stage_by_status :: "task_status \<Rightarrow> task_projection_stage" where
  "task_stage_by_status TS_CREATED = PS_QUEUED"
| "task_stage_by_status TS_WAITING = PS_QUEUED"
| "task_stage_by_status TS_READY = PS_READY"
| "task_stage_by_status TS_RUNNING = PS_ACTIVE"
| "task_stage_by_status TS_WAITING_FOR_CAPABILITY = PS_WAITING_SUPPORT"
| "task_stage_by_status TS_SELF_CORRECTING = PS_CORRECTING"
| "task_stage_by_status TS_BLOCKED = PS_BLOCKED"
| "task_stage_by_status TS_REVIEW = PS_REVIEW"
| "task_stage_by_status TS_COMPLETED = PS_COMPLETE"
| "task_stage_by_status TS_FAILED = PS_FAILED"
| "task_stage_by_status TS_CAPABILITY_BUILD_FAILED = PS_FAILED"
| "task_stage_by_status TS_CANCELLED = PS_CANCELLED"

definition terminal_task_statuses :: "task_status list" where
  "terminal_task_statuses = [TS_COMPLETED, TS_FAILED, TS_CAPABILITY_BUILD_FAILED, TS_CANCELLED]"

definition project_task_lifecycle :: "task_status \<Rightarrow> task_lifecycle_projection" where
  "project_task_lifecycle status =
     \<lparr> lp_status = status, lp_stage = task_stage_by_status status,
       lp_terminal = (status \<in> set terminal_task_statuses) \<rparr>"

section \<open>Steps and reachability of statuses\<close>

inductive status_step :: "task_status \<Rightarrow> task_status \<Rightarrow> bool" where
  allowed: "s' \<in> set (allowed_transitions s) \<Longrightarrow> status_step s s'"

abbreviation status_reach :: "task_status \<Rightarrow> task_status \<Rightarrow> bool" where
  "status_reach \<equiv> status_step\<^sup>*\<^sup>*"

inductive_simps status_step_iff [simp]: "status_step s s'"

code_pred status_step .

lemma transition_task_Inr_iff:
  "transition_task t s' = Inr t' \<longleftrightarrow>
     (s' = t_status t \<or> s' \<in> set (allowed_transitions (t_status t))) \<and> t' = t\<lparr>t_status := s'\<rparr>"
  by (auto simp: transition_task_def)

lemma transition_task_InrD [step_elims]:
  "transition_task t s' = Inr t' \<Longrightarrow> t' = t\<lparr>t_status := s'\<rparr> \<and> status_reach (t_status t) s'"
  by (auto simp: transition_task_Inr_iff)

lemma transition_task_Inl_iff:
  "transition_task t s' = Inl e \<longleftrightarrow>
     s' \<noteq> t_status t \<and> s' \<notin> set (allowed_transitions (t_status t))
     \<and> e = InvalidTaskTransition (t_task_id t) (t_status t) s'"
  by (auto simp: transition_task_def)

text \<open>Nothing leaves \<open>COMPLETED\<close>, \<open>FAILED\<close> or \<open>CANCELLED\<close>, over any number of steps.\<close>

lemma final_statuses_absorbing:
  assumes "status_reach s s'" and "s \<in> {TS_COMPLETED, TS_FAILED, TS_CANCELLED}"
  shows "s' = s"
  using assms by (induction rule: rtranclp_induct) auto

text \<open>A task never becomes \<open>CREATED\<close> again, and only reaches \<open>COMPLETED\<close> through \<open>RUNNING\<close>.\<close>

lemma no_return_to_created: "status_step s TS_CREATED \<Longrightarrow> False"
  by (cases s) auto

lemma no_step_completed:
  "status_step s TS_COMPLETED \<Longrightarrow> s = TS_RUNNING \<or> s = TS_REVIEW"
  by (cases s) auto

lemma review_only_from_running: "status_step s TS_REVIEW \<Longrightarrow> s = TS_RUNNING"
  by (cases s) auto

text \<open>A run of statuses, oldest first, each an effective transition of its predecessor.\<close>

fun status_path :: "task_status \<Rightarrow> task_status list \<Rightarrow> bool" where
  "status_path s [] = True"
| "status_path s (s' # ss) = (status_step s s' \<and> status_path s' ss)"

lemma status_path_completed:
  assumes "status_path s ss" and "TS_COMPLETED \<in> set ss"
    and "s \<noteq> TS_RUNNING" and "s \<noteq> TS_REVIEW"
  shows "TS_RUNNING \<in> set ss"
  using assms
proof (induction ss arbitrary: s)
  case Nil
  then show ?case by simp
next
  case (Cons s' ss)
  then have step: "status_step s s'" and path: "status_path s' ss" by auto
  show ?case
  proof (cases "s' = TS_RUNNING")
    case True
    then show ?thesis by simp
  next
    case False
    have "s' \<noteq> TS_COMPLETED" using no_step_completed [of s] step Cons.prems by auto
    moreover have "s' \<noteq> TS_REVIEW" using review_only_from_running [of s] step Cons.prems by auto
    ultimately have "TS_RUNNING \<in> set ss"
      using Cons.IH [OF path] Cons.prems False by auto
    then show ?thesis by simp
  qed
qed

end
