(* ===== verification/RuntimeEvents.thy ===== *)
theory RuntimeEvents
  imports Domain
begin

text \<open>
  \<open>src/domain/runtime_event.py\<close>: the runtime event vocabulary, the classification of event types
  by their effect on projections, the frozen public payload schema, and the projection of a stored
  event to its redacted public form.

  A payload dictionary is an association list with distinct keys. Python's
  \<open>datetime.fromisoformat\<close> is the parameter \<open>iso_utc\<close> (does this text parse to an instant whose UTC
  offset is zero?); only the field \<open>generated_at\<close> of \<open>scheme.generated\<close> consults it.
\<close>

section \<open>Event types\<close>

datatype event_type =
    RUN_CREATED | RUN_STARTED | RUN_STATUS_CHANGED | RUN_COMPLETED | RUN_FAILED |
    CLOSURE_RECOVERY_STARTED | SCHEME_GENERATION_STARTED | SCHEME_GENERATED |
    SCHEME_CONFIRMED | PLAN_GENERATED | TASK_CREATED | TASK_READY | TASK_STARTED |
    TASK_PROGRESS | TASK_WAITING_FOR_CAPABILITY | TASK_RESUMED | TASK_SELF_CORRECTING |
    TASK_CORRECTION_RESOLVED | TASK_COMPLETED | TASK_FAILED | REPLAN_REQUESTED |
    REPLAN_APPROVED | REPLAN_REJECTED | GRAPH_TASK_ADDED | GRAPH_EDGE_ADDED |
    GRAPH_EDGE_REMOVED | GRAPH_VERSION_CHANGED | EVIDENCE_ACCEPTED | EVIDENCE_CONFLICT |
    CALCULATION_STARTED | CALCULATION_COMPLETED | CAPABILITY_GAP_DETECTED |
    CAPABILITY_BUILD_REQUESTED | CAPABILITY_BUILD_STARTED | CAPABILITY_GENERATED |
    CAPABILITY_STATIC_VALIDATED | CAPABILITY_SANDBOX_STARTED | CAPABILITY_TEST_PASSED |
    CAPABILITY_TEST_FAILED | CAPABILITY_FINANCIAL_VALIDATED | CAPABILITY_APPROVED |
    CAPABILITY_REGISTERED | CAPABILITY_BUILD_FAILED | WORKSPACE_CREATED |
    CAPABILITY_GENERATION_STARTED | CAPABILITY_TESTED | CAPABILITY_VALIDATED |
    REVIEW_STARTED | REVIEW_REQUIRED | REVIEW_RESOLVED | PROOF_STARTED | PROOF_REQUIRED |
    PROOF_GENERATED | PROOF_VERIFIED | PROOF_FAILED | RELEASE_COMPLETED

primrec event_type_value :: "event_type \<Rightarrow> string" where
  "event_type_value RUN_CREATED = ''run.created''"
| "event_type_value RUN_STARTED = ''run.started''"
| "event_type_value RUN_STATUS_CHANGED = ''run.status_changed''"
| "event_type_value RUN_COMPLETED = ''run.completed''"
| "event_type_value RUN_FAILED = ''run.failed''"
| "event_type_value CLOSURE_RECOVERY_STARTED = ''closure.recovery_started''"
| "event_type_value SCHEME_GENERATION_STARTED = ''scheme.generation_started''"
| "event_type_value SCHEME_GENERATED = ''scheme.generated''"
| "event_type_value SCHEME_CONFIRMED = ''scheme.confirmed''"
| "event_type_value PLAN_GENERATED = ''plan.generated''"
| "event_type_value TASK_CREATED = ''task.created''"
| "event_type_value TASK_READY = ''task.ready''"
| "event_type_value TASK_STARTED = ''task.started''"
| "event_type_value TASK_PROGRESS = ''task.progress''"
| "event_type_value TASK_WAITING_FOR_CAPABILITY = ''task.waiting_for_capability''"
| "event_type_value TASK_RESUMED = ''task.resumed''"
| "event_type_value TASK_SELF_CORRECTING = ''task.self_correcting''"
| "event_type_value TASK_CORRECTION_RESOLVED = ''task.correction_resolved''"
| "event_type_value TASK_COMPLETED = ''task.completed''"
| "event_type_value TASK_FAILED = ''task.failed''"
| "event_type_value REPLAN_REQUESTED = ''replan.requested''"
| "event_type_value REPLAN_APPROVED = ''replan.approved''"
| "event_type_value REPLAN_REJECTED = ''replan.rejected''"
| "event_type_value GRAPH_TASK_ADDED = ''graph.task_added''"
| "event_type_value GRAPH_EDGE_ADDED = ''graph.edge_added''"
| "event_type_value GRAPH_EDGE_REMOVED = ''graph.edge_removed''"
| "event_type_value GRAPH_VERSION_CHANGED = ''graph.version_changed''"
| "event_type_value EVIDENCE_ACCEPTED = ''evidence.accepted''"
| "event_type_value EVIDENCE_CONFLICT = ''evidence.conflict''"
| "event_type_value CALCULATION_STARTED = ''calculation.started''"
| "event_type_value CALCULATION_COMPLETED = ''calculation.completed''"
| "event_type_value CAPABILITY_GAP_DETECTED = ''capability.gap_detected''"
| "event_type_value CAPABILITY_BUILD_REQUESTED = ''capability.build_requested''"
| "event_type_value CAPABILITY_BUILD_STARTED = ''capability.build_started''"
| "event_type_value CAPABILITY_GENERATED = ''capability.generated''"
| "event_type_value CAPABILITY_STATIC_VALIDATED = ''capability.static_validated''"
| "event_type_value CAPABILITY_SANDBOX_STARTED = ''capability.sandbox_started''"
| "event_type_value CAPABILITY_TEST_PASSED = ''capability.test_passed''"
| "event_type_value CAPABILITY_TEST_FAILED = ''capability.test_failed''"
| "event_type_value CAPABILITY_FINANCIAL_VALIDATED = ''capability.financial_validated''"
| "event_type_value CAPABILITY_APPROVED = ''capability.approved''"
| "event_type_value CAPABILITY_REGISTERED = ''capability.registered''"
| "event_type_value CAPABILITY_BUILD_FAILED = ''capability.build_failed''"
| "event_type_value WORKSPACE_CREATED = ''workspace.created''"
| "event_type_value CAPABILITY_GENERATION_STARTED = ''capability.generation_started''"
| "event_type_value CAPABILITY_TESTED = ''capability.tested''"
| "event_type_value CAPABILITY_VALIDATED = ''capability.validated''"
| "event_type_value REVIEW_STARTED = ''review.started''"
| "event_type_value REVIEW_REQUIRED = ''review.required''"
| "event_type_value REVIEW_RESOLVED = ''review.resolved''"
| "event_type_value PROOF_STARTED = ''proof.started''"
| "event_type_value PROOF_REQUIRED = ''proof.required''"
| "event_type_value PROOF_GENERATED = ''proof.generated''"
| "event_type_value PROOF_VERIFIED = ''proof.verified''"
| "event_type_value PROOF_FAILED = ''proof.failed''"
| "event_type_value RELEASE_COMPLETED = ''release.completed''"

datatype runtime_event_effect = PATCH_PROJECTION | REFRESH_PROJECTION | OBSERVATION_ONLY | TERMINAL

definition patch_types :: "event_type list" where
  "patch_types = [
     RUN_STARTED, RUN_STATUS_CHANGED, TASK_READY, TASK_STARTED, TASK_PROGRESS,
     TASK_WAITING_FOR_CAPABILITY, TASK_RESUMED, TASK_SELF_CORRECTING, TASK_COMPLETED,
     TASK_FAILED]"

definition refresh_types :: "event_type list" where
  "refresh_types = [
     CLOSURE_RECOVERY_STARTED, RUN_CREATED, SCHEME_GENERATED, SCHEME_CONFIRMED,
     PLAN_GENERATED, TASK_CREATED, TASK_CORRECTION_RESOLVED, REPLAN_REQUESTED,
     REPLAN_APPROVED, GRAPH_TASK_ADDED, GRAPH_EDGE_ADDED, GRAPH_EDGE_REMOVED,
     GRAPH_VERSION_CHANGED, REVIEW_STARTED, REVIEW_RESOLVED, PROOF_REQUIRED, PROOF_STARTED,
     PROOF_GENERATED, PROOF_VERIFIED, PROOF_FAILED, RELEASE_COMPLETED]"

definition observation_types :: "event_type list" where
  "observation_types = [
     EVIDENCE_ACCEPTED, CALCULATION_STARTED, CALCULATION_COMPLETED, CAPABILITY_GAP_DETECTED,
     CAPABILITY_BUILD_REQUESTED, CAPABILITY_BUILD_STARTED, CAPABILITY_GENERATED,
     CAPABILITY_STATIC_VALIDATED, CAPABILITY_SANDBOX_STARTED, CAPABILITY_TEST_PASSED,
     CAPABILITY_TEST_FAILED, CAPABILITY_FINANCIAL_VALIDATED, CAPABILITY_APPROVED,
     CAPABILITY_REGISTERED, CAPABILITY_BUILD_FAILED]"

definition terminal_types :: "event_type list" where
  "terminal_types = [
     RUN_COMPLETED, RUN_FAILED]"

definition unsupported_event_types :: "event_type list" where
  "unsupported_event_types = [
     SCHEME_GENERATION_STARTED, REPLAN_REJECTED, EVIDENCE_CONFLICT, WORKSPACE_CREATED,
     CAPABILITY_GENERATION_STARTED, CAPABILITY_TESTED, CAPABILITY_VALIDATED, REVIEW_REQUIRED]"

definition event_supported :: "event_type \<Rightarrow> bool" where
  "event_supported et \<longleftrightarrow> et \<notin> set unsupported_event_types"

text \<open>The merged dictionary: a later comprehension overrides an earlier one, a missing key raises.\<close>

definition event_effect_by_type :: "event_type \<Rightarrow> runtime_event_effect option" where
  "event_effect_by_type et =
     (if et \<in> set terminal_types then Some TERMINAL
      else if et \<in> set observation_types then Some OBSERVATION_ONLY
      else if et \<in> set refresh_types then Some REFRESH_PROJECTION
      else if et \<in> set patch_types then Some PATCH_PROJECTION
      else None)"

definition graph_version_event_types :: "event_type list" where
  "graph_version_event_types = [
     RUN_STARTED, GRAPH_TASK_ADDED, GRAPH_EDGE_ADDED, GRAPH_EDGE_REMOVED,
     GRAPH_VERSION_CHANGED]"

definition task_id_required :: "event_type \<Rightarrow> bool" where
  "task_id_required et \<longleftrightarrow>
     (event_supported et \<and>
       (prefix ''task.'' (event_type_value et) \<or> prefix ''capability.'' (event_type_value et)))
     \<or> et \<in> set [CALCULATION_STARTED, CALCULATION_COMPLETED, REPLAN_REQUESTED, REPLAN_APPROVED,
          GRAPH_TASK_ADDED, GRAPH_EDGE_ADDED, GRAPH_EDGE_REMOVED]"

section \<open>Payload predicates\<close>

definition run_statuses :: "string list" where
  "run_statuses = [
     ''DRAFT'', ''SCHEME_GENERATING'', ''AWAITING_CONFIRMATION'', ''PLANNING'',
     ''RUNNING'', ''REVIEW'', ''PROVING'', ''RELEASED'', ''FAILED'', ''CANCELLED'']"

definition nonterminal_run_statuses :: "string list" where
  "nonterminal_run_statuses =
     filter (\<lambda>s. s \<notin> set [''RELEASED'', ''FAILED'', ''CANCELLED'']) run_statuses"

definition task_failure_statuses :: "string list" where
  "task_failure_statuses = [
     ''FAILED'', ''CAPABILITY_BUILD_FAILED'', ''CANCELLED'']"

definition review_statuses :: "string list" where
  "review_statuses = [
     ''PASS'', ''REVIEW'', ''BLOCK'']"

definition replan_decisions :: "string list" where
  "replan_decisions = [
     ''PENDING'', ''APPROVED'', ''REJECTED'']"

definition capability_scopes :: "string list" where
  "capability_scopes = [
     ''TASK'', ''RUN'']"

definition proof_failure_statuses :: "string list" where
  "proof_failure_statuses = [
     ''INVALID'', ''FAILED'', ''ERROR'', ''UNSUPPORTED'', ''NOT_IMPLEMENTED'']"

definition failure_stages :: "string list" where
  "failure_stages = [
     ''PLANNING'', ''DATA_EVIDENCE'', ''TASK_EXECUTION'', ''GENERATED_CAPABILITY'',
     ''FINANCIAL_REVIEW'', ''PROOF'', ''ARTIFACT_GENERATION'', ''RELEASE'',
     ''POST_SCHEDULER'', ''PERSISTENCE'', ''CANCELLATION'']"

text \<open>\<open>str.strip()\<close> on code points below 256.\<close>

definition is_space :: "char \<Rightarrow> bool" where
  "is_space c \<longleftrightarrow> (let n = of_char c :: nat in
     (9 \<le> n \<and> n \<le> 13) \<or> (28 \<le> n \<and> n \<le> 32) \<or> n = 133 \<or> n = 160)"

definition strip :: "string \<Rightarrow> string" where
  "strip s = rev (dropWhile is_space (rev (dropWhile is_space s)))"

definition safe_text :: "string \<Rightarrow> bool" where
  "safe_text s \<longleftrightarrow> s \<noteq> [] \<and> s = strip s \<and> length s \<le> 4096
     \<and> list_all (\<lambda>c. \<not> (of_char c :: nat) < 32) s"

fun is_string :: "json \<Rightarrow> bool" where
  "is_string (JStr s) = safe_text s"
| "is_string _ = False"

definition nullable_string :: "json \<Rightarrow> bool" where
  "nullable_string v \<longleftrightarrow> v = JNull \<or> is_string v"

fun is_boolean :: "json \<Rightarrow> bool" where
  "is_boolean (JBool b) = True"
| "is_boolean _ = False"

fun positive_integer :: "json \<Rightarrow> bool" where
  "positive_integer (JInt i) = (1 \<le> i)"
| "positive_integer _ = False"

fun nonnegative_integer :: "json \<Rightarrow> bool" where
  "nonnegative_integer (JInt i) = (0 \<le> i)"
| "nonnegative_integer _ = False"

fun is_ratio :: "json \<Rightarrow> bool" where
  "is_ratio (JInt i) = (0 \<le> i \<and> i \<le> 1)"
| "is_ratio (JFloat (Finite r)) = (0 \<le> r \<and> r \<le> 1)"
| "is_ratio _ = False"

fun one_of :: "string list \<Rightarrow> json \<Rightarrow> bool" where
  "one_of values (JStr s) = (s \<in> set values)"
| "one_of values _ = False"

definition scalar_eq_to :: "json \<Rightarrow> json \<Rightarrow> bool" where
  "scalar_eq_to expected v = scalar_eq v expected"

text \<open>\<open>value.replace("Z", "+00:00")\<close> before the parse.\<close>

definition replace_z :: "string \<Rightarrow> string" where
  "replace_z s = concat (map (\<lambda>c. if c = CHR ''Z'' then ''+00:00'' else [c]) s)"

fun utc_timestamp :: "(string \<Rightarrow> bool) \<Rightarrow> json \<Rightarrow> bool" where
  "utc_timestamp iso_utc (JStr s) =
     ((suffix ''Z'' s \<or> suffix ''+00:00'' s) \<and> iso_utc (replace_z s))"
| "utc_timestamp iso_utc _ = False"

section \<open>The payload schema\<close>

type_synonym payload_spec = "(string \<times> (json \<Rightarrow> bool)) list"

definition empty_payload_types :: "event_type list" where
  "empty_payload_types = [
     RUN_STARTED, TASK_READY, REVIEW_STARTED]"

definition payload_specs :: "(string \<Rightarrow> bool) \<Rightarrow> event_type \<Rightarrow> (payload_spec \<times> payload_spec) option" where
  "payload_specs iso_utc event_type = (case event_type of
     RUN_CREATED \<Rightarrow> Some (
        [(''object_id'', is_string)],
        [])
   | CLOSURE_RECOVERY_STARTED \<Rightarrow> Some (
        [(''attempt_id'', is_string), (''failed_event_id'', is_string),
         (''snapshot_hash'', is_string), (''status'', (scalar_eq_to (JStr ''REVIEW'')))],
        [])
   | RUN_STATUS_CHANGED \<Rightarrow> Some (
        [(''status'', one_of nonterminal_run_statuses)],
        [])
   | RUN_COMPLETED \<Rightarrow> Some (
        [(''status'', (scalar_eq_to (JStr ''RELEASED'')))],
        [])
   | RUN_FAILED \<Rightarrow> Some (
        [(''status'', (one_of [''FAILED'', ''CANCELLED''])),
         (''failure_stage'', one_of failure_stages), (''failure_code'', is_string)],
        [(''safe_message'', nullable_string)])
   | SCHEME_GENERATED \<Rightarrow> Some (
        [(''scheme_id'', is_string), (''generated_by'', is_string),
         (''generated_at'', utc_timestamp iso_utc), (''generation_stage'', is_string),
         (''retrospective'', is_boolean)],
        [])
   | SCHEME_CONFIRMED \<Rightarrow> Some (
        [(''scheme_id'', is_string)],
        [])
   | PLAN_GENERATED \<Rightarrow> Some (
        [(''graph_id'', is_string), (''task_count'', nonnegative_integer)],
        [])
   | TASK_CREATED \<Rightarrow> Some (
        [(''task_type'', is_string)],
        [])
   | TASK_STARTED \<Rightarrow> Some (
        [(''attempt'', positive_integer)],
        [])
   | TASK_WAITING_FOR_CAPABILITY \<Rightarrow> Some (
        [(''gap_id'', is_string)],
        [])
   | TASK_RESUMED \<Rightarrow> Some (
        [(''gap_id'', is_string), (''registration_id'', is_string),
         (''status'', (scalar_eq_to (JStr ''RUNNING'')))],
        [])
   | TASK_SELF_CORRECTING \<Rightarrow> Some (
        [(''problem_code'', is_string)],
        [])
   | TASK_CORRECTION_RESOLVED \<Rightarrow> Some (
        [(''correction_id'', is_string)],
        [])
   | TASK_COMPLETED \<Rightarrow> Some (
        [(''attempt'', positive_integer)],
        [(''result_ref'', nullable_string)])
   | TASK_FAILED \<Rightarrow> Some (
        [(''attempt'', positive_integer), (''failure_code'', is_string)],
        [(''status'', one_of task_failure_statuses), (''retry_suppressed'', is_boolean)])
   | REPLAN_REQUESTED \<Rightarrow> Some (
        [(''replan_id'', is_string), (''decision'', one_of replan_decisions)],
        [])
   | REPLAN_APPROVED \<Rightarrow> Some (
        [(''replan_id'', is_string), (''decided_by'', is_string)],
        [])
   | GRAPH_TASK_ADDED \<Rightarrow> Some (
        [(''replan_id'', is_string)],
        [])
   | GRAPH_EDGE_ADDED \<Rightarrow> Some (
        [(''replan_id'', is_string), (''source_task_id'', is_string),
         (''target_task_id'', is_string)],
        [])
   | GRAPH_EDGE_REMOVED \<Rightarrow> Some (
        [(''replan_id'', is_string), (''source_task_id'', is_string),
         (''target_task_id'', is_string)],
        [])
   | GRAPH_VERSION_CHANGED \<Rightarrow> Some (
        [(''replan_id'', is_string), (''version_before'', positive_integer)],
        [])
   | EVIDENCE_ACCEPTED \<Rightarrow> Some (
        [(''evidence_id'', is_string), (''field'', is_string)],
        [(''producer_task_id'', is_string), (''source_endpoint'', is_string),
         (''evidence_purpose'', is_string), (''evidence_category'', is_string)])
   | CALCULATION_STARTED \<Rightarrow> Some (
        [(''capability_id'', is_string)],
        [])
   | CALCULATION_COMPLETED \<Rightarrow> Some (
        [(''calculation_id'', is_string)],
        [(''capability_id'', is_string)])
   | CAPABILITY_GAP_DETECTED \<Rightarrow> Some (
        [(''gap_id'', is_string), (''capability_id'', is_string),
         (''skill_id'', is_string), (''requested_by'', is_string)],
        [])
   | CAPABILITY_BUILD_REQUESTED \<Rightarrow> Some (
        [(''gap_id'', is_string), (''build_id'', is_string),
         (''attempt'', positive_integer), (''max_attempts'', positive_integer),
         (''approved_by'', is_string)],
        [])
   | CAPABILITY_BUILD_STARTED \<Rightarrow> Some (
        [(''build_id'', is_string), (''attempt'', positive_integer)],
        [])
   | CAPABILITY_GENERATED \<Rightarrow> Some (
        [(''build_id'', is_string), (''generated_capability_id'', is_string),
         (''implementation_hash'', is_string)],
        [])
   | CAPABILITY_STATIC_VALIDATED \<Rightarrow> Some (
        [(''build_id'', is_string), (''implementation_hash'', is_string)],
        [])
   | CAPABILITY_SANDBOX_STARTED \<Rightarrow> Some (
        [(''build_id'', is_string), (''implementation_hash'', is_string)],
        [])
   | CAPABILITY_TEST_PASSED \<Rightarrow> Some (
        [(''build_id'', is_string), (''implementation_hash'', is_string)],
        [])
   | CAPABILITY_TEST_FAILED \<Rightarrow> Some (
        [(''build_id'', is_string), (''attempt'', positive_integer),
         (''failure_code'', is_string)],
        [])
   | CAPABILITY_FINANCIAL_VALIDATED \<Rightarrow> Some (
        [(''build_id'', is_string), (''implementation_hash'', is_string)],
        [])
   | CAPABILITY_APPROVED \<Rightarrow> Some (
        [(''build_id'', is_string), (''registration_id'', is_string),
         (''approved_by'', is_string), (''scope'', one_of capability_scopes)],
        [])
   | CAPABILITY_REGISTERED \<Rightarrow> Some (
        [(''registration_id'', is_string), (''capability_id'', is_string),
         (''capability_version'', is_string), (''scope'', one_of capability_scopes)],
        [])
   | CAPABILITY_BUILD_FAILED \<Rightarrow> Some (
        [(''failure_code'', is_string), (''terminal'', is_boolean)],
        [(''gap_id'', is_string), (''build_id'', is_string),
         (''attempt'', positive_integer), (''max_attempts'', positive_integer)])
   | REVIEW_RESOLVED \<Rightarrow> Some (
        [(''review_id'', is_string), (''status'', one_of review_statuses)],
        [])
   | PROOF_REQUIRED \<Rightarrow> Some (
        [(''proof_id'', is_string), (''calculation_id'', is_string),
         (''formula_id'', is_string), (''policy_id'', is_string)],
        [])
   | PROOF_STARTED \<Rightarrow> Some (
        [(''proof_id'', is_string), (''backend'', is_string)],
        [])
   | PROOF_GENERATED \<Rightarrow> Some (
        [(''proof_id'', is_string), (''backend'', is_string)],
        [])
   | PROOF_VERIFIED \<Rightarrow> Some (
        [(''proof_id'', is_string), (''image_id'', is_string),
         (''receipt_hash'', is_string), (''journal_hash'', is_string),
         (''verified'', (scalar_eq_to (JBool True))), (''dev_mode'', is_boolean)],
        [])
   | PROOF_FAILED \<Rightarrow> Some (
        [(''proof_id'', is_string), (''failure_code'', is_string),
         (''status'', one_of proof_failure_statuses)],
        [])
   | RELEASE_COMPLETED \<Rightarrow> Some (
        [(''canonical_record_id'', is_string), (''result_id'', is_string)],
        [])
   | _ \<Rightarrow> None)"


section \<open>Payload validation\<close>

datatype payload_error =
    Unsupported_event_type event_type
  | Payload_must_be_empty
  | Payload_missing "string list"
  | Payload_unknown "string list"
  | Payload_field_invalid string
  | Attempt_exceeds_max
  | Progress_not_ratio
  | Progress_scale_invalid
  | Retry_payload_invalid
  | Progress_form_unknown
  | Payload_spec_missing event_type

definition keys :: "json_object \<Rightarrow> string list" where
  "keys payload = map fst payload"

text \<open>The field loop over \<open>{**required, **optional}\<close>: the first present and invalid field raises.\<close>

fun check_fields :: "payload_spec \<Rightarrow> json_object \<Rightarrow> payload_error + unit" where
  "check_fields [] payload = Inr ()"
| "check_fields ((k, p) # rest) payload =
     (case map_of payload k of
        None \<Rightarrow> check_fields rest payload
      | Some v \<Rightarrow> if p v then check_fields rest payload else Inl (Payload_field_invalid k))"

definition attempts_within_max :: "json_object \<Rightarrow> bool" where
  "attempts_within_max payload =
     (case (map_of payload ''attempt'', map_of payload ''max_attempts'') of
        (Some (JInt a), Some (JInt m)) \<Rightarrow> a \<le> m
      | _ \<Rightarrow> True)"

definition validate_task_progress_payload :: "json_object \<Rightarrow> payload_error + unit" where
  "validate_task_progress_payload payload =
     (let actual = set (keys payload) in
      if {''progress'', ''progress_scale''} \<subseteq> actual
         \<and> actual \<subseteq> {''progress'', ''progress_scale'', ''stage'', ''message_code''}
      then rbind (guard (case map_of payload ''progress'' of Some v \<Rightarrow> is_ratio v | None \<Rightarrow> False)
             Progress_not_ratio) (\<lambda>_.
           rbind (guard (case map_of payload ''progress_scale'' of
               Some v \<Rightarrow> scalar_eq v (JStr ''RATIO_0_1'') | None \<Rightarrow> False)
             Progress_scale_invalid) (\<lambda>_.
           check_fields [(''stage'', is_string), (''message_code'', is_string)] payload))
      else if actual = {''attempt'', ''error_code''}
      then guard ((case map_of payload ''attempt'' of Some v \<Rightarrow> positive_integer v | None \<Rightarrow> False)
             \<and> (case map_of payload ''error_code'' of Some v \<Rightarrow> is_string v | None \<Rightarrow> False))
           Retry_payload_invalid
      else Inl Progress_form_unknown)"

definition validate_runtime_event_payload ::
    "(string \<Rightarrow> bool) \<Rightarrow> event_type \<Rightarrow> json_object \<Rightarrow> payload_error + unit" where
  "validate_runtime_event_payload iso_utc et payload =
     (if et \<in> set unsupported_event_types then Inl (Unsupported_event_type et)
      else if et = TASK_PROGRESS then validate_task_progress_payload payload
      else if et \<in> set empty_payload_types
      then guard (payload = []) Payload_must_be_empty
      else case payload_specs iso_utc et of
        None \<Rightarrow> Inl (Payload_spec_missing et)
      | Some (required, optional) \<Rightarrow>
          let missing = filter (\<lambda>k. k \<notin> set (keys payload)) (map fst required);
              unknown = filter (\<lambda>k. k \<notin> set (map fst required) \<and> k \<notin> set (map fst optional))
                (keys payload)
          in if missing \<noteq> [] then Inl (Payload_missing missing)
             else if unknown \<noteq> [] then Inl (Payload_unknown unknown)
             else rbind (check_fields (required @ optional) payload) (\<lambda>_.
               guard (et \<in> set [CAPABILITY_BUILD_REQUESTED, CAPABILITY_BUILD_FAILED]
                   \<longrightarrow> attempts_within_max payload)
                 Attempt_exceeds_max))"

section \<open>Projection of a stored payload to its public form\<close>

fun set_default :: "string \<Rightarrow> json \<Rightarrow> json_object \<Rightarrow> json_object" where
  "set_default k v payload = (if k \<in> set (keys payload) then payload else payload @ [(k, v)])"

definition pop_key :: "string \<Rightarrow> json_object \<Rightarrow> json_object" where
  "pop_key k payload = filter (\<lambda>(j, _). j \<noteq> k) payload"

text \<open>The fields named in \<open>names\<close> that are present, in the order of \<open>names\<close>.\<close>

definition select_fields :: "string list \<Rightarrow> json_object \<Rightarrow> json_object" where
  "select_fields names payload =
     concat (map (\<lambda>k. case map_of payload k of None \<Rightarrow> [] | Some v \<Rightarrow> [(k, v)]) names)"

definition project_task_progress :: "json_object \<Rightarrow> json_object" where
  "project_task_progress payload =
     (case map_of payload ''progress'' of
        Some v \<Rightarrow> [(''progress'', v), (''progress_scale'', JStr ''RATIO_0_1'')]
          @ select_fields [''stage'', ''message_code''] payload
      | None \<Rightarrow> select_fields [''attempt'', ''error_code''] payload)"

definition spec_keys :: "(payload_spec \<times> payload_spec) option \<Rightarrow> string list" where
  "spec_keys sp = (case sp of None \<Rightarrow> [] | Some (required, optional) \<Rightarrow>
     map fst required @ map fst optional)"

definition project_allowlisted ::
    "(string \<Rightarrow> bool) \<Rightarrow> event_type \<Rightarrow> json_object \<Rightarrow> json_object" where
  "project_allowlisted iso_utc et payload =
     (if et \<in> set empty_payload_types then []
      else if et = TASK_PROGRESS then project_task_progress payload
      else filter (\<lambda>(k, _). k \<in> set (spec_keys (payload_specs iso_utc et))) payload)"

definition redact_payload :: "event_type \<Rightarrow> json_object \<Rightarrow> json_object" where
  "redact_payload et projected =
     (if et = TASK_COMPLETED then pop_key ''result_ref'' projected
      else if et = CAPABILITY_TEST_FAILED
      then set_default ''failure_code'' (JStr ''CAPABILITY_TEST_FAILED'') projected
      else if et = CAPABILITY_BUILD_FAILED
      then set_default ''failure_code'' (JStr ''CAPABILITY_BUILD_FAILED'') projected
      else if et = PROOF_FAILED
      then set_default ''failure_code'' (JStr ''PROOF_FAILED'') projected
      else projected)"

definition project_runtime_event_payload_v1 ::
    "(string \<Rightarrow> bool) \<Rightarrow> event_type \<Rightarrow> json_object \<Rightarrow> payload_error + json_object" where
  "project_runtime_event_payload_v1 iso_utc et payload =
     (if et \<in> set unsupported_event_types then Inl (Unsupported_event_type et)
      else let projected = redact_payload et (project_allowlisted iso_utc et payload)
           in rbind (validate_runtime_event_payload iso_utc et projected) (\<lambda>_. Inr projected))"


section \<open>Events and their normalized form\<close>

text \<open>A datetime is an instant with its UTC offset in minutes, \<open>None\<close> when it is naive.\<close>

record timestamp =
  ts_instant :: int
  ts_utcoffset :: "int option"

record runtime_event =
  ev_event_id :: string
  ev_run_id :: string
  ev_task_id :: "string option"
  ev_type :: event_type
  ev_timestamp :: timestamp
  ev_sequence :: int
  ev_payload :: json_object

definition max_sequence :: int where
  "max_sequence = 9223372036854775807"

text \<open>The field constraints pydantic checks when a \<open>RuntimeEvent\<close> is constructed.\<close>

definition event_fields_valid :: "runtime_event \<Rightarrow> bool" where
  "event_fields_valid ev \<longleftrightarrow> ev_event_id ev \<noteq> [] \<and> ev_run_id ev \<noteq> [] \<and> ev_task_id ev \<noteq> Some []
     \<and> 1 \<le> ev_sequence ev \<and> ev_sequence ev \<le> max_sequence"

record normalized_event =
  ne_event_id :: string
  ne_run_id :: string
  ne_task_id :: "string option"
  ne_type :: event_type
  ne_timestamp :: timestamp
  ne_sequence :: int
  ne_payload :: json_object
  ne_graph_version :: "int option"
  ne_effect :: runtime_event_effect
  ne_projection_refresh_required :: bool

datatype normalize_error =
    NE_unsupported event_type
  | NE_no_effect event_type
  | NE_payload payload_error
  | NE_field_constraint
  | NE_unsafe_identifier
  | NE_effect_conflict
  | NE_refresh_conflict
  | NE_graph_version_presence
  | NE_task_id_required
  | NE_timestamp_not_utc

definition graph_version_from_event_v1 :: "runtime_event \<Rightarrow> int option" where
  "graph_version_from_event_v1 ev =
     (let key = (case ev_type ev of
          RUN_STARTED \<Rightarrow> Some ''actual_graph_version''
        | GRAPH_TASK_ADDED \<Rightarrow> Some ''graph_version''
        | GRAPH_EDGE_ADDED \<Rightarrow> Some ''graph_version''
        | GRAPH_EDGE_REMOVED \<Rightarrow> Some ''graph_version''
        | GRAPH_VERSION_CHANGED \<Rightarrow> Some ''version_after''
        | _ \<Rightarrow> None)
      in case key of
           None \<Rightarrow> None
         | Some k \<Rightarrow> (case map_of (ev_payload ev) k of
             Some (JInt i) \<Rightarrow> if positive_integer (JInt i) then Some i else None
           | _ \<Rightarrow> None))"

definition lift_payload_error :: "payload_error + 'a \<Rightarrow> normalize_error + 'a" where
  "lift_payload_error r = (case r of Inl e \<Rightarrow> Inl (NE_payload e) | Inr x \<Rightarrow> Inr x)"

definition refresh_effect :: "runtime_event_effect \<Rightarrow> bool" where
  "refresh_effect e \<longleftrightarrow> e \<in> set [REFRESH_PROJECTION, TERMINAL]"

definition validate_frozen_contract ::
    "(string \<Rightarrow> bool) \<Rightarrow> normalized_event \<Rightarrow> normalize_error + unit" where
  "validate_frozen_contract iso_utc n =
     rbind (guard (ne_event_id n \<noteq> [] \<and> ne_run_id n \<noteq> [] \<and> ne_task_id n \<noteq> Some []
         \<and> 1 \<le> ne_sequence n \<and> ne_sequence n \<le> max_sequence
         \<and> (case ne_graph_version n of None \<Rightarrow> True | Some v \<Rightarrow> 1 \<le> v)) NE_field_constraint) (\<lambda>_.
     rbind (guard (safe_text (ne_event_id n) \<and> safe_text (ne_run_id n)
         \<and> (case ne_task_id n of None \<Rightarrow> True | Some t \<Rightarrow> safe_text t)) NE_unsafe_identifier) (\<lambda>_.
     rbind (guard (ne_type n \<notin> set unsupported_event_types) (NE_unsupported (ne_type n))) (\<lambda>_.
     rbind (guard (event_effect_by_type (ne_type n) \<noteq> None) (NE_no_effect (ne_type n))) (\<lambda>_.
     rbind (guard (event_effect_by_type (ne_type n) = Some (ne_effect n)) NE_effect_conflict) (\<lambda>_.
     rbind (guard (ne_projection_refresh_required n = refresh_effect (ne_effect n))
         NE_refresh_conflict) (\<lambda>_.
     rbind (guard ((ne_graph_version n \<noteq> None) = (ne_type n \<in> set graph_version_event_types))
         NE_graph_version_presence) (\<lambda>_.
     rbind (guard (task_id_required (ne_type n) \<longrightarrow> ne_task_id n \<noteq> None) NE_task_id_required) (\<lambda>_.
     rbind (guard (ts_utcoffset (ne_timestamp n) = Some 0) NE_timestamp_not_utc) (\<lambda>_.
     lift_payload_error
       (validate_runtime_event_payload iso_utc (ne_type n) (ne_payload n)))))))))))"

definition normalize_runtime_event_v1 ::
    "(string \<Rightarrow> bool) \<Rightarrow> runtime_event \<Rightarrow> int option \<Rightarrow> normalize_error + normalized_event" where
  "normalize_runtime_event_v1 iso_utc ev graph_version =
     (if ev_type ev \<in> set unsupported_event_types then Inl (NE_unsupported (ev_type ev))
      else case event_effect_by_type (ev_type ev) of
        None \<Rightarrow> Inl (NE_no_effect (ev_type ev))
      | Some effect \<Rightarrow>
          rbind (lift_payload_error
            (project_runtime_event_payload_v1 iso_utc (ev_type ev) (ev_payload ev))) (\<lambda>payload.
          let n = \<lparr> ne_event_id = ev_event_id ev, ne_run_id = ev_run_id ev,
                    ne_task_id = ev_task_id ev, ne_type = ev_type ev,
                    ne_timestamp = ev_timestamp ev, ne_sequence = ev_sequence ev,
                    ne_payload = payload,
                    ne_graph_version = (case graph_version of Some v \<Rightarrow> Some v
                                        | None \<Rightarrow> graph_version_from_event_v1 ev),
                    ne_effect = effect,
                    ne_projection_refresh_required = refresh_effect effect \<rparr>
          in rbind (validate_frozen_contract iso_utc n) (\<lambda>_. Inr n)))"

section \<open>The classification is total on the supported vocabulary\<close>

lemmas event_type_lists =
  patch_types_def refresh_types_def observation_types_def terminal_types_def
  unsupported_event_types_def empty_payload_types_def graph_version_event_types_def

lemma effect_defined_iff_supported:
  "(\<exists>e. event_effect_by_type et = Some e) \<longleftrightarrow> event_supported et"
  by (cases et) (simp_all add: event_effect_by_type_def event_supported_def event_type_lists)

lemma payload_specs_defined_iff:
  "(\<exists>sp. payload_specs iso_utc et = Some sp) \<longleftrightarrow>
     event_supported et \<and> et \<noteq> TASK_PROGRESS \<and> et \<notin> set empty_payload_types"
  by (cases et) (simp_all add: payload_specs_def event_supported_def event_type_lists)

lemma effect_classes_disjoint:
  "length (filter (\<lambda>ts. et \<in> set ts)
     [patch_types, refresh_types, observation_types, terminal_types, unsupported_event_types]) = 1"
  by (cases et) (simp_all add: event_type_lists)

text \<open>The two \<open>KeyError\<close> branches of the tables are dead.\<close>

lemma validate_never_missing_spec:
  "validate_runtime_event_payload iso_utc et payload \<noteq> Inl (Payload_spec_missing et')"
proof -
  have cf: "check_fields sp payload \<noteq> Inl (Payload_spec_missing et')" for sp
    by (induction sp payload rule: check_fields.induct) (auto split: option.splits)
  have tp: "validate_task_progress_payload payload \<noteq> Inl (Payload_spec_missing et')"
    using cf by (simp add: validate_task_progress_payload_def Let_def guard_def
        del: check_fields.simps)
  show ?thesis
  proof (cases "payload_specs iso_utc et")
    case None
    then have "\<not> event_supported et \<or> et = TASK_PROGRESS \<or> et \<in> set empty_payload_types"
      using payload_specs_defined_iff [of iso_utc et] by auto
    then show ?thesis using tp
      by (auto simp: validate_runtime_event_payload_def event_supported_def guard_def)
  next
    case (Some sp)
    obtain required optional where sp: "sp = (required, optional)" by (cases sp)
    show ?thesis
      using Some sp tp cf [of "required @ optional"]
      by (cases "check_fields (required @ optional) payload")
        (auto simp: validate_runtime_event_payload_def Let_def guard_def)
  qed
qed

end
