(* ===== verification/EventSchema.thy ===== *)
theory EventSchema
  imports RuntimeEvents
begin

text \<open>
  Facts about the public event schema of \<open>RuntimeEvents\<close>: the field loop against its declarative
  reading, the projection of stored payloads (allowlist, redaction, idempotence), and the contract
  every normalized event satisfies.
\<close>

section \<open>The field loop\<close>

lemma check_fields_ok_iff:
  "check_fields sp payload = Inr u \<longleftrightarrow>
     (\<forall>(k, p) \<in> set sp. \<forall>v. map_of payload k = Some v \<longrightarrow> p v)"
  by (induction sp payload rule: check_fields.induct) (auto split: option.splits)

lemma keys_simps [simp]:
  "keys [] = []" "keys (x # xs) = fst x # keys xs" "keys (xs @ ys) = keys xs @ keys ys"
  by (simp_all add: keys_def)

lemma key_iff_map_of: "k \<in> set (keys payload) \<longleftrightarrow> (\<exists>v. map_of payload k = Some v)"
  by (metis keys_def map_of_eq_None_iff not_None_eq set_map image_set)

text \<open>The declarative reading of the schema of an event type that has a field table.\<close>

definition payload_conforms :: "payload_spec \<Rightarrow> payload_spec \<Rightarrow> json_object \<Rightarrow> bool" where
  "payload_conforms required optional payload \<longleftrightarrow>
     set (map fst required) \<subseteq> set (keys payload) \<and>
     set (keys payload) \<subseteq> set (map fst required) \<union> set (map fst optional) \<and>
     (\<forall>(k, p) \<in> set required \<union> set optional. \<forall>v. map_of payload k = Some v \<longrightarrow> p v)"

lemma validate_conforms_iff:
  assumes "payload_specs iso_utc et = Some (required, optional)"
  shows "validate_runtime_event_payload iso_utc et payload = Inr () \<longleftrightarrow>
     payload_conforms required optional payload \<and>
     (et \<in> {CAPABILITY_BUILD_REQUESTED, CAPABILITY_BUILD_FAILED} \<longrightarrow> attempts_within_max payload)"
proof -
  have et: "et \<notin> set unsupported_event_types" "et \<noteq> TASK_PROGRESS" "et \<notin> set empty_payload_types"
    using payload_specs_defined_iff [of iso_utc et] assms by (auto simp: event_supported_def)
  have m: "filter (\<lambda>k. k \<notin> set (keys payload)) (map fst required) = []
      \<longleftrightarrow> set (map fst required) \<subseteq> set (keys payload)"
    by (auto simp: filter_empty_conv)
  have u: "filter (\<lambda>k. k \<notin> set (map fst required) \<and> k \<notin> set (map fst optional)) (keys payload) = []
      \<longleftrightarrow> set (keys payload) \<subseteq> set (map fst required) \<union> set (map fst optional)"
    by (auto simp: filter_empty_conv)
  have s: "set (required @ optional) = set required \<union> set optional" by simp
  show ?thesis
    unfolding validate_runtime_event_payload_def payload_conforms_def
    using et m u
    by (simp add: assms Let_def rbind_Inr_iff check_fields_ok_iff s del: set_append set_map)
qed

section \<open>Projection\<close>

lemma keys_filter: "set (keys (filter (\<lambda>(k, _). P k) payload)) = {k \<in> set (keys payload). P k}"
  by (auto simp: keys_def)

lemma map_of_filter_key:
  "map_of (filter (\<lambda>(k, _). P k) payload) k = (if P k then map_of payload k else None)"
  by (induction payload) auto

lemma select_fields_Nil [simp]: "select_fields [] payload = []"
  by (simp add: select_fields_def)

lemma select_fields_Cons: "select_fields (k # ks) payload =
    (case map_of payload k of None \<Rightarrow> [] | Some v \<Rightarrow> [(k, v)]) @ select_fields ks payload"
  by (simp add: select_fields_def)

lemma map_of_select_fields:
  "map_of (select_fields ks payload) k = (if k \<in> set ks then map_of payload k else None)"
  by (induction ks) (auto simp: select_fields_Cons map_add_def split: option.splits)

lemma select_fields_cong:
  "(\<And>k. k \<in> set ks \<Longrightarrow> map_of p k = map_of q k) \<Longrightarrow> select_fields ks p = select_fields ks q"
  by (induction ks) (simp_all add: select_fields_Cons)

lemma project_task_progress_idem:
  "project_task_progress (project_task_progress payload) = project_task_progress payload"
proof (cases "map_of payload ''progress''")
  case None
  then have "map_of (select_fields [''attempt'', ''error_code''] payload) ''progress'' = None"
    by (simp add: map_of_select_fields)
  moreover have "select_fields [''attempt'', ''error_code'']
      (select_fields [''attempt'', ''error_code''] payload)
      = select_fields [''attempt'', ''error_code''] payload"
    by (rule select_fields_cong) (auto simp: map_of_select_fields)
  ultimately show ?thesis using None by (simp add: project_task_progress_def)
next
  case (Some v)
  have "select_fields [''stage'', ''message_code'']
      ([(''progress'', v), (''progress_scale'', JStr ''RATIO_0_1'')]
        @ select_fields [''stage'', ''message_code''] payload)
      = select_fields [''stage'', ''message_code''] payload"
    by (rule select_fields_cong) (auto simp: map_of_select_fields)
  with Some show ?thesis by (simp add: project_task_progress_def)
qed

lemma set_default_idem: "set_default k v (set_default k v p) = set_default k v p"
  by simp

definition public_keys :: "event_type \<Rightarrow> string list" where
  "public_keys et =
     (if et \<in> set empty_payload_types then []
      else if et = TASK_PROGRESS
      then [''progress'', ''progress_scale'', ''stage'', ''message_code'', ''attempt'', ''error_code'']
      else filter (\<lambda>k. \<not> (et = TASK_COMPLETED \<and> k = ''result_ref''))
        (spec_keys (payload_specs (\<lambda>_. True) et)))"

lemma spec_keys_iso: "spec_keys (payload_specs iso_utc et) = spec_keys (payload_specs iso' et)"
  by (cases et) (simp_all add: payload_specs_def spec_keys_def)

lemma default_keys_allowed:
  "''failure_code'' \<in> set (spec_keys (payload_specs iso_utc CAPABILITY_TEST_FAILED))"
  "''failure_code'' \<in> set (spec_keys (payload_specs iso_utc CAPABILITY_BUILD_FAILED))"
  "''failure_code'' \<in> set (spec_keys (payload_specs iso_utc PROOF_FAILED))"
  by (simp_all add: payload_specs_def spec_keys_def)

text \<open>Outside the two special forms, projecting twice is projecting once.\<close>

lemma filter_project_idem:
  assumes "\<And>k. k \<in> set (keys q) \<Longrightarrow> P k"
  shows "filter (\<lambda>(k, _). P k) q = q"
  using assms by (induction q) auto

lemma redact_keys:
  assumes "k \<in> set (keys (redact_payload et q))"
  shows "k \<in> set (keys q) \<or> (k = ''failure_code'' \<and>
    et \<in> {CAPABILITY_TEST_FAILED, CAPABILITY_BUILD_FAILED, PROOF_FAILED})"
  using assms by (auto simp: redact_payload_def pop_key_def keys_def split: if_splits)

lemma redact_idem: "redact_payload et (redact_payload et q) = redact_payload et q"
  by (auto simp: redact_payload_def pop_key_def)

lemma projected_keys_allowed:
  assumes "et \<noteq> TASK_PROGRESS" and "et \<notin> set empty_payload_types"
    and "k \<in> set (keys (redact_payload et (project_allowlisted iso_utc et payload)))"
  shows "k \<in> set (spec_keys (payload_specs iso_utc et))"
  using redact_keys [OF assms(3)] assms(1,2) default_keys_allowed
  by (auto simp: project_allowlisted_def keys_filter)

lemma projected_fixpoint:
  "redact_payload et (project_allowlisted iso_utc et
      (redact_payload et (project_allowlisted iso_utc et payload)))
   = redact_payload et (project_allowlisted iso_utc et payload)"
proof (cases "et = TASK_PROGRESS \<or> et \<in> set empty_payload_types")
  case True
  then show ?thesis
    by (auto simp: project_allowlisted_def redact_payload_def project_task_progress_idem
        empty_payload_types_def)
next
  case False
  then have "project_allowlisted iso_utc et
      (redact_payload et (project_allowlisted iso_utc et payload))
      = redact_payload et (project_allowlisted iso_utc et payload)"
    using projected_keys_allowed [of et]
    by (subst project_allowlisted_def) (auto intro: filter_project_idem)
  then show ?thesis by (simp add: redact_idem)
qed

lemma project_InrD:
  assumes "project_runtime_event_payload_v1 iso_utc et payload = Inr q"
  shows "event_supported et" "q = redact_payload et (project_allowlisted iso_utc et payload)"
    "validate_runtime_event_payload iso_utc et q = Inr ()"
  using assms by (auto simp: project_runtime_event_payload_v1_def event_supported_def Let_def
      rbind_Inr_iff split: if_splits)


section \<open>Properties\<close>

lemma public_keys_safe:
  "''internal_diagnostic'' \<notin> set (public_keys et)" "''action'' \<notin> set (public_keys et)"
  "''version_after'' \<notin> set (public_keys et)" "''graph_version'' \<notin> set (public_keys et)"
  "''actual_graph_version'' \<notin> set (public_keys et)"
  by (cases et; simp add: public_keys_def payload_specs_def spec_keys_def empty_payload_types_def)+

lemma project_task_progress_keys:
  "k \<in> set (keys (project_task_progress payload)) \<Longrightarrow> k \<in> set (public_keys TASK_PROGRESS)"
  by (auto simp: project_task_progress_def key_iff_map_of map_of_select_fields public_keys_def
      empty_payload_types_def split: option.splits if_splits)

lemma projected_keys_public:
  assumes "k \<in> set (keys (redact_payload et (project_allowlisted iso_utc et payload)))"
  shows "k \<in> set (public_keys et)"
proof (cases "et = TASK_PROGRESS \<or> et \<in> set empty_payload_types")
  case True
  then show ?thesis
    using assms project_task_progress_keys
    by (auto simp: project_allowlisted_def redact_payload_def empty_payload_types_def)
next
  case False
  then have "k \<in> set (spec_keys (payload_specs (\<lambda>_. True) et))"
    using projected_keys_allowed assms spec_keys_iso by metis
  moreover have "et = TASK_COMPLETED \<Longrightarrow> k \<noteq> ''result_ref''"
    using assms by (auto simp: redact_payload_def pop_key_def keys_def)
  ultimately show ?thesis using False by (simp add: public_keys_def)
qed

lemma redact_values:
  assumes "map_of (redact_payload et q) k = Some v" and "k \<noteq> ''failure_code''"
  shows "map_of q k = Some v"
  using assms
  by (auto simp: redact_payload_def pop_key_def map_of_filter_key split: if_splits)

lemma projected_values:
  assumes "map_of (redact_payload et (project_allowlisted iso_utc et payload)) k = Some v"
    and "k \<noteq> ''failure_code''" and "k \<noteq> ''progress_scale''"
  shows "map_of payload k = Some v"
  using redact_values [OF assms(1,2)] assms(3)
  by (auto simp: project_allowlisted_def map_of_filter_key project_task_progress_def
      map_of_select_fields split: if_splits option.splits)

text \<open>
  The public projection of an event payload is idempotent: projecting what the stream
  published yields exactly the same payload, for every event type (the legacy retry and progress
  forms, the redaction of \<open>result_ref\<close> and the defaulted failure codes included).
\<close>

theorem projection_idempotent:
  assumes "project_runtime_event_payload_v1 iso_utc et payload = Inr q"
  shows "project_runtime_event_payload_v1 iso_utc et q = Inr q"
proof -
  note q = project_InrD [OF assms]
  have "redact_payload et (project_allowlisted iso_utc et q) = q"
    using projected_fixpoint q(2) by metis
  with q show ?thesis
    by (simp add: project_runtime_event_payload_v1_def event_supported_def Let_def)
qed

theorem projection_idempotent_witness:
  "project_runtime_event_payload_v1 (\<lambda>_. True) TASK_COMPLETED
     [(''attempt'', JInt 2), (''result_ref'', JStr ''r''), (''internal_diagnostic'', JNull)]
     = Inr [(''attempt'', JInt 2)]
   \<and> project_runtime_event_payload_v1 (\<lambda>_. True) TASK_COMPLETED [(''attempt'', JInt 2)]
     = Inr [(''attempt'', JInt 2)]"
proof -
  have "project_runtime_event_payload_v1 (\<lambda>_. True) TASK_COMPLETED
     [(''attempt'', JInt 2), (''result_ref'', JStr ''r''), (''internal_diagnostic'', JNull)]
     = Inr [(''attempt'', JInt 2)]"
    by (simp add: project_runtime_event_payload_v1_def project_allowlisted_def payload_specs_def
        spec_keys_def redact_payload_def pop_key_def validate_runtime_event_payload_def
        event_type_lists keys_def)
  with projection_idempotent [OF this] show ?thesis by simp
qed

text \<open>
  Redaction: every key of a published payload is one of the frozen public keys of its event
  type, so internal diagnostics, legacy action names, graph watermarks and (for completed tasks)
  result locators never cross the public stream; and apart from the defaulted failure code and the
  progress scale every published value is the stored value.
\<close>

theorem projection_redacts:
  assumes "project_runtime_event_payload_v1 iso_utc et payload = Inr q"
  shows "set (keys q) \<subseteq> set (public_keys et)
    \<and> set (keys q) \<inter> {''internal_diagnostic'', ''action'', ''version_after'', ''graph_version'',
          ''actual_graph_version''} = {}
    \<and> (et = TASK_COMPLETED \<longrightarrow> ''result_ref'' \<notin> set (keys q))
    \<and> (\<forall>k v. map_of q k = Some v \<longrightarrow> k \<notin> {''failure_code'', ''progress_scale''}
          \<longrightarrow> map_of payload k = Some v)"
proof -
  note q = project_InrD [OF assms]
  have sub: "set (keys q) \<subseteq> set (public_keys et)"
    using projected_keys_public q(2) by blast
  moreover have "et = TASK_COMPLETED \<Longrightarrow> ''result_ref'' \<notin> set (public_keys et)"
    by (simp add: public_keys_def empty_payload_types_def)
  ultimately show ?thesis
    using public_keys_safe [of et] projected_values q(2) by blast
qed

theorem projection_redacts_witness:
  "set (keys [(''attempt'', JInt 1), (''error_code'', JStr ''E'')]) \<subseteq> set (public_keys TASK_PROGRESS)"
proof -
  have "project_runtime_event_payload_v1 (\<lambda>_. True) TASK_PROGRESS
      [(''action'', JStr ''retry_scheduled''), (''attempt'', JInt 1), (''error_code'', JStr ''E''),
       (''internal_diagnostic'', JNull)]
     = Inr [(''attempt'', JInt 1), (''error_code'', JStr ''E'')]"
    by (simp add: project_runtime_event_payload_v1_def project_allowlisted_def
        project_task_progress_def select_fields_def redact_payload_def
        validate_runtime_event_payload_def validate_task_progress_payload_def event_type_lists
        keys_def safe_text_def strip_def is_space_def Let_def insert_commute)
  from projection_redacts [OF this] show ?thesis by (simp del: keys_simps)
qed

text \<open>
  Normalization: an event that reaches the public stream keeps its identity and sequence, is of
  a supported type, carries the effect and refresh flag of its type, a graph version exactly when
  its type is a graph-version type (and then at least 1), a task id where its type requires one, a
  UTC timestamp, and a payload the frozen schema accepts.
\<close>

theorem normalized_event_contract:
  assumes "normalize_runtime_event_v1 iso_utc ev gv = Inr n"
  shows "ne_event_id n = ev_event_id ev \<and> ne_run_id n = ev_run_id ev
    \<and> ne_task_id n = ev_task_id ev \<and> ne_sequence n = ev_sequence ev \<and> ne_type n = ev_type ev
    \<and> event_supported (ev_type ev)
    \<and> event_effect_by_type (ev_type ev) = Some (ne_effect n)
    \<and> ne_projection_refresh_required n = (ne_effect n = REFRESH_PROJECTION \<or> ne_effect n = TERMINAL)
    \<and> (ev_type ev \<in> set graph_version_event_types \<longleftrightarrow> (\<exists>v \<ge> 1. ne_graph_version n = Some v))
    \<and> (task_id_required (ev_type ev) \<longrightarrow> ev_task_id ev \<noteq> None)
    \<and> ts_utcoffset (ev_timestamp ev) = Some 0
    \<and> validate_runtime_event_payload iso_utc (ev_type ev) (ne_payload n) = Inr ()"
proof -
  from assms obtain effect payload where
    eff: "event_effect_by_type (ev_type ev) = Some effect" and
    sup: "ev_type ev \<notin> set unsupported_event_types" and
    pay: "project_runtime_event_payload_v1 iso_utc (ev_type ev) (ev_payload ev) = Inr payload" and
    n: "n = \<lparr> ne_event_id = ev_event_id ev, ne_run_id = ev_run_id ev,
                    ne_task_id = ev_task_id ev, ne_type = ev_type ev,
                    ne_timestamp = ev_timestamp ev, ne_sequence = ev_sequence ev,
                    ne_payload = payload,
                    ne_graph_version = (case gv of Some v \<Rightarrow> Some v
                                        | None \<Rightarrow> graph_version_from_event_v1 ev),
                    ne_effect = effect,
                    ne_projection_refresh_required = refresh_effect effect \<rparr>" and
    ok: "validate_frozen_contract iso_utc n = Inr ()"
    by (auto simp: normalize_runtime_event_v1_def lift_payload_error_def Let_def rbind_Inr_iff
        split: if_splits option.splits sum.splits)
  have "(ne_graph_version n \<noteq> None) = (ev_type ev \<in> set graph_version_event_types)"
    and "case ne_graph_version n of None \<Rightarrow> True | Some v \<Rightarrow> 1 \<le> v"
    and "task_id_required (ev_type ev) \<longrightarrow> ev_task_id ev \<noteq> None"
    and "ts_utcoffset (ev_timestamp ev) = Some 0"
    using ok by (auto simp: validate_frozen_contract_def rbind_Inr_iff n
        split: option.splits)
  then show ?thesis
    using eff sup project_InrD(3) [OF pay]
    by (auto simp: n event_supported_def refresh_effect_def split: option.splits)
qed

theorem normalized_event_contract_witness:
  "\<exists>n. normalize_runtime_event_v1 (\<lambda>_. True)
     \<lparr> ev_event_id = ''EVT-1'', ev_run_id = ''R1'', ev_task_id = None, ev_type = RUN_STARTED,
       ev_timestamp = \<lparr> ts_instant = 0, ts_utcoffset = Some 0 \<rparr>, ev_sequence = 1,
       ev_payload = [(''actual_graph_version'', JInt 3)] \<rparr> None = Inr n
   \<and> ne_graph_version n = Some 3 \<and> ne_effect n = PATCH_PROJECTION
   \<and> ne_projection_refresh_required n = (ne_effect n = REFRESH_PROJECTION \<or> ne_effect n = TERMINAL)"
proof -
  let ?n = "\<lparr> ne_event_id = ''EVT-1'', ne_run_id = ''R1'', ne_task_id = None, ne_type = RUN_STARTED,
       ne_timestamp = \<lparr> ts_instant = 0, ts_utcoffset = Some 0 \<rparr>, ne_sequence = 1,
       ne_payload = [], ne_graph_version = Some 3, ne_effect = PATCH_PROJECTION,
       ne_projection_refresh_required = False \<rparr>"
  have "normalize_runtime_event_v1 (\<lambda>_. True)
     \<lparr> ev_event_id = ''EVT-1'', ev_run_id = ''R1'', ev_task_id = None, ev_type = RUN_STARTED,
       ev_timestamp = \<lparr> ts_instant = 0, ts_utcoffset = Some 0 \<rparr>, ev_sequence = 1,
       ev_payload = [(''actual_graph_version'', JInt 3)] \<rparr> None = Inr ?n"
    by (simp add: normalize_runtime_event_v1_def event_effect_by_type_def event_type_lists
        lift_payload_error_def project_runtime_event_payload_v1_def project_allowlisted_def
        redact_payload_def validate_runtime_event_payload_def validate_frozen_contract_def
        graph_version_from_event_v1_def refresh_effect_def task_id_required_def event_supported_def
        safe_text_def strip_def is_space_def max_sequence_def Let_def)
  with normalized_event_contract [OF this] show ?thesis by auto
qed

end
