(* ===== verification/Events.thy ===== *)
theory Events
  imports RuntimeEvents
begin

text \<open>
  \<open>src/runtime/events.py\<close>: the fail-closed stream cursor, the validation of an event log, the parsing
  of resume cursors and the in-memory event store.

  The SHA-256 fingerprint of an event's canonical JSON is the parameter \<open>fp\<close>; the code only compares
  fingerprints for equality. Fresh identifiers (\<open>uuid4\<close>) and the clock are the parameter \<open>fresh_supply\<close>,
  read at the position \<open>es_next\<close> of the store, which every draw advances. A raised exception leaves
  the cursor unchanged, as every \<open>raise\<close> of \<open>accept\<close> precedes its first assignment. The per-Run lock
  makes each store operation atomic: it is one function here.
\<close>

section \<open>The stream cursor\<close>

datatype event_apply_disposition = APPLIED | DUPLICATE_IGNORED

record runtime_event_cursor =
  cu_run_id :: string
  cu_committed_sequence :: int
  cu_terminal_sequence :: "int option"
  cu_by_sequence :: "int \<Rightarrow> (string \<times> string) option"
  cu_terminal_type :: "event_type option"
  cu_terminal_status :: "json option"
  cu_recovered :: bool
  cu_sequence_by_event_id :: "string \<Rightarrow> int option"

definition new_cursor :: "string \<Rightarrow> runtime_event_cursor" where
  "new_cursor run_id =
     \<lparr> cu_run_id = run_id, cu_committed_sequence = 0, cu_terminal_sequence = None,
       cu_by_sequence = Map.empty, cu_terminal_type = None, cu_terminal_status = None,
       cu_recovered = False, cu_sequence_by_event_id = Map.empty \<rparr>"

definition payload_get_is :: "json_object \<Rightarrow> string \<Rightarrow> string \<Rightarrow> bool" where
  "payload_get_is payload key text =
     (case map_of payload key of None \<Rightarrow> False | Some v \<Rightarrow> scalar_eq v (JStr text))"

definition cursor_recovery ::
    "runtime_event_cursor \<Rightarrow> event_recovery_reason \<Rightarrow> runtime_event \<Rightarrow> exn" where
  "cursor_recovery c reason ev = EventReconciliationRequired reason (cu_run_id c)
     (cu_committed_sequence c) (Some (ev_sequence ev))"

text \<open>The guard on events that arrive when the committed tail is terminal, or is not.\<close>

definition accept_terminal_guard :: "runtime_event_cursor \<Rightarrow> runtime_event \<Rightarrow> exn + unit" where
  "accept_terminal_guard c ev =
     (case cu_terminal_sequence c of
        Some t \<Rightarrow> (case cu_by_sequence c t of
            None \<Rightarrow> Inl (KeyError ''_by_sequence'')
          | Some (prior_id, _) \<Rightarrow>
              guard (ev_type ev = CLOSURE_RECOVERY_STARTED
                \<and> payload_get_is (ev_payload ev) ''failed_event_id'' prior_id
                \<and> cu_terminal_type c = Some RUN_FAILED
                \<and> (case cu_terminal_status c of None \<Rightarrow> False
                   | Some v \<Rightarrow> scalar_eq v (JStr ''FAILED''))
                \<and> \<not> cu_recovered c) (cursor_recovery c POST_TERMINAL_EVENT ev))
      | None \<Rightarrow> guard (ev_type ev \<noteq> CLOSURE_RECOVERY_STARTED)
          (cursor_recovery c POST_TERMINAL_EVENT ev))"

definition cursor_commit ::
    "(runtime_event \<Rightarrow> string) \<Rightarrow> runtime_event_cursor \<Rightarrow> runtime_event \<Rightarrow> runtime_event_cursor" where
  "cursor_commit fp c ev =
     (let c1 = c\<lparr> cu_by_sequence := (cu_by_sequence c)(ev_sequence ev \<mapsto> (ev_event_id ev, fp ev)),
                 cu_sequence_by_event_id :=
                   (cu_sequence_by_event_id c)(ev_event_id ev \<mapsto> ev_sequence ev),
                 cu_committed_sequence := ev_sequence ev \<rparr>;
          c2 = (if ev_type ev = CLOSURE_RECOVERY_STARTED
                then c1\<lparr> cu_terminal_sequence := None, cu_recovered := True \<rparr> else c1)
      in if ev_type ev \<in> set terminal_types
         then c2\<lparr> cu_terminal_sequence := Some (ev_sequence ev),
                  cu_terminal_type := Some (ev_type ev),
                  cu_terminal_status := map_of (ev_payload ev) ''status'' \<rparr>
         else c2)"

definition accept ::
    "(runtime_event \<Rightarrow> string) \<Rightarrow> runtime_event_cursor \<Rightarrow> runtime_event
       \<Rightarrow> exn + event_apply_disposition \<times> runtime_event_cursor" where
  "accept fp c ev =
     (if ev_run_id ev \<noteq> cu_run_id c then Inl (cursor_recovery c WRONG_RUN ev)
      else if ev_event_id ev = [] then Inl (cursor_recovery c MALFORMED_EVENT ev)
      else case cu_by_sequence c (ev_sequence ev) of
        Some known \<Rightarrow>
          if known = (ev_event_id ev, fp ev) then Inr (DUPLICATE_IGNORED, c)
          else Inl (cursor_recovery c CONFLICTING_DUPLICATE ev)
      | None \<Rightarrow>
          if cu_sequence_by_event_id c (ev_event_id ev) \<noteq> None
          then Inl (cursor_recovery c DUPLICATE_EVENT_ID ev)
          else rbind (accept_terminal_guard c ev) (\<lambda>_.
            let expected = cu_committed_sequence c + 1 in
            if ev_sequence ev < expected then Inl (cursor_recovery c STALE_EVENT ev)
            else if expected < ev_sequence ev then Inl (cursor_recovery c SEQUENCE_GAP ev)
            else Inr (APPLIED, cursor_commit fp c ev)))"

section \<open>Validation of a log\<close>

definition log_step ::
    "(runtime_event \<Rightarrow> string) \<Rightarrow> string \<Rightarrow> runtime_event_cursor \<times> runtime_event option
       \<Rightarrow> runtime_event \<Rightarrow> exn + runtime_event_cursor \<times> runtime_event option" where
  "log_step fp run_id st ev =
     (case st of (cursor, terminal) \<Rightarrow>
        rbind (accept fp cursor ev) (\<lambda>(disposition, cursor').
          if disposition = DUPLICATE_IGNORED
          then Inl (EventReconciliationRequired DUPLICATE_SEQUENCE run_id
                 (cu_committed_sequence cursor') (Some (ev_sequence ev)))
          else if ev_type ev \<in> set terminal_types then Inr (cursor', Some ev)
          else if ev_type ev = CLOSURE_RECOVERY_STARTED then Inr (cursor', None)
          else Inr (cursor', terminal)))"

definition validate_event_log ::
    "(runtime_event \<Rightarrow> string) \<Rightarrow> string \<Rightarrow> runtime_event list \<Rightarrow> exn + runtime_event option" where
  "validate_event_log fp run_id evs =
     rbind (rfold (log_step fp run_id) (new_cursor run_id, None) evs) (\<lambda>(_, terminal). Inr terminal)"

section \<open>Resume cursors\<close>

datatype resume_cursor = Numeric int | Opaque string

definition is_digit :: "char \<Rightarrow> bool" where
  "is_digit c \<longleftrightarrow> 48 \<le> (of_char c :: nat) \<and> (of_char c :: nat) \<le> 57"

definition is_letter :: "char \<Rightarrow> bool" where
  "is_letter c \<longleftrightarrow> (65 \<le> (of_char c :: nat) \<and> (of_char c :: nat) \<le> 90)
     \<or> (97 \<le> (of_char c :: nat) \<and> (of_char c :: nat) \<le> 122)"

definition canonical_numeric :: "string \<Rightarrow> bool" where
  "canonical_numeric s \<longleftrightarrow> s = ''0'' \<or>
     (s \<noteq> [] \<and> list_all is_digit s \<and> hd s \<noteq> CHR ''0'')"

definition signed_or_noncanonical_numeric :: "string \<Rightarrow> bool" where
  "signed_or_noncanonical_numeric s \<longleftrightarrow>
     (let digits = (case s of [] \<Rightarrow> [] | c # cs \<Rightarrow> if c = CHR ''+'' \<or> c = CHR ''-'' then cs else s)
      in digits \<noteq> [] \<and> list_all is_digit digits)"

definition opaque_event_cursor :: "string \<Rightarrow> bool" where
  "opaque_event_cursor s \<longleftrightarrow> 1 \<le> length s \<and> length s \<le> 256
     \<and> list_all (\<lambda>c. is_letter c \<or> is_digit c \<or> c \<in> set ''._:-'') s"

definition decimal_value :: "string \<Rightarrow> int" where
  "decimal_value s = foldl (\<lambda>n c. 10 * n + (of_char c - 48)) 0 s"

definition parse_resume_cursor :: "string option \<Rightarrow> exn + resume_cursor" where
  "parse_resume_cursor cursor =
     (case cursor of
        None \<Rightarrow> Inr (Numeric 0)
      | Some s \<Rightarrow>
          if canonical_numeric s
          then if 19 < length s then Inl (CursorPreflightError INVALID_CURSOR)
               else if decimal_value s \<le> max_sequence then Inr (Numeric (decimal_value s))
               else Inl (CursorPreflightError INVALID_CURSOR)
          else if signed_or_noncanonical_numeric s then Inl (CursorPreflightError INVALID_CURSOR)
          else if opaque_event_cursor s then Inr (Opaque s)
          else Inl (CursorPreflightError INVALID_CURSOR))"

datatype terminal_outcome = SUCCESS | FAILURE | CANCELLED_OUTCOME

definition terminal_outcome_of :: "runtime_event \<Rightarrow> terminal_outcome" where
  "terminal_outcome_of ev =
     (if ev_type ev = RUN_COMPLETED then SUCCESS
      else if payload_get_is (ev_payload ev) ''status'' ''CANCELLED'' then CANCELLED_OUTCOME
      else FAILURE)"

record cursor_preflight =
  cp_run_id :: string
  cp_sequence :: int
  cp_tail_sequence :: int
  cp_terminal_sequence :: "int option"
  cp_terminal_event_id :: "string option"
  cp_terminal_outcome :: "terminal_outcome option"
  cp_terminal_event :: "runtime_event option"

definition terminal_at_cursor :: "cursor_preflight \<Rightarrow> bool" where
  "terminal_at_cursor p \<longleftrightarrow> cp_terminal_sequence p = Some (cp_sequence p)"

definition build_cursor_preflight ::
    "(runtime_event \<Rightarrow> string) \<Rightarrow> string \<Rightarrow> string option \<Rightarrow> runtime_event list
       \<Rightarrow> exn + cursor_preflight" where
  "build_cursor_preflight fp run_id last_event_id evs =
     rbind (validate_event_log fp run_id evs) (\<lambda>terminal.
     rbind (parse_resume_cursor last_event_id) (\<lambda>parsed.
     let tail = (if evs = [] then 0 else ev_sequence (last evs)) in
     rbind (case parsed of
         Numeric n \<Rightarrow> if tail < n then Inl (CursorPreflightError CURSOR_AHEAD) else Inr n
       | Opaque k \<Rightarrow>
           (case find (\<lambda>ev. ev_event_id ev = k) evs of
              None \<Rightarrow> Inl (CursorPreflightError INVALID_CURSOR)
            | Some ev \<Rightarrow> if ev_sequence ev < 0 then Inl (CursorPreflightError INVALID_CURSOR)
                else Inr (ev_sequence ev))) (\<lambda>sequence.
     Inr \<lparr> cp_run_id = run_id, cp_sequence = sequence, cp_tail_sequence = tail,
           cp_terminal_sequence = map_option ev_sequence terminal,
           cp_terminal_event_id = map_option ev_event_id terminal,
           cp_terminal_outcome = map_option terminal_outcome_of terminal,
           cp_terminal_event = terminal \<rparr>)))"

section \<open>The in-memory event store\<close>

record fresh_supply =
  sp_uuid :: "nat \<Rightarrow> string"
  sp_now :: "nat \<Rightarrow> timestamp"

record event_store =
  es_events :: "string \<Rightarrow> runtime_event list"
  es_next :: nat

definition empty_store :: event_store where
  "empty_store = \<lparr> es_events = (\<lambda>_. []), es_next = 0 \<rparr>"

definition log_terminal :: "runtime_event list \<Rightarrow> bool" where
  "log_terminal evs \<longleftrightarrow> evs \<noteq> [] \<and> ev_type (last evs) \<in> set terminal_types"

definition append_event ::
    "(runtime_event \<Rightarrow> string) \<Rightarrow> runtime_event \<Rightarrow> (exn, event_store, unit) eff" where
  "append_event fp ev st =
     (let current = es_events st (ev_run_id ev);
          expected = (if current = [] then 1 else ev_sequence (last current) + 1)
      in if log_terminal current \<and> ev_type ev \<noteq> CLOSURE_RECOVERY_STARTED
         then (Inl (EventSequenceError Run_already_terminal), st)
         else if ev_sequence ev \<noteq> expected
         then (Inl (EventSequenceError (Unexpected_sequence expected (ev_sequence ev))), st)
         else if ev_event_id ev \<in> set (map ev_event_id current)
         then (Inl (EventSequenceError (Duplicate_event_id (ev_event_id ev))), st)
         else case validate_event_log fp (ev_run_id ev) (current @ [ev]) of
           Inl e \<Rightarrow> (Inl e, st)
         | Inr _ \<Rightarrow> (Inr (),
             st\<lparr> es_events := (es_events st)(ev_run_id ev := current @ [ev]) \<rparr>))"

definition emit ::
    "(runtime_event \<Rightarrow> string) \<Rightarrow> fresh_supply \<Rightarrow> string \<Rightarrow> event_type \<Rightarrow> string option \<Rightarrow> json_object
       \<Rightarrow> timestamp option \<Rightarrow> (exn, event_store, runtime_event) eff" where
  "emit fp fs run_id event_type task_id payload ts st =
     (let current = es_events st run_id in
      if log_terminal current \<and> event_type \<noteq> CLOSURE_RECOVERY_STARTED
      then (Inl (EventSequenceError Run_already_terminal), st)
      else let ev = \<lparr> ev_event_id = ''EVT-'' @ sp_uuid fs (es_next st), ev_run_id = run_id,
                      ev_task_id = task_id, ev_type = event_type,
                      ev_timestamp = (case ts of Some t \<Rightarrow> t | None \<Rightarrow> sp_now fs (es_next st)),
                      ev_sequence = int (length current) + 1, ev_payload = payload \<rparr>;
               st1 = st\<lparr> es_next := Suc (es_next st) \<rparr>
           in if \<not> event_fields_valid ev then (Inl (ValidationError ''RuntimeEvent''), st1)
              else case (if event_type = CLOSURE_RECOVERY_STARTED
                         then validate_event_log fp run_id (current @ [ev]) else Inr None) of
                Inl e \<Rightarrow> (Inl e, st1)
              | Inr _ \<Rightarrow> (Inr ev,
                  st1\<lparr> es_events := (es_events st)(run_id := current @ [ev]) \<rparr>))"

definition validate_after_sequence :: "json \<Rightarrow> exn + int" where
  "validate_after_sequence v =
     (case v of
        JInt i \<Rightarrow> if i < 0 then Inl (ValueError ''after_sequence cannot be negative'')
                  else if max_sequence < i
                  then Inl (ValueError ''after_sequence exceeds the cursor range'')
                  else Inr i
      | _ \<Rightarrow> Inl TypeError)"

definition replay ::
    "(runtime_event \<Rightarrow> string) \<Rightarrow> event_store \<Rightarrow> string \<Rightarrow> json \<Rightarrow> exn + runtime_event list" where
  "replay fp st run_id after_sequence =
     rbind (validate_after_sequence after_sequence) (\<lambda>after.
     rbind (validate_event_log fp run_id (es_events st run_id)) (\<lambda>_.
     Inr (filter (\<lambda>ev. after < ev_sequence ev) (es_events st run_id))))"

text \<open>
  \<open>wait_for_events\<close> reads the store on entry, again under the condition, and once more when it was
  notified before the timeout; other coroutines may have written in between, so the three reads take
  the store at three moments. \<open>None\<close> for the last one is the timeout.
\<close>

definition wait_for_events ::
    "(runtime_event \<Rightarrow> string) \<Rightarrow> event_store \<Rightarrow> event_store \<Rightarrow> event_store option \<Rightarrow> string \<Rightarrow> json
       \<Rightarrow> exn + runtime_event list" where
  "wait_for_events fp st_entry st_locked st_woken run_id after_sequence =
     rbind (replay fp st_entry run_id after_sequence) (\<lambda>evs.
     if evs \<noteq> [] then Inr evs
     else rbind (replay fp st_locked run_id after_sequence) (\<lambda>evs'.
       if evs' \<noteq> [] then Inr evs'
       else case st_woken of
         None \<Rightarrow> Inr []
       | Some st \<Rightarrow> replay fp st run_id after_sequence))"

definition preflight_cursor ::
    "(runtime_event \<Rightarrow> string) \<Rightarrow> event_store \<Rightarrow> string \<Rightarrow> string option \<Rightarrow> exn + cursor_preflight" where
  "preflight_cursor fp st run_id last_event_id =
     build_cursor_preflight fp run_id last_event_id (es_events st run_id)"

definition resolve_resume_sequence ::
    "(runtime_event \<Rightarrow> string) \<Rightarrow> event_store \<Rightarrow> string \<Rightarrow> string option \<Rightarrow> exn + int" where
  "resolve_resume_sequence fp st run_id last_event_id =
     rbind (preflight_cursor fp st run_id last_event_id) (\<lambda>p. Inr (cp_sequence p))"

end
