(* ===== verification/EventLog.thy ===== *)
theory EventLog
  imports Events
begin

text \<open>
  What a valid event log is, independently of the cursor: every event fits the events before it
  (\<open>fits\<close>). The cursor's state after accepting a log is \<open>cursor_rep\<close>, a refinement relation between
  the dictionaries of the code and the log; \<open>validate_event_log\<close> accepts exactly the valid logs.
\<close>

section \<open>The abstract log\<close>

definition log_ids :: "runtime_event list \<Rightarrow> string set" where
  "log_ids evs = ev_event_id ` set evs"

definition log_recovered :: "runtime_event list \<Rightarrow> bool" where
  "log_recovered evs \<longleftrightarrow> CLOSURE_RECOVERY_STARTED \<in> ev_type ` set evs"

text \<open>
  After a terminal event only one thing may follow, once per Run: the closure recovery that names
  the \<open>FAILED\<close> terminal event it reopens. A closure recovery never comes otherwise.
\<close>

definition terminal_discipline :: "runtime_event list \<Rightarrow> runtime_event \<Rightarrow> bool" where
  "terminal_discipline evs ev \<longleftrightarrow>
     (if log_terminal evs
      then ev_type ev = CLOSURE_RECOVERY_STARTED
        \<and> payload_get_is (ev_payload ev) ''failed_event_id'' (ev_event_id (last evs))
        \<and> ev_type (last evs) = RUN_FAILED
        \<and> payload_get_is (ev_payload (last evs)) ''status'' ''FAILED''
        \<and> \<not> log_recovered evs
      else ev_type ev \<noteq> CLOSURE_RECOVERY_STARTED)"

definition fits :: "string \<Rightarrow> runtime_event list \<Rightarrow> runtime_event \<Rightarrow> bool" where
  "fits run_id evs ev \<longleftrightarrow>
     ev_run_id ev = run_id \<and> ev_event_id ev \<noteq> [] \<and> ev_event_id ev \<notin> log_ids evs
     \<and> ev_sequence ev = int (length evs) + 1 \<and> terminal_discipline evs ev"

definition log_ok :: "string \<Rightarrow> runtime_event list \<Rightarrow> bool" where
  "log_ok run_id evs \<longleftrightarrow> (\<forall>i < length evs. fits run_id (take i evs) (evs ! i))"

lemma log_ok_Nil [simp]: "log_ok run_id []"
  by (simp add: log_ok_def)

lemma log_ok_snoc [simp]: "log_ok run_id (evs @ [ev]) \<longleftrightarrow> log_ok run_id evs \<and> fits run_id evs ev"
  by (auto simp: log_ok_def nth_append less_Suc_eq)

lemma log_ok_prefix: "log_ok run_id (evs @ tail) \<Longrightarrow> log_ok run_id evs"
  by (induction tail rule: rev_induct) (simp_all add: append_assoc [symmetric] del: append_assoc)

lemma log_terminal_snoc [simp]: "log_terminal (evs @ [ev]) \<longleftrightarrow> ev_type ev \<in> set terminal_types"
  by (simp add: log_terminal_def)

lemma log_terminal_Nil [simp]: "\<not> log_terminal []"
  by (simp add: log_terminal_def)

lemma closure_not_terminal [simp]: "CLOSURE_RECOVERY_STARTED \<notin> set terminal_types"
  by (simp add: terminal_types_def)

lemma log_ids_snoc [simp]: "log_ids (evs @ [ev]) = insert (ev_event_id ev) (log_ids evs)"
  by (auto simp: log_ids_def)

lemma log_recovered_snoc [simp]:
  "log_recovered (evs @ [ev]) \<longleftrightarrow> log_recovered evs \<or> ev_type ev = CLOSURE_RECOVERY_STARTED"
  by (auto simp: log_recovered_def)

lemma log_ok_sequences:
  "log_ok run_id evs \<Longrightarrow> map ev_sequence evs = map (\<lambda>i. int i + 1) [0..<length evs]"
  by (induction evs rule: rev_induct) (auto simp: fits_def)

lemma log_ok_distinct: "log_ok run_id evs \<Longrightarrow> distinct (map ev_event_id evs)"
  by (induction evs rule: rev_induct) (auto simp: fits_def log_ids_def)

lemma log_ok_nth_sequence: "log_ok run_id evs \<Longrightarrow> i < length evs \<Longrightarrow> ev_sequence (evs ! i) = int i + 1"
  by (auto simp: log_ok_def fits_def)

lemma log_ok_run_id: "log_ok run_id evs \<Longrightarrow> ev \<in> set evs \<Longrightarrow> ev_run_id ev = run_id"
  by (auto simp: log_ok_def fits_def in_set_conv_nth)

lemma log_ok_event_id: "log_ok run_id evs \<Longrightarrow> ev \<in> set evs \<Longrightarrow> ev_event_id ev \<noteq> []"
  by (auto simp: log_ok_def fits_def in_set_conv_nth)

lemma log_ok_last_sequence:
  "log_ok run_id evs \<Longrightarrow> evs \<noteq> [] \<Longrightarrow> ev_sequence (last evs) = int (length evs)"
  by (cases evs rule: rev_cases) (auto simp: fits_def)

text \<open>At most two terminal events: the one a recovery reopened and the final one.\<close>

lemma log_ok_terminal_positions:
  assumes "log_ok run_id evs" and "Suc i < length evs" and "ev_type (evs ! i) \<in> set terminal_types"
  shows "ev_type (evs ! i) = RUN_FAILED \<and> ev_type (evs ! Suc i) = CLOSURE_RECOVERY_STARTED"
proof -
  have f: "fits run_id (take (Suc i) evs) (evs ! Suc i)"
    using assms by (simp add: log_ok_def)
  have l: "last (take (Suc i) evs) = evs ! i"
    using assms by (simp add: take_Suc_conv_app_nth)
  have "log_terminal (take (Suc i) evs)"
    using assms l by (auto simp: log_terminal_def)
  with f l show ?thesis by (simp add: fits_def terminal_discipline_def)
qed

section \<open>The cursor represents the log it accepted\<close>

definition cursor_rep ::
    "(runtime_event \<Rightarrow> string) \<Rightarrow> string \<Rightarrow> runtime_event list \<Rightarrow> runtime_event_cursor \<Rightarrow> bool" where
  "cursor_rep fp run_id evs c \<longleftrightarrow>
     cu_run_id c = run_id \<and> cu_committed_sequence c = int (length evs)
     \<and> cu_terminal_sequence c = (if log_terminal evs then Some (int (length evs)) else None)
     \<and> (\<forall>s. cu_by_sequence c s =
          (if 1 \<le> s \<and> s \<le> int (length evs)
           then Some (ev_event_id (evs ! nat (s - 1)), fp (evs ! nat (s - 1))) else None))
     \<and> (\<forall>k. (cu_sequence_by_event_id c k = None) = (k \<notin> log_ids evs))
     \<and> (log_terminal evs \<longrightarrow> cu_terminal_type c = Some (ev_type (last evs))
          \<and> cu_terminal_status c = map_of (ev_payload (last evs)) ''status'')
     \<and> cu_recovered c = log_recovered evs"

lemma cursor_rep_new: "cursor_rep fp run_id [] (new_cursor run_id)"
  by (simp add: cursor_rep_def new_cursor_def log_ids_def log_recovered_def)

lemma cursor_rep_commit:
  assumes rep: "cursor_rep fp run_id evs c" and fit: "fits run_id evs ev"
  shows "cursor_rep fp run_id (evs @ [ev]) (cursor_commit fp c ev)"
proof -
  have seq: "ev_sequence ev = int (length evs) + 1" using fit by (simp add: fits_def)
  have bys: "cu_by_sequence (cursor_commit fp c ev) s =
      (if 1 \<le> s \<and> s \<le> int (length (evs @ [ev]))
       then Some (ev_event_id ((evs @ [ev]) ! nat (s - 1)), fp ((evs @ [ev]) ! nat (s - 1)))
       else None)" for s
  proof -
    have b: "cu_by_sequence (cursor_commit fp c ev) s =
        (if s = int (length evs) + 1 then Some (ev_event_id ev, fp ev) else cu_by_sequence c s)"
      using seq by (simp add: cursor_commit_def Let_def)
    consider "s = int (length evs) + 1" | "1 \<le> s \<and> s \<le> int (length evs)"
      | "s < 1 \<or> int (length evs) + 1 < s" by linarith
    then show ?thesis
    proof cases
      case 1
      with b show ?thesis by (simp add: nth_append)
    next
      case 2
      then have "nat (s - 1) < length evs" by linarith
      with 2 b rep show ?thesis by (simp add: cursor_rep_def nth_append)
    next
      case 3
      with b rep show ?thesis by (auto simp: cursor_rep_def)
    qed
  qed
  have rest: "cu_run_id (cursor_commit fp c ev) = cu_run_id c"
    "cu_committed_sequence (cursor_commit fp c ev) = ev_sequence ev"
    "cu_sequence_by_event_id (cursor_commit fp c ev)
       = (cu_sequence_by_event_id c)(ev_event_id ev \<mapsto> ev_sequence ev)"
    "cu_recovered (cursor_commit fp c ev) \<longleftrightarrow>
       cu_recovered c \<or> ev_type ev = CLOSURE_RECOVERY_STARTED"
    by (auto simp: cursor_commit_def Let_def)
  have terms: "cu_terminal_sequence (cursor_commit fp c ev) =
      (if ev_type ev \<in> set terminal_types then Some (ev_sequence ev)
       else if ev_type ev = CLOSURE_RECOVERY_STARTED then None else cu_terminal_sequence c)"
    "ev_type ev \<in> set terminal_types \<Longrightarrow> cu_terminal_type (cursor_commit fp c ev) = Some (ev_type ev)"
    "ev_type ev \<in> set terminal_types \<Longrightarrow>
       cu_terminal_status (cursor_commit fp c ev) = map_of (ev_payload ev) ''status''"
    by (simp_all add: cursor_commit_def Let_def)
  have open_tail: "ev_type ev \<noteq> CLOSURE_RECOVERY_STARTED \<Longrightarrow> \<not> log_terminal evs"
    using fit by (auto simp: fits_def terminal_discipline_def split: if_splits)
  show ?thesis
    unfolding cursor_rep_def
    using rep bys rest terms open_tail seq by (auto simp: cursor_rep_def)
qed


section \<open>Accepting one event\<close>

lemma accept_terminal_guard_iff:
  assumes "cursor_rep fp run_id evs c"
  shows "accept_terminal_guard c ev = Inr () \<longleftrightarrow> terminal_discipline evs ev"
proof (cases "log_terminal evs")
  case False
  with assms show ?thesis
    by (simp add: accept_terminal_guard_def cursor_rep_def terminal_discipline_def)
next
  case True
  then have ne: "evs \<noteq> []" by (auto simp: log_terminal_def)
  with assms True have "cu_by_sequence c (int (length evs)) =
      Some (ev_event_id (last evs), fp (last evs))"
    by (simp add: cursor_rep_def last_conv_nth nat_diff_distrib Suc_le_eq)
  with assms True show ?thesis
    by (auto simp: accept_terminal_guard_def cursor_rep_def terminal_discipline_def
        payload_get_is_def)
qed

lemma accept_applied_iff:
  assumes rep: "cursor_rep fp run_id evs c"
  shows "accept fp c ev = Inr (APPLIED, c') \<longleftrightarrow>
     fits run_id evs ev \<and> c' = cursor_commit fp c ev"
proof -
  have ids: "cu_sequence_by_event_id c (ev_event_id ev) = None \<longleftrightarrow> ev_event_id ev \<notin> log_ids evs"
    using rep by (simp add: cursor_rep_def)
  have bys: "cu_by_sequence c (ev_sequence ev) = None \<longleftrightarrow>
      \<not> (1 \<le> ev_sequence ev \<and> ev_sequence ev \<le> int (length evs))"
    using rep by (simp add: cursor_rep_def)
  have c: "cu_run_id c = run_id" "cu_committed_sequence c = int (length evs)"
    using rep by (simp_all add: cursor_rep_def)
  show ?thesis
    using ids bys c accept_terminal_guard_iff [OF rep, of ev]
    by (auto simp: accept_def fits_def Let_def rbind_Inr_iff split: option.splits if_splits)
qed

text \<open>A rejected or duplicate event never changes what the cursor represents.\<close>

lemma accept_duplicateD:
  assumes "accept fp c ev = Inr (DUPLICATE_IGNORED, c')"
  shows "c' = c" "cu_by_sequence c (ev_sequence ev) = Some (ev_event_id ev, fp ev)"
  using assms by (auto simp: accept_def Let_def rbind_Inr_iff split: option.splits if_splits)

lemma accept_step:
  assumes rep: "cursor_rep fp run_id evs c" and acc: "accept fp c ev = Inr (d, c')"
  shows "(d = APPLIED \<and> fits run_id evs ev \<and> cursor_rep fp run_id (evs @ [ev]) c')
    \<or> (d = DUPLICATE_IGNORED \<and> c' = c
        \<and> (\<exists>i < length evs. ev_sequence ev = int i + 1
             \<and> ev_event_id (evs ! i) = ev_event_id ev \<and> fp (evs ! i) = fp ev))"
proof (cases d)
  case APPLIED
  with acc accept_applied_iff [OF rep] have f: "fits run_id evs ev" and c: "c' = cursor_commit fp c ev"
    by auto
  with APPLIED cursor_rep_commit [OF rep f] show ?thesis by simp
next
  case DUPLICATE_IGNORED
  with acc have "accept fp c ev = Inr (DUPLICATE_IGNORED, c')" by simp
  note dup = accept_duplicateD [OF this]
  from rep dup(2) have s: "1 \<le> ev_sequence ev" "ev_sequence ev \<le> int (length evs)"
    and m: "ev_event_id (evs ! nat (ev_sequence ev - 1)) = ev_event_id ev"
      "fp (evs ! nat (ev_sequence ev - 1)) = fp ev"
    by (auto simp: cursor_rep_def split: if_splits)
  have "nat (ev_sequence ev - 1) < length evs" "ev_sequence ev = int (nat (ev_sequence ev - 1)) + 1"
    using s by linarith+
  with DUPLICATE_IGNORED dup(1) m show ?thesis by blast
qed

text \<open>The \<open>KeyError\<close> of \<open>self._by_sequence[self.terminal_sequence]\<close> cannot occur.\<close>

lemma accept_no_key_error:
  assumes "cursor_rep fp run_id evs c"
  shows "accept fp c ev \<noteq> Inl (KeyError k)"
proof -
  have "accept_terminal_guard c ev \<noteq> Inl (KeyError k)"
  proof (cases "log_terminal evs")
    case False
    with assms show ?thesis
      by (simp add: accept_terminal_guard_def cursor_rep_def cursor_recovery_def)
  next
    case True
    then have "evs \<noteq> []" by (auto simp: log_terminal_def)
    with assms True have "cu_by_sequence c (int (length evs)) \<noteq> None"
      by (simp add: cursor_rep_def Suc_le_eq)
    with assms True show ?thesis
      by (auto simp: accept_terminal_guard_def cursor_rep_def cursor_recovery_def)
  qed
  then show ?thesis
    by (cases "accept_terminal_guard c ev")
      (auto simp: accept_def cursor_recovery_def Let_def split: option.splits)
qed

section \<open>Validating a log\<close>

definition terminal_of :: "runtime_event list \<Rightarrow> runtime_event option" where
  "terminal_of evs = (if log_terminal evs then Some (last evs) else None)"

lemma log_step_iff:
  assumes rep: "cursor_rep fp run_id evs c"
  shows "log_step fp run_id (c, terminal_of evs) ev = Inr (c', t') \<longleftrightarrow>
    fits run_id evs ev \<and> c' = cursor_commit fp c ev \<and> t' = terminal_of (evs @ [ev])"
proof -
  have open_tail: "fits run_id evs ev \<Longrightarrow> ev_type ev \<noteq> CLOSURE_RECOVERY_STARTED \<Longrightarrow> \<not> log_terminal evs"
    by (auto simp: fits_def terminal_discipline_def split: if_splits)
  have d: "d \<noteq> DUPLICATE_IGNORED \<longleftrightarrow> d = APPLIED" for d by (cases d) simp_all
  show ?thesis
  proof
    assume step: "log_step fp run_id (c, terminal_of evs) ev = Inr (c', t')"
    then have acc: "accept fp c ev = Inr (APPLIED, c')"
      by (auto simp: log_step_def rbind_Inr_iff d split: if_splits prod.splits)
    with accept_applied_iff [OF rep] have f: "fits run_id evs ev" and c': "c' = cursor_commit fp c ev"
      by auto
    from step acc open_tail [OF f] have "t' = terminal_of (evs @ [ev])"
      by (auto simp: log_step_def terminal_of_def split: if_splits)
    with f c' show "fits run_id evs ev \<and> c' = cursor_commit fp c ev \<and> t' = terminal_of (evs @ [ev])"
      by simp
  next
    assume r: "fits run_id evs ev \<and> c' = cursor_commit fp c ev \<and> t' = terminal_of (evs @ [ev])"
    with accept_applied_iff [OF rep] have "accept fp c ev = Inr (APPLIED, c')" by simp
    with r open_tail show "log_step fp run_id (c, terminal_of evs) ev = Inr (c', t')"
      by (auto simp: log_step_def terminal_of_def)
  qed
qed

lemma validate_fold:
  "(rfold (log_step fp run_id) (new_cursor run_id, None) evs = Inr (c, t) \<longrightarrow>
      log_ok run_id evs \<and> cursor_rep fp run_id evs c \<and> t = terminal_of evs)
   \<and> (log_ok run_id evs \<longrightarrow>
      (\<exists>c t. rfold (log_step fp run_id) (new_cursor run_id, None) evs = Inr (c, t)))"
proof (induction evs arbitrary: c t rule: rev_induct)
  case Nil
  then show ?case by (auto simp: cursor_rep_new terminal_of_def)
next
  case (snoc ev evs)
  show ?case
  proof (intro conjI impI)
    assume "rfold (log_step fp run_id) (new_cursor run_id, None) (evs @ [ev]) = Inr (c, t)"
    then obtain c1 t1 where r: "rfold (log_step fp run_id) (new_cursor run_id, None) evs = Inr (c1, t1)"
      and st: "log_step fp run_id (c1, t1) ev = Inr (c, t)"
      by (auto simp: rfold_snoc rbind_Inr_iff)
    from snoc.IH [of c1 t1] r have ok: "log_ok run_id evs" and rep: "cursor_rep fp run_id evs c1"
      and t1: "t1 = terminal_of evs" by auto
    from log_step_iff [OF rep] st t1 have "fits run_id evs ev" "c = cursor_commit fp c1 ev"
      "t = terminal_of (evs @ [ev])" by auto
    with ok cursor_rep_commit [OF rep] show "log_ok run_id (evs @ [ev])"
      "cursor_rep fp run_id (evs @ [ev]) c" "t = terminal_of (evs @ [ev])" by simp_all
  next
    assume "log_ok run_id (evs @ [ev])"
    then have ok: "log_ok run_id evs" and f: "fits run_id evs ev" by simp_all
    then obtain c1 t1 where r: "rfold (log_step fp run_id) (new_cursor run_id, None) evs = Inr (c1, t1)"
      using snoc.IH by blast
    with snoc.IH [of c1 t1] have rep: "cursor_rep fp run_id evs c1" and t1: "t1 = terminal_of evs"
      by auto
    from log_step_iff [OF rep] f t1
    have "log_step fp run_id (c1, t1) ev = Inr (cursor_commit fp c1 ev, terminal_of (evs @ [ev]))"
      by simp
    with r show "\<exists>c t. rfold (log_step fp run_id) (new_cursor run_id, None) (evs @ [ev]) = Inr (c, t)"
      by (simp add: rfold_snoc)
  qed
qed

lemma validate_event_log_iff:
  "validate_event_log fp run_id evs = Inr t \<longleftrightarrow> log_ok run_id evs \<and> t = terminal_of evs"
  using validate_fold [of fp run_id evs]
  by (fastforce simp: validate_event_log_def rbind_Inr_iff)

lemma validate_event_log_ok [simp]:
  "log_ok run_id evs \<Longrightarrow> validate_event_log fp run_id evs = Inr (terminal_of evs)"
  by (simp add: validate_event_log_iff)

section \<open>Consuming a stream with duplicates\<close>

text \<open>
  A consumer applies what \<open>accept\<close> returns as \<open>APPLIED\<close> and drops duplicates; the first exception
  stops it. This is the inner loop of \<open>runtime_event_stream\<close>.
\<close>

fun consume ::
    "(runtime_event \<Rightarrow> string) \<Rightarrow> runtime_event_cursor \<Rightarrow> runtime_event list
       \<Rightarrow> exn + runtime_event_cursor \<times> runtime_event list" where
  "consume fp c [] = Inr (c, [])"
| "consume fp c (ev # evs) =
     rbind (accept fp c ev) (\<lambda>(d, c').
       rbind (consume fp c' evs) (\<lambda>(c'', applied).
         Inr (c'', if d = APPLIED then ev # applied else applied)))"

lemma consume_rep:
  assumes "consume fp c ds = Inr (c', applied)" and "log_ok run_id evs"
    and "cursor_rep fp run_id evs c"
  shows "log_ok run_id (evs @ applied) \<and> cursor_rep fp run_id (evs @ applied) c'
    \<and> (\<forall>d \<in> set ds. \<exists>e \<in> set (evs @ applied). ev_sequence e = ev_sequence d
         \<and> ev_event_id e = ev_event_id d \<and> fp e = fp d)"
  using assms
proof (induction ds arbitrary: c evs applied)
  case Nil
  then show ?case by simp
next
  case (Cons d ds)
  then obtain disp c1 rest where acc: "accept fp c d = Inr (disp, c1)"
    and con: "consume fp c1 ds = Inr (c', rest)"
    and app: "applied = (if disp = APPLIED then d # rest else rest)"
    by (auto simp: rbind_Inr_iff)
  from accept_step [OF Cons.prems(3) acc] consider
      (a) "disp = APPLIED" "fits run_id evs d" "cursor_rep fp run_id (evs @ [d]) c1"
    | (b) i where "disp = DUPLICATE_IGNORED" "c1 = c" "i < length evs"
        "ev_sequence d = int i + 1" "ev_event_id (evs ! i) = ev_event_id d" "fp (evs ! i) = fp d"
    by blast
  then show ?case
  proof cases
    case a
    with Cons.prems(2) have "log_ok run_id (evs @ [d])" by simp
    from Cons.IH [OF con this a(3)] a(1) app show ?thesis by auto
  next
    case b
    from Cons.IH [OF con Cons.prems(2)] Cons.prems(3) b(2)
    have IH: "log_ok run_id (evs @ rest) \<and> cursor_rep fp run_id (evs @ rest) c'
      \<and> (\<forall>d \<in> set ds. \<exists>e \<in> set (evs @ rest). ev_sequence e = ev_sequence d
         \<and> ev_event_id e = ev_event_id d \<and> fp e = fp d)" by simp
    have "ev_sequence (evs ! i) = ev_sequence d"
      using log_ok_nth_sequence [OF Cons.prems(2) b(3)] b(4) by simp
    with b(3,5,6) have "\<exists>e \<in> set (evs @ rest). ev_sequence e = ev_sequence d
         \<and> ev_event_id e = ev_event_id d \<and> fp e = fp d"
      using nth_mem [OF b(3)] by (metis UnCI set_append)
    with IH app b(1) show ?thesis by auto
  qed
qed

end
