(* ===== verification/ResumeCursor.thy ===== *)
theory ResumeCursor
  imports EventStore
begin

text \<open>
  Resuming a stream: the numeric resume cursor is exactly the canonical decimal of a sequence
  number, and a resume point makes replay continue right after the event it names.
\<close>

section \<open>Decimal numerals\<close>

definition digit_char :: "nat \<Rightarrow> char" where
  "digit_char n = char_of (48 + n)"

fun decimal :: "nat \<Rightarrow> string" where
  "decimal n = (if n < 10 then [digit_char n] else decimal (n div 10) @ [digit_char (n mod 10)])"

declare decimal.simps [simp del]

lemma of_char_digit_nat [simp]: "n < 10 \<Longrightarrow> (of_char (digit_char n) :: nat) = 48 + n"
  by (simp add: digit_char_def)

lemma of_char_digit_int [simp]: "n < 10 \<Longrightarrow> (of_char (digit_char n) :: int) = 48 + int n"
proof -
  assume "n < 10"
  then have "(of_nat (of_char (digit_char n)) :: int) = 48 + int n" by simp
  then show ?thesis by (simp only: of_nat_of_char)
qed

lemma is_digit_digit_char [simp]: "n < 10 \<Longrightarrow> is_digit (digit_char n)"
  by (simp add: is_digit_def)

lemma digit_char_inverse:
  assumes "is_digit c"
  shows "digit_char (of_char c - 48) = c" "(of_char c :: nat) - 48 < 10"
proof -
  have "48 \<le> (of_char c :: nat) \<and> (of_char c :: nat) \<le> 57" using assms by (simp add: is_digit_def)
  then show "(of_char c :: nat) - 48 < 10" "digit_char (of_char c - 48) = c"
    by (auto simp: digit_char_def)
qed

lemma digit_char_0 [simp]: "digit_char 0 = CHR ''0''"
proof -
  have "char_of (of_char (CHR ''0'') :: nat) = CHR ''0''" by (rule char_of_char)
  then show ?thesis by (simp add: digit_char_def)
qed

lemma digit_char_zero: "n < 10 \<Longrightarrow> digit_char n = CHR ''0'' \<longleftrightarrow> n = 0"
proof
  assume "n < 10" "digit_char n = CHR ''0''"
  then have "48 + n = (of_char (CHR ''0'') :: nat)" by (metis of_char_digit_nat)
  then show "n = 0" by simp
qed simp

lemma digit_value:
  assumes "is_digit c"
  shows "(of_char c :: int) - 48 = int (of_char c - 48)"
proof -
  have "48 \<le> (of_char c :: nat)" using assms by (simp add: is_digit_def)
  then have "int (of_char c - 48) = of_nat (of_char c) - 48" by linarith
  then show ?thesis by (simp only: of_nat_of_char)
qed

lemma decimal_value_snoc [simp]:
  "decimal_value (s @ [c]) = 10 * decimal_value s + (of_char c - 48)"
  by (simp add: decimal_value_def)

lemma decimal_value_Nil [simp]: "decimal_value [] = 0"
  by (simp add: decimal_value_def)

lemma decimal_not_Nil [simp]: "decimal n \<noteq> []"
  by (cases "n < 10") (simp_all add: decimal.simps [of n])

lemma decimal_value_decimal [simp]: "decimal_value (decimal n) = int n"
proof (induction n rule: decimal.induct)
  case (1 n)
  show ?case
  proof (cases "n < 10")
    case True
    then show ?thesis using decimal_value_snoc [of "[]" "digit_char n"]
      by (simp add: decimal.simps [of n])
  next
    case False
    with 1 show ?thesis
      by (simp add: decimal.simps [of n]) (simp add: zdiv_int zmod_int)
  qed
qed

lemma decimal_digits: "list_all is_digit (decimal n)"
  by (induction n rule: decimal.induct) (simp add: decimal.simps)

lemma hd_decimal: "0 < n \<Longrightarrow> hd (decimal n) \<noteq> CHR ''0''"
proof (induction n rule: decimal.induct)
  case (1 n)
  then show ?case
    by (cases "n < 10") (simp_all add: decimal.simps [of n] digit_char_zero)
qed

lemma canonical_decimal: "canonical_numeric (decimal n)"
proof (cases "n = 0")
  case True
  then show ?thesis by (simp add: canonical_numeric_def decimal.simps digit_char_zero)
next
  case False
  then show ?thesis using decimal_digits hd_decimal by (simp add: canonical_numeric_def)
qed

lemma digits_value_nonneg: "list_all is_digit s \<Longrightarrow> 0 \<le> decimal_value s"
proof (induction s rule: rev_induct)
  case Nil
  then show ?case by simp
next
  case (snoc c s)
  then have "is_digit c" by simp
  from digit_value [OF this] snoc show ?case by simp
qed

lemma canonical_nonneg: "canonical_numeric s \<Longrightarrow> 0 \<le> decimal_value s"
  by (rule digits_value_nonneg) (auto simp: canonical_numeric_def is_digit_def)

lemma decimal_of_digits:
  "list_all is_digit s \<Longrightarrow> s \<noteq> [] \<Longrightarrow> hd s \<noteq> CHR ''0'' \<Longrightarrow>
     0 < decimal_value s \<and> decimal (nat (decimal_value s)) = s"
proof (induction s rule: rev_induct)
  case Nil
  then show ?case by simp
next
  case (snoc c s)
  define d where "d = (of_char c :: nat) - 48"
  have dig: "is_digit c" using snoc.prems by simp
  then have d: "d < 10" "digit_char d = c" "(of_char c :: int) - 48 = int d"
    using digit_char_inverse [OF dig] digit_value [OF dig] by (simp_all add: d_def)
  show ?case
  proof (cases "s = []")
    case True
    with snoc.prems d have "d \<noteq> 0" using digit_char_zero [OF d(1)] by auto
    with True d show ?thesis using decimal_value_snoc [of "[]" c] by (simp add: decimal.simps)
  next
    case False
    with snoc have IH: "0 < decimal_value s" "decimal (nat (decimal_value s)) = s" by simp_all
    then have n: "nat (decimal_value (s @ [c])) = 10 * nat (decimal_value s) + d"
      using d(3) by simp
    with IH(1) d(1) have "\<not> nat (decimal_value (s @ [c])) < 10"
      "nat (decimal_value (s @ [c])) div 10 = nat (decimal_value s)"
      "nat (decimal_value (s @ [c])) mod 10 = d" by simp_all
    with IH d have "decimal (nat (decimal_value (s @ [c]))) = s @ [c]"
      by (simp only: decimal.simps [of "nat (decimal_value (s @ [c]))"] if_False)
    then show ?thesis using IH(1) d(3) by simp
  qed
qed

lemma canonical_iff_decimal:
  "canonical_numeric s \<longleftrightarrow> s = decimal (nat (decimal_value s))"
proof
  assume c: "canonical_numeric s"
  show "s = decimal (nat (decimal_value s))"
  proof (cases "s = ''0''")
    case True
    then show ?thesis by (simp add: decimal_value_def decimal.simps)
  next
    case False
    with c show ?thesis using decimal_of_digits [of s] by (simp add: canonical_numeric_def)
  qed
qed (metis canonical_decimal)

lemma length_decimal: "n < 10 ^ Suc k \<Longrightarrow> length (decimal n) \<le> Suc k"
proof (induction k arbitrary: n)
  case 0
  then show ?case by (simp add: decimal.simps)
next
  case (Suc k)
  have "n div 10 < 10 ^ Suc k" using Suc.prems by (simp add: less_mult_imp_div_less)
  from Suc.IH [OF this] show ?case by (simp add: decimal.simps [of n])
qed

lemma resume_cursor_inverse:
  assumes "0 \<le> n" and "n \<le> max_sequence"
  shows "parse_resume_cursor (Some (decimal (nat n))) = Inr (Numeric n)"
proof -
  have "nat n < 10 ^ Suc 18" using assms by (simp add: max_sequence_def nat_less_iff)
  from length_decimal [OF this] have "length (decimal (nat n)) \<le> 19" by simp
  with assms canonical_decimal [of "nat n"] show ?thesis by (simp add: parse_resume_cursor_def)
qed

text \<open>
  Numeric resume cursors round trip: \<open>parse_resume_cursor\<close> reads a \<open>Last-Event-ID\<close> as the
  sequence \<open>n\<close> exactly when it is the canonical decimal of \<open>n\<close> and \<open>n\<close> is within \<open>0 .. 2^63 - 1\<close>:
  no sign, no leading zero, no clamping, and no longer numeral slips through.
\<close>

theorem resume_cursor_roundtrip:
  "parse_resume_cursor (Some s) = Inr (Numeric n) \<longleftrightarrow>
     0 \<le> n \<and> n \<le> max_sequence \<and> s = decimal (nat n)"
proof
  assume "parse_resume_cursor (Some s) = Inr (Numeric n)"
  then have c: "canonical_numeric s" and n: "n = decimal_value s" "n \<le> max_sequence"
    by (auto simp: parse_resume_cursor_def split: if_splits)
  with canonical_nonneg [OF c] canonical_iff_decimal [of s]
  show "0 \<le> n \<and> n \<le> max_sequence \<and> s = decimal (nat n)" by simp
next
  assume "0 \<le> n \<and> n \<le> max_sequence \<and> s = decimal (nat n)"
  then show "parse_resume_cursor (Some s) = Inr (Numeric n)" using resume_cursor_inverse by blast
qed

end
