(* ===== verification/Delivery.thy ===== *)
theory Delivery
  imports ResumeCursor
begin

text \<open>
  The event log end to end: which logs the validation accepts, what the store keeps under any
  sequence of appends and emissions, where a resumed replay starts, and that a consumer which is
  sent events more than once applies each exactly once.
\<close>

text \<open>A log the witnesses evaluate.\<close>

definition sample_event :: "nat \<Rightarrow> event_type \<Rightarrow> json_object \<Rightarrow> runtime_event" where
  "sample_event n et payload =
     \<lparr> ev_event_id = event_uuid sample_supply n, ev_run_id = ''R'', ev_task_id = None, ev_type = et,
       ev_timestamp = sp_now sample_supply n, ev_sequence = int n + 1, ev_payload = payload \<rparr>"

definition sample_log :: "runtime_event list" where
  "sample_log = [sample_event 0 RUN_STARTED [],
     sample_event 1 RUN_FAILED [(''status'', JStr ''FAILED'')],
     sample_event 2 CLOSURE_RECOVERY_STARTED [(''failed_event_id'', JStr (event_uuid sample_supply 1))],
     sample_event 3 RUN_COMPLETED []]"

lemmas sample_defs = sample_log_def sample_event_def sample_supply_def event_uuid_def
  numeral_eq_Suc

section \<open>What validation accepts\<close>

text \<open>The contract of \<open>validate_event_log\<close> in its documentation, conjunct by conjunct.\<close>

definition log_contract :: "string \<Rightarrow> runtime_event list \<Rightarrow> bool" where
  "log_contract run_id evs \<longleftrightarrow>
     list_all (\<lambda>ev. ev_run_id ev = run_id \<and> ev_event_id ev \<noteq> []) evs
     \<and> map ev_sequence evs = map int [1..<Suc (length evs)]
     \<and> distinct (map ev_event_id evs)
     \<and> list_all (\<lambda>i. terminal_discipline (take i evs) (evs ! i)) [0..<length evs]"

lemma log_contract_Nil [simp]: "log_contract run_id []"
  by (simp add: log_contract_def)

lemma log_contract_snoc [simp]:
  "log_contract run_id (evs @ [ev]) \<longleftrightarrow> log_contract run_id evs \<and> fits run_id evs ev"
  by (auto simp: log_contract_def fits_def log_ids_def nth_append list_all_iff)

lemma log_contract_iff: "log_contract run_id evs \<longleftrightarrow> log_ok run_id evs"
  by (induction evs rule: rev_induct) simp_all

text \<open>
  C14. \<open>validate_event_log\<close> accepts a log exactly when every event is of the Run with an identifier,
  the sequence numbers are 1, 2, 3 and so on, no identifier repeats, and the terminal discipline
  holds at every position (nothing follows a terminal event, but for one closure recovery that
  names the \<open>FAILED\<close> event it reopens); it returns the terminal event the log ends with, if any.
\<close>

theorem event_log_validation:
  "validate_event_log fp run_id evs = Inr t \<longleftrightarrow>
     log_contract run_id evs \<and> t = (if log_terminal evs then Some (last evs) else None)"
  by (simp add: validate_event_log_iff log_contract_iff terminal_of_def)

definition count_type :: "(event_type \<Rightarrow> bool) \<Rightarrow> runtime_event list \<Rightarrow> nat" where
  "count_type P evs = length (filter (\<lambda>ev. P (ev_type ev)) evs)"

lemma count_type_snoc [simp]:
  "count_type P (evs @ [ev]) = count_type P evs + (if P (ev_type ev) then 1 else 0)"
  by (simp add: count_type_def)

lemma log_ok_counts:
  "log_ok run_id evs \<Longrightarrow>
     count_type (\<lambda>ty. ty = CLOSURE_RECOVERY_STARTED) evs = (if log_recovered evs then 1 else 0)
     \<and> count_type (\<lambda>ty. ty \<in> set terminal_types) evs
         = count_type (\<lambda>ty. ty = CLOSURE_RECOVERY_STARTED) evs + (if log_terminal evs then 1 else 0)"
proof (induction evs rule: rev_induct)
  case Nil
  then show ?case by (simp add: count_type_def log_recovered_def)
next
  case (snoc ev evs)
  then have "terminal_discipline evs ev" by (simp add: fits_def)
  with snoc show ?case
    by (cases "log_terminal evs") (auto simp: terminal_discipline_def)
qed

text \<open>
  A completed Run is final: in a validated log nothing follows \<open>RUN_COMPLETED\<close>, at most one
  closure recovery occurs, and hence at most two terminal events.
\<close>

theorem terminal_events_bounded:
  assumes "validate_event_log fp run_id evs = Inr t"
  shows "count_type (\<lambda>ty. ty = CLOSURE_RECOVERY_STARTED) evs \<le> 1
    \<and> count_type (\<lambda>ty. ty \<in> set terminal_types) evs \<le> 2
    \<and> RUN_COMPLETED \<notin> ev_type ` set (butlast evs)"
proof (intro conjI)
  have ok: "log_ok run_id evs" using assms by (simp add: validate_event_log_iff)
  from log_ok_counts [OF ok] show "count_type (\<lambda>ty. ty = CLOSURE_RECOVERY_STARTED) evs \<le> 1"
    "count_type (\<lambda>ty. ty \<in> set terminal_types) evs \<le> 2" by (auto split: if_splits)
  show "RUN_COMPLETED \<notin> ev_type ` set (butlast evs)"
  proof
    assume "RUN_COMPLETED \<in> ev_type ` set (butlast evs)"
    then obtain i where i: "i < length (butlast evs)" "ev_type (evs ! i) = RUN_COMPLETED"
      by (auto simp: in_set_conv_nth nth_butlast)
    then have "Suc i < length evs" by simp
    with log_ok_terminal_positions [OF ok, of i] i(2) show False by (simp add: terminal_types_def)
  qed
qed

theorem terminal_events_bounded_witness:
  "count_type (\<lambda>ty. ty \<in> set terminal_types) sample_log = 2
     \<and> RUN_COMPLETED \<notin> ev_type ` set (butlast sample_log)"
proof -
  have "validate_event_log ev_event_id ''R'' sample_log = Inr (Some (last sample_log))"
    by code_simp
  from terminal_events_bounded [OF this] show ?thesis
    by (simp add: count_type_def sample_defs terminal_types_def)
qed

section \<open>The store under any sequence of operations\<close>

inductive store_step ::
    "(runtime_event \<Rightarrow> string) \<Rightarrow> fresh_supply \<Rightarrow> event_store \<Rightarrow> event_store \<Rightarrow> bool"
  for fp fs where
  emitted: "emit fp fs r et t p ts st = (res, st') \<Longrightarrow> store_step fp fs st st'"
| appended: "append_event fp ev st = (res, st') \<Longrightarrow>
    (\<And>n. es_next st \<le> n \<Longrightarrow> ev_event_id ev \<noteq> event_uuid fs n) \<Longrightarrow> store_step fp fs st st'"

inductive_cases store_stepE: "store_step fp fs st st'"

lemma append_event_cases:
  assumes "append_event fp ev st = (res, st')"
  shows "(res = Inr () \<and> log_ok (ev_run_id ev) (es_events st (ev_run_id ev) @ [ev])
      \<and> st' = st\<lparr> es_events := (es_events st)(ev_run_id ev := es_events st (ev_run_id ev) @ [ev]) \<rparr>)
    \<or> (\<exists>e. res = Inl e \<and> st' = st)"
  using assms log_ok_snoc [of _ "[]" ev]
  by (auto simp: append_event_def Let_def validate_event_log_iff split: if_splits sum.splits)

lemma store_step_inv:
  assumes "store_step fp fs st st'" and inv: "store_inv fs st"
  shows "store_inv fs st'
    \<and> (es_events st' = es_events st
        \<or> (\<exists>r ev. es_events st' = (es_events st)(r := es_events st r @ [ev])))"
  using assms(1)
proof cases
  case (emitted r et t p ts res)
  then show ?thesis
    using emit_InrD [OF inv] emit_InlD [OF inv] by (cases res) blast+
next
  case (appended ev res)
  let ?r = "ev_run_id ev"
  from append_event_cases [OF appended(1)] show ?thesis
  proof (elim disjE exE conjE)
    assume ok: "log_ok ?r (es_events st ?r @ [ev])"
      and st': "st' = st\<lparr> es_events := (es_events st)(?r := es_events st ?r @ [ev]) \<rparr>"
    have "event_uuid fs n \<noteq> ev_event_id ev" if "es_next st \<le> n" for n
      using appended(2) [OF that] by simp
    with inv ok st' have "store_inv fs st'" by (auto simp: store_inv_def)
    with st' show ?thesis by fastforce
  qed (simp add: inv)
qed

lemma store_reachable_inv:
  "(store_step fp fs)\<^sup>*\<^sup>* st st' \<Longrightarrow> store_inv fs st \<Longrightarrow>
     store_inv fs st' \<and> prefix (es_events st r) (es_events st' r)"
proof (induction rule: rtranclp_induct)
  case base
  then show ?case by simp
next
  case (step st1 st2)
  from step.IH step.prems have i: "store_inv fs st1" "prefix (es_events st r) (es_events st1 r)"
    by simp_all
  from store_step_inv [OF step.hyps(2) i(1)] i(2) show ?case
    by (auto simp: fun_upd_def intro: prefix_order.trans)
qed

lemma filter_sequence_drop:
  "log_ok run_id evs \<Longrightarrow> 0 \<le> n \<Longrightarrow> filter (\<lambda>ev. n < ev_sequence ev) evs = drop (nat n) evs"
proof (induction evs rule: rev_induct)
  case Nil
  then show ?case by simp
next
  case (snoc ev evs)
  then show ?case by (auto simp: fits_def)
qed

lemma replay_log_ok:
  "log_ok r (es_events st r) \<Longrightarrow> 0 \<le> n \<Longrightarrow> n \<le> max_sequence \<Longrightarrow>
     replay fp st r (JInt n) = Inr (drop (nat n) (es_events st r))"
  by (simp add: replay_def validate_after_sequence_def filter_sequence_drop)

text \<open>
  C20. On every store reached from the empty one by emissions and appends, in any order and for any
  Runs, successful or refused: the log of each Run only ever grows at its end, and \<open>replay\<close> with a
  sequence in range never raises and returns exactly the events after that position.
\<close>

theorem reachable_store_replays:
  assumes "inj (sp_uuid fs)" and "(store_step fp fs)\<^sup>*\<^sup>* empty_store st"
    and "(store_step fp fs)\<^sup>*\<^sup>* st st'" and "0 \<le> n" and "n \<le> max_sequence"
  shows "\<exists>newer. es_events st' r = es_events st r @ newer
    \<and> replay fp st' r (JInt n) = Inr (drop (nat n) (es_events st r @ newer))"
proof -
  from store_reachable_inv [OF assms(2) store_inv_empty [OF assms(1)]] have "store_inv fs st" by blast
  from store_reachable_inv [OF assms(3) this] have "store_inv fs st'"
    and "prefix (es_events st r) (es_events st' r)" by blast+
  then obtain newer where "es_events st' r = es_events st r @ newer" by (auto simp: prefix_def)
  with \<open>store_inv fs st'\<close> replay_log_ok [of r st' n fp] assms(4,5) show ?thesis
    by (metis store_inv_def)
qed

definition sample_store :: event_store where
  "sample_store = snd (emit ev_event_id sample_supply ''R'' RUN_STARTED None [] None empty_store)"

definition sample_store_failed :: event_store where
  "sample_store_failed = snd (emit ev_event_id sample_supply ''R'' RUN_FAILED None
     [(''status'', JStr ''FAILED'')] None sample_store)"

lemma sample_step1: "store_step ev_event_id sample_supply empty_store sample_store"
  unfolding sample_store_def by (rule emitted [OF surjective_pairing])

lemma sample_step2: "store_step ev_event_id sample_supply sample_store sample_store_failed"
  unfolding sample_store_failed_def by (rule emitted [OF surjective_pairing])

theorem reachable_store_replays_witness:
  "\<exists>newer. es_events sample_store_failed ''R'' = es_events sample_store ''R'' @ newer
     \<and> replay ev_event_id sample_store_failed ''R'' (JInt 1) = Inr (drop 1 (es_events sample_store ''R'' @ newer))"
  using reachable_store_replays [OF inj_sample_supply r_into_rtranclp r_into_rtranclp,
      OF sample_step1 sample_step2, of 1 "''R''"] by (simp add: max_sequence_def)

section \<open>Resuming\<close>

definition opaque_cursor :: "string \<Rightarrow> bool" where
  "opaque_cursor s \<longleftrightarrow> parse_resume_cursor (Some s) = Inr (Opaque s)"

lemma find_distinct_id:
  "distinct (map ev_event_id evs) \<Longrightarrow> i < length evs \<Longrightarrow>
     find (\<lambda>ev. ev_event_id ev = ev_event_id (evs ! i)) evs = Some (evs ! i)"
proof (induction evs arbitrary: i)
  case Nil
  then show ?case by simp
next
  case (Cons e evs)
  show ?case
  proof (cases i)
    case 0
    then show ?thesis by simp
  next
    case (Suc j)
    with Cons.prems have "ev_event_id e \<noteq> ev_event_id (evs ! j)" by auto
    with Suc Cons show ?thesis by simp
  qed
qed

lemma resume_sequence_cases:
  assumes ok: "log_ok r (es_events st r)" and k: "k \<le> length (es_events st r)"
    and small: "int k \<le> max_sequence"
    and cur: "cursor = decimal k
      \<or> (0 < k \<and> cursor = ev_event_id (es_events st r ! (k - 1)) \<and> opaque_cursor cursor)"
  shows "resolve_resume_sequence fp st r (Some cursor) = Inr (int k)"
proof -
  have tail: "(if es_events st r = [] then 0 else ev_sequence (last (es_events st r)))
      = int (length (es_events st r))"
    using log_ok_last_sequence [OF ok] by auto
  from cur show ?thesis
  proof (elim disjE conjE)
    assume "cursor = decimal k"
    then have "parse_resume_cursor (Some cursor) = Inr (Numeric (int k))"
      using resume_cursor_inverse [of "int k"] small by simp
    with ok k tail show ?thesis
      by (simp add: resolve_resume_sequence_def preflight_cursor_def build_cursor_preflight_def Let_def)
  next
    assume c: "0 < k" "cursor = ev_event_id (es_events st r ! (k - 1))" "opaque_cursor cursor"
    have "find (\<lambda>ev. ev_event_id ev = cursor) (es_events st r) = Some (es_events st r ! (k - 1))"
      using find_distinct_id [OF log_ok_distinct [OF ok], of "k - 1"] c k by simp
    moreover have "ev_sequence (es_events st r ! (k - 1)) = int k"
      using log_ok_nth_sequence [OF ok, of "k - 1"] c(1) k by simp
    ultimately show ?thesis
      using ok tail c(3)
      by (simp add: resolve_resume_sequence_def preflight_cursor_def build_cursor_preflight_def
          Let_def opaque_cursor_def)
  qed
qed

text \<open>
  A client that saw the first \<open>k\<close> events of a valid log resumes right after them: with the
  decimal of \<open>k\<close> as its \<open>Last-Event-ID\<close>, and also with the identifier of the last event seen when
  that is an opaque cursor, the preflight yields the sequence \<open>k\<close>, and replay from there returns the
  remaining events and no other.
\<close>

theorem resume_is_exact:
  assumes "validate_event_log fp r (es_events st r) = Inr t"
    and "k \<le> length (es_events st r)" and "int k \<le> max_sequence"
    and "cursor = decimal k
      \<or> (0 < k \<and> cursor = ev_event_id (es_events st r ! (k - 1)) \<and> opaque_cursor cursor)"
  shows "rbind (resolve_resume_sequence fp st r (Some cursor)) (\<lambda>n. replay fp st r (JInt n))
    = Inr (drop k (es_events st r))"
proof -
  have "log_ok r (es_events st r)" using assms(1) by (simp add: validate_event_log_iff)
  with resume_sequence_cases [OF this assms(2-4)] replay_log_ok [OF this, of "int k"] assms(3)
  show ?thesis by simp
qed

theorem resume_is_exact_witness:
  "(let st = empty_store\<lparr> es_events := (\<lambda>_. sample_log) \<rparr> in
      rbind (resolve_resume_sequence ev_event_id st ''R'' (Some ''EVT-u''))
        (\<lambda>n. replay ev_event_id st ''R'' (JInt n)) = Inr (drop 2 sample_log))"
proof -
  have "validate_event_log ev_event_id ''R'' sample_log = Inr (Some (last sample_log))"
    by code_simp
  moreover have "opaque_cursor ''EVT-u''"
    by (simp add: opaque_cursor_def parse_resume_cursor_def canonical_numeric_def is_digit_def
        signed_or_noncanonical_numeric_def opaque_event_cursor_def is_letter_def)
  ultimately show ?thesis
    using resume_is_exact [of ev_event_id "''R''" "empty_store\<lparr> es_events := (\<lambda>_. sample_log) \<rparr>"
        "Some (last sample_log)" 2 "''EVT-u''"]
    by (simp add: max_sequence_def sample_defs)
qed

section \<open>At-least-once delivery, exactly-once application\<close>

text \<open>
  What a transport may deliver after the first \<open>n\<close> events of the log: again any of those \<open>n\<close>, or the
  next one.
\<close>

fun redelivers :: "runtime_event list \<Rightarrow> nat \<Rightarrow> runtime_event list \<Rightarrow> nat option" where
  "redelivers evs n [] = Some n"
| "redelivers evs n (d # ds) =
     (if d \<in> set (take n evs) then redelivers evs n ds
      else if n < length evs \<and> d = evs ! n then redelivers evs (Suc n) ds
      else None)"

lemma accept_known:
  assumes rep: "cursor_rep fp run_id evs c" and ok: "log_ok run_id evs" and d: "d \<in> set evs"
  shows "accept fp c d = Inr (DUPLICATE_IGNORED, c)"
proof -
  from d obtain i where i: "i < length evs" "d = evs ! i" by (auto simp: in_set_conv_nth)
  with log_ok_nth_sequence [OF ok i(1)] have s: "ev_sequence d = int i + 1" by simp
  have "cu_by_sequence c (ev_sequence d) = Some (ev_event_id d, fp d)"
    using rep i s by (simp add: cursor_rep_def)
  moreover have "ev_run_id d = cu_run_id c" "ev_event_id d \<noteq> []"
    using rep log_ok_run_id [OF ok d] log_ok_event_id [OF ok d] by (simp_all add: cursor_rep_def)
  ultimately show ?thesis by (simp add: accept_def)
qed

lemma consume_redelivers:
  assumes "redelivers evs n ds = Some m" and "log_ok run_id evs" and "n \<le> length evs"
    and "cursor_rep fp run_id (take n evs) c"
  shows "\<exists>c'. consume fp c ds = Inr (c', take (m - n) (drop n evs)) \<and> n \<le> m \<and> m \<le> length evs
    \<and> cursor_rep fp run_id (take m evs) c'"
  using assms
proof (induction evs n ds arbitrary: c rule: redelivers.induct)
  case (1 evs n)
  then show ?case by simp
next
  case (2 evs n d ds)
  have ok: "log_ok run_id (take n evs)"
    using "2.prems"(2) log_ok_prefix [of run_id "take n evs" "drop n evs"] by simp
  show ?case
  proof (cases "d \<in> set (take n evs)")
    case True
    with 2 accept_known [OF "2.prems"(4) ok True] show ?thesis by fastforce
  next
    case False
    with "2.prems"(1) have n: "n < length evs" "d = evs ! n" and r: "redelivers evs (Suc n) ds = Some m"
      by (auto split: if_splits)
    have fit: "fits run_id (take n evs) d" using "2.prems"(2) n by (simp add: log_ok_def)
    then have acc: "accept fp c d = Inr (APPLIED, cursor_commit fp c d)"
      using accept_applied_iff [OF "2.prems"(4)] by blast
    have "cursor_rep fp run_id (take (Suc n) evs) (cursor_commit fp c d)"
      using cursor_rep_commit [OF "2.prems"(4) fit] n by (simp add: take_Suc_conv_app_nth)
    with "2.IH"(2) [OF False conjI, OF n r "2.prems"(2)] n obtain c' where
      c': "consume fp (cursor_commit fp c d) ds = Inr (c', take (m - Suc n) (drop (Suc n) evs))"
        "Suc n \<le> m" "m \<le> length evs" "cursor_rep fp run_id (take m evs) c'" by fastforce
    have "d # take (m - Suc n) (drop (Suc n) evs) = take (m - n) (drop n evs)"
      using n c'(2) by (simp add: Cons_nth_drop_Suc [symmetric] Suc_diff_Suc [symmetric] take_Cons')
    with acc c' show ?thesis by auto
  qed
qed

text \<open>
  C29. Exactly-once application: a consumer whose fresh cursor is fed a valid log, where any event may
  be delivered again at any later point, never raises, applies exactly the delivered prefix of the
  log, each event once and in order, and drops every redelivery.
\<close>

theorem consume_exactly_once:
  assumes "validate_event_log fp run_id evs = Inr t" and "redelivers evs 0 ds = Some m"
  shows "\<exists>c. consume fp (new_cursor run_id) ds = Inr (c, take m evs)
    \<and> cu_committed_sequence c = int m
    \<and> list_all (\<lambda>d. accept fp c d = Inr (DUPLICATE_IGNORED, c)) (take m evs)"
proof -
  have ok: "log_ok run_id evs" using assms(1) by (simp add: validate_event_log_iff)
  from consume_redelivers [OF assms(2) ok, of fp "new_cursor run_id"] obtain c where
    c: "consume fp (new_cursor run_id) ds = Inr (c, take m evs)" "m \<le> length evs"
      "cursor_rep fp run_id (take m evs) c"
    by (auto simp: cursor_rep_new)
  have "log_ok run_id (take m evs)"
    using ok log_ok_prefix [of run_id "take m evs" "drop m evs"] by simp
  with c accept_known [OF c(3)] show ?thesis
    by (auto simp: list_all_iff cursor_rep_def)
qed

theorem consume_exactly_once_witness:
  "\<exists>c. consume ev_event_id (new_cursor ''R'')
      [sample_log ! 0, sample_log ! 1, sample_log ! 0, sample_log ! 1, sample_log ! 2]
    = Inr (c, take 3 sample_log)"
proof -
  have "validate_event_log ev_event_id ''R'' sample_log = Inr (Some (last sample_log))"
    and "redelivers sample_log 0
      [sample_log ! 0, sample_log ! 1, sample_log ! 0, sample_log ! 1, sample_log ! 2] = Some 3"
    by code_simp+
  from consume_exactly_once [OF this] show ?thesis by blast
qed

end
