(* ===== verification/RuntimeStates.thy ===== *)
theory RuntimeStates
  imports Lifecycle
begin

text \<open>
  \<open>src/runtime/state.py\<close>: the mutable execution state with the planned graph (an audit copy) and the
  actual graph (what the runtime mutates), and \<open>src/runtime/output_dependencies.py\<close>, which decides
  whether a task may run. Deep copies are the values themselves; the clock is the argument \<open>now\<close>.
  A dictionary is an association list in insertion order.
\<close>

section \<open>The runtime state\<close>

record runtime_state =
  rs_run_id :: string
  rs_planned_graph :: planned_task_graph
  rs_actual_graph :: actual_runtime_graph
  rs_run_status :: run_status
  rs_completed_output_refs :: "(string \<times> string list) list"
  rs_evidence_refs :: "string list"
  rs_workspace_refs :: "string list"
  rs_review_state :: json_object
  rs_proof_state :: json_object
  rs_cost :: pyfloat

abbreviation rs_tasks :: "runtime_state \<Rightarrow> task list" where
  "rs_tasks st \<equiv> g_tasks (rs_actual_graph st)"

definition set_tasks :: "(task list \<Rightarrow> task list) \<Rightarrow> runtime_state \<Rightarrow> runtime_state" where
  "set_tasks f st = st\<lparr> rs_actual_graph := (rs_actual_graph st)\<lparr> g_tasks := f (rs_tasks st) \<rparr> \<rparr>"

text \<open>\<open>{task.task_id: set(task.dependencies) for task in tasks}\<close>: a repeated identifier keeps its last value.\<close>

definition task_deps :: "task list \<Rightarrow> string \<Rightarrow> string list" where
  "task_deps ts k = (case map_of (rev (map (\<lambda>t. (t_task_id t, t_dependencies t)) ts)) k of
     None \<Rightarrow> [] | Some ds \<Rightarrow> ds)"

definition peel_tasks :: "task list \<Rightarrow> bool" where
  "peel_tasks ts = peel (task_deps ts) (remdups (task_ids ts))"

definition create_state ::
    "int \<Rightarrow> string \<Rightarrow> planned_task_graph \<Rightarrow> string option \<Rightarrow> exn + runtime_state" where
  "create_state now run_id planned actual_graph_id =
     rbind (guard (g_run_id planned = run_id) (RuntimeStateError Planned_graph_other_run)) (\<lambda>_.
     rbind (guard (list_all (\<lambda>t. t_run_id t = run_id) (g_tasks planned))
       (RuntimeStateError Planned_tasks_other_run)) (\<lambda>_.
     rbind (guard (peel_tasks (g_tasks planned)) (RuntimeStateError Planned_graph_cycle)) (\<lambda>_.
     let actual = \<lparr> g_created_at = now,
                   g_graph_id = (case actual_graph_id of
                       None \<Rightarrow> g_graph_id planned @ ''-actual''
                     | Some i \<Rightarrow> if i = [] then g_graph_id planned @ ''-actual'' else i),
                   g_run_id = run_id, g_version = 1, g_tasks = g_tasks planned,
                   g_mutation_history = [] \<rparr>
     in rbind (guard (dependencies_reference_known_tasks actual) (ValidationError ''ActualRuntimeGraph'')) (\<lambda>_.
     Inr \<lparr> rs_run_id = run_id, rs_planned_graph = planned, rs_actual_graph = actual,
           rs_run_status = RS_PLANNING, rs_completed_output_refs = [], rs_evidence_refs = [],
           rs_workspace_refs = [], rs_review_state = [], rs_proof_state = [],
           rs_cost = Finite 0 \<rparr>))))"

definition state_task :: "runtime_state \<Rightarrow> string \<Rightarrow> exn + task" where
  "state_task st k = (case find_task k (rs_tasks st) of
     None \<Rightarrow> Inl (KeyError ''unknown runtime task'')
   | Some t \<Rightarrow> Inr t)"

text \<open>
  The items a dictionary is built from, in order. A repeated key keeps its last value: \<open>dict_get\<close>.
\<close>

definition dict_get :: "('k \<times> 'v) list \<Rightarrow> 'k \<Rightarrow> 'v option" where
  "dict_get d = map_of (rev d)"

definition dict_eq :: "('k \<times> 'v) list \<Rightarrow> ('k \<times> 'v) list \<Rightarrow> bool" where
  "dict_eq a b \<longleftrightarrow> list_all (\<lambda>k. dict_get a k = dict_get b k) (map fst a @ map fst b)"

lemma dict_eq_iff: "dict_eq a b \<longleftrightarrow> dict_get a = dict_get b"
proof
  assume eq: "dict_eq a b"
  have "dict_get a k = dict_get b k" for k
  proof (cases "k \<in> set (map fst a @ map fst b)")
    case True
    with eq show ?thesis unfolding dict_eq_def list_all_iff by blast
  next
    case False
    then have "map_of (rev a) k = None" "map_of (rev b) k = None"
      by (simp_all add: map_of_eq_None_iff)
    then show ?thesis by (simp add: dict_get_def)
  qed
  then show "dict_get a = dict_get b" ..
qed (simp add: dict_eq_def list_all_iff)

definition task_states :: "runtime_state \<Rightarrow> (string \<times> task_status) list" where
  "task_states st = map (\<lambda>t. (t_task_id t, t_status t)) (rs_tasks st)"

section \<open>Well-formed graphs\<close>

definition graph_wf :: "task list \<Rightarrow> bool" where
  "graph_wf ts \<longleftrightarrow> distinct (task_ids ts)
     \<and> list_all (\<lambda>t. set (t_dependencies t) \<subseteq> set (task_ids ts)) ts
     \<and> acyclic (dep_rel (task_deps ts) (set (task_ids ts)))"

lemma peel_tasks_iff: "peel_tasks ts \<longleftrightarrow> acyclic (dep_rel (task_deps ts) (set (task_ids ts)))"
  by (simp add: peel_tasks_def peel_iff_acyclic)

lemma known_tasks_iff: "dependencies_reference_known_tasks g \<longleftrightarrow>
    distinct (task_ids (g_tasks g))
    \<and> list_all (\<lambda>t. set (t_dependencies t) \<subseteq> set (task_ids (g_tasks g))) (g_tasks g)"
  by (auto simp: dependencies_reference_known_tasks_def list_all_iff)

lemma map_of_rev_distinct:
  assumes "distinct (map fst xs)"
  shows "map_of (rev xs) = map_of xs"
  by (rule map_of_inject_set [THEN iffD2]) (use assms in \<open>simp_all add: rev_map [symmetric]\<close>)

lemma task_deps_distinct:
  assumes "distinct (task_ids ts)" and "t \<in> set ts"
  shows "task_deps ts (t_task_id t) = t_dependencies t"
proof -
  have d: "distinct (map fst (map (\<lambda>t. (t_task_id t, t_dependencies t)) ts))"
    using assms(1) by (simp add: task_ids_def comp_def)
  have "map_of (map (\<lambda>t. (t_task_id t, t_dependencies t)) ts) (t_task_id t) = Some (t_dependencies t)"
    by (rule map_of_is_SomeI [OF d]) (use assms(2) in auto)
  with map_of_rev_distinct [OF d] show ?thesis by (simp add: task_deps_def)
qed

lemma create_state_Inr_iff:
  "create_state now run_id g gid = Inr st \<longleftrightarrow>
     g_run_id g = run_id \<and> list_all (\<lambda>t. t_run_id t = run_id) (g_tasks g) \<and> graph_wf (g_tasks g)
     \<and> st = \<lparr> rs_run_id = run_id, rs_planned_graph = g,
         rs_actual_graph = \<lparr> g_created_at = now,
           g_graph_id = (case gid of None \<Rightarrow> g_graph_id g @ ''-actual''
             | Some i \<Rightarrow> if i = [] then g_graph_id g @ ''-actual'' else i),
           g_run_id = run_id, g_version = 1, g_tasks = g_tasks g, g_mutation_history = [] \<rparr>,
         rs_run_status = RS_PLANNING, rs_completed_output_refs = [], rs_evidence_refs = [],
         rs_workspace_refs = [], rs_review_state = [], rs_proof_state = [], rs_cost = Finite 0 \<rparr>"
  by (auto simp: create_state_def Let_def guard_bind_Inr_iff peel_tasks_iff known_tasks_iff graph_wf_def)

text \<open>
  What keeps a run from deadlocking: while a set of tasks is left, one of them has no dependency in
  the set.
\<close>

lemma graph_wf_has_source:
  assumes wf: "graph_wf ts" and ne: "{t \<in> set ts. P t} \<noteq> {}"
  obtains t where "t \<in> set ts" and "P t"
    and "\<And>u. u \<in> set ts \<Longrightarrow> P u \<Longrightarrow> t_task_id u \<notin> set (t_dependencies t)"
proof -
  define A where "A = t_task_id ` {t \<in> set ts. P t}"
  have d: "distinct (task_ids ts)" using wf by (simp add: graph_wf_def)
  have "A \<subseteq> set (task_ids ts)" by (auto simp: A_def task_ids_def)
  then have "acyclic (dep_rel (task_deps ts) A)"
    using wf acyclic_subset [OF _ dep_rel_mono] unfolding graph_wf_def by blast
  moreover have "finite A" "A \<noteq> {}" using ne by (auto simp: A_def)
  ultimately obtain x where x: "x \<in> A" "set (task_deps ts x) \<inter> A = {}"
    using acyclic_has_source by blast
  from x(1) obtain t where t: "t \<in> set ts" "P t" "x = t_task_id t" by (auto simp: A_def)
  have "t_task_id u \<notin> set (t_dependencies t)" if "u \<in> set ts" "P u" for u
    using that x(2) t task_deps_distinct [OF d t(1)] by (auto simp: A_def)
  with t show ?thesis using that by blast
qed

section \<open>Output dependencies\<close>

definition settled_statuses :: "task_status list" where
  "settled_statuses =
     [TS_COMPLETED, TS_FAILED, TS_CAPABILITY_BUILD_FAILED, TS_CANCELLED, TS_BLOCKED]"

definition settled :: "task \<Rightarrow> bool" where
  "settled t \<longleftrightarrow> t_status t \<in> set settled_statuses"

definition settled_for_review :: "runtime_state \<Rightarrow> bool" where
  "settled_for_review st \<longleftrightarrow> list_all settled (rs_tasks st)
     \<and> list_ex (\<lambda>t. t_output_requirements t \<noteq> None) (rs_tasks st)"

datatype resolution = RES_READY | RES_WAITING | RES_BLOCKED

definition output_key :: "string \<Rightarrow> string \<Rightarrow> string" where
  "output_key task_id output_id = task_id @ ''/'' @ output_id"

definition completed_output_keys :: "task \<Rightarrow> string list" where
  "completed_output_keys t = map (\<lambda>x. output_key (t_task_id t) (oo_output_id x))
     (filter (\<lambda>x. oo_status x = OS_COMPLETED \<and> oo_refs x \<noteq> []) (t_output_outcomes t))"

definition dependency_graph :: "runtime_state \<Rightarrow> (string \<times> string list) list" where
  "dependency_graph st = map (\<lambda>t. (t_task_id t, t_dependencies t)) (rs_tasks st)"

definition ancestors_of :: "runtime_state \<Rightarrow> task \<Rightarrow> exn + string list" where
  "ancestors_of st t =
     (case close_deps (dependency_graph st) (remdups (t_dependencies t)) (remdups (t_dependencies t)) of
        None \<Rightarrow> Inl (KeyError ''unknown runtime task'')
      | Some ks \<Rightarrow> Inr ks)"

definition resolve_outputs :: "runtime_state \<Rightarrow> task \<Rightarrow> exn + resolution \<times> string list" where
  "resolve_outputs st t =
     rbind (rmap (state_task st) (t_dependencies t)) (\<lambda>predecessors.
     case t_output_requirements t of
       None \<Rightarrow>
         (let missing = map t_task_id (filter (\<lambda>p. t_status p \<noteq> TS_COMPLETED) predecessors) in
          Inr (if missing = [] then RES_READY
               else if list_ex (\<lambda>p. settled p \<and> t_status p \<noteq> TS_COMPLETED) predecessors
               then RES_BLOCKED else RES_WAITING, missing))
     | Some req \<Rightarrow>
         if list_ex (\<lambda>p. \<not> settled p) predecessors then Inr (RES_WAITING, [])
         else rbind (ancestors_of st t) (\<lambda>ancestors.
           rbind (rmap (state_task st) ancestors) (\<lambda>tasks.
             let available = concat (map completed_output_keys tasks);
                 result = evidence_sufficiency req (set available)
             in Inr (if sf_missing_required result \<noteq> [] then RES_BLOCKED else RES_READY,
                     sf_missing_required result))))"

section \<open>What an output contract looks at\<close>

lemma state_task_distinct:
  "graph_wf (rs_tasks st) \<Longrightarrow> t \<in> set (rs_tasks st) \<Longrightarrow> state_task st (t_task_id t) = Inr t"
  by (simp add: state_task_def find_task_distinct graph_wf_def)

lemma state_task_Inr_iff: "state_task st k = Inr t \<longleftrightarrow> find_task k (rs_tasks st) = Some t"
  by (auto simp: state_task_def split: option.splits)

lemma find_task_known: "k \<in> set (task_ids ts) \<Longrightarrow> \<exists>t. find_task k ts = Some t"
  using find_task_None_iff [of k ts] by auto

lemma rmap_state_task:
  assumes "set ks \<subseteq> set (task_ids (rs_tasks st))"
  shows "rmap (state_task st) ks = Inr (map (\<lambda>k. the (find_task k (rs_tasks st))) ks)"
  using assms
proof (induction ks)
  case Nil
  then show ?case by simp
next
  case (Cons k ks)
  then show ?case using find_task_known [of k "rs_tasks st"] by (auto simp: state_task_def)
qed

lemma map_of_dependency_graph:
  "map_of (dependency_graph st) k = map_option t_dependencies (find_task k (rs_tasks st))"
proof -
  have "map_of (map (\<lambda>t. (t_task_id t, t_dependencies t)) ts) k
      = map_option t_dependencies (find_task k ts)" for ts
    by (induction ts) auto
  then show ?thesis by (simp add: dependency_graph_def)
qed

lemma dom_dependency_graph: "dom (map_of (dependency_graph st)) = set (task_ids (rs_tasks st))"
  by (simp add: dependency_graph_def dom_map_of_conv_image_fst image_image task_ids_def)

lemma graph_wf_closed:
  assumes "graph_wf (rs_tasks st)"
  shows "succ_universe (dependency_graph st) \<subseteq> dom (map_of (dependency_graph st))"
  using assms unfolding dom_dependency_graph graph_wf_def list_all_iff
  by (auto simp: succ_universe_def dependency_graph_def)

text \<open>Which tasks a task waits for, through any number of dependencies.\<close>

definition upstream :: "runtime_state \<Rightarrow> task \<Rightarrow> string set" where
  "upstream st t = (succ_rel (dependency_graph st))\<^sup>+ `` {t_task_id t}"

lemma upstream_rtrancl:
  assumes "graph_wf (rs_tasks st)" and "t \<in> set (rs_tasks st)"
  shows "(succ_rel (dependency_graph st))\<^sup>* `` set (t_dependencies t) = upstream st t"
proof -
  have "find_task (t_task_id t) (rs_tasks st) = Some t"
    using assms by (simp add: graph_wf_def find_task_distinct)
  then have "succ_rel (dependency_graph st) `` {t_task_id t} = set (t_dependencies t)"
    by (auto simp: succ_rel_def map_of_dependency_graph)
  then show ?thesis
    by (simp add: upstream_def trancl_unfold_left relcomp_Image)
qed

lemma ancestors_of_correct:
  assumes wf: "graph_wf (rs_tasks st)" and t: "t \<in> set (rs_tasks st)"
  obtains ks where "ancestors_of st t = Inr ks" and "set ks = upstream st t"
    and "set ks \<subseteq> set (task_ids (rs_tasks st))"
proof -
  let ?g = "dependency_graph st" and ?ds = "remdups (t_dependencies t)"
  have ds: "set ?ds \<subseteq> set (task_ids (rs_tasks st))"
    using wf t by (auto simp: graph_wf_def list_all_iff)
  then obtain ks where ks: "close_deps ?g ?ds ?ds = Some ks"
    using close_deps_total [OF _ graph_wf_closed [OF wf]] by (fastforce simp: dom_dependency_graph)
  have "set ks \<subseteq> dom (map_of ?g)"
    using close_deps_invariant [OF ks] by simp
  then have "set ks \<subseteq> set (task_ids (rs_tasks st))" by (simp add: dom_dependency_graph)
  moreover have "set ks = upstream st t"
    using close_deps_reachable [OF ks] upstream_rtrancl [OF wf t] by simp
  moreover have "ancestors_of st t = Inr ks" by (simp add: ancestors_of_def ks)
  ultimately show ?thesis using that by blast
qed

definition upstream_outputs :: "runtime_state \<Rightarrow> task \<Rightarrow> string set" where
  "upstream_outputs st t =
     (\<Union>u \<in> {u \<in> set (rs_tasks st). t_task_id u \<in> upstream st t}. set (completed_output_keys u))"

definition predecessors_settled :: "runtime_state \<Rightarrow> task \<Rightarrow> bool" where
  "predecessors_settled st t \<longleftrightarrow>
     list_all (\<lambda>u. t_task_id u \<in> set (t_dependencies t) \<longrightarrow> settled u) (rs_tasks st)"

lemma resolve_outputs_spec:
  assumes wf: "graph_wf (rs_tasks st)" and t: "t \<in> set (rs_tasks st)"
    and req: "t_output_requirements t = Some req"
  shows "resolve_outputs st t = Inr
    (if \<not> predecessors_settled st t then (RES_WAITING, [])
     else (let missing = sf_missing_required (evidence_sufficiency req (upstream_outputs st t))
           in (if missing = [] then RES_READY else RES_BLOCKED, missing)))"
proof -
  have ids: "distinct (task_ids (rs_tasks st))" using wf by (simp add: graph_wf_def)
  have deps: "set (t_dependencies t) \<subseteq> set (task_ids (rs_tasks st))"
    using wf t by (auto simp: graph_wf_def list_all_iff)
  let ?the = "\<lambda>k. the (find_task k (rs_tasks st))"
  have tasks: "?the ` K = {u \<in> set (rs_tasks st). t_task_id u \<in> K}"
    if "K \<subseteq> set (task_ids (rs_tasks st))" for K
  proof (intro equalityI subsetI)
    fix u assume "u \<in> ?the ` K"
    then obtain k where k: "k \<in> K" "u = ?the k" by blast
    with that obtain v where "find_task k (rs_tasks st) = Some v" using find_task_known by blast
    with k find_task_SomeD [of k "rs_tasks st"] show "u \<in> {u \<in> set (rs_tasks st). t_task_id u \<in> K}"
      by auto
  next
    fix u assume "u \<in> {u \<in> set (rs_tasks st). t_task_id u \<in> K}"
    then show "u \<in> ?the ` K" using find_task_distinct [OF ids, of u] by force
  qed
  have settled: "list_ex (\<lambda>p. \<not> settled p) (map ?the (t_dependencies t)) \<longleftrightarrow> \<not> predecessors_settled st t"
  proof -
    have "list_ex (\<lambda>p. \<not> settled p) (map ?the (t_dependencies t))
        \<longleftrightarrow> (\<exists>u \<in> ?the ` set (t_dependencies t). \<not> settled u)"
      by (auto simp: list_ex_iff)
    also have "\<dots> \<longleftrightarrow> \<not> predecessors_settled st t"
      by (simp only: tasks [OF deps]) (auto simp: predecessors_settled_def list_all_iff)
    finally show ?thesis .
  qed
  from ancestors_of_correct [OF wf t] obtain ks where ks: "ancestors_of st t = Inr ks"
    "set ks = upstream st t" "set ks \<subseteq> set (task_ids (rs_tasks st))" .
  have avail: "set (concat (map completed_output_keys (map ?the ks))) = upstream_outputs st t"
  proof -
    have "set (concat (map completed_output_keys (map ?the ks)))
        = (\<Union>u \<in> ?the ` set ks. set (completed_output_keys u))" by simp
    with tasks [OF ks(3)] show ?thesis by (simp only: ks(2) upstream_outputs_def)
  qed
  show ?thesis
    unfolding resolve_outputs_def
    using settled avail
    by (simp add: rmap_state_task [OF deps] req ks(1) rmap_state_task [OF ks(3)] Let_def)
qed

text \<open>
  C32. \<open>resolve_outputs\<close> on a well-formed graph never raises for a task with an output contract and
  decides by the contract alone: it waits while a direct predecessor is not settled; then it is
  ready exactly when every hard requirement and one alternative of each \<open>ANY_OF\<close> group is a completed
  output with references of some transitive predecessor. Outputs of unrelated tasks never count.
\<close>

theorem resolve_outputs_contract:
  assumes "graph_wf (rs_tasks st)" and "t \<in> set (rs_tasks st)"
    and "t_output_requirements t = Some req"
  shows "\<exists>r missing. resolve_outputs st t = Inr (r, missing)
    \<and> (r = RES_WAITING \<longleftrightarrow> \<not> predecessors_settled st t)
    \<and> (r = RES_READY \<longleftrightarrow> predecessors_settled st t \<and> requirements_met req (upstream_outputs st t))
    \<and> (r = RES_BLOCKED \<longleftrightarrow> predecessors_settled st t \<and> missing \<noteq> [])"
  using resolve_outputs_spec [OF assms] sufficiency_missing_iff [of req "upstream_outputs st t"]
  by (auto simp: Let_def)

definition sample_task :: "string \<Rightarrow> string list \<Rightarrow> task_status \<Rightarrow> task" where
  "sample_task k ds s = \<lparr> t_created_at = 0, t_task_id = k, t_run_id = ''R'', t_parent_task_id = None,
     t_task_type = ''ANALYSIS'', t_goal = ''g'', t_assigned_agent = ''a'', t_skill_id = ''s'',
     t_dependencies = ds, t_origin = TO_PLAN, t_reason_code = None, t_status = s, t_progress = 0,
     t_attempt_count = 0, t_result_ref = None, t_task_input_evidence_ids = [],
     t_task_output_evidence_ids = [], t_evidence_acquisition_status = None,
     t_evidence_source_coverage = [], t_output_requirements = None, t_output_outcomes = [],
     t_missing_output_dependencies = [] \<rparr>"

definition sample_graph :: "task list \<Rightarrow> planned_task_graph" where
  "sample_graph ts = \<lparr> g_created_at = 0, g_graph_id = ''G'', g_run_id = ''R'', g_version = 1, g_tasks = ts \<rparr>"

definition sample_state :: "task list \<Rightarrow> runtime_state" where
  "sample_state ts = (case create_state 0 ''R'' (sample_graph ts) None of Inr st \<Rightarrow> st
     | Inl _ \<Rightarrow> undefined)"

lemma sample_stateI:
  assumes "is_ok (create_state 0 ''R'' (sample_graph ts) None)"
  shows "graph_wf (rs_tasks (sample_state ts))" and "rs_tasks (sample_state ts) = ts"
    and "create_state 0 ''R'' (sample_graph ts) None = Inr (sample_state ts)"
proof -
  from assms obtain st where st: "create_state 0 ''R'' (sample_graph ts) None = Inr st"
    by (auto simp: is_ok_iff)
  then have "sample_state ts = st" by (simp add: sample_state_def)
  with st create_state_Inr_iff [of 0 "''R''" "sample_graph ts" None st]
  show "graph_wf (rs_tasks (sample_state ts))" "rs_tasks (sample_state ts) = ts"
    "create_state 0 ''R'' (sample_graph ts) None = Inr (sample_state ts)"
    by (simp_all add: sample_graph_def)
qed

definition sample_chain :: "task list" where
  "sample_chain =
     [(sample_task ''A'' [] TS_COMPLETED)\<lparr> t_output_outcomes :=
         [\<lparr> oo_output_id = ''x'', oo_status = OS_COMPLETED, oo_refs = [''r''], oo_reason_code = None \<rparr>] \<rparr>,
      sample_task ''B'' [''A''] TS_FAILED,
      (sample_task ''C'' [''B''] TS_WAITING)\<lparr> t_output_requirements := Some
         \<lparr> or_hard_required = [''A/x''], or_any_of = [[''B/y'', ''A/x'']], or_supporting = [],
           or_enrichment = [] \<rparr> \<rparr>]"

lemma sample_chain_ok: "is_ok (create_state 0 ''R'' (sample_graph sample_chain) None)"
  by code_simp

theorem resolve_outputs_contract_witness:
  "\<exists>missing. resolve_outputs (sample_state sample_chain) (sample_chain ! 2) = Inr (RES_READY, missing)"
proof -
  note S = sample_stateI [OF sample_chain_ok]
  have mem: "sample_chain ! 2 \<in> set (rs_tasks (sample_state sample_chain))"
    by (simp add: S(2)) (simp add: sample_chain_def)
  obtain req where req: "t_output_requirements (sample_chain ! 2) = Some req"
    by (simp add: sample_chain_def)
  have "\<not> is_ok (resolve_outputs (sample_state sample_chain) (sample_chain ! 2))
      \<or> fst (projr (resolve_outputs (sample_state sample_chain) (sample_chain ! 2))) = RES_READY"
    by code_simp
  with resolve_outputs_contract [OF S(1) mem req] show ?thesis by auto
qed

end
