(* ===== verification/GraphMutation.thy ===== *)
theory GraphMutation
  imports RuntimeStates EventStore "HOL-Library.Multiset"
begin

text \<open>
  \<open>src/runtime/graph.py\<close>: graph mutations approved by the research lead, applied to the actual graph
  of a run. The event store is the parameter \<open>em_op\<close> (its \<open>emit\<close>); the world of a mutation is the
  runtime state and the store. An \<open>await\<close> of the store is one call of \<open>em_op\<close>: nothing else mutates
  the state in between.
\<close>

section \<open>Requests, actors and operations\<close>

datatype graph_mutation_role = RESEARCH_LEAD | PLANNER | SPECIALIST

record graph_mutation_actor =
  ga_actor_id :: string
  ga_role :: graph_mutation_role

datatype graph_op = AddNode task | AddEdge string string | RemoveEdge string string

definition authorized_roles :: "graph_mutation_role list" where
  "authorized_roles = [RESEARCH_LEAD, PLANNER]"

definition dependency_immutable_statuses :: "task_status list" where
  "dependency_immutable_statuses = [TS_RUNNING, TS_REVIEW, TS_COMPLETED, TS_FAILED, TS_CANCELLED]"

definition validate_authority ::
    "runtime_state \<Rightarrow> replan_request \<Rightarrow> graph_mutation_actor \<Rightarrow> exn + unit" where
  "validate_authority st req actor =
     rbind (guard (ga_role actor \<in> set authorized_roles)
       (GraphMutationPermissionError Only_lead_or_planner)) (\<lambda>_.
     rbind (guard (rq_decision req = RD_APPROVED)
       (GraphMutationPermissionError Replan_not_approved)) (\<lambda>_.
     rbind (guard (rq_decided_by req \<noteq> Some [] \<and> rq_decided_by req = Some (ga_actor_id actor))
       (GraphMutationPermissionError Actor_not_decider)) (\<lambda>_.
     rbind (guard (rq_run_id req = rs_run_id st)
       (GraphMutationValidationError Replan_other_run)) (\<lambda>_.
     guard (rq_requesting_task_id req \<in> set (task_ids (rs_tasks st)))
       (GraphMutationValidationError Requesting_task_unknown)))))"

section \<open>One operation on the staged graph\<close>

text \<open>\<open>sorted({source, target} - known)\<close>.\<close>

definition unknown_ids :: "string list \<Rightarrow> string list \<Rightarrow> string list" where
  "unknown_ids wanted known = sort (remdups (filter (\<lambda>k. k \<notin> set known) wanted))"

definition edit_edge :: "bool \<Rightarrow> string \<Rightarrow> string \<Rightarrow> task list \<Rightarrow> exn + task list" where
  "edit_edge add source target ts =
     (let unknown = unknown_ids [source, target] (task_ids ts) in
      if unknown \<noteq> [] then Inl (GraphMutationValidationError (Unknown_graph_task_ids unknown))
      else case find_task target ts of
        None \<Rightarrow> Inl (KeyError ''StopIteration'')
      | Some t \<Rightarrow>
          if t_status t \<in> set dependency_immutable_statuses
          then Inl (GraphMutationValidationError (Dependencies_immutable (t_status t) target))
          else if add
          then if source \<in> set (t_dependencies t)
               then Inl (GraphMutationValidationError (Edge_exists source target))
               else Inr (upd_task target (\<lambda>t. t\<lparr> t_dependencies := t_dependencies t @ [source] \<rparr>) ts)
          else if source \<notin> set (t_dependencies t)
               then Inl (GraphMutationValidationError (Edge_missing source target))
               else Inr (upd_task target (\<lambda>t. t\<lparr> t_dependencies := remove1 source (t_dependencies t) \<rparr>) ts))"

fun apply_operation ::
    "actual_runtime_graph \<times> audit_operation list \<Rightarrow> graph_op
       \<Rightarrow> exn + actual_runtime_graph \<times> audit_operation list" where
  "apply_operation (g, audit) (AddNode t) =
     rbind (guard (t_run_id t = g_run_id g) (GraphMutationValidationError New_task_other_run)) (\<lambda>_.
     rbind (guard (t_status t = TS_CREATED) (GraphMutationValidationError New_task_not_created)) (\<lambda>_.
     rbind (guard (t_task_id t \<notin> set (task_ids (g_tasks g)))
       (GraphMutationValidationError Duplicate_task_id)) (\<lambda>_.
     Inr (g\<lparr> g_tasks := g_tasks g @ [t] \<rparr>, audit @ [Audit_add_node (t_task_id t)]))))"
| "apply_operation (g, audit) (AddEdge source target) =
     rbind (edit_edge True source target (g_tasks g)) (\<lambda>ts.
     Inr (g\<lparr> g_tasks := ts \<rparr>, audit @ [Audit_add_edge source target]))"
| "apply_operation (g, audit) (RemoveEdge source target) =
     rbind (edit_edge False source target (g_tasks g)) (\<lambda>ts.
     Inr (g\<lparr> g_tasks := ts \<rparr>, audit @ [Audit_remove_edge source target]))"

definition validate_graph :: "task list \<Rightarrow> exn + unit" where
  "validate_graph ts =
     rbind (guard (distinct (task_ids ts)) (GraphMutationValidationError Task_ids_not_unique)) (\<lambda>_.
     rbind (guard (list_all (\<lambda>t. list_all (\<lambda>d. d \<in> set (task_ids ts)) (t_dependencies t)) ts)
       (GraphMutationValidationError Unknown_task_dependencies)) (\<lambda>_.
     rbind (guard (list_all (\<lambda>t. t_task_id t \<notin> set (t_dependencies t)) ts)
       (GraphMutationValidationError Self_referential_edge)) (\<lambda>_.
     guard (peel_tasks ts) (GraphMutationValidationError Dependency_cycle))))"

section \<open>Readiness\<close>

definition completed_ids :: "task list \<Rightarrow> string list" where
  "completed_ids ts = map t_task_id (filter (\<lambda>t. t_status t = TS_COMPLETED) ts)"

definition deps_completed :: "task list \<Rightarrow> task \<Rightarrow> bool" where
  "deps_completed ts t \<longleftrightarrow> list_all (\<lambda>d. d \<in> set (completed_ids ts)) (t_dependencies t)"

definition stale_ready :: "task list \<Rightarrow> task \<Rightarrow> bool" where
  "stale_ready ts t \<longleftrightarrow> t_status t = TS_READY \<and> \<not> deps_completed ts t"

definition invalidate_ready :: "task list \<Rightarrow> string list \<times> task list" where
  "invalidate_ready ts =
     (map t_task_id (filter (stale_ready ts) ts),
      map (\<lambda>t. if stale_ready ts t then t\<lparr> t_status := TS_WAITING \<rparr> else t) ts)"

definition invalidate_ready_state :: "runtime_state \<Rightarrow> string list \<times> runtime_state" where
  "invalidate_ready_state st =
     (fst (invalidate_ready (rs_tasks st)), set_tasks (\<lambda>ts. snd (invalidate_ready ts)) st)"

definition recompute_ready_tasks :: "runtime_state \<Rightarrow> task list \<times> runtime_state" where
  "recompute_ready_tasks st =
     (let st1 = snd (invalidate_ready_state st);
          ts = rs_tasks st1;
          unlocked = (\<lambda>t. t_status t \<in> {TS_WAITING, TS_BLOCKED} \<and> deps_completed ts t)
      in (map (\<lambda>t. t\<lparr> t_status := TS_READY \<rparr>) (filter unlocked ts),
          set_tasks (map (\<lambda>t. if unlocked t then t\<lparr> t_status := TS_READY \<rparr> else t)) st1))"

section \<open>The audit events\<close>

definition edge_emission ::
    "replan_request \<Rightarrow> int \<Rightarrow> event_type \<Rightarrow> string \<Rightarrow> string \<Rightarrow> emission" where
  "edge_emission req version et source target =
     (et, Some target, [(''replan_id'', JStr (rq_replan_id req)), (''graph_version'', JInt version),
        (''source_task_id'', JStr source), (''target_task_id'', JStr target)])"

fun op_emissions :: "replan_request \<Rightarrow> int \<Rightarrow> graph_op \<Rightarrow> emission list" where
  "op_emissions req version (AddNode t) =
     (GRAPH_TASK_ADDED, Some (t_task_id t),
        [(''replan_id'', JStr (rq_replan_id req)), (''graph_version'', JInt version)])
     # map (\<lambda>d. edge_emission req version GRAPH_EDGE_ADDED d (t_task_id t)) (t_dependencies t)"
| "op_emissions req version (AddEdge s t) = [edge_emission req version GRAPH_EDGE_ADDED s t]"
| "op_emissions req version (RemoveEdge s t) = [edge_emission req version GRAPH_EDGE_REMOVED s t]"

definition audit_emissions :: "replan_request \<Rightarrow> int \<Rightarrow> int \<Rightarrow> graph_op list \<Rightarrow> emission list" where
  "audit_emissions req previous version ops =
     concat (map (op_emissions req version) ops)
     @ [(GRAPH_VERSION_CHANGED, None, [(''replan_id'', JStr (rq_replan_id req)),
          (''version_before'', JInt previous), (''version_after'', JInt version)])]"

section \<open>The mutation\<close>

fun added_ids :: "graph_op list \<Rightarrow> string list" where
  "added_ids [] = []"
| "added_ids (AddNode t # ops) = t_task_id t # added_ids ops"
| "added_ids (_ # ops) = added_ids ops"

definition stage_graph ::
    "runtime_state \<Rightarrow> replan_request \<Rightarrow> graph_mutation_actor \<Rightarrow> graph_op list
       \<Rightarrow> exn + actual_runtime_graph" where
  "stage_graph st req actor ops =
     rbind (validate_authority st req actor) (\<lambda>_.
     rbind (rfold apply_operation (rs_actual_graph st, []) ops) (\<lambda>(staged, audit).
     rbind (validate_graph (g_tasks staged)) (\<lambda>_.
     let previous = g_version (rs_actual_graph st);
         entry = \<lparr> mh_replan_id = rq_replan_id req, mh_approved_by = ga_actor_id actor,
                   mh_version_before = previous, mh_version_after = previous + 1,
                   mh_operations = audit, mh_created_task_ids = added_ids ops \<rparr>
     in Inr (staged\<lparr> g_version := previous + 1,
                     g_mutation_history := g_mutation_history staged @ [entry] \<rparr>))))"

text \<open>
  \<open>except Exception\<close> does not catch \<open>CancelledError\<close>, which derives from \<open>BaseException\<close>: then the
  staged graph stays.
\<close>

definition is_exception :: "exn \<Rightarrow> bool" where
  "is_exception e \<longleftrightarrow> e \<noteq> CancelledError"

definition apply_atomic ::
    "(string \<Rightarrow> event_type \<Rightarrow> string option \<Rightarrow> json_object \<Rightarrow> timestamp option
        \<Rightarrow> (exn, 'w, runtime_event) eff)
     \<Rightarrow> replan_request \<Rightarrow> graph_mutation_actor \<Rightarrow> graph_op list
     \<Rightarrow> (exn, runtime_state \<times> 'w, actual_runtime_graph) eff" where
  "apply_atomic em_op req actor ops w =
     (case w of (st, store) \<Rightarrow>
       (case stage_graph st req actor ops of
          Inl e \<Rightarrow> (Inl e, w)
        | Inr staged \<Rightarrow>
            let st1 = snd (invalidate_ready_state (st\<lparr> rs_actual_graph := staged \<rparr>))
            in (case emit_all em_op (rs_run_id st)
                  (audit_emissions req (g_version (rs_actual_graph st)) (g_version (rs_actual_graph st1)) ops)
                  store of
                (Inl e, store') \<Rightarrow>
                  (Inl e, (if is_exception e then st1\<lparr> rs_actual_graph := rs_actual_graph st \<rparr> else st1, store'))
              | (Inr _, store') \<Rightarrow> (Inr (rs_actual_graph st1), (st1, store')))))"

section \<open>The service\<close>

definition add_tasks where
  "add_tasks em_op req ts actor w =
     (if ts = [] then (Inl (GraphMutationValidationError Must_add_a_task), w)
      else apply_atomic em_op req actor (map AddNode ts) w)"

definition add_node where
  "add_node em_op req t actor = add_tasks em_op req [t] actor"

definition add_edge where
  "add_edge em_op req source target actor = apply_atomic em_op req actor [AddEdge source target]"

definition remove_edge where
  "remove_edge em_op req source target actor = apply_atomic em_op req actor [RemoveEdge source target]"

definition replace_dependency where
  "replace_dependency em_op req target old_dep new_dep actor =
     apply_atomic em_op req actor [RemoveEdge old_dep target, AddEdge new_dep target]"

definition insert_node_between where
  "insert_node_between em_op req t predecessor successor actor w =
     (if t_dependencies t \<noteq> []
      then (Inl (GraphMutationValidationError Inserted_task_has_dependencies), w)
      else apply_atomic em_op req actor
        [AddNode t, AddEdge predecessor (t_task_id t), RemoveEdge predecessor successor,
         AddEdge (t_task_id t) successor] w)"

end
