(* ===== verification/GraphFacts.thy ===== *)
theory GraphFacts
  imports GraphMutation
begin

text \<open>
  What a graph mutation guarantees: a successful one leaves a well-formed graph, one version later,
  in which nothing that already ran was touched; a failed one leaves the runtime state as it was;
  the audit events are a faithful delta log of the graph.
\<close>

section \<open>Single operations\<close>

lemma edit_edgeD:
  assumes "edit_edge add source target ts = Inr ts'"
  obtains t where "find_task target ts = Some t" and "t_status t \<notin> set dependency_immutable_statuses"
    and "source \<in> set (task_ids ts)" and "add \<longleftrightarrow> source \<notin> set (t_dependencies t)"
    and "ts' = upd_task target (\<lambda>t. t\<lparr> t_dependencies :=
      (if add then t_dependencies t @ [source] else remove1 source (t_dependencies t)) \<rparr>) ts"
proof -
  have "unknown_ids [source, target] (task_ids ts) = [] \<Longrightarrow> source \<in> set (task_ids ts)"
    by (simp add: unknown_ids_def split: if_splits)
  with assms that show ?thesis
    by (cases add) (auto simp: edit_edge_def Let_def split: if_splits option.splits)
qed

definition edges_of :: "task \<Rightarrow> (string \<times> string) multiset" where
  "edges_of t = mset (map (\<lambda>d. (d, t_task_id t)) (t_dependencies t))"

definition edge_mset :: "task list \<Rightarrow> (string \<times> string) multiset" where
  "edge_mset ts = sum_list (map edges_of ts)"

lemma edge_mset_simps [simp]:
  "edge_mset [] = {#}" "edge_mset (t # ts) = edges_of t + edge_mset ts"
  "edge_mset (ts @ us) = edge_mset ts + edge_mset us"
  by (simp_all add: edge_mset_def)

lemma edges_of_member: "(d, k) \<in># edges_of t \<longleftrightarrow> k = t_task_id t \<and> d \<in> set (t_dependencies t)"
  by (auto simp: edges_of_def)

lemma edge_mset_upd:
  assumes "find_task k ts = Some t" and "t_task_id (f t) = k"
  shows "edge_mset (upd_task k f ts) + edges_of t = edge_mset ts + edges_of (f t)"
  using assms
proof (induction ts)
  case Nil
  then show ?case by simp
next
  case (Cons u ts)
  then show ?case by (cases "t_task_id u = k") (auto simp: union_ac)
qed

lemma edges_of_append: "edges_of (t\<lparr> t_dependencies := t_dependencies t @ [s] \<rparr>)
    = edges_of t + {#(s, t_task_id t)#}"
  by (simp add: edges_of_def)

lemma edges_of_remove: "s \<in> set (t_dependencies t) \<Longrightarrow>
    edges_of (t\<lparr> t_dependencies := remove1 s (t_dependencies t) \<rparr>) + {#(s, t_task_id t)#} = edges_of t"
  by (simp add: edges_of_def image_mset_Diff multiset.map_comp)

lemma edit_edge_add: "edit_edge True s k ts = Inr ts' \<Longrightarrow> edge_mset ts' = edge_mset ts + {#(s, k)#}"
proof (erule edit_edgeD, goal_cases)
  case (1 t)
  then have "t_task_id t = k" by (simp add: find_task_SomeD)
  with edge_mset_upd [OF 1(1), of "\<lambda>t. t\<lparr> t_dependencies := t_dependencies t @ [s] \<rparr>"] 1(5)
  show ?case by (simp add: edges_of_append)
qed

lemma edit_edge_remove:
  "edit_edge False s k ts = Inr ts' \<Longrightarrow> edge_mset ts' + {#(s, k)#} = edge_mset ts"
proof (erule edit_edgeD, goal_cases)
  case (1 t)
  then have t: "t_task_id t = k" "s \<in> set (t_dependencies t)" by (simp_all add: find_task_SomeD)
  have "edge_mset ts' + edges_of t = edge_mset ts + edges_of (t\<lparr> t_dependencies := remove1 s (t_dependencies t) \<rparr>)"
    using edge_mset_upd [OF 1(1), of "\<lambda>t. t\<lparr> t_dependencies := remove1 s (t_dependencies t) \<rparr>"] 1(5) t
    by simp
  moreover have "edges_of t = edges_of (t\<lparr> t_dependencies := remove1 s (t_dependencies t) \<rparr>) + {#(s, k)#}"
    using edges_of_remove [OF t(2)] t(1) by simp
  ultimately have "(edge_mset ts' + {#(s, k)#}) + edges_of (t\<lparr> t_dependencies := remove1 s (t_dependencies t) \<rparr>)
      = edge_mset ts + edges_of (t\<lparr> t_dependencies := remove1 s (t_dependencies t) \<rparr>)"
    by (simp only: ac_simps)
  then show ?case by (simp only: add_right_cancel)
qed

text \<open>Tasks in one of the five statuses that freeze their dependencies keep every field.\<close>

definition frozen_kept :: "task list \<Rightarrow> task list \<Rightarrow> bool" where
  "frozen_kept ts ts' \<longleftrightarrow>
     (\<forall>k t. find_task k ts = Some t \<longrightarrow> t_status t \<in> set dependency_immutable_statuses \<longrightarrow>
        find_task k ts' = Some t)"

lemma frozen_kept_refl [simp]: "frozen_kept ts ts"
  by (simp add: frozen_kept_def)

lemma frozen_kept_trans: "frozen_kept a b \<Longrightarrow> frozen_kept b c \<Longrightarrow> frozen_kept a c"
  unfolding frozen_kept_def by blast

lemma find_task_append: "find_task k (ts @ us) =
    (case find_task k ts of None \<Rightarrow> find_task k us | Some t \<Rightarrow> Some t)"
  by (induction ts) auto

lemma find_task_map:
  "(\<And>t. t_task_id (f t) = t_task_id t) \<Longrightarrow> find_task k (map f ts) = map_option f (find_task k ts)"
  by (induction ts) auto

lemma edit_edge_frozen:
  assumes "edit_edge add s k ts = Inr ts'"
  shows "frozen_kept ts ts' \<and> task_ids ts' = task_ids ts"
proof (rule edit_edgeD [OF assms])
  fix t
  define f :: "task \<Rightarrow> task" where "f = (\<lambda>t. t\<lparr> t_dependencies :=
      (if add then t_dependencies t @ [s] else remove1 s (t_dependencies t)) \<rparr>)"
  assume t: "find_task k ts = Some t" "t_status t \<notin> set dependency_immutable_statuses"
    and ts': "ts' = upd_task k (\<lambda>t. t\<lparr> t_dependencies :=
      (if add then t_dependencies t @ [s] else remove1 s (t_dependencies t)) \<rparr>) ts"
  then have ts': "ts' = upd_task k f ts" by (simp add: f_def)
  have id: "t_task_id (f u) = t_task_id u" for u by (simp add: f_def)
  have "find_task j ts' = Some u"
    if "find_task j ts = Some u" "t_status u \<in> set dependency_immutable_statuses" for j u
    using that t find_task_upd_other [of f j k ts] id by (cases "j = k") (auto simp: ts')
  then show ?thesis by (simp add: frozen_kept_def ts' id)
qed

lemma apply_operation_step:
  assumes "apply_operation (g, audit) op = Inr (g', audit')"
  shows "frozen_kept (g_tasks g) (g_tasks g')
    \<and> task_ids (g_tasks g') = task_ids (g_tasks g) @ added_ids [op]
    \<and> g' = g\<lparr> g_tasks := g_tasks g' \<rparr>"
proof (cases op)
  case (AddNode t)
  with assms show ?thesis
    by (auto simp: rbind_Inr_iff frozen_kept_def find_task_append)
qed (use assms edit_edge_frozen in \<open>fastforce simp: rbind_Inr_iff\<close>)+

lemma added_ids_append: "added_ids (a @ b) = added_ids a @ added_ids b"
  by (induction a rule: added_ids.induct) auto

lemma apply_operations_steps:
  assumes "rfold apply_operation (g, audit) ops = Inr (g', audit')"
  shows "frozen_kept (g_tasks g) (g_tasks g')
    \<and> task_ids (g_tasks g') = task_ids (g_tasks g) @ added_ids ops
    \<and> g' = g\<lparr> g_tasks := g_tasks g' \<rparr>"
  using assms
proof (induction ops arbitrary: g audit)
  case Nil
  then show ?case by simp
next
  case (Cons op ops)
  then obtain g1 a1 where 1: "apply_operation (g, audit) op = Inr (g1, a1)"
    and 2: "rfold apply_operation (g1, a1) ops = Inr (g', audit')"
    by (auto simp: rbind_Inr_iff)
  note s1 = apply_operation_step [OF 1] and s2 = Cons.IH [OF 2]
  have "added_ids (op # ops) = added_ids [op] @ added_ids ops"
    using added_ids_append [of "[op]" ops] by simp
  moreover have "g' = g\<lparr> g_tasks := g_tasks g' \<rparr>"
  proof -
    have "g' = (g\<lparr> g_tasks := g_tasks g1 \<rparr>)\<lparr> g_tasks := g_tasks g' \<rparr>"
      using conjunct2 [OF conjunct2 [OF s1]] conjunct2 [OF conjunct2 [OF s2]] by metis
    then show ?thesis by simp
  qed
  ultimately show ?case using s1 s2 frozen_kept_trans by auto
qed

lemma validate_graph_iff: "validate_graph ts = Inr () \<longleftrightarrow>
    graph_wf ts \<and> list_all (\<lambda>t. t_task_id t \<notin> set (t_dependencies t)) ts"
  by (auto simp: validate_graph_def guard_bind_Inr_iff graph_wf_def peel_tasks_iff list_all_iff)

section \<open>Readiness\<close>

lemma map_keeps_ids: "(\<And>t. t_task_id (f t) = t_task_id t) \<Longrightarrow> task_ids (map f ts) = task_ids ts"
  by (simp add: task_ids_def)

lemma graph_wf_map:
  assumes "\<And>t. t_task_id (f t) = t_task_id t" and "\<And>t. t_dependencies (f t) = t_dependencies t"
  shows "graph_wf (map f ts) \<longleftrightarrow> graph_wf ts"
proof -
  have "map (\<lambda>t. (t_task_id t, t_dependencies t)) (map f ts) = map (\<lambda>t. (t_task_id t, t_dependencies t)) ts"
    using assms by simp
  then have "task_deps (map f ts) = task_deps ts" unfolding task_deps_def by presburger
  then show ?thesis
    by (simp add: graph_wf_def map_keeps_ids assms list.pred_map comp_def)
qed

lemma edge_mset_map:
  assumes "\<And>t. t_task_id (f t) = t_task_id t" and "\<And>t. t_dependencies (f t) = t_dependencies t"
  shows "edge_mset (map f ts) = edge_mset ts"
  by (induction ts) (simp_all add: edges_of_def assms)

lemma completed_ids_map:
  assumes "\<And>t. t_task_id (f t) = t_task_id t" and "\<And>t. t_status (f t) = TS_COMPLETED \<longleftrightarrow> t_status t = TS_COMPLETED"
  shows "completed_ids (map f ts) = completed_ids ts"
  by (induction ts) (simp_all add: completed_ids_def assms)

lemma invalidate_ready_facts:
  "graph_wf (snd (invalidate_ready ts)) = graph_wf ts"
  "task_ids (snd (invalidate_ready ts)) = task_ids ts"
  "edge_mset (snd (invalidate_ready ts)) = edge_mset ts"
  "frozen_kept ts (snd (invalidate_ready ts))"
proof -
  let ?f = "\<lambda>t. if stale_ready ts t then t\<lparr> t_status := TS_WAITING \<rparr> else t"
  have f: "t_task_id (?f t) = t_task_id t" "t_dependencies (?f t) = t_dependencies t" for t
    by simp_all
  show "graph_wf (snd (invalidate_ready ts)) = graph_wf ts"
    unfolding invalidate_ready_def snd_conv by (rule graph_wf_map [OF f])
  show "task_ids (snd (invalidate_ready ts)) = task_ids ts"
    unfolding invalidate_ready_def snd_conv by (rule map_keeps_ids [OF f(1)])
  show "edge_mset (snd (invalidate_ready ts)) = edge_mset ts"
    unfolding invalidate_ready_def snd_conv by (rule edge_mset_map [OF f])
  have "find_task k (map ?f ts) = map_option ?f (find_task k ts)" for k
    by (rule find_task_map [OF f(1)])
  then show "frozen_kept ts (snd (invalidate_ready ts))"
    unfolding invalidate_ready_def snd_conv frozen_kept_def
    by (auto simp: stale_ready_def dependency_immutable_statuses_def)
qed

lemma rs_tasks_set_tasks [simp]: "rs_tasks (set_tasks f st) = f (rs_tasks st)"
  by (simp add: set_tasks_def)

lemma set_tasks_fields [simp]:
  "rs_run_id (set_tasks f st) = rs_run_id st" "rs_planned_graph (set_tasks f st) = rs_planned_graph st"
  "g_version (rs_actual_graph (set_tasks f st)) = g_version (rs_actual_graph st)"
  "g_mutation_history (rs_actual_graph (set_tasks f st)) = g_mutation_history (rs_actual_graph st)"
  "g_run_id (rs_actual_graph (set_tasks f st)) = g_run_id (rs_actual_graph st)"
  "rs_run_status (set_tasks f st) = rs_run_status st"
  by (simp_all add: set_tasks_def)

section \<open>The delta log\<close>

text \<open>Reading the graph back from the audit events: the identifiers in order, the edges as a multiset.\<close>

definition payload_string :: "json_object \<Rightarrow> string \<Rightarrow> string" where
  "payload_string p k = (case map_of p k of Some (JStr s) \<Rightarrow> s | _ \<Rightarrow> [])"

fun delta_step ::
    "string list \<times> (string \<times> string) multiset \<Rightarrow> emission
       \<Rightarrow> string list \<times> (string \<times> string) multiset" where
  "delta_step (ks, es) (et, t, p) =
     (if et = GRAPH_TASK_ADDED then (ks @ (case t of None \<Rightarrow> [] | Some k \<Rightarrow> [k]), es)
      else if et = GRAPH_EDGE_ADDED
      then (ks, es + {#(payload_string p ''source_task_id'', payload_string p ''target_task_id'')#})
      else if et = GRAPH_EDGE_REMOVED
      then (ks, es - {#(payload_string p ''source_task_id'', payload_string p ''target_task_id'')#})
      else (ks, es))"

definition graph_delta :: "task list \<Rightarrow> string list \<times> (string \<times> string) multiset" where
  "graph_delta ts = (task_ids ts, edge_mset ts)"

lemma delta_step_edge [simp]:
  "delta_step (ks, es) (edge_emission req v GRAPH_EDGE_ADDED s t) = (ks, es + {#(s, t)#})"
  "delta_step (ks, es) (edge_emission req v GRAPH_EDGE_REMOVED s t) = (ks, es - {#(s, t)#})"
  by (simp_all add: edge_emission_def payload_string_def)

lemma delta_added_edges:
  "foldl delta_step (ks, es) (map (\<lambda>d. edge_emission req v GRAPH_EDGE_ADDED d k) ds)
     = (ks, es + mset (map (\<lambda>d. (d, k)) ds))"
  by (induction ds arbitrary: es) simp_all

lemma op_delta:
  assumes "apply_operation (g, audit) op = Inr (g', audit')"
  shows "foldl delta_step (graph_delta (g_tasks g)) (op_emissions req v op) = graph_delta (g_tasks g')"
proof (cases op)
  case (AddNode t)
  with assms have "g_tasks g' = g_tasks g @ [t]" by (auto simp: rbind_Inr_iff)
  with AddNode show ?thesis by (simp add: graph_delta_def delta_added_edges edges_of_def)
next
  case (AddEdge s k)
  with assms obtain ts where "edit_edge True s k (g_tasks g) = Inr ts" "g_tasks g' = ts"
    by (auto simp: rbind_Inr_iff)
  with AddEdge edit_edge_add edit_edge_frozen show ?thesis by (fastforce simp: graph_delta_def)
next
  case (RemoveEdge s k)
  with assms obtain ts where ts: "edit_edge False s k (g_tasks g) = Inr ts" "g_tasks g' = ts"
    by (auto simp: rbind_Inr_iff)
  have "edge_mset ts = edge_mset (g_tasks g) - {#(s, k)#}"
    using edit_edge_remove [OF ts(1)] by (metis add_diff_cancel_right')
  with ts RemoveEdge edit_edge_frozen [OF ts(1)] show ?thesis by (simp add: graph_delta_def)
qed

lemma ops_delta:
  assumes "rfold apply_operation (g, audit) ops = Inr (g', audit')"
  shows "foldl delta_step (graph_delta (g_tasks g)) (concat (map (op_emissions req v) ops))
    = graph_delta (g_tasks g')"
  using assms
proof (induction ops arbitrary: g audit)
  case Nil
  then show ?case by simp
next
  case (Cons op ops)
  then obtain g1 a1 where 1: "apply_operation (g, audit) op = Inr (g1, a1)"
    and 2: "rfold apply_operation (g1, a1) ops = Inr (g', audit')"
    by (auto simp: rbind_Inr_iff)
  from op_delta [OF 1] Cons.IH [OF 2] show ?case by simp
qed

lemma audit_delta: "foldl delta_step d (audit_emissions req p v ops)
    = foldl delta_step d (concat (map (op_emissions req v) ops))"
  by (cases "foldl delta_step d (concat (map (op_emissions req v) ops))") (simp add: audit_emissions_def)

section \<open>Staging and applying\<close>

text \<open>Everything a mutation promises of the state it leaves, as one relation.\<close>

definition mutated ::
    "replan_request \<Rightarrow> graph_mutation_actor \<Rightarrow> graph_op list \<Rightarrow> runtime_state \<Rightarrow> runtime_state \<Rightarrow> bool" where
  "mutated req actor ops st st' \<longleftrightarrow>
     validate_authority st req actor = Inr ()
     \<and> graph_wf (rs_tasks st') \<and> frozen_kept (rs_tasks st) (rs_tasks st')
     \<and> task_ids (rs_tasks st') = task_ids (rs_tasks st) @ added_ids ops
     \<and> g_version (rs_actual_graph st') = g_version (rs_actual_graph st) + 1
     \<and> length (g_mutation_history (rs_actual_graph st'))
         = Suc (length (g_mutation_history (rs_actual_graph st)))
     \<and> st' = st\<lparr> rs_actual_graph := rs_actual_graph st' \<rparr>"

definition commit_staged :: "runtime_state \<Rightarrow> actual_runtime_graph \<Rightarrow> runtime_state" where
  "commit_staged st staged = snd (invalidate_ready_state (st\<lparr> rs_actual_graph := staged \<rparr>))"

lemma commit_staged_graph:
  "rs_actual_graph (commit_staged st staged) = staged\<lparr> g_tasks := snd (invalidate_ready (g_tasks staged)) \<rparr>"
  "commit_staged st staged = st\<lparr> rs_actual_graph := rs_actual_graph (commit_staged st staged) \<rparr>"
  by (simp_all add: commit_staged_def invalidate_ready_state_def set_tasks_def)

lemma stage_graphD:
  assumes "stage_graph st req actor ops = Inr staged"
  shows "\<exists>g audit. rfold apply_operation (rs_actual_graph st, []) ops = Inr (g, audit)
    \<and> validate_authority st req actor = Inr () \<and> validate_graph (g_tasks g) = Inr ()
    \<and> g_version staged = g_version (rs_actual_graph st) + 1 \<and> g_tasks staged = g_tasks g
    \<and> length (g_mutation_history staged) = Suc (length (g_mutation_history g))"
  using assms by (auto simp: stage_graph_def rbind_Inr_iff Let_def)

lemma stage_graph_mutated:
  assumes "stage_graph st req actor ops = Inr staged"
  shows "mutated req actor ops st (commit_staged st staged)
    \<and> g_version staged = g_version (rs_actual_graph st) + 1
    \<and> foldl delta_step (graph_delta (rs_tasks st)) (audit_emissions req p v ops)
        = graph_delta (rs_tasks (commit_staged st staged))"
proof -
  from stage_graphD [OF assms] obtain g audit where auth: "validate_authority st req actor = Inr ()"
    and fold: "rfold apply_operation (rs_actual_graph st, []) ops = Inr (g, audit)"
    and valid: "validate_graph (g_tasks g) = Inr ()"
    and staged: "g_version staged = g_version (rs_actual_graph st) + 1" "g_tasks staged = g_tasks g"
      "length (g_mutation_history staged) = Suc (length (g_mutation_history g))"
    by blast
  note steps = apply_operations_steps [OF fold]
  from steps have hist: "g_mutation_history g = g_mutation_history (rs_actual_graph st)"
    by (metis actual_runtime_graph.select_convs(1) actual_runtime_graph.surjective planned_task_graph.update_convs(5))
  have "mutated req actor ops st (commit_staged st staged)"
    unfolding mutated_def
    using auth steps staged hist valid commit_staged_graph(2)
      frozen_kept_trans [OF _ invalidate_ready_facts(4)]
    by (simp add: commit_staged_graph(1) invalidate_ready_facts validate_graph_iff)
  moreover have "foldl delta_step (graph_delta (rs_tasks st)) (audit_emissions req p v ops)
      = graph_delta (rs_tasks (commit_staged st staged))"
    using ops_delta [OF fold] staged(2)
    by (simp add: audit_delta commit_staged_graph(1) graph_delta_def invalidate_ready_facts)
  ultimately show ?thesis using staged by simp
qed

definition mutation_emissions :: "runtime_state \<Rightarrow> replan_request \<Rightarrow> graph_op list \<Rightarrow> emission list" where
  "mutation_emissions st req ops = audit_emissions req (g_version (rs_actual_graph st))
     (g_version (rs_actual_graph st) + 1) ops"

lemma rfold_Inl:
  "rfold f s xs = Inl e \<Longrightarrow> \<exists>s' x. f s' x = Inl e"
proof (induction xs arbitrary: s)
  case Nil
  then show ?case by simp
next
  case (Cons x xs)
  then show ?case by (cases "f s x") auto
qed

text \<open>Staging is synchronous: a cancellation can only strike at an emission.\<close>

lemma edit_edge_not_cancelled: "edit_edge add source target ts \<noteq> Inl CancelledError"
  by (auto simp: edit_edge_def Let_def split: option.splits)

lemma apply_operation_not_cancelled: "apply_operation ga op \<noteq> Inl CancelledError"
proof -
  obtain g audit where ga: "ga = (g, audit)" by fastforce
  show ?thesis
  proof (cases op)
    case (AddNode t)
    then show ?thesis by (simp add: ga guard_def)
  next
    case (AddEdge s k)
    then show ?thesis
      using edit_edge_not_cancelled [of True s k "g_tasks g"]
      by (cases "edit_edge True s k (g_tasks g)") (simp_all add: ga)
  next
    case (RemoveEdge s k)
    then show ?thesis
      using edit_edge_not_cancelled [of False s k "g_tasks g"]
      by (cases "edit_edge False s k (g_tasks g)") (simp_all add: ga)
  qed
qed

lemma rbind_Inl_iff: "rbind r f = Inl e \<longleftrightarrow> r = Inl e \<or> (\<exists>x. r = Inr x \<and> f x = Inl e)"
  by (cases r) simp_all

lemma stage_graph_not_cancelled: "stage_graph st req actor ops \<noteq> Inl CancelledError"
proof -
  have "validate_authority st req actor \<noteq> Inl CancelledError"
    by (simp add: validate_authority_def guard_def)
  moreover have "validate_graph ts \<noteq> Inl CancelledError" for ts
    by (simp add: validate_graph_def guard_def)
  moreover have "rfold apply_operation ga ops \<noteq> Inl CancelledError" for ga
    using rfold_Inl [of apply_operation ga ops CancelledError] apply_operation_not_cancelled by blast
  ultimately show ?thesis
    by (auto simp: stage_graph_def Let_def rbind_Inl_iff split: prod.splits)
qed

lemma op_emissions_types: "e \<in> set (op_emissions req v op) \<Longrightarrow> fst e \<noteq> GRAPH_VERSION_CHANGED"
  by (cases op) (auto simp: edge_emission_def)

lemma version_event_last:
  assumes "k < length (mutation_emissions st req ops)" and "e \<in> set (take k (mutation_emissions st req ops))"
  shows "fst e \<noteq> GRAPH_VERSION_CHANGED"
proof -
  from assms(1) have "take k (mutation_emissions st req ops)
      = take k (concat (map (op_emissions req (g_version (rs_actual_graph st) + 1)) ops))"
    by (simp add: mutation_emissions_def audit_emissions_def)
  with assms(2) obtain op where "e \<in> set (op_emissions req (g_version (rs_actual_graph st) + 1) op)"
    by (metis (no_types, lifting) UN_E in_set_takeD set_concat set_map image_iff)
  then show ?thesis by (rule op_emissions_types)
qed

context runtime_event_store
begin

lemma apply_atomic_cases:
  assumes inv: "inv store" and run: "apply_atomic emit req actor ops (st, store) = (res, (st', store'))"
  shows "(\<exists>g. res = Inr g \<and> g = rs_actual_graph st' \<and> mutated req actor ops st st'
        \<and> foldl delta_step (graph_delta (rs_tasks st)) (mutation_emissions st req ops)
            = graph_delta (rs_tasks st')
        \<and> extends (rs_run_id st) store store' (mutation_emissions st req ops))
    \<or> (\<exists>e k. res = Inl e \<and> (is_exception e \<longrightarrow> st' = st)
        \<and> k < length (mutation_emissions st req ops)
        \<and> extends (rs_run_id st) store store' (take k (mutation_emissions st req ops)))"
proof (cases "stage_graph st req actor ops")
  case (Inl e)
  have "mutation_emissions st req ops \<noteq> []" by (simp add: mutation_emissions_def audit_emissions_def)
  moreover have "res = Inl e" "st' = st" "store' = store"
    using Inl run by (simp_all add: apply_atomic_def)
  ultimately show ?thesis
    using extends_refl [OF inv] by (intro disjI2 exI [of _ e] exI [of _ "0 :: nat"]) simp
next
  case (Inr staged)
  let ?st1 = "commit_staged st staged"
  from stage_graph_mutated [OF Inr, of "g_version (rs_actual_graph st)" "g_version (rs_actual_graph st) + 1"]
  have m: "mutated req actor ops st ?st1" and d: "foldl delta_step (graph_delta (rs_tasks st))
      (mutation_emissions st req ops) = graph_delta (rs_tasks ?st1)"
    by (simp_all add: mutation_emissions_def)
  have v: "g_version (rs_actual_graph ?st1) = g_version (rs_actual_graph st) + 1"
    using m by (simp add: mutated_def)
  obtain u store1 where u: "emit_all emit (rs_run_id st) (mutation_emissions st req ops) store = (u, store1)"
    by fastforce
  have run': "(res, st', store') = (case u of
      Inl e \<Rightarrow> (Inl e, if is_exception e then ?st1\<lparr> rs_actual_graph := rs_actual_graph st \<rparr> else ?st1, store1)
    | Inr _ \<Rightarrow> (Inr (rs_actual_graph ?st1), ?st1, store1))"
    using run u v unfolding apply_atomic_def prod.case Inr sum.case Let_def
      commit_staged_def [symmetric] mutation_emissions_def
    by (simp split: sum.splits)
  have undone: "?st1\<lparr> rs_actual_graph := rs_actual_graph st \<rparr> = st"
    using commit_staged_graph(2) [of st staged]
    by (metis runtime_state.surjective runtime_state.update_convs(3))
  from emit_all_extends [OF inv u] show ?thesis
  proof (elim disjE exE conjE)
    assume "u = Inr ()" "extends (rs_run_id st) store store1 (mutation_emissions st req ops)"
    with run' m d show ?thesis by auto
  next
    fix e k assume "u = Inl e" "k < length (mutation_emissions st req ops)"
      "extends (rs_run_id st) store store1 (take k (mutation_emissions st req ops))"
    with run' undone show ?thesis by auto
  qed
qed

end

end
