(* ===== verification/GraphProps.thy ===== *)
theory GraphProps
  imports GraphFacts
begin

text \<open>
  The contract of the graph mutation service on the in-memory event store, and the recomputation of
  ready tasks after a mutation.
\<close>

section \<open>Atomicity\<close>

definition sample_request :: replan_request where
  "sample_request = \<lparr> rq_created_at = 0, rq_replan_id = ''RP'', rq_run_id = ''R'',
     rq_requesting_task_id = ''A'', rq_requested_by = ''a'', rq_reason_code = ''c'', rq_reason_detail = ''d'',
     rq_proposed_graph_change = [], rq_decision = RD_APPROVED, rq_decided_by = Some ''lead'',
     rq_created_task_ids = [] \<rparr>"

definition sample_actor :: graph_mutation_actor where
  "sample_actor = \<lparr> ga_actor_id = ''lead'', ga_role = RESEARCH_LEAD \<rparr>"

definition sample_insertion :: "graph_op list" where
  "sample_insertion = [AddNode (sample_task ''N'' [] TS_CREATED), AddEdge ''B'' ''N'',
     RemoveEdge ''B'' ''C'', AddEdge ''N'' ''C'']"

text \<open>
  C15. A successful graph mutation on the in-memory store: the request was approved by this very actor;
  the actual graph stays well formed (unique identifiers, known dependencies, no cycle); every task
  in one of the five statuses that freeze its dependencies (\<open>RUNNING\<close>, \<open>REVIEW\<close>, \<open>COMPLETED\<close>, \<open>FAILED\<close>,
  \<open>CANCELLED\<close>) is kept in every field, while a task in any other status may gain or lose edges even if
  it ran before; tasks are only added; the version grows by one and one history entry is added; the
  rest of the state, the planned graph included, is untouched; and the store holds exactly the audit
  events of the operations, in order, with the version event last.
\<close>

theorem graph_mutation_success:
  assumes "store_inv fs store"
    and "apply_atomic (emit fp fs) req actor ops (st, store) = (Inr g, (st', store'))"
  shows "g = rs_actual_graph st' \<and> mutated req actor ops st st'
    \<and> (\<exists>evs. es_events store' = (es_events store)(rs_run_id st := es_events store (rs_run_id st) @ evs)
         \<and> map emission_of evs = mutation_emissions st req ops)"
  using mem.apply_atomic_cases [OF assms] by (auto simp: mem.extends_def)

theorem graph_mutation_success_witness:
  "\<exists>g st' store'. apply_atomic (emit ev_event_id sample_supply) sample_request sample_actor
        sample_insertion (sample_state sample_chain, empty_store) = (Inr g, (st', store'))
     \<and> mutated sample_request sample_actor sample_insertion (sample_state sample_chain) st'"
proof -
  have "is_ok (fst (apply_atomic (emit ev_event_id sample_supply) sample_request sample_actor
      sample_insertion (sample_state sample_chain, empty_store)))"
    by code_simp
  then obtain g st' store' where run: "apply_atomic (emit ev_event_id sample_supply) sample_request
      sample_actor sample_insertion (sample_state sample_chain, empty_store) = (Inr g, (st', store'))"
    by (metis is_ok_iff prod.collapse)
  with graph_mutation_success [OF store_inv_empty [OF inj_sample_supply] run] show ?thesis by blast
qed

text \<open>
  C1. A graph mutation that raises any \<open>Exception\<close> is atomic on the runtime state: the state is the one
  before the call, whatever operation or emission failed, and the log grew by a proper prefix of the
  audit events only (emissions before the failure are not taken back).
\<close>

theorem graph_mutation_atomic:
  assumes "store_inv fs store"
    and "apply_atomic (emit fp fs) req actor ops (st, store) = (Inl e, (st', store'))"
    and "is_exception e"
  shows "st' = st \<and> store_inv fs store' \<and>
    (\<exists>k evs. k < length (mutation_emissions st req ops)
       \<and> es_events store' = (es_events store)(rs_run_id st := es_events store (rs_run_id st) @ evs)
       \<and> map emission_of evs = take k (mutation_emissions st req ops))"
  using mem.apply_atomic_cases [OF assms(1,2)] assms(3) by (auto simp: mem.extends_def)

theorem graph_mutation_atomic_witness:
  "\<exists>store'. apply_atomic (emit ev_event_id sample_supply) sample_request sample_actor
        [AddEdge ''C'' ''C''] (sample_state sample_chain, empty_store)
     = (Inl (GraphMutationValidationError Self_referential_edge), (sample_state sample_chain, store'))"
proof -
  let ?run = "apply_atomic (emit ev_event_id sample_supply) sample_request sample_actor
      [AddEdge ''C'' ''C''] (sample_state sample_chain, empty_store)"
  have "fst ?run = Inl (GraphMutationValidationError Self_referential_edge)" by code_simp
  moreover obtain r st' store' where run: "?run = (r, (st', store'))" by (metis surj_pair)
  ultimately have run: "?run = (Inl (GraphMutationValidationError Self_referential_edge), (st', store'))"
    by simp
  from graph_mutation_atomic [OF store_inv_empty [OF inj_sample_supply] run] run show ?thesis
    by (auto simp: is_exception_def)
qed

text \<open>
  C30. The audit events are a complete delta log: replaying the events of a successful mutation on the
  identifiers and the edge multiset of the graph before it yields those of the graph after it.
\<close>

theorem audit_log_replays:
  assumes "store_inv fs store"
    and "apply_atomic (emit fp fs) req actor ops (st, store) = (Inr g, (st', store'))"
  shows "\<exists>evs. es_events store' (rs_run_id st) = es_events store (rs_run_id st) @ evs
    \<and> foldl delta_step (graph_delta (rs_tasks st)) (map emission_of evs) = graph_delta (rs_tasks st')"
  using mem.apply_atomic_cases [OF assms] by (auto simp: mem.extends_def)

theorem audit_log_replays_witness:
  "\<exists>(st' :: runtime_state) (store' :: event_store). foldl delta_step (graph_delta sample_chain)
      (map emission_of (es_events store' ''R'')) = graph_delta (rs_tasks st')
    \<and> length (rs_tasks st') = 4"
proof -
  let ?run = "apply_atomic (emit ev_event_id sample_supply) sample_request sample_actor
      sample_insertion (sample_state sample_chain, empty_store)"
  have ok: "is_ok (fst ?run) \<and> rs_run_id (sample_state sample_chain) = ''R''
      \<and> length (rs_tasks (fst (snd ?run))) = 4"
    by code_simp
  then obtain g st' store' where run: "?run = (Inr g, (st', store'))"
    by (metis is_ok_iff prod.collapse)
  from audit_log_replays [OF store_inv_empty [OF inj_sample_supply] run] ok run
  have "foldl delta_step (graph_delta sample_chain) (map emission_of (es_events store' ''R''))
      = graph_delta (rs_tasks st') \<and> length (rs_tasks st') = 4"
    by (auto simp: sample_stateI(2) [OF sample_chain_ok] empty_store_def)
  then show ?thesis by blast
qed

section \<open>Cancellation\<close>

text \<open>
  A store whose emissions may be cancelled: \<open>hits\<close> decides, from the event and the store, which emission
  is cancelled before it writes anything; the others are those of the store.
\<close>

definition interrupted ::
    "(string \<Rightarrow> event_type \<Rightarrow> string option \<Rightarrow> json_object \<Rightarrow> 'w \<Rightarrow> bool)
     \<Rightarrow> (string \<Rightarrow> event_type \<Rightarrow> string option \<Rightarrow> json_object \<Rightarrow> timestamp option
          \<Rightarrow> (exn, 'w, runtime_event) eff)
     \<Rightarrow> string \<Rightarrow> event_type \<Rightarrow> string option \<Rightarrow> json_object \<Rightarrow> timestamp option
     \<Rightarrow> (exn, 'w, runtime_event) eff" where
  "interrupted hits em_op r et t p ts w =
     (if hits r et t p w then (Inl CancelledError, w) else em_op r et t p ts w)"

interpretation memi: runtime_event_store "interrupted hits (emit fp fs)" es_events "store_inv fs"
  for hits fp fs
  by unfold_locales
    (auto simp: interrupted_def split: if_splits dest: mem.emit_Inr mem.emit_Inl mem.inv_log_ok)



section \<open>The convenience operations\<close>

text \<open>
  \<open>insert_node_between\<close> replaces the edge predecessor to successor by the two edges through the new
  node, and touches no other edge: the edge multiset afterwards, with the removed edge put back, is
  the one before plus the two new edges.
\<close>

theorem insert_node_between_edges:
  assumes "store_inv fs store"
    and "insert_node_between (emit fp fs) req n p s actor (st, store) = (Inr g, (st', store'))"
  shows "edge_mset (rs_tasks st') + {#(p, s)#}
      = edge_mset (rs_tasks st) + {#(p, t_task_id n), (t_task_id n, s)#}
    \<and> task_ids (rs_tasks st') = task_ids (rs_tasks st) @ [t_task_id n]"
proof -
  let ?ops = "[AddNode n, AddEdge p (t_task_id n), RemoveEdge p s, AddEdge (t_task_id n) s]"
  from assms(2) have nd: "t_dependencies n = []"
    and run: "apply_atomic (emit fp fs) req actor ?ops (st, store) = (Inr g, (st', store'))"
    by (auto simp: insert_node_between_def split: if_splits)
  from run obtain staged where staged: "stage_graph st req actor ?ops = Inr staged"
    by (auto simp: apply_atomic_def split: sum.splits)
  from stage_graphD [OF this] obtain gr au where
      fold: "rfold apply_operation (rs_actual_graph st, []) ?ops = Inr (gr, au)"
    and tasks: "g_tasks staged = g_tasks gr"
    by blast
  from fold obtain ts1 ts2 ts3 where
      e: "edit_edge True p (t_task_id n) (rs_tasks st @ [n]) = Inr ts1"
        "edit_edge False p s ts1 = Inr ts2" "edit_edge True (t_task_id n) s ts2 = Inr ts3"
    and gr: "g_tasks gr = ts3"
    by (auto simp: rbind_Inr_iff)
  have "edges_of n = {#}" using nd by (simp add: edges_of_def)
  then have "edge_mset ts3 + {#(p, s)#} = edge_mset (rs_tasks st) + {#(p, t_task_id n), (t_task_id n, s)#}"
    using edit_edge_add [OF e(1)] edit_edge_remove [OF e(2)] edit_edge_add [OF e(3)]
    by (simp add: add_mset_commute)
  moreover have "st' = commit_staged st staged"
    using run staged by (auto simp: apply_atomic_def Let_def commit_staged_def split: sum.splits prod.splits)
  then have "rs_tasks st' = snd (invalidate_ready ts3)"
    using tasks gr by (simp add: commit_staged_graph(1))
  moreover have "mutated req actor ?ops st st'"
    using mem.apply_atomic_cases [OF assms(1) run] by auto
  ultimately show ?thesis by (simp add: invalidate_ready_facts mutated_def)
qed

theorem insert_node_between_edges_witness:
  "\<exists>st' :: runtime_state. edge_mset (rs_tasks st') + {#(''B'', ''C'')#} = {#(''A'', ''B''), (''B'', ''C''), (''B'', ''N''), (''N'', ''C'')#}"
proof -
  let ?run = "insert_node_between (emit ev_event_id sample_supply) sample_request
      (sample_task ''N'' [] TS_CREATED) ''B'' ''C'' sample_actor (sample_state sample_chain, empty_store)"
  have "is_ok (fst ?run)" by code_simp
  then obtain g st' store' where run: "?run = (Inr g, (st', store'))"
    by (metis is_ok_iff prod.collapse)
  have "edge_mset sample_chain = {#(''A'', ''B''), (''B'', ''C'')#}"
    by (simp add: sample_chain_def sample_task_def edges_of_def)
  with insert_node_between_edges [OF store_inv_empty [OF inj_sample_supply] run] show ?thesis
    by (intro exI [of _ st']) (simp add: sample_stateI(2) [OF sample_chain_ok] sample_task_def)
qed

section \<open>Ready tasks\<close>

definition readiness_exact :: "task list \<Rightarrow> bool" where
  "readiness_exact ts \<longleftrightarrow> list_all (\<lambda>t.
     (t_status t = TS_READY \<longrightarrow> deps_completed ts t)
     \<and> (t_status t \<in> {TS_WAITING, TS_BLOCKED} \<longrightarrow> \<not> deps_completed ts t)) ts"

definition recomputed :: "task list \<Rightarrow> task \<Rightarrow> task" where
  "recomputed ts t =
     (if t_status t \<in> {TS_READY, TS_WAITING, TS_BLOCKED}
      then if deps_completed ts t then t\<lparr> t_status := TS_READY \<rparr>
           else if t_status t = TS_READY then t\<lparr> t_status := TS_WAITING \<rparr> else t
      else t)"

lemma recomputed_fields [simp]:
  "t_task_id (recomputed ts t) = t_task_id t" "t_dependencies (recomputed ts t) = t_dependencies t"
  "t_status (recomputed ts t) = TS_COMPLETED \<longleftrightarrow> t_status t = TS_COMPLETED"
  by (simp_all add: recomputed_def)

lemma completed_ids_recomputed: "completed_ids (map (recomputed ts) ts) = completed_ids ts"
  by (rule completed_ids_map) simp_all

lemma recompute_tasks:
  "rs_tasks (snd (recompute_ready_tasks st)) = map (recomputed (rs_tasks st)) (rs_tasks st)"
proof -
  define ts where "ts = rs_tasks st"
  have inv: "completed_ids (snd (invalidate_ready ts)) = completed_ids ts"
    unfolding invalidate_ready_def snd_conv by (rule completed_ids_map) (simp_all add: stale_ready_def)
  have dc: "deps_completed (snd (invalidate_ready ts)) = deps_completed ts"
    by (rule ext) (simp add: deps_completed_def inv)
  have "rs_tasks (snd (recompute_ready_tasks st)) = map (\<lambda>t. if t_status t \<in> {TS_WAITING, TS_BLOCKED}
      \<and> deps_completed ts t then t\<lparr> t_status := TS_READY \<rparr> else t) (snd (invalidate_ready ts))"
    by (simp add: recompute_ready_tasks_def invalidate_ready_state_def Let_def ts_def [symmetric] dc)
  also have "\<dots> = map (recomputed ts) ts"
    by (auto simp: invalidate_ready_def recomputed_def stale_ready_def deps_completed_def)
  finally show ?thesis by (simp add: ts_def)
qed

text \<open>
  \<open>recompute_ready_tasks\<close> makes readiness exact: afterwards every ready task has all its dependencies
  completed and no waiting or blocked task has; no task is added, removed or renamed, and the set of
  completed tasks is the same.
\<close>

theorem recompute_ready_exact:
  "readiness_exact (rs_tasks (snd (recompute_ready_tasks st)))
    \<and> task_ids (rs_tasks (snd (recompute_ready_tasks st))) = task_ids (rs_tasks st)
    \<and> completed_ids (rs_tasks (snd (recompute_ready_tasks st))) = completed_ids (rs_tasks st)"
proof -
  have "deps_completed (map (recomputed ts) ts) (recomputed ts t) = deps_completed ts t" for ts t
    by (simp add: deps_completed_def completed_ids_recomputed)
  then have "readiness_exact (map (recomputed ts) ts)" for ts
    by (simp add: readiness_exact_def list_all_iff) (auto simp: recomputed_def)
  then show ?thesis
    by (simp add: recompute_tasks completed_ids_recomputed map_keeps_ids)
qed

end
