(* ===== verification/Checkpoint.thy ===== *)
theory Checkpoint
  imports RuntimeStates
begin

text \<open>
  \<open>src/runtime/checkpoint.py\<close>: capturing a runtime state, validating and restoring a checkpoint, and the
  in-memory checkpoint store. The graph payload is what pydantic's \<open>model_dump(mode="json")\<close> returns
  and \<open>model_validate\<close> reads: the two are the parameters \<open>dump\<close> and \<open>load\<close> over a payload type, and
  \<open>codec\<close> is what the code relies on, that validating a dump yields the dumped graph when the graph
  meets the model's own constraints and raises otherwise.
\<close>

section \<open>Checkpoints\<close>

record 'p runtime_checkpoint =
  ck_created_at :: int
  ck_checkpoint_id :: string
  ck_run_id :: string
  ck_planned_graph_id :: string
  ck_actual_graph_id :: string
  ck_run_status :: run_status
  ck_task_states :: "(string \<times> task_status) list"
  ck_actual_graph_version :: int
  ck_actual_graph :: 'p
  ck_completed_output_refs :: "(string \<times> string list) list"
  ck_evidence_refs :: "string list"
  ck_workspace_refs :: "string list"
  ck_review_state :: json_object
  ck_proof_state :: json_object
  ck_cost :: pyfloat

definition codec :: "(actual_runtime_graph \<Rightarrow> 'p) \<Rightarrow> ('p \<Rightarrow> actual_runtime_graph option) \<Rightarrow> bool" where
  "codec dump load \<longleftrightarrow> (\<forall>g. load (dump g) = (if graph_model_valid g then Some g else None))"

definition validate_runtime_state_identity :: "runtime_state \<Rightarrow> exn + unit" where
  "validate_runtime_state_identity st =
     rbind (guard (g_run_id (rs_planned_graph st) = rs_run_id st)
       (RuntimeCheckpointIntegrityError Ckpt_planned_graph_other_run)) (\<lambda>_.
     rbind (guard (g_run_id (rs_actual_graph st) = rs_run_id st)
       (RuntimeCheckpointIntegrityError Ckpt_actual_graph_other_run)) (\<lambda>_.
     rbind (guard (list_all (\<lambda>t. t_run_id t = rs_run_id st) (g_tasks (rs_planned_graph st)))
       (RuntimeCheckpointIntegrityError Ckpt_planned_tasks_other_run)) (\<lambda>_.
     guard (list_all (\<lambda>t. t_run_id t = rs_run_id st) (rs_tasks st))
       (RuntimeCheckpointIntegrityError Ckpt_actual_tasks_other_run))))"

fun nonnegative_float :: "pyfloat \<Rightarrow> bool" where
  "nonnegative_float (Finite r) = (0 \<le> r)"
| "nonnegative_float PosInf = True"
| "nonnegative_float _ = False"

definition checkpoint_fields_valid :: "'p runtime_checkpoint \<Rightarrow> bool" where
  "checkpoint_fields_valid c \<longleftrightarrow> ck_planned_graph_id c \<noteq> [] \<and> ck_actual_graph_id c \<noteq> []
     \<and> 1 \<le> ck_actual_graph_version c \<and> nonnegative_float (ck_cost c)"

definition capture ::
    "(actual_runtime_graph \<Rightarrow> 'p) \<Rightarrow> int \<Rightarrow> string \<Rightarrow> runtime_state \<Rightarrow> exn + 'p runtime_checkpoint" where
  "capture dump now checkpoint_id st =
     rbind (validate_runtime_state_identity st) (\<lambda>_.
     let c = \<lparr> ck_created_at = now, ck_checkpoint_id = checkpoint_id, ck_run_id = rs_run_id st,
               ck_planned_graph_id = g_graph_id (rs_planned_graph st),
               ck_actual_graph_id = g_graph_id (rs_actual_graph st),
               ck_run_status = rs_run_status st, ck_task_states = task_states st,
               ck_actual_graph_version = g_version (rs_actual_graph st),
               ck_actual_graph = dump (rs_actual_graph st),
               ck_completed_output_refs = rs_completed_output_refs st,
               ck_evidence_refs = rs_evidence_refs st, ck_workspace_refs = rs_workspace_refs st,
               ck_review_state = rs_review_state st, ck_proof_state = rs_proof_state st,
               ck_cost = rs_cost st \<rparr>
     in rbind (guard (checkpoint_fields_valid c) (ValidationError ''RuntimeCheckpoint'')) (\<lambda>_. Inr c))"

definition graph_task_states :: "task list \<Rightarrow> (string \<times> task_status) list" where
  "graph_task_states ts = map (\<lambda>t. (t_task_id t, t_status t)) ts"

definition validate_payload_identity ::
    "('p \<Rightarrow> actual_runtime_graph option) \<Rightarrow> 'p runtime_checkpoint \<Rightarrow> exn + actual_runtime_graph" where
  "validate_payload_identity load c =
     (case load (ck_actual_graph c) of
        None \<Rightarrow> Inl (RuntimeCheckpointIntegrityError Ckpt_payload_malformed)
      | Some g \<Rightarrow>
          rbind (guard (g_run_id g = ck_run_id c)
            (RuntimeCheckpointIntegrityError Ckpt_actual_graph_other_run)) (\<lambda>_.
          rbind (guard (g_graph_id g = ck_actual_graph_id c)
            (RuntimeCheckpointIntegrityError Ckpt_actual_graph_identity)) (\<lambda>_.
          rbind (guard (g_version g = ck_actual_graph_version c)
            (RuntimeCheckpointIntegrityError Ckpt_version_mismatch)) (\<lambda>_.
          rbind (guard (list_all (\<lambda>t. t_run_id t = ck_run_id c) (g_tasks g))
            (RuntimeCheckpointIntegrityError Ckpt_actual_tasks_other_run)) (\<lambda>_.
          rbind (guard (dict_eq (graph_task_states (g_tasks g)) (ck_task_states c))
            (RuntimeCheckpointIntegrityError Ckpt_task_states_mismatch)) (\<lambda>_. Inr g))))))"

definition restore ::
    "('p \<Rightarrow> actual_runtime_graph option) \<Rightarrow> 'p runtime_checkpoint \<Rightarrow> planned_task_graph
       \<Rightarrow> exn + runtime_state" where
  "restore load c planned =
     rbind (guard (g_run_id planned = ck_run_id c)
       (RuntimeCheckpointIntegrityError Ckpt_planned_graph_other_run)) (\<lambda>_.
     rbind (guard (g_graph_id planned = ck_planned_graph_id c)
       (RuntimeCheckpointIntegrityError Ckpt_planned_graph_identity)) (\<lambda>_.
     rbind (guard (list_all (\<lambda>t. t_run_id t = ck_run_id c) (g_tasks planned))
       (RuntimeCheckpointIntegrityError Ckpt_planned_tasks_other_run)) (\<lambda>_.
     rbind (validate_payload_identity load c) (\<lambda>actual.
     Inr \<lparr> rs_run_id = ck_run_id c, rs_planned_graph = planned, rs_actual_graph = actual,
           rs_run_status = ck_run_status c, rs_completed_output_refs = ck_completed_output_refs c,
           rs_evidence_refs = ck_evidence_refs c, rs_workspace_refs = ck_workspace_refs c,
           rs_review_state = ck_review_state c, rs_proof_state = ck_proof_state c,
           rs_cost = ck_cost c \<rparr>))))"

section \<open>The in-memory store\<close>

type_synonym 'p checkpoint_map = "string \<Rightarrow> 'p runtime_checkpoint list"

definition save ::
    "('p \<Rightarrow> actual_runtime_graph option) \<Rightarrow> 'p runtime_checkpoint \<Rightarrow> (exn, 'p checkpoint_map, unit) eff" where
  "save load c m =
     (case validate_payload_identity load c of
        Inl e \<Rightarrow> (Inl e, m)
      | Inr _ \<Rightarrow>
          if ck_checkpoint_id c \<in> set (map ck_checkpoint_id (m (ck_run_id c)))
          then (Inl (ValueError ''duplicate checkpoint id''), m)
          else (Inr (), m(ck_run_id c := m (ck_run_id c) @ [c])))"

definition load_latest ::
    "('p \<Rightarrow> actual_runtime_graph option) \<Rightarrow> 'p checkpoint_map \<Rightarrow> string
       \<Rightarrow> exn + 'p runtime_checkpoint option" where
  "load_latest load m run_id =
     (if m run_id = [] then Inr None
      else let c = last (m run_id) in
        rbind (guard (ck_run_id c = run_id) (RuntimeCheckpointIntegrityError Ckpt_stored_other_run)) (\<lambda>_.
        rbind (validate_payload_identity load c) (\<lambda>_. Inr (Some c))))"

section \<open>The contract of a checkpoint store\<close>

text \<open>
  What recovery relies on: a saved checkpoint is the latest of its Run until the next save, a refused
  save changes nothing, and other Runs are not affected.
\<close>

locale checkpoint_store =
  fixes save_op :: "'p runtime_checkpoint \<Rightarrow> (exn, 'm, unit) eff"
    and load_op :: "'m \<Rightarrow> string \<Rightarrow> exn + 'p runtime_checkpoint option"
  assumes save_load: "save_op c m = (Inr (), m') \<Longrightarrow> load_op m' (ck_run_id c) = Inr (Some c)"
    and save_other: "save_op c m = (res, m') \<Longrightarrow> r \<noteq> ck_run_id c \<Longrightarrow> load_op m' r = load_op m r"
    and save_refused: "save_op c m = (Inl e, m') \<Longrightarrow> m' = m"
begin

text \<open>Saving several checkpoints of several Runs: the last one saved for a Run is the one loaded.\<close>

fun save_all :: "'p runtime_checkpoint list \<Rightarrow> (exn, 'm, unit) eff" where
  "save_all [] = eret ()"
| "save_all (c # cs) = ebind (save_op c) (\<lambda>_. save_all cs)"

lemma save_all_latest:
  "save_all cs m = (Inr (), m') \<Longrightarrow> c \<in> set cs \<Longrightarrow>
     load_op m' (ck_run_id c) = Inr (Some (last (filter (\<lambda>d. ck_run_id d = ck_run_id c) cs)))"
proof (induction cs arbitrary: m c)
  case Nil
  then show ?case by simp
next
  case (Cons d cs)
  from Cons.prems(1) obtain m1 where 1: "save_op d m = (Inr (), m1)" and 2: "save_all cs m1 = (Inr (), m')"
    by (auto simp: ebind_eq_Inr_iff)
  have other: "save_all cs m1 = (Inr (), m') \<Longrightarrow> \<forall>x \<in> set cs. ck_run_id x \<noteq> r \<Longrightarrow> load_op m' r = load_op m1 r"
    for r m1
    by (induction cs arbitrary: m1) (auto simp: ebind_eq_Inr_iff save_other)
  show ?case
  proof (cases "\<exists>x \<in> set cs. ck_run_id x = ck_run_id c")
    case True
    then obtain x where x: "x \<in> set cs" "ck_run_id x = ck_run_id c" by blast
    then have "filter (\<lambda>d. ck_run_id d = ck_run_id c) cs \<noteq> []" by (auto simp: filter_empty_conv)
    with Cons.IH [OF 2 x(1)] x(2) show ?thesis by auto
  next
    case False
    with Cons.prems(2) have "c = d" by auto
    moreover have "filter (\<lambda>x. ck_run_id x = ck_run_id d) cs = []"
      using False \<open>c = d\<close> by (auto simp: filter_empty_conv)
    moreover have "load_op m' (ck_run_id d) = load_op m1 (ck_run_id d)"
      using other [OF 2] False \<open>c = d\<close> by auto
    ultimately show ?thesis using save_load [OF 1] by simp
  qed
qed

end

interpretation memc: checkpoint_store "save load" "load_latest load" for load
proof unfold_locales
  fix c :: "'a runtime_checkpoint" and m m' :: "'a checkpoint_map"
  assume "save load c m = (Inr (), m')"
  then show "load_latest load m' (ck_run_id c) = Inr (Some c)"
    by (auto simp: save_def load_latest_def split: sum.splits if_splits)
qed (auto simp: save_def load_latest_def split: sum.splits if_splits)

section \<open>Round trips\<close>

lemma task_states_graph: "task_states st = graph_task_states (rs_tasks st)"
  by (simp add: task_states_def graph_task_states_def)

lemma capture_Inr_iff:
  "capture dump now cid st = Inr c \<Longrightarrow>
     validate_runtime_state_identity st = Inr () \<and> checkpoint_fields_valid c
     \<and> ck_run_id c = rs_run_id st \<and> ck_planned_graph_id c = g_graph_id (rs_planned_graph st)
     \<and> ck_actual_graph_id c = g_graph_id (rs_actual_graph st) \<and> ck_run_status c = rs_run_status st
     \<and> ck_task_states c = task_states st \<and> ck_actual_graph_version c = g_version (rs_actual_graph st)
     \<and> ck_actual_graph c = dump (rs_actual_graph st)
     \<and> ck_completed_output_refs c = rs_completed_output_refs st
     \<and> ck_evidence_refs c = rs_evidence_refs st \<and> ck_workspace_refs c = rs_workspace_refs st
     \<and> ck_review_state c = rs_review_state st \<and> ck_proof_state c = rs_proof_state st
     \<and> ck_cost c = rs_cost st \<and> ck_checkpoint_id c = cid"
  by (auto simp: capture_def rbind_Inr_iff Let_def)

lemma capture_identity:
  assumes "codec dump load" and "capture dump now cid st = Inr c" and "graph_model_valid (rs_actual_graph st)"
  shows "validate_payload_identity load c = Inr (rs_actual_graph st)"
  using assms capture_Inr_iff [OF assms(2)]
  by (simp add: validate_payload_identity_def codec_def validate_runtime_state_identity_def
      guard_bind_Inr_iff dict_eq_iff task_states_graph)

text \<open>
  C34. Checkpoints round trip through the store: when \<open>_checkpoint\<close> captures a state whose actual graph
  meets the graph model and saves it successfully, then loading the latest checkpoint of the Run and
  restoring it with the approved plan yields exactly the captured state, in every field.
\<close>

theorem checkpoint_roundtrip:
  assumes "codec dump load" and "graph_model_valid (rs_actual_graph st)"
    and "capture dump now cid st = Inr c" and "save load c m = (Inr (), m')"
  shows "rbind (load_latest load m' (rs_run_id st)) (\<lambda>found. case found of
      None \<Rightarrow> Inl (KeyError ''checkpoint'') | Some c' \<Rightarrow> restore load c' (rs_planned_graph st)) = Inr st"
proof -
  note cap = capture_Inr_iff [OF assms(3)]
  have "load_latest load m' (rs_run_id st) = Inr (Some c)"
    using memc.save_load [OF assms(4)] cap by simp
  moreover have "restore load c (rs_planned_graph st) = Inr st"
    using cap capture_identity [OF assms(1,3,2)]
    by (simp add: restore_def validate_runtime_state_identity_def guard_bind_Inr_iff)
  ultimately show ?thesis by simp
qed

definition valid_graph_option :: "actual_runtime_graph \<Rightarrow> actual_runtime_graph option" where
  "valid_graph_option g = (if graph_model_valid g then Some g else None)"

theorem checkpoint_roundtrip_witness:
  "\<exists>c m'. capture (\<lambda>g. g) 0 ''CHK-1'' (sample_state sample_chain) = Inr c
     \<and> save valid_graph_option c (\<lambda>_. []) = (Inr (), m')
     \<and> rbind (load_latest valid_graph_option m' ''R'') (\<lambda>found. case found of
          None \<Rightarrow> Inl (KeyError ''checkpoint'')
        | Some c' \<Rightarrow> restore valid_graph_option c' (sample_graph sample_chain)) = Inr (sample_state sample_chain)"
proof -
  have cod: "codec (\<lambda>g. g) valid_graph_option" by (simp add: codec_def valid_graph_option_def)
  have st: "graph_model_valid (rs_actual_graph (sample_state sample_chain))
      \<and> rs_run_id (sample_state sample_chain) = ''R''
      \<and> is_ok (capture (\<lambda>g. g) 0 ''CHK-1'' (sample_state sample_chain))"
    by code_simp
  have planned: "rs_planned_graph (sample_state sample_chain) = sample_graph sample_chain"
    using sample_stateI(3) [OF sample_chain_ok] by (simp add: create_state_Inr_iff)
  from st obtain c where c: "capture (\<lambda>g. g) 0 ''CHK-1'' (sample_state sample_chain) = Inr c"
    by (auto simp: is_ok_iff)
  have "validate_payload_identity valid_graph_option c = Inr (rs_actual_graph (sample_state sample_chain))"
    using capture_identity [OF cod c] st by simp
  then obtain m' where m': "save valid_graph_option c (\<lambda>_. []) = (Inr (), m')"
    by (auto simp: save_def)
  from checkpoint_roundtrip [OF cod _ c m'] st planned c m' show ?thesis by auto
qed

definition state_of_run :: "string \<Rightarrow> runtime_state \<Rightarrow> bool" where
  "state_of_run r st \<longleftrightarrow> rs_run_id st = r \<and> validate_runtime_state_identity st = Inr ()"

text \<open>
  Restoring is fail-closed: a state comes out of \<open>restore\<close> only when the plan, the graph payload and
  every task of both belong to the checkpoint's Run, the identities and the version recorded beside
  the payload match it, and the recorded task states are those of the graph.
\<close>

theorem restore_fail_closed:
  assumes "restore load c planned = Inr st"
  shows "state_of_run (ck_run_id c) st \<and> rs_planned_graph st = planned
    \<and> load (ck_actual_graph c) = Some (rs_actual_graph st)
    \<and> g_graph_id (rs_actual_graph st) = ck_actual_graph_id c
    \<and> g_version (rs_actual_graph st) = ck_actual_graph_version c
    \<and> dict_get (task_states st) = dict_get (ck_task_states c) \<and> rs_run_status st = ck_run_status c"
  using assms
  by (auto simp: restore_def validate_payload_identity_def rbind_Inr_iff dict_eq_iff
      task_states_graph state_of_run_def validate_runtime_state_identity_def split: option.splits)

theorem restore_fail_closed_witness:
  "\<exists>c st. restore valid_graph_option c (sample_graph sample_chain) = Inr st
     \<and> state_of_run ''R'' st"
proof -
  have cod: "codec (\<lambda>g. g) valid_graph_option" by (simp add: codec_def valid_graph_option_def)
  have "is_ok (rbind (capture (\<lambda>g. g) 0 ''CHK-1'' (sample_state sample_chain)) (\<lambda>c.
      rbind (guard (ck_run_id c = ''R'') TypeError) (\<lambda>_. restore valid_graph_option c (sample_graph sample_chain))))"
    by code_simp
  then obtain c st where "ck_run_id c = ''R''" and r: "restore valid_graph_option c (sample_graph sample_chain) = Inr st"
    by (auto simp: is_ok_iff rbind_Inr_iff guard_bind_Inr_iff)
  with restore_fail_closed [OF r] show ?thesis by auto
qed

end
