(* ===== verification/Scheduler.thy ===== *)
theory Scheduler
  imports RuntimeStates EventStore Checkpoint "HOL-Library.AList"
begin

text \<open>
  \<open>src/runtime/scheduler.py\<close>: the dependency scheduler. The event store is the parameter \<open>em_op\<close> (its
  \<open>emit\<close>), \<open>save_op\<close> captures and saves a checkpoint, \<open>diag\<close> is the diagnostic record of a failure, and
  the executor, which is user code, is \<open>ex\<close>. The world of the scheduler is the runtime state it
  mutates in place, the blocks it already reported, and the stores.

  A coroutine of \<open>_execute_task\<close> runs without interruption between two awaits of the executor:
  \<open>start_attempt\<close> and \<open>finish_attempt\<close> are these segments. \<open>wave_step\<close> interleaves the segments of all
  tasks of a wave, and the actions of executors, in any order; \<open>seq_gather\<close> is one schedule.
\<close>

section \<open>State and small effects\<close>

record retry_policy =
  rp_max_attempts :: int
  rp_backoff_seconds :: rat

definition retry_policy_valid :: "retry_policy \<Rightarrow> bool" where
  "retry_policy_valid p \<longleftrightarrow> 1 \<le> rp_max_attempts p \<and> 0 \<le> rp_backoff_seconds p"

datatype exec_outcome = Exec_result "string option" "string list" | Exec_error exn

record 'w sched =
  sc_state :: runtime_state
  sc_reported :: "string list"
  sc_world :: 'w

type_synonym 'w emit_op = "string \<Rightarrow> event_type \<Rightarrow> string option \<Rightarrow> json_object \<Rightarrow> timestamp option
  \<Rightarrow> (exn, 'w, runtime_event) eff"

type_synonym 'w save_op = "runtime_state \<Rightarrow> (exn, 'w, unit) eff"

definition emit_in :: "'w emit_op \<Rightarrow> event_type \<Rightarrow> string option \<Rightarrow> json_object \<Rightarrow> (exn, 'w sched, unit) eff" where
  "emit_in em_op et t p s =
     (case em_op (rs_run_id (sc_state s)) et t p None (sc_world s) of
        (Inl e, w) \<Rightarrow> (Inl e, s\<lparr> sc_world := w \<rparr>)
      | (Inr _, w) \<Rightarrow> (Inr (), s\<lparr> sc_world := w \<rparr>))"

definition save_in :: "'w save_op \<Rightarrow> (exn, 'w sched, unit) eff" where
  "save_in save_op s =
     (case save_op (sc_state s) (sc_world s) of (r, w) \<Rightarrow> (r, s\<lparr> sc_world := w \<rparr>))"

definition upd_state :: "(runtime_state \<Rightarrow> runtime_state) \<Rightarrow> (exn, 'w sched, unit) eff" where
  "upd_state f s = (Inr (), s\<lparr> sc_state := f (sc_state s) \<rparr>)"

definition set_run_status :: "run_status \<Rightarrow> (exn, 'w sched, unit) eff" where
  "set_run_status rs = upd_state (\<lambda>st. st\<lparr> rs_run_status := rs \<rparr>)"

text \<open>A mutation of the task \<open>state.task(task_id)\<close> returns.\<close>

definition upd_task_in :: "string \<Rightarrow> (task \<Rightarrow> task) \<Rightarrow> (exn, 'w sched, unit) eff" where
  "upd_task_in k f = upd_state (set_tasks (upd_task k f))"

definition task_in :: "string \<Rightarrow> (exn, 'w sched, task) eff" where
  "task_in k s = (state_task (sc_state s) k, s)"

definition transition_in :: "string \<Rightarrow> task_status \<Rightarrow> (exn, 'w sched, unit) eff" where
  "transition_in k target =
     ebind (task_in k) (\<lambda>t. case transition_task t target of
        Inl e \<Rightarrow> eraise e
      | Inr t' \<Rightarrow> upd_task_in k (\<lambda>_. t'))"

section \<open>Sweeps over the tasks\<close>

text \<open>
  \<open>for task in state.actual_graph.tasks\<close> with in-place mutations: what one iteration wrote the next
  ones read, and stays written when a later iteration raises.
\<close>

fun visit_all ::
    "(runtime_state \<Rightarrow> task \<Rightarrow> exn + task \<times> 'o list) \<Rightarrow> nat list \<Rightarrow> (exn, runtime_state, 'o list) eff" where
  "visit_all f [] st = (Inr [], st)"
| "visit_all f (i # is) st =
     (case f st (rs_tasks st ! i) of
        Inl e \<Rightarrow> (Inl e, st)
      | Inr (t', out) \<Rightarrow>
          (case visit_all f is (set_tasks (\<lambda>ts. ts[i := t']) st) of
             (Inl e, st') \<Rightarrow> (Inl e, st')
           | (Inr outs, st') \<Rightarrow> (Inr (out @ outs), st')))"

definition visit where "visit f st = visit_all f [0..<length (rs_tasks st)] st"

definition admit_visit :: "runtime_state \<Rightarrow> task \<Rightarrow> exn + task \<times> unit list" where
  "admit_visit st t =
     (if t_status t = TS_CREATED then rbind (transition_task t TS_WAITING) (\<lambda>t'. Inr (t', []))
      else Inr (t, []))"

definition promote_visit :: "runtime_state \<Rightarrow> task \<Rightarrow> exn + task \<times> string list" where
  "promote_visit st t =
     (if t_status t \<in> {TS_WAITING, TS_BLOCKED}
      then rbind (resolve_outputs st t) (\<lambda>(decision, _).
        if decision = RES_READY
        then rbind (transition_task t TS_READY) (\<lambda>t'. Inr (t', [t_task_id t]))
        else Inr (t, []))
      else Inr (t, []))"

definition block_visit :: "runtime_state \<Rightarrow> task \<Rightarrow> exn + task \<times> unit list" where
  "block_visit st t =
     rbind (resolve_outputs st t) (\<lambda>(decision, missing).
       if t_status t = TS_WAITING \<and> decision = RES_BLOCKED
       then rbind (transition_task t TS_BLOCKED) (\<lambda>t'.
         Inr (t'\<lparr> t_missing_output_dependencies := missing \<rparr>, [()]))
       else Inr (t, []))"

definition admit_created_tasks where "admit_created_tasks = visit admit_visit"

definition promote_ready_tasks where "promote_ready_tasks = visit promote_visit"

definition count_waiting :: "task list \<Rightarrow> nat" where
  "count_waiting ts = length (filter (\<lambda>t. t_status t = TS_WAITING) ts)"

lemma tasks_set_tasks [simp]: "rs_tasks (set_tasks f st) = f (rs_tasks st)"
  by (simp add: set_tasks_def)

lemma visit_all_length: "visit_all f is st = (r, st') \<Longrightarrow> length (rs_tasks st') = length (rs_tasks st)"
  by (induction f "is" st arbitrary: r rule: visit_all.induct)
    (auto split: sum.splits prod.splits)

lemma count_waiting_update:
  assumes "i < length ts"
  shows "count_waiting (ts[i := t']) + (if t_status (ts ! i) = TS_WAITING then 1 else 0)
    = count_waiting ts + (if t_status t' = TS_WAITING then 1 else 0)"
  using assms
proof (induction ts arbitrary: i)
  case Nil
  then show ?case by simp
next
  case (Cons t ts)
  show ?case
  proof (cases i)
    case 0
    then show ?thesis by (simp add: count_waiting_def)
  next
    case (Suc j)
    with Cons have "count_waiting (ts[j := t']) + (if t_status (ts ! j) = TS_WAITING then 1 else 0)
        = count_waiting ts + (if t_status t' = TS_WAITING then 1 else 0)" by simp
    with Suc show ?thesis by (simp add: count_waiting_def split: if_splits)
  qed
qed

lemma block_visit_count:
  assumes "block_visit st (rs_tasks st ! i) = Inr (t', out)" and "i < length (rs_tasks st)"
  shows "count_waiting ((rs_tasks st)[i := t']) + length out = count_waiting (rs_tasks st)"
  using assms count_waiting_update [OF assms(2), of t']
  by (auto simp: block_visit_def rbind_Inr_iff transition_task_Inr_iff split: if_splits)

lemma block_visits_count:
  assumes "visit_all block_visit is st = (Inr outs, st')" and "list_all (\<lambda>i. i < length (rs_tasks st)) is"
  shows "count_waiting (rs_tasks st') + length outs = count_waiting (rs_tasks st)"
  using assms
proof (induction block_visit "is" st arbitrary: outs rule: visit_all.induct)
  case (1 st)
  then show ?case by simp
next
  case (2 i "is" st)
  from "2.prems"(1) obtain t' out outs' where v: "block_visit st (rs_tasks st ! i) = Inr (t', out)"
    and rest: "visit_all block_visit is (set_tasks (\<lambda>ts. ts[i := t']) st) = (Inr outs', st')"
    and outs: "outs = out @ outs'"
    by (auto split: sum.splits prod.splits)
  have "count_waiting (rs_tasks st') + length outs' = count_waiting ((rs_tasks st)[i := t'])"
    using "2.hyps" [OF v _ rest] "2.prems"(2) by simp
  with block_visit_count [OF v] "2.prems"(2) outs show ?case by simp
qed

function block_failed_dependents :: "(exn, runtime_state, unit) eff" where
  "block_failed_dependents st =
     (case visit block_visit st of
        (Inl e, st') \<Rightarrow> (Inl e, st')
      | (Inr changed, st') \<Rightarrow> if changed = [] then (Inr (), st') else block_failed_dependents st')"
  by pat_completeness auto
termination
proof (relation "measure (\<lambda>st. count_waiting (rs_tasks st))", goal_cases)
  case 1
  then show ?case by simp
next
  case (2 st r st' changed)
  then have "visit_all block_visit [0..<length (rs_tasks st)] st = (Inr changed, st')"
    by (simp add: visit_def)
  from block_visits_count [OF this] 2 show ?case by (cases changed) (auto simp: list_all_iff)
qed

declare block_failed_dependents.simps [simp del]

section \<open>Executing one task\<close>

text \<open>\<open>getattr(error, "retryable", True)\<close>: the classes of the repository that set it to false.\<close>

fun retryable :: "exn \<Rightarrow> bool" where
  "retryable (ExecutorError _ r) = r"
| "retryable LocalOutputFailure = False"
| "retryable (EventReconciliationRequired _ _ _ _) = False"
| "retryable (CursorPreflightError _) = False"
| "retryable _ = True"

definition start_attempt :: "'w emit_op \<Rightarrow> string \<Rightarrow> int \<Rightarrow> (exn, 'w sched, unit) eff" where
  "start_attempt em_op k attempt =
     ebind (task_in k) (\<lambda>t.
     ebind (if t_status t \<noteq> TS_READY then transition_in k TS_READY else eret ()) (\<lambda>_.
     ebind (transition_in k TS_RUNNING) (\<lambda>_.
     ebind (upd_task_in k (\<lambda>t. t\<lparr> t_attempt_count := attempt \<rparr>)) (\<lambda>_.
     emit_in em_op TASK_STARTED (Some k) [(''attempt'', JInt attempt)]))))"

text \<open>\<open>True\<close>: the task is done. \<open>False\<close>: it goes into its next attempt.\<close>

definition finish_attempt ::
    "'w emit_op \<Rightarrow> (exn \<Rightarrow> task \<Rightarrow> int \<Rightarrow> json) \<Rightarrow> retry_policy \<Rightarrow> string \<Rightarrow> int \<Rightarrow> exec_outcome
       \<Rightarrow> (exn, 'w sched, bool) eff" where
  "finish_attempt em_op diag policy k attempt outcome =
     (case outcome of
        Exec_error e \<Rightarrow>
          if e = CancelledError
          then ebind (task_in k) (\<lambda>_.
            ebind (upd_task_in k (\<lambda>t. t\<lparr> t_status := TS_CANCELLED \<rparr>)) (\<lambda>_. eraise CancelledError))
          else ebind (task_in k) (\<lambda>t.
            if t_status t = TS_CAPABILITY_BUILD_FAILED
            then ebind (emit_in em_op TASK_FAILED (Some k)
                [(''attempt'', JInt attempt), (''failure_code'', JStr ''CAPABILITY_BUILD_FAILED''),
                 (''status'', JStr ''CAPABILITY_BUILD_FAILED''), (''retry_suppressed'', JBool True),
                 (''internal_diagnostic'', diag e t attempt)]) (\<lambda>_. eraise e)
            else if attempt < rp_max_attempts policy \<and> retryable e
            then ebind (transition_in k TS_READY) (\<lambda>_.
              ebind (emit_in em_op TASK_PROGRESS (Some k)
                [(''action'', JStr ''retry_scheduled''), (''attempt'', JInt attempt),
                 (''error_code'', JStr ''TASK_EXECUTION_FAILED''),
                 (''internal_diagnostic'', diag e t attempt)]) (\<lambda>_. eret False))
            else ebind (transition_in k TS_FAILED) (\<lambda>_.
              ebind (emit_in em_op TASK_FAILED (Some k)
                [(''attempt'', JInt attempt), (''failure_code'', JStr ''TASK_EXECUTION_FAILED''),
                 (''internal_diagnostic'', diag e t attempt)]) (\<lambda>_. eraise e)))
      | Exec_result result_ref output_refs \<Rightarrow>
          ebind (task_in k) (\<lambda>_.
          ebind (upd_task_in k (\<lambda>t. t\<lparr> t_result_ref := result_ref, t_progress := 1 \<rparr>)) (\<lambda>_.
          ebind (upd_state (\<lambda>st. st\<lparr> rs_completed_output_refs :=
              AList.update k output_refs (rs_completed_output_refs st) \<rparr>)) (\<lambda>_.
          ebind (transition_in k TS_COMPLETED) (\<lambda>_.
          ebind (emit_in em_op TASK_COMPLETED (Some k)
            [(''attempt'', JInt attempt),
             (''result_ref'', (case result_ref of None \<Rightarrow> JNull | Some r \<Rightarrow> JStr r))]) (\<lambda>_.
          eret True))))))"

text \<open>
  The attempts of one task without interruption: \<open>remaining\<close> counts the attempts the range still holds.
  \<open>Some e\<close>: the coroutine raised \<open>e\<close>.
\<close>

fun run_attempts ::
    "'w emit_op \<Rightarrow> (exn \<Rightarrow> task \<Rightarrow> int \<Rightarrow> json) \<Rightarrow> retry_policy
       \<Rightarrow> (string \<Rightarrow> int \<Rightarrow> 'w sched \<Rightarrow> exec_outcome \<times> 'w sched)
       \<Rightarrow> string \<Rightarrow> int \<Rightarrow> nat \<Rightarrow> 'w sched \<Rightarrow> exn option \<times> 'w sched" where
  "run_attempts em_op diag policy ex k attempt 0 s = (None, s)"
| "run_attempts em_op diag policy ex k attempt (Suc remaining) s =
     (case start_attempt em_op k attempt s of
        (Inl e, s1) \<Rightarrow> (Some e, s1)
      | (Inr _, s1) \<Rightarrow>
          (case ex k attempt s1 of (outcome, s2) \<Rightarrow>
             (case finish_attempt em_op diag policy k attempt outcome s2 of
                (Inl e, s3) \<Rightarrow> (Some e, s3)
              | (Inr done, s3) \<Rightarrow>
                  if done then (None, s3)
                  else run_attempts em_op diag policy ex k (attempt + 1) remaining s3)))"

definition execute_task where
  "execute_task em_op diag policy ex k s =
     run_attempts em_op diag policy ex k 1 (nat (rp_max_attempts policy)) s"

fun seq_gather where
  "seq_gather em_op diag policy ex [] s = ([], s)"
| "seq_gather em_op diag policy ex (k # ks) s =
     (case execute_task em_op diag policy ex k s of (r, s1) \<Rightarrow>
        (case seq_gather em_op diag policy ex ks s1 of (rs, s2) \<Rightarrow> (r # rs, s2)))"

section \<open>The main loop\<close>

definition lift_visit :: "(exn, runtime_state, 'o) eff \<Rightarrow> (exn, 'w sched, 'o) eff" where
  "lift_visit m s = (case m (sc_state s) of (r, st) \<Rightarrow> (r, s\<lparr> sc_state := st \<rparr>))"

definition finish_review :: "'w emit_op \<Rightarrow> 'w save_op \<Rightarrow> (exn, 'w sched, unit) eff" where
  "finish_review em_op save_op =
     ebind (set_run_status RS_REVIEW) (\<lambda>_.
     ebind (emit_in em_op RUN_STATUS_CHANGED None [(''status'', JStr (run_status_value RS_REVIEW))]) (\<lambda>_.
     save_in save_op))"

definition fail_deadlock :: "'w emit_op \<Rightarrow> 'w save_op \<Rightarrow> (exn, 'w sched, unit) eff" where
  "fail_deadlock em_op save_op =
     ebind (set_run_status RS_FAILED) (\<lambda>_.
     ebind (emit_in em_op RUN_FAILED None
       [(''status'', JStr (run_status_value RS_FAILED)), (''failure_stage'', JStr ''TASK_EXECUTION''),
        (''failure_code'', JStr ''TASK_EXECUTION_FAILED''),
        (''safe_message'', JStr (''No runnable tasks remain because a dependency failed ''
           @ ''or the graph could not progress.''))]) (\<lambda>_.
     ebind (save_in save_op) (\<lambda>_. eraise DependencyDeadlockError)))"

text \<open>Reporting the blocks that were not reported yet.\<close>

definition report_block :: "'w emit_op \<Rightarrow> task \<Rightarrow> (exn, 'w sched, unit) eff" where
  "report_block em_op t s =
     (if t_missing_output_dependencies t \<noteq> [] \<and> t_task_id t \<notin> set (sc_reported s)
      then ebind (emit_in em_op TASK_PROGRESS (Some (t_task_id t))
          [(''progress'', JFloat (Finite (t_progress t))),
           (''message_code'', JStr (''BLOCKED_BY_DEPENDENCY:''
              @ join_with '','' (t_missing_output_dependencies t)))])
        (\<lambda>_ s. (Inr (), s\<lparr> sc_reported := t_task_id t # sc_reported s \<rparr>)) s
      else (Inr (), s))"

definition report_blocks :: "'w emit_op \<Rightarrow> (exn, 'w sched, unit) eff" where
  "report_blocks em_op s = efold (report_block em_op) (rs_tasks (sc_state s)) s"

definition announce_ready :: "'w emit_op \<Rightarrow> string list \<Rightarrow> (exn, 'w sched, unit) eff" where
  "announce_ready em_op = efold (\<lambda>k. emit_in em_op TASK_READY (Some k) [])"

text \<open>One iteration up to the wave: \<open>None\<close> when the loop returned, the ready tasks otherwise.\<close>

definition loop_head :: "'w emit_op \<Rightarrow> 'w save_op \<Rightarrow> (exn, 'w sched, string list option) eff" where
  "loop_head em_op save_op =
     ebind (lift_visit admit_created_tasks) (\<lambda>_ s.
       if list_all (\<lambda>t. t_status t = TS_COMPLETED) (rs_tasks (sc_state s))
       then ebind (finish_review em_op save_op) (\<lambda>_. eret None) s
       else ebind (lift_visit block_failed_dependents) (\<lambda>_.
         ebind (report_blocks em_op) (\<lambda>_.
         ebind (lift_visit promote_ready_tasks) (\<lambda>ready.
         ebind (announce_ready em_op ready) (\<lambda>_ s.
           if ready \<noteq> [] then (Inr (Some ready), s)
           else if settled_for_review (sc_state s)
           then ebind (finish_review em_op save_op) (\<lambda>_. eret None) s
           else ebind (fail_deadlock em_op save_op) (\<lambda>_. eret None) s)))) s)"

text \<open>After the wave. A local output failure recorded on its task is not an error of the run.\<close>

definition local_failure :: "runtime_state \<Rightarrow> string \<Rightarrow> exn \<Rightarrow> exn + bool" where
  "local_failure st k e =
     (if e \<noteq> LocalOutputFailure then Inr False
      else rbind (state_task st k) (\<lambda>t. Inr (list_ex (\<lambda>x. oo_status x \<noteq> OS_COMPLETED) (t_output_outcomes t))))"

fun wave_errors :: "runtime_state \<Rightarrow> (string \<times> exn option) list \<Rightarrow> exn + exn list" where
  "wave_errors st [] = Inr []"
| "wave_errors st ((k, None) # rs) = wave_errors st rs"
| "wave_errors st ((k, Some e) # rs) =
     rbind (local_failure st k e) (\<lambda>loc.
     rbind (wave_errors st rs) (\<lambda>es. Inr (if loc then es else e # es)))"

definition loop_tail ::
    "'w emit_op \<Rightarrow> 'w save_op \<Rightarrow> (string \<times> exn option) list \<Rightarrow> (exn, 'w sched, unit) eff" where
  "loop_tail em_op save_op results =
     (if Some CancelledError \<in> set (map snd results) then eraise CancelledError
      else ebind (save_in save_op) (\<lambda>_ s.
        case wave_errors (sc_state s) results of
          Inl e \<Rightarrow> (Inl e, s)
        | Inr [] \<Rightarrow> (Inr (), s)
        | Inr (e # es) \<Rightarrow>
            ebind (lift_visit block_failed_dependents) (\<lambda>_.
            ebind (set_run_status RS_FAILED) (\<lambda>_ s.
              let generated = list_ex (\<lambda>t. t_status t = TS_CAPABILITY_BUILD_FAILED) (rs_tasks (sc_state s)) in
              ebind (emit_in em_op RUN_FAILED None
                [(''status'', JStr (run_status_value RS_FAILED)),
                 (''failure_stage'', JStr (if generated then ''GENERATED_CAPABILITY'' else ''TASK_EXECUTION'')),
                 (''failure_code'', JStr (if generated then ''GENERATED_CAPABILITY_FAILED''
                    else ''TASK_EXECUTION_FAILED''))]) (\<lambda>_.
              ebind (save_in save_op) (\<lambda>_. eraise (ExceptionGroup (e # es)))) s)) s))"

text \<open>
  \<open>gather\<close> runs a wave: it returns the exception of each task, if any, in the order of the tasks. The
  loop may run forever when executors keep adding tasks: \<open>fuel\<close> bounds the number of waves and \<open>None\<close>
  is a run that did not end within it.
\<close>

fun run_loop ::
    "'w emit_op \<Rightarrow> 'w save_op \<Rightarrow> (string list \<Rightarrow> 'w sched \<Rightarrow> exn option list \<times> 'w sched) \<Rightarrow> nat
       \<Rightarrow> 'w sched \<Rightarrow> ((exn + unit) \<times> 'w sched) option" where
  "run_loop em_op save_op gather 0 s = None"
| "run_loop em_op save_op gather (Suc fuel) s =
     (case loop_head em_op save_op s of
        (Inl e, s1) \<Rightarrow> Some (Inl e, s1)
      | (Inr None, s1) \<Rightarrow> Some (Inr (), s1)
      | (Inr (Some ready), s1) \<Rightarrow>
          (case gather ready s1 of (results, s2) \<Rightarrow>
             (case loop_tail em_op save_op (zip ready results) s2 of
                (Inl e, s3) \<Rightarrow> Some (Inl e, s3)
              | (Inr _, s3) \<Rightarrow> run_loop em_op save_op gather fuel s3)))"

definition cancel_task :: "task \<Rightarrow> task" where
  "cancel_task t =
     (if t_status t \<in> {TS_COMPLETED, TS_FAILED, TS_CAPABILITY_BUILD_FAILED, TS_CANCELLED} then t
      else t\<lparr> t_status := TS_CANCELLED \<rparr>)"

definition cancel_run :: "'w emit_op \<Rightarrow> 'w save_op \<Rightarrow> (exn, 'w sched, unit) eff" where
  "cancel_run em_op save_op =
     ebind (set_run_status RS_CANCELLED) (\<lambda>_.
     ebind (upd_state (set_tasks (map cancel_task))) (\<lambda>_.
     ebind (emit_in em_op RUN_FAILED None
       [(''status'', JStr (run_status_value RS_CANCELLED)), (''failure_stage'', JStr ''CANCELLATION''),
        (''failure_code'', JStr ''RUN_CANCELLED'')]) (\<lambda>_.
     ebind (save_in save_op) (\<lambda>_. eraise CancelledError))))"

definition execute ::
    "'w emit_op \<Rightarrow> 'w save_op \<Rightarrow> (string list \<Rightarrow> 'w sched \<Rightarrow> exn option list \<times> 'w sched) \<Rightarrow> nat
       \<Rightarrow> bool \<Rightarrow> 'w sched \<Rightarrow> ((exn + unit) \<times> 'w sched) option" where
  "execute em_op save_op gather fuel emit_run_started s =
     (case ebind (lift_visit admit_created_tasks) (\<lambda>_.
           ebind (set_run_status RS_RUNNING) (\<lambda>_ s.
           if emit_run_started
           then emit_in em_op RUN_STARTED None
             [(''actual_graph_version'', JInt (g_version (rs_actual_graph (sc_state s))))] s
           else (Inr (), s))) s of
        (Inl e, s1) \<Rightarrow> Some (Inl e, s1)
      | (Inr _, s1) \<Rightarrow>
          (case run_loop em_op save_op gather fuel s1 of
             None \<Rightarrow> None
           | Some (Inl e, s2) \<Rightarrow> Some (if e = CancelledError then cancel_run em_op save_op s2 else (Inl e, s2))
           | Some (Inr _, s2) \<Rightarrow> Some (Inr (), s2)))"

section \<open>Interleavings of a wave\<close>

datatype task_control = TC_start int | TC_running int | TC_done | TC_raised exn

record 'w wave =
  wv_sched :: "'w sched"
  wv_control :: "string \<Rightarrow> task_control option"

definition set_control :: "string \<Rightarrow> task_control \<Rightarrow> 'w wave \<Rightarrow> 'w wave" where
  "set_control k c w = w\<lparr> wv_control := (wv_control w)(k \<mapsto> c) \<rparr>"

definition start_wave :: "string list \<Rightarrow> 'w sched \<Rightarrow> 'w wave" where
  "start_wave ready s =
     \<lparr> wv_sched = s, wv_control = (\<lambda>k. if k \<in> set ready then Some (TC_start 1) else None) \<rparr>"

fun started_control :: "int \<Rightarrow> exn + unit \<Rightarrow> task_control" where
  "started_control n (Inl e) = TC_raised e"
| "started_control n (Inr _) = TC_running n"

fun finished_control :: "int \<Rightarrow> exn + bool \<Rightarrow> task_control" where
  "finished_control n (Inl e) = TC_raised e"
| "finished_control n (Inr done) = (if done then TC_done else TC_start (n + 1))"

text \<open>
  \<open>env\<close> is what executors do to the shared state while their tasks run: any action, at any moment
  between two segments.
\<close>

inductive wave_step for em_op diag policy env where
  wave_start: "wv_control w k = Some (TC_start n) \<Longrightarrow> n \<le> rp_max_attempts policy \<Longrightarrow>
    start_attempt em_op k n (wv_sched w) = (r, s') \<Longrightarrow>
    wave_step em_op diag policy env w (set_control k (started_control n r) (w\<lparr> wv_sched := s' \<rparr>))"
| wave_finish: "wv_control w k = Some (TC_running n) \<Longrightarrow>
    finish_attempt em_op diag policy k n outcome (wv_sched w) = (r, s') \<Longrightarrow>
    wave_step em_op diag policy env w (set_control k (finished_control n r) (w\<lparr> wv_sched := s' \<rparr>))"
| wave_env: "env (wv_sched w) s' \<Longrightarrow> wave_step em_op diag policy env w (w\<lparr> wv_sched := s' \<rparr>)"

inductive_cases wave_stepE: "wave_step em_op diag policy env w w'"

end
