(* ===== verification/SchedulerFacts.thy ===== *)
theory SchedulerFacts
  imports Scheduler GraphFacts
begin

text \<open>
  How a scheduled run ends: a normal return, a deadlock, a cancellation; and what the sweeps over the
  tasks leave behind.
\<close>

section \<open>Small effects\<close>

lemma emit_in_state:
  "emit_in em_op et t p s = (r, s') \<Longrightarrow> sc_state s' = sc_state s \<and> sc_reported s' = sc_reported s"
  by (auto simp: emit_in_def split: prod.splits sum.splits)

lemma save_in_state:
  "save_in save_op s = (r, s') \<Longrightarrow> sc_state s' = sc_state s \<and> sc_reported s' = sc_reported s"
  by (auto simp: save_in_def split: prod.splits)

lemma ebind_cases:
  assumes "ebind m f w = (r, w'')"
  obtains (raised) e where "m w = (Inl e, w'')" and "r = Inl e"
  | (ok) x w' where "m w = (Inr x, w')" and "f x w' = (r, w'')"
  using assms by (auto simp: ebind_def split: prod.splits sum.splits)

lemma set_run_status_apply [simp]:
  "set_run_status rs s = (Inr (), s\<lparr> sc_state := (sc_state s)\<lparr> rs_run_status := rs \<rparr> \<rparr>)"
  by (simp add: set_run_status_def upd_state_def)

lemma upd_state_apply [simp]: "upd_state f s = (Inr (), s\<lparr> sc_state := f (sc_state s) \<rparr>)"
  by (simp add: upd_state_def)

lemma ebind_eret_Inr_iff: "ebind m (\<lambda>_. eret y) w = (Inr z, w') \<longleftrightarrow> z = y \<and> (\<exists>x. m w = (Inr x, w'))"
  by (auto simp: ebind_eq_Inr_iff)

section \<open>The sweeps\<close>

lemma block_visit_quiet:
  "block_visit st t = Inr (t', []) \<Longrightarrow> t' = t \<and>
     (\<exists>decision missing. resolve_outputs st t = Inr (decision, missing)
        \<and> \<not> (t_status t = TS_WAITING \<and> decision = RES_BLOCKED))"
  by (auto simp: block_visit_def rbind_Inr_iff split: if_splits)

lemma block_visits_quiet:
  "visit_all block_visit is st = (Inr [], st') \<Longrightarrow> list_all (\<lambda>i. i < length (rs_tasks st)) is \<Longrightarrow>
     st' = st \<and> list_all (\<lambda>i. \<exists>decision missing. resolve_outputs st (rs_tasks st ! i) = Inr (decision, missing)
        \<and> \<not> (t_status (rs_tasks st ! i) = TS_WAITING \<and> decision = RES_BLOCKED)) is"
proof (induction block_visit "is" st rule: visit_all.induct)
  case (1 st)
  then show ?case by simp
next
  case (2 i "is" st)
  from "2.prems"(1) obtain t' where v: "block_visit st (rs_tasks st ! i) = Inr (t', [])"
    and rest: "visit_all block_visit is (set_tasks (\<lambda>ts. ts[i := t']) st) = (Inr [], st')"
    by (auto split: sum.splits prod.splits)
  have "t' = rs_tasks st ! i" using block_visit_quiet [OF v] by simp
  then have same: "set_tasks (\<lambda>ts. ts[i := t']) st = st" by (simp add: set_tasks_def)
  have "list_all (\<lambda>i. i < length (rs_tasks st)) is" using "2.prems"(2) by simp
  with "2.hyps" [OF v refl] rest same block_visit_quiet [OF v] show ?case by simp
qed

text \<open>
  Where \<open>_block_failed_dependents\<close> stops: every task resolves and no waiting task is to be blocked.
\<close>

definition no_blocked_waiting :: "runtime_state \<Rightarrow> bool" where
  "no_blocked_waiting st \<longleftrightarrow> list_all (\<lambda>t. \<exists>decision missing.
     resolve_outputs st t = Inr (decision, missing)
     \<and> \<not> (t_status t = TS_WAITING \<and> decision = RES_BLOCKED)) (rs_tasks st)"

lemma block_fixpoint: "block_failed_dependents st = (Inr (), st') \<Longrightarrow> no_blocked_waiting st'"
proof (induction st rule: block_failed_dependents.induct)
  case (1 st)
  from "1.prems" obtain changed st1 where v: "visit block_visit st = (Inr changed, st1)"
    and c: "changed = [] \<and> st' = st1 \<or> changed \<noteq> [] \<and> block_failed_dependents st1 = (Inr (), st')"
    by (auto simp: block_failed_dependents.simps [of st] split: prod.splits sum.splits if_splits)
  show ?case
  proof (cases "changed = []")
    case True
    with v c have "visit_all block_visit [0..<length (rs_tasks st)] st = (Inr [], st')"
      by (simp add: visit_def)
    from block_visits_quiet [OF this] show ?thesis
      by (auto simp: no_blocked_waiting_def list_all_length list_all_iff)
  next
    case False
    with "1.IH" [OF v [symmetric] refl] c show ?thesis by blast
  qed
qed

section \<open>How a run ends\<close>

lemma finish_review_state:
  assumes "finish_review em_op save_op s = (Inr u, s')"
  shows "sc_state s' = (sc_state s)\<lparr> rs_run_status := RS_REVIEW \<rparr>"
  using assms emit_in_state save_in_state
  by (fastforce simp: finish_review_def ebind_eq_Inr_iff)

definition reviewable :: "runtime_state \<Rightarrow> bool" where
  "reviewable st \<longleftrightarrow> list_all (\<lambda>t. t_status t = TS_COMPLETED) (rs_tasks st) \<or> settled_for_review st"

lemma reviewable_status [simp]: "reviewable (st\<lparr> rs_run_status := rs \<rparr>) = reviewable st"
  by (simp add: reviewable_def settled_for_review_def)

lemma fail_deadlock_not_Inr: "fail_deadlock em_op save_op s \<noteq> (Inr u, s')"
  by (auto simp: fail_deadlock_def ebind_eq_Inr_iff)

lemma loop_head_None:
  assumes "loop_head em_op save_op s = (Inr None, s')"
  shows "rs_run_status (sc_state s') = RS_REVIEW \<and> reviewable (sc_state s')"
proof -
  from assms have "\<exists>s1 u. finish_review em_op save_op s1 = (Inr u, s') \<and> reviewable (sc_state s1)"
    unfolding loop_head_def reviewable_def
    by (fastforce simp: ebind_eq_Inr_iff fail_deadlock_not_Inr split: if_splits)
  then show ?thesis using finish_review_state by fastforce
qed

lemma run_loop_returns:
  "run_loop em_op save_op gather fuel s = Some (Inr (), s') \<Longrightarrow>
     rs_run_status (sc_state s') = RS_REVIEW \<and> reviewable (sc_state s')"
proof (induction fuel arbitrary: s)
  case 0
  then show ?case by simp
next
  case (Suc fuel)
  then show ?case
    using loop_head_None [of em_op save_op s s']
    by (auto split: prod.splits sum.splits option.splits)
qed

section \<open>The in-memory world\<close>

text \<open>
  A store of events together with a checkpoint store whose saves leave the events alone. The instance
  is the pair of in-memory stores; \<open>mw_draws\<close> counts the \<open>uuid4\<close> draws for checkpoint identifiers.
\<close>

locale run_store = runtime_event_store +
  fixes save_op :: "'a save_op"
  assumes save_keeps: "inv w \<Longrightarrow> save_op st w = (r, w') \<Longrightarrow> inv w' \<and> events w' = events w"

record 'p mem_world =
  mw_events :: event_store
  mw_checkpoints :: "'p checkpoint_map"
  mw_draws :: nat

definition mem_emit :: "(runtime_event \<Rightarrow> string) \<Rightarrow> fresh_supply \<Rightarrow> 'p mem_world emit_op" where
  "mem_emit fp fs r et t p ts w =
     (case emit fp fs r et t p ts (mw_events w) of (res, st) \<Rightarrow> (res, w\<lparr> mw_events := st \<rparr>))"

definition mem_save ::
    "(actual_runtime_graph \<Rightarrow> 'p) \<Rightarrow> ('p \<Rightarrow> actual_runtime_graph option) \<Rightarrow> fresh_supply
       \<Rightarrow> 'p mem_world save_op" where
  "mem_save dump load fs st w =
     (let w1 = w\<lparr> mw_draws := Suc (mw_draws w) \<rparr> in
      case capture dump (ts_instant (sp_now fs (mw_draws w))) (''CHK-'' @ sp_uuid fs (mw_draws w)) st of
        Inl e \<Rightarrow> (Inl e, w1)
      | Inr c \<Rightarrow> (case save load c (mw_checkpoints w1) of (r, m) \<Rightarrow> (r, w1\<lparr> mw_checkpoints := m \<rparr>)))"

interpretation memw: run_store "mem_emit fp fs" "\<lambda>w. es_events (mw_events w)"
  "\<lambda>w. store_inv fs (mw_events w)" "mem_save dump load cs" for fp fs dump load cs
proof unfold_locales
  fix w w' :: "'a mem_world" and r et t p ts ev e st res
  show "store_inv fs (mw_events w')
      \<and> es_events (mw_events w') = (es_events (mw_events w))(r := es_events (mw_events w) r @ [ev])
      \<and> ev_type ev = et \<and> ev_task_id ev = t \<and> ev_payload ev = p"
    if "store_inv fs (mw_events w)" "mem_emit fp fs r et t p ts w = (Inr ev, w')"
    using that emit_InrD [OF that(1)] by (auto simp: mem_emit_def split: prod.splits)
  show "store_inv fs (mw_events w') \<and> es_events (mw_events w') = es_events (mw_events w)"
    if "store_inv fs (mw_events w)" "mem_emit fp fs r et t p ts w = (Inl e, w')"
    using that emit_InlD [OF that(1)] by (auto simp: mem_emit_def split: prod.splits)
  show "log_ok r (es_events (mw_events w) r)" if "store_inv fs (mw_events w)"
    using that by (simp add: store_inv_def)
  show "store_inv fs (mw_events w') \<and> es_events (mw_events w') = es_events (mw_events w)"
    if "store_inv fs (mw_events w)" "mem_save dump load cs st w = (res, w')"
    using that by (auto simp: mem_save_def Let_def split: sum.splits prod.splits)
qed

context run_store
begin

lemma emit_in_extends:
  assumes "inv (sc_world s)" and "emit_in emit et t p s = (r, s')"
  shows "sc_state s' = sc_state s \<and>
    ((r = Inr () \<and> extends (rs_run_id (sc_state s)) (sc_world s) (sc_world s') [(et, t, p)])
     \<or> (\<exists>e. r = Inl e \<and> extends (rs_run_id (sc_state s)) (sc_world s) (sc_world s') []))"
proof -
  obtain u w where u: "emit (rs_run_id (sc_state s)) et t p None (sc_world s) = (u, w)" by fastforce
  from emit_extends [OF assms(1) u] assms(2) u show ?thesis
    by (cases u) (auto simp: emit_in_def)
qed

lemma save_in_extends:
  assumes "inv (sc_world s)" and "save_in save_op s = (r, s')"
  shows "sc_state s' = sc_state s \<and> extends (rs_run_id (sc_state s)) (sc_world s) (sc_world s') []"
proof -
  obtain u w where u: "save_op (sc_state s) (sc_world s) = (u, w)" by fastforce
  with assms(2) save_keeps [OF assms(1) u] show ?thesis by (auto simp: save_in_def extends_def)
qed

text \<open>A deadlocked run has status \<open>FAILED\<close> and its log ends with \<open>RUN_FAILED\<close>.\<close>

lemma fail_deadlock_log:
  assumes "inv (sc_world s)" and "fail_deadlock emit save_op s = (Inl DependencyDeadlockError, s')"
    and "\<And>r et t p ts w w'. emit r et t p ts w \<noteq> (Inl DependencyDeadlockError, w')"
    and "\<And>st w w'. save_op st w \<noteq> (Inl DependencyDeadlockError, w')"
  shows "rs_run_status (sc_state s') = RS_FAILED
    \<and> (\<exists>ev. events (sc_world s') (rs_run_id (sc_state s)) = events (sc_world s) (rs_run_id (sc_state s)) @ [ev]
         \<and> ev_type ev = RUN_FAILED)"
proof -
  let ?s0 = "s\<lparr> sc_state := (sc_state s)\<lparr> rs_run_status := RS_FAILED \<rparr> \<rparr>"
  have ne: "emit_in emit et t p x \<noteq> (Inl DependencyDeadlockError, y)" for et t p x y
    using assms(3) by (auto simp: emit_in_def split: prod.splits sum.splits)
  have ns: "save_in save_op x \<noteq> (Inl DependencyDeadlockError, y)" for x y
    using assms(4) by (auto simp: save_in_def split: prod.splits)
  from assms(2) ne ns obtain p s1 u where e: "emit_in emit RUN_FAILED None p ?s0 = (Inr (), s1)"
    and sv: "save_in save_op s1 = (Inr u, s')"
    by (auto simp: fail_deadlock_def elim!: ebind_cases)
  from emit_in_extends [OF _ e] assms(1) have 1: "sc_state s1 = sc_state ?s0"
      "extends (rs_run_id (sc_state s)) (sc_world s) (sc_world s1) [(RUN_FAILED, None, p)]" by auto
  from save_in_extends [OF extends_inv [OF 1(2)] sv] 1 have
    "sc_state s' = sc_state ?s0" "events (sc_world s') = events (sc_world s1)"
    by (auto simp: extends_def)
  with 1(2) show ?thesis by (auto simp: extends_def emission_of_def)
qed

end

end
