(* ===== verification/WaveFacts.thy ===== *)
theory WaveFacts
  imports SchedulerFacts
begin

text \<open>
  A wave under any interleaving of its tasks and of what executors do in between: the events of each
  task are those of a bounded sequence of attempts.
\<close>

section \<open>The marks of a task in the log\<close>

type_synonym mark = "event_type \<times> json option"

definition lifecycle_types :: "event_type list" where
  "lifecycle_types = [TASK_STARTED, TASK_PROGRESS, TASK_COMPLETED, TASK_FAILED]"

text \<open>
  The scheduler's own events of a task carry the number of the attempt; progress that an executor
  reports does not.
\<close>

definition marks :: "string \<Rightarrow> runtime_event list \<Rightarrow> mark list" where
  "marks k evs = map (\<lambda>ev. (ev_type ev, map_of (ev_payload ev) ''attempt''))
     (filter (\<lambda>ev. ev_task_id ev = Some k \<and> ev_type ev \<in> set lifecycle_types
        \<and> map_of (ev_payload ev) ''attempt'' \<noteq> None) evs)"

definition em_marks :: "string \<Rightarrow> emission list \<Rightarrow> mark list" where
  "em_marks k ems = map (\<lambda>(et, t, p). (et, map_of p ''attempt''))
     (filter (\<lambda>(et, t, p). t = Some k \<and> et \<in> set lifecycle_types \<and> map_of p ''attempt'' \<noteq> None) ems)"

lemma marks_append [simp]: "marks k (a @ b) = marks k a @ marks k b"
  by (simp add: marks_def)

lemma marks_emissions: "marks k evs = em_marks k (map emission_of evs)"
  by (simp add: marks_def em_marks_def filter_map comp_def emission_of_def)

text \<open>Attempts that were retried, then one in each stage.\<close>

definition retries :: "int \<Rightarrow> mark list" where
  "retries n = concat (map (\<lambda>i. [(TASK_STARTED, Some (JInt (int i))), (TASK_PROGRESS, Some (JInt (int i)))])
     [1..<nat n])"

lemma retries_one [simp]: "retries 1 = []"
  by (simp add: retries_def)

lemma retries_next: "1 \<le> n \<Longrightarrow> retries (n + 1) =
    retries n @ [(TASK_STARTED, Some (JInt n)), (TASK_PROGRESS, Some (JInt n))]"
proof -
  assume "1 \<le> n"
  then have "[1..<nat (n + 1)] = [1..<nat n] @ [nat n]" by (simp add: nat_add_distrib)
  with \<open>1 \<le> n\<close> show ?thesis by (simp add: retries_def)
qed

fun trace_ok :: "retry_policy \<Rightarrow> task_control \<Rightarrow> mark list \<Rightarrow> bool" where
  "trace_ok policy (TC_start n) tr \<longleftrightarrow> 1 \<le> n \<and> n \<le> rp_max_attempts policy \<and> tr = retries n"
| "trace_ok policy (TC_running n) tr \<longleftrightarrow> 1 \<le> n \<and> n \<le> rp_max_attempts policy
     \<and> tr = retries n @ [(TASK_STARTED, Some (JInt n))]"
| "trace_ok policy TC_done tr \<longleftrightarrow> (\<exists>n. 1 \<le> n \<and> n \<le> rp_max_attempts policy
     \<and> tr = retries n @ [(TASK_STARTED, Some (JInt n)), (TASK_COMPLETED, Some (JInt n))])"
| "trace_ok policy (TC_raised e) tr \<longleftrightarrow> (\<exists>n. 1 \<le> n \<and> n \<le> rp_max_attempts policy
     \<and> tr \<in> {retries n, retries n @ [(TASK_STARTED, Some (JInt n))],
              retries n @ [(TASK_STARTED, Some (JInt n)), (TASK_FAILED, Some (JInt n))]})"

text \<open>
  What a wave relies on of the executors: they keep the store's invariant and the Run, only append to
  its log, and do not write attempt events of the tasks of the wave.
\<close>

definition quiet_env ::
    "('w \<Rightarrow> bool) \<Rightarrow> ('w \<Rightarrow> string \<Rightarrow> runtime_event list) \<Rightarrow> string set
       \<Rightarrow> ('w sched \<Rightarrow> 'w sched \<Rightarrow> bool) \<Rightarrow> bool" where
  "quiet_env inv_op log_op K env \<longleftrightarrow> (\<forall>s s'. env s s' \<longrightarrow> inv_op (sc_world s) \<longrightarrow>
     inv_op (sc_world s') \<and> rs_run_id (sc_state s') = rs_run_id (sc_state s)
     \<and> (\<exists>evs. log_op (sc_world s') (rs_run_id (sc_state s)) = log_op (sc_world s) (rs_run_id (sc_state s)) @ evs
          \<and> (\<forall>k \<in> K. marks k evs = [])))"

section \<open>A logic of emissions\<close>

text \<open>
  \<open>emits m Q\<close>: whatever \<open>m\<close> does, it keeps the invariant of the store and the identity of the Run, only
  appends to the log of the Run, and its result and the appended emissions satisfy \<open>Q\<close>.
\<close>

definition quiet :: "(exn, 'w sched, 'a) eff \<Rightarrow> bool" where
  "quiet m \<longleftrightarrow> (\<forall>s r s'. m s = (r, s') \<longrightarrow>
     sc_world s' = sc_world s \<and> rs_run_id (sc_state s') = rs_run_id (sc_state s))"

lemma quietI:
  "(\<And>s r s'. m s = (r, s') \<Longrightarrow> sc_world s' = sc_world s \<and> rs_run_id (sc_state s') = rs_run_id (sc_state s))
     \<Longrightarrow> quiet m"
  by (simp add: quiet_def)

lemma quiet_ebind: "quiet m \<Longrightarrow> (\<And>x. quiet (f x)) \<Longrightarrow> quiet (ebind m f)"
  unfolding quiet_def by (force elim!: ebind_cases)

lemma run_id_set_tasks [simp]: "rs_run_id (set_tasks f st) = rs_run_id st"
  by (simp add: set_tasks_def)

lemma quiet_upd_state: "(\<And>st. rs_run_id (f st) = rs_run_id st) \<Longrightarrow> quiet (upd_state f)"
  by (auto intro!: quietI)

lemma quiet_prims [intro]:
  "quiet (eret x)" "quiet (eraise e)" "quiet (task_in k)" "quiet (upd_task_in k g)"
  "quiet (set_run_status rs)"
  by (auto intro!: quietI simp: task_in_def upd_task_in_def)

lemma quiet_transition [intro]: "quiet (transition_in k target)"
  unfolding transition_in_def
  by (intro quiet_ebind quiet_prims) (auto split: sum.splits)

context run_store
begin

definition emits :: "(exn, 'a sched, 'r) eff \<Rightarrow> (exn + 'r \<Rightarrow> emission list \<Rightarrow> bool) \<Rightarrow> bool" where
  "emits m Q \<longleftrightarrow> (\<forall>s r s'. inv (sc_world s) \<longrightarrow> m s = (r, s') \<longrightarrow>
     rs_run_id (sc_state s') = rs_run_id (sc_state s)
     \<and> (\<exists>ems. extends (rs_run_id (sc_state s)) (sc_world s) (sc_world s') ems \<and> Q r ems))"

lemma emitsD:
  assumes "emits m Q" and "inv (sc_world s)" and "m s = (r, s')"
  obtains ems where "rs_run_id (sc_state s') = rs_run_id (sc_state s)"
    and "extends (rs_run_id (sc_state s)) (sc_world s) (sc_world s') ems" and "Q r ems"
  using assms unfolding emits_def by blast

lemma emits_quiet:
  assumes "quiet m" and "\<And>r. Q r []"
  shows "emits m Q"
  unfolding emits_def
proof (intro allI impI)
  fix s r s' assume "inv (sc_world s)" "m s = (r, s')"
  with assms(1) have "sc_world s' = sc_world s" "rs_run_id (sc_state s') = rs_run_id (sc_state s)"
    by (auto simp: quiet_def)
  with extends_refl [OF \<open>inv (sc_world s)\<close>] assms(2) show "rs_run_id (sc_state s') = rs_run_id (sc_state s)
     \<and> (\<exists>ems. extends (rs_run_id (sc_state s)) (sc_world s) (sc_world s') ems \<and> Q r ems)" by auto
qed

lemma emits_eret: "Q (Inr x) [] \<Longrightarrow> emits (eret x) Q"
  by (auto simp: emits_def)

lemma emits_eraise: "Q (Inl e) [] \<Longrightarrow> emits (eraise e) Q"
  by (auto simp: emits_def)

lemma emits_emit_in:
  assumes "Q (Inr ()) [(et, t, p)]" and "\<And>e. Q (Inl e) []"
  shows "emits (emit_in emit et t p) Q"
  unfolding emits_def
proof (intro allI impI)
  fix s r s' assume inv: "inv (sc_world s)" and run: "emit_in emit et t p s = (r, s')"
  from emit_in_extends [OF inv run] have id: "rs_run_id (sc_state s') = rs_run_id (sc_state s)" and
    c: "(r = Inr () \<and> extends (rs_run_id (sc_state s)) (sc_world s) (sc_world s') [(et, t, p)])
      \<or> (\<exists>e. r = Inl e \<and> extends (rs_run_id (sc_state s)) (sc_world s) (sc_world s') [])"
    by simp_all
  from c show "rs_run_id (sc_state s') = rs_run_id (sc_state s)
     \<and> (\<exists>ems. extends (rs_run_id (sc_state s)) (sc_world s) (sc_world s') ems \<and> Q r ems)"
    using assms id by (elim disjE exE conjE) blast+
qed

lemma emits_save_in: "(\<And>r. Q r []) \<Longrightarrow> emits (save_in save_op) Q"
  unfolding emits_def
proof (intro allI impI)
  fix s r s' assume q: "\<And>r. Q r []" and inv: "inv (sc_world s)" and run: "save_in save_op s = (r, s')"
  from save_in_extends [OF inv run] q show "rs_run_id (sc_state s') = rs_run_id (sc_state s)
     \<and> (\<exists>ems. extends (rs_run_id (sc_state s)) (sc_world s) (sc_world s') ems \<and> Q r ems)"
    by (metis (no_types))
qed

lemma emits_ebind:
  assumes m: "emits m P" and e: "\<And>e ems. P (Inl e) ems \<Longrightarrow> Q (Inl e) ems"
    and f: "\<And>x ems. P (Inr x) ems \<Longrightarrow> emits (f x) (\<lambda>r ems'. Q r (ems @ ems'))"
  shows "emits (ebind m f) Q"
  unfolding emits_def
proof (intro allI impI)
  fix s r s2 assume inv: "inv (sc_world s)" and run: "ebind m f s = (r, s2)"
  let ?g = "rs_run_id (sc_state s2) = rs_run_id (sc_state s)
    \<and> (\<exists>ems. extends (rs_run_id (sc_state s)) (sc_world s) (sc_world s2) ems \<and> Q r ems)"
  from run show ?g
  proof (cases rule: ebind_cases)
    case (raised x)
    from emitsD [OF m inv raised(1)] show ?g using e raised(2) by metis
  next
    case (ok x s1)
    from emitsD [OF m inv ok(1)] obtain ems where 1: "rs_run_id (sc_state s1) = rs_run_id (sc_state s)"
      "extends (rs_run_id (sc_state s)) (sc_world s) (sc_world s1) ems" "P (Inr x) ems" .
    from emitsD [OF f [OF 1(3)] extends_inv [OF 1(2)] ok(2)] obtain ems' where
      "rs_run_id (sc_state s2) = rs_run_id (sc_state s1)"
      "extends (rs_run_id (sc_state s1)) (sc_world s1) (sc_world s2) ems'" "Q r (ems @ ems')" .
    with 1 extends_trans [OF 1(2)] show ?g by metis
  qed
qed

lemma emits_quiet_bind:
  assumes "quiet m" and "\<And>e. Q (Inl e) []" and "\<And>x. emits (f x) Q"
  shows "emits (ebind m f) Q"
  by (rule emits_ebind [where P = "\<lambda>r ems. ems = []"]) (use assms in \<open>auto intro: emits_quiet\<close>)

lemma emits_emit_bind:
  assumes "\<And>e. Q (Inl e) []" and "emits f (\<lambda>r ems. Q r ((et, t, p) # ems))"
  shows "emits (ebind (emit_in emit et t p) (\<lambda>_. f)) Q"
  by (rule emits_ebind [where P = "\<lambda>r ems. ems = (if r = Inr () then [(et, t, p)] else [])"])
    (use assms in \<open>auto intro!: emits_emit_in\<close>)

section \<open>Segments\<close>

lemma start_attempt_emits:
  "emits (start_attempt emit k n) (\<lambda>r ems.
     ems = (if r = Inr () then [(TASK_STARTED, Some k, [(''attempt'', JInt n)])] else []))"
  unfolding start_attempt_def
  by (intro emits_quiet_bind quiet_prims quiet_transition emits_emit_in) auto

definition finish_emissions :: "retry_policy \<Rightarrow> string \<Rightarrow> int \<Rightarrow> exn + bool \<Rightarrow> emission list \<Rightarrow> bool" where
  "finish_emissions policy k n r ems \<longleftrightarrow>
     (case r of
        Inr True \<Rightarrow> em_marks k ems = [(TASK_COMPLETED, Some (JInt n))]
      | Inr False \<Rightarrow> em_marks k ems = [(TASK_PROGRESS, Some (JInt n))] \<and> n < rp_max_attempts policy
      | Inl e \<Rightarrow> em_marks k ems \<in> {[], [(TASK_FAILED, Some (JInt n))]})
     \<and> (\<forall>j. j \<noteq> k \<longrightarrow> em_marks j ems = [])"

lemma finish_attempt_emits:
  "emits (finish_attempt emit diag policy k n outcome) (finish_emissions policy k n)"
proof (cases outcome)
  case (Exec_result ref outs)
  show ?thesis
    unfolding finish_attempt_def Exec_result exec_outcome.case
    by (intro emits_quiet_bind emits_emit_bind emits_eret quiet_prims quiet_transition quiet_upd_state)
      (auto simp: finish_emissions_def em_marks_def lifecycle_types_def)
next
  case (Exec_error e)
  show ?thesis
    unfolding finish_attempt_def Exec_error exec_outcome.case
    by (cases "e = CancelledError"; cases "n < rp_max_attempts policy \<and> retryable e"; simp;
        intro emits_quiet_bind quiet_prims conjI impI)
      (auto intro!: emits_emit_bind emits_quiet_bind emits_eret emits_eraise quiet_prims quiet_transition
        simp: finish_emissions_def em_marks_def lifecycle_types_def)
qed

section \<open>The invariant of a wave\<close>

definition wave_inv :: "retry_policy \<Rightarrow> string set \<Rightarrow> string \<Rightarrow> runtime_event list \<Rightarrow> 'a wave \<Rightarrow> bool" where
  "wave_inv policy K r base w \<longleftrightarrow>
     inv (sc_world (wv_sched w)) \<and> rs_run_id (sc_state (wv_sched w)) = r
     \<and> (\<forall>k. k \<notin> K \<longrightarrow> wv_control w k = None)
     \<and> (\<exists>evs. events (sc_world (wv_sched w)) r = base @ evs
          \<and> (\<forall>k \<in> K. \<exists>c. wv_control w k = Some c \<and> trace_ok policy c (marks k evs)))"

lemma wave_inv_segment:
  assumes w: "wave_inv policy K r base w" and k: "wv_control w k = Some c0"
    and id: "rs_run_id (sc_state s') = r"
    and ext: "extends r (sc_world (wv_sched w)) (sc_world s') ems"
    and other: "\<And>j. j \<noteq> k \<Longrightarrow> em_marks j ems = []"
    and own: "\<And>tr. trace_ok policy c0 tr \<Longrightarrow> trace_ok policy c (tr @ em_marks k ems)"
  shows "wave_inv policy K r base (set_control k c (w\<lparr> wv_sched := s' \<rparr>))"
proof -
  from w obtain evs where evs: "events (sc_world (wv_sched w)) r = base @ evs"
    and tr: "\<And>j. j \<in> K \<Longrightarrow> \<exists>c. wv_control w j = Some c \<and> trace_ok policy c (marks j evs)"
    and out: "\<And>j. j \<notin> K \<Longrightarrow> wv_control w j = None"
    by (auto simp: wave_inv_def)
  from ext obtain new where new: "events (sc_world s') r = base @ (evs @ new)" "map emission_of new = ems"
    and inv: "inv (sc_world s')"
    using evs by (auto simp: extends_def)
  have kK: "k \<in> K" using k out by fastforce
  have "\<exists>d. wv_control (set_control k c (w\<lparr> wv_sched := s' \<rparr>)) j = Some d
      \<and> trace_ok policy d (marks j (evs @ new))" if "j \<in> K" for j
  proof (cases "j = k")
    case True
    with tr [OF kK] k own new(2) show ?thesis by (auto simp: set_control_def marks_emissions [of k new])
  next
    case False
    with tr [OF that] other [OF False] new(2) show ?thesis
      by (auto simp: set_control_def marks_emissions [of j new])
  qed
  with new(1) inv id out kK show ?thesis
    unfolding wave_inv_def by (auto simp: set_control_def)
qed

lemma wave_step_inv:
  assumes env: "quiet_env inv events K env" and st: "wave_step emit diag policy env w w'"
    and w: "wave_inv policy K r base w"
  shows "wave_inv policy K r base w'"
  using st
proof cases
  case (wave_start k n res s')
  from w have inv: "inv (sc_world (wv_sched w))" and id: "rs_run_id (sc_state (wv_sched w)) = r"
    by (auto simp: wave_inv_def)
  from emitsD [OF start_attempt_emits inv wave_start(4)] id obtain ems where
    1: "rs_run_id (sc_state s') = r" "extends r (sc_world (wv_sched w)) (sc_world s') ems"
    and ems: "ems = (if res = Inr () then [(TASK_STARTED, Some k, [(''attempt'', JInt n)])] else [])"
    by auto
  have "trace_ok policy (started_control n res) (tr @ em_marks k ems)"
    if "trace_ok policy (TC_start n) tr" for tr
    using that ems by (cases res) (auto simp: em_marks_def lifecycle_types_def)
  then show ?thesis
    unfolding wave_start(1)
    by (rule wave_inv_segment [OF w wave_start(2) 1, rotated]) (use ems in \<open>auto simp: em_marks_def split: if_splits\<close>)
next
  case (wave_finish k n outcome res s')
  from w have inv: "inv (sc_world (wv_sched w))" and id: "rs_run_id (sc_state (wv_sched w)) = r"
    by (auto simp: wave_inv_def)
  from emitsD [OF finish_attempt_emits inv wave_finish(3)] id obtain ems where
    1: "rs_run_id (sc_state s') = r" "extends r (sc_world (wv_sched w)) (sc_world s') ems"
    and fe: "finish_emissions policy k n res ems"
    by auto
  have "trace_ok policy (finished_control n res) (tr @ em_marks k ems)"
    if "trace_ok policy (TC_running n) tr" for tr
    using that fe
    by (cases res; cases "projr res") (auto simp: finish_emissions_def retries_next split: bool.splits)
  note own = this
  have other: "em_marks j ems = []" if "j \<noteq> k" for j
    using fe that unfolding finish_emissions_def by blast
  show ?thesis
    unfolding wave_finish(1) by (rule wave_inv_segment [OF w wave_finish(2) 1 other own])
next
  case (wave_env s')
  from w obtain evs where id: "rs_run_id (sc_state (wv_sched w)) = r" and inv: "inv (sc_world (wv_sched w))"
    and out: "\<forall>k. k \<notin> K \<longrightarrow> wv_control w k = None"
    and evs: "events (sc_world (wv_sched w)) r = base @ evs"
    and tr: "\<forall>k \<in> K. \<exists>c. wv_control w k = Some c \<and> trace_ok policy c (marks k evs)"
    unfolding wave_inv_def by blast
  note q = env [unfolded quiet_env_def, rule_format, OF wave_env(2) inv, unfolded id evs]
  then obtain new where
    n: "inv (sc_world s')" "rs_run_id (sc_state s') = r" "events (sc_world s') r = (base @ evs) @ new"
      "\<forall>k \<in> K. marks k new = []"
    by blast
  from tr n(4) have "\<forall>k \<in> K. \<exists>c. wv_control w k = Some c \<and> trace_ok policy c (marks k (evs @ new))"
    by simp
  with n(1-3) out have "wave_inv policy K r base (w\<lparr> wv_sched := s' \<rparr>)"
    unfolding wave_inv_def by (auto intro!: exI [of _ "evs @ new"])
  with wave_env(1) show ?thesis by simp
qed

lemma wave_reachable_inv:
  assumes "quiet_env inv events (set ready) env" and "(wave_step emit diag policy env)\<^sup>*\<^sup>* (start_wave ready s) w"
    and "inv (sc_world s)" and "1 \<le> rp_max_attempts policy"
  shows "wave_inv policy (set ready) (rs_run_id (sc_state s))
    (events (sc_world s) (rs_run_id (sc_state s))) w"
  using assms(2)
proof (induction rule: rtranclp_induct)
  case base
  show ?case
    using assms(3,4) by (auto simp: wave_inv_def start_wave_def marks_def intro!: exI [of _ "[]"])
next
  case (step w w')
  then show ?case using wave_step_inv [OF assms(1)] by blast
qed

end

section \<open>The property of a wave\<close>

definition attempts_bounded :: "retry_policy \<Rightarrow> mark list \<Rightarrow> bool" where
  "attempts_bounded policy tr \<longleftrightarrow> (\<exists>n. 1 \<le> n \<and> n \<le> rp_max_attempts policy \<and>
     tr \<in> {retries n, retries n @ [(TASK_STARTED, Some (JInt n))],
           retries n @ [(TASK_STARTED, Some (JInt n)), (TASK_COMPLETED, Some (JInt n))],
           retries n @ [(TASK_STARTED, Some (JInt n)), (TASK_FAILED, Some (JInt n))]})"

lemma trace_ok_bounded: "trace_ok policy c tr \<Longrightarrow> attempts_bounded policy tr"
  by (cases c) (auto simp: attempts_bounded_def)

text \<open>
  C9. In a wave, under every interleaving of the segments of its tasks and of the executors' actions,
  each task's own events form one bounded run of attempts: started, retried, started, and so on,
  numbered 1, 2, 3 without gaps and never beyond \<open>max_attempts\<close>, with at most one outcome, which comes
  last; a task that is done has exactly one completion, of its last attempt. No interleaving mixes
  up the attempts of different tasks.
\<close>

theorem wave_attempts:
  assumes "store_inv fs (mw_events (sc_world s))" and "retry_policy_valid policy"
    and "quiet_env (\<lambda>w. store_inv fs (mw_events w)) (\<lambda>w. es_events (mw_events w)) (set ready) env"
    and "(wave_step (mem_emit fp fs) diag policy env)\<^sup>*\<^sup>* (start_wave ready s) w" and "k \<in> set ready"
  shows "\<exists>evs c. es_events (mw_events (sc_world (wv_sched w))) (rs_run_id (sc_state s))
        = es_events (mw_events (sc_world s)) (rs_run_id (sc_state s)) @ evs
    \<and> wv_control w k = Some c \<and> trace_ok policy c (marks k evs) \<and> attempts_bounded policy (marks k evs)"
proof -
  have "1 \<le> rp_max_attempts policy" using assms(2) by (simp add: retry_policy_valid_def)
  from memw.wave_reachable_inv [OF assms(3,4,1) this] assms(5) obtain evs c where
    "es_events (mw_events (sc_world (wv_sched w))) (rs_run_id (sc_state s))
        = es_events (mw_events (sc_world s)) (rs_run_id (sc_state s)) @ evs"
    "wv_control w k = Some c" "trace_ok policy c (marks k evs)"
    unfolding memw.wave_inv_def by blast
  with trace_ok_bounded show ?thesis by blast
qed

definition sample_sched :: "task list \<Rightarrow> actual_runtime_graph mem_world sched" where
  "sample_sched ts = \<lparr> sc_state = sample_state ts, sc_reported = [],
     sc_world = \<lparr> mw_events = empty_store, mw_checkpoints = (\<lambda>_. []), mw_draws = 0 \<rparr> \<rparr>"

definition sample_pair :: "task list" where
  "sample_pair = [sample_task ''A'' [] TS_READY, sample_task ''B'' [] TS_READY]"

definition sample_policy :: retry_policy where
  "sample_policy = \<lparr> rp_max_attempts = 2, rp_backoff_seconds = 0 \<rparr>"

text \<open>The wave in which both tasks have started their first attempt, and \<open>B\<close> has completed.\<close>

definition sample_start :: "string \<Rightarrow> actual_runtime_graph mem_world wave \<Rightarrow> actual_runtime_graph mem_world wave" where
  "sample_start k w = (case start_attempt (mem_emit ev_event_id sample_supply) k 1 (wv_sched w) of
     (r, s') \<Rightarrow> set_control k (started_control 1 r) (w\<lparr> wv_sched := s' \<rparr>))"

definition sample_finish :: "string \<Rightarrow> actual_runtime_graph mem_world wave \<Rightarrow> actual_runtime_graph mem_world wave" where
  "sample_finish k w = (case finish_attempt (mem_emit ev_event_id sample_supply) (\<lambda>_ _ _. JNull) sample_policy
       k 1 (Exec_result None []) (wv_sched w) of
     (r, s') \<Rightarrow> set_control k (finished_control 1 r) (w\<lparr> wv_sched := s' \<rparr>))"

definition sample_wave :: "nat \<Rightarrow> actual_runtime_graph mem_world wave" where
  "sample_wave n = [start_wave [''A'', ''B''] (sample_sched sample_pair),
     sample_start ''A'' (start_wave [''A'', ''B''] (sample_sched sample_pair)),
     sample_start ''B'' (sample_start ''A'' (start_wave [''A'', ''B''] (sample_sched sample_pair))),
     sample_finish ''B'' (sample_start ''B'' (sample_start ''A''
       (start_wave [''A'', ''B''] (sample_sched sample_pair))))] ! n"

lemma sample_start_step:
  assumes "wv_control w k = Some (TC_start 1)"
  shows "wave_step (mem_emit ev_event_id sample_supply) (\<lambda>_ _ _. JNull) sample_policy env w (sample_start k w)"
proof -
  obtain r s' where rs: "start_attempt (mem_emit ev_event_id sample_supply) k 1 (wv_sched w) = (r, s')"
    by fastforce
  from wave_start [where policy = sample_policy, OF assms _ rs] show ?thesis
    by (simp add: sample_start_def rs sample_policy_def)
qed

lemma sample_finish_step:
  assumes "wv_control w k = Some (TC_running 1)"
  shows "wave_step (mem_emit ev_event_id sample_supply) (\<lambda>_ _ _. JNull) sample_policy env w (sample_finish k w)"
proof -
  obtain r s' where rs: "finish_attempt (mem_emit ev_event_id sample_supply) (\<lambda>_ _ _. JNull) sample_policy
      k 1 (Exec_result None []) (wv_sched w) = (r, s')"
    by fastforce
  from wave_finish [OF assms rs] show ?thesis by (simp add: sample_finish_def rs)
qed

theorem wave_attempts_witness:
  "\<exists>evs. es_events (mw_events (sc_world (wv_sched (sample_wave 3)))) ''R'' = evs
     \<and> wv_control (sample_wave 3) ''B'' = Some TC_done
     \<and> attempts_bounded sample_policy (marks ''B'' evs) \<and> length evs = 3"
proof -
  let ?em = "mem_emit ev_event_id sample_supply" and ?d = "\<lambda>(_ :: exn) (_ :: task) (_ :: int). JNull"
  let ?env = "\<lambda>(_ :: actual_runtime_graph mem_world sched) (_ :: actual_runtime_graph mem_world sched). False"
  have c: "wv_control (sample_wave 0) ''A'' = Some (TC_start 1) \<and> wv_control (sample_wave 1) ''B'' = Some (TC_start 1)
    \<and> wv_control (sample_wave 2) ''B'' = Some (TC_running 1) \<and> wv_control (sample_wave 3) ''B'' = Some TC_done
    \<and> length (es_events (mw_events (sc_world (wv_sched (sample_wave 3)))) ''R'') = 3
    \<and> rs_run_id (sc_state (sample_sched sample_pair)) = ''R''"
    by code_simp
  have w: "sample_wave 0 = start_wave [''A'', ''B''] (sample_sched sample_pair)"
    "sample_wave 1 = sample_start ''A'' (sample_wave 0)" "sample_wave 2 = sample_start ''B'' (sample_wave 1)"
    "sample_wave 3 = sample_finish ''B'' (sample_wave 2)"
    by (simp_all add: sample_wave_def numeral_2_eq_2 numeral_3_eq_3)
  have "wave_step ?em ?d sample_policy ?env (sample_wave 0) (sample_wave 1)"
    unfolding w(2) by (rule sample_start_step) (use c in blast)
  moreover have "wave_step ?em ?d sample_policy ?env (sample_wave 1) (sample_wave 2)"
    unfolding w(3) by (rule sample_start_step) (use c in blast)
  moreover have "wave_step ?em ?d sample_policy ?env (sample_wave 2) (sample_wave 3)"
    unfolding w(4) by (rule sample_finish_step) (use c in blast)
  ultimately have reach: "(wave_step ?em ?d sample_policy ?env)\<^sup>*\<^sup>* (start_wave [''A'', ''B''] (sample_sched sample_pair)) (sample_wave 3)"
    unfolding w(1) [symmetric] by (meson converse_rtranclp_into_rtranclp rtranclp.rtrancl_refl)
  have i: "store_inv sample_supply (mw_events (sc_world (sample_sched sample_pair)))"
    using store_inv_empty [OF inj_sample_supply] by (simp add: sample_sched_def)
  have p: "retry_policy_valid sample_policy" by code_simp
  have q: "quiet_env (\<lambda>w. store_inv sample_supply (mw_events w)) (\<lambda>w. es_events (mw_events w)) (set [''A'', ''B'']) ?env"
    by (simp add: quiet_env_def)
  have start: "es_events (mw_events (sc_world (sample_sched sample_pair))) ''R'' = []"
    by (simp add: sample_sched_def empty_store_def)
  from wave_attempts [OF i p q reach, of "''B''"] c start show ?thesis by auto
qed

end
