(* ===== verification/SweepFacts.thy ===== *)
theory SweepFacts
  imports WaveFacts
begin

text \<open>
  The sweeps of the scheduler over the tasks of a graph without output contracts: what admitting,
  blocking and promoting do to each task.
\<close>

section \<open>Sweeps that act on each task alone\<close>

lemma set_tasks_twice [simp]: "set_tasks f (set_tasks g st) = set_tasks (\<lambda>ts. f (g ts)) st"
  by (simp add: set_tasks_def)

lemma set_tasks_self [simp]: "set_tasks (\<lambda>_. rs_tasks st) st = st"
  by (simp add: set_tasks_def)

lemma set_tasks_const_eq: "f (rs_tasks st) = ts \<Longrightarrow> set_tasks f st = set_tasks (\<lambda>_. ts) st"
  by (simp add: set_tasks_def)

lemma visit_map:
  fixes st defines "ts \<equiv> rs_tasks st"
  assumes step: "\<And>i. i < length ts \<Longrightarrow>
      f (set_tasks (\<lambda>_. map g (take i ts) @ drop i ts) st) (ts ! i) = Inr (g (ts ! i), out (ts ! i))"
  shows "visit f st = (Inr (concat (map out ts)), set_tasks (\<lambda>_. map g ts) st)"
proof -
  have "visit_all f [i..<length ts] (set_tasks (\<lambda>_. map g (take i ts) @ drop i ts) st)
      = (Inr (concat (map out (drop i ts))), set_tasks (\<lambda>_. map g ts) st)" if "i \<le> length ts" for i
    using that
  proof (induction "length ts - i" arbitrary: i)
    case 0
    then show ?case by simp
  next
    case (Suc n)
    then have i: "i < length ts" by simp
    let ?cur = "map g (take i ts) @ drop i ts"
    have nth: "?cur ! i = ts ! i" using i by (simp add: nth_append)
    have upd: "?cur[i := g (ts ! i)] = map g (take (Suc i) ts) @ drop (Suc i) ts"
      using i by (simp add: list_update_append take_Suc_conv_app_nth Cons_nth_drop_Suc [symmetric])
    have "visit_all f [Suc i..<length ts] (set_tasks (\<lambda>_. map g (take (Suc i) ts) @ drop (Suc i) ts) st)
        = (Inr (concat (map out (drop (Suc i) ts))), set_tasks (\<lambda>_. map g ts) st)"
      using Suc by simp
    moreover have "[i..<length ts] = i # [Suc i..<length ts]" using i by (rule upt_conv_Cons)
    ultimately show ?case
      using step [OF i] i nth upd by (simp add: Cons_nth_drop_Suc [symmetric])
  qed
  from this [of 0] show ?thesis by (simp add: visit_def ts_def)
qed

section \<open>Contract-free tasks\<close>

text \<open>
  The calm graphs: well formed, no output contracts and no recorded gap, every task waiting, ready or
  completed.
\<close>

definition calm :: "task_status list \<Rightarrow> task list \<Rightarrow> bool" where
  "calm statuses ts \<longleftrightarrow> graph_wf ts \<and> list_all (\<lambda>t. t_output_requirements t = None
     \<and> t_missing_output_dependencies t = [] \<and> t_status t \<in> set statuses) ts"

lemma calm_mono: "calm A ts \<Longrightarrow> set A \<subseteq> set B \<Longrightarrow> calm B ts"
  by (auto simp: calm_def list_all_iff)

definition relabel :: "(task \<Rightarrow> task) \<Rightarrow> bool" where
  "relabel g \<longleftrightarrow> (\<forall>t. t_task_id (g t) = t_task_id t \<and> t_dependencies (g t) = t_dependencies t
     \<and> t_output_requirements (g t) = t_output_requirements t
     \<and> t_missing_output_dependencies (g t) = t_missing_output_dependencies t)"

lemma calm_map:
  assumes "calm A ts" and "relabel g" and "\<And>t. t \<in> set ts \<Longrightarrow> t_status (g t) \<in> set B"
  shows "calm B (map g ts)"
  using assms graph_wf_map [of g ts] by (simp add: calm_def relabel_def list_all_iff)

lemma deps_completed_set:
  "deps_completed ts t \<longleftrightarrow> set (t_dependencies t) \<subseteq> set (completed_ids ts)"
  by (auto simp: deps_completed_def list_all_iff)

lemma completed_ids_find:
  assumes "distinct (task_ids ts)" and "find_task k ts = Some u"
  shows "k \<in> set (completed_ids ts) \<longleftrightarrow> t_status u = TS_COMPLETED"
proof -
  have u: "u \<in> set ts" "t_task_id u = k" using find_task_SomeD [OF assms(2)] by simp_all
  have "v = u" if "v \<in> set ts" "t_task_id v = k" for v
    using find_task_distinct [OF assms(1) that(1)] that(2) assms(2) by simp
  moreover have "k \<in> set (completed_ids ts) \<longleftrightarrow> (\<exists>v \<in> set ts. t_task_id v = k \<and> t_status v = TS_COMPLETED)"
    by (auto simp: completed_ids_def image_iff)
  ultimately show ?thesis using u by blast
qed

lemma resolve_contract_free:
  assumes wf: "graph_wf (rs_tasks st)" and deps: "set (t_dependencies t) \<subseteq> set (task_ids (rs_tasks st))"
    and req: "t_output_requirements t = None"
    and calm: "list_all (\<lambda>u. settled u \<longrightarrow> t_status u = TS_COMPLETED) (rs_tasks st)"
  shows "\<exists>decision missing. resolve_outputs st t = Inr (decision, missing)
    \<and> decision \<noteq> RES_BLOCKED \<and> (decision = RES_READY \<longleftrightarrow> deps_completed (rs_tasks st) t)"
proof -
  let ?the = "\<lambda>k. the (find_task k (rs_tasks st))"
  have ids: "distinct (task_ids (rs_tasks st))" using wf by (simp add: graph_wf_def)
  have the: "find_task k (rs_tasks st) = Some (?the k)" if "k \<in> set (t_dependencies t)" for k
  proof -
    from deps that obtain u where "find_task k (rs_tasks st) = Some u" using find_task_known by blast
    then show ?thesis by simp
  qed
  have comp: "t_status (?the k) = TS_COMPLETED \<longleftrightarrow> k \<in> set (completed_ids (rs_tasks st))"
    if "k \<in> set (t_dependencies t)" for k
    using completed_ids_find [OF ids the [OF that]] by simp
  have "filter (\<lambda>p. t_status p \<noteq> TS_COMPLETED) (map ?the (t_dependencies t)) = []
      \<longleftrightarrow> (\<forall>k \<in> set (t_dependencies t). t_status (?the k) = TS_COMPLETED)"
    by (simp add: filter_empty_conv)
  with comp have missing: "filter (\<lambda>p. t_status p \<noteq> TS_COMPLETED) (map ?the (t_dependencies t)) = []
      \<longleftrightarrow> deps_completed (rs_tasks st) t"
    by (simp add: deps_completed_def list_all_iff)
  have "?the k \<in> set (rs_tasks st)" if "k \<in> set (t_dependencies t)" for k
    using find_task_SomeD [OF the [OF that]] by simp
  with calm have blocked: "\<not> list_ex (\<lambda>p. settled p \<and> t_status p \<noteq> TS_COMPLETED) (map ?the (t_dependencies t))"
    by (auto simp: list_ex_iff list_all_iff)
  show ?thesis
    using missing blocked
    by (simp add: resolve_outputs_def rmap_state_task [OF deps] req Let_def)
qed

lemma calm_settled:
  "calm [TS_WAITING, TS_READY, TS_COMPLETED] ts \<Longrightarrow> list_all (\<lambda>u. settled u \<longrightarrow> t_status u = TS_COMPLETED) ts"
  by (auto simp: calm_def list_all_iff settled_def settled_statuses_def)

lemma calm_resolve:
  assumes "calm [TS_WAITING, TS_READY, TS_COMPLETED] (rs_tasks st)" and "t \<in> set (rs_tasks st)"
  shows "\<exists>decision missing. resolve_outputs st t = Inr (decision, missing)
    \<and> decision \<noteq> RES_BLOCKED \<and> (decision = RES_READY \<longleftrightarrow> deps_completed (rs_tasks st) t)"
  by (rule resolve_contract_free)
    (use assms calm_settled [OF assms(1)] in \<open>auto simp: calm_def graph_wf_def list_all_iff\<close>)

section \<open>The phases of an iteration\<close>

definition admit :: "task \<Rightarrow> task" where
  "admit t = (if t_status t = TS_CREATED then t\<lparr> t_status := TS_WAITING \<rparr> else t)"

lemma admit_sweep: "admit_created_tasks st = (Inr [], set_tasks (map admit) st)"
proof -
  have "visit admit_visit st = (Inr (concat (map (\<lambda>_. []) (rs_tasks st))), set_tasks (\<lambda>_. map admit (rs_tasks st)) st)"
    by (rule visit_map) (auto simp: admit_visit_def admit_def transition_task_def)
  also have "concat (map (\<lambda>_. []) (rs_tasks st)) = ([] :: unit list)" by simp
  also have "set_tasks (\<lambda>_. map admit (rs_tasks st)) st = set_tasks (map admit) st"
    by (simp add: set_tasks_def)
  finally show ?thesis by (simp add: admit_created_tasks_def)
qed

lemma block_sweep:
  assumes "calm [TS_WAITING, TS_COMPLETED] (rs_tasks st)"
  shows "block_failed_dependents st = (Inr (), st)"
proof -
  have calm: "calm [TS_WAITING, TS_READY, TS_COMPLETED] (rs_tasks st)"
    by (rule calm_mono [OF assms]) simp
  have "visit block_visit st = (Inr (concat (map (\<lambda>_. []) (rs_tasks st))), set_tasks (\<lambda>_. map (\<lambda>t. t) (rs_tasks st)) st)"
  proof (rule visit_map)
    fix i assume "i < length (rs_tasks st)"
    then have "rs_tasks st ! i \<in> set (rs_tasks st)" by simp
    from calm_resolve [OF calm this] show "block_visit (set_tasks (\<lambda>_. map (\<lambda>t. t) (take i (rs_tasks st))
        @ drop i (rs_tasks st)) st) (rs_tasks st ! i) = Inr (rs_tasks st ! i, [])"
      by (auto simp: block_visit_def)
  qed
  then show ?thesis by (simp add: block_failed_dependents.simps [of st])
qed

definition promotable :: "task list \<Rightarrow> task \<Rightarrow> bool" where
  "promotable ts t \<longleftrightarrow> t_status t = TS_WAITING \<and> deps_completed ts t"

definition promote :: "task list \<Rightarrow> task \<Rightarrow> task" where
  "promote ts t = (if promotable ts t then t\<lparr> t_status := TS_READY \<rparr> else t)"

definition promoted_ids :: "task list \<Rightarrow> string list" where
  "promoted_ids ts = map t_task_id (filter (promotable ts) ts)"

lemma promote_fields [simp]:
  "t_task_id (promote ts t) = t_task_id t" "t_dependencies (promote ts t) = t_dependencies t"
  "t_output_requirements (promote ts t) = t_output_requirements t"
  "t_missing_output_dependencies (promote ts t) = t_missing_output_dependencies t"
  "t_status (promote ts t) = TS_COMPLETED \<longleftrightarrow> t_status t = TS_COMPLETED"
  by (simp_all add: promote_def promotable_def)

lemma relabel_promote: "relabel (promote ts)"
  by (simp add: relabel_def)

lemma promote_sweep:
  assumes "calm [TS_WAITING, TS_COMPLETED] (rs_tasks st)"
  shows "promote_ready_tasks st = (Inr (promoted_ids (rs_tasks st)), set_tasks (map (promote (rs_tasks st))) st)"
proof -
  define ts where "ts = rs_tasks st"
  have calm: "calm [TS_WAITING, TS_COMPLETED] ts" using assms by (simp add: ts_def)
  have "visit promote_visit st = (Inr (concat (map (\<lambda>t. if promotable ts t then [t_task_id t] else []) ts)),
      set_tasks (\<lambda>_. map (promote ts) ts) st)"
    unfolding ts_def
  proof (rule visit_map, fold ts_def)
    fix i assume i: "i < length ts"
    let ?g = "\<lambda>t. if t \<in> set (take i ts) then promote ts t else t"
    define cur where "cur = map (promote ts) (take i ts) @ drop i ts"
    have dist: "distinct ts" using calm by (simp add: calm_def graph_wf_def task_ids_def distinct_map)
    have "cur = map ?g ts"
    proof -
      have "map ?g (drop i ts) = drop i ts"
        using dist set_take_disj_set_drop_if_distinct [of ts i i] by (intro map_idI) auto
      then have "map ?g (take i ts @ drop i ts) = cur" unfolding map_append cur_def by simp
      then show ?thesis by simp
    qed
    have "t_status (?g t) \<in> set [TS_WAITING, TS_READY, TS_COMPLETED]" if "t \<in> set ts" for t
    proof -
      have "t_status t \<in> {TS_WAITING, TS_COMPLETED}" using calm that by (simp add: calm_def list_all_iff)
      then show ?thesis by (auto simp: promote_def)
    qed
    then have c: "calm [TS_WAITING, TS_READY, TS_COMPLETED] cur"
      unfolding \<open>cur = map ?g ts\<close> by (intro calm_map [OF calm]) (simp_all add: relabel_def)
    have comp: "completed_ids cur = completed_ids ts"
      unfolding \<open>cur = map ?g ts\<close> by (rule completed_ids_map) simp_all
    have mem: "ts ! i \<in> set cur" using i by (simp add: cur_def Cons_nth_drop_Suc [symmetric])
    from c mem calm_resolve [of "set_tasks (\<lambda>_. cur) st" "ts ! i"] obtain decision missing where
      r: "resolve_outputs (set_tasks (\<lambda>_. cur) st) (ts ! i) = Inr (decision, missing)"
      "decision = RES_READY \<longleftrightarrow> deps_completed ts (ts ! i)"
      by (auto simp: deps_completed_def comp)
    have "t_status (ts ! i) \<in> {TS_WAITING, TS_COMPLETED}"
      using calm i by (auto simp: calm_def list_all_length)
    with r show "promote_visit (set_tasks (\<lambda>_. cur) st) (ts ! i)
        = Inr (promote ts (ts ! i), if promotable ts (ts ! i) then [t_task_id (ts ! i)] else [])"
      by (auto simp: promote_visit_def promote_def promotable_def transition_task_def)
  qed
  moreover have "concat (map (\<lambda>t. if P t then [t_task_id t] else []) us) = map t_task_id (filter P us)"
    for P and us :: "task list" by (induction us) auto
  ultimately show ?thesis
    by (simp add: promote_ready_tasks_def promoted_ids_def ts_def) (simp add: set_tasks_def)
qed

section \<open>The start of a run\<close>

text \<open>The state in which \<open>execute\<close> awaits the emission of \<open>RUN_STARTED\<close>, before its \<open>try\<close>.\<close>

definition at_start :: "'w sched \<Rightarrow> 'w sched" where
  "at_start s = s\<lparr> sc_state := (set_tasks (map admit) (sc_state s))\<lparr> rs_run_status := RS_RUNNING \<rparr> \<rparr>"

definition run_started :: "'w emit_op \<Rightarrow> bool \<Rightarrow> 'w sched \<Rightarrow> (exn + unit) \<times> 'w sched" where
  "run_started em_op b s =
     (if b then emit_in em_op RUN_STARTED None
        [(''actual_graph_version'', JInt (g_version (rs_actual_graph (sc_state s))))] (at_start s)
      else (Inr (), at_start s))"

lemma execute_unfold:
  "execute em_op save_op gather fuel b s =
     (case run_started em_op b s of
        (Inl e, s1) \<Rightarrow> Some (Inl e, s1)
      | (Inr _, s1) \<Rightarrow>
          (case run_loop em_op save_op gather fuel s1 of
             None \<Rightarrow> None
           | Some (Inl e, s2) \<Rightarrow> Some (if e = CancelledError then cancel_run em_op save_op s2 else (Inl e, s2))
           | Some (Inr _, s2) \<Rightarrow> Some (Inr (), s2)))"
  by (simp add: execute_def run_started_def ebind_def lift_visit_def admit_sweep set_run_status_def
      upd_state_def at_start_def)

lemma run_started_state:
  assumes "run_started em_op b s = (r, s1)"
  shows "rs_run_status (sc_state s1) = RS_RUNNING \<and> rs_tasks (sc_state s1) = map admit (rs_tasks (sc_state s))"
  using assms by (auto simp: run_started_def at_start_def set_tasks_def dest: emit_in_state split: if_splits)

end
