(* ===== verification/GatherWave.thy ===== *)
theory GatherWave
  imports SweepFacts
begin

text \<open>
  A wave as \<open>asyncio.gather\<close> runs it: any interleaving of the coroutines of its tasks and of their
  executors, driven until every coroutine has ended. When the stores accept every write and each
  executor succeeds within the attempts of the retry policy, every such wave completes its tasks.
\<close>

section \<open>What gather may do\<close>

text \<open>
  \<open>may k n outcome\<close>: the executor of task \<open>k\<close> may end its attempt \<open>n\<close> with \<open>outcome\<close>. A driven step is a
  step of the wave whose outcomes are those that the executors may have.
\<close>

inductive driven_step for em_op diag policy env may where
  drive_start: "wv_control w k = Some (TC_start n) \<Longrightarrow> n \<le> rp_max_attempts policy \<Longrightarrow>
    start_attempt em_op k n (wv_sched w) = (r, s') \<Longrightarrow>
    driven_step em_op diag policy env may w (set_control k (started_control n r) (w\<lparr> wv_sched := s' \<rparr>))"
| drive_finish: "wv_control w k = Some (TC_running n) \<Longrightarrow> may k n outcome \<Longrightarrow>
    finish_attempt em_op diag policy k n outcome (wv_sched w) = (r, s') \<Longrightarrow>
    driven_step em_op diag policy env may w (set_control k (finished_control n r) (w\<lparr> wv_sched := s' \<rparr>))"
| drive_env: "env (wv_sched w) s' \<Longrightarrow> driven_step em_op diag policy env may w (w\<lparr> wv_sched := s' \<rparr>)"

lemma driven_wave_step: "driven_step em_op diag policy env may w w' \<Longrightarrow> wave_step em_op diag policy env w w'"
  by (induction rule: driven_step.induct) (auto intro: wave_step.intros)

text \<open>A coroutine has ended when its task is done, it raised, or its range of attempts is used up.\<close>

fun ended :: "retry_policy \<Rightarrow> task_control \<Rightarrow> bool" where
  "ended policy (TC_start n) = (rp_max_attempts policy < n)"
| "ended policy (TC_running n) = False"
| "ended policy TC_done = True"
| "ended policy (TC_raised e) = True"

fun wave_result :: "task_control \<Rightarrow> exn option" where
  "wave_result (TC_raised e) = Some e"
| "wave_result c = None"

text \<open>
  \<open>asyncio.gather(*coroutines, return_exceptions=True)\<close>: some interleaving of the coroutines, run until
  all have ended; the results are in the order of the tasks.
\<close>

definition gathers where
  "gathers em_op diag policy env may gather \<longleftrightarrow> (\<forall>ready s. distinct ready \<longrightarrow>
     (\<exists>w. (driven_step em_op diag policy env may)\<^sup>*\<^sup>* (start_wave ready s) w
        \<and> (\<forall>k \<in> set ready. \<exists>c. wv_control w k = Some c \<and> ended policy c)
        \<and> gather ready s = (map (\<lambda>k. wave_result (the (wv_control w k))) ready, wv_sched w)))"

text \<open>
  The executors of a run that goes well: each may fail and be retried, but not in its last attempt, and
  none is cancelled. They may do anything to the state and the stores but change the identity, the
  status, the edges or the contract of a task.
\<close>

definition eventually_succeeds :: "retry_policy \<Rightarrow> (string \<Rightarrow> int \<Rightarrow> exec_outcome \<Rightarrow> bool) \<Rightarrow> bool" where
  "eventually_succeeds policy may \<longleftrightarrow> (\<forall>k n outcome. may k n outcome \<longrightarrow>
     (case outcome of
        Exec_result _ _ \<Rightarrow> True
      | Exec_error e \<Rightarrow> e \<noteq> CancelledError \<and> retryable e \<and> n < rp_max_attempts policy))"

definition task_key where
  "task_key t = (t_task_id t, t_dependencies t, t_output_requirements t,
     t_missing_output_dependencies t, t_status t)"

definition keeps_tasks :: "('w sched \<Rightarrow> 'w sched \<Rightarrow> bool) \<Rightarrow> bool" where
  "keeps_tasks env \<longleftrightarrow> (\<forall>s s'. env s s' \<longrightarrow>
     map task_key (rs_tasks (sc_state s')) = map task_key (rs_tasks (sc_state s)))"

section \<open>Tasks up to their keys\<close>

lemma keys_map:
  assumes "map task_key us = map task_key vs" and "\<And>t. f t = h (task_key t)"
  shows "map f us = map f vs"
proof -
  have "map f xs = map h (map task_key xs)" for xs by (simp add: assms(2))
  with assms(1) show ?thesis by metis
qed

lemma keys_ids: "map task_key us = map task_key vs \<Longrightarrow> task_ids us = task_ids vs"
  unfolding task_ids_def by (erule keys_map [where h = fst]) (simp add: task_key_def)

lemma keys_list_all:
  assumes "map task_key us = map task_key vs" and "\<And>t. P t = h (task_key t)"
  shows "list_all P us \<longleftrightarrow> list_all P vs"
proof -
  have "P = (\<lambda>t. h (task_key t))" by (rule ext) (rule assms(2))
  then have "list_all P xs = list_all h (map task_key xs)" for xs by (simp add: list.pred_map comp_def)
  with assms(1) show ?thesis by metis
qed

lemma keys_graph_wf:
  assumes "map task_key us = map task_key vs"
  shows "graph_wf us \<longleftrightarrow> graph_wf vs"
proof -
  have ids: "task_ids us = task_ids vs" by (rule keys_ids [OF assms])
  have "map (\<lambda>t. (t_task_id t, t_dependencies t)) us = map (\<lambda>t. (t_task_id t, t_dependencies t)) vs"
    by (rule keys_map [OF assms, where h = "\<lambda>(k, ds, _). (k, ds)"]) (simp add: task_key_def)
  then have deps: "task_deps us = task_deps vs" unfolding task_deps_def by presburger
  have "list_all (\<lambda>t. set (t_dependencies t) \<subseteq> set (task_ids vs)) us
      \<longleftrightarrow> list_all (\<lambda>t. set (t_dependencies t) \<subseteq> set (task_ids vs)) vs"
    by (rule keys_list_all [OF assms, where h = "\<lambda>(k, ds, _). set ds \<subseteq> set (task_ids vs)"])
      (simp add: task_key_def)
  with ids deps show ?thesis by (simp add: graph_wf_def)
qed

lemma keys_calm:
  assumes "map task_key us = map task_key vs"
  shows "calm A us \<longleftrightarrow> calm A vs"
proof -
  have "list_all (\<lambda>t. t_output_requirements t = None \<and> t_missing_output_dependencies t = []
        \<and> t_status t \<in> set A) us
      \<longleftrightarrow> list_all (\<lambda>t. t_output_requirements t = None \<and> t_missing_output_dependencies t = []
        \<and> t_status t \<in> set A) vs"
    by (rule keys_list_all [OF assms, where h = "\<lambda>(k, ds, r, m, st). r = None \<and> m = [] \<and> st \<in> set A"])
      (simp add: task_key_def)
  with keys_graph_wf [OF assms] show ?thesis by (simp add: calm_def)
qed

lemma keys_find:
  "map task_key us = map task_key vs \<Longrightarrow> find_task k vs = Some v \<Longrightarrow>
    \<exists>u. find_task k us = Some u \<and> task_key u = task_key v"
proof (induction vs arbitrary: us)
  case Nil
  then show ?case by simp
next
  case (Cons x vs)
  then obtain y ys where us: "us = y # ys" and y: "task_key y = task_key x"
    and ys: "map task_key ys = map task_key vs"
    by auto
  from y have "t_task_id y = t_task_id x" by (simp add: task_key_def)
  with Cons.IH [OF ys] Cons.prems(2) y show ?case by (auto simp: us)
qed

lemma keys_upd:
  assumes "\<And>t. task_key (f t) = task_key (t\<lparr> t_status := x \<rparr>)"
  shows "map task_key us = map task_key vs \<Longrightarrow>
    map task_key (upd_task k f us) = map task_key (upd_task k (\<lambda>t. t\<lparr> t_status := x \<rparr>) vs)"
proof (induction vs arbitrary: us)
  case Nil
  then show ?case by simp
next
  case (Cons v vs)
  then obtain u ws where us: "us = u # ws" and u: "task_key u = task_key v"
    and ws: "map task_key ws = map task_key vs"
    by auto
  from u have "task_key (u\<lparr> t_status := x \<rparr>) = task_key (v\<lparr> t_status := x \<rparr>)" "t_task_id u = t_task_id v"
    by (simp_all add: task_key_def)
  with Cons.IH [OF ws] ws u show ?case by (simp add: us assms)
qed

section \<open>The segments of a task that goes well\<close>

text \<open>Stores that accept every write.\<close>

definition accepting_emit :: "'w emit_op \<Rightarrow> bool" where
  "accepting_emit em_op \<longleftrightarrow> (\<forall>r et t p ts w. \<exists>ev w'. em_op r et t p ts w = (Inr ev, w'))"

definition accepting_save :: "'w save_op \<Rightarrow> bool" where
  "accepting_save save_op \<longleftrightarrow> (\<forall>st w. \<exists>w'. save_op st w = (Inr (), w'))"

lemma emit_in_accepting:
  assumes "accepting_emit em_op"
  obtains w where "emit_in em_op et t p s = (Inr (), s\<lparr> sc_world := w \<rparr>)"
proof -
  from assms obtain ev w where "em_op (rs_run_id (sc_state s)) et t p None (sc_world s) = (Inr ev, w)"
    unfolding accepting_emit_def by blast
  then show ?thesis using that by (simp add: emit_in_def)
qed

lemma save_in_accepting:
  assumes "accepting_save save_op"
  obtains w where "save_in save_op s = (Inr (), s\<lparr> sc_world := w \<rparr>)"
proof -
  from assms obtain w where "save_op (sc_state s) (sc_world s) = (Inr (), w)"
    unfolding accepting_save_def by blast
  then show ?thesis using that by (simp add: save_in_def)
qed

lemma upd_task_in_apply [simp]:
  "upd_task_in k f s = (Inr (), s\<lparr> sc_state := set_tasks (upd_task k f) (sc_state s) \<rparr>)"
  by (simp add: upd_task_in_def)

lemma upd_task_upd_task:
  "(\<And>t. t_task_id (g t) = t_task_id t) \<Longrightarrow> upd_task k f (upd_task k g ts) = upd_task k (\<lambda>t. f (g t)) ts"
  by (induction ts) simp_all

lemma upd_task_const: "find_task k ts = Some t \<Longrightarrow> upd_task k (\<lambda>_. f t) ts = upd_task k f ts"
  by (induction ts) (auto split: if_splits)

lemma transition_in_ok:
  assumes "find_task k (rs_tasks (sc_state s)) = Some t" and "target \<in> set (allowed_transitions (t_status t))"
  shows "transition_in k target s = (Inr (), s\<lparr> sc_state := set_tasks (upd_task k (\<lambda>t. t\<lparr> t_status := target \<rparr>)) (sc_state s) \<rparr>)"
proof -
  have "transition_task t target = Inr (t\<lparr> t_status := target \<rparr>)"
    using assms(2) by (auto simp: transition_task_def)
  then show ?thesis
    using assms(1) upd_task_const [OF assms(1), of "\<lambda>t. t\<lparr> t_status := target \<rparr>"]
    by (simp add: transition_in_def task_in_def state_task_def ebind_def) (simp add: set_tasks_def)
qed

lemma start_attempt_ok:
  assumes em: "accepting_emit em_op" and t: "find_task k (rs_tasks (sc_state s)) = Some t" "t_status t = TS_READY"
  obtains w where "start_attempt em_op k n s = (Inr (), s\<lparr> sc_state := set_tasks (upd_task k
    (\<lambda>t. t\<lparr> t_status := TS_RUNNING, t_attempt_count := n \<rparr>)) (sc_state s), sc_world := w \<rparr>)"
proof -
  let ?s1 = "s\<lparr> sc_state := set_tasks (upd_task k (\<lambda>t. t\<lparr> t_status := TS_RUNNING \<rparr>)) (sc_state s) \<rparr>"
  have 1: "transition_in k TS_RUNNING s = (Inr (), ?s1)"
    by (rule transition_in_ok [OF t(1)]) (simp add: t(2))
  let ?s2 = "s\<lparr> sc_state := set_tasks (upd_task k (\<lambda>t. t\<lparr> t_status := TS_RUNNING, t_attempt_count := n \<rparr>)) (sc_state s) \<rparr>"
  have 2: "upd_task_in k (\<lambda>t. t\<lparr> t_attempt_count := n \<rparr>) ?s1 = (Inr (), ?s2)"
    by (simp add: upd_task_upd_task comp_def)
  obtain w where 3: "emit_in em_op TASK_STARTED (Some k) [(''attempt'', JInt n)] ?s2 = (Inr (), ?s2\<lparr> sc_world := w \<rparr>)"
    using emit_in_accepting [OF em] by blast
  have "start_attempt em_op k n s = (Inr (), ?s2\<lparr> sc_world := w \<rparr>)"
    unfolding start_attempt_def
    using t 1 2 3 by (simp add: task_in_def state_task_def ebind_def)
  then show ?thesis using that by simp
qed

lemma finish_attempt_result:
  assumes em: "accepting_emit em_op" and t: "find_task k (rs_tasks (sc_state s)) = Some t" "t_status t = TS_RUNNING"
  obtains s' where "finish_attempt em_op diag policy k n (Exec_result ref outs) s = (Inr True, s')"
    and "rs_tasks (sc_state s') = upd_task k (\<lambda>t. t\<lparr> t_result_ref := ref, t_progress := 1,
      t_status := TS_COMPLETED \<rparr>) (rs_tasks (sc_state s))"
proof -
  let ?g = "\<lambda>t. t\<lparr> t_result_ref := ref, t_progress := 1 \<rparr>"
  let ?s1 = "s\<lparr> sc_state := set_tasks (upd_task k ?g) (sc_state s) \<rparr>"
  let ?s2 = "?s1\<lparr> sc_state := (sc_state ?s1)\<lparr> rs_completed_output_refs :=
      AList.update k outs (rs_completed_output_refs (sc_state ?s1)) \<rparr> \<rparr>"
  have f: "find_task k (rs_tasks (sc_state ?s2)) = Some (?g t)"
    using t(1) by (simp add: find_task_upd_same)
  have 3: "transition_in k TS_COMPLETED ?s2 = (Inr (), ?s2\<lparr> sc_state := set_tasks (upd_task k
      (\<lambda>t. t\<lparr> t_status := TS_COMPLETED \<rparr>)) (sc_state ?s2) \<rparr>)" (is "_ = (_, ?s3)")
    by (rule transition_in_ok [OF f]) (simp add: t(2))
  obtain w where 4: "emit_in em_op TASK_COMPLETED (Some k) [(''attempt'', JInt n),
      (''result_ref'', (case ref of None \<Rightarrow> JNull | Some r \<Rightarrow> JStr r))] ?s3 = (Inr (), ?s3\<lparr> sc_world := w \<rparr>)"
    using emit_in_accepting [OF em] by blast
  have "finish_attempt em_op diag policy k n (Exec_result ref outs) s = (Inr True, ?s3\<lparr> sc_world := w \<rparr>)"
    unfolding finish_attempt_def
    using t(1) 3 4 by (simp add: task_in_def state_task_def ebind_def upd_state_def)
  moreover have "rs_tasks (sc_state ?s3) = upd_task k (\<lambda>t. t\<lparr> t_result_ref := ref, t_progress := 1,
      t_status := TS_COMPLETED \<rparr>) (rs_tasks (sc_state s))"
    by (simp add: upd_task_upd_task)
  ultimately show ?thesis using that [of "?s3\<lparr> sc_world := w \<rparr>"] by simp
qed

lemma finish_attempt_retry:
  assumes em: "accepting_emit em_op" and t: "find_task k (rs_tasks (sc_state s)) = Some t" "t_status t = TS_RUNNING"
    and e: "e \<noteq> CancelledError" "retryable e" "n < rp_max_attempts policy"
  obtains s' where "finish_attempt em_op diag policy k n (Exec_error e) s = (Inr False, s')"
    and "rs_tasks (sc_state s') = upd_task k (\<lambda>t. t\<lparr> t_status := TS_READY \<rparr>) (rs_tasks (sc_state s))"
proof -
  have 1: "transition_in k TS_READY s = (Inr (), s\<lparr> sc_state := set_tasks (upd_task k
      (\<lambda>t. t\<lparr> t_status := TS_READY \<rparr>)) (sc_state s) \<rparr>)" (is "_ = (_, ?s1)")
    by (rule transition_in_ok [OF t(1)]) (simp add: t(2))
  obtain w where 2: "emit_in em_op TASK_PROGRESS (Some k)
      [(''action'', JStr ''retry_scheduled''), (''attempt'', JInt n),
       (''error_code'', JStr ''TASK_EXECUTION_FAILED''), (''internal_diagnostic'', diag e t n)] ?s1
      = (Inr (), ?s1\<lparr> sc_world := w \<rparr>)"
    using emit_in_accepting [OF em] by blast
  have "finish_attempt em_op diag policy k n (Exec_error e) s = (Inr False, ?s1\<lparr> sc_world := w \<rparr>)"
    unfolding finish_attempt_def
    using t e 1 2 by (simp add: task_in_def state_task_def ebind_def)
  then show ?thesis using that [of "?s1\<lparr> sc_world := w \<rparr>"] by simp
qed

section \<open>The invariant of a wave that goes well\<close>

fun control_status :: "task_control option \<Rightarrow> task_status \<Rightarrow> task_status" where
  "control_status (Some (TC_start n)) st = TS_READY"
| "control_status (Some (TC_running n)) st = TS_RUNNING"
| "control_status (Some TC_done) st = TS_COMPLETED"
| "control_status _ st = st"

text \<open>The tasks as the wave found them, with the statuses that the controls stand for.\<close>

definition wave_tasks :: "'w wave \<Rightarrow> task list \<Rightarrow> task list" where
  "wave_tasks w ts = map (\<lambda>t. t\<lparr> t_status := control_status (wv_control w (t_task_id t)) (t_status t) \<rparr>) ts"

fun control_ok :: "retry_policy \<Rightarrow> task_control \<Rightarrow> bool" where
  "control_ok policy (TC_start n) \<longleftrightarrow> n \<le> rp_max_attempts policy"
| "control_ok policy (TC_running n) \<longleftrightarrow> n \<le> rp_max_attempts policy"
| "control_ok policy TC_done \<longleftrightarrow> True"
| "control_ok policy (TC_raised e) \<longleftrightarrow> False"

definition goes_well :: "retry_policy \<Rightarrow> string list \<Rightarrow> task list \<Rightarrow> 'w wave \<Rightarrow> bool" where
  "goes_well policy ready ts w \<longleftrightarrow>
     map task_key (rs_tasks (sc_state (wv_sched w))) = map task_key (wave_tasks w ts)
     \<and> (\<forall>k. case wv_control w k of None \<Rightarrow> k \<notin> set ready | Some c \<Rightarrow> k \<in> set ready \<and> control_ok policy c)"

lemma wave_tasks_ids [simp]: "task_ids (wave_tasks w ts) = task_ids ts"
  unfolding wave_tasks_def by (rule map_keeps_ids) simp

lemma wave_tasks_set:
  assumes "distinct (task_ids ts)" and "\<And>st. control_status (Some c) st = x"
  shows "wave_tasks (set_control k c (w\<lparr> wv_sched := s' \<rparr>)) ts
    = upd_task k (\<lambda>t. t\<lparr> t_status := x \<rparr>) (wave_tasks w ts)"
proof -
  have "distinct (task_ids (wave_tasks w ts))" using assms(1) by simp
  from upd_task_eq_map [OF this] assms(2) show ?thesis
    by (auto simp: wave_tasks_def set_control_def)
qed

lemma goes_well_task:
  assumes "goes_well policy ready ts w" and "wv_control w k = Some c" and "set ready \<subseteq> set (task_ids ts)"
    and "\<And>st. control_status (Some c) st = x"
  obtains t where "find_task k (rs_tasks (sc_state (wv_sched w))) = Some t" "t_status t = x"
proof -
  have "k \<in> set (task_ids ts)"
    using assms(1-3) unfolding goes_well_def by (metis (no_types, lifting) option.case(2) subsetD)
  then obtain v where v: "find_task k ts = Some v" using find_task_known by blast
  then have "t_task_id v = k" using find_task_SomeD by blast
  have "find_task k (wave_tasks w ts)
      = Some (v\<lparr> t_status := control_status (wv_control w (t_task_id v)) (t_status v) \<rparr>)"
    using v unfolding wave_tasks_def by (subst find_task_map) simp_all
  from keys_find [OF _ this] assms(1) obtain u where "find_task k (rs_tasks (sc_state (wv_sched w))) = Some u"
    "task_key u = task_key (v\<lparr> t_status := control_status (wv_control w (t_task_id v)) (t_status v) \<rparr>)"
    unfolding goes_well_def by blast
  with that assms(2,4) \<open>t_task_id v = k\<close> show ?thesis by (auto simp: task_key_def)
qed

lemma goes_well_segment:
  assumes w: "goes_well policy ready ts w" and k: "wv_control w k = Some c0"
    and ids: "distinct (task_ids ts)"
    and c: "control_ok policy c" "\<And>st. control_status (Some c) st = x"
    and s': "rs_tasks (sc_state s') = upd_task k f (rs_tasks (sc_state (wv_sched w)))"
    and f: "\<And>t. task_key (f t) = task_key (t\<lparr> t_status := x \<rparr>)"
  shows "goes_well policy ready ts (set_control k c (w\<lparr> wv_sched := s' \<rparr>))"
proof -
  have keys: "map task_key (rs_tasks (sc_state (wv_sched w))) = map task_key (wave_tasks w ts)"
    and dom: "\<And>j. case wv_control w j of None \<Rightarrow> j \<notin> set ready | Some c \<Rightarrow> j \<in> set ready \<and> control_ok policy c"
    using w by (auto simp: goes_well_def)
  have "map task_key (rs_tasks (sc_state s'))
      = map task_key (wave_tasks (set_control k c (w\<lparr> wv_sched := s' \<rparr>)) ts)"
    unfolding wave_tasks_set [OF ids c(2)] s' by (rule keys_upd [OF f keys])
  moreover have "k \<in> set ready" using dom [of k] k by simp
  ultimately show ?thesis
    using dom c(1) by (auto simp: goes_well_def set_control_def)
qed

lemma driven_step_goes_well:
  assumes em: "accepting_emit em_op" and ok: "eventually_succeeds policy may" and env: "keeps_tasks env"
    and ids: "distinct (task_ids ts)" and known: "set ready \<subseteq> set (task_ids ts)"
    and st: "driven_step em_op diag policy env may w w'" and w: "goes_well policy ready ts w"
  shows "goes_well policy ready ts w'"
  using st
proof cases
  case (drive_start k n r s')
  from goes_well_task [OF w drive_start(2) known, of TS_READY] obtain t where
    t: "find_task k (rs_tasks (sc_state (wv_sched w))) = Some t" "t_status t = TS_READY" by auto
  obtain wd where run: "start_attempt em_op k n (wv_sched w) = (Inr (), (wv_sched w)\<lparr> sc_state := set_tasks (upd_task k
      (\<lambda>t. t\<lparr> t_status := TS_RUNNING, t_attempt_count := n \<rparr>)) (sc_state (wv_sched w)), sc_world := wd \<rparr>)"
    using start_attempt_ok [OF em t] .
  from run drive_start(4) have r: "r = Inr ()"
    and s': "rs_tasks (sc_state s') = upd_task k (\<lambda>t. t\<lparr> t_status := TS_RUNNING, t_attempt_count := n \<rparr>)
      (rs_tasks (sc_state (wv_sched w)))"
    by simp_all
  from r show ?thesis
    unfolding drive_start(1)
    by (intro goes_well_segment [OF w drive_start(2) ids _ _ s', of _ TS_RUNNING])
      (use drive_start(3) in \<open>simp_all add: task_key_def\<close>)
next
  case (drive_finish k n outcome r s')
  from goes_well_task [OF w drive_finish(2) known, of TS_RUNNING] obtain t where
    t: "find_task k (rs_tasks (sc_state (wv_sched w))) = Some t" "t_status t = TS_RUNNING" by auto
  show ?thesis
  proof (cases outcome)
    case (Exec_result ref outs)
    obtain s1 where run: "finish_attempt em_op diag policy k n (Exec_result ref outs) (wv_sched w) = (Inr True, s1)"
        "rs_tasks (sc_state s1) = upd_task k (\<lambda>t. t\<lparr> t_result_ref := ref, t_progress := 1,
          t_status := TS_COMPLETED \<rparr>) (rs_tasks (sc_state (wv_sched w)))"
      using finish_attempt_result [OF em t] .
    from run drive_finish(4) have r: "r = Inr True"
      and s': "rs_tasks (sc_state s') = upd_task k (\<lambda>t. t\<lparr> t_result_ref := ref, t_progress := 1,
        t_status := TS_COMPLETED \<rparr>) (rs_tasks (sc_state (wv_sched w)))"
      by (simp_all add: Exec_result)
    from r show ?thesis
      unfolding drive_finish(1)
      by (intro goes_well_segment [OF w drive_finish(2) ids _ _ s', of _ TS_COMPLETED])
        (simp_all add: task_key_def)
  next
    case (Exec_error e)
    have "case outcome of Exec_result _ _ \<Rightarrow> True
      | Exec_error e \<Rightarrow> e \<noteq> CancelledError \<and> retryable e \<and> n < rp_max_attempts policy"
      using ok drive_finish(3) unfolding eventually_succeeds_def by blast
    then have e: "e \<noteq> CancelledError" "retryable e" "n < rp_max_attempts policy"
      by (simp_all add: Exec_error)
    obtain s1 where run: "finish_attempt em_op diag policy k n (Exec_error e) (wv_sched w) = (Inr False, s1)"
        "rs_tasks (sc_state s1) = upd_task k (\<lambda>t. t\<lparr> t_status := TS_READY \<rparr>) (rs_tasks (sc_state (wv_sched w)))"
      using finish_attempt_retry [OF em t e] .
    from run drive_finish(4) have r: "r = Inr False"
      and s': "rs_tasks (sc_state s') = upd_task k (\<lambda>t. t\<lparr> t_status := TS_READY \<rparr>)
        (rs_tasks (sc_state (wv_sched w)))"
      by (simp_all add: Exec_error)
    from r show ?thesis
      unfolding drive_finish(1)
      by (intro goes_well_segment [OF w drive_finish(2) ids _ _ s', of _ TS_READY]) (use e(3) in simp_all)
  qed
next
  case (drive_env s')
  with w env show ?thesis by (auto simp: goes_well_def keeps_tasks_def wave_tasks_def)
qed

lemma start_goes_well:
  assumes "retry_policy_valid policy"
    and "\<And>t. t \<in> set (rs_tasks (sc_state s)) \<Longrightarrow> t_task_id t \<in> set ready \<Longrightarrow> t_status t = TS_READY"
  shows "goes_well policy ready (rs_tasks (sc_state s)) (start_wave ready s)"
proof -
  have "t\<lparr> t_status := control_status (wv_control (start_wave ready s) (t_task_id t)) (t_status t) \<rparr> = t"
    if "t \<in> set (rs_tasks (sc_state s))" for t
    using assms(2) [OF that] by (auto simp: start_wave_def)
  then have w: "wave_tasks (start_wave ready s) (rs_tasks (sc_state s)) = rs_tasks (sc_state s)"
    unfolding wave_tasks_def by (rule map_idI)
  show ?thesis
    unfolding goes_well_def w using assms(1) by (simp add: start_wave_def retry_policy_valid_def)
qed

definition complete_task :: "task \<Rightarrow> task" where
  "complete_task t = t\<lparr> t_status := TS_COMPLETED \<rparr>"

text \<open>
  Whatever interleaving a wave takes, when its coroutines have ended no result is an exception, the
  tasks of the wave are completed, and the others are as they were.
\<close>

lemma gathers_complete:
  assumes em: "accepting_emit em_op" and pol: "retry_policy_valid policy"
    and ok: "eventually_succeeds policy may" and env: "keeps_tasks env"
    and g: "gathers em_op diag policy env may gather" and dist: "distinct ready"
    and ids: "distinct (task_ids (rs_tasks (sc_state s)))"
    and known: "set ready \<subseteq> set (task_ids (rs_tasks (sc_state s)))"
    and ready: "\<And>t. t \<in> set (rs_tasks (sc_state s)) \<Longrightarrow> t_task_id t \<in> set ready \<Longrightarrow> t_status t = TS_READY"
  obtains s' where "gather ready s = (map (\<lambda>_. None) ready, s')"
    and "map task_key (rs_tasks (sc_state s')) = map task_key
      (map (\<lambda>t. if t_task_id t \<in> set ready then complete_task t else t) (rs_tasks (sc_state s)))"
proof -
  from g dist obtain w where reach: "(driven_step em_op diag policy env may)\<^sup>*\<^sup>* (start_wave ready s) w"
    and fin: "\<And>k. k \<in> set ready \<Longrightarrow> \<exists>c. wv_control w k = Some c \<and> ended policy c"
    and res: "gather ready s = (map (\<lambda>k. wave_result (the (wv_control w k))) ready, wv_sched w)"
    unfolding gathers_def by blast
  from reach have inv: "goes_well policy ready (rs_tasks (sc_state s)) w"
    by (induction rule: rtranclp_induct)
      (auto intro: start_goes_well [OF pol ready] driven_step_goes_well [OF em ok env ids known])
  have keys: "map task_key (rs_tasks (sc_state (wv_sched w))) = map task_key (wave_tasks w (rs_tasks (sc_state s)))"
    and dom: "\<And>j. case wv_control w j of None \<Rightarrow> j \<notin> set ready | Some c \<Rightarrow> j \<in> set ready \<and> control_ok policy c"
    using inv by (auto simp: goes_well_def)
  have fini: "wv_control w k = Some TC_done" if "k \<in> set ready" for k
  proof -
    from fin [OF that] obtain c where c: "wv_control w k = Some c" "ended policy c" by blast
    with dom [of k] have "control_ok policy c" by simp
    with c show ?thesis by (cases c) auto
  qed
  have out: "wv_control w k = None" if "k \<notin> set ready" for k
    using dom [of k] that by (auto split: option.splits)
  have "wave_tasks w (rs_tasks (sc_state s))
      = map (\<lambda>t. if t_task_id t \<in> set ready then complete_task t else t) (rs_tasks (sc_state s))"
    using fini out by (auto simp: wave_tasks_def complete_task_def)
  moreover have "map (\<lambda>k. wave_result (the (wv_control w k))) ready = map (\<lambda>_. None) ready"
    using fini by simp
  ultimately show ?thesis using that [of "wv_sched w"] res keys by simp
qed

section \<open>Two schedules\<close>

text \<open>One task after the other, with executors that end with outcomes they may have.\<close>

definition runs_executor where
  "runs_executor env may ex \<longleftrightarrow> (\<forall>k n s outcome s'. ex k n s = (outcome, s') \<longrightarrow>
     may k n outcome \<and> (s' = s \<or> env s s'))"

lemma set_control_simps [simp]:
  "wv_control (set_control k c w) = (wv_control w)(k \<mapsto> c)" "wv_sched (set_control k c w) = wv_sched w"
  by (simp_all add: set_control_def)

lemma env_steps:
  assumes "s' = wv_sched w \<or> env (wv_sched w) s'"
  shows "(driven_step em_op diag policy env may)\<^sup>*\<^sup>* w (w\<lparr> wv_sched := s' \<rparr>)"
  using assms by (auto intro: drive_env)

lemma run_attempts_driven:
  assumes ex: "runs_executor env may ex"
  shows "run_attempts em_op diag policy ex k n remaining (wv_sched w) = (r, s') \<Longrightarrow>
    wv_control w k = Some (TC_start n) \<Longrightarrow> int remaining = rp_max_attempts policy - n + 1 \<Longrightarrow>
    \<exists>w' c. (driven_step em_op diag policy env may)\<^sup>*\<^sup>* w w' \<and> wv_sched w' = s'
      \<and> wv_control w' = (wv_control w)(k \<mapsto> c) \<and> ended policy c \<and> wave_result c = r"
proof (induction remaining arbitrary: n w)
  case 0
  then show ?case by (intro exI [of _ w] exI [of _ "TC_start n"]) (auto simp: fun_upd_idem)
next
  case (Suc remaining)
  let ?step = "driven_step em_op diag policy env may"
  obtain r1 s1 where 1: "start_attempt em_op k n (wv_sched w) = (r1, s1)" by fastforce
  define w1 where "w1 = set_control k (started_control n r1) (w\<lparr> wv_sched := s1 \<rparr>)"
  have step1: "?step w w1"
    unfolding w1_def by (rule drive_start [OF Suc.prems(2) _ 1]) (use Suc.prems(3) in simp)
  show ?case
  proof (cases r1)
    case (Inl e)
    with Suc.prems(1) 1 have "r = Some e" "s' = s1" by simp_all
    with Inl step1 show ?thesis
      by (intro exI [of _ w1] exI [of _ "TC_raised e"]) (auto simp: w1_def)
  next
    case (Inr u)
    obtain outcome s2 where 2: "ex k n s1 = (outcome, s2)" by fastforce
    obtain r3 s3 where 3: "finish_attempt em_op diag policy k n outcome s2 = (r3, s3)" by fastforce
    define w2 where "w2 = w1\<lparr> wv_sched := s2 \<rparr>"
    define w3 where "w3 = set_control k (finished_control n r3) (w2\<lparr> wv_sched := s3 \<rparr>)"
    from ex 2 have may: "may k n outcome" and env: "s2 = wv_sched w1 \<or> env (wv_sched w1) s2"
      unfolding runs_executor_def w1_def by auto
    have "?step\<^sup>*\<^sup>* w1 w2"
      unfolding w2_def by (rule env_steps [where env = env, OF env])
    moreover have "?step w2 w3"
      unfolding w3_def
      by (rule drive_finish [where may = may, OF _ may]) (simp_all add: w2_def w1_def Inr 3)
    ultimately have reach: "?step\<^sup>*\<^sup>* w w3" using step1 by (meson converse_rtranclp_into_rtranclp rtranclp.rtrancl_into_rtrancl)
    have run: "(case r3 of Inl e \<Rightarrow> (Some e, s3) | Inr True \<Rightarrow> (None, s3)
        | Inr False \<Rightarrow> run_attempts em_op diag policy ex k (n + 1) remaining s3) = (r, s')"
      using Suc.prems(1) 1 2 3 Inr by (auto split: sum.splits bool.splits)
    have c3: "wv_control w3 = (wv_control w)(k \<mapsto> finished_control n r3)" "wv_sched w3 = s3"
      by (simp_all add: w3_def w2_def w1_def)
    show ?thesis
    proof (cases "r3 = Inr False")
      case True
      from True run c3 have "run_attempts em_op diag policy ex k (n + 1) remaining (wv_sched w3) = (r, s')" by simp
      moreover have "wv_control w3 k = Some (TC_start (n + 1))" by (simp add: c3 True)
      moreover have "int remaining = rp_max_attempts policy - (n + 1) + 1" using Suc.prems(3) by simp
      ultimately obtain w' c where "?step\<^sup>*\<^sup>* w3 w'" "wv_sched w' = s'"
        "wv_control w' = (wv_control w3)(k \<mapsto> c)" "ended policy c" "wave_result c = r"
        using Suc.IH [of "n + 1" w3] by blast
      with reach c3 show ?thesis by (intro exI [of _ w'] exI [of _ c]) (auto intro: rtranclp_trans)
    next
      case False
      with run have "wave_result (finished_control n r3) = r" "ended policy (finished_control n r3)" "s3 = s'"
        by (auto split: sum.splits bool.splits)
      with reach c3 show ?thesis by (intro exI [of _ w3] exI [of _ "finished_control n r3"]) simp
    qed
  qed
qed

lemma seq_gather_driven:
  assumes ex: "runs_executor env may ex" and pol: "retry_policy_valid policy"
  shows "distinct ks \<Longrightarrow> \<forall>k \<in> set ks. wv_control w k = Some (TC_start 1) \<Longrightarrow>
    seq_gather em_op diag policy ex ks (wv_sched w) = (rs, s') \<Longrightarrow>
    \<exists>w'. (driven_step em_op diag policy env may)\<^sup>*\<^sup>* w w' \<and> wv_sched w' = s'
      \<and> (\<forall>k. k \<notin> set ks \<longrightarrow> wv_control w' k = wv_control w k)
      \<and> (\<forall>k \<in> set ks. \<exists>c. wv_control w' k = Some c \<and> ended policy c)
      \<and> rs = map (\<lambda>k. wave_result (the (wv_control w' k))) ks"
proof (induction ks arbitrary: w rs)
  case Nil
  then show ?case by auto
next
  case (Cons k ks)
  let ?step = "driven_step em_op diag policy env may"
  obtain r s1 where 1: "execute_task em_op diag policy ex k (wv_sched w) = (r, s1)" by fastforce
  obtain rs' where 2: "seq_gather em_op diag policy ex ks s1 = (rs', s')" and rs: "rs = r # rs'"
    using Cons.prems(3) 1 by (auto split: prod.splits)
  have "int (nat (rp_max_attempts policy)) = rp_max_attempts policy - 1 + 1"
    using pol by (simp add: retry_policy_valid_def)
  from run_attempts_driven [OF ex 1 [unfolded execute_task_def] _ this] Cons.prems(2) obtain w1 c where
    w1: "?step\<^sup>*\<^sup>* w w1" "wv_sched w1 = s1" "wv_control w1 = (wv_control w)(k \<mapsto> c)" "ended policy c"
      "wave_result c = r"
    by auto
  have "\<forall>j \<in> set ks. wv_control w1 j = Some (TC_start 1)" using Cons.prems(1,2) w1(3) by auto
  from Cons.IH [OF _ this, of rs'] Cons.prems(1) 2 w1(2) obtain w2 where
    w2: "?step\<^sup>*\<^sup>* w1 w2" "wv_sched w2 = s'" "\<forall>j. j \<notin> set ks \<longrightarrow> wv_control w2 j = wv_control w1 j"
      "\<forall>j \<in> set ks. \<exists>c. wv_control w2 j = Some c \<and> ended policy c"
      "rs' = map (\<lambda>j. wave_result (the (wv_control w2 j))) ks"
    by auto
  have "wv_control w2 k = Some c" using w2(3) w1(3) Cons.prems(1) by simp
  with w1 w2 rs show ?case by (intro exI [of _ w2]) (auto intro: rtranclp_trans)
qed

lemma seq_gather_gathers:
  assumes "runs_executor env may ex" and "retry_policy_valid policy"
  shows "gathers em_op diag policy env may (seq_gather em_op diag policy ex)"
  unfolding gathers_def
proof (intro allI impI)
  fix ready :: "string list" and s :: "'a sched" assume d: "distinct ready"
  obtain rs s' where run: "seq_gather em_op diag policy ex ready s = (rs, s')" by fastforce
  have "\<forall>k \<in> set ready. wv_control (start_wave ready s) k = Some (TC_start 1)" by (simp add: start_wave_def)
  from seq_gather_driven [OF assms d this, of em_op diag rs s'] run obtain w where
    "(driven_step em_op diag policy env may)\<^sup>*\<^sup>* (start_wave ready s) w" "wv_sched w = s'"
    "\<forall>k \<in> set ready. \<exists>c. wv_control w k = Some c \<and> ended policy c"
    "rs = map (\<lambda>k. wave_result (the (wv_control w k))) ready"
    by (auto simp: start_wave_def)
  with run show "\<exists>w. (driven_step em_op diag policy env may)\<^sup>*\<^sup>* (start_wave ready s) w
        \<and> (\<forall>k \<in> set ready. \<exists>c. wv_control w k = Some c \<and> ended policy c)
        \<and> seq_gather em_op diag policy ex ready s = (map (\<lambda>k. wave_result (the (wv_control w k))) ready, wv_sched w)"
    by blast
qed

text \<open>
  All tasks at once: every task of the wave starts, then the executors return, the last started first.
\<close>

definition start_one where
  "start_one em_op k w = (case start_attempt em_op k 1 (wv_sched w) of
     (r, s') \<Rightarrow> set_control k (started_control 1 r) (w\<lparr> wv_sched := s' \<rparr>))"

definition finish_one where
  "finish_one em_op diag policy ref k w = (case wv_control w k of
       Some (TC_running n) \<Rightarrow>
         (case finish_attempt em_op diag policy k n (Exec_result (ref k) []) (wv_sched w) of
            (r, s') \<Rightarrow> set_control k (finished_control n r) (w\<lparr> wv_sched := s' \<rparr>))
     | _ \<Rightarrow> w)"

definition overlap_gather where
  "overlap_gather em_op diag policy ref ready s =
     (let w = foldr (finish_one em_op diag policy ref) ready (fold (start_one em_op) ready (start_wave ready s))
      in (map (\<lambda>k. wave_result (the (wv_control w k))) ready, wv_sched w))"

lemma start_all_driven:
  assumes pol: "retry_policy_valid policy"
  shows "distinct ks \<Longrightarrow> \<forall>k \<in> set ks. wv_control w k = Some (TC_start 1) \<Longrightarrow>
    (driven_step em_op diag policy env may)\<^sup>*\<^sup>* w (fold (start_one em_op) ks w)
    \<and> (\<forall>k. k \<notin> set ks \<longrightarrow> wv_control (fold (start_one em_op) ks w) k = wv_control w k)
    \<and> (\<forall>k \<in> set ks. \<exists>r. wv_control (fold (start_one em_op) ks w) k = Some (started_control 1 r))"
proof (induction ks arbitrary: w)
  case Nil
  then show ?case by simp
next
  case (Cons k ks)
  let ?step = "driven_step em_op diag policy env may"
  obtain r s1 where 1: "start_attempt em_op k 1 (wv_sched w) = (r, s1)" by fastforce
  define w1 where "w1 = set_control k (started_control 1 r) (w\<lparr> wv_sched := s1 \<rparr>)"
  have one: "start_one em_op k w = w1" by (simp add: start_one_def 1 w1_def)
  have "?step w w1"
    unfolding w1_def by (rule drive_start [OF _ _ 1]) (use Cons.prems(2) pol in \<open>simp_all add: retry_policy_valid_def\<close>)
  moreover have "\<forall>j \<in> set ks. wv_control w1 j = Some (TC_start 1)" using Cons.prems by (auto simp: w1_def)
  note rest = Cons.IH [OF _ this]
  moreover have "wv_control w1 k = Some (started_control 1 r)" by (simp add: w1_def)
  ultimately show ?case
    using Cons.prems(1) by (auto simp: one w1_def intro: converse_rtranclp_into_rtranclp)
qed

lemma finish_attempt_result_ends:
  "finish_attempt em_op diag policy k n (Exec_result ref outs) s = (r, s') \<Longrightarrow> ended policy (finished_control n r)"
proof -
  assume run: "finish_attempt em_op diag policy k n (Exec_result ref outs) s = (r, s')"
  show ?thesis
  proof (cases r)
    case (Inr x)
    with run have "x = True" by (simp add: finish_attempt_def ebind_eq_Inr_iff) blast
    with Inr show ?thesis by simp
  qed simp
qed

lemma finish_all_driven:
  assumes may: "\<And>k n. may k n (Exec_result (ref k) [])"
  shows "distinct ks \<Longrightarrow> \<forall>k \<in> set ks. \<exists>r. wv_control w k = Some (started_control 1 r) \<Longrightarrow>
    (driven_step em_op diag policy env may)\<^sup>*\<^sup>* w (foldr (finish_one em_op diag policy ref) ks w)
    \<and> (\<forall>k. k \<notin> set ks \<longrightarrow> wv_control (foldr (finish_one em_op diag policy ref) ks w) k = wv_control w k)
    \<and> (\<forall>k \<in> set ks. \<exists>c. wv_control (foldr (finish_one em_op diag policy ref) ks w) k = Some c \<and> ended policy c)"
proof (induction ks)
  case Nil
  then show ?case by simp
next
  case (Cons k ks)
  let ?step = "driven_step em_op diag policy env may"
  define w1 where "w1 = foldr (finish_one em_op diag policy ref) ks w"
  from Cons have w1: "?step\<^sup>*\<^sup>* w w1" "\<forall>j. j \<notin> set ks \<longrightarrow> wv_control w1 j = wv_control w j"
      "\<forall>j \<in> set ks. \<exists>c. wv_control w1 j = Some c \<and> ended policy c"
    by (simp_all add: w1_def)
  from Cons.prems w1(2) obtain r0 where k: "wv_control w1 k = Some (started_control 1 r0)" by auto
  have goal: "?step\<^sup>*\<^sup>* w1 (finish_one em_op diag policy ref k w1)
      \<and> (\<exists>c. wv_control (finish_one em_op diag policy ref k w1) = (wv_control w1)(k \<mapsto> c) \<and> ended policy c)"
  proof (cases r0)
    case (Inl e)
    with k have "wv_control w1 = (wv_control w1)(k \<mapsto> TC_raised e)" by (simp add: fun_upd_idem)
    with Inl k show ?thesis by (auto simp: finish_one_def)
  next
    case (Inr u)
    obtain r s1 where 1: "finish_attempt em_op diag policy k 1 (Exec_result (ref k) []) (wv_sched w1) = (r, s1)"
      by fastforce
    from Inr k have run: "wv_control w1 k = Some (TC_running 1)" by simp
    from drive_finish [where may = may, OF run may 1] finish_attempt_result_ends [OF 1] run 1
    show ?thesis by (auto simp: finish_one_def)
  qed
  then obtain c where c: "wv_control (finish_one em_op diag policy ref k w1) = (wv_control w1)(k \<mapsto> c)" "ended policy c"
    by blast
  have "foldr (finish_one em_op diag policy ref) (k # ks) w = finish_one em_op diag policy ref k w1"
    by (simp add: w1_def)
  with goal c w1 Cons.prems(1) show ?case by (auto intro: rtranclp_trans)
qed

lemma overlap_gather_gathers:
  assumes pol: "retry_policy_valid policy" and may: "\<And>k n. may k n (Exec_result (ref k) [])"
  shows "gathers em_op diag policy env may (overlap_gather em_op diag policy ref)"
  unfolding gathers_def
proof (intro allI impI)
  fix ready :: "string list" and s :: "'a sched" assume d: "distinct ready"
  let ?step = "driven_step em_op diag policy env may"
  define w1 where "w1 = fold (start_one em_op) ready (start_wave ready s)"
  define w2 where "w2 = foldr (finish_one em_op diag policy ref) ready w1"
  have "\<forall>k \<in> set ready. wv_control (start_wave ready s) k = Some (TC_start 1)" by (simp add: start_wave_def)
  from start_all_driven [OF pol d this, of em_op diag env may]
  have 1: "?step\<^sup>*\<^sup>* (start_wave ready s) w1" "\<forall>k \<in> set ready. \<exists>r. wv_control w1 k = Some (started_control 1 r)"
    by (simp_all add: w1_def)
  from finish_all_driven [where may = may, OF may d 1(2), of em_op diag policy env]
  have "?step\<^sup>*\<^sup>* w1 w2" "\<forall>k \<in> set ready. \<exists>c. wv_control w2 k = Some c \<and> ended policy c"
    by (simp_all add: w2_def)
  moreover have "overlap_gather em_op diag policy ref ready s
      = (map (\<lambda>k. wave_result (the (wv_control w2 k))) ready, wv_sched w2)"
    by (simp add: overlap_gather_def w2_def w1_def Let_def)
  ultimately show "\<exists>w. ?step\<^sup>*\<^sup>* (start_wave ready s) w
        \<and> (\<forall>k \<in> set ready. \<exists>c. wv_control w k = Some c \<and> ended policy c)
        \<and> overlap_gather em_op diag policy ref ready s
            = (map (\<lambda>k. wave_result (the (wv_control w k))) ready, wv_sched w)"
    using 1(1) by (meson rtranclp_trans)
qed

end
