(* ===== verification/SchedulerLive.thy ===== *)
theory SchedulerLive
  imports GatherWave
begin

text \<open>
  Progress: on a well-formed graph whose tasks have no output contract, with stores that accept every
  write and executors that succeed within their attempts, the scheduler completes every task, one
  dependency layer per wave, and never deadlocks, whatever interleaving each wave takes.
\<close>

section \<open>The loop\<close>

definition pending :: "task list \<Rightarrow> nat" where
  "pending ts = length (filter (\<lambda>t. t_status t \<noteq> TS_COMPLETED) ts)"

lemma pending_simps [simp]:
  "pending [] = 0"
  "pending (t # ts) = (if t_status t = TS_COMPLETED then 0 else 1) + pending ts"
  by (simp_all add: pending_def)

lemma admit_completed [simp]: "t_status (admit t) = TS_COMPLETED \<longleftrightarrow> t_status t = TS_COMPLETED"
  by (simp add: admit_def)

lemma pending_admit [simp]: "pending (map admit ts) = pending ts"
  by (induction ts) simp_all

lemma efold_skip: "(\<And>x. x \<in> set xs \<Longrightarrow> f x s = (Inr (), s)) \<Longrightarrow> efold f xs s = (Inr (), s)"
  by (induction xs) simp_all

lemma announce_ok:
  assumes "accepting_emit em_op"
  shows "\<exists>w. announce_ready em_op ks s = (Inr (), s\<lparr> sc_world := w \<rparr>)"
proof (induction ks arbitrary: s)
  case Nil
  then show ?case by (auto simp: announce_ready_def intro: exI [of _ "sc_world s"])
next
  case (Cons k ks)
  obtain w where 1: "emit_in em_op TASK_READY (Some k) [] s = (Inr (), s\<lparr> sc_world := w \<rparr>)"
    using emit_in_accepting [OF assms] by blast
  obtain w' where "announce_ready em_op ks (s\<lparr> sc_world := w \<rparr>) = (Inr (), s\<lparr> sc_world := w' \<rparr>)"
    using Cons.IH [of "s\<lparr> sc_world := w \<rparr>"] by auto
  with 1 show ?case by (auto simp: announce_ready_def)
qed

lemma finish_review_ok:
  assumes "accepting_emit em_op" and "accepting_save save_op"
  obtains s' where "finish_review em_op save_op s = (Inr (), s')"
    and "sc_state s' = (sc_state s)\<lparr> rs_run_status := RS_REVIEW \<rparr>"
proof -
  let ?s0 = "s\<lparr> sc_state := (sc_state s)\<lparr> rs_run_status := RS_REVIEW \<rparr> \<rparr>"
  obtain w where 1: "emit_in em_op RUN_STATUS_CHANGED None [(''status'', JStr (run_status_value RS_REVIEW))] ?s0
      = (Inr (), ?s0\<lparr> sc_world := w \<rparr>)"
    using emit_in_accepting [OF assms(1)] by blast
  obtain w' where 2: "save_in save_op (?s0\<lparr> sc_world := w \<rparr>) = (Inr (), (?s0\<lparr> sc_world := w \<rparr>)\<lparr> sc_world := w' \<rparr>)"
    using save_in_accepting [OF assms(2)] by blast
  have "finish_review em_op save_op s = (Inr (), ?s0\<lparr> sc_world := w' \<rparr>)"
    using 1 2 by (simp add: finish_review_def ebind_def)
  then show ?thesis using that by simp
qed

lemma promoted_ids_nonempty:
  assumes calm: "calm [TS_WAITING, TS_COMPLETED] ts" and "\<not> list_all (\<lambda>t. t_status t = TS_COMPLETED) ts"
  shows "promoted_ids ts \<noteq> []"
proof -
  have wf: "graph_wf ts" using calm by (simp add: calm_def)
  have "{t \<in> set ts. t_status t \<noteq> TS_COMPLETED} \<noteq> {}" using assms(2) by (auto simp: list_all_iff)
  from graph_wf_has_source [OF wf this] obtain t where t: "t \<in> set ts" "t_status t \<noteq> TS_COMPLETED"
    and free: "\<And>u. u \<in> set ts \<Longrightarrow> t_status u \<noteq> TS_COMPLETED \<Longrightarrow> t_task_id u \<notin> set (t_dependencies t)"
    by blast
  have "set (t_dependencies t) \<subseteq> set (completed_ids ts)"
  proof
    fix d assume d: "d \<in> set (t_dependencies t)"
    then have "d \<in> set (task_ids ts)" using wf t(1) by (auto simp: graph_wf_def list_all_iff)
    then obtain u where "u \<in> set ts" "t_task_id u = d" by (auto simp: task_ids_def)
    with free d show "d \<in> set (completed_ids ts)" by (force simp: completed_ids_def)
  qed
  moreover have "t_status t = TS_WAITING" using calm t by (auto simp: calm_def list_all_iff)
  ultimately have "t \<in> set (filter (promotable ts) ts)"
    using t(1) by (simp add: promotable_def deps_completed_set)
  then show ?thesis unfolding promoted_ids_def by (metis Nil_is_map_conv empty_iff list.set(1))
qed

text \<open>What a wave does to the tasks, up to their keys: the promoted ones are completed.\<close>

definition layer_done :: "task list \<Rightarrow> task \<Rightarrow> task" where
  "layer_done ts t = (if promotable ts t then complete_task t else t)"

lemma layer_done_status [simp]: "t_status (layer_done ts t) = TS_COMPLETED \<longleftrightarrow>
    promotable ts t \<or> t_status t = TS_COMPLETED"
  by (simp add: layer_done_def complete_task_def)

lemma layer_done_tasks:
  assumes "distinct (task_ids ts)"
  shows "map (\<lambda>t. if t_task_id t \<in> set (promoted_ids ts) then complete_task t else t) (map (promote ts) ts)
    = map (layer_done ts) ts"
proof -
  have "t_task_id t \<in> set (promoted_ids ts) \<longleftrightarrow> promotable ts t" if "t \<in> set ts" for t
    using that inj_onD [OF distinct_map [THEN iffD1, THEN conjunct2, OF assms [unfolded task_ids_def]]]
    by (auto simp: promoted_ids_def)
  then show ?thesis by (auto simp: layer_done_def promote_def complete_task_def)
qed

lemma calm_layer_done:
  assumes "calm [TS_WAITING, TS_COMPLETED] ts"
  shows "calm [TS_WAITING, TS_COMPLETED] (map (layer_done ts) ts)"
  by (rule calm_map [OF assms])
    (use assms in \<open>auto simp: relabel_def layer_done_def complete_task_def calm_def list_all_iff\<close>)

lemma keys_pending:
  assumes "map task_key us = map task_key vs"
  shows "pending us = pending vs"
proof -
  have "pending ts = length (filter (\<lambda>st. st \<noteq> TS_COMPLETED) (map t_status ts))" for ts
    by (induction ts) simp_all
  moreover have "map t_status us = map t_status vs"
    by (rule keys_map [OF assms, where h = "\<lambda>(k, ds, r, m, st). st"]) (simp add: task_key_def)
  ultimately show ?thesis by metis
qed

lemma pending_layer_done:
  assumes "promoted_ids ts \<noteq> []"
  shows "pending (map (layer_done ts) ts) < pending ts"
proof -
  have le: "pending (map (layer_done ts) us) \<le> pending us" for us
    by (induction us) auto
  have lt: "pending (map (layer_done ts) us) < pending us" if "filter (promotable ts) us \<noteq> []" for us
    using that
  proof (induction us)
    case Nil
    then show ?case by simp
  next
    case (Cons u us)
    show ?case
    proof (cases "promotable ts u")
      case True
      then have "t_status u \<noteq> TS_COMPLETED" by (simp add: promotable_def)
      with True le [of us] show ?thesis by simp
    next
      case False
      with Cons show ?thesis by simp
    qed
  qed
  from assms have "filter (promotable ts) ts \<noteq> []" by (simp add: promoted_ids_def)
  then show ?thesis by (rule lt)
qed

lemma wave_errors_none: "wave_errors st (zip ks (map (\<lambda>_. None) ks)) = Inr []"
  by (induction ks) simp_all

text \<open>
  A run that goes well: accepting stores, a valid policy, and waves that \<open>gather\<close> runs in some
  interleaving, with executors that succeed in time and keep the tasks.
\<close>

definition good_run where
  "good_run em_op save_op diag policy env may gather \<longleftrightarrow> accepting_emit em_op \<and> accepting_save save_op
     \<and> retry_policy_valid policy \<and> eventually_succeeds policy may \<and> keeps_tasks env
     \<and> gathers em_op diag policy env may gather"

lemma loop_iteration:
  assumes good: "good_run em_op save_op diag policy env may gather"
    and calm: "calm [TS_CREATED, TS_WAITING, TS_COMPLETED] (rs_tasks (sc_state s))"
    and todo: "\<not> list_all (\<lambda>t. t_status t = TS_COMPLETED) (rs_tasks (sc_state s))"
  obtains s' where "run_loop em_op save_op gather (Suc fuel) s = run_loop em_op save_op gather fuel s'"
    and "map task_key (rs_tasks (sc_state s')) = map task_key
      (map (layer_done (map admit (rs_tasks (sc_state s)))) (map admit (rs_tasks (sc_state s))))"
    and "promoted_ids (map admit (rs_tasks (sc_state s))) \<noteq> []"
    and "calm [TS_WAITING, TS_COMPLETED] (map admit (rs_tasks (sc_state s)))"
proof -
  from good have em: "accepting_emit em_op" and sv: "accepting_save save_op" and pol: "retry_policy_valid policy"
    and ok: "eventually_succeeds policy may" and env: "keeps_tasks env"
    and g: "gathers em_op diag policy env may gather"
    by (simp_all add: good_run_def)
  define ts where "ts = map admit (rs_tasks (sc_state s))"
  have calm1: "calm [TS_WAITING, TS_COMPLETED] ts"
    unfolding ts_def by (rule calm_map [OF calm]) (use calm in \<open>auto simp: relabel_def admit_def calm_def list_all_iff\<close>)
  have todo1: "\<not> list_all (\<lambda>t. t_status t = TS_COMPLETED) ts"
    using todo by (simp add: ts_def list.pred_map comp_def)
  let ?s1 = "s\<lparr> sc_state := set_tasks (map admit) (sc_state s) \<rparr>"
  have t1: "rs_tasks (sc_state ?s1) = ts" by (simp add: ts_def)
  have 1: "lift_visit admit_created_tasks s = (Inr [], ?s1)" by (simp add: lift_visit_def admit_sweep)
  have 2: "lift_visit block_failed_dependents ?s1 = (Inr (), ?s1)"
    using block_sweep [of "sc_state ?s1"] calm1 t1 by (simp add: lift_visit_def)
  have 3: "report_blocks em_op ?s1 = (Inr (), ?s1)"
    unfolding report_blocks_def
    by (rule efold_skip) (use calm1 t1 in \<open>auto simp: report_block_def calm_def list_all_iff\<close>)
  let ?s2 = "?s1\<lparr> sc_state := set_tasks (map (promote ts)) (sc_state ?s1) \<rparr>"
  have 4: "lift_visit promote_ready_tasks ?s1 = (Inr (promoted_ids ts), ?s2)"
    using promote_sweep [of "sc_state ?s1"] calm1 t1 by (simp add: lift_visit_def)
  obtain w where 5: "announce_ready em_op (promoted_ids ts) ?s2 = (Inr (), ?s2\<lparr> sc_world := w \<rparr>)"
    using announce_ok [OF em] by blast
  have ne: "promoted_ids ts \<noteq> []" by (rule promoted_ids_nonempty [OF calm1 todo1])
  have head: "loop_head em_op save_op s = (Inr (Some (promoted_ids ts)), ?s2\<lparr> sc_world := w \<rparr>)"
    unfolding loop_head_def using 1 2 3 4 5 ne todo1 t1 by (simp add: ebind_def)
  have ids: "distinct (task_ids ts)" using calm1 by (simp add: calm_def graph_wf_def)
  have t2: "rs_tasks (sc_state (?s2\<lparr> sc_world := w \<rparr>)) = map (promote ts) ts"
    using t1 by (simp del: map_map)
  have ready: "t_status t = TS_READY" if "t \<in> set (map (promote ts) ts)" "t_task_id t \<in> set (promoted_ids ts)" for t
  proof -
    from that(1) obtain u where u: "u \<in> set ts" "t = promote ts u" by auto
    from that(2) obtain v where v: "v \<in> set ts" "promotable ts v" "t_task_id v = t_task_id u"
      by (auto simp: promoted_ids_def u(2))
    from find_task_distinct [OF ids u(1)] find_task_distinct [OF ids v(1)] v(3) have "u = v" by simp
    with u v show ?thesis by (simp add: promote_def)
  qed
  have dist: "distinct (promoted_ids ts)"
    using ids unfolding promoted_ids_def task_ids_def by (rule distinct_map_filter)
  have known: "set (promoted_ids ts) \<subseteq> set (task_ids (map (promote ts) ts))"
    by (auto simp: promoted_ids_def task_ids_def)
  have ids2: "distinct (task_ids (map (promote ts) ts))"
    using ids map_keeps_ids [of "promote ts" ts] by simp
  obtain s3 where g3: "gather (promoted_ids ts) (?s2\<lparr> sc_world := w \<rparr>) = (map (\<lambda>_. None) (promoted_ids ts), s3)"
    and t3: "map task_key (rs_tasks (sc_state s3)) = map task_key (map (layer_done ts) ts)"
    by (rule gathers_complete [OF em pol ok env g dist, of "?s2\<lparr> sc_world := w \<rparr>", unfolded t2, OF ids2 known ready])
      (simp_all only: layer_done_tasks [OF ids])
  obtain w3 where sv3: "save_in save_op s3 = (Inr (), s3\<lparr> sc_world := w3 \<rparr>)"
    using save_in_accepting [OF sv] by blast
  have "Some CancelledError \<notin> set (map snd (zip (promoted_ids ts) (map (\<lambda>_. None) (promoted_ids ts))))"
    by auto
  then have tail: "loop_tail em_op save_op (zip (promoted_ids ts) (map (\<lambda>_. None) (promoted_ids ts))) s3
      = (Inr (), s3\<lparr> sc_world := w3 \<rparr>)"
    unfolding loop_tail_def using sv3 by (simp only: if_False) (simp add: ebind_def wave_errors_none)
  have "run_loop em_op save_op gather (Suc fuel) s = run_loop em_op save_op gather fuel (s3\<lparr> sc_world := w3 \<rparr>)"
    using head g3 tail by simp
  then show ?thesis using that [of "s3\<lparr> sc_world := w3 \<rparr>"] t3 ne calm1 by (simp add: ts_def)
qed

lemma run_loop_ok:
  assumes good: "good_run em_op save_op diag policy env may gather"
    and calm: "calm [TS_CREATED, TS_WAITING, TS_COMPLETED] (rs_tasks (sc_state s))"
    and fuel: "pending (rs_tasks (sc_state s)) < fuel"
  shows "\<exists>s'. run_loop em_op save_op gather fuel s = Some (Inr (), s')
    \<and> list_all (\<lambda>t. t_status t = TS_COMPLETED) (rs_tasks (sc_state s'))
    \<and> task_ids (rs_tasks (sc_state s')) = task_ids (rs_tasks (sc_state s))
    \<and> rs_run_status (sc_state s') = RS_REVIEW"
  using calm fuel
proof (induction fuel arbitrary: s)
  case 0
  then show ?case by simp
next
  case (Suc fuel)
  from good have em: "accepting_emit em_op" and sv: "accepting_save save_op" by (simp_all add: good_run_def)
  show ?case
  proof (cases "list_all (\<lambda>t. t_status t = TS_COMPLETED) (rs_tasks (sc_state s))")
    case True
    let ?s1 = "s\<lparr> sc_state := set_tasks (map admit) (sc_state s) \<rparr>"
    have 1: "lift_visit admit_created_tasks s = (Inr [], ?s1)" by (simp add: lift_visit_def admit_sweep)
    have all: "list_all (\<lambda>t. t_status t = TS_COMPLETED) (rs_tasks (sc_state ?s1))"
      using True by (simp add: list.pred_map comp_def)
    obtain s2 where 2: "finish_review em_op save_op ?s1 = (Inr (), s2)"
      "sc_state s2 = (sc_state ?s1)\<lparr> rs_run_status := RS_REVIEW \<rparr>"
      using finish_review_ok [OF em sv] by blast
    have "loop_head em_op save_op s = (Inr None, s2)"
      unfolding loop_head_def using 1 2(1) all by (simp add: ebind_def)
    moreover have "task_ids (map admit (rs_tasks (sc_state s))) = task_ids (rs_tasks (sc_state s))"
      by (rule map_keeps_ids) (simp add: admit_def)
    ultimately show ?thesis using all 2(2) by simp
  next
    case False
    define ts where "ts = map admit (rs_tasks (sc_state s))"
    from loop_iteration [OF good Suc.prems(1) False, of fuel] obtain s' where
      step: "run_loop em_op save_op gather (Suc fuel) s = run_loop em_op save_op gather fuel s'"
      and t: "map task_key (rs_tasks (sc_state s')) = map task_key (map (layer_done ts) ts)"
      and ne: "promoted_ids ts \<noteq> []" and calm1: "calm [TS_WAITING, TS_COMPLETED] ts"
      unfolding ts_def by blast
    have "calm [TS_CREATED, TS_WAITING, TS_COMPLETED] (rs_tasks (sc_state s'))"
      unfolding keys_calm [OF t] by (rule calm_mono [OF calm_layer_done [OF calm1]]) simp
    moreover have "pending ts = pending (rs_tasks (sc_state s))" by (simp only: ts_def pending_admit)
    then have "pending (rs_tasks (sc_state s')) < fuel"
      using pending_layer_done [OF ne] Suc.prems(2) unfolding keys_pending [OF t] by linarith
    moreover have "task_ids (rs_tasks (sc_state s')) = task_ids (rs_tasks (sc_state s))"
      unfolding keys_ids [OF t] by (simp add: task_ids_def layer_done_def admit_def complete_task_def ts_def)
    ultimately show ?thesis using Suc.IH [of s'] step by simp
  qed
qed


text \<open>
  A diamond, and stores that count the writes they accept. Its middle layer is a wave of two tasks: once
  both run at the same time, and once each after the other, where one task fails its first attempt and
  each executor writes to the store.
\<close>

definition sample_diamond :: "task list" where
  "sample_diamond = [sample_task ''D'' [''B'', ''C''] TS_CREATED, sample_task ''B'' [''A''] TS_CREATED,
     sample_task ''C'' [''A''] TS_CREATED, sample_task ''A'' [] TS_CREATED]"

definition counting_emit :: "nat emit_op" where
  "counting_emit r et t p ts n = (Inr \<lparr> ev_event_id = ''e'', ev_run_id = r, ev_task_id = t, ev_type = et,
     ev_timestamp = \<lparr> ts_instant = 0, ts_utcoffset = Some 0 \<rparr>, ev_sequence = int n + 1, ev_payload = p \<rparr>, Suc n)"

definition counting_save :: "nat save_op" where
  "counting_save st n = (Inr (), n)"

definition flaky_outcome :: "string \<Rightarrow> int \<Rightarrow> exec_outcome" where
  "flaky_outcome k n = (if k = ''B'' \<and> n < 2 then Exec_error TypeError else Exec_result None [])"

definition flaky_executor :: "string \<Rightarrow> int \<Rightarrow> nat sched \<Rightarrow> exec_outcome \<times> nat sched" where
  "flaky_executor k n s = (flaky_outcome k n, s\<lparr> sc_world := sc_world s + 10 \<rparr>)"


end
