(* ===== verification/SchedulerEnds.thy ===== *)
theory SchedulerEnds
  imports SchedulerLive
begin

text \<open>
  The other ends of a run: the fixed point of blocking, and cancellation, which leaves no task
  unfinished.
\<close>

section \<open>Blocking\<close>

text \<open>
  \<open>_block_failed_dependents\<close> terminates on every state (it is a total function) and, when it does not
  raise, stops at a fixed point: every task can be resolved and no waiting task has the decision
  \<open>BLOCKED\<close>.
\<close>

theorem blocking_reaches_fixpoint:
  assumes "block_failed_dependents st = (Inr (), st')"
  shows "no_blocked_waiting st'"
  using assms by (rule block_fixpoint)

definition sample_blocked :: "task list" where
  "sample_blocked = [sample_task ''A'' [] TS_FAILED, sample_task ''C'' [''B''] TS_WAITING,
     sample_task ''B'' [''A''] TS_WAITING]"

theorem blocking_reaches_fixpoint_witness:
  "\<exists>st'. block_failed_dependents (sample_state sample_blocked) = (Inr (), st') \<and> no_blocked_waiting st'
     \<and> map t_status (rs_tasks st') = [TS_FAILED, TS_BLOCKED, TS_BLOCKED]"
proof -
  let ?v1 = "visit block_visit (sample_state sample_blocked)"
  let ?v2 = "visit block_visit (snd ?v1)"
  let ?v3 = "visit block_visit (snd ?v2)"
  have "fst ?v1 = Inr [()] \<and> fst ?v2 = Inr [()] \<and> fst ?v3 = Inr []
      \<and> map t_status (rs_tasks (snd ?v3)) = [TS_FAILED, TS_BLOCKED, TS_BLOCKED]"
    by code_simp
  then have run: "block_failed_dependents (sample_state sample_blocked) = (Inr (), snd ?v3)"
    and st: "map t_status (rs_tasks (snd ?v3)) = [TS_FAILED, TS_BLOCKED, TS_BLOCKED]"
    by (simp_all add: block_failed_dependents.simps [of "sample_state sample_blocked"]
        block_failed_dependents.simps [of "snd ?v1"] block_failed_dependents.simps [of "snd ?v2"] split_beta)
  show ?thesis
    by (intro exI [of _ "snd ?v3"] conjI run st blocking_reaches_fixpoint [OF run])
qed

section \<open>Cancellation\<close>

definition finished_statuses :: "task_status list" where
  "finished_statuses = [TS_COMPLETED, TS_FAILED, TS_CAPABILITY_BUILD_FAILED, TS_CANCELLED]"

lemma cancel_run_state:
  assumes "cancel_run em_op save_op s = (r, s')"
  shows "rs_run_status (sc_state s') = RS_CANCELLED
    \<and> rs_tasks (sc_state s') = map cancel_task (rs_tasks (sc_state s))"
proof -
  from assms have "sc_state s' = set_tasks (map cancel_task) ((sc_state s)\<lparr> rs_run_status := RS_CANCELLED \<rparr>)"
    unfolding cancel_run_def by (auto elim!: ebind_cases dest!: emit_in_state save_in_state)
  then show ?thesis by (simp add: set_tasks_def)
qed


text \<open>
  A run of three tasks, one already completed, whose wave is cancelled; and the same run cancelled while
  \<open>RUN_STARTED\<close> is emitted.
\<close>

definition sample_cancelled :: "task list" where
  "sample_cancelled = [sample_task ''C'' [] TS_COMPLETED, sample_task ''A'' [] TS_CREATED,
     sample_task ''B'' [''A''] TS_CREATED]"

definition sample_cancelled_sched :: "nat sched" where
  "sample_cancelled_sched = \<lparr> sc_state = sample_state sample_cancelled, sc_reported = [], sc_world = 0 \<rparr>"

definition cancelled_start :: "nat emit_op" where
  "cancelled_start r et t p ts n =
     (if et = RUN_STARTED then (Inl CancelledError, n) else counting_emit r et t p ts n)"


section \<open>A normal return\<close>

text \<open>
  C31. When \<open>execute\<close> returns normally, the run is in review and either every task completed, or every
  task is settled and the run has output contracts: it never returns with work left to schedule.
\<close>

theorem execute_returns_reviewable:
  assumes "execute em_op save_op gather fuel b s = Some (Inr (), s')"
  shows "rs_run_status (sc_state s') = RS_REVIEW
    \<and> (list_all (\<lambda>t. t_status t = TS_COMPLETED) (rs_tasks (sc_state s'))
       \<or> (list_all settled (rs_tasks (sc_state s'))
          \<and> list_ex (\<lambda>t. t_output_requirements t \<noteq> None) (rs_tasks (sc_state s'))))"
proof -
  have "cancel_run em_op save_op x \<noteq> (Inr (), s')" for x
    by (auto simp: cancel_run_def ebind_eq_Inr_iff)
  then obtain s1 where "run_loop em_op save_op gather fuel s1 = Some (Inr (), s')"
    using assms by (auto simp: execute_def split: prod.splits sum.splits option.splits if_splits)
  from run_loop_returns [OF this] show ?thesis by (simp add: reviewable_def settled_for_review_def)
qed

theorem execute_returns_reviewable_witness:
  "\<exists>s'. execute counting_emit counting_save (\<lambda>ks s. ([], s)) 1 True
      \<lparr> sc_state = sample_state [sample_task ''A'' [] TS_COMPLETED], sc_reported = [], sc_world = 0 \<rparr>
        = Some (Inr (), s')
    \<and> rs_run_status (sc_state s') = RS_REVIEW"
proof -
  let ?run = "execute counting_emit counting_save (\<lambda>ks s. ([], s)) 1 True
      \<lparr> sc_state = sample_state [sample_task ''A'' [] TS_COMPLETED], sc_reported = [], sc_world = 0 \<rparr>"
  have "map_option fst ?run = Some (Inr ())" by code_simp
  then obtain s' where run: "?run = Some (Inr (), s')" by auto
  with execute_returns_reviewable [OF run] show ?thesis by blast
qed

end
