(* ===== verification/RecoveryDomain.thy ===== *)
theory RecoveryDomain
  imports Prelude Domain "HOL-Library.AList"
begin

text \<open>
  The closed contracts of model recovery: domain/recovery.py (failure classes, actions, budgets,
  candidates, decisions, contexts, evidence records), domain/model_execution.py (which models a
  task may be answered by) and the failure codes of adapters/llm/provider.py.

  A pydantic class is a record with a \<open>..._valid\<close> predicate for its field constraints and model
  validators; constructing an instance raises exactly where the predicate is false. Routes,
  providers and models are enumerations with their wire strings as \<open>..._value\<close>, because a provider
  answers with free strings that are compared against them. Seconds and milliseconds (Python
  floats) are rationals. A dict is an association list where its order matters, a map otherwise.
\<close>

section \<open>Enumerations\<close>

datatype failure_class =
    FC_MODEL_IDENTITY_MISMATCH | FC_READ_TIMEOUT | FC_PROVIDER_DEADLINE_EXCEEDED
  | FC_TASK_DEADLINE_EXCEEDED | FC_PROVIDER_UNAVAILABLE | FC_REMOTE_PROTOCOL_ERROR | FC_RATE_LIMIT
  | FC_PROVIDER_5XX | FC_OUTPUT_CONTRACT_FAILURE | FC_NON_RECOVERABLE_RUNTIME_FAILURE
  | FC_RESEARCH_SEMANTIC_FAILURE | FC_UNKNOWN

datatype rec_action =
    RETRY_SAME_ROUTE | SWITCH_MODEL | SWITCH_PROVIDER | CAPABILITY_CHECK | WAIT_AND_RETRY
  | REPLAN_TASK | CORRECT_RESEARCH_PATH | FAIL_TASK | FAIL_RUN

datatype health = H_HEALTHY | H_DEGRADED | H_UNAVAILABLE | H_UNKNOWN

datatype capability_state = CS_VERIFIED | CS_CANDIDATE | CS_UNKNOWN | CS_UNSUPPORTED | CS_QUARANTINED

datatype route_id = ROUTE_SOL | ROUTE_LUNA | ROUTE_TERRA | ROUTE_MIMO

datatype model_id = MODEL_SOL | MODEL_LUNA | MODEL_TERRA | MODEL_MIMO | MODEL_MIMO_PRO

datatype provider_id = PROV_TEAMOROUTER | PROV_MIMO

datatype failure_stage = ST_PROVIDER | ST_OUTPUT | ST_IDENTITY | ST_RESEARCH | ST_RUNTIME

datatype llm_failure =
    LF_MODEL_IDENTITY_MISMATCH | LF_PREFLIGHT_FAILURE | LF_AUTHENTICATION_FAILURE
  | LF_QUOTA_OR_RATE_LIMIT | LF_RETRYABLE_HTTP_FAILURE | LF_PROVIDER_UNAVAILABLE
  | LF_CONNECT_TIMEOUT | LF_READ_TIMEOUT | LF_OVERALL_DEADLINE_EXCEEDED | LF_REMOTE_PROTOCOL_ERROR
  | LF_INVALID_PROVIDER_RESPONSE | LF_SEMANTIC_SCHEMA_FAILURE | LF_REQUEST_REJECTED

fun model_value :: "model_id \<Rightarrow> string" where
  "model_value MODEL_SOL = ''gpt-5.6-sol''"
| "model_value MODEL_LUNA = ''gpt-5.6-luna''"
| "model_value MODEL_TERRA = ''gpt-5.6-terra''"
| "model_value MODEL_MIMO = ''mimo-v2.5''"
| "model_value MODEL_MIMO_PRO = ''mimo-v2.5-pro''"

fun provider_value :: "provider_id \<Rightarrow> string" where
  "provider_value PROV_TEAMOROUTER = ''teamorouter''"
| "provider_value PROV_MIMO = ''mimo''"

lemma model_value_inject [simp]: "model_value m = model_value m' \<longleftrightarrow> m = m'"
  by (cases m; cases m') simp_all

lemma provider_value_inject [simp]: "provider_value p = provider_value p' \<longleftrightarrow> p = p'"
  by (cases p; cases p') simp_all

section \<open>Text patterns of the contracts\<close>

definition is_lower_hex :: "char \<Rightarrow> bool" where
  "is_lower_hex c \<longleftrightarrow> c \<in> set ''0123456789abcdef''"

definition is_operation_char :: "char \<Rightarrow> bool" where
  "is_operation_char c \<longleftrightarrow>
    c \<in> set ''ABCDEFGHIJKLMNOPQRSTUVWXYZabcdefghijklmnopqrstuvwxyz0123456789:_-''"

text \<open>\<open>str.isspace\<close> on the code points below 256.\<close>

definition is_space :: "char \<Rightarrow> bool" where
  "is_space c \<longleftrightarrow> (of_char c :: nat) \<in> {9, 10, 11, 12, 13, 28, 29, 30, 31, 32, 133, 160}"

definition sha256_text :: "string \<Rightarrow> bool" where
  "sha256_text s \<longleftrightarrow> take 7 s = ''sha256:'' \<and> length s = 71 \<and> list_all is_lower_hex (drop 7 s)"

definition tagged_uuid :: "string \<Rightarrow> string \<Rightarrow> bool" where
  "tagged_uuid tag s \<longleftrightarrow> take 4 s = tag \<and> length s = 40
    \<and> list_all (\<lambda>c. is_lower_hex c \<or> c = CHR ''-'') (drop 4 s)"

section \<open>Recovery contracts\<close>

record rec_scope =
  sp_run_id :: string
  sp_task_id :: string
  sp_object_id :: string
  sp_scheme_id :: string
  sp_task_profile :: string
  sp_agent_id :: string
  sp_operation_id :: string
  sp_context_hash :: string
  sp_contract_hash :: string

definition identity_text :: "string \<Rightarrow> bool" where
  "identity_text s \<longleftrightarrow> s \<noteq> [] \<and> length s \<le> 256 \<and> \<not> list_ex is_space s"

definition exact_identity :: "rec_scope \<Rightarrow> bool" where
  "exact_identity s \<longleftrightarrow>
     take (length (sp_run_id s) + 1) (sp_task_id s) = sp_run_id s @ '':''
   \<and> list_all identity_text [sp_run_id s, sp_task_id s, sp_object_id s, sp_scheme_id s,
       sp_task_profile s, sp_agent_id s]"

definition rec_scope_valid :: "rec_scope \<Rightarrow> bool" where
  "rec_scope_valid s \<longleftrightarrow>
     1 \<le> length (sp_operation_id s) \<and> length (sp_operation_id s) \<le> 256
   \<and> list_all is_operation_char (sp_operation_id s)
   \<and> sha256_text (sp_context_hash s) \<and> sha256_text (sp_contract_hash s)
   \<and> exact_identity s"

record failure_assessment =
  fa_class :: failure_class
  fa_stage :: failure_stage
  fa_recoverable :: bool

record recovery_budget =
  rb_max_total_attempts_per_task :: int
  rb_max_same_route_attempts :: int
  rb_max_model_fallbacks :: int
  rb_max_cross_provider_switches :: int
  rb_max_capability_checks :: int
  rb_max_recovery_decisions :: int
  rb_max_runtime_replans :: int
  rb_max_total_recovery_time :: rat
  rb_max_total_recovery_cost :: "rat option"

definition recovery_budget_valid :: "recovery_budget \<Rightarrow> bool" where
  "recovery_budget_valid b \<longleftrightarrow>
     1 \<le> rb_max_total_attempts_per_task b \<and> rb_max_total_attempts_per_task b \<le> 4
   \<and> 1 \<le> rb_max_same_route_attempts b \<and> rb_max_same_route_attempts b \<le> 2
   \<and> 0 \<le> rb_max_model_fallbacks b \<and> rb_max_model_fallbacks b \<le> 2
   \<and> 0 \<le> rb_max_cross_provider_switches b \<and> rb_max_cross_provider_switches b \<le> 1
   \<and> 0 \<le> rb_max_capability_checks b \<and> rb_max_capability_checks b \<le> 3
   \<and> 0 \<le> rb_max_recovery_decisions b \<and> rb_max_recovery_decisions b \<le> 5
   \<and> rb_max_runtime_replans b = 0
   \<and> 0 < rb_max_total_recovery_time b \<and> rb_max_total_recovery_time b \<le> 300
   \<and> (case rb_max_total_recovery_cost b of None \<Rightarrow> True | Some c \<Rightarrow> 0 \<le> c)"

definition default_budget :: recovery_budget where
  "default_budget = \<lparr>rb_max_total_attempts_per_task = 3, rb_max_same_route_attempts = 1,
    rb_max_model_fallbacks = 1, rb_max_cross_provider_switches = 1, rb_max_capability_checks = 1,
    rb_max_recovery_decisions = 5, rb_max_runtime_replans = 0, rb_max_total_recovery_time = 300,
    rb_max_total_recovery_cost = None\<rparr>"

record candidate =
  cd_route :: route_id
  cd_provider :: provider_id
  cd_model :: model_id
  cd_authority_exists :: bool
  cd_health :: health
  cd_capability :: capability_state
  cd_exhausted :: bool
  cd_eligible :: bool
  cd_next_allowed_action :: rec_action
  cd_capability_evidence_refs :: "string list"

fun governed_models :: "route_id \<Rightarrow> provider_id \<times> model_id list" where
  "governed_models ROUTE_SOL = (PROV_TEAMOROUTER, [MODEL_SOL])"
| "governed_models ROUTE_LUNA = (PROV_TEAMOROUTER, [MODEL_LUNA])"
| "governed_models ROUTE_TERRA = (PROV_TEAMOROUTER, [MODEL_TERRA])"
| "governed_models ROUTE_MIMO = (PROV_MIMO, [MODEL_MIMO, MODEL_MIMO_PRO])"

definition governed_route :: "candidate \<Rightarrow> bool" where
  "governed_route c \<longleftrightarrow> cd_provider c = fst (governed_models (cd_route c))
    \<and> cd_model c \<in> set (snd (governed_models (cd_route c)))"

definition candidate_valid :: "candidate \<Rightarrow> bool" where
  "candidate_valid c \<longleftrightarrow> length (cd_capability_evidence_refs c) \<le> 12 \<and> governed_route c"

datatype decision_reason =
  NEXT_GOVERNED_ROUTE | CAPABILITY_REQUIRED | NO_ALLOWED_ROUTE | BUDGET_EXHAUSTED | NONRECOVERABLE

record recovery_decision =
  rd_scope :: rec_scope
  rd_action :: rec_action
  rd_target_route :: "route_id option"
  rd_reason_code :: decision_reason
  rd_confidence :: rat
  rd_evidence_refs :: "string list"

definition recovery_decision_valid :: "recovery_decision \<Rightarrow> bool" where
  "recovery_decision_valid d \<longleftrightarrow> 0 \<le> rd_confidence d \<and> rd_confidence d \<le> 1
    \<and> length (rd_evidence_refs d) \<le> 12"

record recovery_context =
  rc_scope :: rec_scope
  rc_failure :: failure_assessment
  rc_current_route :: route_id
  rc_candidates :: "candidate list"
  rc_attempt_history :: "route_id list"
  rc_remaining_attempts :: int
  rc_remaining_checks :: int
  rc_remaining_decisions :: int
  rc_remaining_seconds :: rat
  rc_evidence_refs :: "string list"

definition recovery_context_valid :: "recovery_context \<Rightarrow> bool" where
  "recovery_context_valid c \<longleftrightarrow>
     length (rc_candidates c) \<le> 4 \<and> length (rc_attempt_history c) \<le> 4
   \<and> 0 \<le> rc_remaining_attempts c \<and> rc_remaining_attempts c \<le> 4
   \<and> 0 \<le> rc_remaining_checks c \<and> rc_remaining_checks c \<le> 3
   \<and> 0 \<le> rc_remaining_decisions c \<and> rc_remaining_decisions c \<le> 5
   \<and> 0 \<le> rc_remaining_seconds c \<and> rc_remaining_seconds c \<le> 300
   \<and> length (rc_evidence_refs c) \<le> 12"

section \<open>Model execution policies (domain/model_execution.py)\<close>

datatype execution_outcome =
    MODEL_EXECUTION_DIRECT | MODEL_EXECUTION_SUBSTITUTED
  | MODEL_IDENTITY_OUT_OF_POLICY | PROVIDER_IDENTITY_OUT_OF_POLICY

record model_policy =
  mp_task_profile :: string
  mp_provider_route :: route_id
  mp_provider :: provider_id
  mp_preferred_model :: model_id
  mp_authorized_actual_models :: "model_id list"
  mp_dynamic_substitution_allowed :: bool
  mp_capability_states :: "(model_id \<times> capability_state) list"
  mp_recovery_budget :: recovery_budget
  mp_capability_check :: bool

definition starts_with :: "string \<Rightarrow> string \<Rightarrow> bool" where
  "starts_with p s \<longleftrightarrow> take (length p) s = p"

definition provider_boundary :: "model_policy \<Rightarrow> bool" where
  "provider_boundary p \<longleftrightarrow>
     mp_preferred_model p \<in> set (mp_authorized_actual_models p)
   \<and> (let prefix = (if mp_provider p = PROV_MIMO then ''mimo-'' else ''gpt-'') in
      list_all (\<lambda>m. starts_with prefix (model_value m)) (mp_authorized_actual_models p))"

definition model_policy_valid :: "model_policy \<Rightarrow> bool" where
  "model_policy_valid p \<longleftrightarrow> 1 \<le> length (mp_authorized_actual_models p)
     \<and> length (mp_authorized_actual_models p) \<le> 4 \<and> recovery_budget_valid (mp_recovery_budget p)
     \<and> provider_boundary p"

text \<open>The arguments are what a provider reported: free strings, or \<open>None\<close> in a stored record.\<close>

definition policy_outcome ::
    "model_policy \<Rightarrow> string option \<Rightarrow> string option \<Rightarrow> string option \<Rightarrow> execution_outcome" where
  "policy_outcome p provider wire_model actual_model = (
    if provider \<noteq> Some (provider_value (mp_provider p)) then PROVIDER_IDENTITY_OUT_OF_POLICY
    else if wire_model \<noteq> Some (model_value (mp_preferred_model p))
        \<or> actual_model \<notin> set (map (Some \<circ> model_value) (mp_authorized_actual_models p))
      then MODEL_IDENTITY_OUT_OF_POLICY
    else if actual_model \<noteq> Some (model_value (mp_preferred_model p))
      then (if mp_dynamic_substitution_allowed p then MODEL_EXECUTION_SUBSTITUTED
            else MODEL_IDENTITY_OUT_OF_POLICY)
    else MODEL_EXECUTION_DIRECT)"

definition out_of_policy :: "execution_outcome \<Rightarrow> bool" where
  "out_of_policy o' \<longleftrightarrow> o' \<in> {MODEL_IDENTITY_OUT_OF_POLICY, PROVIDER_IDENTITY_OUT_OF_POLICY}"

definition dynamic_grants :: "((string \<times> route_id) \<times> route_id list) list" where
  "dynamic_grants = [
    ((''fundamental_analysis'', ROUTE_LUNA), [ROUTE_TERRA]),
    ((''valuation_analysis'', ROUTE_LUNA), [ROUTE_TERRA]),
    ((''risk_analysis'', ROUTE_LUNA), [ROUTE_TERRA]),
    ((''risk_follow_up'', ROUTE_LUNA), [ROUTE_TERRA]),
    ((''GENERATED_CAPABILITY:free_cash_flow_margin'', ROUTE_LUNA), [ROUTE_TERRA])]"

definition task_candidates :: "(string \<times> route_id list) list" where
  "task_candidates = [
    (''GENERATED_CAPABILITY:gross_margin'', [ROUTE_SOL, ROUTE_LUNA, ROUTE_TERRA]),
    (''fundamental_analysis'', [ROUTE_SOL, ROUTE_LUNA, ROUTE_TERRA, ROUTE_MIMO]),
    (''valuation_analysis'', [ROUTE_SOL, ROUTE_LUNA, ROUTE_TERRA, ROUTE_MIMO]),
    (''risk_analysis'', [ROUTE_SOL, ROUTE_LUNA, ROUTE_TERRA, ROUTE_MIMO]),
    (''risk_follow_up'', [ROUTE_SOL, ROUTE_LUNA, ROUTE_TERRA, ROUTE_MIMO]),
    (''peer_analysis'', [ROUTE_MIMO, ROUTE_SOL, ROUTE_LUNA]),
    (''research_news_analysis'', [ROUTE_MIMO, ROUTE_SOL, ROUTE_LUNA]),
    (''report_synthesis'', [ROUTE_SOL, ROUTE_LUNA, ROUTE_TERRA, ROUTE_MIMO]),
    (''GENERATED_CAPABILITY:free_cash_flow_margin'', [ROUTE_SOL, ROUTE_LUNA, ROUTE_TERRA])]"

section \<open>Exceptions\<close>

datatype stop_reason =
  OBSERVED | POLICY_DENIED | RECOVERY_BUDGET_EXHAUSTED | INTERRUPTED_EXECUTION | STOP_NONRECOVERABLE

datatype rec_exn =
    LLMProviderError "llm_failure option"
  | RecoveryStopped stop_reason provider_id model_id "model_id list" llm_failure
  | PydanticError
  | RecValueError string
  | RecKeyError
  | StopIteration
  | RecTimeoutError
  | EvaluationAuthorizationError
  | RecCancelledError
  | OtherException

text \<open>\<open>except Exception\<close> catches everything but a cancellation, which is a \<open>BaseException\<close>.\<close>

fun catchable :: "rec_exn \<Rightarrow> bool" where
  "catchable RecCancelledError = False"
| "catchable _ = True"

section \<open>Which models may answer a task\<close>

definition dict_entry :: "('k \<times> 'v) list \<Rightarrow> 'k \<Rightarrow> rec_exn + 'v" where
  "dict_entry d k = (case map_of d k of None \<Rightarrow> Inl RecKeyError | Some v \<Rightarrow> Inr v)"

definition map_entry :: "('k \<rightharpoonup> 'v) \<Rightarrow> 'k \<Rightarrow> rec_exn + 'v" where
  "map_entry m k = (case m k of None \<Rightarrow> Inl RecKeyError | Some v \<Rightarrow> Inr v)"

text \<open>One turn of the loop over the granted substitutes: the models authorised and their states.\<close>

definition grant_target ::
    "(route_id \<times> candidate) list \<Rightarrow> (route_id \<rightharpoonup> capability_state) \<Rightarrow> bool \<Rightarrow> candidate
      \<Rightarrow> model_id list \<times> (model_id \<times> capability_state) list \<Rightarrow> route_id
      \<Rightarrow> rec_exn + model_id list \<times> (model_id \<times> capability_state) list" where
  "grant_target routes capabilities check c acc target = (
    case map_of routes target of
      None \<Rightarrow> Inr acc
    | Some other \<Rightarrow>
        if cd_authority_exists other \<and> cd_provider other = cd_provider c then
          rbind (map_entry capabilities target) (\<lambda>state.
            if state \<notin> {CS_QUARANTINED, CS_UNSUPPORTED} \<and> (state = CS_VERIFIED \<or> check) then
              Inr (fst acc @ [cd_model other], AList.update (cd_model other) state (snd acc))
            else Inr acc)
        else Inr acc)"

definition resolve_model_execution ::
    "rec_scope \<Rightarrow> route_id \<Rightarrow> (route_id \<times> candidate) list \<Rightarrow> (route_id \<rightharpoonup> capability_state)
      \<Rightarrow> recovery_budget \<Rightarrow> bool \<Rightarrow> ((string \<times> route_id) \<times> route_id list) list option
      \<Rightarrow> rec_exn + model_policy" where
  "resolve_model_execution sc route routes capabilities budget check grants =
    rbind (dict_entry routes route) (\<lambda>c.
    rbind (guard (cd_authority_exists c) (RecValueError ''Provider authority is absent'')) (\<lambda>_.
    rbind (map_entry capabilities route) (\<lambda>state.
    let table = (case grants of None \<Rightarrow> dynamic_grants | Some g \<Rightarrow> g);
        targets = (case map_of table (sp_task_profile sc, route) of None \<Rightarrow> [] | Some ts \<Rightarrow> ts) in
    rbind (rfold (grant_target routes capabilities check c) ([cd_model c], [(cd_model c, state)]) targets)
      (\<lambda>(allowed, states).
    let p = \<lparr>mp_task_profile = sp_task_profile sc, mp_provider_route = route,
        mp_provider = cd_provider c, mp_preferred_model = cd_model c,
        mp_authorized_actual_models = allowed, mp_dynamic_substitution_allowed = (1 < length allowed),
        mp_capability_states = states, mp_recovery_budget = budget, mp_capability_check = check\<rparr> in
    rbind (guard (model_policy_valid p) PydanticError) (\<lambda>_. Inr p)))))"

section \<open>Evidence records\<close>

datatype evidence_kind = ATTEMPT_STARTED | ATTEMPT_COMPLETED | DECISION | TERMINAL

datatype evidence_outcome = EO_STARTED | EO_PASS | EO_FAIL | EO_ALLOW | EO_DENY | EO_CANCELLED

datatype gate_result = GATE_ALLOW | GATE_DENY

record recovery_evidence =
  re_record_id :: string
  re_scope :: rec_scope
  re_kind :: evidence_kind
  re_attempt_id :: "string option"
  re_attempt_number :: int
  re_route :: "route_id option"
  re_provider :: "provider_id option"
  re_model :: "model_id option"
  re_capability_check :: bool
  re_outcome :: evidence_outcome
  re_failure_class :: "failure_class option"
  re_actual_model :: "model_id option"
  re_requested_model :: "model_id option"
  re_execution_policy :: "model_policy option"
  re_execution_outcome :: "execution_outcome option"
  re_policy_gate_result :: "gate_result option"
  re_candidate_hash :: "string option"
  re_reason_code :: stop_reason
  re_action :: "rec_action option"
  re_decision :: "recovery_decision option"
  re_recovery_context :: "recovery_context option"
  re_timestamp :: string
  re_latency_ms :: "rat option"
  re_input_tokens :: "int option"
  re_output_tokens :: "int option"
  re_output_hash :: "string option"

definition opt_all :: "('a \<Rightarrow> bool) \<Rightarrow> 'a option \<Rightarrow> bool" where
  "opt_all P o' = (case o' of None \<Rightarrow> True | Some x \<Rightarrow> P x)"

lemma opt_all_simps [simp]: "opt_all P None" "opt_all P (Some x) = P x"
  by (simp_all add: opt_all_def)

definition validate_execution_policy :: "recovery_evidence \<Rightarrow> bool" where
  "validate_execution_policy r = (
    case re_execution_policy r of
      None \<Rightarrow> True
    | Some p \<Rightarrow> model_policy_valid p
        \<and> mp_task_profile p = sp_task_profile (re_scope r)
        \<and> re_route r = Some (mp_provider_route p)
        \<and> re_requested_model r = Some (mp_preferred_model p)
        \<and> re_provider r = Some (mp_provider p)
        \<and> (re_outcome r = EO_PASS \<longrightarrow>
            (let outcome = policy_outcome p (map_option provider_value (re_provider r))
                  (map_option model_value (re_requested_model r))
                  (map_option model_value (re_actual_model r)) in
             outcome \<in> {MODEL_EXECUTION_DIRECT, MODEL_EXECUTION_SUBSTITUTED}
             \<and> re_execution_outcome r = Some outcome
             \<and> re_policy_gate_result r = Some GATE_ALLOW)))"

definition recovery_evidence_valid :: "recovery_evidence \<Rightarrow> bool" where
  "recovery_evidence_valid r \<longleftrightarrow>
     tagged_uuid ''REC-'' (re_record_id r) \<and> opt_all (tagged_uuid ''ATT-'') (re_attempt_id r)
   \<and> 0 \<le> re_attempt_number r \<and> re_attempt_number r \<le> 4
   \<and> opt_all sha256_text (re_candidate_hash r)
   \<and> opt_all (\<lambda>x. 0 \<le> x) (re_latency_ms r) \<and> opt_all (\<lambda>x. 0 \<le> x) (re_input_tokens r)
   \<and> opt_all (\<lambda>x. 0 \<le> x) (re_output_tokens r) \<and> opt_all sha256_text (re_output_hash r)
   \<and> validate_execution_policy r"

section \<open>Facts\<close>

lemma governed_prefix:
  assumes "governed_route c"
  shows "starts_with (if cd_provider c = PROV_MIMO then ''mimo-'' else ''gpt-'') (model_value (cd_model c))"
  using assms by (cases "cd_route c"; cases "cd_model c") (simp_all add: governed_route_def starts_with_def)

lemma policy_outcome_in_policy:
  assumes "\<not> out_of_policy (policy_outcome p provider wire actual)"
  shows "provider = Some (provider_value (mp_provider p))"
    and "wire = Some (model_value (mp_preferred_model p))"
    and "\<exists>m \<in> set (mp_authorized_actual_models p). actual = Some (model_value m)"
  using assms by (auto simp: policy_outcome_def out_of_policy_def split: if_splits)

lemma grant_target_Inr:
  assumes "grant_target routes capabilities check c acc target = Inr acc'"
  obtains "acc' = acc"
  | other state where "map_of routes target = Some other" "cd_authority_exists other"
      "cd_provider other = cd_provider c" "capabilities target = Some state"
      "state \<notin> {CS_QUARANTINED, CS_UNSUPPORTED}" "state = CS_VERIFIED \<or> check"
      "acc' = (fst acc @ [cd_model other], AList.update (cd_model other) state (snd acc))"
proof (cases "map_of routes target")
  case None
  with assms that(1) show ?thesis by (simp add: grant_target_def)
next
  case (Some other)
  show ?thesis
  proof (cases "cd_authority_exists other \<and> cd_provider other = cd_provider c")
    case False
    with Some assms that(1) show ?thesis by (auto simp: grant_target_def)
  next
    case True
    with Some assms obtain state where st: "capabilities target = Some state"
      by (auto simp: grant_target_def map_entry_def split: option.splits)
    show ?thesis
    proof (cases "state \<notin> {CS_QUARANTINED, CS_UNSUPPORTED} \<and> (state = CS_VERIFIED \<or> check)")
      case T2: True
      with True Some assms st show ?thesis
        by (intro that(2) [of other state]) (auto simp: grant_target_def map_entry_def)
    next
      case False
      with True Some assms st have "acc' = acc"
        by (auto simp: grant_target_def map_entry_def split: if_splits)
      then show ?thesis by (rule that(1))
    qed
  qed
qed

end
