(* ===== verification/RecoveryPolicy.thy ===== *)
theory RecoveryPolicy
  imports RecoveryDomain
begin

text \<open>
  The recovery policy of agentic/recovery_policy.py: classification of a failure, the detector that
  turns the governed routes into candidates, the deterministic Lead supervisor, and the gate
  \<open>policy_allows\<close> that every decision has to pass, whoever proposed it.
\<close>

section \<open>Classification\<close>

fun provider_failure :: "llm_failure \<Rightarrow> failure_class option" where
  "provider_failure LF_READ_TIMEOUT = Some FC_READ_TIMEOUT"
| "provider_failure LF_OVERALL_DEADLINE_EXCEEDED = Some FC_PROVIDER_DEADLINE_EXCEEDED"
| "provider_failure LF_CONNECT_TIMEOUT = Some FC_PROVIDER_UNAVAILABLE"
| "provider_failure LF_PROVIDER_UNAVAILABLE = Some FC_PROVIDER_UNAVAILABLE"
| "provider_failure LF_REMOTE_PROTOCOL_ERROR = Some FC_REMOTE_PROTOCOL_ERROR"
| "provider_failure LF_QUOTA_OR_RATE_LIMIT = Some FC_RATE_LIMIT"
| "provider_failure LF_RETRYABLE_HTTP_FAILURE = Some FC_PROVIDER_UNAVAILABLE"
| "provider_failure _ = None"

fun llm_failure_of :: "rec_exn \<Rightarrow> llm_failure option option" where
  "llm_failure_of (LLMProviderError code) = Some code"
| "llm_failure_of (RecoveryStopped _ _ _ _ code) = Some (Some code)"
| "llm_failure_of _ = None"

definition assess :: "failure_class \<Rightarrow> failure_stage \<Rightarrow> bool \<Rightarrow> failure_assessment" where
  "assess cls stage recoverable = \<lparr>fa_class = cls, fa_stage = stage, fa_recoverable = recoverable\<rparr>"

definition classify :: "rec_exn \<Rightarrow> failure_stage option \<Rightarrow> failure_assessment" where
  "classify exc stage = (
    if stage = Some ST_RESEARCH then assess FC_RESEARCH_SEMANTIC_FAILURE ST_RESEARCH False
    else if stage \<in> {Some ST_IDENTITY, Some ST_RUNTIME}
      then assess FC_NON_RECOVERABLE_RUNTIME_FAILURE (the stage) False
    else case llm_failure_of exc of
        Some code \<Rightarrow>
          if code = Some LF_MODEL_IDENTITY_MISMATCH
            then assess FC_MODEL_IDENTITY_MISMATCH ST_IDENTITY False
          else (case Option.bind code provider_failure of
              Some cls \<Rightarrow> assess cls ST_PROVIDER True
            | None \<Rightarrow>
                if code \<in> {Some LF_INVALID_PROVIDER_RESPONSE, Some LF_SEMANTIC_SCHEMA_FAILURE}
                  then assess FC_OUTPUT_CONTRACT_FAILURE ST_OUTPUT False
                else assess FC_NON_RECOVERABLE_RUNTIME_FAILURE ST_RUNTIME False)
      | None \<Rightarrow> assess FC_UNKNOWN ST_RUNTIME False)"

section \<open>Detection\<close>

type_synonym route_table = "(route_id \<times> candidate) list"

definition detector_init :: "route_table \<Rightarrow> rec_exn + route_table" where
  "detector_init routes = (
    if 4 < length routes \<or> list_ex (\<lambda>(key, route). key \<noteq> cd_route route) routes
    then Inl (RecValueError ''Invalid governed registry'') else Inr routes)"

definition get_or :: "'a \<Rightarrow> ('k \<rightharpoonup> 'a) \<Rightarrow> 'k \<Rightarrow> 'a" where
  "get_or d m k = (case m k of None \<Rightarrow> d | Some v \<Rightarrow> v)"

definition detected ::
    "(route_id \<rightharpoonup> capability_state) \<Rightarrow> route_id list \<Rightarrow> recovery_budget \<Rightarrow> (route_id \<rightharpoonup> health)
      \<Rightarrow> (route_id \<rightharpoonup> string list) \<Rightarrow> route_id \<times> candidate \<Rightarrow> candidate" where
  "detected capabilities history budget hlth evidence = (\<lambda>(key, route).
    let capability = get_or CS_UNKNOWN capabilities key;
        exhausted = rb_max_same_route_attempts budget \<le> int (count_list history key);
        available = cd_authority_exists route \<and> \<not> exhausted \<and> hlth key \<noteq> Some H_UNAVAILABLE;
        eligible = (available \<and> capability = CS_VERIFIED) in
    route\<lparr>cd_health := get_or H_UNKNOWN hlth key, cd_capability := capability,
      cd_exhausted := exhausted, cd_eligible := eligible,
      cd_next_allowed_action := (if eligible then SWITCH_PROVIDER
        else if available \<and> capability \<in> {CS_UNKNOWN, CS_CANDIDATE} then CAPABILITY_CHECK
        else FAIL_TASK),
      cd_capability_evidence_refs := get_or [] evidence key\<rparr>)"

definition candidates ::
    "route_table \<Rightarrow> (route_id \<rightharpoonup> capability_state) \<Rightarrow> route_id list \<Rightarrow> recovery_budget
      \<Rightarrow> (route_id \<rightharpoonup> health) \<Rightarrow> (route_id \<rightharpoonup> string list) \<Rightarrow> rec_exn + candidate list" where
  "candidates routes capabilities history budget hlth evidence =
    rmap (\<lambda>entry. let c = detected capabilities history budget hlth evidence entry in
      rbind (guard (candidate_valid c) PydanticError) (\<lambda>_. Inr c)) routes"

section \<open>The Lead supervisor\<close>

definition ordered_profile :: "string \<Rightarrow> bool" where
  "ordered_profile profile \<longleftrightarrow> profile \<in> {''risk_follow_up'', ''report_synthesis''}"

definition lead_decision ::
    "recovery_context \<Rightarrow> rec_action \<Rightarrow> decision_reason \<Rightarrow> route_id option \<Rightarrow> recovery_decision" where
  "lead_decision ctx action reason route = \<lparr>rd_scope = rc_scope ctx, rd_action = action,
    rd_target_route = route, rd_reason_code = reason, rd_confidence = 1,
    rd_evidence_refs = rc_evidence_refs ctx\<rparr>"

fun decide_walk :: "recovery_context \<Rightarrow> candidate \<Rightarrow> candidate list \<Rightarrow> recovery_decision option" where
  "decide_walk ctx current [] = None"
| "decide_walk ctx current (c # cs) = (
    if ordered_profile (sp_task_profile (rc_scope ctx)) \<and> 0 < rc_remaining_checks ctx
        \<and> cd_next_allowed_action c = CAPABILITY_CHECK
      then Some (lead_decision ctx CAPABILITY_CHECK CAPABILITY_REQUIRED (Some (cd_route c)))
    else if cd_eligible c then
      Some (lead_decision ctx
        (if cd_route c = cd_route current then RETRY_SAME_ROUTE
         else if cd_provider c = cd_provider current then SWITCH_MODEL else SWITCH_PROVIDER)
        NEXT_GOVERNED_ROUTE (Some (cd_route c)))
    else decide_walk ctx current cs)"

definition budget_spent :: "recovery_context \<Rightarrow> bool" where
  "budget_spent ctx \<longleftrightarrow> rc_remaining_attempts ctx \<le> 0 \<or> rc_remaining_decisions ctx \<le> 0
    \<or> rc_remaining_seconds ctx \<le> 0"

definition find_route :: "candidate list \<Rightarrow> route_id option \<Rightarrow> candidate option" where
  "find_route cs route = find (\<lambda>c. Some (cd_route c) = route) cs"

definition decide :: "recovery_context \<Rightarrow> rec_exn + recovery_decision" where
  "decide ctx = (
    if \<not> fa_recoverable (rc_failure ctx) then Inr (lead_decision ctx FAIL_TASK NONRECOVERABLE None)
    else if budget_spent ctx then Inr (lead_decision ctx FAIL_TASK BUDGET_EXHAUSTED None)
    else case find_route (rc_candidates ctx) (Some (rc_current_route ctx)) of
        None \<Rightarrow> Inl StopIteration
      | Some current \<Rightarrow>
          (case decide_walk ctx current (rc_candidates ctx) of
              Some d \<Rightarrow> Inr d
            | None \<Rightarrow>
                (case (if 0 < rc_remaining_checks ctx
                       then find (\<lambda>c. cd_next_allowed_action c = CAPABILITY_CHECK) (rc_candidates ctx)
                       else None) of
                    Some c \<Rightarrow> Inr (lead_decision ctx CAPABILITY_CHECK CAPABILITY_REQUIRED (Some (cd_route c)))
                  | None \<Rightarrow> Inr (lead_decision ctx FAIL_TASK NO_ALLOWED_ROUTE None))))"

section \<open>The independent gate\<close>

definition usable :: "candidate \<Rightarrow> bool" where
  "usable c \<longleftrightarrow> cd_authority_exists c \<and> \<not> cd_exhausted c \<and> cd_health c \<noteq> H_UNAVAILABLE"

definition action_allowed ::
    "rec_action \<Rightarrow> recovery_context \<Rightarrow> recovery_budget \<Rightarrow> int \<Rightarrow> int \<Rightarrow> candidate \<Rightarrow> candidate \<Rightarrow> bool" where
  "action_allowed action ctx budget model_switches provider_switches c current = (
    if action = CAPABILITY_CHECK then
      0 < rc_remaining_checks ctx \<and> cd_capability c \<in> {CS_UNKNOWN, CS_CANDIDATE}
      \<and> (cd_route c = cd_route current
         \<or> (if cd_provider c = cd_provider current then model_switches < rb_max_model_fallbacks budget
            else provider_switches < rb_max_cross_provider_switches budget))
    else if \<not> cd_eligible c \<or> cd_capability c \<noteq> CS_VERIFIED then False
    else if action = RETRY_SAME_ROUTE then cd_route c = cd_route current
    else if action = SWITCH_MODEL then
      cd_route c \<noteq> cd_route current \<and> cd_provider c = cd_provider current
      \<and> model_switches < rb_max_model_fallbacks budget
    else if action = SWITCH_PROVIDER then
      cd_provider c \<noteq> cd_provider current \<and> provider_switches < rb_max_cross_provider_switches budget
    else False)"

definition policy_allows ::
    "recovery_decision \<Rightarrow> recovery_context \<Rightarrow> recovery_budget \<Rightarrow> int \<Rightarrow> int \<Rightarrow> rat option \<Rightarrow> bool" where
  "policy_allows d ctx budget model_switches provider_switches cost = (
    if rd_scope d \<noteq> rc_scope ctx
        \<or> \<not> list_all (\<lambda>r. List.member (rc_evidence_refs ctx) r) (rd_evidence_refs d) then False
    else if rd_action d \<in> {FAIL_TASK, FAIL_RUN} then True
    else if \<not> fa_recoverable (rc_failure ctx) \<or> budget_spent ctx then False
    else if (case rb_max_total_recovery_cost budget of None \<Rightarrow> False
        | Some limit \<Rightarrow> (case cost of None \<Rightarrow> True | Some c \<Rightarrow> limit \<le> c)) then False
    else case (find_route (rc_candidates ctx) (rd_target_route d),
               find_route (rc_candidates ctx) (Some (rc_current_route ctx))) of
        (Some c, Some current) \<Rightarrow>
          if \<not> usable c then False
          else action_allowed (rd_action d) ctx budget model_switches provider_switches c current
      | _ \<Rightarrow> False)"

section \<open>Facts\<close>

definition candidate_sound :: "candidate \<Rightarrow> bool" where
  "candidate_sound c \<longleftrightarrow>
     (cd_eligible c \<longrightarrow> usable c \<and> cd_capability c = CS_VERIFIED)
   \<and> (cd_next_allowed_action c = CAPABILITY_CHECK \<longrightarrow>
        usable c \<and> cd_capability c \<in> {CS_UNKNOWN, CS_CANDIDATE})"

definition proposable :: "candidate \<Rightarrow> bool" where
  "proposable c \<longleftrightarrow> cd_eligible c \<or> cd_next_allowed_action c = CAPABILITY_CHECK"

text \<open>Is the switch from \<open>current\<close> to \<open>c\<close> still covered by the switch budgets?\<close>

definition switch_covered :: "recovery_budget \<Rightarrow> int \<Rightarrow> int \<Rightarrow> candidate \<Rightarrow> candidate \<Rightarrow> bool" where
  "switch_covered budget model_switches provider_switches current c \<longleftrightarrow>
     cd_route c = cd_route current
   \<or> (if cd_provider c = cd_provider current then model_switches < rb_max_model_fallbacks budget
      else provider_switches < rb_max_cross_provider_switches budget)"

lemma candidate_sound_detected: "candidate_sound (detected capabilities history budget hlth evidence e)"
proof (cases e)
  case (Pair key route)
  have "hlth key \<noteq> Some H_UNAVAILABLE \<Longrightarrow> get_or H_UNKNOWN hlth key \<noteq> H_UNAVAILABLE"
    by (cases "hlth key") (simp_all add: get_or_def)
  then show ?thesis
    by (auto simp: Pair candidate_sound_def detected_def usable_def Let_def)
qed

lemma detected_route [simp]:
  "cd_route (detected capabilities history budget hlth evidence (k, c)) = cd_route c"
  "cd_provider (detected capabilities history budget hlth evidence (k, c)) = cd_provider c"
  "cd_model (detected capabilities history budget hlth evidence (k, c)) = cd_model c"
  "cd_authority_exists (detected capabilities history budget hlth evidence (k, c)) = cd_authority_exists c"
  by (simp_all add: detected_def Let_def)

lemma candidates_Inr:
  assumes "candidates routes capabilities history budget hlth evidence = Inr cs"
  shows "cs = map (detected capabilities history budget hlth evidence) routes"
    and "\<forall>c \<in> set cs. candidate_valid c"
proof -
  have all: "list_all2 (\<lambda>e c. c = detected capabilities history budget hlth evidence e \<and> candidate_valid c) routes cs"
    using assms by (auto simp: candidates_def rmap_Inr_iff Let_def rbind_Inr_iff elim!: list_all2_mono)
  then show "cs = map (detected capabilities history budget hlth evidence) routes"
    by (induction rule: list_all2_induct) auto
  from all show "\<forall>c \<in> set cs. candidate_valid c"
    by (induction rule: list_all2_induct) auto
qed

lemma find_route_Some:
  "find_route cs r = Some c \<Longrightarrow> c \<in> set cs \<and> Some (cd_route c) = r"
  by (auto simp: find_route_def find_Some_iff)

lemma find_route_distinct:
  assumes "distinct (map cd_route cs)" and "c \<in> set cs"
  shows "find_route cs (Some (cd_route c)) = Some c"
  using assms
proof (induction cs)
  case Nil
  then show ?case by simp
next
  case (Cons x xs)
  then show ?case by (cases "x = c") (auto simp: find_route_def)
qed

text \<open>The decision \<open>d\<close> proposes the candidate \<open>c\<close>.\<close>

definition lead_choice :: "recovery_context \<Rightarrow> candidate \<Rightarrow> recovery_decision \<Rightarrow> candidate \<Rightarrow> bool" where
  "lead_choice ctx current d c \<longleftrightarrow>
     rd_target_route d = Some (cd_route c) \<and> rd_scope d = rc_scope ctx
   \<and> rd_evidence_refs d = rc_evidence_refs ctx
   \<and> (rd_action d = CAPABILITY_CHECK \<and> 0 < rc_remaining_checks ctx
        \<and> cd_next_allowed_action c = CAPABILITY_CHECK
     \<or> cd_eligible c \<and> rd_action d = (if cd_route c = cd_route current then RETRY_SAME_ROUTE
          else if cd_provider c = cd_provider current then SWITCH_MODEL else SWITCH_PROVIDER))"

lemma lead_choice_intros:
  "0 < rc_remaining_checks ctx \<Longrightarrow> cd_next_allowed_action c = CAPABILITY_CHECK \<Longrightarrow>
    lead_choice ctx current (lead_decision ctx CAPABILITY_CHECK CAPABILITY_REQUIRED (Some (cd_route c))) c"
  "cd_eligible c \<Longrightarrow> lead_choice ctx current (lead_decision ctx (if cd_route c = cd_route current
      then RETRY_SAME_ROUTE else if cd_provider c = cd_provider current then SWITCH_MODEL
      else SWITCH_PROVIDER) NEXT_GOVERNED_ROUTE (Some (cd_route c))) c"
  by (simp_all add: lead_choice_def lead_decision_def)

lemma decide_walk_Some:
  assumes "decide_walk ctx current cs = Some d"
  shows "\<exists>c \<in> set cs. lead_choice ctx current d c"
  using assms
proof (induction cs)
  case Nil
  then show ?case by simp
next
  case (Cons c cs)
  let ?check = "ordered_profile (sp_task_profile (rc_scope ctx)) \<and> 0 < rc_remaining_checks ctx
    \<and> cd_next_allowed_action c = CAPABILITY_CHECK"
  consider "?check" | "\<not> ?check" "cd_eligible c" | "\<not> ?check" "\<not> cd_eligible c" by blast
  then show ?case
  proof cases
    case 1
    then have "lead_choice ctx current d c"
      using Cons.prems lead_choice_intros(1) [of ctx c current] by simp
    then show ?thesis by simp
  next
    case 2
    then have "lead_choice ctx current d c"
      using Cons.prems lead_choice_intros(2) [of c ctx current]
      by (simp only: decide_walk.simps if_False if_True option.inject)
    then show ?thesis by simp
  next
    case 3
    then have "decide_walk ctx current cs = Some d"
      using Cons.prems by (simp only: decide_walk.simps if_False)
    then show ?thesis using Cons.IH by simp
  qed
qed

lemma decide_cases:
  assumes "decide ctx = Inr d"
  obtains (fail) reason where "d = lead_decision ctx FAIL_TASK reason None"
  | (choice) current c where "fa_recoverable (rc_failure ctx)" "\<not> budget_spent ctx"
      "find_route (rc_candidates ctx) (Some (rc_current_route ctx)) = Some current"
      "c \<in> set (rc_candidates ctx)" "lead_choice ctx current d c"
proof -
  consider "\<not> fa_recoverable (rc_failure ctx) \<or> budget_spent ctx"
    | current where "fa_recoverable (rc_failure ctx)" "\<not> budget_spent ctx"
      "find_route (rc_candidates ctx) (Some (rc_current_route ctx)) = Some current"
    using assms by (fastforce simp: decide_def split: option.splits if_splits)
  then show thesis
  proof cases
    case 1
    then show thesis using assms fail by (auto simp: decide_def split: if_splits)
  next
    case (2 current)
    let ?f = "if 0 < rc_remaining_checks ctx
      then find (\<lambda>c. cd_next_allowed_action c = CAPABILITY_CHECK) (rc_candidates ctx) else None"
    show thesis
    proof (cases "decide_walk ctx current (rc_candidates ctx)")
      case (Some d')
      with assms 2 have "d' = d" by (simp add: decide_def)
      with decide_walk_Some [OF Some] choice 2 show thesis by blast
    next
      case None
      show thesis
      proof (cases ?f)
        case none: None
        with assms 2 None have "d = lead_decision ctx FAIL_TASK NO_ALLOWED_ROUTE None"
          by (simp add: decide_def)
        then show thesis by (rule fail)
      next
        case (Some c)
        then have c: "0 < rc_remaining_checks ctx" "c \<in> set (rc_candidates ctx)"
            "cd_next_allowed_action c = CAPABILITY_CHECK"
          by (auto simp: find_Some_iff split: if_splits)
        from Some assms 2 None
        have "d = lead_decision ctx CAPABILITY_CHECK CAPABILITY_REQUIRED (Some (cd_route c))"
          by (simp add: decide_def)
        with c lead_choice_intros(1) [of ctx c current] have "lead_choice ctx current d c" by simp
        with 2 c(2) choice show thesis by blast
      qed
    qed
  qed
qed

lemma decide_allowed_gen:
  assumes d: "decide ctx = Inr d"
    and sound: "\<forall>c \<in> set (rc_candidates ctx). candidate_sound c"
    and dist: "distinct (map cd_route (rc_candidates ctx))"
    and covered: "\<forall>c \<in> set (rc_candidates ctx). \<forall>current \<in> set (rc_candidates ctx).
        cd_route current = rc_current_route ctx \<longrightarrow> proposable c \<longrightarrow> switch_covered budget ms ps current c"
    and cost: "rb_max_total_recovery_cost budget = None"
  shows "policy_allows d ctx budget ms ps None"
  using d
proof (cases rule: decide_cases)
  case (fail reason)
  then show ?thesis by (simp add: policy_allows_def lead_decision_def list_all_iff)
next
  case (choice current c)
  note cur = find_route_Some [OF choice(3)]
  have lc: "rd_target_route d = Some (cd_route c)" "rd_scope d = rc_scope ctx"
      "rd_evidence_refs d = rc_evidence_refs ctx"
    using choice(5) by (simp_all add: lead_choice_def)
  have target: "find_route (rc_candidates ctx) (rd_target_route d) = Some c"
    unfolding lc by (rule find_route_distinct [OF dist choice(4)])
  have proposed: "proposable c" using choice(5) by (auto simp: lead_choice_def proposable_def)
  then have sw: "switch_covered budget ms ps current c" using covered choice(4) cur by auto
  have snd: "candidate_sound c" using sound choice(4) by blast
  then have us: "usable c" using proposed by (auto simp: candidate_sound_def proposable_def)
  have "action_allowed (rd_action d) ctx budget ms ps c current"
    using choice(5) snd sw cur
    by (auto simp: lead_choice_def action_allowed_def candidate_sound_def switch_covered_def split: if_splits)
  then show ?thesis
    using choice(1,2,3) target us cost lc
    by (simp add: policy_allows_def list_all_iff)
qed

text \<open>What a passed gate guarantees of an action that leads to a provider call.\<close>

lemma policy_allowsE:
  assumes "policy_allows d ctx budget ms ps cost" and "rd_action d \<notin> {FAIL_TASK, FAIL_RUN}"
  obtains c current where "rd_target_route d = Some (cd_route c)" "c \<in> set (rc_candidates ctx)"
    "current \<in> set (rc_candidates ctx)" "cd_route current = rc_current_route ctx" "usable c"
    "fa_recoverable (rc_failure ctx)" "0 < rc_remaining_attempts ctx" "0 < rc_remaining_decisions ctx"
    "0 < rc_remaining_seconds ctx" "action_allowed (rd_action d) ctx budget ms ps c current"
proof -
  from assms obtain c current where
      fc: "find_route (rc_candidates ctx) (rd_target_route d) = Some c"
    and fcur: "find_route (rc_candidates ctx) (Some (rc_current_route ctx)) = Some current"
    and rest: "usable c" "action_allowed (rd_action d) ctx budget ms ps c current"
      "fa_recoverable (rc_failure ctx)" "\<not> budget_spent ctx"
    by (auto simp: policy_allows_def split: if_splits option.splits)
  show thesis
    by (rule that [of c current])
      (use find_route_Some [OF fc] find_route_Some [OF fcur] rest in \<open>auto simp: budget_spent_def\<close>)
qed

lemma action_allowed_cases:
  assumes "action_allowed action ctx budget ms ps c current"
  obtains (check) "action = CAPABILITY_CHECK" "0 < rc_remaining_checks ctx"
      "cd_capability c \<in> {CS_UNKNOWN, CS_CANDIDATE}" "switch_covered budget ms ps current c"
  | (retry) "action = RETRY_SAME_ROUTE" "cd_route c = cd_route current" "cd_capability c = CS_VERIFIED"
  | (model) "action = SWITCH_MODEL" "cd_route c \<noteq> cd_route current" "cd_provider c = cd_provider current"
      "ms < rb_max_model_fallbacks budget" "cd_capability c = CS_VERIFIED"
  | (provider) "action = SWITCH_PROVIDER" "cd_provider c \<noteq> cd_provider current"
      "ps < rb_max_cross_provider_switches budget" "cd_capability c = CS_VERIFIED"
  using assms by (auto simp: action_allowed_def switch_covered_def split: if_splits)

end
