(* ===== verification/RecoveryStore.thy ===== *)
theory RecoveryStore
  imports RecoveryDomain "HOL-Library.Multiset" "HOL-Library.Product_Lexorder"
begin

text \<open>
  The append-only evidence of infrastructure/database/recovery.py: the in-memory store, the table
  with its primary key and its partial unique index, and the reading of capability facts from the
  evidence. Both stores satisfy the contract \<open>evidence_store\<close>, on which the recovery loop relies.

  A database error (a violated key, index or foreign key) is \<open>OtherException\<close>. A row holds the
  payload as the record it was dumped from; reading it back validates it again.
\<close>

section \<open>Reading capability facts\<close>

definition starts_of :: "recovery_evidence list \<Rightarrow> string option \<Rightarrow> recovery_evidence option" where
  "starts_of records = map_of (rev (map (\<lambda>r. (re_attempt_id r, r))
    (filter (\<lambda>r. re_kind r = ATTEMPT_STARTED) records)))"

definition same_attempt :: "recovery_evidence \<Rightarrow> recovery_evidence \<Rightarrow> bool" where
  "same_attempt a b \<longleftrightarrow> re_scope a = re_scope b \<and> re_route a = re_route b \<and> re_provider a = re_provider b
    \<and> re_model a = re_model b \<and> re_attempt_number a = re_attempt_number b
    \<and> re_capability_check a = re_capability_check b"

text \<open>The record is a completed attempt of this profile and contract on a governed route.\<close>

definition relevant :: "rec_scope \<Rightarrow> (route_id \<times> candidate) list \<Rightarrow> recovery_evidence \<Rightarrow> bool" where
  "relevant sc routes r \<longleftrightarrow> re_kind r = ATTEMPT_COMPLETED
    \<and> sp_task_profile (re_scope r) = sp_task_profile sc
    \<and> sp_contract_hash (re_scope r) = sp_contract_hash sc
    \<and> (case Option.bind (re_route r) (map_of routes) of
        None \<Rightarrow> False
      | Some c \<Rightarrow> re_model r = Some (cd_model c) \<and> re_provider r = Some (cd_provider c))"

definition provenance_step ::
    "rec_scope \<Rightarrow> (route_id \<times> candidate) list \<Rightarrow> (string option \<Rightarrow> recovery_evidence option)
      \<Rightarrow> (route_id \<rightharpoonup> capability_state \<times> string) \<Rightarrow> recovery_evidence
      \<Rightarrow> (route_id \<rightharpoonup> capability_state \<times> string)" where
  "provenance_step sc routes starts result r = (
    if \<not> relevant sc routes r then result
    else case starts (re_attempt_id r) of
        None \<Rightarrow> result
      | Some s \<Rightarrow>
          if \<not> same_attempt s r then result
          else if re_outcome r = EO_PASS \<and> re_output_hash r \<notin> {None, Some []} then
            (if re_execution_outcome r = Some MODEL_EXECUTION_SUBSTITUTED then result
             else result(the (re_route r) \<mapsto> (CS_VERIFIED, re_record_id r)))
          else if re_outcome r \<noteq> EO_PASS
              \<and> (re_failure_class r = Some FC_MODEL_IDENTITY_MISMATCH
                 \<or> re_capability_check r \<and> re_failure_class r = Some FC_OUTPUT_CONTRACT_FAILURE)
            then result(the (re_route r) \<mapsto> (CS_QUARANTINED, re_record_id r))
          else result)"

definition capability_provenance ::
    "recovery_evidence list \<Rightarrow> rec_scope \<Rightarrow> (route_id \<times> candidate) list
      \<Rightarrow> (route_id \<rightharpoonup> capability_state \<times> string)" where
  "capability_provenance records sc routes =
    foldl (provenance_step sc routes (starts_of records)) Map.empty records"

definition capability_facts ::
    "recovery_evidence list \<Rightarrow> rec_scope \<Rightarrow> (route_id \<times> candidate) list \<Rightarrow> (route_id \<rightharpoonup> capability_state)" where
  "capability_facts records sc routes = (\<lambda>k. map_option fst (capability_provenance records sc routes k))"

section \<open>The in-memory store\<close>

definition entry_record :: "recovery_evidence \<Rightarrow> bool" where
  "entry_record r \<longleftrightarrow> re_kind r = ATTEMPT_STARTED \<and> re_attempt_number r = 1 \<and> \<not> re_capability_check r"

definition same_operation :: "recovery_evidence \<Rightarrow> recovery_evidence \<Rightarrow> bool" where
  "same_operation a b \<longleftrightarrow> sp_task_id (re_scope a) = sp_task_id (re_scope b)
    \<and> sp_run_id (re_scope a) = sp_run_id (re_scope b)
    \<and> sp_operation_id (re_scope a) = sp_operation_id (re_scope b)"

definition mem_append :: "recovery_evidence \<Rightarrow> (rec_exn, recovery_evidence list, unit) eff" where
  "mem_append r values = (
    if \<not> recovery_evidence_valid r then (Inl PydanticError, values)
    else if list_ex (\<lambda>v. re_record_id v = re_record_id r) values
      then (Inl (RecValueError ''Duplicate immutable record''), values)
    else if entry_record r \<and> list_ex (\<lambda>v. same_operation v r \<and> entry_record v) values
      then (Inl (RecValueError ''Duplicate task recovery entry''), values)
    else (Inr (), values @ [r]))"

definition wanted :: "string option \<Rightarrow> string option \<Rightarrow> recovery_evidence \<Rightarrow> bool" where
  "wanted run_id task_id r \<longleftrightarrow> (run_id = None \<or> run_id = Some (sp_run_id (re_scope r)))
    \<and> (task_id = None \<or> task_id = Some (sp_task_id (re_scope r)))"

definition mem_records :: "string option \<Rightarrow> string option \<Rightarrow> recovery_evidence list
    \<Rightarrow> rec_exn + recovery_evidence list" where
  "mem_records run_id task_id values = Inr (filter (wanted run_id task_id) values)"

section \<open>The table\<close>

record evidence_row =
  er_record_id :: string
  er_run_id :: string
  er_task_id :: string
  er_payload :: recovery_evidence

record evidence_db =
  db_runs :: "string list"
  db_rows :: "evidence_row list"

definition row_of :: "recovery_evidence \<Rightarrow> evidence_row" where
  "row_of r = \<lparr>er_record_id = re_record_id r, er_run_id = sp_run_id (re_scope r),
    er_task_id = sp_task_id (re_scope r), er_payload = r\<rparr>"

definition single_entry_clash :: "evidence_row \<Rightarrow> evidence_row \<Rightarrow> bool" where
  "single_entry_clash a b \<longleftrightarrow> er_run_id a = er_run_id b \<and> er_task_id a = er_task_id b
    \<and> sp_operation_id (re_scope (er_payload a)) = sp_operation_id (re_scope (er_payload b))
    \<and> entry_record (er_payload a) \<and> entry_record (er_payload b)"

definition sql_append :: "recovery_evidence \<Rightarrow> (rec_exn, evidence_db, unit) eff" where
  "sql_append r db = (
    if \<not> recovery_evidence_valid r then (Inl PydanticError, db)
    else if list_ex (\<lambda>row. er_record_id row = re_record_id r) (db_rows db)
        \<or> list_ex (single_entry_clash (row_of r)) (db_rows db)
        \<or> \<not> List.member (db_runs db) (sp_run_id (re_scope r))
      then (Inl OtherException, db)
    else (Inr (), db\<lparr>db_rows := db_rows db @ [row_of r]\<rparr>))"

definition read_row :: "evidence_row \<Rightarrow> rec_exn + recovery_evidence" where
  "read_row row = (let v = er_payload row in
    if \<not> recovery_evidence_valid v then Inl PydanticError
    else if sp_run_id (re_scope v) \<noteq> er_run_id row \<or> sp_task_id (re_scope v) \<noteq> er_task_id row
        \<or> re_record_id v \<noteq> er_record_id row
      then Inl (RecValueError ''Recovery evidence identity mismatch'')
    else Inr v)"

definition sql_records :: "string option \<Rightarrow> string option \<Rightarrow> evidence_db
    \<Rightarrow> rec_exn + recovery_evidence list" where
  "sql_records run_id task_id db =
    rbind (rmap read_row (filter (\<lambda>row. (run_id = None \<or> run_id = Some (er_run_id row))
        \<and> (task_id = None \<or> task_id = Some (er_task_id row))) (db_rows db)))
      (\<lambda>values. Inr (sort_key (\<lambda>r. (re_timestamp r, re_record_id r)) values))"

section \<open>The contract of an evidence store\<close>

locale evidence_store =
  fixes append_op :: "recovery_evidence \<Rightarrow> (rec_exn, 's, unit) eff"
    and read_op :: "string option \<Rightarrow> string option \<Rightarrow> 's \<Rightarrow> rec_exn + recovery_evidence list"
    and recorded :: "'s \<Rightarrow> recovery_evidence list"
    and store_ok :: "'s \<Rightarrow> bool"
  assumes append_Inr: "append_op r s = (Inr (), s') \<Longrightarrow> recorded s' = recorded s @ [r]"
    and append_Inl: "append_op r s = (Inl e, s') \<Longrightarrow> s' = s"
    and append_valid: "append_op r s = (Inr (), s') \<Longrightarrow> recovery_evidence_valid r"
    and append_fresh: "store_ok s \<Longrightarrow> append_op r s = (Inr (), s') \<Longrightarrow>
          (\<forall>v \<in> set (recorded s). re_record_id v \<noteq> re_record_id r
             \<and> \<not> (entry_record r \<and> entry_record v \<and> same_operation v r))"
    and append_ok: "store_ok s \<Longrightarrow> append_op r s = (Inr (), s') \<Longrightarrow> store_ok s'"
    and read_exact: "store_ok s \<Longrightarrow>
          \<exists>rs. read_op run_id task_id s = Inr rs \<and> mset rs = mset (filter (wanted run_id task_id) (recorded s))"
begin

definition ledger_inv :: "'s \<Rightarrow> bool" where
  "ledger_inv s \<longleftrightarrow> store_ok s \<and> (\<forall>r \<in> set (recorded s). recovery_evidence_valid r)
    \<and> distinct (map re_record_id (recorded s))
    \<and> (\<forall>i j. i < j \<longrightarrow> j < length (recorded s) \<longrightarrow> entry_record (recorded s ! i) \<longrightarrow>
         entry_record (recorded s ! j) \<longrightarrow> \<not> same_operation (recorded s ! i) (recorded s ! j))"

lemma append_world:
  assumes "append_op r s = (res, s')"
  shows "recorded s' = recorded s \<or> recorded s' = recorded s @ [r] \<and> recovery_evidence_valid r"
proof (cases res)
  case (Inl e)
  then show ?thesis using assms append_Inl by blast
next
  case (Inr u)
  then have a: "append_op r s = (Inr (), s')" using assms by simp
  show ?thesis using append_Inr [OF a] append_valid [OF a] by blast
qed

lemma append_keeps_inv:
  assumes "ledger_inv s" and "append_op r s = (res, s')"
  shows "ledger_inv s'"
proof (cases res)
  case (Inl e)
  then show ?thesis using assms append_Inl by blast
next
  case (Inr u)
  then have a: "append_op r s = (Inr (), s')" using assms by simp
  have ok: "store_ok s" using assms(1) by (simp add: ledger_inv_def)
  note fresh = append_fresh [OF ok a]
  have entry: "\<not> same_operation (recorded s' ! i) (recorded s' ! j)"
    if "i < j" "j < length (recorded s')" "entry_record (recorded s' ! i)" "entry_record (recorded s' ! j)"
    for i j
  proof (cases "j < length (recorded s)")
    case True
    with that assms(1) show ?thesis
      by (auto simp: ledger_inv_def append_Inr [OF a] nth_append)
  next
    case False
    with that have "recorded s' ! j = r" "recorded s' ! i \<in> set (recorded s)"
      by (auto simp: append_Inr [OF a] nth_append less_Suc_eq)
    with fresh that show ?thesis by auto
  qed
  show ?thesis
    using assms(1) fresh append_ok [OF ok a] append_valid [OF a] entry
    by (auto simp: ledger_inv_def append_Inr [OF a])
qed

lemma appends_keep_inv:
  assumes "ledger_inv s" and "efold append_op rs s = (res, s')"
  shows "ledger_inv s' \<and> (\<exists>k. recorded s' = recorded s @ take k rs)"
  using assms
proof (induction rs arbitrary: s)
  case Nil
  then show ?case by simp
next
  case (Cons r rs)
  obtain q t where a: "append_op r s = (q, t)" by (cases "append_op r s")
  have inv: "ledger_inv t" by (rule append_keeps_inv [OF Cons.prems(1) a])
  show ?case
  proof (cases q)
    case (Inl e)
    then have "s' = t" "t = s" using Cons.prems(2) a append_Inl by auto
    with inv show ?thesis by (auto intro: exI [of _ 0])
  next
    case (Inr u)
    then have "efold append_op rs t = (res, s')" "recorded t = recorded s @ [r]"
      using Cons.prems(2) a append_Inr by auto
    with Cons.IH [OF inv] show ?thesis by (metis append.assoc append_Cons append_Nil take_Suc_Cons)
  qed
qed

end

section \<open>Both stores keep the contract\<close>

interpretation memr: evidence_store mem_append mem_records "\<lambda>s. s" "\<lambda>s. True"
  by unfold_locales
    (auto simp: mem_append_def mem_records_def list_ex_iff entry_record_def same_operation_def
      split: if_splits)

definition db_ok :: "evidence_db \<Rightarrow> bool" where
  "db_ok db \<longleftrightarrow> (\<forall>row \<in> set (db_rows db). recovery_evidence_valid (er_payload row) \<and> row = row_of (er_payload row))"

lemma rmap_read_row:
  assumes "\<forall>row \<in> set rows. recovery_evidence_valid (er_payload row) \<and> row = row_of (er_payload row)"
  shows "rmap read_row rows = Inr (map er_payload rows)"
  using assms
proof (induction rows)
  case Nil
  then show ?case by simp
next
  case (Cons row rows)
  have "recovery_evidence_valid (er_payload row)" and r: "row = row_of (er_payload row)"
    using Cons.prems by auto
  moreover have "er_record_id row = re_record_id (er_payload row)"
      "er_run_id row = sp_run_id (re_scope (er_payload row))"
      "er_task_id row = sp_task_id (re_scope (er_payload row))"
    by (subst r, simp add: row_of_def)+
  ultimately have "read_row row = Inr (er_payload row)" by (simp add: read_row_def)
  then show ?case using Cons by simp
qed

lemma filter_rows:
  assumes "\<forall>row \<in> set rows. row = row_of (er_payload row)"
  shows "map er_payload (filter (\<lambda>row. (run_id = None \<or> run_id = Some (er_run_id row))
        \<and> (task_id = None \<or> task_id = Some (er_task_id row))) rows)
    = filter (wanted run_id task_id) (map er_payload rows)"
proof -
  have "er_run_id row = sp_run_id (re_scope (er_payload row))
      \<and> er_task_id row = sp_task_id (re_scope (er_payload row))" if "row \<in> set rows" for row
  proof -
    from assms that have r: "row = row_of (er_payload row)" by blast
    show ?thesis by (subst (1 3) r) (simp add: row_of_def)
  qed
  then show ?thesis
    unfolding filter_map
    by (intro arg_cong [of _ _ "map er_payload"] filter_cong refl) (simp add: wanted_def)
qed

interpretation sqlr: evidence_store sql_append sql_records "\<lambda>db. map er_payload (db_rows db)" db_ok
proof unfold_locales
  fix db run_id task_id
  assume ok: "db_ok db"
  let ?rows = "filter (\<lambda>row. (run_id = None \<or> run_id = Some (er_run_id row))
        \<and> (task_id = None \<or> task_id = Some (er_task_id row))) (db_rows db)"
  have "rmap read_row ?rows = Inr (map er_payload ?rows)"
    by (rule rmap_read_row) (use ok in \<open>auto simp: db_ok_def\<close>)
  moreover have "map er_payload ?rows = filter (wanted run_id task_id) (map er_payload (db_rows db))"
    by (rule filter_rows) (use ok in \<open>auto simp: db_ok_def\<close>)
  ultimately show "\<exists>rs. sql_records run_id task_id db = Inr rs
      \<and> mset rs = mset (filter (wanted run_id task_id) (map er_payload (db_rows db)))"
    by (simp add: sql_records_def)
next
  fix r :: recovery_evidence and db db' :: evidence_db
  assume ok: "db_ok db" and a: "sql_append r db = (Inr (), db')"
  show "\<forall>v \<in> set (map er_payload (db_rows db)). re_record_id v \<noteq> re_record_id r
      \<and> \<not> (entry_record r \<and> entry_record v \<and> same_operation v r)"
  proof
    fix v assume "v \<in> set (map er_payload (db_rows db))"
    then obtain row where row: "row \<in> set (db_rows db)" "v = er_payload row" by auto
    with ok have "row = row_of v" by (simp add: db_ok_def)
    then show "re_record_id v \<noteq> re_record_id r \<and> \<not> (entry_record r \<and> entry_record v \<and> same_operation v r)"
      using a row(1) by (auto simp: sql_append_def list_ex_iff single_entry_clash_def same_operation_def
          row_of_def split: if_splits)
  qed
  show "db_ok db'"
    using ok a by (auto simp: sql_append_def db_ok_def row_of_def split: if_splits)
qed (auto simp: sql_append_def row_of_def split: if_splits)

section \<open>Properties\<close>

definition sample_record :: "nat \<Rightarrow> evidence_kind \<Rightarrow> evidence_outcome \<Rightarrow> recovery_evidence" where
  "sample_record n kind outcome = \<lparr>re_record_id = ''REC-'' @ replicate 35 CHR ''0'' @ [''0123456789'' ! n],
    re_scope = \<lparr>sp_run_id = ''R'', sp_task_id = ''R:T'', sp_object_id = ''O'', sp_scheme_id = ''S'',
      sp_task_profile = ''risk_analysis'', sp_agent_id = ''A'', sp_operation_id = ''specialist'',
      sp_context_hash = ''c'', sp_contract_hash = ''h''\<rparr>,
    re_kind = kind, re_attempt_id = Some (''ATT-'' @ replicate 36 CHR ''0''), re_attempt_number = 1,
    re_route = Some ROUTE_SOL, re_provider = Some PROV_TEAMOROUTER, re_model = Some MODEL_SOL,
    re_capability_check = False, re_outcome = outcome, re_failure_class = None, re_actual_model = None,
    re_requested_model = None, re_execution_policy = None, re_execution_outcome = None,
    re_policy_gate_result = None, re_candidate_hash = None, re_reason_code = OBSERVED, re_action = None,
    re_decision = None, re_recovery_context = None, re_timestamp = ''t'', re_latency_ms = None,
    re_input_tokens = None, re_output_tokens = None, re_output_hash = Some (''sha256:'' @ replicate 64 CHR ''0'')\<rparr>"

text \<open>
  C39. The evidence table is append-only and keeps its identities. Any sequence of appends, also one
  that an error cuts short, leaves the rows that were there and adds a prefix of the new records;
  record identifiers stay unique, all records are valid, and an operation is entered at most once.
\<close>

theorem evidence_table_append_only:
  assumes "sqlr.ledger_inv db" and "efold sql_append rs db = (res, db')"
  shows "(\<exists>k. map er_payload (db_rows db') = map er_payload (db_rows db) @ take k rs) \<and> sqlr.ledger_inv db'"
  using sqlr.appends_keep_inv [OF assms] by simp

definition sample_db :: evidence_db where
  "sample_db = \<lparr>db_runs = [''R''], db_rows = []\<rparr>"

theorem evidence_table_append_only_witness:
  "\<exists>res db' k. efold sql_append [sample_record 0 ATTEMPT_STARTED EO_STARTED, sample_record 1 ATTEMPT_STARTED EO_STARTED]
      sample_db = (res, db')
    \<and> \<not> is_ok res \<and> map er_payload (db_rows db')
        = take k [sample_record 0 ATTEMPT_STARTED EO_STARTED, sample_record 1 ATTEMPT_STARTED EO_STARTED]
    \<and> length (db_rows db') = 1"
proof -
  let ?rs = "[sample_record 0 ATTEMPT_STARTED EO_STARTED, sample_record 1 ATTEMPT_STARTED EO_STARTED]"
  obtain res db' where run: "efold sql_append ?rs sample_db = (res, db')"
    by (cases "efold sql_append ?rs sample_db")
  have "\<not> is_ok (fst (efold sql_append ?rs sample_db)) \<and> length (db_rows (snd (efold sql_append ?rs sample_db))) = 1"
    by code_simp
  moreover have "sqlr.ledger_inv sample_db" by (simp add: sqlr.ledger_inv_def sample_db_def db_ok_def)
  ultimately show ?thesis
    using evidence_table_append_only [OF _ run] run
    by (auto simp: sample_db_def)
qed

text \<open>
  C38. The table refines the in-memory store: for a run that exists, an append succeeds on the table
  exactly when it succeeds on the list of its payloads, and leaves the same records; reading the
  table returns the records that the in-memory store returns, in the order of their timestamps.
\<close>

theorem table_refines_memory:
  assumes "db_ok db" and "List.member (db_runs db) (sp_run_id (re_scope r))"
  shows "is_ok (fst (sql_append r db)) = is_ok (fst (mem_append r (map er_payload (db_rows db))))
    \<and> map er_payload (db_rows (snd (sql_append r db))) = snd (mem_append r (map er_payload (db_rows db)))
    \<and> sql_records run_id task_id db = rbind (mem_records run_id task_id (map er_payload (db_rows db)))
        (\<lambda>rs. Inr (sort_key (\<lambda>r. (re_timestamp r, re_record_id r)) rs))"
proof -
  have row: "row = row_of (er_payload row)" "recovery_evidence_valid (er_payload row)" if "row \<in> set (db_rows db)" for row
    using assms(1) that by (auto simp: db_ok_def)
  have ids: "er_record_id row = re_record_id (er_payload row)" if "row \<in> set (db_rows db)" for row
    by (subst row(1) [OF that]) (simp add: row_of_def)
  have clash: "single_entry_clash (row_of r) row \<longleftrightarrow>
      entry_record r \<and> same_operation (er_payload row) r \<and> entry_record (er_payload row)"
    if "row \<in> set (db_rows db)" for row
    by (subst row(1) [OF that]) (auto simp: single_entry_clash_def row_of_def same_operation_def)
  have "list_ex (\<lambda>row. er_record_id row = re_record_id r) (db_rows db)
      = list_ex (\<lambda>v. re_record_id v = re_record_id r) (map er_payload (db_rows db))"
    using ids by (auto simp: list_ex_iff)
  moreover have "list_ex (single_entry_clash (row_of r)) (db_rows db)
      = (entry_record r \<and> list_ex (\<lambda>v. same_operation v r \<and> entry_record v) (map er_payload (db_rows db)))"
    using clash by (auto simp: list_ex_iff)
  ultimately have "is_ok (fst (sql_append r db)) = is_ok (fst (mem_append r (map er_payload (db_rows db))))"
      "map er_payload (db_rows (snd (sql_append r db))) = snd (mem_append r (map er_payload (db_rows db)))"
    using assms(2) by (auto simp: sql_append_def mem_append_def row_of_def)
  moreover have "map er_payload (filter (\<lambda>row. (run_id = None \<or> run_id = Some (er_run_id row))
      \<and> (task_id = None \<or> task_id = Some (er_task_id row))) (db_rows db))
      = filter (wanted run_id task_id) (map er_payload (db_rows db))"
    by (rule filter_rows) (use row in blast)
  moreover have "rmap read_row (filter (\<lambda>row. (run_id = None \<or> run_id = Some (er_run_id row))
      \<and> (task_id = None \<or> task_id = Some (er_task_id row))) (db_rows db))
      = Inr (map er_payload (filter (\<lambda>row. (run_id = None \<or> run_id = Some (er_run_id row))
      \<and> (task_id = None \<or> task_id = Some (er_task_id row))) (db_rows db)))"
    by (rule rmap_read_row) (simp only: set_filter, use row in blast)
  ultimately show ?thesis by (simp add: sql_records_def mem_records_def)
qed

theorem table_refines_memory_witness:
  "is_ok (fst (sql_append (sample_record 0 ATTEMPT_STARTED EO_STARTED) sample_db))
    = is_ok (fst (mem_append (sample_record 0 ATTEMPT_STARTED EO_STARTED) []))
    \<and> is_ok (fst (mem_append (sample_record 0 ATTEMPT_STARTED EO_STARTED) []))"
proof -
  have "db_ok sample_db" "List.member (db_runs sample_db) (sp_run_id (re_scope (sample_record 0 ATTEMPT_STARTED EO_STARTED)))"
    "map er_payload (db_rows sample_db) = []"
    by (simp add: sample_db_def db_ok_def, code_simp, simp add: sample_db_def)
  from table_refines_memory [OF this(1,2)] this(3)
  have "is_ok (fst (sql_append (sample_record 0 ATTEMPT_STARTED EO_STARTED) sample_db))
    = is_ok (fst (mem_append (sample_record 0 ATTEMPT_STARTED EO_STARTED) []))" by simp
  moreover have "is_ok (fst (mem_append (sample_record 0 ATTEMPT_STARTED EO_STARTED) []))" by code_simp
  ultimately show ?thesis by simp
qed

text \<open>
  What one record says about a route, given the attempts that were started: it certifies the route,
  or quarantines it, or says nothing.
\<close>

definition attests :: "rec_scope \<Rightarrow> (route_id \<times> candidate) list \<Rightarrow> recovery_evidence list \<Rightarrow> route_id
    \<Rightarrow> recovery_evidence \<Rightarrow> bool" where
  "attests sc routes records route r \<longleftrightarrow> relevant sc routes r \<and> re_route r = Some route
    \<and> (case starts_of records (re_attempt_id r) of None \<Rightarrow> False | Some s \<Rightarrow> same_attempt s r)"

definition certifies :: "recovery_evidence \<Rightarrow> bool" where
  "certifies r \<longleftrightarrow> re_outcome r = EO_PASS \<and> re_output_hash r \<notin> {None, Some []}
    \<and> re_execution_outcome r \<noteq> Some MODEL_EXECUTION_SUBSTITUTED"

definition quarantines :: "recovery_evidence \<Rightarrow> bool" where
  "quarantines r \<longleftrightarrow> re_outcome r \<noteq> EO_PASS \<and> (re_failure_class r = Some FC_MODEL_IDENTITY_MISMATCH
    \<or> re_capability_check r \<and> re_failure_class r = Some FC_OUTPUT_CONTRACT_FAILURE)"

lemma relevant_route: "relevant sc routes r \<Longrightarrow> \<exists>route. re_route r = Some route"
  by (cases "re_route r") (simp_all add: relevant_def)

lemma provenance_step_at:
  "provenance_step sc routes (starts_of records) result r route = (
    if attests sc routes records route r \<and> certifies r then Some (CS_VERIFIED, re_record_id r)
    else if attests sc routes records route r \<and> quarantines r then Some (CS_QUARANTINED, re_record_id r)
    else result route)"
proof (cases "relevant sc routes r")
  case False
  then show ?thesis by (simp add: provenance_step_def attests_def)
next
  case True
  with relevant_route obtain route' where "re_route r = Some route'" by blast
  with True show ?thesis
    by (auto simp: provenance_step_def attests_def certifies_def quarantines_def split: option.splits)
qed

text \<open>
  A capability fact rests on the latest evidence that attests it: a route is verified or
  quarantined exactly when some completed attempt of this profile and contract, on this provider and
  model, with a matching started attempt, certified or quarantined it, and the last such record
  decides. A substituted success certifies nothing.
\<close>

theorem capability_provenance_latest:
  "capability_provenance records sc routes route = map_option
    (\<lambda>r. (if certifies r then CS_VERIFIED else CS_QUARANTINED, re_record_id r))
    (find (\<lambda>r. attests sc routes records route r \<and> (certifies r \<or> quarantines r)) (rev records))"
proof -
  have "foldl (provenance_step sc routes (starts_of records)) Map.empty rs route = map_option
    (\<lambda>r. (if certifies r then CS_VERIFIED else CS_QUARANTINED, re_record_id r))
    (find (\<lambda>r. attests sc routes records route r \<and> (certifies r \<or> quarantines r)) (rev rs))" for rs
  proof (induction rs rule: rev_induct)
    case Nil
    then show ?case by simp
  next
    case (snoc r rs)
    then show ?case by (auto simp: provenance_step_at)
  qed
  then show ?thesis by (simp add: capability_provenance_def)
qed

end
