(* ===== verification/EffectTriples.thy ===== *)
theory EffectTriples
  imports Prelude
begin

text \<open>
  Triples for effectful computations. \<open>triple P m Q E\<close>: started in a state that satisfies \<open>P\<close>, the
  computation \<open>m\<close> returns with \<open>Q\<close> of its value and state, or raises with \<open>E\<close> of the exception and
  state. The state survives an exception, so \<open>E\<close> speaks about what was written before it.
\<close>

named_theorems triple_rules \<open>one rule per construct of the effect language\<close>

definition triple ::
    "('w \<Rightarrow> bool) \<Rightarrow> ('e, 'w, 'a) eff \<Rightarrow> ('a \<Rightarrow> 'w \<Rightarrow> bool) \<Rightarrow> ('e \<Rightarrow> 'w \<Rightarrow> bool) \<Rightarrow> bool" where
  "triple P m Q E \<longleftrightarrow> (\<forall>w. P w \<longrightarrow> (case m w of (Inl e, w') \<Rightarrow> E e w' | (Inr x, w') \<Rightarrow> Q x w'))"

lemma tripleI:
  assumes "\<And>w e w'. P w \<Longrightarrow> m w = (Inl e, w') \<Longrightarrow> E e w'" and "\<And>w x w'. P w \<Longrightarrow> m w = (Inr x, w') \<Longrightarrow> Q x w'"
  shows "triple P m Q E"
  using assms by (auto simp: triple_def split: prod.splits sum.splits)

lemma triple_Inr: "triple P m Q E \<Longrightarrow> P w \<Longrightarrow> m w = (Inr x, w') \<Longrightarrow> Q x w'"
  by (auto simp: triple_def)

lemma triple_Inl: "triple P m Q E \<Longrightarrow> P w \<Longrightarrow> m w = (Inl e, w') \<Longrightarrow> E e w'"
  by (auto simp: triple_def)

text \<open>A triple whose two postconditions agree speaks about the final state alone.\<close>

lemma triple_state: "triple P m (\<lambda>_. R) (\<lambda>_. R) \<Longrightarrow> P w \<Longrightarrow> m w = (r, w') \<Longrightarrow> R w'"
  by (cases r) (auto dest: triple_Inr triple_Inl)

lemma triple_stateI:
  assumes "\<And>w r w'. P w \<Longrightarrow> m w = (r, w') \<Longrightarrow> R w'"
  shows "triple P m (\<lambda>_. R) (\<lambda>_. R)"
  by (rule tripleI) (use assms in blast)+

lemma triple_ebind [triple_rules]:
  assumes "triple P m R E" and "\<And>x. triple (R x) (f x) Q E"
  shows "triple P (ebind m f) Q E"
proof (rule tripleI)
  fix w e w' assume "P w" and eq: "ebind m f w = (Inl e, w')"
  obtain r v where m: "m w = (r, v)" by (cases "m w")
  show "E e w'"
  proof (cases r)
    case (Inl e')
    then show ?thesis using m eq triple_Inl [OF assms(1) \<open>P w\<close>] by auto
  next
    case (Inr x)
    then have "R x v" and "f x v = (Inl e, w')" using m eq triple_Inr [OF assms(1) \<open>P w\<close>] by auto
    then show ?thesis using triple_Inl [OF assms(2)] by blast
  qed
next
  fix w y w' assume "P w" and eq: "ebind m f w = (Inr y, w')"
  obtain r v where m: "m w = (r, v)" by (cases "m w")
  show "Q y w'"
  proof (cases r)
    case (Inl e')
    then show ?thesis using m eq by simp
  next
    case (Inr x)
    then have "R x v" and "f x v = (Inr y, w')" using m eq triple_Inr [OF assms(1) \<open>P w\<close>] by auto
    then show ?thesis using triple_Inr [OF assms(2)] by blast
  qed
qed

lemma triple_eret [triple_rules]: "(\<And>w. P w \<Longrightarrow> Q x w) \<Longrightarrow> triple P (eret x) Q E"
  by (simp add: triple_def)

lemma triple_eraise [triple_rules]: "(\<And>w. P w \<Longrightarrow> E e w) \<Longrightarrow> triple P (eraise e) Q E"
  by (simp add: triple_def)

lemma triple_if [triple_rules]:
  assumes "b \<Longrightarrow> triple P m Q E" and "\<not> b \<Longrightarrow> triple P m' Q E"
  shows "triple P (if b then m else m') Q E"
  using assms by simp

lemma triple_conseq:
  assumes "triple P' m Q' E'" and "\<And>w. P w \<Longrightarrow> P' w" and "\<And>x w. Q' x w \<Longrightarrow> Q x w"
    and "\<And>e w. E' e w \<Longrightarrow> E e w"
  shows "triple P m Q E"
  by (rule tripleI) (use assms triple_Inr [OF assms(1)] triple_Inl [OF assms(1)] in blast)+

lemma triple_pre: "triple P' m Q E \<Longrightarrow> (\<And>w. P w \<Longrightarrow> P' w) \<Longrightarrow> triple P m Q E"
  by (rule triple_conseq)

lemma triple_False: "(\<And>w. \<not> P w) \<Longrightarrow> triple P m Q E"
  by (simp add: triple_def)

lemma triple_fact: "(b \<Longrightarrow> triple P m Q E) \<Longrightarrow> triple (\<lambda>w. b \<and> P w) m Q E"
  by (auto simp: triple_def)

lemma triple_efold:
  assumes "\<And>x. x \<in> set xs \<Longrightarrow> triple P (f x) (\<lambda>_. P) E"
  shows "triple P (efold f xs) (\<lambda>_. P) E"
  using assms
proof (induction xs)
  case Nil
  then show ?case by (simp add: triple_def)
next
  case (Cons x xs)
  show ?case
    unfolding efold.simps
    by (rule triple_ebind) (use Cons in auto)
qed

end
