(* ===== verification/AdaptiveRecovery.thy ===== *)
theory AdaptiveRecovery
  imports RecoveryPolicy RecoveryStore
begin

text \<open>
  The recovery loop of agentic/recovery.py (\<open>AdaptiveRecovery.execute_scope\<close>): one Specialist
  invocation that may be retried, switched to another governed route or preceded by capability
  checks, under a budget and with every step recorded.

  The nonlocal variables of the method form the record \<open>walk\<close>, the values it fixes at the start
  the record \<open>rec_run\<close>. The computation is an \<open>eff\<close> over \<open>walk \<times> 'w\<close>: the walk and the world
  survive an exception. What is outside the repository or outside this file is a field of
  \<open>recovery_env\<close>: the clocks, uuid4, the evidence store, the provider call with its timeout, pydantic
  validation and serialisation of the answer, the hash, and the supervisor, which may be any code.
  The world answers for the two digests of the shared mutable inputs, so a provider may mutate them.
\<close>

section \<open>Environment and state\<close>

record llm_response =
  lr_output :: json
  lr_provider :: string
  lr_requested_model :: string
  lr_actual_model :: string
  lr_attempted_models :: "string list"
  lr_input_tokens :: "int option"
  lr_output_tokens :: "int option"
  lr_execution_policy :: "model_policy option"
  lr_execution_outcome :: "execution_outcome option"

datatype 'w supervisor =
    Lead
  | Custom "recovery_context \<Rightarrow> (rec_exn, 'w, recovery_decision) eff"
  | Awaited "recovery_context \<Rightarrow> rat \<Rightarrow> (rec_exn, 'w, recovery_decision) eff"

record 'w recovery_env =
  en_monotonic :: "'w \<Rightarrow> rat \<times> 'w"
  en_timestamp :: "'w \<Rightarrow> string \<times> 'w"
  en_uuid :: "'w \<Rightarrow> string \<times> 'w"
  en_age_seconds :: "string \<Rightarrow> (rec_exn, 'w, rat) eff"
  en_append :: "recovery_evidence \<Rightarrow> (rec_exn, 'w, unit) eff"
  en_records :: "string option \<Rightarrow> string option \<Rightarrow> 'w \<Rightarrow> rec_exn + recovery_evidence list"
  en_context_digest :: "'w \<Rightarrow> string"
  en_messages_digest :: "'w \<Rightarrow> string"
  en_call :: "route_id \<Rightarrow> rat \<Rightarrow> 'w \<Rightarrow> ((rec_exn + llm_response) \<times> bool) \<times> 'w"
  en_validate :: "json \<Rightarrow> rec_exn + json"
  en_json_text :: "json \<Rightarrow> string"
  en_digest :: "json \<Rightarrow> string"
  en_output_validator :: "(json \<Rightarrow> rec_exn + string) option"
  en_supervisor :: "'w supervisor"

record adaptive =
  ar_routes :: route_table
  ar_certifications :: "string \<times> route_id \<times> model_id \<times> string \<rightharpoonup> capability_state"
  ar_certification_refs :: "string \<times> route_id \<times> model_id \<times> string \<rightharpoonup> string list"
  ar_initial_health :: "route_id \<rightharpoonup> health"
  ar_budget :: recovery_budget
  ar_explicit_budget :: bool
  ar_forbidden :: "string list"
  ar_model_grants :: "((string \<times> route_id) \<times> route_id list) list option"

definition adaptive_init ::
    "route_table \<Rightarrow> (string \<times> route_id \<times> model_id \<times> string \<rightharpoonup> capability_state)
      \<Rightarrow> (string \<times> route_id \<times> model_id \<times> string \<rightharpoonup> string list) \<Rightarrow> (route_id \<rightharpoonup> health)
      \<Rightarrow> recovery_budget option \<Rightarrow> string list \<Rightarrow> ((string \<times> route_id) \<times> route_id list) list option
      \<Rightarrow> rec_exn + adaptive" where
  "adaptive_init routes caps refs hlth budget forbidden grants =
    rbind (detector_init routes) (\<lambda>rs. Inr \<lparr>ar_routes = rs, ar_certifications = caps,
      ar_certification_refs = refs, ar_initial_health = hlth,
      ar_budget = (case budget of None \<Rightarrow> default_budget | Some b \<Rightarrow> b),
      ar_explicit_budget = (budget \<noteq> None), ar_forbidden = filter (\<lambda>v. v \<noteq> []) forbidden,
      ar_model_grants = grants\<rparr>)"

record rec_run =
  rn_scope :: rec_scope
  rn_budget :: recovery_budget
  rn_routes :: route_table
  rn_generated :: bool
  rn_ordered :: bool
  rn_started :: rat
  rn_frozen_input :: string
  rn_forbidden :: "string list"
  rn_grants :: "((string \<times> route_id) \<times> route_id list) list option"

record walk =
  wk_history :: "route_id list"
  wk_checked_routes :: "route_id list"
  wk_health :: "route_id \<rightharpoonup> health"
  wk_attempted_models :: "model_id list"
  wk_checks :: int
  wk_decisions :: int
  wk_model_switches :: int
  wk_provider_switches :: int
  wk_provider_calls :: int
  wk_capabilities :: "route_id \<rightharpoonup> capability_state"
  wk_capability_refs :: "route_id \<rightharpoonup> string list"
  wk_refs :: "string list"
  wk_last_failure :: "failure_class option"
  wk_last_route :: route_id
  wk_current :: route_id

type_synonym ('w, 'a) rec_eff = "(rec_exn, walk \<times> 'w, 'a) eff"

definition outside :: "('w \<Rightarrow> 'a \<times> 'w) \<Rightarrow> ('w, 'a) rec_eff" where
  "outside f s = (case f (snd s) of (x, w') \<Rightarrow> (Inr x, (fst s, w')))"

definition outside_eff :: "(rec_exn, 'w, 'a) eff \<Rightarrow> ('w, 'a) rec_eff" where
  "outside_eff f s = (case f (snd s) of (r, w') \<Rightarrow> (r, (fst s, w')))"

definition of_result :: "rec_exn + 'a \<Rightarrow> ('w, 'a) rec_eff" where
  "of_result r s = (r, s)"

definition the_walk :: "('w, walk) rec_eff" where
  "the_walk s = (Inr (fst s), s)"

definition update :: "(walk \<Rightarrow> walk) \<Rightarrow> ('w, unit) rec_eff" where
  "update f s = (Inr (), (f (fst s), snd s))"

definition the_world :: "('w, 'w) rec_eff" where
  "the_world s = (Inr (snd s), s)"

section \<open>Recording and stopping\<close>

definition time_left :: "rec_run \<Rightarrow> rat \<Rightarrow> rat" where
  "time_left rn now = max 0 (rb_max_total_recovery_time (rn_budget rn) - (now - rn_started rn))"

definition remaining :: "'w recovery_env \<Rightarrow> rec_run \<Rightarrow> ('w, rat) rec_eff" where
  "remaining env rn = ebind (outside (en_monotonic env)) (\<lambda>now. eret (time_left rn now))"

definition blank_evidence ::
    "rec_run \<Rightarrow> evidence_kind \<Rightarrow> evidence_outcome \<Rightarrow> string \<Rightarrow> string \<Rightarrow> recovery_evidence" where
  "blank_evidence rn kind outcome rid ts = \<lparr>re_record_id = rid, re_scope = rn_scope rn, re_kind = kind,
    re_attempt_id = None, re_attempt_number = 0, re_route = None, re_provider = None, re_model = None,
    re_capability_check = False, re_outcome = outcome, re_failure_class = None, re_actual_model = None,
    re_requested_model = None, re_execution_policy = None, re_execution_outcome = None,
    re_policy_gate_result = None, re_candidate_hash = None, re_reason_code = OBSERVED, re_action = None,
    re_decision = None, re_recovery_context = None, re_timestamp = ts, re_latency_ms = None,
    re_input_tokens = None, re_output_tokens = None, re_output_hash = None\<rparr>"

definition write_record ::
    "'w recovery_env \<Rightarrow> rec_run \<Rightarrow> evidence_kind \<Rightarrow> evidence_outcome
      \<Rightarrow> (recovery_evidence \<Rightarrow> recovery_evidence) \<Rightarrow> ('w, unit) rec_eff" where
  "write_record env rn kind outcome fill =
    ebind (outside (en_uuid env)) (\<lambda>u.
    ebind (outside (en_timestamp env)) (\<lambda>ts.
    let value = fill (blank_evidence rn kind outcome (''REC-'' @ u) ts) in
    ebind (of_result (guard (recovery_evidence_valid value) PydanticError)) (\<lambda>_.
    ebind (outside_eff (en_append env value)) (\<lambda>_.
    update (\<lambda>k. k\<lparr>wk_refs := wk_refs k @ [re_record_id value]\<rparr>)))))"

fun stop_code :: "failure_class option \<Rightarrow> llm_failure" where
  "stop_code (Some FC_MODEL_IDENTITY_MISMATCH) = LF_MODEL_IDENTITY_MISMATCH"
| "stop_code (Some FC_READ_TIMEOUT) = LF_READ_TIMEOUT"
| "stop_code (Some FC_PROVIDER_DEADLINE_EXCEEDED) = LF_OVERALL_DEADLINE_EXCEEDED"
| "stop_code (Some FC_TASK_DEADLINE_EXCEEDED) = LF_OVERALL_DEADLINE_EXCEEDED"
| "stop_code (Some FC_PROVIDER_UNAVAILABLE) = LF_PROVIDER_UNAVAILABLE"
| "stop_code (Some FC_REMOTE_PROTOCOL_ERROR) = LF_REMOTE_PROTOCOL_ERROR"
| "stop_code (Some FC_RATE_LIMIT) = LF_QUOTA_OR_RATE_LIMIT"
| "stop_code (Some FC_OUTPUT_CONTRACT_FAILURE) = LF_SEMANTIC_SCHEMA_FAILURE"
| "stop_code _ = LF_PREFLIGHT_FAILURE"

definition stop :: "'w recovery_env \<Rightarrow> rec_run \<Rightarrow> stop_reason \<Rightarrow> ('w, 'a) rec_eff" where
  "stop env rn reason =
    ebind the_walk (\<lambda>k.
    ebind (write_record env rn TERMINAL EO_FAIL (\<lambda>r. r\<lparr>re_route := Some (wk_last_route k),
        re_reason_code := reason, re_failure_class := wk_last_failure k\<rparr>)) (\<lambda>_.
    ebind (of_result (dict_entry (rn_routes rn) (wk_last_route k))) (\<lambda>c.
    eraise (RecoveryStopped reason (cd_provider c) (cd_model c) (wk_attempted_models k)
      (stop_code (wk_last_failure k))))))"

section \<open>One provider attempt\<close>

definition observed_model :: "string \<Rightarrow> model_id option" where
  "observed_model s = find (\<lambda>m. model_value m = s) [MODEL_SOL, MODEL_LUNA, MODEL_TERRA, MODEL_MIMO, MODEL_MIMO_PRO]"

definition inputs_intact :: "'w recovery_env \<Rightarrow> rec_run \<Rightarrow> 'w \<Rightarrow> bool" where
  "inputs_intact env rn w \<longleftrightarrow> en_context_digest env w = sp_context_hash (rn_scope rn)
    \<and> en_messages_digest env w = rn_frozen_input rn"

text \<open>The checks between the answer and its PASS record; the result is the output and its hash.\<close>

definition check_response ::
    "'w recovery_env \<Rightarrow> rec_run \<Rightarrow> execution_outcome \<Rightarrow> llm_response \<Rightarrow> 'w
      \<Rightarrow> rec_exn + json \<times> string option" where
  "check_response env rn outcome resp w =
    rbind (guard (\<not> out_of_policy outcome) (LLMProviderError (Some LF_MODEL_IDENTITY_MISMATCH))) (\<lambda>_.
    rbind (en_validate env (lr_output resp)) (\<lambda>output.
    rbind (guard (\<not> list_ex (\<lambda>secret. sublist secret (en_json_text env output)) (rn_forbidden rn))
        (RecValueError ''Unsafe output'')) (\<lambda>_.
    rbind (case en_output_validator env of None \<Rightarrow> Inr None | Some v \<Rightarrow> rbind (v output) (\<lambda>h. Inr (Some h)))
      (\<lambda>candidate_hash.
    rbind (guard (inputs_intact env rn w) (RecValueError ''Recovery input mutation'')) (\<lambda>_.
    Inr (output, candidate_hash))))))"

definition common_fields ::
    "rec_run \<Rightarrow> walk \<Rightarrow> route_id \<Rightarrow> candidate \<Rightarrow> bool \<Rightarrow> string \<Rightarrow> model_policy
      \<Rightarrow> recovery_evidence \<Rightarrow> recovery_evidence" where
  "common_fields rn k route c check attempt_id policy r = r\<lparr>re_attempt_id := Some attempt_id,
    re_attempt_number := (if rn_ordered rn then wk_provider_calls k
      else if check then wk_checks k else int (length (wk_history k))),
    re_route := Some route, re_provider := Some (cd_provider c), re_model := Some (cd_model c),
    re_requested_model := Some (cd_model c), re_capability_check := check,
    re_execution_policy := Some policy\<rparr>"

definition latency :: "'w recovery_env \<Rightarrow> rat \<Rightarrow> ('w, rat) rec_eff" where
  "latency env clock = ebind (outside (en_monotonic env)) (\<lambda>now. eret ((now - clock) * 1000))"

text \<open>
  The \<open>try\<close> block. The variables \<open>actual_model\<close> and \<open>execution_outcome\<close> keep their values when an
  exception leaves it, and so does the expiry of the timeout.
\<close>

record try_result =
  tr_result :: "rec_exn + llm_response"
  tr_expired :: bool
  tr_actual_model :: "model_id option"
  tr_outcome :: "execution_outcome option"

definition try_call ::
    "'w recovery_env \<Rightarrow> rec_run \<Rightarrow> route_id \<Rightarrow> model_policy \<Rightarrow> (recovery_evidence \<Rightarrow> recovery_evidence)
      \<Rightarrow> rat \<Rightarrow> rat \<Rightarrow> walk \<times> 'w \<Rightarrow> try_result \<times> (walk \<times> 'w)" where
  "try_call env rn route policy common limit clock s = (
    case en_call env route limit (snd s) of ((answer, expired), w) \<Rightarrow>
      case answer of
        Inl e \<Rightarrow> (\<lparr>tr_result = Inl e, tr_expired = expired, tr_actual_model = None, tr_outcome = None\<rparr>, (fst s, w))
      | Inr resp \<Rightarrow>
          let am = observed_model (lr_actual_model resp);
              outcome = policy_outcome policy (Some (lr_provider resp)) (Some (lr_requested_model resp))
                (Some (lr_actual_model resp));
              leave = (\<lambda>r. \<lparr>tr_result = r, tr_expired = expired, tr_actual_model = am, tr_outcome = Some outcome\<rparr>) in
          (case check_response env rn outcome resp w of
            Inl e \<Rightarrow> (leave (Inl e), (fst s, w))
          | Inr (output, candidate_hash) \<Rightarrow>
              (case ebind (latency env clock) (\<lambda>ms. write_record env rn ATTEMPT_COMPLETED EO_PASS
                  (\<lambda>r. (common r)\<lparr>re_latency_ms := Some ms, re_input_tokens := lr_input_tokens resp,
                    re_output_tokens := lr_output_tokens resp, re_output_hash := Some (en_digest env output),
                    re_actual_model := am, re_candidate_hash := candidate_hash,
                    re_execution_outcome := Some outcome, re_policy_gate_result := Some GATE_ALLOW\<rparr>)) (fst s, w) of
                (Inl e, s') \<Rightarrow> (leave (Inl e), s')
              | (Inr _, s') \<Rightarrow> (leave (Inr (resp\<lparr>lr_execution_policy := Some policy,
                  lr_execution_outcome := Some outcome\<rparr>)), s'))))"

definition assess_failure :: "rec_run \<Rightarrow> rec_exn \<Rightarrow> failure_assessment" where
  "assess_failure rn exc = (
    let a = classify exc None;
        b = (if exc = PydanticError then a\<lparr>fa_class := FC_OUTPUT_CONTRACT_FAILURE, fa_stage := ST_OUTPUT\<rparr> else a) in
    if rn_generated rn \<and> fa_class b \<in> {FC_MODEL_IDENTITY_MISMATCH, FC_OUTPUT_CONTRACT_FAILURE}
    then b\<lparr>fa_recoverable := True\<rparr> else b)"

text \<open>The \<open>except\<close> clauses: the result is the assessment that the loop goes on with.\<close>

definition handle_failure ::
    "'w recovery_env \<Rightarrow> rec_run \<Rightarrow> route_id \<Rightarrow> (recovery_evidence \<Rightarrow> recovery_evidence) \<Rightarrow> rat
      \<Rightarrow> try_result \<Rightarrow> rec_exn \<Rightarrow> ('w, failure_assessment) rec_eff" where
  "handle_failure env rn route common clock tr exc =
    ebind (latency env clock) (\<lambda>ms.
    if \<not> catchable exc then
      ebind (write_record env rn ATTEMPT_COMPLETED EO_CANCELLED (\<lambda>r. (common r)\<lparr>re_latency_ms := Some ms\<rparr>))
        (\<lambda>_. eraise exc)
    else if exc = EvaluationAuthorizationError then
      ebind (write_record env rn ATTEMPT_COMPLETED EO_FAIL (\<lambda>r. (common r)\<lparr>re_latency_ms := Some ms,
        re_failure_class := Some FC_NON_RECOVERABLE_RUNTIME_FAILURE\<rparr>)) (\<lambda>_.
      ebind (write_record env rn TERMINAL EO_FAIL (\<lambda>r. r\<lparr>re_route := Some route,
        re_reason_code := STOP_NONRECOVERABLE\<rparr>)) (\<lambda>_. eraise exc))
    else if tr_expired tr then
      ebind (update (\<lambda>k. k\<lparr>wk_last_failure := Some FC_TASK_DEADLINE_EXCEEDED, wk_last_route := route\<rparr>)) (\<lambda>_.
      ebind (write_record env rn ATTEMPT_COMPLETED EO_FAIL (\<lambda>r. (common r)\<lparr>re_latency_ms := Some ms,
        re_failure_class := Some FC_TASK_DEADLINE_EXCEEDED, re_reason_code := RECOVERY_BUDGET_EXHAUSTED\<rparr>)) (\<lambda>_.
      stop env rn RECOVERY_BUDGET_EXHAUSTED))
    else
      let a = assess_failure rn exc in
      ebind (update (\<lambda>k. if rn_generated rn \<and> fa_class a = FC_MODEL_IDENTITY_MISMATCH
          then k\<lparr>wk_capabilities := (wk_capabilities k)(route \<mapsto> CS_QUARANTINED)\<rparr> else k)) (\<lambda>_.
      ebind (write_record env rn ATTEMPT_COMPLETED EO_FAIL (\<lambda>r. (common r)\<lparr>re_latency_ms := Some ms,
        re_failure_class := Some (fa_class a), re_actual_model := tr_actual_model tr,
        re_execution_outcome := tr_outcome tr,
        re_policy_gate_result := (case tr_outcome tr of None \<Rightarrow> None
          | Some oc \<Rightarrow> if out_of_policy oc then Some GATE_DENY else None)\<rparr>)) (\<lambda>_.
      ebind (update (\<lambda>k. k\<lparr>wk_last_failure := Some (fa_class a), wk_last_route := route\<rparr>)) (\<lambda>_.
      eret a))))"

text \<open>\<open>invoke\<close>: an answer, or the assessment of the failure.\<close>

definition attempt_route ::
    "'w recovery_env \<Rightarrow> rec_run \<Rightarrow> route_id \<Rightarrow> (recovery_evidence \<Rightarrow> recovery_evidence)
      \<Rightarrow> model_policy \<Rightarrow> ('w, failure_assessment + llm_response) rec_eff" where
  "attempt_route env rn route common policy =
    ebind (write_record env rn ATTEMPT_STARTED EO_STARTED common) (\<lambda>_.
    ebind (outside (en_monotonic env)) (\<lambda>clock.
    ebind (remaining env rn) (\<lambda>limit. \<lambda>s.
    case try_call env rn route policy common limit clock s of (tr, s') \<Rightarrow>
      (case tr_result tr of
         Inr resp \<Rightarrow> (Inr (Inr resp), s')
       | Inl exc \<Rightarrow> ebind (handle_failure env rn route common clock tr exc) (\<lambda>a. eret (Inl a)) s'))))"

definition invoke ::
    "'w recovery_env \<Rightarrow> rec_run \<Rightarrow> route_id \<Rightarrow> bool \<Rightarrow> ('w, failure_assessment + llm_response) rec_eff" where
  "invoke env rn route check =
    ebind (of_result (dict_entry (rn_routes rn) route)) (\<lambda>c.
    ebind the_world (\<lambda>w.
    if \<not> inputs_intact env rn w then stop env rn STOP_NONRECOVERABLE
    else ebind (remaining env rn) (\<lambda>left.
    if left \<le> 0 then stop env rn RECOVERY_BUDGET_EXHAUSTED
    else ebind (outside (en_uuid env)) (\<lambda>u.
    ebind (update (\<lambda>k. k\<lparr>wk_provider_calls := wk_provider_calls k + 1\<rparr>)) (\<lambda>_.
    ebind the_walk (\<lambda>k.
    ebind (of_result (resolve_model_execution (rn_scope rn) route (rn_routes rn) (wk_capabilities k)
        (rn_budget rn) check (rn_grants rn))) (\<lambda>policy.
    attempt_route env rn route (common_fields rn k route c check (''ATT-'' @ u) policy) policy)))))))"

section \<open>One turn of the loop\<close>

datatype turn = Answered llm_response | Again failure_assessment

definition restrict_switches ::
    "rec_run \<Rightarrow> walk \<Rightarrow> provider_id \<Rightarrow> candidate \<Rightarrow> candidate" where
  "restrict_switches rn k current_provider c = (
    if cd_route c \<noteq> wk_current k
      \<and> (cd_provider c = current_provider
           \<and> rb_max_model_fallbacks (rn_budget rn) \<le> wk_model_switches k
        \<or> cd_provider c \<noteq> current_provider
           \<and> rb_max_cross_provider_switches (rn_budget rn) \<le> wk_provider_switches k)
    then c\<lparr>cd_eligible := False, cd_next_allowed_action := FAIL_TASK\<rparr> else c)"

definition last_refs :: "string list \<Rightarrow> string list" where
  "last_refs refs = drop (length refs - 12) refs"

definition context_of :: "rec_run \<Rightarrow> walk \<Rightarrow> failure_assessment \<Rightarrow> candidate list \<Rightarrow> rat \<Rightarrow> recovery_context" where
  "context_of rn k failure cs left = \<lparr>rc_scope = rn_scope rn, rc_failure = failure,
    rc_current_route = wk_current k, rc_candidates = cs, rc_attempt_history = wk_history k,
    rc_remaining_attempts = rb_max_total_attempts_per_task (rn_budget rn) - int (length (wk_history k)),
    rc_remaining_checks = rb_max_capability_checks (rn_budget rn) - wk_checks k,
    rc_remaining_decisions = rb_max_recovery_decisions (rn_budget rn) - wk_decisions k,
    rc_remaining_seconds = left, rc_evidence_refs = last_refs (wk_refs k)\<rparr>"

definition build_context ::
    "'w recovery_env \<Rightarrow> rec_run \<Rightarrow> failure_assessment \<Rightarrow> ('w, recovery_context) rec_eff" where
  "build_context env rn failure =
    ebind the_walk (\<lambda>k.
    ebind (of_result (candidates (rn_routes rn) (wk_capabilities k)
        (if rn_ordered rn then wk_history k @ wk_checked_routes k else wk_history k)
        (rn_budget rn) (wk_health k) (wk_capability_refs k))) (\<lambda>cs.
    ebind (of_result (dict_entry (rn_routes rn) (wk_current k))) (\<lambda>current.
    ebind (remaining env rn) (\<lambda>left.
    let ctx = context_of rn k failure (map (restrict_switches rn k (cd_provider current)) cs) left in
    ebind (of_result (guard (recovery_context_valid ctx) PydanticError)) (\<lambda>_. eret ctx)))))"

text \<open>The supervisor proposes: its errors end the recovery, except a cancellation and a lost authority.\<close>

definition proposal :: "'w recovery_env \<Rightarrow> rec_run \<Rightarrow> recovery_context \<Rightarrow> ('w, recovery_decision) rec_eff" where
  "proposal env rn ctx = (case en_supervisor env of
      Lead \<Rightarrow> of_result (decide ctx)
    | Custom f \<Rightarrow> outside_eff (f ctx)
    | Awaited f \<Rightarrow> ebind (remaining env rn) (\<lambda>left. outside_eff (f ctx left)))"

definition supervised :: "'w recovery_env \<Rightarrow> rec_run \<Rightarrow> recovery_context \<Rightarrow> ('w, recovery_decision) rec_eff" where
  "supervised env rn ctx s = (
    case ebind (proposal env rn ctx) (\<lambda>d. of_result (rbind (guard (recovery_decision_valid d) PydanticError)
        (\<lambda>_. Inr d))) s of
      (Inr d, s') \<Rightarrow> (Inr d, s')
    | (Inl e, s') \<Rightarrow>
        if e = RecTimeoutError then stop env rn RECOVERY_BUDGET_EXHAUSTED s'
        else if e = EvaluationAuthorizationError \<or> \<not> catchable e then (Inl e, s')
        else stop env rn POLICY_DENIED s')"

definition capability_after_check :: "failure_assessment + llm_response \<Rightarrow> capability_state" where
  "capability_after_check r = (case r of
      Inr _ \<Rightarrow> CS_VERIFIED
    | Inl f \<Rightarrow> if fa_stage f = ST_PROVIDER then CS_UNKNOWN else CS_QUARANTINED)"

definition check_moves :: "rec_run \<Rightarrow> route_id \<Rightarrow> provider_id \<Rightarrow> candidate \<Rightarrow> walk \<Rightarrow> walk" where
  "check_moves rn target current_provider c k = (
    let k1 = k\<lparr>wk_checks := wk_checks k + 1\<rparr> in
    if rn_ordered rn then
      (if cd_provider c = current_provider
       then k1\<lparr>wk_model_switches := wk_model_switches k1 + (if target \<noteq> wk_current k then 1 else 0)\<rparr>
       else k1\<lparr>wk_provider_switches := wk_provider_switches k1 + 1\<rparr>)
      \<lparr>wk_current := target, wk_checked_routes := wk_checked_routes k @ [target],
       wk_attempted_models := wk_attempted_models k @ [cd_model c]\<rparr>
    else k1)"

text \<open>What follows the check: its answer is used, or what it showed about the route is kept.\<close>

definition after_check ::
    "'w recovery_env \<Rightarrow> rec_run \<Rightarrow> failure_assessment \<Rightarrow> route_id \<Rightarrow> candidate
      \<Rightarrow> failure_assessment + llm_response \<Rightarrow> ('w, turn) rec_eff" where
  "after_check env rn failure target c res = (
    let learn = (\<lambda>k. k\<lparr>wk_capabilities := (wk_capabilities k)(target \<mapsto> capability_after_check res),
          wk_capability_refs := (wk_capability_refs k)(target \<mapsto> [last (wk_refs k)])\<rparr>) in
    case res of
      Inr resp \<Rightarrow>
        if rn_ordered rn then eret (Answered resp)
        else if lr_execution_outcome resp = Some MODEL_EXECUTION_SUBSTITUTED then
          ebind (update (\<lambda>k. k\<lparr>wk_history := wk_history k @ [target],
            wk_attempted_models := wk_attempted_models k @ [cd_model c]\<rparr>)) (\<lambda>_. eret (Answered resp))
        else ebind (update learn) (\<lambda>_. eret (Again failure))
    | Inl f \<Rightarrow>
        ebind (update learn) (\<lambda>_.
        if \<not> fa_recoverable f then stop env rn STOP_NONRECOVERABLE
        else eret (Again (if rn_ordered rn then f else failure))))"

definition capability_check ::
    "'w recovery_env \<Rightarrow> rec_run \<Rightarrow> failure_assessment \<Rightarrow> route_id \<Rightarrow> ('w, turn) rec_eff" where
  "capability_check env rn failure target =
    ebind the_walk (\<lambda>k.
    ebind (of_result (dict_entry (rn_routes rn) target)) (\<lambda>c.
    ebind (of_result (dict_entry (rn_routes rn) (wk_current k))) (\<lambda>current.
    ebind (update (check_moves rn target (cd_provider current) c)) (\<lambda>_.
    ebind (invoke env rn target True) (after_check env rn failure target c)))))"

definition switch_route ::
    "'w recovery_env \<Rightarrow> rec_run \<Rightarrow> rec_action \<Rightarrow> route_id \<Rightarrow> ('w, turn) rec_eff" where
  "switch_route env rn action target =
    ebind (update (\<lambda>k. k
      \<lparr>wk_model_switches := wk_model_switches k + (if action = SWITCH_MODEL then 1 else 0),
       wk_provider_switches := wk_provider_switches k + (if action = SWITCH_PROVIDER then 1 else 0),
       wk_current := target, wk_history := wk_history k @ [target]\<rparr>)) (\<lambda>_.
    ebind (of_result (dict_entry (rn_routes rn) target)) (\<lambda>c.
    ebind (update (\<lambda>k. k\<lparr>wk_attempted_models := wk_attempted_models k @ [cd_model c]\<rparr>)) (\<lambda>_.
    ebind (invoke env rn target False) (\<lambda>res.
    eret (case res of Inl f \<Rightarrow> Again f | Inr resp \<Rightarrow> Answered resp)))))"

definition record_decision ::
    "'w recovery_env \<Rightarrow> rec_run \<Rightarrow> recovery_context \<Rightarrow> recovery_decision \<Rightarrow> bool \<Rightarrow> ('w, unit) rec_eff" where
  "record_decision env rn ctx d allowed =
    write_record env rn DECISION (if allowed then EO_ALLOW else EO_DENY) (\<lambda>r. r\<lparr>
      re_route := rd_target_route d, re_action := Some (rd_action d), re_decision := Some d,
      re_recovery_context := Some ctx\<rparr>)"

definition follow_decision ::
    "'w recovery_env \<Rightarrow> rec_run \<Rightarrow> failure_assessment \<Rightarrow> recovery_context \<Rightarrow> recovery_decision
      \<Rightarrow> ('w, turn) rec_eff" where
  "follow_decision env rn failure ctx d =
    ebind the_walk (\<lambda>k.
    let allowed = policy_allows d ctx (rn_budget rn) (wk_model_switches k) (wk_provider_switches k) None in
    ebind (update (\<lambda>k. k\<lparr>wk_decisions := wk_decisions k + 1\<rparr>)) (\<lambda>_.
    ebind (record_decision env rn ctx d allowed) (\<lambda>_.
    if \<not> allowed then stop env rn POLICY_DENIED
    else if rd_action d \<in> {FAIL_TASK, FAIL_RUN} then
      stop env rn (if rd_reason_code d = BUDGET_EXHAUSTED then RECOVERY_BUDGET_EXHAUSTED else POLICY_DENIED)
    else case rd_target_route d of
        None \<Rightarrow> eraise RecKeyError
      | Some target \<Rightarrow>
          if rd_action d = CAPABILITY_CHECK then capability_check env rn failure target
          else switch_route env rn (rd_action d) target)))"

definition no_route_left :: "recovery_context \<Rightarrow> bool" where
  "no_route_left ctx \<longleftrightarrow>
    \<not> list_ex (\<lambda>c. cd_eligible c \<or> cd_next_allowed_action c = CAPABILITY_CHECK) (rc_candidates ctx)"

definition recover_turn ::
    "'w recovery_env \<Rightarrow> rec_run \<Rightarrow> failure_assessment \<Rightarrow> ('w, turn) rec_eff" where
  "recover_turn env rn failure =
    ebind (remaining env rn) (\<lambda>left.
    if left \<le> 0 then stop env rn RECOVERY_BUDGET_EXHAUSTED
    else if \<not> fa_recoverable failure then stop env rn STOP_NONRECOVERABLE
    else ebind (update (\<lambda>k. k\<lparr>wk_health := (wk_health k)(wk_current k \<mapsto> H_DEGRADED)\<rparr>)) (\<lambda>_.
    ebind (build_context env rn failure) (\<lambda>ctx.
    if rn_ordered rn \<and> no_route_left ctx then
      ebind (write_record env rn DECISION EO_ALLOW (\<lambda>r. r\<lparr>re_action := Some FAIL_TASK,
          re_decision := Some (lead_decision ctx FAIL_TASK NO_ALLOWED_ROUTE None),
          re_recovery_context := Some ctx\<rparr>)) (\<lambda>_. stop env rn POLICY_DENIED)
    else if rc_remaining_decisions ctx \<le> 0 \<or> rc_remaining_attempts ctx \<le> 0
      then stop env rn RECOVERY_BUDGET_EXHAUSTED
    else ebind (supervised env rn ctx) (follow_decision env rn failure ctx))))"

text \<open>\<open>while response is None\<close>: the result \<open>None\<close> means that the fuel ran out.\<close>

fun recover_loop ::
    "nat \<Rightarrow> 'w recovery_env \<Rightarrow> rec_run \<Rightarrow> failure_assessment + llm_response
      \<Rightarrow> ('w, llm_response option) rec_eff" where
  "recover_loop n env rn (Inr resp) = eret (Some resp)"
| "recover_loop 0 env rn (Inl f) = eret None"
| "recover_loop (Suc n) env rn (Inl f) =
    ebind (recover_turn env rn f) (\<lambda>t. recover_loop n env rn
      (case t of Answered resp \<Rightarrow> Inr resp | Again f' \<Rightarrow> Inl f'))"

section \<open>The whole execution\<close>

definition chosen_budget :: "adaptive \<Rightarrow> rec_scope \<Rightarrow> recovery_budget" where
  "chosen_budget ar sc = (
    if ordered_profile (sp_task_profile sc) \<and> \<not> ar_explicit_budget ar
    then default_budget\<lparr>rb_max_total_attempts_per_task := 4, rb_max_model_fallbacks := 2,
      rb_max_capability_checks := 3\<rparr>
    else ar_budget ar)"

definition scoped_routes :: "adaptive \<Rightarrow> rec_scope \<Rightarrow> route_table" where
  "scoped_routes ar sc = List.map_filter (\<lambda>key. map_option (Pair key) (map_of (ar_routes ar) key))
    (case map_of task_candidates (sp_task_profile sc) of None \<Rightarrow> [] | Some ks \<Rightarrow> ks)"

definition initial_route :: "route_table \<Rightarrow> string \<Rightarrow> string \<Rightarrow> route_id option" where
  "initial_route routes provider_name model_name = map_option fst (find (\<lambda>(key, c).
    provider_value (cd_provider c) = provider_name \<and> model_value (cd_model c) = model_name) routes)"

definition certified :: "'v \<Rightarrow> (string \<times> route_id \<times> model_id \<times> string \<rightharpoonup> 'v) \<Rightarrow> rec_scope \<Rightarrow> route_table
    \<Rightarrow> (route_id \<rightharpoonup> 'v)" where
  "certified d table sc routes = (\<lambda>key. map_option
    (\<lambda>c. get_or d table (sp_task_profile sc, key, cd_model c, sp_contract_hash sc)) (map_of routes key))"

definition overlay :: "(route_id \<rightharpoonup> 'v) \<Rightarrow> (route_id \<rightharpoonup> 'v) \<Rightarrow> (route_id \<rightharpoonup> 'v)" where
  "overlay base new = base ++ new"

text \<open>What a recent completed attempt says about the health of its route.\<close>

definition governed_attempt :: "route_table \<Rightarrow> recovery_evidence \<Rightarrow> bool" where
  "governed_attempt routes r \<longleftrightarrow> re_kind r = ATTEMPT_COMPLETED
    \<and> (case Option.bind (re_route r) (map_of routes) of
        None \<Rightarrow> False
      | Some c \<Rightarrow> re_model r = Some (cd_model c) \<and> re_provider r = Some (cd_provider c))"

definition observed_health :: "recovery_evidence \<Rightarrow> (route_id \<rightharpoonup> health) \<Rightarrow> (route_id \<rightharpoonup> health)" where
  "observed_health r h = (
    if re_outcome r = EO_PASS \<and> re_execution_outcome r \<noteq> Some MODEL_EXECUTION_SUBSTITUTED
      then h(the (re_route r) \<mapsto> H_HEALTHY)
    else if re_failure_class r \<in> {Some FC_READ_TIMEOUT, Some FC_PROVIDER_UNAVAILABLE,
        Some FC_REMOTE_PROTOCOL_ERROR, Some FC_RATE_LIMIT}
      then h(the (re_route r) \<mapsto> H_DEGRADED)
    else h)"

definition observe :: "'w recovery_env \<Rightarrow> rec_run \<Rightarrow> recovery_evidence \<Rightarrow> ('w, unit) rec_eff" where
  "observe env rn r = (
    if governed_attempt (rn_routes rn) r then
      ebind (outside_eff (en_age_seconds env (re_timestamp r))) (\<lambda>age.
        if age < 86400 then update (\<lambda>k. k\<lparr>wk_health := observed_health r (wk_health k)\<rparr>) else eret ())
    else eret ())"

definition initial_walk :: "adaptive \<Rightarrow> rec_scope \<Rightarrow> route_table \<Rightarrow> route_id \<Rightarrow> recovery_evidence list \<Rightarrow> walk" where
  "initial_walk ar sc routes current observed = (
    let facts = capability_provenance observed sc routes in
    \<lparr>wk_history = [], wk_checked_routes = [], wk_health = ar_initial_health ar, wk_attempted_models = [],
     wk_checks = 0, wk_decisions = 0, wk_model_switches = 0, wk_provider_switches = 0,
     wk_provider_calls = 0,
     wk_capabilities = overlay (certified CS_UNKNOWN (ar_certifications ar) sc routes)
       (\<lambda>key. map_option fst (facts key)),
     wk_capability_refs = overlay (certified [] (ar_certification_refs ar) sc routes)
       (\<lambda>key. map_option (\<lambda>f. [snd f]) (facts key)),
     wk_refs = [], wk_last_failure = None, wk_last_route = current, wk_current = current\<rparr>)"

text \<open>The refusals before the first provider call.\<close>

definition refuse :: "'w recovery_env \<Rightarrow> rec_run \<Rightarrow> ('w, unit) rec_eff" where
  "refuse env rn =
    ebind the_world (\<lambda>w.
    ebind (of_result (en_records env (Some (sp_run_id (rn_scope rn))) (Some (sp_task_id (rn_scope rn))) w))
      (\<lambda>earlier.
    if list_ex (\<lambda>r. sp_operation_id (re_scope r) = sp_operation_id (rn_scope rn)) earlier
      then stop env rn INTERRUPTED_EXECUTION
    else ebind the_walk (\<lambda>k.
    ebind (of_result (dict_entry (rn_routes rn) (wk_current k))) (\<lambda>c.
    if \<not> cd_authority_exists c then stop env rn POLICY_DENIED
    else if rb_max_total_recovery_cost (rn_budget rn) \<noteq> None then stop env rn POLICY_DENIED
    else ebind (of_result (map_entry (wk_capabilities k) (wk_current k))) (\<lambda>state.
    if state \<in> {CS_QUARANTINED, CS_UNSUPPORTED} then stop env rn POLICY_DENIED
    else eret ())))))"

definition first_attempt ::
    "'w recovery_env \<Rightarrow> rec_run \<Rightarrow> ('w, failure_assessment + llm_response) rec_eff" where
  "first_attempt env rn =
    ebind the_walk (\<lambda>k.
    ebind (of_result (dict_entry (rn_routes rn) (wk_current k))) (\<lambda>c.
    ebind (update (\<lambda>k. k\<lparr>wk_history := wk_history k @ [wk_current k],
      wk_attempted_models := wk_attempted_models k @ [cd_model c]\<rparr>)) (\<lambda>_.
    invoke env rn (wk_current k) False)))"

text \<open>\<open>dict.fromkeys\<close> keeps the first occurrence of every key.\<close>

fun first_occurrences :: "'a list \<Rightarrow> 'a list" where
  "first_occurrences [] = []"
| "first_occurrences (x # xs) = x # filter (\<lambda>y. y \<noteq> x) (first_occurrences xs)"

definition final_response :: "rec_run \<Rightarrow> walk \<Rightarrow> llm_response \<Rightarrow> llm_response" where
  "final_response rn k resp = resp
    \<lparr>lr_requested_model := (if rn_generated rn then lr_requested_model resp
       else model_value (hd (wk_attempted_models k))),
     lr_attempted_models := map model_value (first_occurrences (wk_attempted_models k))\<rparr>"

definition run_recovery :: "nat \<Rightarrow> 'w recovery_env \<Rightarrow> rec_run \<Rightarrow> recovery_evidence list
    \<Rightarrow> ('w, llm_response option) rec_eff" where
  "run_recovery fuel env rn observed =
    ebind (efold (observe env rn) observed) (\<lambda>_.
    ebind (refuse env rn) (\<lambda>_.
    ebind the_world (\<lambda>w.
    let rn = rn\<lparr>rn_frozen_input := en_messages_digest env w\<rparr> in
    ebind (first_attempt env rn) (\<lambda>res.
    ebind (recover_loop fuel env rn res) (\<lambda>answer.
    ebind the_walk (\<lambda>k. eret (map_option (final_response rn k) answer)))))))"

text \<open>
  The messages are hashed only after the refusals. \<open>started\<close> is read before the evidence. The walk that the execution ends with is returned for the
  statements about it; it is \<open>None\<close> when the execution was refused before its variables existed.
\<close>

definition execute_scope ::
    "nat \<Rightarrow> 'w recovery_env \<Rightarrow> adaptive \<Rightarrow> rec_scope \<Rightarrow> string \<Rightarrow> string \<Rightarrow> 'w
      \<Rightarrow> (rec_exn + llm_response option) \<times> walk option \<times> 'w" where
  "execute_scope fuel env ar sc provider_name model_name w = (
    let generated = starts_with ''generated-capability:'' (sp_operation_id sc);
        budget = chosen_budget ar sc in
    if en_context_digest env w \<noteq> sp_context_hash sc
      then (Inl (RecValueError ''Recovery scope/context mismatch''), None, w)
    else case detector_init (scoped_routes ar sc) of
        Inl e \<Rightarrow> (Inl e, None, w)
      | Inr routes \<Rightarrow>
        (case initial_route routes provider_name model_name of
          None \<Rightarrow> (Inl (RecValueError ''Initial provider is outside governed recovery authority''), None, w)
        | Some current \<Rightarrow>
          if \<not> generated \<and> \<not> (case map_of routes current of None \<Rightarrow> False | Some c \<Rightarrow> cd_authority_exists c)
            then (Inl (RecValueError ''Initial provider is outside governed recovery authority''), None, w)
          else (case en_monotonic env w of (started, w1) \<Rightarrow>
            case en_records env None None w1 of
              Inl e \<Rightarrow> (Inl e, None, w1)
            | Inr observed \<Rightarrow>
              let rn = \<lparr>rn_scope = sc, rn_budget = budget, rn_routes = routes, rn_generated = generated,
                  rn_ordered = ordered_profile (sp_task_profile sc), rn_started = started,
                  rn_frozen_input = [], rn_forbidden = ar_forbidden ar,
                  rn_grants = ar_model_grants ar\<rparr> in
              (case run_recovery fuel env rn observed (initial_walk ar sc routes current observed, w1) of
                (res, k, w') \<Rightarrow> (res, Some k, w')))))"

text \<open>\<open>execute\<close>: the scope of a task. The hashes of the context and of the response schema are given.\<close>

definition task_scope :: "task \<Rightarrow> (string \<rightharpoonup> string) \<Rightarrow> string \<Rightarrow> string \<Rightarrow> rec_exn + rec_scope" where
  "task_scope t inputs context_hash contract_hash =
    rbind (map_entry inputs ''research_object_id'') (\<lambda>object_id.
    rbind (map_entry inputs ''scheme_id'') (\<lambda>scheme_id.
    let sc = \<lparr>sp_run_id = t_run_id t, sp_task_id = t_task_id t, sp_object_id = object_id,
      sp_scheme_id = scheme_id, sp_task_profile = t_task_type t, sp_agent_id = t_assigned_agent t,
      sp_operation_id = ''specialist'', sp_context_hash = context_hash, sp_contract_hash = contract_hash\<rparr> in
    rbind (guard (rec_scope_valid sc) PydanticError) (\<lambda>_. Inr sc)))"

definition execute_recovery ::
    "nat \<Rightarrow> 'w recovery_env \<Rightarrow> adaptive \<Rightarrow> task \<Rightarrow> (string \<rightharpoonup> string) \<Rightarrow> string \<Rightarrow> string \<Rightarrow> string \<Rightarrow> 'w
      \<Rightarrow> (rec_exn + llm_response option) \<times> walk option \<times> 'w" where
  "execute_recovery fuel env ar t inputs contract_hash provider_name model_name w = (
    case task_scope t inputs (en_context_digest env w) contract_hash of
      Inl e \<Rightarrow> (Inl e, None, w)
    | Inr sc \<Rightarrow> execute_scope fuel env ar sc provider_name model_name w)"

end
