(* ===== verification/RecoveryFacts.thy ===== *)
theory RecoveryFacts
  imports AdaptiveRecovery EffectTriples
begin

text \<open>
  What the recovery loop keeps: triples for every part of it. The \<open>core\<close> of a walk is what its
  budget is counted on: everything but the evidence references, the capabilities and the last
  failure. Recording leaves the core alone, an invocation adds one provider call to it, and one turn
  of the loop moves it inside the budget.
\<close>

definition core :: "walk \<Rightarrow> walk" where
  "core k = k\<lparr>wk_capabilities := Map.empty, wk_capability_refs := Map.empty, wk_refs := [],
    wk_last_failure := None, wk_last_route := ROUTE_SOL\<rparr>"

lemma core_simps [simp]:
  "core (k\<lparr>wk_refs := refs\<rparr>) = core k"
  "core (k\<lparr>wk_capabilities := caps\<rparr>) = core k"
  "core (k\<lparr>wk_capability_refs := crefs\<rparr>) = core k"
  "core (k\<lparr>wk_last_failure := lf\<rparr>) = core k"
  "core (k\<lparr>wk_last_route := lr\<rparr>) = core k"
  "core (k\<lparr>wk_history := h\<rparr>) = (core k)\<lparr>wk_history := h\<rparr>"
  "core (k\<lparr>wk_checked_routes := cr\<rparr>) = (core k)\<lparr>wk_checked_routes := cr\<rparr>"
  "core (k\<lparr>wk_health := hl\<rparr>) = (core k)\<lparr>wk_health := hl\<rparr>"
  "core (k\<lparr>wk_attempted_models := am\<rparr>) = (core k)\<lparr>wk_attempted_models := am\<rparr>"
  "core (k\<lparr>wk_checks := i\<rparr>) = (core k)\<lparr>wk_checks := i\<rparr>"
  "core (k\<lparr>wk_decisions := i\<rparr>) = (core k)\<lparr>wk_decisions := i\<rparr>"
  "core (k\<lparr>wk_model_switches := i\<rparr>) = (core k)\<lparr>wk_model_switches := i\<rparr>"
  "core (k\<lparr>wk_provider_switches := i\<rparr>) = (core k)\<lparr>wk_provider_switches := i\<rparr>"
  "core (k\<lparr>wk_provider_calls := i\<rparr>) = (core k)\<lparr>wk_provider_calls := i\<rparr>"
  "core (k\<lparr>wk_current := r\<rparr>) = (core k)\<lparr>wk_current := r\<rparr>"
  by (simp_all add: core_def)

lemma core_fields [simp]:
  "wk_history (core k) = wk_history k" "wk_checked_routes (core k) = wk_checked_routes k"
  "wk_health (core k) = wk_health k" "wk_attempted_models (core k) = wk_attempted_models k"
  "wk_checks (core k) = wk_checks k" "wk_decisions (core k) = wk_decisions k"
  "wk_model_switches (core k) = wk_model_switches k"
  "wk_provider_switches (core k) = wk_provider_switches k"
  "wk_provider_calls (core k) = wk_provider_calls k" "wk_current (core k) = wk_current k"
  by (simp_all add: core_def)

abbreviation at_core :: "walk \<Rightarrow> walk \<times> 'w \<Rightarrow> bool" where
  "at_core c s \<equiv> core (fst s) = c"

section \<open>The primitives\<close>

lemma bind_of_result:
  assumes "\<And>e s. P s \<Longrightarrow> E e s" and "\<And>x. r = Inr x \<Longrightarrow> triple P (f x) Q E"
  shows "triple P (ebind (of_result r) f) Q E"
proof (cases r)
  case (Inl e)
  then show ?thesis using assms(1) by (simp add: triple_def of_result_def ebind_def)
next
  case (Inr x)
  then show ?thesis using assms(2) by (simp add: triple_def of_result_def ebind_def)
qed

lemma of_result_core: "triple P (of_result r) (\<lambda>_. P) (\<lambda>_. P)"
  by (auto simp: triple_def of_result_def split: sum.splits)

lemma bind_the_walk:
  assumes "\<And>k. core k = c \<Longrightarrow> triple (at_core c) (f k) Q E"
  shows "triple (at_core c) (ebind the_walk f) Q E"
  using assms by (simp add: triple_def the_walk_def ebind_def)

lemma bind_the_world: "(\<And>w. triple P (f w) Q E) \<Longrightarrow> triple P (ebind the_world f) Q E"
  by (simp add: triple_def the_world_def ebind_def)

lemma bind_update:
  assumes "\<And>k. core k = c \<Longrightarrow> core (g k) = c'" and "triple (at_core c') (f ()) Q E"
  shows "triple (at_core c) (ebind (update g) f) Q E"
  using assms by (simp add: triple_def update_def ebind_def split: prod.splits)

lemma outside_core: "triple (at_core c) (outside f) (\<lambda>_. at_core c) E"
  by (auto simp: triple_def outside_def split: prod.splits)

lemma outside_eff_core: "triple (at_core c) (outside_eff f) (\<lambda>_. at_core c) (\<lambda>_. at_core c)"
  by (auto simp: triple_def outside_eff_def split: prod.splits sum.splits)

lemma update_core: "(\<And>k. core k = c \<Longrightarrow> core (g k) = c') \<Longrightarrow> triple (at_core c) (update g) (\<lambda>_. at_core c') E"
  by (simp add: triple_def update_def)

lemma remaining_core: "triple (at_core c) (remaining env rn) (\<lambda>_. at_core c) E"
  unfolding remaining_def by (rule triple_ebind, rule outside_core, rule triple_eret)

lemma latency_core: "triple (at_core c) (latency env clock) (\<lambda>_. at_core c) E"
  unfolding latency_def by (rule triple_ebind, rule outside_core, rule triple_eret)

lemmas core_binds = triple_ebind [OF outside_core] triple_ebind [OF outside_eff_core]
  triple_ebind [OF remaining_core] triple_ebind [OF latency_core] bind_of_result bind_the_walk bind_the_world

lemma write_record_core:
  "triple (at_core c) (write_record env rn kind outcome fill) (\<lambda>_. at_core c) (\<lambda>_. at_core c)"
  unfolding write_record_def Let_def
  by (rule core_binds update_core | simp)+

lemma stop_core: "triple (at_core c) (stop env rn reason) Q (\<lambda>_. at_core c)"
  unfolding stop_def
  by (rule core_binds triple_ebind [OF write_record_core] triple_eraise | simp)+

section \<open>One invocation\<close>

lemma handle_failure_core:
  "triple (at_core c) (handle_failure env rn route common clock tr exc) (\<lambda>_. at_core c) (\<lambda>_. at_core c)"
  unfolding handle_failure_def Let_def
  by (rule core_binds triple_if triple_ebind [OF write_record_core] bind_update [where c' = c] stop_core
      triple_eraise triple_eret | simp)+

lemma try_call_core:
  assumes "try_call env rn route policy common limit clock s = (tr, s')"
  shows "core (fst s') = core (fst s)"
proof -
  have pass: "core (fst t') = core (fst t)"
    if "ebind (latency env clock) (\<lambda>ms. write_record env rn ATTEMPT_COMPLETED EO_PASS (fill ms)) t = (r, t')"
    for fill t r t'
  proof -
    have "triple (at_core (core (fst t))) (ebind (latency env clock)
        (\<lambda>ms. write_record env rn ATTEMPT_COMPLETED EO_PASS (fill ms))) (\<lambda>_. at_core (core (fst t)))
        (\<lambda>_. at_core (core (fst t)))"
      by (rule core_binds write_record_core)+
    from triple_state [OF this _ that] show ?thesis by simp
  qed
  show ?thesis
    using assms pass
    by (auto simp: try_call_def Let_def split: prod.splits sum.splits)
qed

lemma attempt_route_core:
  "triple (at_core c) (attempt_route env rn route common policy) (\<lambda>_. at_core c) (\<lambda>_. at_core c)"
proof -
  have "triple (at_core c) (\<lambda>s. case try_call env rn route policy common limit clock s of (tr, s') \<Rightarrow>
      (case tr_result tr of
         Inr resp \<Rightarrow> (Inr (Inr resp), s')
       | Inl exc \<Rightarrow> ebind (handle_failure env rn route common clock tr exc) (\<lambda>a. eret (Inl a)) s'))
      (\<lambda>_. at_core c) (\<lambda>_. at_core c)" for limit clock
  proof -
    have "triple (at_core c) (ebind (handle_failure env rn route common clock tr exc) (\<lambda>a. eret (Inl a)))
        (\<lambda>_. at_core c) (\<lambda>_. at_core c)" for tr exc
      by (rule triple_ebind [OF handle_failure_core] triple_eret | assumption)+
    note handled = triple_state [OF this]
    show ?thesis
      by (rule triple_stateI)
        (auto dest!: try_call_core dest: handled [rotated] split: prod.splits sum.splits)
  qed
  then show ?thesis
    unfolding attempt_route_def
    by - (rule core_binds triple_ebind [OF write_record_core] | assumption)+
qed

definition called :: "walk \<Rightarrow> walk" where
  "called c = c\<lparr>wk_provider_calls := wk_provider_calls c + 1\<rparr>"

lemma core_called: "core k = c \<Longrightarrow> core (k\<lparr>wk_provider_calls := wk_provider_calls k + 1\<rparr>) = called c"
  by (auto simp: called_def)

lemma invoke_core:
  "triple (at_core c) (invoke env rn route check) (\<lambda>_. at_core (called c))
    (\<lambda>_ s. at_core c s \<or> at_core (called c) s)"
proof -
  have s: "triple (at_core c) (stop env rn reason) (\<lambda>_. at_core (called c))
    (\<lambda>_ s. at_core c s \<or> at_core (called c) s)" for reason
    by (rule triple_conseq [OF stop_core [where Q = "\<lambda>_. at_core (called c)"]]) auto
  have a: "triple (at_core (called c)) (attempt_route env rn route common policy) (\<lambda>_. at_core (called c))
    (\<lambda>_ s. at_core c s \<or> at_core (called c) s)" for common policy
    by (rule triple_conseq [OF attempt_route_core]) auto
  show ?thesis
    unfolding invoke_def
    by (rule core_binds triple_if s a bind_update [OF core_called] | simp)+
qed

section \<open>The decision context\<close>

text \<open>A route table as the loop uses it: a dict keyed by the route of its governed entries.\<close>

definition wf_routes :: "route_table \<Rightarrow> bool" where
  "wf_routes routes \<longleftrightarrow> distinct (map fst routes) \<and> (\<forall>(key, c) \<in> set routes. key = cd_route c)"

lemma wf_routes_lookup:
  assumes "wf_routes routes" and "(key, c) \<in> set routes"
  shows "map_of routes (cd_route c) = Some c"
proof -
  have "key = cd_route c" using assms by (auto simp: wf_routes_def)
  with assms show ?thesis by (auto simp: wf_routes_def intro: map_of_is_SomeI)
qed

lemma map_of_route: "wf_routes routes \<Longrightarrow> map_of routes r = Some c \<Longrightarrow> cd_route c = r"
  by (auto simp: wf_routes_def dest: map_of_SomeD)

lemma dict_entry_Inr [simp]: "dict_entry d k = Inr v \<longleftrightarrow> map_of d k = Some v"
  by (simp add: dict_entry_def split: option.splits)

definition context_for :: "rec_run \<Rightarrow> walk \<Rightarrow> failure_assessment \<Rightarrow> recovery_context \<Rightarrow> bool" where
  "context_for rn c f ctx \<longleftrightarrow>
     rc_scope ctx = rn_scope rn \<and> rc_failure ctx = f \<and> rc_current_route ctx = wk_current c
   \<and> rc_remaining_attempts ctx = rb_max_total_attempts_per_task (rn_budget rn) - int (length (wk_history c))
   \<and> rc_remaining_checks ctx = rb_max_capability_checks (rn_budget rn) - wk_checks c
   \<and> rc_remaining_decisions ctx = rb_max_recovery_decisions (rn_budget rn) - wk_decisions c
   \<and> (\<forall>d \<in> set (rc_candidates ctx). candidate_sound d
        \<and> (\<exists>e. map_of (rn_routes rn) (cd_route d) = Some e \<and> cd_provider d = cd_provider e
             \<and> cd_authority_exists d = cd_authority_exists e))
   \<and> distinct (map cd_route (rc_candidates ctx)) 
   \<and> (\<exists>d \<in> set (rc_candidates ctx). cd_route d = wk_current c)
   \<and> (\<forall>d \<in> set (rc_candidates ctx). \<forall>current \<in> set (rc_candidates ctx).
        cd_route current = wk_current c \<longrightarrow> proposable d \<longrightarrow>
        switch_covered (rn_budget rn) (wk_model_switches c) (wk_provider_switches c) current d)"

lemma restrict_switches_fields [simp]:
  "cd_route (restrict_switches rn k p d) = cd_route d"
  "cd_provider (restrict_switches rn k p d) = cd_provider d"
  "cd_authority_exists (restrict_switches rn k p d) = cd_authority_exists d"
  by (simp_all add: restrict_switches_def)

lemma restrict_switches_sound: "candidate_sound d \<Longrightarrow> candidate_sound (restrict_switches rn k p d)"
  by (auto simp: restrict_switches_def candidate_sound_def usable_def)

lemma restrict_switches_covered:
  assumes "proposable (restrict_switches rn k p d)" and "cd_route current = wk_current k"
    and "cd_provider current = p"
  shows "switch_covered (rn_budget rn) (wk_model_switches k) (wk_provider_switches k) current
    (restrict_switches rn k p d)"
  using assms by (auto simp: restrict_switches_def proposable_def switch_covered_def split: if_splits)

lemma context_of_for:
  assumes wf: "wf_routes (rn_routes rn)"
    and cs: "candidates (rn_routes rn) caps hist b hl refs = Inr cs"
    and cur: "map_of (rn_routes rn) (wk_current k) = Some current"
    and core: "core k = c"
  shows "context_for rn c f (context_of rn k f (map (restrict_switches rn k (cd_provider current)) cs) left)"
proof -
  note cs' = candidates_Inr(1) [OF cs]
  have route: "\<exists>key e. (key, e) \<in> set (rn_routes rn) \<and> d = detected caps hist b hl refs (key, e)"
    if "d \<in> set cs" for d
    using that unfolding cs' by force
  have entry: "\<exists>e. map_of (rn_routes rn) (cd_route d) = Some e \<and> cd_provider d = cd_provider e
      \<and> cd_authority_exists d = cd_authority_exists e" if "d \<in> set cs" for d
    using route [OF that] wf_routes_lookup [OF wf] by fastforce
  have sound: "candidate_sound d" if "d \<in> set cs" for d
    using route [OF that] candidate_sound_detected by auto
  have "map cd_route cs = map fst (rn_routes rn)"
    unfolding cs' map_map
    by (rule map_cong) (use wf in \<open>auto simp: wf_routes_def\<close>)
  note same = this
  with wf have dist: "distinct (map cd_route cs)" by (simp add: wf_routes_def)
  have "wk_current k \<in> set (map fst (rn_routes rn))" using cur by (force dest: map_of_SomeD)
  then have here: "\<exists>d \<in> set cs. cd_route d = wk_current k" unfolding same [symmetric] by force
  have cov: "switch_covered (rn_budget rn) (wk_model_switches k) (wk_provider_switches k)
      (restrict_switches rn k (cd_provider current) e) (restrict_switches rn k (cd_provider current) d)"
    if "d \<in> set cs" "e \<in> set cs" "cd_route e = wk_current k"
      "proposable (restrict_switches rn k (cd_provider current) d)" for d e
    by (rule restrict_switches_covered) (use that entry [OF that(2)] cur in auto)
  have "map (\<lambda>d. cd_route (restrict_switches rn k (cd_provider current) d)) cs = map cd_route cs" by simp
  then show ?thesis
    using dist sound entry cov here
    by (auto simp: context_for_def context_of_def core [symmetric] o_def
        intro!: restrict_switches_sound)
qed

lemma build_context_core:
  assumes "wf_routes (rn_routes rn)"
  shows "triple (at_core c) (build_context env rn f)
    (\<lambda>ctx s. at_core c s \<and> context_for rn c f ctx \<and> recovery_context_valid ctx) (\<lambda>_. at_core c)"
  unfolding build_context_def Let_def
  by (rule core_binds triple_eret | simp add: context_of_for [OF assms] guard_def split: if_splits)+

end
