(* ===== verification/RecoveryBounds.thy ===== *)
theory RecoveryBounds
  imports RecoveryFacts
begin

text \<open>
  The budget of a recovery: every counter stays inside it whatever the supervisor, the provider and
  the clock do, the loop ends within one turn per recovery decision, and the Lead supervisor only
  proposes what the gate allows.
\<close>

definition in_budget :: "rec_run \<Rightarrow> walk \<Rightarrow> bool" where
  "in_budget rn k \<longleftrightarrow>
     0 \<le> wk_checks k \<and> wk_checks k \<le> rb_max_capability_checks (rn_budget rn)
   \<and> 0 \<le> wk_decisions k \<and> wk_decisions k \<le> rb_max_recovery_decisions (rn_budget rn)
   \<and> 0 \<le> wk_model_switches k \<and> wk_model_switches k \<le> rb_max_model_fallbacks (rn_budget rn)
   \<and> 0 \<le> wk_provider_switches k \<and> wk_provider_switches k \<le> rb_max_cross_provider_switches (rn_budget rn)
   \<and> int (length (wk_history k)) \<le> rb_max_total_attempts_per_task (rn_budget rn)
   \<and> 0 \<le> wk_provider_calls k \<and> wk_provider_calls k \<le> int (length (wk_history k)) + wk_checks k"

lemma in_budget_core [simp]: "in_budget rn (core k) = in_budget rn k"
  by (simp add: in_budget_def)

lemma at_budget: "core k = c \<Longrightarrow> in_budget rn c \<Longrightarrow> in_budget rn k"
  by (metis in_budget_core)

text \<open>After the decision was counted, the state in which an allowed action is carried out.\<close>

definition may_act :: "rec_run \<Rightarrow> walk \<Rightarrow> route_id \<Rightarrow> bool" where
  "may_act rn c target \<longleftrightarrow> in_budget rn c
     \<and> int (length (wk_history c)) < rb_max_total_attempts_per_task (rn_budget rn)
     \<and> (\<exists>d current. map_of (rn_routes rn) target = Some d \<and> map_of (rn_routes rn) (wk_current c) = Some current
          \<and> (target = wk_current c
            \<or> (if cd_provider d = cd_provider current
               then wk_model_switches c < rb_max_model_fallbacks (rn_budget rn)
               else wk_provider_switches c < rb_max_cross_provider_switches (rn_budget rn))))"

definition turn_post :: "rec_run \<Rightarrow> int \<Rightarrow> turn \<Rightarrow> walk \<times> 'w \<Rightarrow> bool" where
  "turn_post rn n t s \<longleftrightarrow> in_budget rn (fst s) \<and> wk_decisions (fst s) = n"

lemma called_budget:
  "in_budget rn c \<Longrightarrow> wk_provider_calls c < int (length (wk_history c)) + wk_checks c \<Longrightarrow> in_budget rn (called c)"
  by (simp add: in_budget_def called_def)

lemma check_moves_budget:
  assumes "may_act rn c target" and "wk_checks c < rb_max_capability_checks (rn_budget rn)"
    and "map_of (rn_routes rn) target = Some d" and "map_of (rn_routes rn) (wk_current c) = Some current"
  shows "in_budget rn (check_moves rn target (cd_provider current) d c)"
    and "in_budget rn (called (check_moves rn target (cd_provider current) d c))"
    and "wk_decisions (check_moves rn target (cd_provider current) d c) = wk_decisions c"
    and "wk_history (check_moves rn target (cd_provider current) d c) = wk_history c"
  using assms by (auto simp: may_act_def check_moves_def in_budget_def called_def Let_def)

lemma core_check_moves: "core k = c \<Longrightarrow> core (check_moves rn target p d k) = check_moves rn target p d c"
  by (auto simp: check_moves_def Let_def)

lemma ebind_of_result_Inr: "ebind (of_result (Inr x)) f = f x"
  by (simp add: fun_eq_iff ebind_def of_result_def)

lemma update_state: "(\<And>s. P s \<Longrightarrow> R (f (fst s), snd s)) \<Longrightarrow> triple P (update f) (\<lambda>_. R) E"
  by (simp add: triple_def update_def)

lemma capability_check_budget:
  assumes act: "may_act rn c target" and chk: "wk_checks c < rb_max_capability_checks (rn_budget rn)"
  shows "triple (at_core c) (capability_check env rn f target) (turn_post rn (wk_decisions c))
    (\<lambda>_ s. in_budget rn (fst s))"
proof -
  from act obtain d current where d: "map_of (rn_routes rn) target = Some d"
    and cur: "map_of (rn_routes rn) (wk_current c) = Some current" by (auto simp: may_act_def)
  let ?m = "check_moves rn target (cd_provider current) d c"
  note moves = check_moves_budget [OF act chk d cur]
  have hist: "int (length (wk_history c)) < rb_max_total_attempts_per_task (rn_budget rn)"
    using act by (simp add: may_act_def)
  have inv: "triple (at_core ?m) (invoke env rn target True) (\<lambda>_. at_core (called ?m)) (\<lambda>_ s. in_budget rn (fst s))"
    by (rule triple_conseq [OF invoke_core]) (auto intro: at_budget [OF _ moves(1)] at_budget [OF _ moves(2)])
  have dec: "wk_decisions k = wk_decisions c \<and> wk_history k = wk_history c \<and> in_budget rn k"
    if "core k = called ?m" for k
  proof -
    have "wk_decisions (core k) = wk_decisions c" "wk_history (core k) = wk_history c"
      using moves unfolding that by (simp_all add: called_def)
    with at_budget [OF that moves(2)] show ?thesis by simp
  qed
  have stopped: "triple (at_core (called ?m)) (stop env rn STOP_NONRECOVERABLE) (turn_post rn (wk_decisions c))
    (\<lambda>_ s. in_budget rn (fst s))"
    by (rule triple_conseq [OF stop_core [where Q = "turn_post rn (wk_decisions c)"]])
      (blast dest: dec)+
  have finished: "triple (at_core (called ?m)) (eret t) (turn_post rn (wk_decisions c)) E" for t E
    by (rule triple_eret, drule dec) (simp add: turn_post_def)
  have after: "triple (at_core (called ?m)) (after_check env rn f target d res)
    (turn_post rn (wk_decisions c)) (\<lambda>_ s. in_budget rn (fst s))" for res
  proof (cases res)
    case (Inl g)
    show ?thesis
      unfolding after_check_def Let_def Inl sum.case
      by (rule bind_update [where c' = "called ?m"] triple_if stopped finished | simp)+
  next
    case (Inr resp)
    have "triple (at_core (called ?m)) (ebind (update (\<lambda>k. k\<lparr>wk_history := wk_history k @ [target],
            wk_attempted_models := wk_attempted_models k @ [cd_model d]\<rparr>)) (\<lambda>_. eret (Answered resp)))
        (turn_post rn (wk_decisions c)) (\<lambda>_ s. in_budget rn (fst s))"
      by (rule triple_ebind, rule update_state [where R = "turn_post rn (wk_decisions c) (Answered resp)"])
        (insert hist, auto dest!: dec simp: turn_post_def in_budget_def intro!: triple_eret)
    note answered = this
    show ?thesis
      unfolding after_check_def Let_def Inr sum.case
      by (rule triple_if answered bind_update [where c' = "called ?m"] finished | simp)+
  qed
  show ?thesis
    unfolding capability_check_def
  proof (rule bind_the_walk)
    fix k assume k: "core k = c"
    then have tgt: "dict_entry (rn_routes rn) target = Inr d"
        and here: "dict_entry (rn_routes rn) (wk_current k) = Inr current"
      using d cur by auto
    show "triple (at_core c) (ebind (of_result (dict_entry (rn_routes rn) target)) (\<lambda>d.
        ebind (of_result (dict_entry (rn_routes rn) (wk_current k))) (\<lambda>current.
        ebind (update (check_moves rn target (cd_provider current) d)) (\<lambda>_.
        ebind (invoke env rn target True) (after_check env rn f target d)))))
        (turn_post rn (wk_decisions c)) (\<lambda>_ s. in_budget rn (fst s))"
      unfolding tgt here ebind_of_result_Inr
      by (rule bind_update [OF core_check_moves] triple_ebind [OF inv] after | assumption)+
  qed
qed

text \<open>A move to another route counts as a switch of its kind.\<close>

definition switch_counted :: "rec_run \<Rightarrow> walk \<Rightarrow> rec_action \<Rightarrow> bool" where
  "switch_counted rn c action \<longleftrightarrow>
     (action = SWITCH_MODEL \<longrightarrow> wk_model_switches c < rb_max_model_fallbacks (rn_budget rn))
   \<and> (action = SWITCH_PROVIDER \<longrightarrow> wk_provider_switches c < rb_max_cross_provider_switches (rn_budget rn))"

definition switched :: "rec_action \<Rightarrow> route_id \<Rightarrow> walk \<Rightarrow> walk" where
  "switched action target k = k
      \<lparr>wk_model_switches := wk_model_switches k + (if action = SWITCH_MODEL then 1 else 0),
       wk_provider_switches := wk_provider_switches k + (if action = SWITCH_PROVIDER then 1 else 0),
       wk_current := target, wk_history := wk_history k @ [target]\<rparr>"

lemma core_switched: "core k = c \<Longrightarrow> core (switched action target k) = switched action target c"
  by (auto simp: switched_def)

lemma switch_route_budget:
  assumes act: "may_act rn c target" and counted: "switch_counted rn c action"
  shows "triple (at_core c) (switch_route env rn action target) (turn_post rn (wk_decisions c))
    (\<lambda>_ s. in_budget rn (fst s))"
proof -
  from act obtain d where d: "dict_entry (rn_routes rn) target = Inr d" by (auto simp: may_act_def)
  let ?m = "(switched action target c)\<lparr>wk_attempted_models := wk_attempted_models c @ [cd_model d]\<rparr>"
  have b: "in_budget rn ?m" "in_budget rn (called ?m)" "wk_decisions ?m = wk_decisions c"
    using act counted by (auto simp: may_act_def switch_counted_def in_budget_def called_def switched_def)
  have inv: "triple (at_core ?m) (invoke env rn target False) (\<lambda>_. at_core (called ?m)) (\<lambda>_ s. in_budget rn (fst s))"
    by (rule triple_conseq [OF invoke_core]) (auto intro: at_budget [OF _ b(1)] at_budget [OF _ b(2)])
  have finished: "triple (at_core (called ?m)) (eret t) (turn_post rn (wk_decisions c)) E" for t E
  proof (rule triple_eret)
    fix s assume s: "at_core (called ?m) s"
    have "wk_decisions (core (fst s)) = wk_decisions c" unfolding s using b by (simp add: called_def)
    with at_budget [OF s b(2)] show "turn_post rn (wk_decisions c) t s" by (simp add: turn_post_def)
  qed
  have models: "core (k\<lparr>wk_attempted_models := wk_attempted_models k @ [cd_model d]\<rparr>) = ?m"
    if "core k = switched action target c" for k
  proof -
    have "wk_attempted_models (core k) = wk_attempted_models c" unfolding that by (simp add: switched_def)
    then have "wk_attempted_models k = wk_attempted_models c" by (simp only: core_fields)
    with that show ?thesis by simp
  qed
  show ?thesis
    unfolding switch_route_def switched_def [symmetric] d ebind_of_result_Inr
    by (rule bind_update [OF core_switched] bind_update [OF models] triple_ebind [OF inv] finished | assumption)+
qed


section \<open>One turn\<close>

lemma may_act_allowed:
  assumes allowed: "policy_allows d ctx (rn_budget rn) (wk_model_switches c) (wk_provider_switches c) None"
    and action: "rd_action d \<notin> {FAIL_TASK, FAIL_RUN}"
    and ctx: "context_for rn c f ctx" and budget: "in_budget rn c"
    and c': "c' = c\<lparr>wk_decisions := wk_decisions c + 1\<rparr>"
  obtains target where "rd_target_route d = Some target" "may_act rn c' target"
    "rd_action d = CAPABILITY_CHECK \<longrightarrow> wk_checks c' < rb_max_capability_checks (rn_budget rn)"
    "rd_action d \<noteq> CAPABILITY_CHECK \<longrightarrow> switch_counted rn c' (rd_action d)"
proof -
  from policy_allowsE [OF allowed action] obtain x current where
      x: "rd_target_route d = Some (cd_route x)" "x \<in> set (rc_candidates ctx)" "current \<in> set (rc_candidates ctx)"
        "cd_route current = rc_current_route ctx"
    and left: "0 < rc_remaining_attempts ctx" "0 < rc_remaining_decisions ctx"
    and act: "action_allowed (rd_action d) ctx (rn_budget rn) (wk_model_switches c) (wk_provider_switches c) x current"
    by blast
  from ctx x(2) obtain e where e: "map_of (rn_routes rn) (cd_route x) = Some e" "cd_provider x = cd_provider e"
    by (auto simp: context_for_def)
  from ctx x(3,4) obtain e' where e': "map_of (rn_routes rn) (wk_current c) = Some e'" "cd_provider current = cd_provider e'"
    by (auto simp: context_for_def)
  have here: "cd_route current = wk_current c" using x(4) ctx by (simp add: context_for_def)
  have room: "int (length (wk_history c)) < rb_max_total_attempts_per_task (rn_budget rn)"
      "wk_decisions c < rb_max_recovery_decisions (rn_budget rn)"
    using ctx left by (auto simp: context_for_def)
  from act have sw: "cd_route x = wk_current c
      \<or> (if cd_provider x = cd_provider current then wk_model_switches c < rb_max_model_fallbacks (rn_budget rn)
         else wk_provider_switches c < rb_max_cross_provider_switches (rn_budget rn))"
    by (cases rule: action_allowed_cases) (auto simp: here switch_covered_def)
  have "may_act rn c' (cd_route x)"
    using budget room e e' sw
    by (auto simp: may_act_def c' in_budget_def split: if_splits)
  moreover have "rd_action d = CAPABILITY_CHECK \<longrightarrow> wk_checks c' < rb_max_capability_checks (rn_budget rn)"
    using act ctx by (auto simp: action_allowed_def context_for_def c')
  moreover have "rd_action d \<noteq> CAPABILITY_CHECK \<longrightarrow> switch_counted rn c' (rd_action d)"
    using act by (cases rule: action_allowed_cases) (auto simp: switch_counted_def c')
  ultimately show thesis using x(1) that by blast
qed

lemma stop_budget:
  "in_budget rn c \<Longrightarrow> triple (at_core c) (stop env rn reason) Q (\<lambda>_ s. in_budget rn (fst s))"
  by (rule triple_conseq [OF stop_core [where Q = Q]]) (auto intro: at_budget)

lemma record_budget:
  "in_budget rn c \<Longrightarrow> triple (at_core c) (write_record env rn kind outcome fill) (\<lambda>_. at_core c)
    (\<lambda>_ s. in_budget rn (fst s))"
  by (rule triple_conseq [OF write_record_core]) (auto intro: at_budget)

lemma follow_decision_budget:
  assumes ctx: "context_for rn c f ctx" and budget: "in_budget rn c"
    and left: "0 < rc_remaining_decisions ctx"
  shows "triple (at_core c) (follow_decision env rn f ctx d) (turn_post rn (wk_decisions c + 1))
    (\<lambda>_ s. in_budget rn (fst s))"
proof -
  let ?c = "c\<lparr>wk_decisions := wk_decisions c + 1\<rparr>"
  have dec: "core (k\<lparr>wk_decisions := wk_decisions k + 1\<rparr>) = ?c" if "core k = c" for k
    using that by auto
  have b: "in_budget rn ?c"
    using budget left ctx by (auto simp: in_budget_def context_for_def)
  let ?post = "turn_post rn (wk_decisions c + 1)" and ?exn = "\<lambda>_ s. in_budget rn (fst s)"
  have acts: "triple (at_core ?c) (case rd_target_route d of
        None \<Rightarrow> eraise RecKeyError
      | Some target \<Rightarrow>
          if rd_action d = CAPABILITY_CHECK then capability_check env rn f target
          else switch_route env rn (rd_action d) target) ?post ?exn"
    if allowed: "policy_allows d ctx (rn_budget rn) (wk_model_switches c) (wk_provider_switches c) None"
      and action: "rd_action d \<notin> {FAIL_TASK, FAIL_RUN}"
  proof -
    from may_act_allowed [OF allowed action ctx budget refl] obtain target where
        t: "rd_target_route d = Some target" "may_act rn ?c target"
      and chk: "rd_action d = CAPABILITY_CHECK \<longrightarrow> wk_checks ?c < rb_max_capability_checks (rn_budget rn)"
      and sw: "rd_action d \<noteq> CAPABILITY_CHECK \<longrightarrow> switch_counted rn ?c (rd_action d)"
      by blast
    show ?thesis
      unfolding t(1) option.case
      by (rule triple_if)
        (use capability_check_budget [OF t(2), of env f] switch_route_budget [OF t(2), of "rd_action d" env]
          chk sw in auto)
  qed
  show ?thesis
    unfolding follow_decision_def Let_def
  proof (rule bind_the_walk)
    fix k assume k: "core k = c"
    then have sw: "wk_model_switches k = wk_model_switches c" "wk_provider_switches k = wk_provider_switches c"
      by auto
    show "triple (at_core c) (ebind (update (\<lambda>k. k\<lparr>wk_decisions := wk_decisions k + 1\<rparr>)) (\<lambda>_.
      ebind (record_decision env rn ctx d (policy_allows d ctx (rn_budget rn) (wk_model_switches k)
        (wk_provider_switches k) None)) (\<lambda>_.
      if \<not> policy_allows d ctx (rn_budget rn) (wk_model_switches k) (wk_provider_switches k) None
        then stop env rn POLICY_DENIED
      else if rd_action d \<in> {FAIL_TASK, FAIL_RUN} then
        stop env rn (if rd_reason_code d = BUDGET_EXHAUSTED then RECOVERY_BUDGET_EXHAUSTED else POLICY_DENIED)
      else case rd_target_route d of
          None \<Rightarrow> eraise RecKeyError
        | Some target \<Rightarrow>
            if rd_action d = CAPABILITY_CHECK then capability_check env rn f target
            else switch_route env rn (rd_action d) target))) ?post ?exn"
      unfolding sw record_decision_def
      by (rule bind_update [OF dec], assumption, rule triple_ebind [OF record_budget [OF b]])
        (intro triple_if stop_budget [OF b] acts; simp)
  qed
qed


lemma supervised_core:
  "triple (at_core c) (supervised env rn ctx) (\<lambda>_. at_core c) (\<lambda>_. at_core c)"
proof -
  have "triple (at_core c) (proposal env rn ctx) (\<lambda>_. at_core c) (\<lambda>_. at_core c)"
    unfolding proposal_def
    by (cases "en_supervisor env")
      (simp_all add: of_result_core outside_eff_core triple_ebind [OF remaining_core])
  then have "triple (at_core c) (ebind (proposal env rn ctx)
      (\<lambda>d. of_result (rbind (guard (recovery_decision_valid d) PydanticError) (\<lambda>_. Inr d))))
      (\<lambda>_. at_core c) (\<lambda>_. at_core c)"
    by (rule triple_ebind) (rule of_result_core)
  note proposed = triple_state [OF this]
  note stopped = triple_state [OF stop_core]
  show ?thesis
  proof (rule triple_stateI)
    fix s :: "walk \<times> 'a" and r s'
    assume s: "at_core c s" and eq: "supervised env rn ctx s = (r, s')"
    obtain q t where q: "ebind (proposal env rn ctx)
        (\<lambda>d. of_result (rbind (guard (recovery_decision_valid d) PydanticError) (\<lambda>_. Inr d))) s = (q, t)"
      by (cases "ebind (proposal env rn ctx)
        (\<lambda>d. of_result (rbind (guard (recovery_decision_valid d) PydanticError) (\<lambda>_. Inr d))) s")
    have t: "at_core c t" by (rule proposed [OF s q])
    show "at_core c s'"
    proof (cases q)
      case (Inr d)
      then show ?thesis using eq q t by (simp add: supervised_def)
    next
      case (Inl e)
      then consider "s' = t" | reason where "stop env rn reason t = (r, s')"
        using eq q by (auto simp: supervised_def split: if_splits)
      then show ?thesis using t stopped [OF t] by cases simp_all
    qed
  qed
qed

lemma recover_turn_budget:
  assumes wf: "wf_routes (rn_routes rn)" and budget: "in_budget rn c"
  shows "triple (at_core c) (recover_turn env rn f) (turn_post rn (wk_decisions c + 1))
    (\<lambda>_ s. in_budget rn (fst s))"
proof -
  define h where "h = c\<lparr>wk_health := (wk_health c)(wk_current c \<mapsto> H_DEGRADED)\<rparr>"
  have hc: "core (k\<lparr>wk_health := (wk_health k)(wk_current k \<mapsto> H_DEGRADED)\<rparr>) = h" if "core k = c" for k
    using that by (auto simp: h_def)
  have b: "in_budget rn h" using budget by (simp add: h_def in_budget_def)
  have d: "wk_decisions h = wk_decisions c" by (simp add: h_def)
  let ?exn = "\<lambda>_ s. in_budget rn (fst s)"
  have ctx: "triple (at_core h) (build_context env rn f)
      (\<lambda>ctx s. at_core h s \<and> context_for rn h f ctx \<and> recovery_context_valid ctx) ?exn"
    by (rule triple_conseq [OF build_context_core [OF wf]]) (auto intro: at_budget [OF _ b])
  have sup: "triple (at_core h) (supervised env rn ctx) (\<lambda>_. at_core h) ?exn" for ctx
    by (rule triple_conseq [OF supervised_core]) (auto intro: at_budget [OF _ b])
  have rest: "triple (\<lambda>s. at_core h s \<and> context_for rn h f ctx \<and> recovery_context_valid ctx)
    (if rn_ordered rn \<and> no_route_left ctx then
      ebind (write_record env rn DECISION EO_ALLOW (\<lambda>r. r\<lparr>re_action := Some FAIL_TASK,
          re_decision := Some (lead_decision ctx FAIL_TASK NO_ALLOWED_ROUTE None),
          re_recovery_context := Some ctx\<rparr>)) (\<lambda>_. stop env rn POLICY_DENIED)
    else if rc_remaining_decisions ctx \<le> 0 \<or> rc_remaining_attempts ctx \<le> 0
      then stop env rn RECOVERY_BUDGET_EXHAUSTED
    else ebind (supervised env rn ctx) (follow_decision env rn f ctx))
    (turn_post rn (wk_decisions c + 1)) ?exn" for ctx
  proof (cases "context_for rn h f ctx")
    case True
    have "triple (at_core h) (if rn_ordered rn \<and> no_route_left ctx then
      ebind (write_record env rn DECISION EO_ALLOW (\<lambda>r. r\<lparr>re_action := Some FAIL_TASK,
          re_decision := Some (lead_decision ctx FAIL_TASK NO_ALLOWED_ROUTE None),
          re_recovery_context := Some ctx\<rparr>)) (\<lambda>_. stop env rn POLICY_DENIED)
      else if rc_remaining_decisions ctx \<le> 0 \<or> rc_remaining_attempts ctx \<le> 0
        then stop env rn RECOVERY_BUDGET_EXHAUSTED
      else ebind (supervised env rn ctx) (follow_decision env rn f ctx))
      (turn_post rn (wk_decisions h + 1)) ?exn"
      by (intro triple_if stop_budget [OF b] triple_ebind [OF record_budget [OF b]]
          triple_ebind [OF sup] follow_decision_budget [OF True b]) simp
    then show ?thesis unfolding d by (rule triple_pre) simp
  next
    case False
    then show ?thesis by (intro triple_False) simp
  qed
  show ?thesis
    unfolding recover_turn_def
    by (rule triple_ebind [OF remaining_core] triple_if stop_budget [OF budget] bind_update [OF hc]
        triple_ebind [OF ctx] rest | assumption)+
qed


section \<open>The loop and the whole execution\<close>

lemma recover_loop_budget:
  assumes wf: "wf_routes (rn_routes rn)"
  shows "in_budget rn c \<Longrightarrow> triple (at_core c) (recover_loop n env rn res)
    (\<lambda>x s. in_budget rn (fst s) \<and> (x = None \<longrightarrow> wk_decisions (fst s) = wk_decisions c + int n))
    (\<lambda>_ s. in_budget rn (fst s))"
proof (induction n arbitrary: c res)
  case 0
  then show ?case by (cases res) (auto simp: triple_def)
next
  case (Suc n)
  show ?case
  proof (cases res)
    case (Inr resp)
    with Suc.prems show ?thesis by (auto simp: triple_def)
  next
    case (Inl f)
    have again: "triple (turn_post rn (wk_decisions c + 1) t) (recover_loop n env rn res')
        (\<lambda>x s. in_budget rn (fst s) \<and> (x = None \<longrightarrow> wk_decisions (fst s) = wk_decisions c + int (Suc n)))
        (\<lambda>_ s. in_budget rn (fst s))" for t :: turn and res'
    proof (rule tripleI)
      fix s e s' assume post: "turn_post rn (wk_decisions c + 1) t s" and run: "recover_loop n env rn res' s = (Inl e, s')"
      from post have "in_budget rn (core (fst s))" by (simp add: turn_post_def)
      from triple_Inl [OF Suc.IH [OF this] refl run] show "in_budget rn (fst s')" .
    next
      fix s x s' assume post: "turn_post rn (wk_decisions c + 1) t s" and run: "recover_loop n env rn res' s = (Inr x, s')"
      from post have b: "in_budget rn (core (fst s))" and d: "wk_decisions (fst s) = wk_decisions c + 1"
        by (simp_all add: turn_post_def)
      from triple_Inr [OF Suc.IH [OF b] refl run] d
      show "in_budget rn (fst s') \<and> (x = None \<longrightarrow> wk_decisions (fst s') = wk_decisions c + int (Suc n))"
        by auto
    qed
    show ?thesis
      unfolding Inl recover_loop.simps
      by (rule triple_ebind [OF recover_turn_budget [OF wf Suc.prems] again])
  qed
qed

lemma triple_fixed_core:
  assumes "\<And>c. \<exists>s. P s \<and> at_core c s \<Longrightarrow> triple (at_core c) m Q E"
  shows "triple P m Q E"
proof (rule tripleI)
  fix s e s' assume "P s" and "m s = (Inl e, s')"
  then show "E e s'" using triple_Inl [OF assms [of "core (fst s)"] refl] by blast
next
  fix s x s' assume "P s" and "m s = (Inr x, s')"
  then show "Q x s'" using triple_Inr [OF assms [of "core (fst s)"] refl] by blast
qed

definition unstarted :: "rec_run \<Rightarrow> walk \<times> 'w \<Rightarrow> bool" where
  "unstarted rn s \<longleftrightarrow> in_budget rn (fst s) \<and> wk_history (fst s) = [] \<and> wk_decisions (fst s) = 0
    \<and> wk_provider_calls (fst s) = 0 \<and> 1 \<le> rb_max_total_attempts_per_task (rn_budget rn)"

lemma unstarted_core: "unstarted rn s \<Longrightarrow> core (fst s') = core (fst s) \<Longrightarrow> unstarted rn s'"
  unfolding unstarted_def by (metis core_fields(1,6,9) in_budget_core)

lemma unstarted_keeps:
  assumes "\<And>c. triple (at_core c) m (\<lambda>_. at_core c) (\<lambda>_. at_core c)"
  shows "triple (unstarted rn) m (\<lambda>_. unstarted rn) (\<lambda>_. unstarted rn)"
  by (rule triple_stateI, erule unstarted_core, erule triple_state [OF assms refl])

lemma observe_unstarted: "triple (unstarted rn) (observe env rn r) (\<lambda>_. unstarted rn) (\<lambda>_. unstarted rn)"
proof -
  have "triple (unstarted rn) (update (\<lambda>k. k\<lparr>wk_health := f k\<rparr>)) (\<lambda>_. unstarted rn) E" for f and E :: "rec_exn \<Rightarrow> walk \<times> 'a \<Rightarrow> bool"
    by (rule update_state) (simp add: unstarted_def in_budget_def)
  then show ?thesis
    unfolding observe_def
    by (intro triple_if triple_ebind [OF unstarted_keeps [OF outside_eff_core]] triple_eret)
qed

lemma refuse_core: "triple (at_core c) (refuse env rn) (\<lambda>_. at_core c) (\<lambda>_. at_core c)"
  unfolding refuse_def
  by (rule core_binds triple_if stop_core triple_eret | simp)+

lemma first_attempt_budget:
  "triple (unstarted rn) (first_attempt env rn) (\<lambda>_ s. in_budget rn (fst s) \<and> wk_decisions (fst s) = 0)
    (\<lambda>_ s. in_budget rn (fst s))"
proof (rule triple_fixed_core)
  fix c assume c: "\<exists>s. unstarted rn s \<and> at_core c s"
  then have u: "in_budget rn c" "wk_history c = []" "wk_decisions c = 0" "wk_provider_calls c = 0"
      "1 \<le> rb_max_total_attempts_per_task (rn_budget rn)"
    by (auto simp: unstarted_def)
  let ?m = "\<lambda>d. c\<lparr>wk_history := [wk_current c], wk_attempted_models := wk_attempted_models c @ [cd_model d]\<rparr>"
  have b: "in_budget rn (?m d)" "in_budget rn (called (?m d))" "wk_decisions (called (?m d)) = 0" for d
    using u by (auto simp: in_budget_def called_def)
  have start: "core (k\<lparr>wk_history := wk_history k @ [wk_current k],
      wk_attempted_models := wk_attempted_models k @ [cd_model d]\<rparr>) = ?m d" if "core k = c" for k d
    using that u(2) by auto
  have inv: "triple (at_core (?m d)) (invoke env rn r False)
      (\<lambda>_ s. in_budget rn (fst s) \<and> wk_decisions (fst s) = 0) (\<lambda>_ s. in_budget rn (fst s))" for d r
  proof (rule triple_conseq [OF invoke_core])
    fix s assume "at_core (called (?m d)) s"
    then show "in_budget rn (fst s) \<and> wk_decisions (fst s) = 0"
      using b(2,3) [of d] by (metis at_budget core_fields(6))
  qed (auto intro: at_budget [OF _ b(1)] at_budget [OF _ b(2)])
  show "triple (at_core c) (first_attempt env rn) (\<lambda>_ s. in_budget rn (fst s) \<and> wk_decisions (fst s) = 0)
    (\<lambda>_ s. in_budget rn (fst s))"
    unfolding first_attempt_def
    by (rule bind_the_walk bind_of_result bind_update [OF start] inv | assumption | erule at_budget [OF _ u(1)])+
qed

lemma run_recovery_budget:
  assumes wf: "wf_routes (rn_routes rn)"
  shows "triple (unstarted rn) (run_recovery fuel env rn observed)
    (\<lambda>x s. in_budget rn (fst s) \<and> (x = None \<longrightarrow> wk_decisions (fst s) = int fuel)) (\<lambda>_ s. in_budget rn (fst s))"
proof -
  have un: "unstarted rn s \<Longrightarrow> in_budget rn (fst s)" for s :: "walk \<times> 'a" by (simp add: unstarted_def)
  have frozen: "in_budget (rn\<lparr>rn_frozen_input := x\<rparr>) k = in_budget rn k"
    "unstarted (rn\<lparr>rn_frozen_input := x\<rparr>) s = unstarted rn s" for x k and s :: "walk \<times> 'a"
    by (simp_all add: in_budget_def unstarted_def)
  have loop: "triple (\<lambda>s. in_budget rn (fst s) \<and> wk_decisions (fst s) = 0)
      (ebind (recover_loop fuel env (rn\<lparr>rn_frozen_input := y\<rparr>) res)
        (\<lambda>answer. ebind the_walk (\<lambda>k. eret (map_option (g k) answer))))
      (\<lambda>x s. in_budget rn (fst s) \<and> (x = None \<longrightarrow> wk_decisions (fst s) = int fuel))
      (\<lambda>_ s. in_budget rn (fst s))" for y res g
  proof (rule triple_ebind)
    show "triple (\<lambda>s. in_budget rn (fst s) \<and> wk_decisions (fst s) = 0)
      (recover_loop fuel env (rn\<lparr>rn_frozen_input := y\<rparr>) res)
      (\<lambda>x s. in_budget rn (fst s) \<and> (x = None \<longrightarrow> wk_decisions (fst s) = int fuel)) (\<lambda>_ s. in_budget rn (fst s))"
    proof (rule triple_fixed_core)
      fix c assume c: "\<exists>s. (in_budget rn (fst s) \<and> wk_decisions (fst s) = 0) \<and> at_core c s"
      then have "in_budget (rn\<lparr>rn_frozen_input := y\<rparr>) c" "wk_decisions c = 0" by (auto simp: frozen)
      from recover_loop_budget [OF _ this(1), of fuel env res] this(2) wf
      show "triple (at_core c) (recover_loop fuel env (rn\<lparr>rn_frozen_input := y\<rparr>) res)
        (\<lambda>x s. in_budget rn (fst s) \<and> (x = None \<longrightarrow> wk_decisions (fst s) = int fuel)) (\<lambda>_ s. in_budget rn (fst s))"
        by (simp add: frozen)
    qed
    show "triple (\<lambda>s. in_budget rn (fst s) \<and> (answer = None \<longrightarrow> wk_decisions (fst s) = int fuel))
      (ebind the_walk (\<lambda>k. eret (map_option (g k) answer)))
      (\<lambda>x s. in_budget rn (fst s) \<and> (x = None \<longrightarrow> wk_decisions (fst s) = int fuel))
      (\<lambda>_ s. in_budget rn (fst s))" for answer
      by (simp add: triple_def the_walk_def ebind_def)
  qed
  have first: "triple (unstarted rn) (first_attempt env (rn\<lparr>rn_frozen_input := y\<rparr>))
      (\<lambda>_ s. in_budget rn (fst s) \<and> wk_decisions (fst s) = 0) (\<lambda>_ s. in_budget rn (fst s))" for y
    using first_attempt_budget [of "rn\<lparr>rn_frozen_input := y\<rparr>" env] by (simp add: frozen(1) frozen(2) [abs_def])
  have obs: "triple (unstarted rn) (efold (observe env rn) observed) (\<lambda>_. unstarted rn) (\<lambda>_ s. in_budget rn (fst s))"
    by (rule triple_conseq [OF triple_efold [OF observe_unstarted]]) (auto dest: un)
  have ref: "triple (unstarted rn) (refuse env rn) (\<lambda>_. unstarted rn) (\<lambda>_ s. in_budget rn (fst s))"
    by (rule triple_conseq [OF unstarted_keeps [OF refuse_core]]) (auto dest: un)
  show ?thesis
    unfolding run_recovery_def Let_def
    by (rule triple_ebind [OF obs] triple_ebind [OF ref] bind_the_world triple_ebind [OF first] loop)+
qed


section \<open>Route tables of a scope\<close>

lemma task_candidates_distinct:
  assumes "map_of task_candidates profile = Some ks"
  shows "distinct ks \<and> length ks \<le> 4"
proof -
  have "list_all (\<lambda>(_, ks). distinct ks \<and> length ks \<le> 4) task_candidates"
    by (simp add: task_candidates_def)
  with map_of_SomeD [OF assms] show ?thesis by (auto simp: list_all_iff)
qed

lemma map_filter_pair_fst:
  "map fst (List.map_filter (\<lambda>key. map_option (Pair key) (f key)) ks) = filter (\<lambda>k. f k \<noteq> None) ks"
  by (induction ks) (auto simp: List.map_filter_simps split: option.splits)

lemma scoped_routes_wf:
  assumes "detector_init (scoped_routes ar sc) = Inr routes"
  shows "wf_routes routes" and "length routes \<le> 4"
proof -
  have r: "routes = scoped_routes ar sc" and keys: "\<forall>(key, c) \<in> set routes. key = cd_route c"
      and len: "length routes \<le> 4"
    using assms by (auto simp: detector_init_def list_ex_iff split: if_splits)
  have "distinct (map fst routes)"
    unfolding r scoped_routes_def map_filter_pair_fst
    by (auto dest: task_candidates_distinct split: option.splits)
  with keys show "wf_routes routes" by (simp add: wf_routes_def)
  show "length routes \<le> 4" by (rule len)
qed

lemma chosen_budget_valid:
  "recovery_budget_valid (ar_budget ar) \<Longrightarrow> recovery_budget_valid (chosen_budget ar sc)"
  by (simp add: chosen_budget_def default_budget_def recovery_budget_valid_def)

lemma initial_walk_unstarted:
  "recovery_budget_valid (rn_budget rn) \<Longrightarrow> unstarted rn (initial_walk ar sc routes current observed, w)"
  by (simp add: unstarted_def in_budget_def initial_walk_def recovery_budget_valid_def Let_def)

text \<open>An execution that got past its refusals is a run of \<open>run_recovery\<close> from its initial walk.\<close>

lemma execute_scope_cases:
  assumes "execute_scope fuel env ar sc provider_name model_name w = (res, k, w')"
  obtains (refused) e where "res = Inl e" "k = None"
  | (run) rn routes current observed w1 k' where "k = Some k'" "wf_routes (rn_routes rn)"
      "rn_budget rn = chosen_budget ar sc" "rn_scope rn = sc" "rn_forbidden rn = ar_forbidden ar"
      "run_recovery fuel env rn observed (initial_walk ar sc routes current observed, w1) = (res, k', w')"
      "rn_routes rn = scoped_routes ar sc" "snd (en_monotonic env w) = w1"
proof -
  show thesis
  proof (cases "k = None")
    case True
    then have "\<exists>e. res = Inl e"
      using assms by (auto simp: execute_scope_def Let_def split: if_splits sum.splits option.splits prod.splits)
    with True refused show thesis by blast
  next
    case False
    then obtain k' where k: "k = Some k'" by blast
    show thesis
      using assms k
      by (auto simp: execute_scope_def Let_def split: if_splits sum.splits option.splits prod.splits
          intro!: run scoped_routes_wf(1) [of ar sc "scoped_routes ar sc"] simp: detector_init_def)
  qed
qed

end
