(* ===== verification/RecoverySafety.thy ===== *)
theory RecoverySafety
  imports RecoveryBounds
begin

text \<open>
  The properties of model recovery, over every environment: budgets and termination, decisions of
  the Lead supervisor and the gate, the authority behind an answer, and the shape of the evidence
  that an execution leaves behind.
\<close>

section \<open>An environment over the in-memory store\<close>

text \<open>
  The environment \<open>o\<close> with \<open>MemoryRecoveryEvidenceStore\<close> as its store: the operations of \<open>o\<close> act on
  the rest of the world.
\<close>

definition beside :: "('v \<Rightarrow> 'a \<times> 'v) \<Rightarrow> 's \<times> 'v \<Rightarrow> 'a \<times> ('s \<times> 'v)" where
  "beside f w = (case f (snd w) of (x, v) \<Rightarrow> (x, (fst w, v)))"

fun beside_supervisor :: "'v supervisor \<Rightarrow> ('s \<times> 'v) supervisor" where
  "beside_supervisor Lead = Lead"
| "beside_supervisor (Custom f) = Custom (\<lambda>ctx. beside (f ctx))"
| "beside_supervisor (Awaited f) = Awaited (\<lambda>ctx left. beside (f ctx left))"

definition memory_env :: "'v recovery_env \<Rightarrow> (recovery_evidence list \<times> 'v) recovery_env" where
  "memory_env outer = \<lparr>en_monotonic = beside (en_monotonic outer), en_timestamp = beside (en_timestamp outer),
    en_uuid = beside (en_uuid outer), en_age_seconds = (\<lambda>ts. beside (en_age_seconds outer ts)),
    en_append = (\<lambda>r w. case mem_append r (fst w) of (res, l) \<Rightarrow> (res, (l, snd w))),
    en_records = (\<lambda>run_id task_id w. mem_records run_id task_id (fst w)),
    en_context_digest = (\<lambda>w. en_context_digest outer (snd w)),
    en_messages_digest = (\<lambda>w. en_messages_digest outer (snd w)),
    en_call = (\<lambda>route limit. beside (en_call outer route limit)),
    en_validate = en_validate outer, en_json_text = en_json_text outer, en_digest = en_digest outer,
    en_output_validator = en_output_validator outer, en_supervisor = beside_supervisor (en_supervisor outer)\<rparr>"

section \<open>A scripted environment for the witnesses\<close>

text \<open>The clock, the number of identifiers given out, and the answers of the providers in order.\<close>

type_synonym scripted = "rat \<times> nat \<times> (rec_exn + llm_response) list"

definition digit :: "nat \<Rightarrow> char" where
  "digit n = (''0123456789abcdef'' ! (n mod 16))"

definition scripted_env :: "scripted recovery_env" where
  "scripted_env = \<lparr>en_monotonic = (\<lambda>(t, n, s). (t, (t + 1, n, s))),
    en_timestamp = (\<lambda>w. (''2026-01-01T00:00:00+00:00'', w)),
    en_uuid = (\<lambda>(t, n, s). (replicate 34 CHR ''0'' @ [digit (n div 16), digit n], (t, n + 1, s))),
    en_age_seconds = (\<lambda>ts w. (Inr 0, w)),
    en_append = (\<lambda>r w. (Inr (), w)), en_records = (\<lambda>run_id task_id w. Inr []),
    en_context_digest = (\<lambda>w. ''sha256:'' @ replicate 64 CHR ''0''), en_messages_digest = (\<lambda>w. ''m''),
    en_call = (\<lambda>route limit (t, n, s). case s of
        [] \<Rightarrow> ((Inl OtherException, False), (t, n, [])) | a # s' \<Rightarrow> ((a, False), (t, n, s'))),
    en_validate = Inr, en_json_text = (\<lambda>j. ''text''),
    en_digest = (\<lambda>j. ''sha256:'' @ replicate 64 CHR ''0''), en_output_validator = None,
    en_supervisor = Lead\<rparr>"

definition sample_candidate :: "route_id \<Rightarrow> provider_id \<Rightarrow> model_id \<Rightarrow> candidate" where
  "sample_candidate r p m = \<lparr>cd_route = r, cd_provider = p, cd_model = m, cd_authority_exists = True,
    cd_health = H_UNKNOWN, cd_capability = CS_UNKNOWN, cd_exhausted = False, cd_eligible = False,
    cd_next_allowed_action = FAIL_TASK, cd_capability_evidence_refs = []\<rparr>"

definition sample_routes :: route_table where
  "sample_routes = [(ROUTE_SOL, sample_candidate ROUTE_SOL PROV_TEAMOROUTER MODEL_SOL),
    (ROUTE_LUNA, sample_candidate ROUTE_LUNA PROV_TEAMOROUTER MODEL_LUNA),
    (ROUTE_TERRA, sample_candidate ROUTE_TERRA PROV_TEAMOROUTER MODEL_TERRA),
    (ROUTE_MIMO, sample_candidate ROUTE_MIMO PROV_MIMO MODEL_MIMO)]"

definition sample_hash :: string where
  "sample_hash = ''sha256:'' @ replicate 64 CHR ''0''"

definition sample_scope :: "string \<Rightarrow> rec_scope" where
  "sample_scope profile = \<lparr>sp_run_id = ''R'', sp_task_id = ''R:T'', sp_object_id = ''O'', sp_scheme_id = ''S'',
    sp_task_profile = profile, sp_agent_id = ''A'', sp_operation_id = ''specialist'',
    sp_context_hash = sample_hash, sp_contract_hash = sample_hash\<rparr>"

definition sample_adaptive :: "route_id list \<Rightarrow> recovery_budget option \<Rightarrow> string \<Rightarrow> adaptive" where
  "sample_adaptive verified budget profile = \<lparr>ar_routes = sample_routes,
    ar_certifications = (\<lambda>(p, r, m, h). if p = profile \<and> List.member verified r then Some CS_VERIFIED else None),
    ar_certification_refs = Map.empty, ar_initial_health = Map.empty,
    ar_budget = (case budget of None \<Rightarrow> default_budget | Some b \<Rightarrow> b), ar_explicit_budget = (budget \<noteq> None),
    ar_forbidden = [''SECRET''], ar_model_grants = None\<rparr>"

definition sample_answer :: "provider_id \<Rightarrow> model_id \<Rightarrow> llm_response" where
  "sample_answer p m = \<lparr>lr_output = JNull, lr_provider = provider_value p, lr_requested_model = model_value m,
    lr_actual_model = model_value m, lr_attempted_models = [model_value m], lr_input_tokens = Some 1,
    lr_output_tokens = Some 1, lr_execution_policy = None, lr_execution_outcome = None\<rparr>"

definition sample_run ::
    "adaptive \<Rightarrow> string \<Rightarrow> (rec_exn + llm_response) list
      \<Rightarrow> (rec_exn + llm_response option) \<times> walk option \<times> (recovery_evidence list \<times> scripted)" where
  "sample_run ar profile script = execute_scope 6 (memory_env scripted_env) ar (sample_scope profile)
    ''teamorouter'' ''gpt-5.6-sol'' ([], (0, 0, script))"

lemma sample_recovers:
  "case sample_run (sample_adaptive [ROUTE_LUNA] None ''fundamental_analysis'') ''fundamental_analysis''
     [Inl (LLMProviderError (Some LF_READ_TIMEOUT)), Inr (sample_answer PROV_TEAMOROUTER MODEL_LUNA)] of
     (Inr (Some r), Some k, (l, _)) \<Rightarrow> wk_provider_calls k = 2 \<and> map re_kind l = [ATTEMPT_STARTED,
       ATTEMPT_COMPLETED, DECISION, ATTEMPT_STARTED, ATTEMPT_COMPLETED] | _ \<Rightarrow> False"
  by code_simp

lemma sample_recoversE:
  obtains r k l v where "sample_run (sample_adaptive [ROUTE_LUNA] None ''fundamental_analysis'')
      ''fundamental_analysis'' [Inl (LLMProviderError (Some LF_READ_TIMEOUT)),
        Inr (sample_answer PROV_TEAMOROUTER MODEL_LUNA)] = (Inr (Some r), Some k, (l, v))"
    "wk_provider_calls k = 2"
    "map re_kind l = [ATTEMPT_STARTED, ATTEMPT_COMPLETED, DECISION, ATTEMPT_STARTED, ATTEMPT_COMPLETED]"
  using sample_recovers by (auto split: prod.splits sum.splits option.splits)

section \<open>Budgets and termination\<close>

text \<open>
  C10. A recovery stays inside its budget, whatever the supervisor proposes, the providers answer, the
  evidence says and the clock shows, and however it ends: at most \<open>max_total_attempts_per_task\<close>
  execution attempts, \<open>max_capability_checks\<close> checks and their sum in provider calls, and no more
  decisions, model switches and provider switches than the budget grants. The budget is the one the
  profile selects.
\<close>

theorem recovery_bounded:
  assumes "recovery_budget_valid (ar_budget ar)"
    and "execute_scope fuel env ar sc provider_name model_name w = (res, Some k, w')"
    and "b = chosen_budget ar sc"
  shows "wk_provider_calls k \<le> rb_max_total_attempts_per_task b + rb_max_capability_checks b
    \<and> int (length (wk_history k)) \<le> rb_max_total_attempts_per_task b
    \<and> wk_checks k \<le> rb_max_capability_checks b \<and> wk_decisions k \<le> rb_max_recovery_decisions b
    \<and> wk_model_switches k \<le> rb_max_model_fallbacks b
    \<and> wk_provider_switches k \<le> rb_max_cross_provider_switches b"
  using assms(2)
proof (cases rule: execute_scope_cases)
  case (refused e)
  then show ?thesis by simp
next
  case (run rn routes current observed w1 k')
  have "unstarted rn (initial_walk ar sc routes current observed, w1)"
    by (rule initial_walk_unstarted) (simp add: run(3) chosen_budget_valid [OF assms(1)])
  note start = this
  have "triple (unstarted rn) (run_recovery fuel env rn observed)
      (\<lambda>_ s. in_budget rn (fst s)) (\<lambda>_ s. in_budget rn (fst s))"
    by (rule triple_conseq [OF run_recovery_budget [OF run(2)]]) auto
  from triple_state [OF this start run(6)] have "in_budget rn k'" by simp
  then show ?thesis using run(1) by (simp add: in_budget_def run(3) assms(3))
qed

theorem recovery_bounded_witness:
  "\<exists>r k w. sample_run (sample_adaptive [ROUTE_LUNA] None ''fundamental_analysis'') ''fundamental_analysis''
      [Inl (LLMProviderError (Some LF_READ_TIMEOUT)), Inr (sample_answer PROV_TEAMOROUTER MODEL_LUNA)]
      = (Inr (Some r), Some k, w)
    \<and> wk_provider_calls k = 2 \<and> wk_checks k \<le> 1 \<and> wk_decisions k \<le> 5 \<and> wk_model_switches k \<le> 1"
proof -
  let ?ar = "sample_adaptive [ROUTE_LUNA] None ''fundamental_analysis''"
  obtain r k l v where run: "sample_run ?ar ''fundamental_analysis''
      [Inl (LLMProviderError (Some LF_READ_TIMEOUT)), Inr (sample_answer PROV_TEAMOROUTER MODEL_LUNA)]
      = (Inr (Some r), Some k, (l, v))" and calls: "wk_provider_calls k = 2"
    by (rule sample_recoversE)
  have b: "recovery_budget_valid (ar_budget ?ar)"
      "chosen_budget ?ar (sample_scope ''fundamental_analysis'') = default_budget"
    by code_simp+
  have bounds: "wk_checks k \<le> 1" "wk_decisions k \<le> 5" "wk_model_switches k \<le> 1"
    using recovery_bounded [OF b(1) run [unfolded sample_run_def] b(2) [symmetric]]
    by (simp_all add: default_budget_def)
  show ?thesis using run calls bounds by blast
qed

text \<open>
  C33. The recovery loop terminates: each turn either ends it or spends a recovery decision, so more
  turns than \<open>max_recovery_decisions\<close> are never needed, and an execution with that fuel answers or
  raises.
\<close>

theorem recovery_terminates:
  assumes "recovery_budget_valid (ar_budget ar)"
    and "rb_max_recovery_decisions (chosen_budget ar sc) < int fuel"
  shows "fst (execute_scope fuel env ar sc provider_name model_name w) \<noteq> Inr None"
proof -
  obtain res k w' where e: "execute_scope fuel env ar sc provider_name model_name w = (res, k, w')"
    by (cases "execute_scope fuel env ar sc provider_name model_name w")
  from e show ?thesis
  proof (cases rule: execute_scope_cases)
    case (refused e)
    with e show ?thesis by simp
  next
    case (run rn routes current observed w1 k')
    have u: "unstarted rn (initial_walk ar sc routes current observed, w1)"
      by (rule initial_walk_unstarted) (simp add: run(3) chosen_budget_valid [OF assms(1)])
    show ?thesis
    proof
      assume "fst (execute_scope fuel env ar sc provider_name model_name w) = Inr None"
      then have "res = Inr None" by (simp add: e)
      from triple_Inr [OF run_recovery_budget [OF run(2)] u run(6) [unfolded this]]
      have "in_budget rn k' \<and> wk_decisions k' = int fuel" by simp
      then show False using assms(2) by (simp add: in_budget_def run(3))
    qed
  qed
qed

theorem recovery_terminates_witness:
  "fst (sample_run (sample_adaptive [] None ''risk_follow_up'') ''risk_follow_up'' []) \<noteq> Inr None"
  unfolding sample_run_def
proof (rule recovery_terminates)
  show "recovery_budget_valid (ar_budget (sample_adaptive [] None ''risk_follow_up''))"
    by code_simp
  show "rb_max_recovery_decisions (chosen_budget (sample_adaptive [] None ''risk_follow_up'')
      (sample_scope ''risk_follow_up'')) < int 6"
    by code_simp
qed

section \<open>The supervisor and the gate\<close>

lemma build_context_for:
  assumes "wf_routes (rn_routes rn)" and "build_context env rn f (k, w) = (Inr ctx, s)"
  shows "context_for rn (core k) f ctx" and "recovery_context_valid ctx"
  using triple_Inr [OF build_context_core [OF assms(1), of "core k"] _ assms(2)] by simp_all

text \<open>
  The Lead supervisor and the independent gate agree: for every context that the loop builds, the
  supervisor reaches a decision and the gate lets it pass. So with the default supervisor a recovery
  is never stopped because its own proposal is denied.
\<close>

theorem lead_decisions_allowed:
  assumes "wf_routes (rn_routes rn)" and "rb_max_total_recovery_cost (rn_budget rn) = None"
    and "build_context env rn f (k, w) = (Inr ctx, s)"
  shows "\<exists>d. decide ctx = Inr d
    \<and> policy_allows d ctx (rn_budget rn) (wk_model_switches k) (wk_provider_switches k) None"
proof -
  note ctx = build_context_for [OF assms(1,3)]
  obtain current where "current \<in> set (rc_candidates ctx)" "cd_route current = rc_current_route ctx"
    using ctx(1) by (auto simp: context_for_def)
  then have "find_route (rc_candidates ctx) (Some (rc_current_route ctx)) = Some current"
    using find_route_distinct [of "rc_candidates ctx" current] ctx(1) by (simp add: context_for_def)
  then obtain d where d: "decide ctx = Inr d"
    by (fastforce simp: decide_def split: option.splits if_splits)
  have "policy_allows d ctx (rn_budget rn) (wk_model_switches k) (wk_provider_switches k) None"
    by (rule decide_allowed_gen [OF d]) (use ctx(1) assms(2) in \<open>simp_all add: context_for_def\<close>)
  with d show ?thesis by blast
qed

definition sample_rn :: "string \<Rightarrow> rec_run" where
  "sample_rn profile = \<lparr>rn_scope = sample_scope profile, rn_budget = default_budget, rn_routes = sample_routes,
    rn_generated = False, rn_ordered = ordered_profile profile, rn_started = 0, rn_frozen_input = ''m'',
    rn_forbidden = [''SECRET''], rn_grants = None\<rparr>"

definition sample_walk :: walk where
  "sample_walk = (initial_walk (sample_adaptive [ROUTE_LUNA] None ''risk_analysis'') (sample_scope ''risk_analysis'')
    sample_routes ROUTE_SOL [])\<lparr>wk_history := [ROUTE_SOL]\<rparr>"

theorem lead_decisions_allowed_witness:
  "\<exists>ctx s d. build_context (memory_env scripted_env) (sample_rn ''risk_analysis'')
      (assess FC_READ_TIMEOUT ST_PROVIDER True) (sample_walk, ([], (1, 0, []))) = (Inr ctx, s)
    \<and> decide ctx = Inr d \<and> policy_allows d ctx default_budget 0 0 None"
proof -
  let ?b = "build_context (memory_env scripted_env) (sample_rn ''risk_analysis'')
      (assess FC_READ_TIMEOUT ST_PROVIDER True) (sample_walk, ([], (1, 0, [])))"
  have "is_ok (fst ?b)" by code_simp
  then obtain ctx s where b: "?b = (Inr ctx, s)" by (cases ?b) (auto simp: is_ok_iff)
  have rn: "wf_routes (rn_routes (sample_rn ''risk_analysis''))"
      "rb_max_total_recovery_cost (rn_budget (sample_rn ''risk_analysis'')) = None"
    by (simp_all add: sample_rn_def wf_routes_def sample_routes_def sample_candidate_def default_budget_def)
  from lead_decisions_allowed [OF rn b] obtain d where "decide ctx = Inr d"
      "policy_allows d ctx (rn_budget (sample_rn ''risk_analysis'')) (wk_model_switches sample_walk)
        (wk_provider_switches sample_walk) None"
    by blast
  moreover have "rn_budget (sample_rn ''risk_analysis'') = default_budget"
      "wk_model_switches sample_walk = 0" "wk_provider_switches sample_walk = 0"
    by (simp_all add: sample_rn_def sample_walk_def initial_walk_def Let_def)
  ultimately show ?thesis using b by (intro exI [of _ ctx] exI [of _ s] exI [of _ d]) simp
qed

section \<open>The authority behind an answer\<close>

text \<open>
  The grants of a task profile on a route: the entry of the deployment's table, or of the built-in one
  when none is configured. A granted route lends its model when it has authority of its own, the same
  provider, and a capability that allows it.
\<close>

definition granted_routes ::
    "rec_scope \<Rightarrow> route_id \<Rightarrow> ((string \<times> route_id) \<times> route_id list) list option \<Rightarrow> route_id list" where
  "granted_routes sc route grants =
    (case map_of (case grants of None \<Rightarrow> dynamic_grants | Some g \<Rightarrow> g) (sp_task_profile sc, route) of
       None \<Rightarrow> [] | Some ts \<Rightarrow> ts)"

definition lends ::
    "route_table \<Rightarrow> (route_id \<rightharpoonup> capability_state) \<Rightarrow> bool \<Rightarrow> candidate \<Rightarrow> route_id \<Rightarrow> model_id \<Rightarrow> bool" where
  "lends routes caps check c r m \<longleftrightarrow> (\<exists>d state. map_of routes r = Some d \<and> cd_model d = m
     \<and> cd_authority_exists d \<and> cd_provider d = cd_provider c \<and> caps r = Some state
     \<and> state \<notin> {CS_QUARANTINED, CS_UNSUPPORTED} \<and> (state = CS_VERIFIED \<or> check))"

definition may_answer ::
    "route_id list \<Rightarrow> route_table \<Rightarrow> (route_id \<rightharpoonup> capability_state) \<Rightarrow> bool \<Rightarrow> candidate \<Rightarrow> model_id \<Rightarrow> bool" where
  "may_answer granted routes caps check c m \<longleftrightarrow>
     m = cd_model c \<or> (\<exists>r \<in> set granted. lends routes caps check c r m)"

lemma grant_target_models:
  assumes "grant_target routes caps check c acc r = Inr acc'"
  shows "m \<in> set (fst acc') \<longleftrightarrow> m \<in> set (fst acc) \<or> lends routes caps check c r m"
  using assms
  by (cases "map_of routes r"; cases "caps r")
    (auto simp: grant_target_def map_entry_def lends_def split: if_splits)

lemma grant_fold_models:
  "rfold (grant_target routes caps check c) acc ts = Inr acc' \<Longrightarrow>
    m \<in> set (fst acc') \<longleftrightarrow> m \<in> set (fst acc) \<or> (\<exists>r \<in> set ts. lends routes caps check c r m)"
proof (induction ts arbitrary: acc)
  case Nil
  then show ?case by simp
next
  case (Cons r ts)
  then obtain acc1 where 1: "grant_target routes caps check c acc r = Inr acc1"
    and 2: "rfold (grant_target routes caps check c) acc1 ts = Inr acc'"
    by (auto simp: rbind_Inr_iff split: sum.splits)
  show ?case using Cons.IH [OF 2] grant_target_models [OF 1, of m] by auto
qed

lemma resolved_policy:
  assumes "resolve_model_execution sc route routes caps budget check grants = Inr p"
  obtains c where "map_of routes route = Some c" "cd_authority_exists c" "mp_provider_route p = route"
    "mp_provider p = cd_provider c" "mp_preferred_model p = cd_model c" "model_policy_valid p"
    "\<And>m. m \<in> set (mp_authorized_actual_models p)
       \<longleftrightarrow> may_answer (granted_routes sc route grants) routes caps check c m"
proof -
  from assms obtain c state acc where
      c: "map_of routes route = Some c" "cd_authority_exists c"
    and f: "rfold (grant_target routes caps check c) ([cd_model c], [(cd_model c, state)])
        (granted_routes sc route grants) = Inr acc"
    and p: "p = \<lparr>mp_task_profile = sp_task_profile sc, mp_provider_route = route,
        mp_provider = cd_provider c, mp_preferred_model = cd_model c,
        mp_authorized_actual_models = fst acc, mp_dynamic_substitution_allowed = (1 < length (fst acc)),
        mp_capability_states = snd acc, mp_recovery_budget = budget, mp_capability_check = check\<rparr>"
    and valid: "model_policy_valid p"
    by (auto simp: resolve_model_execution_def granted_routes_def Let_def rbind_Inr_iff split: prod.splits)
  show ?thesis
    by (rule that [of c]) (use c valid in \<open>simp_all add: p grant_fold_models [OF f] may_answer_def\<close>)
qed

text \<open>
  C37. The execution policy of an attempt never widens authority: it exists only for a route with
  provider authority, its provider and preferred model are those of the route, and a model may answer
  if and only if it is the preferred one or the model of a route that the grants table lists for this
  task profile on this route, which has the same provider, authority of its own, and a capability
  neither quarantined nor unsupported, and verified unless the attempt is a capability check.
\<close>

theorem policy_authority:
  assumes "resolve_model_execution sc route routes caps budget check grants = Inr p"
  shows "\<exists>c. map_of routes route = Some c \<and> cd_authority_exists c \<and> mp_provider_route p = route
    \<and> mp_provider p = cd_provider c \<and> mp_preferred_model p = cd_model c
    \<and> (\<forall>m. m \<in> set (mp_authorized_actual_models p)
         \<longleftrightarrow> may_answer (granted_routes sc route grants) routes caps check c m)
    \<and> model_policy_valid p"
  by (rule resolved_policy [OF assms]) blast

text \<open>
  Every route is verified and shares the provider, but only Terra is granted to Luna; with an empty
  grants table nothing is lent.
\<close>

theorem policy_authority_witness:
  "\<exists>p q. resolve_model_execution (sample_scope ''risk_analysis'') ROUTE_LUNA sample_routes
      (\<lambda>_. Some CS_VERIFIED) default_budget False None = Inr p
    \<and> resolve_model_execution (sample_scope ''risk_analysis'') ROUTE_LUNA sample_routes
      (\<lambda>_. Some CS_VERIFIED) default_budget False (Some []) = Inr q
    \<and> set (mp_authorized_actual_models p) = {MODEL_LUNA, MODEL_TERRA}
    \<and> set (mp_authorized_actual_models q) = {MODEL_LUNA}
    \<and> lends sample_routes (\<lambda>_. Some CS_VERIFIED) False
        (sample_candidate ROUTE_LUNA PROV_TEAMOROUTER MODEL_LUNA) ROUTE_SOL MODEL_SOL"
proof -
  let ?caps = "\<lambda>_ :: route_id. Some CS_VERIFIED"
  let ?r = "resolve_model_execution (sample_scope ''risk_analysis'') ROUTE_LUNA sample_routes ?caps
      default_budget False"
  let ?c = "sample_candidate ROUTE_LUNA PROV_TEAMOROUTER MODEL_LUNA"
  have "is_ok (?r None)" "is_ok (?r (Some []))" by code_simp+
  then obtain p q where p: "?r None = Inr p" and q: "?r (Some []) = Inr q" by (auto simp: is_ok_iff)
  have c: "map_of sample_routes ROUTE_LUNA = Some ?c" and n: "cd_model ?c = MODEL_LUNA"
    by (simp_all add: sample_routes_def sample_candidate_def)
  have g: "granted_routes (sample_scope ''risk_analysis'') ROUTE_LUNA None = [ROUTE_TERRA]"
      "granted_routes (sample_scope ''risk_analysis'') ROUTE_LUNA (Some []) = []"
    by code_simp+
  have l: "lends sample_routes ?caps False ?c ROUTE_TERRA m \<longleftrightarrow> m = MODEL_TERRA"
      "lends sample_routes ?caps False ?c ROUTE_SOL MODEL_SOL" for m
    by (auto simp: lends_def sample_routes_def sample_candidate_def)
  from policy_authority [OF p] policy_authority [OF q] c g l(1) n
  have "set (mp_authorized_actual_models p) = {MODEL_LUNA, MODEL_TERRA}"
      "set (mp_authorized_actual_models q) = {MODEL_LUNA}"
    by (auto simp: may_answer_def)
  with p q l(2) show ?thesis by blast
qed

text \<open>\<open>yields m V\<close>: every value that \<open>m\<close> returns satisfies \<open>V\<close>.\<close>

definition yields :: "('e, 'w, 'a) eff \<Rightarrow> ('a \<Rightarrow> bool) \<Rightarrow> bool" where
  "yields m V \<longleftrightarrow> (\<forall>s x s'. m s = (Inr x, s') \<longrightarrow> V x)"

lemma yields_ebind: "yields m U \<Longrightarrow> (\<And>x. U x \<Longrightarrow> yields (f x) V) \<Longrightarrow> yields (ebind m f) V"
  unfolding yields_def ebind_eq_Inr_iff by blast

lemma yields_bind: "(\<And>x. yields (f x) V) \<Longrightarrow> yields (ebind m f) V"
  unfolding yields_def ebind_eq_Inr_iff by blast

lemma yields_mono: "yields m U \<Longrightarrow> (\<And>x. U x \<Longrightarrow> V x) \<Longrightarrow> yields m V"
  unfolding yields_def by blast

lemma yields_eret: "V x \<Longrightarrow> yields (eret x) V"
  by (simp add: yields_def)

lemma yields_eraise: "yields (eraise e) V"
  by (simp add: yields_def)

lemma yields_if: "(b \<Longrightarrow> yields m V) \<Longrightarrow> (\<not> b \<Longrightarrow> yields m' V) \<Longrightarrow> yields (if b then m else m') V"
  by simp

lemma yields_of_result: "(\<And>x. r = Inr x \<Longrightarrow> yields (f x) V) \<Longrightarrow> yields (ebind (of_result r) f) V"
  by (cases r) (simp_all add: yields_def of_result_def ebind_def)

lemma yields_stop: "yields (stop env rn reason) V"
  unfolding stop_def by (rule yields_bind yields_eraise)+

text \<open>The answer was given under the policy, and its output carries no forbidden value.\<close>

definition answered_under :: "'w recovery_env \<Rightarrow> rec_run \<Rightarrow> model_policy \<Rightarrow> llm_response \<Rightarrow> bool" where
  "answered_under env rn p r \<longleftrightarrow> (\<exists>oc. lr_execution_outcome r = Some oc \<and> \<not> out_of_policy oc)
    \<and> lr_provider r = provider_value (mp_provider p)
    \<and> (\<exists>m \<in> set (mp_authorized_actual_models p). lr_actual_model r = model_value m)
    \<and> (\<exists>output. en_validate env (lr_output r) = Inr output
         \<and> (\<forall>secret \<in> set (rn_forbidden rn). \<not> sublist secret (en_json_text env output)))"

definition governed_answer :: "'w recovery_env \<Rightarrow> rec_run \<Rightarrow> llm_response \<Rightarrow> bool" where
  "governed_answer env rn r \<longleftrightarrow> (\<exists>oc. lr_execution_outcome r = Some oc \<and> \<not> out_of_policy oc)
    \<and> (\<exists>route d. map_of (rn_routes rn) route = Some d \<and> cd_authority_exists d
         \<and> lr_provider r = provider_value (cd_provider d) \<and> lr_actual_model r = model_value (cd_model d))
    \<and> (\<exists>output. en_validate env (lr_output r) = Inr output
         \<and> (\<forall>secret \<in> set (rn_forbidden rn). \<not> sublist secret (en_json_text env output)))"

lemma check_response_Inr:
  assumes "check_response env rn oc resp w = Inr v"
  shows "\<not> out_of_policy oc"
    and "\<exists>output. en_validate env (lr_output resp) = Inr output
         \<and> (\<forall>secret \<in> set (rn_forbidden rn). \<not> sublist secret (en_json_text env output))"
  using assms by (auto simp: check_response_def rbind_Inr_iff guard_bind_Inr_iff list_ex_iff)

lemma try_call_answer:
  assumes "try_call env rn route p common limit clock s = (tr, s')" and "tr_result tr = Inr r"
  shows "answered_under env rn p r"
proof -
  obtain answer expired w where call: "en_call env route limit (snd s) = ((answer, expired), w)"
    by (metis prod.collapse)
  from assms call obtain resp where resp: "answer = Inr resp"
    by (cases answer) (auto simp: try_call_def)
  let ?oc = "policy_outcome p (Some (lr_provider resp)) (Some (lr_requested_model resp)) (Some (lr_actual_model resp))"
  from assms call resp obtain v where v: "check_response env rn ?oc resp w = Inr v"
    by (cases "check_response env rn ?oc resp w") (auto simp: try_call_def Let_def)
  from assms call resp v have r: "r = resp\<lparr>lr_execution_policy := Some p, lr_execution_outcome := Some ?oc\<rparr>"
    by (auto simp: try_call_def Let_def split: prod.splits sum.splits)
  from policy_outcome_in_policy [OF check_response_Inr(1) [OF v]] check_response_Inr [OF v]
  show ?thesis by (auto simp: answered_under_def r)
qed

definition answers :: "(llm_response \<Rightarrow> bool) \<Rightarrow> 'x + llm_response \<Rightarrow> bool" where
  "answers V res = (case res of Inl _ \<Rightarrow> True | Inr r \<Rightarrow> V r)"

lemma answers_simps [simp]: "answers V (Inl f)" "answers V (Inr r) = V r"
  by (simp_all add: answers_def)

lemma attempt_route_answers:
  "yields (attempt_route env rn route common p) (answers (answered_under env rn p))"
  unfolding attempt_route_def
  by (rule yields_bind)+
    (auto simp: yields_def ebind_eq_Inr_iff dest: try_call_answer split: prod.splits sum.splits)

lemma answered_under_governed:
  assumes "answered_under env rn p r"
    and "resolve_model_execution sc route (rn_routes rn) caps b check grants = Inr p"
  shows "governed_answer env rn r"
proof -
  from assms(2) obtain c where
      c: "map_of (rn_routes rn) route = Some c" "cd_authority_exists c" "mp_provider p = cd_provider c"
    and m: "\<And>m. m \<in> set (mp_authorized_actual_models p)
      \<longleftrightarrow> may_answer (granted_routes sc route grants) (rn_routes rn) caps check c m"
    by (rule resolved_policy) blast
  from assms(1) obtain m where "m \<in> set (mp_authorized_actual_models p)" "lr_actual_model r = model_value m"
    by (auto simp: answered_under_def)
  moreover have "\<exists>route d. map_of (rn_routes rn) route = Some d \<and> cd_authority_exists d
      \<and> cd_provider d = cd_provider c \<and> cd_model d = m"
  proof (cases "m = cd_model c")
    case True
    with c show ?thesis by blast
  next
    case False
    have "may_answer (granted_routes sc route grants) (rn_routes rn) caps check c m"
      using m calculation(1) by blast
    with False show ?thesis unfolding may_answer_def lends_def by blast
  qed
  ultimately show ?thesis
    using assms(1) c(3) unfolding governed_answer_def answered_under_def by metis
qed

lemma invoke_answers: "yields (invoke env rn route check) (answers (governed_answer env rn))"
proof -
  have "yields (attempt_route env rn route common p) (answers (governed_answer env rn))"
    if "resolve_model_execution (rn_scope rn) route (rn_routes rn) caps (rn_budget rn) check (rn_grants rn) = Inr p"
    for common p caps
    by (rule yields_mono [OF attempt_route_answers])
      (auto simp: answers_def intro: answered_under_governed [OF _ that] split: sum.splits)
  then show ?thesis
    unfolding invoke_def
    by - (rule yields_bind yields_if yields_stop yields_of_result | assumption)+
qed

definition turn_answers :: "(llm_response \<Rightarrow> bool) \<Rightarrow> turn \<Rightarrow> bool" where
  "turn_answers V t = (case t of Answered r \<Rightarrow> V r | Again _ \<Rightarrow> True)"

lemma turn_answers_simps [simp]: "turn_answers V (Answered r) = V r" "turn_answers V (Again f)"
  by (simp_all add: turn_answers_def)

lemma capability_check_answers:
  "yields (capability_check env rn f target) (turn_answers (governed_answer env rn))"
proof -
  have "yields (after_check env rn f target c res) (turn_answers (governed_answer env rn))"
    if "answers (governed_answer env rn) res" for c res
    using that unfolding after_check_def Let_def
    by (cases res) (auto intro!: yields_if yields_bind yields_eret yields_stop)
  then show ?thesis
    unfolding capability_check_def
    by - (rule yields_ebind [OF invoke_answers] yields_bind | assumption)+
qed

lemma switch_route_answers:
  "yields (switch_route env rn action target) (turn_answers (governed_answer env rn))"
  unfolding switch_route_def
  by (rule yields_ebind [OF invoke_answers] yields_bind yields_eret | simp add: answers_def split: sum.splits)+

lemma recover_turn_answers: "yields (recover_turn env rn f) (turn_answers (governed_answer env rn))"
proof -
  have "yields (follow_decision env rn f ctx d) (turn_answers (governed_answer env rn))" for ctx d
    unfolding follow_decision_def Let_def
    by (cases "rd_target_route d")
      (auto intro!: yields_bind yields_if yields_stop yields_eraise capability_check_answers switch_route_answers)
  then show ?thesis
    unfolding recover_turn_def
    by - (rule yields_bind yields_if yields_stop | assumption)+
qed

lemma recover_loop_answers:
  "answers (governed_answer env rn) res \<Longrightarrow>
    yields (recover_loop n env rn res) (\<lambda>x. case x of None \<Rightarrow> True | Some r \<Rightarrow> governed_answer env rn r)"
proof (induction n arbitrary: res)
  case 0
  then show ?case by (cases res) (simp_all add: yields_def)
next
  case (Suc n)
  show ?case
  proof (cases res)
    case (Inr r)
    with Suc.prems show ?thesis by (simp add: yields_def)
  next
    case (Inl f)
    show ?thesis
      unfolding Inl recover_loop.simps
      by (rule yields_ebind [OF recover_turn_answers Suc.IH]) (simp add: turn_answers_def split: turn.splits)
  qed
qed

text \<open>
  C16. No answer comes from outside the governed authority: whatever the provider claims and the
  supervisor proposes, an answer that a recovery returns names the provider and a model of a route
  of the task profile that has authority, it was in policy, its output passed the response schema,
  and the text of the output contains none of the forbidden values.
\<close>

theorem answer_within_authority:
  assumes "execute_scope fuel env ar sc provider_name model_name w = (Inr (Some r), k, w')"
  shows "\<exists>route d output oc. map_of (scoped_routes ar sc) route = Some d \<and> cd_authority_exists d
    \<and> lr_provider r = provider_value (cd_provider d) \<and> lr_actual_model r = model_value (cd_model d)
    \<and> lr_execution_outcome r = Some oc \<and> \<not> out_of_policy oc
    \<and> en_validate env (lr_output r) = Inr output
    \<and> (\<forall>secret \<in> set (ar_forbidden ar). \<not> sublist secret (en_json_text env output))"
  using assms
proof (cases rule: execute_scope_cases)
  case (refused e)
  then show ?thesis by simp
next
  case (run rn routes current observed w1 k')
  let ?V = "\<lambda>x. case x of None \<Rightarrow> True | Some r \<Rightarrow> governed_answer env rn r"
  have frozen: "governed_answer env (rn\<lparr>rn_frozen_input := x\<rparr>) = governed_answer env rn" for x
    by (simp add: governed_answer_def fun_eq_iff)
  have "yields (first_attempt env (rn\<lparr>rn_frozen_input := x\<rparr>)) (answers (governed_answer env rn))" for x
    unfolding first_attempt_def
    by (rule yields_bind)+ (use invoke_answers [of env "rn\<lparr>rn_frozen_input := x\<rparr>"] in \<open>simp add: frozen\<close>)
  moreover have "yields (recover_loop fuel env (rn\<lparr>rn_frozen_input := x\<rparr>) res) ?V"
    if "answers (governed_answer env rn) res" for x res
    using recover_loop_answers [of env "rn\<lparr>rn_frozen_input := x\<rparr>" res fuel] that by (simp add: frozen)
  moreover have "yields (ebind the_walk (\<lambda>k. eret (map_option (final_response rn' k) answer))) ?V"
    if "?V answer" for answer rn'
    by (rule yields_bind yields_eret)+
      (use that in \<open>auto simp: final_response_def governed_answer_def split: option.splits\<close>)
  ultimately have "yields (run_recovery fuel env rn observed) ?V"
    unfolding run_recovery_def Let_def
    by - (rule yields_bind, rule yields_bind, rule yields_bind, rule yields_ebind, assumption,
        rule yields_ebind, blast+)
  with run(6) have "governed_answer env rn r" by (fastforce simp: yields_def)
  then show ?thesis using run(5,7) unfolding governed_answer_def by simp blast
qed

theorem answer_within_authority_witness:
  "\<exists>r k w route d. sample_run (sample_adaptive [ROUTE_LUNA] None ''fundamental_analysis'') ''fundamental_analysis''
      [Inl (LLMProviderError (Some LF_READ_TIMEOUT)), Inr (sample_answer PROV_TEAMOROUTER MODEL_LUNA)]
      = (Inr (Some r), k, w)
    \<and> map_of (scoped_routes (sample_adaptive [ROUTE_LUNA] None ''fundamental_analysis'')
        (sample_scope ''fundamental_analysis'')) route = Some d
    \<and> lr_actual_model r = model_value (cd_model d)"
proof -
  obtain r k l v where run: "sample_run (sample_adaptive [ROUTE_LUNA] None ''fundamental_analysis'')
      ''fundamental_analysis'' [Inl (LLMProviderError (Some LF_READ_TIMEOUT)),
        Inr (sample_answer PROV_TEAMOROUTER MODEL_LUNA)] = (Inr (Some r), Some k, (l, v))"
    by (rule sample_recoversE)
  from answer_within_authority [OF run [unfolded sample_run_def]] run show ?thesis by blast
qed

end
