(* ===== verification/RecoveryLedger.thy ===== *)
theory RecoveryLedger
  imports RecoverySafety
begin

text \<open>
  The shape of the evidence. The records that an execution appends follow a small automaton: an
  attempt is started, then completed; between two attempts stands a decision that the gate allowed,
  and it names the route of the next attempt; after a denied decision or a decision to fail only the
  terminal record can follow. The locale \<open>recovery_ledger\<close> states what this needs of an environment
  (only \<open>append\<close> writes, and it appends); the environment over the in-memory store satisfies it.
\<close>

datatype ledger_phase =
    Opening
  | Calling "string option"
  | Settled
  | Allowed "route_id option"
  | Refused
  | Stopped

fun ledger_step :: "ledger_phase \<Rightarrow> recovery_evidence \<Rightarrow> ledger_phase option" where
  "ledger_step Opening r = (case re_kind r of
      ATTEMPT_STARTED \<Rightarrow> Some (Calling (re_attempt_id r)) | TERMINAL \<Rightarrow> Some Stopped | _ \<Rightarrow> None)"
| "ledger_step (Calling a) r =
    (if re_kind r = ATTEMPT_COMPLETED \<and> re_attempt_id r = a then Some Settled else None)"
| "ledger_step Settled r = (case re_kind r of
      TERMINAL \<Rightarrow> Some Stopped
    | DECISION \<Rightarrow> Some (if re_outcome r = EO_ALLOW \<and> re_action r \<notin> {Some FAIL_TASK, Some FAIL_RUN}
        then Allowed (re_route r) else Refused)
    | _ \<Rightarrow> None)"
| "ledger_step (Allowed route) r = (case re_kind r of
      ATTEMPT_STARTED \<Rightarrow> if re_route r = route then Some (Calling (re_attempt_id r)) else None
    | TERMINAL \<Rightarrow> Some Stopped | _ \<Rightarrow> None)"
| "ledger_step Refused r = (if re_kind r = TERMINAL then Some Stopped else None)"
| "ledger_step Stopped r = None"

definition ledger_run :: "recovery_evidence list \<Rightarrow> ledger_phase option" where
  "ledger_run rs = foldl (\<lambda>p r. Option.bind p (\<lambda>q. ledger_step q r)) (Some Opening) rs"

lemma ledger_run_Nil [simp]: "ledger_run [] = Some Opening"
  by (simp add: ledger_run_def)

lemma ledger_run_snoc [simp]: "ledger_run (rs @ [r]) = Option.bind (ledger_run rs) (\<lambda>p. ledger_step p r)"
  by (simp add: ledger_run_def)

text \<open>A supervisor leaves the evidence alone.\<close>

definition supervisor_keeps :: "('w \<Rightarrow> 'l) \<Rightarrow> 'w supervisor \<Rightarrow> bool" where
  "supervisor_keeps recorded sv = (case sv of
      Lead \<Rightarrow> True
    | Custom f \<Rightarrow> \<forall>ctx w. recorded (snd (f ctx w)) = recorded w
    | Awaited f \<Rightarrow> \<forall>ctx left w. recorded (snd (f ctx left w)) = recorded w)"

locale recovery_ledger =
  fixes env :: "'w recovery_env" and recorded :: "'w \<Rightarrow> recovery_evidence list"
  assumes clock_keeps: "recorded (snd (en_monotonic env w)) = recorded w"
    and stamp_keeps: "recorded (snd (en_timestamp env w)) = recorded w"
    and uuid_keeps: "recorded (snd (en_uuid env w)) = recorded w"
    and age_keeps: "recorded (snd (en_age_seconds env ts w)) = recorded w"
    and call_keeps: "recorded (snd (en_call env route limit w)) = recorded w"
    and supervisor_keeps: "supervisor_keeps recorded (en_supervisor env)"
    and append_grows: "en_append env r w = (Inr (), w') \<Longrightarrow> recorded w' = recorded w @ [r]"
    and append_fails: "en_append env r w = (Inl e, w') \<Longrightarrow> recorded w' = recorded w"
begin

definition at_phase :: "recovery_evidence list \<Rightarrow> ledger_phase \<Rightarrow> walk \<times> 'w \<Rightarrow> bool" where
  "at_phase base p s \<longleftrightarrow> (\<exists>rs. recorded (snd s) = base @ rs \<and> ledger_run rs = Some p)"

definition shaped :: "recovery_evidence list \<Rightarrow> walk \<times> 'w \<Rightarrow> bool" where
  "shaped base s \<longleftrightarrow> (\<exists>p. at_phase base p s)"

lemma at_phase_shaped: "at_phase base p s \<Longrightarrow> shaped base s"
  by (auto simp: shaped_def)

lemma at_phase_keep: "at_phase base p s \<Longrightarrow> recorded (snd s') = recorded (snd s) \<Longrightarrow> at_phase base p s'"
  by (simp add: at_phase_def)

lemma outside_phase:
  assumes "\<And>w. recorded (snd (f w)) = recorded w"
  shows "triple (at_phase base p) (outside f) (\<lambda>_. at_phase base p) E"
  unfolding triple_def outside_def split_beta
  by (auto elim!: at_phase_keep simp: assms)

lemma outside_eff_phase:
  assumes "\<And>w. recorded (snd (f w)) = recorded w"
  shows "triple (at_phase base p) (outside_eff f) (\<lambda>_. at_phase base p) (\<lambda>_. shaped base)"
proof (rule triple_conseq [OF triple_stateI])
  fix s r s' assume "at_phase base p s" and run: "outside_eff f s = (r, s')"
  moreover have "s' = (fst s, snd (f (snd s)))" using run by (auto simp: outside_eff_def split_beta)
  ultimately show "at_phase base p s'" by (auto elim!: at_phase_keep simp: assms)
qed (auto dest: at_phase_shaped)

lemma outside_eff_exact:
  assumes "\<And>w. recorded (snd (f w)) = recorded w"
  shows "triple (at_phase base p) (outside_eff f) (\<lambda>_. at_phase base p) (\<lambda>_. at_phase base p)"
proof (rule triple_stateI)
  fix s r s' assume "at_phase base p s" and run: "outside_eff f s = (r, s')"
  moreover have "s' = (fst s, snd (f (snd s)))" using run by (auto simp: outside_eff_def split_beta)
  ultimately show "at_phase base p s'" by (auto elim!: at_phase_keep simp: assms)
qed

lemma update_phase: "triple (at_phase base p) (update f) (\<lambda>_. at_phase base p) E"
  by (simp add: triple_def update_def at_phase_def)

lemma walk_phase: "triple (at_phase base p) the_walk (\<lambda>_. at_phase base p) E"
  by (simp add: triple_def the_walk_def)

lemma of_result_phase: "triple (at_phase base p) (of_result r) (\<lambda>_. at_phase base p) (\<lambda>_. shaped base)"
  by (auto simp: triple_def of_result_def dest: at_phase_shaped split: sum.splits)

lemma of_result_exact: "triple (at_phase base p) (of_result r) (\<lambda>_. at_phase base p) (\<lambda>_. at_phase base p)"
  by (auto simp: triple_def of_result_def split: sum.splits)

lemma remaining_phase: "triple (at_phase base p) (remaining env rn) (\<lambda>_. at_phase base p) E"
  unfolding remaining_def by (rule triple_ebind, rule outside_phase [OF clock_keeps], rule triple_eret)

lemma latency_phase: "triple (at_phase base p) (latency env c) (\<lambda>_. at_phase base p) E"
  unfolding latency_def by (rule triple_ebind, rule outside_phase [OF clock_keeps], rule triple_eret)

lemmas phase_binds = triple_ebind [OF outside_phase [OF clock_keeps]] triple_ebind [OF outside_phase [OF uuid_keeps]]
  triple_ebind [OF update_phase] triple_ebind [OF walk_phase] triple_ebind [OF remaining_phase]
  triple_ebind [OF latency_phase] bind_the_world

text \<open>A record that cannot be written leaves the phase as it was.\<close>

lemma write_record_exact:
  assumes "\<And>rid ts. ledger_step p (fill (blank_evidence rn kind outcome rid ts)) = Some q"
  shows "triple (at_phase base p) (write_record env rn kind outcome fill) (\<lambda>_. at_phase base q) (\<lambda>_. at_phase base p)"
proof -
  have append: "triple (at_phase base p) (outside_eff (en_append env (fill (blank_evidence rn kind outcome rid ts))))
      (\<lambda>_. at_phase base q) (\<lambda>_. at_phase base p)" for rid ts
  proof (rule tripleI)
    fix s e s' assume p: "at_phase base p s"
      and run: "outside_eff (en_append env (fill (blank_evidence rn kind outcome rid ts))) s = (Inl e, s')"
    have "recorded (snd s') = recorded (snd s)"
      using run by (auto simp: outside_eff_def dest: append_fails split: prod.splits)
    with p show "at_phase base p s'" by (rule at_phase_keep)
  next
    fix s x s' assume p: "at_phase base p s"
      and run: "outside_eff (en_append env (fill (blank_evidence rn kind outcome rid ts))) s = (Inr x, s')"
    have "recorded (snd s') = recorded (snd s) @ [fill (blank_evidence rn kind outcome rid ts)]"
      using run by (auto simp: outside_eff_def dest: append_grows split: prod.splits)
    moreover obtain rs where "recorded (snd s) = base @ rs" "ledger_run rs = Some p"
      using p by (auto simp: at_phase_def)
    ultimately show "at_phase base q s'"
      unfolding at_phase_def
      by (intro exI [of _ "rs @ [fill (blank_evidence rn kind outcome rid ts)]"]) (simp add: assms)
  qed
  show ?thesis
    unfolding write_record_def Let_def
    by (rule phase_binds triple_ebind [OF outside_phase [OF stamp_keeps]] triple_ebind [OF of_result_exact]
        triple_ebind [OF append] update_phase)+
qed

lemma write_record_phase:
  assumes "\<And>rid ts. ledger_step p (fill (blank_evidence rn kind outcome rid ts)) = Some q"
  shows "triple (at_phase base p) (write_record env rn kind outcome fill) (\<lambda>_. at_phase base q) (\<lambda>_. shaped base)"
proof (rule triple_conseq)
  show "triple (at_phase base p) (write_record env rn kind outcome fill) (\<lambda>_. at_phase base q) (\<lambda>_. at_phase base p)"
    by (rule write_record_exact) (rule assms)
qed (auto dest: at_phase_shaped)

lemma stop_phase:
  assumes "\<And>r. re_kind r = TERMINAL \<Longrightarrow> ledger_step p r = Some Stopped"
  shows "triple (at_phase base p) (stop env rn reason) Q (\<lambda>_. shaped base)"
  unfolding stop_def
  by (rule phase_binds triple_ebind [OF of_result_phase] triple_eraise
      triple_ebind [OF write_record_phase [where q = Stopped]] | simp add: assms blank_evidence_def at_phase_shaped)+

lemma handle_failure_phase:
  assumes common: "\<And>r. re_kind (common r) = re_kind r \<and> re_attempt_id (common r) = Some a"
  shows "triple (at_phase base (Calling (Some a))) (handle_failure env rn route common clock tr exc)
    (\<lambda>_. at_phase base Settled) (\<lambda>_. shaped base)"
  unfolding handle_failure_def Let_def
  by (rule phase_binds triple_if triple_eret triple_eraise stop_phase
      triple_ebind [OF write_record_phase [where p = "Calling (Some a)" and q = Settled]]
      triple_ebind [OF write_record_phase [where p = Settled and q = Stopped]]
      | simp add: common blank_evidence_def at_phase_shaped)+

lemma attempt_route_phase:
  assumes common: "\<And>r. re_kind (common r) = re_kind r \<and> re_attempt_id (common r) = Some a"
    and start: "\<And>rid ts. ledger_step p (common (blank_evidence rn ATTEMPT_STARTED EO_STARTED rid ts)) = Some (Calling (Some a))"
  shows "triple (at_phase base p) (attempt_route env rn route common policy) (\<lambda>_. at_phase base Settled)
    (\<lambda>_. shaped base)"
proof -
  let ?c = "Calling (Some a)"
  have pass: "triple (at_phase base ?c) (ebind (latency env clock) (\<lambda>ms. write_record env rn ATTEMPT_COMPLETED EO_PASS
      (\<lambda>r. (common r)\<lparr>re_latency_ms := Some ms, re_input_tokens := it, re_output_tokens := ot,
        re_output_hash := oh, re_actual_model := am, re_candidate_hash := ch,
        re_execution_outcome := oc, re_policy_gate_result := Some GATE_ALLOW\<rparr>)))
      (\<lambda>_. at_phase base Settled) (\<lambda>_. at_phase base ?c)" for clock it ot oh am ch oc
    by (rule phase_binds write_record_exact | simp add: common blank_evidence_def)+
  have tried: "at_phase base (case tr_result tr of Inl _ \<Rightarrow> ?c | Inr _ \<Rightarrow> Settled) s'"
    if p: "at_phase base ?c s" and run: "try_call env rn route policy common limit clock s = (tr, s')"
    for s tr s' limit clock
  proof -
    obtain answer expired w where call: "en_call env route limit (snd s) = ((answer, expired), w)"
      by (metis prod.collapse)
    then have "recorded w = recorded (snd s)" using call_keeps [of route limit "snd s"] by simp
    then have at: "at_phase base ?c (fst s, w)" using p by (simp add: at_phase_def)
    from run call at show ?thesis
      by (auto simp: try_call_def Let_def split: sum.splits prod.splits
          dest: triple_Inl [OF pass] triple_Inr [OF pass])
  qed
  have body: "triple (at_phase base ?c) (\<lambda>s. case try_call env rn route policy common limit clock s of (tr, s') \<Rightarrow>
      (case tr_result tr of
         Inr resp \<Rightarrow> (Inr (Inr resp), s')
       | Inl exc \<Rightarrow> ebind (handle_failure env rn route common clock tr exc) (\<lambda>a. eret (Inl a)) s'))
      (\<lambda>_. at_phase base Settled) (\<lambda>_. shaped base)" for limit clock
  proof -
    have h: "triple (at_phase base ?c) (ebind (handle_failure env rn route common clock tr exc) (\<lambda>a. eret (Inl a)))
      (\<lambda>_. at_phase base Settled) (\<lambda>_. shaped base)" for tr exc
      by (rule triple_ebind [OF handle_failure_phase [OF common]] triple_eret | assumption)+
    show ?thesis
      by (rule tripleI; clarsimp split: prod.splits sum.splits; drule (1) tried;
          auto dest: triple_Inl [OF h] triple_Inr [OF h])
  qed
  show ?thesis
    unfolding attempt_route_def
    by (rule phase_binds triple_ebind [OF write_record_phase [where q = ?c]] body | simp add: start)+
qed

lemma invoke_phase:
  assumes "p = Opening \<or> p = Allowed (Some route)"
  shows "triple (at_phase base p) (invoke env rn route check) (\<lambda>_. at_phase base Settled) (\<lambda>_. shaped base)"
proof -
  have stopped: "triple (at_phase base p) (stop env rn reason) Q (\<lambda>_. shaped base)" for reason and Q ::
      "failure_assessment + llm_response \<Rightarrow> walk \<times> 'w \<Rightarrow> bool"
    by (rule stop_phase) (use assms in auto)
  have attempt: "triple (at_phase base p) (attempt_route env rn route (common_fields rn k route c check a policy) policy)
      (\<lambda>_. at_phase base Settled) (\<lambda>_. shaped base)" for k c a policy
    by (rule attempt_route_phase [where a = a]) (use assms in \<open>auto simp: common_fields_def blank_evidence_def\<close>)
  show ?thesis
    unfolding invoke_def
    by (rule phase_binds triple_if stopped attempt triple_ebind [OF of_result_phase])+
qed

lemma settled_stop: "triple (at_phase base Settled) (stop env rn reason) Q (\<lambda>_. shaped base)"
  by (rule stop_phase) simp

lemma capability_check_phase:
  "triple (at_phase base (Allowed (Some target))) (capability_check env rn f target)
    (\<lambda>_. at_phase base Settled) (\<lambda>_. shaped base)"
proof -
  have "triple (at_phase base Settled) (after_check env rn f target c res) (\<lambda>_. at_phase base Settled)
      (\<lambda>_. shaped base)" for c res
    by (cases res; simp only: after_check_def Let_def sum.case)
      (rule phase_binds triple_if triple_eret settled_stop | assumption)+
  then show ?thesis
    unfolding capability_check_def
    by - (rule phase_binds triple_ebind [OF of_result_phase] triple_ebind [OF invoke_phase] | simp)+
qed

lemma switch_route_phase:
  "triple (at_phase base (Allowed (Some target))) (switch_route env rn action target)
    (\<lambda>_. at_phase base Settled) (\<lambda>_. shaped base)"
  unfolding switch_route_def
  by (rule phase_binds triple_ebind [OF of_result_phase] triple_ebind [OF invoke_phase] triple_eret | simp)+

lemma follow_decision_phase:
  "triple (at_phase base Settled) (follow_decision env rn f ctx d) (\<lambda>_. at_phase base Settled) (\<lambda>_. shaped base)"
proof -
  define phase where "phase allowed = (if allowed \<and> rd_action d \<notin> {FAIL_TASK, FAIL_RUN}
    then Allowed (rd_target_route d) else Refused)" for allowed
  have decided: "triple (at_phase base Settled) (record_decision env rn ctx d allowed)
      (\<lambda>_. at_phase base (phase allowed)) (\<lambda>_. shaped base)" for allowed
    unfolding record_decision_def
    by (rule write_record_phase) (simp add: blank_evidence_def phase_def)
  have acts: "triple (at_phase base (phase allowed)) (if \<not> allowed then stop env rn POLICY_DENIED
    else if rd_action d \<in> {FAIL_TASK, FAIL_RUN} then
      stop env rn (if rd_reason_code d = BUDGET_EXHAUSTED then RECOVERY_BUDGET_EXHAUSTED else POLICY_DENIED)
    else case rd_target_route d of
        None \<Rightarrow> eraise RecKeyError
      | Some target \<Rightarrow>
          if rd_action d = CAPABILITY_CHECK then capability_check env rn f target
          else switch_route env rn (rd_action d) target)
    (\<lambda>_. at_phase base Settled) (\<lambda>_. shaped base)" for allowed
  proof (cases "allowed \<and> rd_action d \<notin> {FAIL_TASK, FAIL_RUN}")
    case True
    then show ?thesis
      by (cases "rd_target_route d")
        (auto simp: phase_def at_phase_shaped triple_def [where m = "eraise _"]
          intro: capability_check_phase switch_route_phase)
  next
    case False
    have refused: "triple (at_phase base Refused) (stop env rn reason) Q (\<lambda>_. shaped base)" for reason and Q ::
        "turn \<Rightarrow> walk \<times> 'w \<Rightarrow> bool"
      by (rule stop_phase) simp
    from False have "phase allowed = Refused" by (simp add: phase_def)
    with False refused show ?thesis by (auto intro!: triple_if)
  qed
  show ?thesis
    unfolding follow_decision_def Let_def
    by (rule phase_binds triple_ebind [OF decided] acts)+
qed

lemma supervised_phase:
  "triple (at_phase base Settled) (supervised env rn ctx) (\<lambda>_. at_phase base Settled) (\<lambda>_. shaped base)"
proof -
  have "triple (at_phase base Settled) (proposal env rn ctx) (\<lambda>_. at_phase base Settled) (\<lambda>_. at_phase base Settled)"
    using supervisor_keeps unfolding proposal_def supervisor_keeps_def
    by (cases "en_supervisor env")
      (auto intro!: of_result_exact outside_eff_exact triple_ebind [OF remaining_phase])
  then have "triple (at_phase base Settled) (ebind (proposal env rn ctx)
      (\<lambda>d. of_result (rbind (guard (recovery_decision_valid d) PydanticError) (\<lambda>_. Inr d))))
      (\<lambda>_. at_phase base Settled) (\<lambda>_. at_phase base Settled)"
    by (rule triple_ebind) (rule of_result_exact)
  note proposed = triple_state [OF this]
  have stopped: "triple (at_phase base Settled) (stop env rn reason) (\<lambda>_ :: recovery_decision. at_phase base Settled)
      (\<lambda>_. shaped base)" for reason
    by (rule settled_stop)
  show ?thesis
  proof (rule tripleI)
    fix s e s' assume s: "at_phase base Settled s" and run: "supervised env rn ctx s = (Inl e, s')"
    obtain q t where q: "ebind (proposal env rn ctx)
        (\<lambda>d. of_result (rbind (guard (recovery_decision_valid d) PydanticError) (\<lambda>_. Inr d))) s = (q, t)"
      by (rule prod.exhaust)
    note t = proposed [OF s q]
    from run q consider "s' = t" | reason where "stop env rn reason t = (Inl e :: rec_exn + recovery_decision, s')"
      by (auto simp: supervised_def split: sum.splits if_splits)
    then show "shaped base s'"
      by cases (use t at_phase_shaped triple_Inl [OF settled_stop t] in blast)+
  next
    fix s x s' assume s: "at_phase base Settled s" and run: "supervised env rn ctx s = (Inr x, s')"
    obtain q t where q: "ebind (proposal env rn ctx)
        (\<lambda>d. of_result (rbind (guard (recovery_decision_valid d) PydanticError) (\<lambda>_. Inr d))) s = (q, t)"
      by (rule prod.exhaust)
    note t = proposed [OF s q]
    from run q consider "s' = t" | reason where "stop env rn reason t = (Inr x, s')"
      by (auto simp: supervised_def split: sum.splits if_splits)
    then show "at_phase base Settled s'"
      by cases (use t triple_Inr [OF stopped t] in blast)+
  qed
qed

lemma recover_turn_phase:
  "triple (at_phase base Settled) (recover_turn env rn f) (\<lambda>_. at_phase base Settled) (\<lambda>_. shaped base)"
proof -
  have ctx: "triple (at_phase base Settled) (build_context env rn f) (\<lambda>_. at_phase base Settled) (\<lambda>_. shaped base)"
    unfolding build_context_def Let_def
    by (rule phase_binds triple_ebind [OF of_result_phase] triple_eret | assumption)+
  have refused: "triple (at_phase base Refused) (stop env rn reason) Q (\<lambda>_. shaped base)" for reason and Q ::
      "turn \<Rightarrow> walk \<times> 'w \<Rightarrow> bool"
    by (rule stop_phase) simp
  show ?thesis
    unfolding recover_turn_def
    by (rule phase_binds triple_if settled_stop triple_ebind [OF ctx] refused
        triple_ebind [OF supervised_phase] follow_decision_phase
        triple_ebind [OF write_record_phase [where q = Refused]] | simp add: blank_evidence_def)+
qed

lemma recover_loop_phase:
  "triple (at_phase base Settled) (recover_loop n env rn res) (\<lambda>_. at_phase base Settled) (\<lambda>_. shaped base)"
proof (induction n arbitrary: res)
  case 0
  then show ?case by (cases res) (simp_all add: triple_def)
next
  case (Suc n)
  show ?case
  proof (cases res)
    case (Inr r)
    then show ?thesis by (simp add: triple_def)
  next
    case (Inl f)
    show ?thesis
      unfolding Inl recover_loop.simps
      by (rule triple_ebind [OF recover_turn_phase Suc.IH])
  qed
qed

lemma run_recovery_phase:
  "triple (at_phase base Opening) (run_recovery fuel env rn observed) (\<lambda>_. at_phase base Settled) (\<lambda>_. shaped base)"
proof -
  have obs: "triple (at_phase base Opening) (observe env rn r) (\<lambda>_. at_phase base Opening) (\<lambda>_. shaped base)" for r
    unfolding observe_def
    by (rule triple_if triple_ebind [OF outside_eff_phase] update_phase triple_eret age_keeps | assumption)+
  have unopened: "triple (at_phase base Opening) (stop env rn reason) Q (\<lambda>_. shaped base)" for reason and Q ::
      "unit \<Rightarrow> walk \<times> 'w \<Rightarrow> bool"
    by (rule stop_phase) simp
  have ref: "triple (at_phase base Opening) (refuse env rn) (\<lambda>_. at_phase base Opening) (\<lambda>_. shaped base)"
    unfolding refuse_def
    by (rule phase_binds triple_ebind [OF of_result_phase] triple_if unopened triple_eret | assumption)+
  have first: "triple (at_phase base Opening) (first_attempt env rn') (\<lambda>_. at_phase base Settled) (\<lambda>_. shaped base)" for rn'
    unfolding first_attempt_def
    by (rule phase_binds triple_ebind [OF of_result_phase] invoke_phase | simp)+
  show ?thesis
    unfolding run_recovery_def Let_def
    by (rule triple_ebind [OF triple_efold [OF obs]] triple_ebind [OF ref] bind_the_world triple_ebind [OF first]
        triple_ebind [OF recover_loop_phase] phase_binds triple_eret | assumption)+
qed

lemma execute_scope_shaped:
  assumes "execute_scope fuel env ar sc provider_name model_name w = (res, k, w')"
  shows "\<exists>rs p. recorded w' = recorded w @ rs \<and> ledger_run rs = Some p \<and> (is_ok res \<longrightarrow> p = Settled)"
  using assms
proof (cases rule: execute_scope_cases)
  case (refused e)
  have "recorded w' = recorded w"
    using assms refused clock_keeps [of w]
    by (auto simp: execute_scope_def Let_def split: if_splits sum.splits option.splits prod.splits)
  then show ?thesis by (intro exI [of _ "[]"] exI [of _ Opening]) (simp add: refused)
next
  case (run rn routes current observed w1 k')
  have "recorded w1 = recorded w" using clock_keeps [of w] run(8) by simp
  then have start: "at_phase (recorded w) Opening (initial_walk ar sc routes current observed, w1)"
    by (simp add: at_phase_def)
  show ?thesis
  proof (cases res)
    case (Inl e)
    from triple_Inl [OF run_recovery_phase start run(6) [unfolded Inl]] Inl show ?thesis
      by (auto simp: shaped_def at_phase_def)
  next
    case (Inr x)
    from triple_Inr [OF run_recovery_phase start run(6) [unfolded Inr]] Inr show ?thesis
      by (auto simp: at_phase_def)
  qed
qed

end

section \<open>The in-memory store\<close>

lemma beside_keeps: "fst (snd (beside f w)) = fst w"
  by (simp add: beside_def split_beta)

interpretation meml: recovery_ledger "memory_env outer" fst for outer :: "'v recovery_env"
proof unfold_locales
  show "supervisor_keeps fst (en_supervisor (memory_env outer))"
    by (cases "en_supervisor outer") (simp_all add: memory_env_def supervisor_keeps_def beside_keeps)
qed (auto simp: memory_env_def beside_keeps dest: memr.append_Inr memr.append_Inl split: prod.splits)

text \<open>
  C13. The evidence of a recovery tells a complete story. Over the in-memory store, for every provider,
  clock and supervisor and however the execution ends, the records it appends follow the automaton
  \<open>ledger_step\<close>: every attempt is recorded as started before it is recorded as completed, each further
  attempt is preceded by a decision that the gate allowed and that names its route, and nothing but
  the terminal record follows a refusal. An execution that answers ends with a settled attempt.
\<close>

theorem recovery_ledger_shaped:
  assumes "execute_scope fuel (memory_env outer) ar sc provider_name model_name (l, v) = (res, k, (l', v'))"
  shows "\<exists>rs p. l' = l @ rs \<and> ledger_run rs = Some p \<and> (is_ok res \<longrightarrow> p = Settled)"
  using meml.execute_scope_shaped [OF assms(1)] by simp

theorem recovery_ledger_shaped_witness:
  "\<exists>r k l v. sample_run (sample_adaptive [ROUTE_LUNA] None ''fundamental_analysis'') ''fundamental_analysis''
      [Inl (LLMProviderError (Some LF_READ_TIMEOUT)), Inr (sample_answer PROV_TEAMOROUTER MODEL_LUNA)]
      = (Inr (Some r), k, (l, v)) \<and> ledger_run l = Some Settled \<and> length l = 5"
proof -
  obtain r k l v where run: "sample_run (sample_adaptive [ROUTE_LUNA] None ''fundamental_analysis'')
      ''fundamental_analysis'' [Inl (LLMProviderError (Some LF_READ_TIMEOUT)),
        Inr (sample_answer PROV_TEAMOROUTER MODEL_LUNA)] = (Inr (Some r), Some k, (l, v))"
    and kinds: "map re_kind l = [ATTEMPT_STARTED, ATTEMPT_COMPLETED, DECISION, ATTEMPT_STARTED, ATTEMPT_COMPLETED]"
    by (rule sample_recoversE)
  from recovery_ledger_shaped [OF run [unfolded sample_run_def]] have "ledger_run l = Some Settled" by simp
  moreover have "length l = 5" using arg_cong [OF kinds, of length] by simp
  ultimately show ?thesis using run by blast
qed

end
