(* ===== verification/RecoveryOverrun.thy ===== *)
theory RecoveryOverrun
  imports RecoverySafety
begin

text \<open>
  A corner where the recovery loop fails in a way it does not intend: an ordered profile numbers its
  attempts with the count of provider calls, which a budget may let grow beyond the bound of the
  evidence record. With two attempts per route, two model fallbacks and three capability checks (all
  within \<open>recovery_budget_valid\<close>) five calls fit: an attempt on the preferred route and its retry, two
  checks of the second route and one of the third.
\<close>

definition wide_budget :: recovery_budget where
  "wide_budget = default_budget\<lparr>rb_max_total_attempts_per_task := 4, rb_max_same_route_attempts := 2,
    rb_max_model_fallbacks := 2, rb_max_capability_checks := 3\<rparr>"

text \<open>
  C40. The fifth provider call of an ordered profile ends in a bare validation error. After four calls
  an invocation that has its inputs intact, time left and a resolved policy raises pydantic's error
  where it records the start of the attempt, and not \<open>RecoveryStopped\<close>: the attempt number 5 is
  outside the bound of the record. The call is counted, nothing is recorded, and in particular no
  terminal record closes the recovery.
\<close>

theorem ordered_invocation_overruns:
  assumes "rn_ordered rn" and "4 \<le> wk_provider_calls k" and "inputs_intact env rn w"
    and "0 < time_left rn (fst (en_monotonic env w))"
    and "map_of (rn_routes rn) route = Some c"
    and "resolve_model_execution (rn_scope rn) route (rn_routes rn) (wk_capabilities k) (rn_budget rn) check
      (rn_grants rn) = Inr p"
  shows "\<exists>w'. invoke env rn route check (k, w)
    = (Inl PydanticError, (k\<lparr>wk_provider_calls := wk_provider_calls k + 1\<rparr>, w'))"
proof -
  have invalid: "\<not> recovery_evidence_valid (common_fields rn (k\<lparr>wk_provider_calls := wk_provider_calls k + 1\<rparr>)
      route c check a p (blank_evidence rn ATTEMPT_STARTED EO_STARTED rid ts))" for a rid ts
    using assms(1,2) by (simp add: recovery_evidence_valid_def common_fields_def)
  obtain t w1 where t: "en_monotonic env w = (t, w1)" by fastforce
  obtain u w2 where u: "en_uuid env w1 = (u, w2)" by fastforce
  obtain u' w3 where u': "en_uuid env w2 = (u', w3)" by fastforce
  obtain ts w4 where ts: "en_timestamp env w3 = (ts, w4)" by fastforce
  have "\<not> time_left rn t \<le> 0" using assms(4) t by simp
  then show ?thesis
    using assms(3,5,6) t u u' ts invalid
    by (simp add: invoke_def attempt_route_def write_record_def remaining_def ebind_def outside_def the_world_def
        the_walk_def update_def of_result_def Let_def dict_entry_def)
qed

theorem ordered_invocation_overruns_witness:
  "recovery_budget_valid wide_budget \<and>
   (\<exists>w'. invoke (memory_env scripted_env) ((sample_rn ''risk_follow_up'')\<lparr>rn_budget := wide_budget\<rparr>) ROUTE_TERRA True
      (sample_walk\<lparr>wk_provider_calls := 4\<rparr>, ([], (9, 0, [])))
    = (Inl PydanticError, (sample_walk\<lparr>wk_provider_calls := 5\<rparr>, w')))"
proof -
  let ?rn = "(sample_rn ''risk_follow_up'')\<lparr>rn_budget := wide_budget\<rparr>"
  let ?k = "sample_walk\<lparr>wk_provider_calls := 4\<rparr>"
  have "is_ok (resolve_model_execution (rn_scope ?rn) ROUTE_TERRA (rn_routes ?rn) (wk_capabilities ?k) (rn_budget ?rn)
      True (rn_grants ?rn))"
    by code_simp
  then obtain p where p: "resolve_model_execution (rn_scope ?rn) ROUTE_TERRA (rn_routes ?rn) (wk_capabilities ?k)
      (rn_budget ?rn) True (rn_grants ?rn) = Inr p"
    by (auto simp: is_ok_iff)
  have ready: "rn_ordered ?rn" "4 \<le> wk_provider_calls ?k"
      "inputs_intact (memory_env scripted_env) ?rn ([], (9, 0, []))"
      "0 < time_left ?rn (fst (en_monotonic (memory_env scripted_env) ([], (9, 0, []))))"
    by (simp_all add: sample_rn_def ordered_profile_def inputs_intact_def memory_env_def scripted_env_def
        sample_scope_def sample_hash_def time_left_def beside_def wide_budget_def default_budget_def)
  have route: "map_of (rn_routes ?rn) ROUTE_TERRA = Some (sample_candidate ROUTE_TERRA PROV_TEAMOROUTER MODEL_TERRA)"
    by (simp add: sample_rn_def sample_routes_def)
  have "\<exists>w'. invoke (memory_env scripted_env) ?rn ROUTE_TERRA True (?k, ([], (9, 0, [])))
    = (Inl PydanticError, (?k\<lparr>wk_provider_calls := wk_provider_calls ?k + 1\<rparr>, w'))"
    by (rule ordered_invocation_overruns [OF ready route p])
  moreover have "recovery_budget_valid wide_budget" by code_simp
  ultimately show ?thesis by simp
qed

end
