(* ===== verification/Decimals.thy ===== *)
theory Decimals
  imports ResumeCursor
begin

text \<open>
  Python's \<open>decimal.Decimal\<close>, as far as the repository uses it: construction from \<open>str(value)\<close>, the
  text of a number, comparison, and addition, subtraction, multiplication and division in a context of
  \<open>p\<close> digits (28 by default; rounding half to even, exponents from -999999 to 999999, traps on invalid
  operations, division by zero and overflow). Exact and rounded results follow the General Decimal Arithmetic
  specification that the module implements: the result is the exact quotient (difference, product)
  rounded once, kept at the ideal exponent when it is exact.

  A finite number is a sign, a coefficient and an exponent. The arithmetic computes on integers;
  \<open>dec_rat\<close> gives the number its rational value, and \<open>finish_value\<close> shows that the value of a result
  is a function of the exact rational alone (\<open>rounded\<close>), however the operands were written.
\<close>

section \<open>Numbers and Python values\<close>

datatype decimal = Dec bool int int | DInf bool | DNaN bool

datatype decimal_signal = InvalidOperation | DivisionByZero | DecimalOverflow

datatype pyvalue =
    PyNone
  | PyBool bool
  | PyInt int
  | PyDecimal decimal
  | PyText string
  | PyList string "pyvalue list"
  | PyDict string "(string \<times> pyvalue) list"
  | PyOther string

text \<open>
  \<open>PyOther\<close> is any other object (a float above all) by what \<open>str()\<close> returns for it; lists and dicts
  carry that text next to their contents.
\<close>

fun is_finite :: "decimal \<Rightarrow> bool" where
  "is_finite (Dec s c x) = True"
| "is_finite d = False"

fun decimal_wf :: "decimal \<Rightarrow> bool" where
  "decimal_wf (Dec s c x) = (0 \<le> c)"
| "decimal_wf d = True"

definition signed :: "bool \<Rightarrow> 'a :: uminus \<Rightarrow> 'a" where
  "signed s c = (if s then - c else c)"

fun dec_rat :: "decimal \<Rightarrow> rat" where
  "dec_rat (Dec s c x) = signed s (of_int c) * 10 powi x"
| "dec_rat d = 0"

section \<open>Text\<close>

definition int_text :: "int \<Rightarrow> string" where
  "int_text i = (if i < 0 then CHR ''-'' # decimal (nat (- i)) else decimal (nat i))"

definition zeros :: "int \<Rightarrow> string" where
  "zeros n = replicate (nat n) (CHR ''0'')"

text \<open>\<open>Decimal.__str__\<close>: scientific notation only for positive exponents and below \<open>1E-6\<close>.\<close>

definition dec_digits :: "string \<Rightarrow> int \<Rightarrow> string" where
  "dec_digits ds x =
     (let left = x + int (length ds);
          dot = (if x \<le> 0 \<and> - 6 < left then left else 1);
          mantissa = (if dot \<le> 0 then ''0.'' @ zeros (- dot) @ ds
            else if int (length ds) \<le> dot then ds @ zeros (dot - int (length ds))
            else take (nat dot) ds @ ''.'' @ drop (nat dot) ds)
      in mantissa @ (if left = dot then []
           else CHR ''E'' # (if left - dot < 0 then int_text (left - dot)
             else CHR ''+'' # int_text (left - dot))))"

fun decimal_text :: "decimal \<Rightarrow> string" where
  "decimal_text (Dec s c x) = (if s then ''-'' else []) @ dec_digits (decimal (nat c)) x"
| "decimal_text (DInf s) = (if s then ''-Infinity'' else ''Infinity'')"
| "decimal_text (DNaN signalling) = (if signalling then ''sNaN'' else ''NaN'')"

fun py_str :: "pyvalue \<Rightarrow> string" where
  "py_str PyNone = ''None''"
| "py_str (PyBool b) = (if b then ''True'' else ''False'')"
| "py_str (PyInt i) = int_text i"
| "py_str (PyDecimal d) = decimal_text d"
| "py_str (PyText s) = s"
| "py_str (PyList s vs) = s"
| "py_str (PyDict s kvs) = s"
| "py_str (PyOther s) = s"

text \<open>
  \<open>Decimal(text)\<close>: surrounding white space and all underscores are dropped, then the text has to be a
  signed numeral with an optional fraction and exponent, or one of the special values. \<open>None\<close> is the
  \<open>InvalidOperation\<close> that the constructor raises.
\<close>

definition lower_char :: "char \<Rightarrow> char" where
  "lower_char c = (let n = (of_char c :: nat) in if 65 \<le> n \<and> n \<le> 90 then char_of (n + 32) else c)"

definition split_sign :: "string \<Rightarrow> bool \<times> string" where
  "split_sign s = (case s of [] \<Rightarrow> (False, [])
     | c # cs \<Rightarrow> if c = CHR ''-'' then (True, cs) else if c = CHR ''+'' then (False, cs) else (False, s))"

definition parse_exponent :: "string \<Rightarrow> int option" where
  "parse_exponent s = (if s = [] then Some 0
     else if hd s \<notin> {CHR ''E'', CHR ''e''} then None
     else (case split_sign (tl s) of (neg, ds) \<Rightarrow>
       if ds \<noteq> [] \<and> list_all is_digit ds then Some (signed neg (decimal_value ds)) else None))"

definition parse_number :: "bool \<Rightarrow> string \<Rightarrow> decimal option" where
  "parse_number neg s =
     (let whole = takeWhile is_digit s; rest = dropWhile is_digit s;
          fraction = (if rest \<noteq> [] \<and> hd rest = CHR ''.'' then takeWhile is_digit (tl rest) else []);
          rest' = (if rest \<noteq> [] \<and> hd rest = CHR ''.'' then dropWhile is_digit (tl rest) else rest)
      in if whole @ fraction = [] then None
         else map_option (\<lambda>x. Dec neg (decimal_value (whole @ fraction)) (x - int (length fraction)))
           (parse_exponent rest'))"

definition parse_decimal :: "string \<Rightarrow> decimal option" where
  "parse_decimal text =
     (case split_sign (filter (\<lambda>c. c \<noteq> CHR ''_'') (strip text)) of (neg, s) \<Rightarrow>
        let l = map lower_char s in
        if l \<in> {''inf'', ''infinity''} then Some (DInf neg)
        else if take 3 l = ''nan'' \<and> list_all is_digit (drop 3 l) then Some (DNaN False)
        else if take 4 l = ''snan'' \<and> list_all is_digit (drop 4 l) then Some (DNaN True)
        else parse_number neg s)"

definition to_decimal :: "pyvalue \<Rightarrow> decimal option" where
  "to_decimal v = parse_decimal (py_str v)"

section \<open>Arithmetic in a context\<close>

definition prec :: int where "prec = 28"
definition emax :: int where "emax = 999999"
definition etiny :: "int \<Rightarrow> int" where "etiny p = - 999999 - (p - 1)"

function ndigits :: "int \<Rightarrow> int" where
  "ndigits n = (if n \<le> 0 then 0 else 1 + ndigits (n div 10))"
  by pat_completeness auto
termination by (relation "measure nat") auto

declare ndigits.simps [simp del]

text \<open>\<open>ratio_at x n d\<close> is the ratio \<open>n / d\<close> measured in units of \<open>10^x\<close>.\<close>

definition ratio_at :: "int \<Rightarrow> int \<Rightarrow> int \<Rightarrow> int \<times> int" where
  "ratio_at x n d = (if 0 \<le> x then (n, d * 10 ^ nat x) else (n * 10 ^ nat (- x), d))"

definition adjusted :: "int \<Rightarrow> int \<Rightarrow> int" where
  "adjusted n d = (let k = ndigits n - ndigits d in
     case ratio_at k n d of (a, b) \<Rightarrow> if b \<le> a then k else k - 1)"

definition half_even :: "int \<Rightarrow> int \<Rightarrow> int" where
  "half_even n d = (let k = n div d; r = 2 * (n mod d)
     in if r < d \<or> (r = d \<and> even k) then k else k + 1)"

function strip_zeros :: "int \<Rightarrow> int \<Rightarrow> int \<Rightarrow> int \<times> int" where
  "strip_zeros c x ideal = (if x < ideal \<and> c \<noteq> 0 \<and> c mod 10 = 0
     then strip_zeros (c div 10) (x + 1) ideal else (c, x))"
  by pat_completeness auto
termination by (relation "measure (\<lambda>(c, x, ideal). nat (ideal - x))") auto

declare strip_zeros.simps [simp del]

definition carried :: "int \<Rightarrow> int \<Rightarrow> int \<Rightarrow> int \<times> int" where
  "carried p c x = (if c = 10 ^ nat p then (10 ^ nat (p - 1), x + 1) else (c, x))"

definition finish :: "int \<Rightarrow> bool \<Rightarrow> int \<Rightarrow> int \<Rightarrow> int \<Rightarrow> decimal_signal + decimal" where
  "finish p s ideal n d =
     (if n = 0 then Inr (Dec s 0 (max (etiny p) (min emax ideal)))
      else (let x = max (adjusted n d - (p - 1)) (etiny p) in
        case ratio_at x n d of (a, b) \<Rightarrow>
          let c = half_even a b in
          case (if a mod b = 0 then strip_zeros c x ideal else carried p c x) of (c', x') \<Rightarrow>
            if emax < x' + ndigits c' - 1 then Inl DecimalOverflow else Inr (Dec s c' x')))"

text \<open>Operands at a common exponent, as the integers that the comparison and the subtraction use.\<close>

definition scaled :: "bool \<Rightarrow> int \<Rightarrow> int \<Rightarrow> int" where
  "scaled s c k = signed s (c * 10 ^ nat k)"

fun dec_cmp :: "(int \<Rightarrow> int \<Rightarrow> bool) \<Rightarrow> decimal \<Rightarrow> decimal \<Rightarrow> bool" where
  "dec_cmp r (Dec s c x) (Dec t e y) = r (scaled s c (x - min x y)) (scaled t e (y - min x y))"
| "dec_cmp r (DInf s) (DInf t) = r (signed s 1) (signed t 1)"
| "dec_cmp r (DInf s) (Dec t e y) = r (signed s 1) 0"
| "dec_cmp r (Dec t e y) (DInf s) = r 0 (signed s 1)"
| "dec_cmp r _ _ = False"

text \<open>Ordering a NaN signals; equality only signals for a signalling NaN, which never arises here.\<close>

definition dec_le_zero :: "decimal \<Rightarrow> decimal_signal + bool" where
  "dec_le_zero d = (case d of DNaN q \<Rightarrow> Inl InvalidOperation
     | _ \<Rightarrow> Inr (dec_cmp (\<le>) d (Dec False 0 0)))"

fun dec_sub :: "int \<Rightarrow> decimal \<Rightarrow> decimal \<Rightarrow> decimal_signal + decimal" where
  "dec_sub p (Dec s c x) (Dec t e y) =
     (let ideal = min x y; n = scaled s c (x - ideal) - scaled t e (y - ideal)
      in case ratio_at (- ideal) \<bar>n\<bar> 1 of (a, b) \<Rightarrow>
        finish p (if n = 0 then s \<and> \<not> t else n < 0) ideal a b)"
| "dec_sub p (DNaN q) d = (if q \<or> d = DNaN True then Inl InvalidOperation else Inr (DNaN False))"
| "dec_sub p d (DNaN q) = (if q then Inl InvalidOperation else Inr (DNaN False))"
| "dec_sub p (DInf s) (DInf t) = (if s = t then Inl InvalidOperation else Inr (DInf s))"
| "dec_sub p (DInf s) (Dec t e y) = Inr (DInf s)"
| "dec_sub p (Dec s c x) (DInf t) = Inr (DInf (\<not> t))"

fun dec_minus :: "decimal \<Rightarrow> decimal" where
  "dec_minus (Dec s c x) = Dec (\<not> s) c x"
| "dec_minus (DInf s) = DInf (\<not> s)"
| "dec_minus (DNaN q) = DNaN q"

text \<open>The sum is the difference with the negated second operand, signs of zeros included.\<close>

definition dec_add :: "int \<Rightarrow> decimal \<Rightarrow> decimal \<Rightarrow> decimal_signal + decimal" where
  "dec_add p a b = dec_sub p a (dec_minus b)"

fun dec_mul :: "int \<Rightarrow> decimal \<Rightarrow> decimal \<Rightarrow> decimal_signal + decimal" where
  "dec_mul p (Dec s c x) (Dec t e y) =
     (case ratio_at (- (x + y)) (c * e) 1 of (a, b) \<Rightarrow> finish p (s \<noteq> t) (x + y) a b)"
| "dec_mul p (DNaN q) d = (if q \<or> d = DNaN True then Inl InvalidOperation else Inr (DNaN False))"
| "dec_mul p d (DNaN q) = (if q then Inl InvalidOperation else Inr (DNaN False))"
| "dec_mul p (DInf s) (DInf t) = Inr (DInf (s \<noteq> t))"
| "dec_mul p (DInf s) (Dec t e y) = (if e = 0 then Inl InvalidOperation else Inr (DInf (s \<noteq> t)))"
| "dec_mul p (Dec s c x) (DInf t) = (if c = 0 then Inl InvalidOperation else Inr (DInf (s \<noteq> t)))"

fun dec_div :: "int \<Rightarrow> decimal \<Rightarrow> decimal \<Rightarrow> decimal_signal + decimal" where
  "dec_div p (Dec s c x) (Dec t e y) =
     (if e = 0 then (if c = 0 then Inl InvalidOperation else Inl DivisionByZero)
      else case ratio_at (y - x) c e of (a, b) \<Rightarrow> finish p (s \<noteq> t) (x - y) a b)"
| "dec_div p (DNaN q) d = (if q \<or> d = DNaN True then Inl InvalidOperation else Inr (DNaN False))"
| "dec_div p d (DNaN q) = (if q then Inl InvalidOperation else Inr (DNaN False))"
| "dec_div p (DInf s) (DInf t) = Inl InvalidOperation"
| "dec_div p (DInf s) (Dec t e y) = Inr (DInf (s \<noteq> t))"
| "dec_div p (Dec s c x) (DInf t) = Inr (Dec (s \<noteq> t) 0 (etiny p))"

definition dec_of_int :: "int \<Rightarrow> decimal" where
  "dec_of_int i = Dec (i < 0) \<bar>i\<bar> 0"

text \<open>\<open>int(d)\<close> truncates; it raises for the special values.\<close>

fun dec_int :: "decimal \<Rightarrow> int option" where
  "dec_int (Dec s c x) = Some (signed s (if 0 \<le> x then c * 10 ^ nat x else c div 10 ^ nat (- x)))"
| "dec_int d = None"

end
