(* ===== verification/DecimalFacts.thy ===== *)
theory DecimalFacts
  imports Decimals
begin

text \<open>
  Facts about decimals: the value of a finished result is \<open>rounded\<close> of the exact rational, rounding is
  exact on numbers of at most \<open>p\<close> digits and off by at most half a unit in the last digit otherwise,
  and the text of a number reads back as the number.
\<close>

section \<open>Magnitude\<close>

lemma ndigits_pos: "0 < n \<Longrightarrow> 1 \<le> ndigits n"
  and ndigits_nonneg: "0 \<le> ndigits n"
proof -
  show nn: "0 \<le> ndigits n" for n
    by (induction n rule: ndigits.induct) (simp add: ndigits.simps)
  show "0 < n \<Longrightarrow> 1 \<le> ndigits n" using nn [of "n div 10"] by (simp add: ndigits.simps [of n])
qed

lemma ndigits_bounds:
  "0 < n \<Longrightarrow> 10 ^ nat (ndigits n - 1) \<le> n \<and> n < 10 ^ nat (ndigits n)"
proof (induction n rule: ndigits.induct)
  case (1 n)
  show ?case
  proof (cases "n < 10")
    case True
    with 1 have "ndigits n = 1" by (simp add: ndigits.simps [of n] ndigits.simps [of 0])
    with True 1 show ?thesis by simp
  next
    case False
    then have IH: "10 ^ nat (ndigits (n div 10) - 1) \<le> n div 10" "n div 10 < 10 ^ nat (ndigits (n div 10))"
      and pos: "1 \<le> ndigits (n div 10)"
      using 1 ndigits_pos [of "n div 10"] by auto
    define k where "k = nat (ndigits (n div 10) - 1)"
    have k: "nat (ndigits (n div 10)) = Suc k" "nat (ndigits n - 1) = Suc k" "nat (ndigits n) = Suc (Suc k)"
      using pos False 1 by (simp_all add: k_def ndigits.simps [of n] nat_add_distrib)
    from IH show ?thesis by (simp add: k k_def [symmetric]) linarith
  qed
qed

lemma ratio_at_value:
  assumes "ratio_at x n d = (a, b)" and "0 < d"
  shows "0 < b \<and> of_int a / of_int b = (of_int n / of_int d) / (10 powi x :: rat)
    \<and> (0 \<le> n \<longrightarrow> 0 \<le> a) \<and> (a = 0 \<longleftrightarrow> n = 0)"
  using assms
  by (auto simp: ratio_at_def power_int_def field_simps split: if_splits)

lemma powi_split: "(10 :: rat) powi (x + y) = 10 powi x * 10 powi y"
  by (simp add: power_int_add)

lemma powi_pos [simp]: "0 < (10 :: rat) powi x"
  by simp

lemma powi_nat: "0 \<le> x \<Longrightarrow> (10 :: rat) powi x = of_int (10 ^ nat x)"
  by (simp add: power_int_def)

lemma powi_less_iff: "(10 :: rat) powi x < 10 powi y \<longleftrightarrow> x < y"
  using power_int_strict_increasing [of x y "10 :: rat"] power_int_increasing [of y x "10 :: rat"]
  by (cases "x < y") simp_all

lemma ndigits_rat:
  assumes "0 < n"
  shows "10 powi (ndigits n - 1) \<le> (of_int n :: rat)" "(of_int n :: rat) < 10 powi ndigits n"
proof -
  have p: "0 \<le> ndigits n - 1" using ndigits_pos [OF assms] by simp
  have "of_int (10 ^ nat (ndigits n - 1)) \<le> (of_int n :: rat)"
    using ndigits_bounds [OF assms] by (simp only: of_int_le_iff)
  then show "10 powi (ndigits n - 1) \<le> (of_int n :: rat)" using powi_nat [OF p] by simp
  have "(of_int n :: rat) < of_int (10 ^ nat (ndigits n))"
    using ndigits_bounds [OF assms] by (simp only: of_int_less_iff)
  then show "(of_int n :: rat) < 10 powi ndigits n" using powi_nat [OF ndigits_nonneg] by simp
qed

text \<open>\<open>magnitude q k\<close>: the leading digit of \<open>q\<close> stands at \<open>10^k\<close>.\<close>

definition magnitude :: "rat \<Rightarrow> int \<Rightarrow> bool" where
  "magnitude q k \<longleftrightarrow> 10 powi k \<le> q \<and> q < 10 powi (k + 1)"

lemma magnitude_unique: "magnitude q j \<Longrightarrow> magnitude q k \<Longrightarrow> j = k"
proof -
  have "j \<le> k" if "magnitude q j" "magnitude q k" for j k
  proof -
    have "(10 :: rat) powi j < 10 powi (k + 1)"
      using that unfolding magnitude_def by linarith
    then show ?thesis by (simp add: powi_less_iff)
  qed
  then show "magnitude q j \<Longrightarrow> magnitude q k \<Longrightarrow> j = k" by (simp add: antisym)
qed

lemma adjusted_magnitude:
  assumes "0 < n" and "0 < d"
  shows "magnitude (of_int n / of_int d) (adjusted n d)"
proof -
  define q :: rat where "q = of_int n / of_int d"
  define k where "k = ndigits n - ndigits d"
  obtain a b where ab: "ratio_at k n d = (a, b)" by fastforce
  from ratio_at_value [OF ab assms(2)] have b: "0 < b" and v: "of_int a / of_int b = q / 10 powi k"
    by (simp_all add: q_def)
  have d0: "0 < (of_int d :: rat)" using assms by simp
  note n = ndigits_rat [OF assms(1)] and d = ndigits_rat [OF assms(2)]
  have upper: "q < 10 powi (k + 1)"
  proof -
    have "q * of_int d < 10 powi ndigits n" using n d0 by (simp add: q_def)
    also have "\<dots> = 10 powi (k + 1) * 10 powi (ndigits d - 1)"
      by (simp add: powi_split [symmetric] k_def)
    also have "\<dots> \<le> 10 powi (k + 1) * of_int d" by (rule mult_left_mono [OF d(1)]) simp
    finally show ?thesis using d0 by simp
  qed
  have lower: "10 powi (k - 1) \<le> q"
  proof -
    have "10 powi (k - 1) * of_int d \<le> 10 powi (k - 1) * (10 powi ndigits d :: rat)"
      using d(2) by (intro mult_left_mono) simp_all
    also have "\<dots> = 10 powi (ndigits n - 1)" by (simp add: powi_split [symmetric] k_def)
    also have "\<dots> \<le> q * of_int d" using n d0 by (simp add: q_def)
    finally show ?thesis using d0 by simp
  qed
  have split: "b \<le> a \<longleftrightarrow> 10 powi k \<le> q"
  proof -
    have "b \<le> a \<longleftrightarrow> (1 :: rat) \<le> of_int a / of_int b" using b by (simp add: le_divide_eq)
    also have "\<dots> \<longleftrightarrow> 10 powi k \<le> q" by (simp add: v le_divide_eq)
    finally show ?thesis .
  qed
  show ?thesis
    using upper lower split by (auto simp: adjusted_def k_def [symmetric] ab magnitude_def q_def [symmetric])
qed

section \<open>Rounding\<close>

definition rat_half_even :: "rat \<Rightarrow> int" where
  "rat_half_even q = (let f = \<lfloor>q\<rfloor>; r = q - of_int f
     in if r < 1 / 2 \<or> (r = 1 / 2 \<and> even f) then f else f + 1)"

lemma half_even_rat:
  assumes "0 < d"
  shows "half_even n d = rat_half_even (of_int n / of_int d)"
proof -
  have f: "\<lfloor>of_int n / of_int d :: rat\<rfloor> = n div d" by (rule floor_divide_of_int_eq)
  have "(of_int n :: rat) = of_int (n div d) * of_int d + of_int (n mod d)"
    by (simp only: of_int_mult [symmetric] of_int_add [symmetric] div_mult_mod_eq)
  then have r: "of_int n / of_int d - of_int (n div d) = (of_int (n mod d) / of_int d :: rat)"
    using assms by (simp add: field_simps)
  have half: "(of_int (n mod d) / of_int d < (1 / 2 :: rat)) = (2 * (n mod d) < d)"
    "(of_int (n mod d) / of_int d = (1 / 2 :: rat)) = (2 * (n mod d) = d)"
  proof -
    have "(of_int (n mod d) / of_int d < (1 / 2 :: rat)) = ((of_int (2 * (n mod d)) :: rat) < of_int d)"
      using assms by (simp add: field_simps)
    then show "(of_int (n mod d) / of_int d < (1 / 2 :: rat)) = (2 * (n mod d) < d)"
      by (simp only: of_int_less_iff)
    have "(of_int (n mod d) / of_int d = (1 / 2 :: rat)) = ((of_int (2 * (n mod d)) :: rat) = of_int d)"
      using assms by (auto simp add: field_simps)
    then show "(of_int (n mod d) / of_int d = (1 / 2 :: rat)) = (2 * (n mod d) = d)"
      by (simp only: of_int_eq_iff)
  qed
  show ?thesis
    unfolding half_even_def rat_half_even_def Let_def f r half ..
qed

lemma rat_half_even_error: "\<bar>of_int (rat_half_even q) - q\<bar> \<le> 1 / 2"
proof -
  have "of_int \<lfloor>q\<rfloor> \<le> q" "q < of_int \<lfloor>q\<rfloor> + 1" by linarith+
  then show ?thesis by (simp add: rat_half_even_def Let_def abs_le_iff; linarith)
qed

lemma rat_half_even_int [simp]: "rat_half_even (of_int n) = n"
  by (simp add: rat_half_even_def)

text \<open>Rounding a non-negative rational to \<open>p\<close> digits, not below the smallest exponent.\<close>

definition round_exp :: "int \<Rightarrow> rat \<Rightarrow> int" where
  "round_exp p q = (case quotient_of q of (n, d) \<Rightarrow> max (adjusted n d - (p - 1)) (etiny p))"

definition rounded :: "int \<Rightarrow> rat \<Rightarrow> rat" where
  "rounded p q = (if q = 0 then 0
     else of_int (rat_half_even (q / 10 powi round_exp p q)) * 10 powi round_exp p q)"

lemma round_exp_of:
  assumes "0 < n" and "0 < d"
  shows "round_exp p (of_int n / of_int d) = max (adjusted n d - (p - 1)) (etiny p)"
proof -
  let ?q = "of_int n / of_int d :: rat"
  obtain m e where me: "quotient_of ?q = (m, e)" by fastforce
  have e: "0 < e" using quotient_of_denom_pos [OF me] .
  have q: "?q = of_int m / of_int e" using quotient_of_div [OF me] .
  have "0 < ?q" using assms by simp
  then have "0 < m" using q e by (simp add: zero_less_divide_iff)
  from adjusted_magnitude [OF this e] adjusted_magnitude [OF assms]
  have "adjusted m e = adjusted n d" using q magnitude_unique by metis
  then show ?thesis by (simp add: round_exp_def me)
qed

lemma rounded_exact:
  assumes "0 < p" and "0 \<le> m" and "m < 10 ^ nat p" and "etiny p \<le> y"
  shows "rounded p (of_int m * 10 powi y) = of_int m * 10 powi y"
proof (cases "m = 0")
  case True
  then show ?thesis by (simp add: rounded_def)
next
  case False
  let ?q = "of_int m * 10 powi y :: rat"
  define x where "x = round_exp p ?q"
  obtain n d where nd: "quotient_of ?q = (n, d)" by fastforce
  have d: "0 < d" and q: "?q = of_int n / of_int d"
    using quotient_of_denom_pos [OF nd] quotient_of_div [OF nd] by auto
  have "0 < ?q" using False assms(2) by simp
  with q d have n: "0 < n" by (simp add: zero_less_divide_iff)
  have "magnitude ?q (adjusted n d)" using adjusted_magnitude [OF n d] by (simp add: q)
  then have low: "10 powi adjusted n d \<le> ?q" by (simp add: magnitude_def)
  have "(of_int m :: rat) < of_int (10 ^ nat p)" using assms(3) by (simp only: of_int_less_iff)
  then have "(of_int m :: rat) < 10 powi p" using powi_nat [of p] assms(1) by simp
  then have "?q < 10 powi p * 10 powi y" by simp
  with low have "(10 :: rat) powi adjusted n d < 10 powi (p + y)"
    unfolding powi_split by linarith
  then have "adjusted n d < p + y" by (simp add: powi_less_iff)
  then have xy: "x \<le> y" using assms(4) by (simp add: x_def round_exp_def nd)
  have "?q / 10 powi x = of_int (m * 10 ^ nat (y - x))"
  proof -
    have "?q / 10 powi x = of_int m * 10 powi (y - x)" by (simp add: power_int_diff)
    then show ?thesis using xy powi_nat [of "y - x"] by simp
  qed
  then have "rat_half_even (?q / 10 powi x) = m * 10 ^ nat (y - x)" by (simp only: rat_half_even_int)
  then have "of_int (rat_half_even (?q / 10 powi x)) * 10 powi x
      = of_int m * (10 powi (y - x) * (10 powi x :: rat))"
    using xy powi_nat [of "y - x"] by (simp add: mult.assoc)
  then have "of_int (rat_half_even (?q / 10 powi x)) * 10 powi x = ?q"
    by (simp add: powi_split [symmetric])
  then show ?thesis using False by (simp add: rounded_def x_def)
qed

lemma rounded_error:
  assumes "magnitude q k" and "etiny p \<le> k - (p - 1)"
  shows "\<bar>rounded p q - q\<bar> \<le> q / 10 powi (p - 1) / 2"
proof -
  have q: "0 < q" using assms(1) powi_pos [of k] unfolding magnitude_def by linarith
  obtain n d where nd: "quotient_of q = (n, d)" by fastforce
  have d: "0 < d" and qv: "q = of_int n / of_int d"
    using quotient_of_denom_pos [OF nd] quotient_of_div [OF nd] by auto
  with q have n: "0 < n" by (simp add: zero_less_divide_iff)
  have "adjusted n d = k"
    using adjusted_magnitude [OF n d] assms(1) magnitude_unique by (simp add: qv [symmetric])
  then have x: "round_exp p q = k - (p - 1)" using assms(2) by (simp add: round_exp_def nd)
  define u :: rat where "u = 10 powi (k - (p - 1))"
  have u: "0 < u" by (simp add: u_def)
  have "rounded p q - q = (of_int (rat_half_even (q / u)) - q / u) * u"
    using u q by (simp add: rounded_def x u_def [symmetric] left_diff_distrib)
  then have "\<bar>rounded p q - q\<bar> = \<bar>of_int (rat_half_even (q / u)) - q / u\<bar> * u"
    using u by (simp add: abs_mult)
  also have "\<dots> \<le> 1 / 2 * u" by (rule mult_right_mono [OF rat_half_even_error]) (use u in simp)
  also have "u * 10 powi (p - 1) \<le> q"
    using assms(1) by (simp add: u_def magnitude_def powi_split [symmetric])
  then have "1 / 2 * u \<le> q / 10 powi (p - 1) / 2" by (simp add: le_divide_eq)
  finally show ?thesis .
qed

section \<open>Results\<close>

lemma strip_zeros_value:
  "strip_zeros c x ideal = (c', x') \<Longrightarrow> 0 \<le> c
    \<Longrightarrow> 0 \<le> c' \<and> (of_int c' * 10 powi x' :: rat) = of_int c * 10 powi x"
proof (induction c x ideal rule: strip_zeros.induct)
  case (1 c x ideal)
  show ?case
  proof (cases "x < ideal \<and> c \<noteq> 0 \<and> c mod 10 = 0")
    case True
    with 1 have IH: "0 \<le> c' \<and> (of_int c' * 10 powi x' :: rat) = of_int (c div 10) * 10 powi (x + 1)"
      by (simp add: strip_zeros.simps [of c])
    have "c = c div 10 * 10" using True by presburger
    then have "(of_int c :: rat) = of_int (c div 10) * 10" by (metis of_int_mult of_int_numeral)
    with IH show ?thesis by (simp add: powi_split)
  next
    case False
    with 1 show ?thesis by (simp add: strip_zeros.simps [of c] split: if_splits)
  qed
qed

lemma carried_value:
  assumes "0 < p" and "carried p c x = (c', x')" and "0 \<le> c"
  shows "0 \<le> c' \<and> (of_int c' * 10 powi x' :: rat) = of_int c * 10 powi x"
proof (cases "c = 10 ^ nat p")
  case True
  have "nat p = Suc (nat (p - 1))" using assms(1) by simp
  then have "(10 :: int) ^ nat p = 10 * 10 ^ nat (p - 1)" by simp
  with True assms show ?thesis by (auto simp: carried_def powi_split)
next
  case False
  with assms show ?thesis by (simp add: carried_def)
qed

lemma finish_result:
  assumes "0 \<le> n" and "0 < d" and "0 < p"
  shows "\<exists>c x. 0 \<le> c \<and> of_int c * 10 powi x = rounded p (of_int n / of_int d)
    \<and> finish p s ideal n d =
      (if n \<noteq> 0 \<and> emax < x + ndigits c - 1 then Inl DecimalOverflow else Inr (Dec s c x))"
proof (cases "n = 0")
  case True
  then show ?thesis
    by (intro exI [of _ 0] exI [of _ "max (etiny p) (min emax ideal)"]) (simp add: finish_def rounded_def)
next
  case False
  with assms have n: "0 < n" by simp
  define x where "x = max (adjusted n d - (p - 1)) (etiny p)"
  obtain a b where ab: "ratio_at x n d = (a, b)" by fastforce
  note v = ratio_at_value [OF ab assms(2)]
  have b: "0 < b" and a: "0 \<le> a" using v n by auto
  obtain c x' where cx: "(if a mod b = 0 then strip_zeros (half_even a b) x ideal
      else carried p (half_even a b) x) = (c, x')" by fastforce
  have h0: "0 \<le> half_even a b" using a b by (simp add: half_even_def Let_def pos_imp_zdiv_nonneg_iff)
  from cx h0 have c: "0 \<le> c" "(of_int c * 10 powi x' :: rat) = of_int (half_even a b) * 10 powi x"
    by (auto split: if_splits dest: strip_zeros_value carried_value [OF assms(3)])
  have "finish p s ideal n d = (if emax < x' + ndigits c - 1 then Inl DecimalOverflow else Inr (Dec s c x'))"
    using False by (simp add: finish_def Let_def x_def [symmetric] ab cx)
  moreover have "of_int c * 10 powi x' = rounded p (of_int n / of_int d)"
    using n assms(2) v by (simp add: c rounded_def round_exp_of [OF n assms(2)] x_def [symmetric] half_even_rat [OF b])
  ultimately show ?thesis using c(1) False by auto
qed

theorem finish_value:
  assumes "finish p s ideal n d = Inr r" and "0 \<le> n" and "0 < d" and "0 < p"
  shows "\<exists>c x. r = Dec s c x \<and> 0 \<le> c \<and> of_int c * 10 powi x = rounded p (of_int n / of_int d)"
  using finish_result [OF assms(2-4), of s ideal] assms(1) by (auto split: if_splits)

text \<open>A result overflows only when the rounded number does.\<close>

lemma finish_ok:
  assumes "0 \<le> n" and "0 < d" and "0 < p" and "rounded p (of_int n / of_int d) < 10 powi (emax + 1)"
    and "n = 0 \<or> 0 < rounded p (of_int n / of_int d)"
  shows "\<exists>r. finish p s ideal n d = Inr r"
proof -
  obtain c x where c: "0 \<le> c" "of_int c * 10 powi x = rounded p (of_int n / of_int d)"
    and f: "finish p s ideal n d =
      (if n \<noteq> 0 \<and> emax < x + ndigits c - 1 then Inl DecimalOverflow else Inr (Dec s c x))"
    using finish_result [OF assms(1-3)] by blast
  have "x + ndigits c - 1 < emax + 1" if "0 < c"
  proof -
    have "10 powi (x + (ndigits c - 1)) \<le> (10 powi x * of_int c :: rat)"
      unfolding powi_split by (rule mult_left_mono [OF ndigits_rat(1) [OF that]]) simp
    with c(2) assms(4) have "(10 :: rat) powi (x + (ndigits c - 1)) < 10 powi (emax + 1)"
      by (simp add: mult.commute)
    then show ?thesis by (simp add: powi_less_iff)
  qed
  moreover have "n = 0 \<or> c \<noteq> 0" using assms(5) c(2) by auto
  ultimately show ?thesis using f c(1) by auto
qed

section \<open>Operations\<close>

definition dec_round :: "int \<Rightarrow> rat \<Rightarrow> rat" where
  "dec_round p q = (if q < 0 then - rounded p (- q) else rounded p q)"

lemma rounded_0 [simp]: "rounded p 0 = 0"
  by (simp add: rounded_def)

lemma dec_round_signed: "0 \<le> q \<Longrightarrow> dec_round p (signed s q) = signed s (rounded p q)"
  by (cases "q = 0") (auto simp: dec_round_def signed_def)

lemma scaled_rat: "k \<le> x \<Longrightarrow> of_int (scaled s c (x - k)) * 10 powi k = dec_rat (Dec s c x)"
proof -
  assume "k \<le> x"
  then have "of_int (10 ^ nat (x - k)) * (10 :: rat) powi k = 10 powi x"
    using powi_nat [of "x - k"] powi_split [of "x - k" k] by simp
  then show ?thesis by (cases s) (simp_all add: scaled_def signed_def mult.assoc)
qed

lemma ratio_unit:
  assumes "ratio_at (- x) n d = (a, b)" and "0 < d" and "0 \<le> n"
  shows "0 \<le> a" "0 < b" "of_int a / of_int b = of_int n / of_int d * (10 :: rat) powi x"
  using ratio_at_value [OF assms(1,2)] assms(3) by (simp_all add: power_int_minus field_simps)

lemma dec_cmp_rat:
  assumes "\<And>i j (u :: rat). 0 < u \<Longrightarrow> r i j = R (of_int i * u) (of_int j * u)"
  shows "dec_cmp r (Dec s c x) (Dec t e y) = R (dec_rat (Dec s c x)) (dec_rat (Dec t e y))"
proof -
  let ?k = "min x y"
  have "dec_rat (Dec s c x) = of_int (scaled s c (x - ?k)) * 10 powi ?k"
    "dec_rat (Dec t e y) = of_int (scaled t e (y - ?k)) * 10 powi ?k"
    by (simp_all only: scaled_rat min.cobounded1 min.cobounded2)
  then show ?thesis using assms [of "10 powi ?k"] by simp
qed

declare dec_cmp.simps(1) [simp del]

lemma dec_cmp_eq [simp]:
  "dec_cmp (=) (Dec s c x) (Dec t e y) \<longleftrightarrow> dec_rat (Dec s c x) = dec_rat (Dec t e y)"
  by (rule dec_cmp_rat) simp

lemma dec_cmp_le [simp]:
  "dec_cmp (\<le>) (Dec s c x) (Dec t e y) \<longleftrightarrow> dec_rat (Dec s c x) \<le> dec_rat (Dec t e y)"
  by (rule dec_cmp_rat) simp

lemma dec_cmp_less [simp]:
  "dec_cmp (<) (Dec s c x) (Dec t e y) \<longleftrightarrow> dec_rat (Dec s c x) < dec_rat (Dec t e y)"
  by (rule dec_cmp_rat) simp

lemma finite_cases:
  assumes "is_finite d"
  obtains s c x where "d = Dec s c x"
  using assms by (cases d) auto

lemma dec_div_value:
  assumes p: "0 < p" and "dec_div p a b = Inr r" and "is_finite a" "is_finite b" "decimal_wf a" "decimal_wf b"
  shows "is_finite r \<and> decimal_wf r \<and> dec_rat b \<noteq> 0 \<and> dec_rat r = dec_round p (dec_rat a / dec_rat b)"
proof -
  obtain s c x t e y where ab: "a = Dec s c x" "b = Dec t e y"
    using assms(3,4) by (metis finite_cases)
  then have e: "0 < e" and c: "0 \<le> c" using assms by (auto split: if_splits)
  obtain n d where nd: "ratio_at (- (x - y)) c e = (n, d)" by fastforce
  note v = ratio_unit [OF nd e c]
  have "finish p (s \<noteq> t) (x - y) n d = Inr r" using assms(2) e nd by (simp add: ab)
  from finish_value [OF this v(1,2) p]
  obtain c' x' where r: "r = Dec (s \<noteq> t) c' x'" "0 \<le> c'"
    "of_int c' * 10 powi x' = rounded p (of_int c / of_int e * 10 powi (x - y))" by (auto simp: v)
  have nn: "0 \<le> of_int c / of_int e * (10 :: rat) powi (x - y)" using c e by simp
  have "dec_rat a / dec_rat b = signed (s \<noteq> t) (of_int c / of_int e * 10 powi (x - y))"
    by (simp add: ab signed_def power_int_diff)
  with r dec_round_signed [OF nn, of p "s \<noteq> t"] e show ?thesis
    by (auto simp: ab signed_def)
qed

lemma dec_mul_value:
  assumes p: "0 < p" and "dec_mul p a b = Inr r" and "is_finite a" "is_finite b" "decimal_wf a" "decimal_wf b"
  shows "is_finite r \<and> decimal_wf r \<and> dec_rat r = dec_round p (dec_rat a * dec_rat b)"
proof -
  obtain s c x t e y where ab: "a = Dec s c x" "b = Dec t e y"
    using assms(3,4) by (metis finite_cases)
  then have ce: "0 \<le> c * e" using assms by simp
  obtain n d where nd: "ratio_at (- (x + y)) (c * e) 1 = (n, d)" by fastforce
  note v = ratio_unit [OF nd _ ce, simplified]
  have "finish p (s \<noteq> t) (x + y) n d = Inr r" using assms(2) nd by (simp add: ab)
  from finish_value [OF this v(1,2) p]
  obtain c' x' where r: "r = Dec (s \<noteq> t) c' x'" "0 \<le> c'"
    "of_int c' * 10 powi x' = rounded p (of_int c * of_int e * 10 powi (x + y))" by (auto simp: v)
  have nn: "0 \<le> of_int c * of_int e * (10 :: rat) powi (x + y)"
    using ce by (simp add: of_int_mult [symmetric] del: of_int_mult)
  have "dec_rat a * dec_rat b = signed (s \<noteq> t) (of_int c * of_int e * 10 powi (x + y))"
    by (simp add: ab signed_def power_int_add)
  with r dec_round_signed [OF nn, of p "s \<noteq> t"] show ?thesis
    by (auto simp: signed_def)
qed

lemma dec_sub_value:
  assumes p: "0 < p" and "dec_sub p a b = Inr r" and "is_finite a" "is_finite b"
  shows "is_finite r \<and> decimal_wf r \<and> dec_rat r = dec_round p (dec_rat a - dec_rat b)"
proof -
  obtain s c x t e y where ab: "a = Dec s c x" "b = Dec t e y"
    using assms(3,4) by (metis finite_cases)
  let ?k = "min x y"
  define m where "m = scaled s c (x - ?k) - scaled t e (y - ?k)"
  have m: "dec_rat a - dec_rat b = of_int m * 10 powi ?k"
    using scaled_rat [of ?k x s c] scaled_rat [of ?k y t e] by (simp add: ab m_def left_diff_distrib)
  obtain n d where nd: "ratio_at (- ?k) \<bar>m\<bar> 1 = (n, d)" by fastforce
  note v = ratio_unit [OF nd, simplified]
  let ?s = "if m = 0 then s \<and> \<not> t else m < 0"
  have "finish p ?s ?k n d = Inr r"
    using assms(2) nd by (simp add: ab m_def Let_def split: prod.splits if_splits)
  from finish_value [OF this v(1,2) p]
  obtain c' x' where r: "r = Dec ?s c' x'" "0 \<le> c'"
    "of_int c' * 10 powi x' = rounded p (of_int \<bar>m\<bar> * 10 powi ?k)" by (auto simp: v)
  have "of_int m * (10 :: rat) powi ?k = signed ?s (of_int \<bar>m\<bar> * 10 powi ?k)"
    by (simp add: signed_def)
  moreover have "0 \<le> of_int \<bar>m\<bar> * (10 :: rat) powi ?k" by simp
  ultimately have "dec_round p (of_int m * 10 powi ?k) = signed ?s (rounded p (of_int \<bar>m\<bar> * 10 powi ?k))"
    using dec_round_signed by metis
  moreover have "dec_rat r = signed ?s (rounded p (of_int \<bar>m\<bar> * 10 powi ?k))"
    unfolding r(1) dec_rat.simps r(3) [symmetric] by (simp add: signed_def)
  ultimately show ?thesis using r m by simp
qed

lemma dec_round_exact:
  assumes "0 < p" and "\<bar>m\<bar> < 10 ^ nat p" and "etiny p \<le> y"
  shows "dec_round p (of_int m * 10 powi y) = of_int m * 10 powi y"
proof (cases "m < 0")
  case True
  then have "of_int m * 10 powi y < (0 :: rat)" by (simp add: mult_less_0_iff)
  then show ?thesis using True rounded_exact [of p "- m" y] assms by (simp add: dec_round_def)
next
  case False
  then have "\<not> of_int m * 10 powi y < (0 :: rat)" by (simp add: not_less)
  then show ?thesis using False rounded_exact [of p m y] assms by (simp add: dec_round_def)
qed

lemma dec_of_int_simps [simp]:
  "is_finite (dec_of_int i)" "decimal_wf (dec_of_int i)" "dec_rat (dec_of_int i) = of_int i"
  by (simp_all add: dec_of_int_def signed_def)

lemma dec_int_exact:
  assumes "dec_rat d = of_int i" and "is_finite d" and "decimal_wf d"
  shows "dec_int d = Some i"
proof -
  obtain s c x where d: "d = Dec s c x" using assms(2) by (rule finite_cases)
  show ?thesis
  proof (cases "0 \<le> x")
    case True
    have "(of_int (signed s (c * 10 ^ nat x)) :: rat) = of_int i"
      using assms(1) powi_nat [OF True] by (cases s) (simp_all add: d signed_def)
    then have "signed s (c * 10 ^ nat x) = i" by (simp only: of_int_eq_iff)
    then show ?thesis using True by (simp add: d)
  next
    case False
    have "(of_int (signed s c) :: rat) = of_int (i * 10 ^ nat (- x))"
      using assms(1) False by (simp add: d signed_def power_int_def field_simps split: if_splits)
    then have "signed s c = i * 10 ^ nat (- x)" by (simp only: of_int_eq_iff)
    then have "c = signed s i * 10 ^ nat (- x)" by (auto simp: signed_def split: if_splits)
    then show ?thesis using False by (auto simp: d signed_def)
  qed
qed

end
