(* ===== verification/DecimalText.thy ===== *)
theory DecimalText
  imports DecimalFacts
begin

text \<open>
  The text of a decimal reads back as the same decimal, sign, coefficient and exponent included, so
  that a record that stores \<open>str(value)\<close> stores the value.
\<close>

section \<open>Digits\<close>

lemma takeWhile_digits:
  "list_all is_digit w \<Longrightarrow> rest = [] \<or> \<not> is_digit (hd rest)
    \<Longrightarrow> takeWhile is_digit (w @ rest) = w \<and> dropWhile is_digit (w @ rest) = rest"
  by (cases rest) (auto simp: list_all_iff takeWhile_append dropWhile_append)

lemma digits_zeros [simp]: "list_all is_digit (zeros n)"
  by (simp add: zeros_def list_all_iff is_digit_def)

lemma length_zeros: "length (zeros n) = nat n"
  by (simp add: zeros_def)

lemma zero_digit [simp]: "is_digit (CHR ''0'')"
  by (simp add: is_digit_def)

lemma decimal_value_Cons0 [simp]: "decimal_value (CHR ''0'' # ds) = decimal_value ds"
  by (simp add: decimal_value_def)

lemma decimal_value_zeros [simp]: "decimal_value (zeros n @ ds) = decimal_value ds"
proof -
  have "decimal_value (replicate k (CHR ''0'') @ ds) = decimal_value ds" for k
    by (induction k) simp_all
  then show ?thesis by (simp add: zeros_def)
qed

lemma not_digits [simp]: "\<not> is_digit (CHR ''.'')" "\<not> is_digit (CHR ''E'')" "\<not> is_digit (CHR ''e'')"
    "\<not> is_digit (CHR ''-'')" "\<not> is_digit (CHR ''+'')"
  by (simp_all add: is_digit_def)

lemma hd_digits: "list_all is_digit ds \<Longrightarrow> ds \<noteq> [] \<Longrightarrow> is_digit (hd ds)"
  by (cases ds) simp_all

lemma split_sign_digit: "s \<noteq> [] \<Longrightarrow> is_digit (hd s) \<Longrightarrow> split_sign s = (False, s)"
  by (cases s) (auto simp: split_sign_def)

section \<open>Numerals\<close>

definition exponent_tail :: "string \<Rightarrow> bool" where
  "exponent_tail t \<longleftrightarrow> t = [] \<or> hd t \<in> {CHR ''E'', CHR ''e''}"

lemma parse_number_whole:
  assumes "list_all is_digit w" and "w \<noteq> []" and "exponent_tail t"
  shows "parse_number neg (w @ t) = map_option (\<lambda>x. Dec neg (decimal_value w) x) (parse_exponent t)"
proof -
  have "takeWhile is_digit (w @ t) = w \<and> dropWhile is_digit (w @ t) = t"
    by (rule takeWhile_digits [OF assms(1)]) (use assms(3) in \<open>auto simp: exponent_tail_def\<close>)
  moreover have "\<not> (t \<noteq> [] \<and> hd t = CHR ''.'')" using assms(3) by (auto simp: exponent_tail_def)
  ultimately show ?thesis using assms(2) by (auto simp: parse_number_def Let_def)
qed

lemma parse_number_point:
  assumes "list_all is_digit w" and "list_all is_digit f" and "w @ f \<noteq> []" and "exponent_tail t"
  shows "parse_number neg (w @ CHR ''.'' # f @ t)
    = map_option (\<lambda>x. Dec neg (decimal_value (w @ f)) (x - int (length f))) (parse_exponent t)"
proof -
  have "takeWhile is_digit (w @ CHR ''.'' # f @ t) = w" "dropWhile is_digit (w @ CHR ''.'' # f @ t) = CHR ''.'' # f @ t"
    using takeWhile_digits [OF assms(1), of "CHR ''.'' # f @ t"] by simp_all
  moreover have "takeWhile is_digit (f @ t) = f" "dropWhile is_digit (f @ t) = t"
    using takeWhile_digits [OF assms(2), of t] assms(4) by (auto simp: exponent_tail_def)
  ultimately show ?thesis using assms(3) by (auto simp: parse_number_def Let_def)
qed

lemma parse_exponent_text:
  "parse_exponent (CHR ''E'' # (if e < 0 then int_text e else CHR ''+'' # int_text e)) = Some e"
  using decimal_digits
  by (auto simp: parse_exponent_def split_sign_def int_text_def signed_def)

definition num_char :: "char \<Rightarrow> bool" where
  "num_char c \<longleftrightarrow> is_digit c \<or> c \<in> {CHR ''.'', CHR ''E'', CHR ''e'', CHR ''+'', CHR ''-''}"

lemma num_char_plain:
  assumes "num_char c"
  shows "\<not> is_space c" "c \<noteq> CHR ''_''"
  using assms by (auto simp: num_char_def is_digit_def is_space_def Let_def)

lemma strip_plain:
  assumes "list_all (\<lambda>c. \<not> is_space c) s"
  shows "strip s = s"
proof -
  have "dropWhile is_space s = s" if "list_all (\<lambda>c. \<not> is_space c) s" for s
    using that by (cases s) simp_all
  then show ?thesis using assms by (simp add: strip_def list_all_rev)
qed

lemma lower_digit: "is_digit c \<Longrightarrow> lower_char c = c"
  by (auto simp: lower_char_def is_digit_def Let_def)

lemma parse_decimal_numeral:
  assumes "list_all num_char s" and "s \<noteq> []" and "is_digit (hd s)"
  shows "parse_decimal ((if neg then ''-'' else []) @ s) = parse_number neg s"
proof -
  let ?t = "(if neg then ''-'' else []) @ s"
  have nc: "list_all num_char ?t" using assms(1) by (simp add: num_char_def)
  then have "list_all (\<lambda>c. \<not> is_space c) ?t" by (auto simp: list_all_iff dest: num_char_plain)
  then have 1: "strip ?t = ?t" by (rule strip_plain)
  have 2: "filter (\<lambda>c. c \<noteq> CHR ''_'') ?t = ?t"
    using nc by (auto simp: filter_id_conv list_all_iff dest: num_char_plain)
  have 3: "split_sign ?t = (neg, s)"
    using split_sign_digit [OF assms(2,3)] by (cases neg) (simp_all add: split_sign_def)
  obtain c cs where s: "s = c # cs" and c: "is_digit c" using assms(2,3) by (cases s) auto
  have "c \<noteq> CHR ''i''" "c \<noteq> CHR ''n''" "c \<noteq> CHR ''s''" using c by (auto simp: is_digit_def)
  then show ?thesis
    unfolding parse_decimal_def 1 2 3 by (simp add: s lower_digit [OF c] numeral_eq_Suc)
qed

lemma digits_num_char: "list_all is_digit ds \<Longrightarrow> list_all num_char ds"
  by (simp add: list_all_iff num_char_def)

lemma int_text_num_char: "list_all num_char (int_text e)"
  using decimal_digits digits_num_char by (simp add: int_text_def num_char_def)

theorem parse_decimal_int_text: "parse_decimal (int_text i) = Some (dec_of_int i)"
proof -
  let ?ds = "decimal (nat \<bar>i\<bar>)"
  have "int_text i = (if i < 0 then ''-'' else []) @ ?ds" by (simp add: int_text_def)
  moreover have "parse_decimal ((if i < 0 then ''-'' else []) @ ?ds) = parse_number (i < 0) ?ds"
    by (rule parse_decimal_numeral)
      (simp_all add: digits_num_char decimal_digits hd_digits)
  moreover have "parse_number (i < 0) ?ds = Some (Dec (i < 0) \<bar>i\<bar> 0)"
    using parse_number_whole [OF decimal_digits, of "nat \<bar>i\<bar>" "[]" "i < 0"]
    by (simp add: exponent_tail_def parse_exponent_def)
  ultimately show ?thesis by (simp add: dec_of_int_def)
qed

section \<open>The text of a decimal\<close>

lemma take_digits: "list_all is_digit ds \<Longrightarrow> list_all is_digit (take n ds) \<and> list_all is_digit (drop n ds)"
  by (auto simp: list_all_iff dest: in_set_takeD in_set_dropD)

lemma dec_digits_reads:
  assumes "list_all is_digit ds" and "ds \<noteq> []"
  shows "parse_number neg (dec_digits ds x) = Some (Dec neg (decimal_value ds) x)
    \<and> list_all num_char (dec_digits ds x) \<and> dec_digits ds x \<noteq> [] \<and> is_digit (hd (dec_digits ds x))"
proof -
  define n where "n = int (length ds)"
  define left where "left = x + n"
  have n: "1 \<le> n" using assms(2) by (cases ds) (simp_all add: n_def)
  note tk = take_digits [OF assms(1)] and nc = digits_num_char [OF assms(1)]
  have hd: "is_digit (hd ds)" using hd_digits [OF assms] .
  have hd_take: "hd (take k ds) = hd ds" "take k ds \<noteq> []" if "0 < k" for k
    using that assms(2) by (cases ds; cases k; simp)+
  show ?thesis
  proof (cases "x \<le> 0 \<and> - 6 < left")
    case True
    consider "left \<le> 0" | "n \<le> left" "0 < left" | "0 < left" "left < n" by linarith
    then show ?thesis
    proof cases
      case 1
      then have t: "dec_digits ds x = ''0'' @ CHR ''.'' # (zeros (- left) @ ds) @ []"
        using True by (simp add: dec_digits_def Let_def left_def n_def)
      have "parse_number neg (dec_digits ds x) = Some (Dec neg (decimal_value ds) (- int (length (zeros (- left) @ ds))))"
        unfolding t by (subst parse_number_point) (simp_all add: assms exponent_tail_def parse_exponent_def)
      moreover have "int (length (zeros (- left) @ ds)) = - x"
        using 1 by (simp add: length_zeros n_def [symmetric]) (simp add: left_def)
      ultimately show ?thesis
        using nc digits_num_char [OF digits_zeros] by (simp add: t) (simp add: num_char_def)
    next
      case 2
      then have x: "x = 0" using True by (simp add: left_def)
      then have t: "dec_digits ds x = ds @ []"
        using assms(2) by (simp add: dec_digits_def Let_def zeros_def)
      have "parse_number neg (dec_digits ds x) = Some (Dec neg (decimal_value ds) x)"
        unfolding t using parse_number_whole [OF assms, of "[]" neg]
        by (simp add: exponent_tail_def parse_exponent_def x)
      then show ?thesis using nc hd assms by (simp add: t)
    next
      case 3
      let ?k = "nat left"
      have t: "dec_digits ds x = take ?k ds @ CHR ''.'' # drop ?k ds @ []"
        using True 3 by (simp add: dec_digits_def Let_def left_def n_def)
      have "parse_number neg (dec_digits ds x) = Some (Dec neg (decimal_value (take ?k ds @ drop ?k ds)) (- int (length (drop ?k ds))))"
        unfolding t by (subst parse_number_point) (simp_all add: tk assms exponent_tail_def parse_exponent_def)
      moreover have "int (length (drop ?k ds)) = - x"
        using 3 by (simp add: n_def left_def of_nat_diff)
      ultimately show ?thesis
        using nc hd hd_take [of ?k] 3 tk by (simp add: t digits_num_char) (simp add: num_char_def)
    qed
  next
    case False
    then have left: "left \<noteq> 1" "left - 1 = x + (n - 1)" using n by (auto simp: left_def)
    define tail where "tail = CHR ''E'' # (if left - 1 < 0 then int_text (left - 1) else CHR ''+'' # int_text (left - 1))"
    have pe: "parse_exponent tail = Some (left - 1)" unfolding tail_def by (rule parse_exponent_text)
    have et: "exponent_tail tail" and tnc: "list_all num_char tail"
      using int_text_num_char by (auto simp: exponent_tail_def tail_def num_char_def)
    show ?thesis
    proof (cases "n \<le> 1")
      case True
      have t: "dec_digits ds x = ds @ tail"
        using False True n left by (simp add: dec_digits_def Let_def left_def n_def tail_def zeros_def)
      have "parse_number neg (dec_digits ds x) = Some (Dec neg (decimal_value ds) (left - 1))"
        unfolding t by (subst parse_number_whole) (simp_all add: assms et pe)
      then show ?thesis using nc hd assms tnc True n by (simp add: t left_def)
    next
      case n2: False
      have t: "dec_digits ds x = take 1 ds @ CHR ''.'' # drop 1 ds @ tail"
        using False n2 n left by (auto simp: dec_digits_def Let_def left_def n_def tail_def)
      have "parse_number neg (dec_digits ds x)
          = Some (Dec neg (decimal_value (take 1 ds @ drop 1 ds)) (left - 1 - int (length (drop 1 ds))))"
        unfolding t by (subst parse_number_point) (simp_all add: tk assms et pe)
      moreover have "int (length (drop 1 ds)) = n - 1" using n by (simp add: n_def of_nat_diff)
      ultimately show ?thesis
        using nc hd hd_take [of 1] tk [of 1] tnc left by (simp add: t digits_num_char) (simp add: num_char_def)
    qed
  qed
qed

theorem parse_decimal_text:
  assumes "decimal_wf d" and "is_finite d"
  shows "parse_decimal (decimal_text d) = Some d"
proof -
  obtain s c x where d: "d = Dec s c x" using assms(2) by (rule finite_cases)
  have "parse_decimal (decimal_text d) = parse_number s (dec_digits (decimal (nat c)) x)"
    using dec_digits_reads [OF decimal_digits, of "nat c" s x]
    by (simp only: d decimal_text.simps decimal_not_Nil) (rule parse_decimal_numeral, simp_all)
  then show ?thesis
    using dec_digits_reads [OF decimal_digits, of "nat c" s x] assms(1) by (simp add: d)
qed

lemma to_decimal_simps [simp]:
  "to_decimal (PyInt i) = Some (dec_of_int i)"
  "decimal_wf d \<Longrightarrow> is_finite d \<Longrightarrow> to_decimal (PyDecimal d) = Some d"
  "to_decimal (PyText (py_str v)) = to_decimal v"
  by (simp_all add: to_decimal_def parse_decimal_int_text parse_decimal_text)

end
