(* ===== verification/FinanceDomain.thy ===== *)
theory FinanceDomain
  imports DecimalText
begin

text \<open>
  The data of the release chain: the enumerations of \<open>src/domain/enums.py\<close> for evidence, calculations,
  reviews and proofs, the records of \<open>domain/evidence.py\<close>, \<open>domain/calculation.py\<close>, \<open>domain/review.py\<close>
  and \<open>domain/proof.py\<close>, and the helpers and released models of \<open>domain/financial_semantics.py\<close>.

  Record fields carry a prefix naming their class: \<open>evi_\<close> EvidenceRecord, \<open>ca_\<close> CalculationRecord,
  \<open>rc_\<close> ReviewCheck, \<open>rr_\<close> ReviewRecord, \<open>me_\<close> metric, \<open>cl_\<close> claim, \<open>mm_\<close> method metadata, \<open>pr_\<close> proof,
  \<open>pi_\<close> input commitment, \<open>pv_\<close> verification, \<open>pa_\<close> artifact. Fields that no modelled operation reads
  (\<open>created_at\<close>, retrieval times, document authority, the expected and actual values that a check only
  displays) are left out.
\<close>

section \<open>Exceptions\<close>

datatype fin_exn =
    FinValueError string
  | FinKeyError string
  | FinPydantic
  | FinAttributeError
  | FinIndexError
  | FinTypeError string
  | FinDecimal decimal_signal
  | FinZeroDivision string
  | NonPositivePriorRevenue string
  | PeriodMismatch string
  | MissingEvidence string
  | UnacceptedEvidence string
  | FinancialCapabilityError string
  | FinOverflow

text \<open>
  \<open>except (ArithmeticError, DecimalException, KeyError, TypeError, ValueError)\<close>: everything but an
  attribute error and an index error (the pydantic and capability errors are value errors).
\<close>

definition value_like :: "fin_exn \<Rightarrow> bool" where
  "value_like e \<longleftrightarrow> e \<noteq> FinAttributeError \<and> e \<noteq> FinIndexError"

definition lift_dec :: "decimal_signal + 'a \<Rightarrow> fin_exn + 'a" where
  "lift_dec r = (case r of Inl e \<Rightarrow> Inl (FinDecimal e) | Inr x \<Rightarrow> Inr x)"

lemma lift_dec_Inr [simp]: "lift_dec r = Inr x \<longleftrightarrow> r = Inr x"
  by (simp add: lift_dec_def split: sum.splits)

section \<open>Enumerations\<close>

datatype evidence_status = ES_ACCEPTED | ES_CONFLICT | ES_REJECTED | ES_PARTIAL

datatype evidence_category =
  EC_COMPANY_PROFILE | EC_FINANCIAL_STATEMENT | EC_MARKET | EC_PEER | EC_NEWS | EC_ANALYST
  | EC_TRANSCRIPT | EC_OTHER

datatype review_status = RV_PASS | RV_REVIEW | RV_BLOCK

datatype proof_status =
  PS_NOT_REQUIRED | PS_REQUIRED_PENDING | PS_PROVING | PS_VALID | PS_INVALID | PS_ERROR
  | PS_UNSUPPORTED | PS_NOT_IMPLEMENTED | PS_PENDING | PS_VERIFIED | PS_FAILED

datatype proof_requirement = PQ_NOT_REQUIRED | PQ_MUST_PROVE

datatype calculation_status = CS_PASS | CS_FAILED

datatype period_basis = PB_FY | PB_QUARTER | PB_TTM | PB_LTM | PB_CURRENT | PB_DAILY

datatype actuality = FA_UNKNOWN | FA_ACTUAL | FA_ESTIMATE

datatype financial_unit =
  FU_RATIO | FU_PERCENT | FU_CURRENCY | FU_COUNT | FU_SHARES | FU_INDEX | FU_MULTIPLE

datatype price_basis = ADJUSTED_CLOSE | RAW_CLOSE

datatype action_status = CA_NONE_DETECTED | CA_RESOLVED | CA_UNRESOLVED | CA_UNASSESSED

datatype sign_convention = SC_OUTFLOW_NEGATIVE | SC_OUTFLOW_POSITIVE | SC_NOT_APPLICABLE | SC_UNKNOWN

fun review_status_value :: "review_status \<Rightarrow> string" where
  "review_status_value RV_PASS = ''PASS''"
| "review_status_value RV_REVIEW = ''REVIEW''"
| "review_status_value RV_BLOCK = ''BLOCK''"

fun evidence_status_value :: "evidence_status \<Rightarrow> string" where
  "evidence_status_value ES_ACCEPTED = ''ACCEPTED''"
| "evidence_status_value ES_CONFLICT = ''CONFLICT''"
| "evidence_status_value ES_REJECTED = ''REJECTED''"
| "evidence_status_value ES_PARTIAL = ''PARTIAL''"

fun proof_status_value :: "proof_status \<Rightarrow> string" where
  "proof_status_value PS_NOT_REQUIRED = ''NOT_REQUIRED''"
| "proof_status_value PS_REQUIRED_PENDING = ''REQUIRED_PENDING''"
| "proof_status_value PS_PROVING = ''PROVING''"
| "proof_status_value PS_VALID = ''VALID''"
| "proof_status_value PS_INVALID = ''INVALID''"
| "proof_status_value PS_ERROR = ''ERROR''"
| "proof_status_value PS_UNSUPPORTED = ''UNSUPPORTED''"
| "proof_status_value PS_NOT_IMPLEMENTED = ''NOT_IMPLEMENTED''"
| "proof_status_value PS_PENDING = ''PENDING''"
| "proof_status_value PS_VERIFIED = ''VERIFIED''"
| "proof_status_value PS_FAILED = ''FAILED''"

fun period_basis_value :: "period_basis \<Rightarrow> string" where
  "period_basis_value PB_FY = ''FY''"
| "period_basis_value PB_QUARTER = ''QUARTER''"
| "period_basis_value PB_TTM = ''TTM''"
| "period_basis_value PB_LTM = ''LTM''"
| "period_basis_value PB_CURRENT = ''CURRENT''"
| "period_basis_value PB_DAILY = ''DAILY''"

fun actuality_value :: "actuality \<Rightarrow> string" where
  "actuality_value FA_UNKNOWN = ''UNKNOWN''"
| "actuality_value FA_ACTUAL = ''ACTUAL''"
| "actuality_value FA_ESTIMATE = ''ESTIMATE''"

fun unit_value :: "financial_unit \<Rightarrow> string" where
  "unit_value FU_RATIO = ''RATIO''"
| "unit_value FU_PERCENT = ''PERCENT''"
| "unit_value FU_CURRENCY = ''CURRENCY''"
| "unit_value FU_COUNT = ''COUNT''"
| "unit_value FU_SHARES = ''SHARES''"
| "unit_value FU_INDEX = ''INDEX''"
| "unit_value FU_MULTIPLE = ''MULTIPLE''"

fun price_basis_value :: "price_basis \<Rightarrow> string" where
  "price_basis_value ADJUSTED_CLOSE = ''ADJUSTED_CLOSE''"
| "price_basis_value RAW_CLOSE = ''RAW_CLOSE''"

fun action_status_value :: "action_status \<Rightarrow> string" where
  "action_status_value CA_NONE_DETECTED = ''NONE_DETECTED''"
| "action_status_value CA_RESOLVED = ''RESOLVED''"
| "action_status_value CA_UNRESOLVED = ''UNRESOLVED''"
| "action_status_value CA_UNASSESSED = ''UNASSESSED''"

section \<open>Dates\<close>

datatype date = Date int int int

instantiation date :: linorder
begin

fun less_eq_date :: "date \<Rightarrow> date \<Rightarrow> bool" where
  "less_eq_date (Date y m d) (Date y' m' d') \<longleftrightarrow>
     y < y' \<or> (y = y' \<and> (m < m' \<or> (m = m' \<and> d \<le> d')))"

definition less_date :: "date \<Rightarrow> date \<Rightarrow> bool" where
  "less_date a b \<longleftrightarrow> a \<le> b \<and> a \<noteq> b"

instance
proof
  fix x y z :: date
  show "x \<le> x" by (cases x) simp
  show "x \<le> y \<Longrightarrow> y \<le> x \<Longrightarrow> x = y" by (cases x; cases y) auto
  then show "(x < y) = (x \<le> y \<and> \<not> y \<le> x)" using \<open>x \<le> x\<close> by (auto simp: less_date_def)
  show "x \<le> y \<Longrightarrow> y \<le> z \<Longrightarrow> x \<le> z" by (cases x; cases y; cases z) auto
  show "x \<le> y \<or> y \<le> x" by (cases x; cases y) auto
qed

end

definition padded :: "nat \<Rightarrow> int \<Rightarrow> string" where
  "padded k n = (let t = decimal (nat n) in replicate (k - length t) (CHR ''0'') @ t)"

fun isoformat :: "date \<Rightarrow> string" where
  "isoformat (Date y m d) = padded 4 y @ ''-'' @ padded 2 m @ ''-'' @ padded 2 d"

section \<open>Records\<close>

record evidence =
  evi_id :: string
  evi_run_id :: string
  evi_object_id :: string
  evi_provider :: string
  evi_purpose :: "string option"
  evi_category :: evidence_category
  evi_period :: string
  evi_period_basis :: "period_basis option"
  evi_actuality :: actuality
  evi_series :: "string option"
  evi_cohort :: "string option"
  evi_price_basis :: "price_basis option"
  evi_action :: "action_status option"
  evi_sign :: "sign_convention option"
  evi_as_of :: date
  evi_field :: string
  evi_value :: pyvalue
  evi_unit :: string
  evi_currency :: "string option"
  evi_status :: evidence_status

record calculation =
  ca_id :: string
  ca_run_id :: string
  ca_task_id :: string
  ca_capability_id :: string
  ca_capability_version :: string
  ca_formula_id :: string
  ca_inputs :: "string list"
  ca_snapshot :: "(string \<times> pyvalue) list"
  ca_parameters :: "(string \<times> pyvalue) list"
  ca_output :: pyvalue
  ca_output_unit :: string
  ca_status :: calculation_status
  ca_implementation_hash :: "string option"
  ca_code_hash :: "string option"
  ca_source_ref :: "string option"
  ca_runtime_version :: "string option"
  ca_review_record_id :: "string option"
  ca_canonical_record_id :: "string option"
  ca_proof_ref :: "string option"

record review_check =
  rc_code :: string
  rc_status :: review_status
  rc_refs :: "string list"
  rc_detail :: "string option"

datatype review_finding =
    CheckFinding string "string option"
  | EvidenceNotAccepted string evidence_status
  | CalculationFailed string
  | EvidenceReferenceMissing string "string list"
  | PeriodsDiffer string "string list"

text \<open>Financial branches (\<open>domain/financial_branch.py\<close>) and the requirement context of a review.\<close>

datatype branch_status = BS_COMPLETED | BS_INSUFFICIENT_DATA | BS_NOT_APPLICABLE | BS_FAILED | BS_BLOCKED_BY_RUNTIME

datatype branch_requirement = BR_REQUIRED | BR_CONDITIONAL | BR_SUPPORTING

record branch_result =
  br_id :: string
  br_run_id :: string
  br_task_id :: string
  br_type :: string
  br_status :: branch_status
  br_requirement :: branch_requirement
  br_required_inputs :: int
  br_available_inputs :: int
  br_calculation_ids :: "string list"
  br_dependency_ids :: "string list"
  br_reason_code :: "string option"
  br_diagnostic_id :: "string option"
  br_failure_stage :: "string option"
  br_build_record_ids :: "string list"

definition branch_valid :: "branch_result \<Rightarrow> bool" where
  "branch_valid b \<longleftrightarrow> 0 \<le> br_required_inputs b \<and> 0 \<le> br_available_inputs b
     \<and> \<not> (br_status b \<noteq> BS_COMPLETED \<and> br_calculation_ids b \<noteq> [])
     \<and> \<not> (br_status b = BS_COMPLETED \<and> br_calculation_ids b = [])"

record requirement_context =
  qc_version :: string
  qc_scheme_id :: string
  qc_scheme_hash :: string
  qc_required :: "string list"
  qc_branches :: "branch_result list"

record review =
  rr_id :: string
  rr_run_id :: string
  rr_status :: review_status
  rr_findings :: "review_finding list"
  rr_semantic :: "pyvalue list"
  rr_evidence_refs :: "string list"
  rr_calculation_refs :: "string list"
  rr_metric_refs :: "string list"
  rr_claim_refs :: "string list"
  rr_judgment_refs :: "string list"
  rr_proof_refs :: "string list"
  rr_checks :: "review_check list"
  rr_snapshot_hash :: "string option"
  rr_context :: "requirement_context option"
  rr_reviewer :: string

definition truthy :: "string option \<Rightarrow> bool" where
  "truthy s \<longleftrightarrow> s \<noteq> None \<and> s \<noteq> Some []"

definition independent_reviewer :: string where
  "independent_reviewer = ''independent-financial-review-v2''"

text \<open>\<open>ReviewRecord.reject_contradictory_status\<close>.\<close>

definition review_valid :: "review \<Rightarrow> bool" where
  "review_valid r \<longleftrightarrow> (let statuses = set (map rc_status (rr_checks r)) in
     \<not> (RV_BLOCK \<in> statuses \<and> rr_status r \<noteq> RV_BLOCK)
     \<and> \<not> (RV_REVIEW \<in> statuses \<and> RV_BLOCK \<notin> statuses \<and> rr_status r = RV_PASS)
     \<and> \<not> (rr_checks r \<noteq> [] \<and> rr_status r = RV_PASS \<and> statuses \<noteq> {RV_PASS})
     \<and> (rr_reviewer r = independent_reviewer \<longrightarrow>
          \<not> (rr_checks r = [] \<or> \<not> truthy (rr_snapshot_hash r))
          \<and> \<not> (rr_status r = RV_PASS \<and> (rr_calculation_refs r = [] \<or> rr_claim_refs r = []))))"

definition make_review :: "review \<Rightarrow> fin_exn + review" where
  "make_review r = rbind (guard (review_valid r) FinPydantic) (\<lambda>_. Inr r)"

record proof_record =
  pr_id :: string
  pr_run_id :: string
  pr_calculation_id :: string
  pr_backend :: string
  pr_program_id :: string
  pr_image_id :: string
  pr_implementation_hash :: string
  pr_input_commitment :: string
  pr_receipt_ref :: "string option"
  pr_receipt_hash :: "string option"
  pr_journal_hash :: "string option"
  pr_status :: proof_status

record proof_result =
  ps_id :: string
  ps_status :: proof_status

record proof_verification =
  pv_proof_id :: string
  pv_verifier :: string
  pv_image_id :: string
  pv_receipt_hash :: string
  pv_journal_hash :: string
  pv_status :: proof_status
  pv_verified :: bool

record proof_artifact =
  pa_proof_id :: string
  pa_type :: string
  pa_ref :: string
  pa_content_hash :: string
  pa_size :: int

section \<open>Optional texts as JSON values\<close>

definition opt_value :: "string option \<Rightarrow> pyvalue" where
  "opt_value s = (case s of None \<Rightarrow> PyNone | Some t \<Rightarrow> PyText t)"

definition basis_value :: "period_basis option \<Rightarrow> pyvalue" where
  "basis_value b = opt_value (map_option period_basis_value b)"

section \<open>Financial semantics\<close>

definition upper_char :: "char \<Rightarrow> char" where
  "upper_char c = (let n = (of_char c :: nat) in if 97 \<le> n \<and> n \<le> 122 then char_of (n - 32) else c)"

definition upper :: "string \<Rightarrow> string" where
  "upper s = map upper_char s"

text \<open>
  \<open>str.upper\<close> on ASCII letters; the accented letters of Latin-1 are left alone, which no literal that
  the result is compared with contains. \<open>fy_year\<close> and \<open>quarter_of\<close> are the regular expressions
  \<open>FY(\d{4})\<close> and \<open>Q([1-4])FY(\d{4})\<close>.
\<close>

definition fy_year :: "string \<Rightarrow> int option" where
  "fy_year s = (if take 2 s = ''FY'' \<and> length s = 6 \<and> list_all is_digit (drop 2 s)
     then Some (decimal_value (drop 2 s)) else None)"

definition quarter_of :: "string \<Rightarrow> (char \<times> int) option" where
  "quarter_of s = (case s of
     q # c # rest \<Rightarrow> if q = CHR ''Q'' \<and> c \<in> set ''1234'' then map_option (Pair c) (fy_year rest) else None
   | _ \<Rightarrow> None)"

definition period_bases :: "period_basis list" where
  "period_bases = [PB_FY, PB_QUARTER, PB_TTM, PB_LTM, PB_CURRENT, PB_DAILY]"

definition infer_period_basis :: "string \<Rightarrow> period_basis option" where
  "infer_period_basis period = (let n = upper (strip period) in
     if fy_year n \<noteq> None then Some PB_FY
     else if quarter_of n \<noteq> None then Some PB_QUARTER
     else List.find (\<lambda>b. period_basis_value b = n) period_bases)"

definition adjacent_financial_periods :: "string \<Rightarrow> string \<Rightarrow> bool" where
  "adjacent_financial_periods prior current = (let p = upper (strip prior); c = upper (strip current) in
     case (fy_year p, fy_year c) of
       (Some x, Some y) \<Rightarrow> y = x + 1
     | _ \<Rightarrow> (case (quarter_of p, quarter_of c) of
         (Some (q, x), Some (r, y)) \<Rightarrow> q = r \<and> y = x + 1
       | _ \<Rightarrow> False))"

definition unit_aliases :: "(string \<times> financial_unit) list" where
  "unit_aliases = [(''RATIO'', FU_RATIO), (''PERCENT'', FU_PERCENT), (''COUNT'', FU_COUNT),
     (''SHARES'', FU_SHARES), (''INDEX'', FU_INDEX), (''INDEX_POINTS'', FU_INDEX), (''MULTIPLE'', FU_MULTIPLE)]"

definition evidence_unit_class :: "string \<Rightarrow> string option \<Rightarrow> financial_unit option" where
  "evidence_unit_class u currency = (let n = upper (strip u) in
     if truthy currency \<and> (let c = upper (strip (the currency)) in
          n \<in> {''CURRENCY'', c} \<or> take (length c + 1) n = c @ ''_'')
     then Some FU_CURRENCY else map_of unit_aliases n)"

text \<open>\<open>format(decimal, "f")\<close>: positional notation, whatever the exponent.\<close>

definition fixed_digits :: "string \<Rightarrow> int \<Rightarrow> string" where
  "fixed_digits ds x =
     (if 0 \<le> x then (if list_all (\<lambda>c. c = CHR ''0'') ds then ''0'' else ds @ zeros x)
      else let left = int (length ds) + x in
        if left \<le> 0 then ''0.'' @ zeros (- left) @ ds
        else take (nat left) ds @ ''.'' @ drop (nat left) ds)"

fun format_f :: "decimal \<Rightarrow> string" where
  "format_f (Dec s c x) = (if s then ''-'' else []) @ fixed_digits (decimal (nat c)) x"
| "format_f d = decimal_text d"

definition canonical_decimal :: "pyvalue \<Rightarrow> fin_exn + string" where
  "canonical_decimal v =
     rbind (guard (v \<noteq> PyNone \<and> (\<forall>b \<in> {True, False}. v \<noteq> PyBool b)) (FinValueError ''financial metric value must be numeric'')) (\<lambda>_.
     case to_decimal v of
       None \<Rightarrow> Inl (FinValueError ''financial metric value must be decimal-compatible'')
     | Some d \<Rightarrow> rbind (guard (is_finite d) (FinValueError ''financial metric value must be finite''))
         (\<lambda>_. Inr (format_f d)))"

end
