(* ===== verification/RiscZero.thy ===== *)
theory RiscZero
  imports FinanceDomain "HOL-Library.Word"
begin

text \<open>
  \<open>src/adapters/risc0/models.py\<close>: the canonical inputs of the revenue-growth proof, the exact growth as
  a reduced fraction, and the commitments. A commitment is the SHA-256 of a sequence of framed fields;
  the digest is the parameter \<open>sha\<close> (the hexadecimal digest of a byte string), and the theory shows
  that the bytes that are hashed determine every field of the input.
\<close>

section \<open>Growth\<close>

definition growth_reason :: string where
  "growth_reason = ''REVENUE_GROWTH_PRIOR_REVENUE_MUST_BE_POSITIVE''"

record canonical_inputs =
  ci_prior :: int
  ci_current :: int
  ci_currency :: string
  ci_scale :: int

definition currency_code :: "string \<Rightarrow> bool" where
  "currency_code s \<longleftrightarrow> 1 \<le> length s \<and> length s \<le> 16
     \<and> list_all (\<lambda>c. 65 \<le> (of_char c :: nat) \<and> (of_char c :: nat) \<le> 90) s"

text \<open>The field constraints are checked first; all failures are one \<open>ValidationError\<close>, a value error.\<close>

definition canonical_inputs_valid :: "canonical_inputs \<Rightarrow> bool" where
  "canonical_inputs_valid i \<longleftrightarrow> currency_code (ci_currency i) \<and> 0 \<le> ci_scale i \<and> ci_scale i \<le> 18
     \<and> - (2 ^ 63) \<le> ci_prior i \<and> ci_prior i \<le> 2 ^ 63 - 1
     \<and> - (2 ^ 63) \<le> ci_current i \<and> ci_current i \<le> 2 ^ 63 - 1
     \<and> 0 < ci_prior i"

record growth_result =
  gr_numerator :: int
  gr_denominator :: int
  gr_unit :: string

text \<open>The loop \<open>while right: left, right = right, left % right\<close>.\<close>

function gcd_loop :: "int \<Rightarrow> int \<Rightarrow> int" where
  "gcd_loop left right = (if right \<le> 0 then left else gcd_loop right (left mod right))"
  by pat_completeness auto
termination by (relation "measure (\<lambda>(left, right). nat right)") auto

declare gcd_loop.simps [simp del]

definition greatest_common_divisor :: "int \<Rightarrow> int \<Rightarrow> int" where
  "greatest_common_divisor left right = gcd_loop \<bar>left\<bar> \<bar>right\<bar>"

definition calculate_growth :: "canonical_inputs \<Rightarrow> fin_exn + growth_result" where
  "calculate_growth i =
     (if ci_prior i \<le> 0 then Inl (FinValueError growth_reason)
      else let numerator = ci_current i - ci_prior i; denominator = ci_prior i;
               divisor = greatest_common_divisor numerator denominator
        in Inr \<lparr>gr_numerator = numerator div divisor, gr_denominator = denominator div divisor,
             gr_unit = ''ratio''\<rparr>)"

lemma gcd_loop_gcd: "0 \<le> left \<Longrightarrow> 0 \<le> right \<Longrightarrow> gcd_loop left right = gcd left right"
proof (induction left right rule: gcd_loop.induct)
  case (1 left right)
  then show ?case
    by (cases "right = 0") (simp_all add: gcd_loop.simps [of left right] gcd_loop.simps [of left 0] gcd_red_int [of left right])
qed

lemma greatest_common_divisor_gcd [simp]: "greatest_common_divisor a b = gcd a b"
  by (simp add: greatest_common_divisor_def gcd_loop_gcd)

section \<open>Bytes\<close>

type_synonym bytes = "8 word list"

text \<open>UTF-8 of the code points below 256.\<close>

definition utf8_char :: "char \<Rightarrow> bytes" where
  "utf8_char c = (let n = (of_char c :: nat) in
     if n < 128 then [of_nat n] else [of_nat (192 + n div 64), of_nat (128 + n mod 64)])"

definition utf8 :: "string \<Rightarrow> bytes" where
  "utf8 s = concat (map utf8_char s)"

fun big_endian :: "nat \<Rightarrow> nat \<Rightarrow> bytes" where
  "big_endian 0 n = []"
| "big_endian (Suc k) n = big_endian k (n div 256) @ [of_nat n]"

definition to_bytes :: "nat \<Rightarrow> nat \<Rightarrow> fin_exn + bytes" where
  "to_bytes k n = (if n < 256 ^ k then Inr (big_endian k n) else Inl FinOverflow)"

definition write_field :: "string \<times> string \<Rightarrow> fin_exn + bytes" where
  "write_field f = (case f of (name, v) \<Rightarrow>
     rbind (to_bytes 4 (length (utf8 name))) (\<lambda>a.
     rbind (to_bytes 8 (length (utf8 v))) (\<lambda>b.
     Inr (a @ utf8 name @ b @ utf8 v))))"

definition preimage :: "(string \<times> string) list \<Rightarrow> fin_exn + bytes" where
  "preimage fs = rbind (rmap write_field fs) (\<lambda>parts. Inr (concat parts))"

section \<open>Commitments\<close>

record growth_input =
  gi_schema :: string
  gi_run_id :: string
  gi_calculation_id :: string
  gi_formula_id :: string
  gi_capability_id :: string
  gi_implementation_hash :: string
  gi_refs :: "string \<times> string"
  gi_inputs :: canonical_inputs
  gi_input_commitment :: string
  gi_output_commitment :: string

definition output_fields :: "string \<Rightarrow> growth_result \<Rightarrow> (string \<times> string) list" where
  "output_fields formula r =
     [(''domain'', ''verifiable-financial-agent/revenue-growth-output/v1''),
      (''formula_id'', formula),
      (''growth_numerator'', int_text (gr_numerator r)),
      (''growth_denominator'', int_text (gr_denominator r)),
      (''unit'', gr_unit r)]"

definition input_fields :: "growth_input \<Rightarrow> (string \<times> string) list" where
  "input_fields d =
     [(''domain'', ''verifiable-financial-agent/revenue-growth-input/v1''),
      (''schema_version'', gi_schema d),
      (''run_id'', gi_run_id d),
      (''calculation_id'', gi_calculation_id d),
      (''formula_id'', gi_formula_id d),
      (''capability_id'', gi_capability_id d),
      (''implementation_hash'', gi_implementation_hash d),
      (''input_evidence_ref_count'', int_text 2),
      (''input_evidence_ref'', fst (gi_refs d)),
      (''input_evidence_ref'', snd (gi_refs d)),
      (''prior_revenue_minor'', int_text (ci_prior (gi_inputs d))),
      (''current_revenue_minor'', int_text (ci_current (gi_inputs d))),
      (''currency'', ci_currency (gi_inputs d)),
      (''scale'', int_text (ci_scale (gi_inputs d))),
      (''expected_output_commitment'', gi_output_commitment d)]"

definition finish_hash :: "(bytes \<Rightarrow> string) \<Rightarrow> (string \<times> string) list \<Rightarrow> fin_exn + string" where
  "finish_hash sha fs = rbind (preimage fs) (\<lambda>b. Inr (''sha256:'' @ sha b))"

definition output_commitment :: "(bytes \<Rightarrow> string) \<Rightarrow> string \<Rightarrow> growth_result \<Rightarrow> fin_exn + string" where
  "output_commitment sha formula r = finish_hash sha (output_fields formula r)"

definition input_commitment :: "(bytes \<Rightarrow> string) \<Rightarrow> growth_input \<Rightarrow> fin_exn + string" where
  "input_commitment sha d = finish_hash sha (input_fields d)"

definition lower_hex :: "char \<Rightarrow> bool" where
  "lower_hex c \<longleftrightarrow> is_digit c \<or> c \<in> set ''abcdef''"

definition sha256_identity :: "string \<Rightarrow> bool" where
  "sha256_identity s \<longleftrightarrow> take 7 s = ''sha256:'' \<and> length s = 71 \<and> list_all lower_hex (drop 7 s)"

definition input_schema_version :: string where
  "input_schema_version = ''risc0_revenue_growth_input_v1''"

text \<open>The field constraints of \<open>RiscZeroRevenueGrowthInput\<close>, then \<open>validate_bindings\<close>.\<close>

definition growth_fields_valid :: "growth_input \<Rightarrow> bool" where
  "growth_fields_valid d \<longleftrightarrow> gi_schema d = input_schema_version \<and> gi_run_id d \<noteq> [] \<and> gi_calculation_id d \<noteq> []
     \<and> gi_formula_id d = ''revenue_growth_v1'' \<and> gi_capability_id d = ''revenue_growth''
     \<and> gi_implementation_hash d \<noteq> [] \<and> canonical_inputs_valid (gi_inputs d)
     \<and> sha256_identity (gi_input_commitment d) \<and> sha256_identity (gi_output_commitment d)"

definition validate_growth_input :: "(bytes \<Rightarrow> string) \<Rightarrow> growth_input \<Rightarrow> fin_exn + growth_input" where
  "validate_growth_input sha d =
     rbind (guard (growth_fields_valid d) FinPydantic) (\<lambda>_.
     rbind (guard (fst (gi_refs d) \<noteq> [] \<and> snd (gi_refs d) \<noteq> []) FinPydantic) (\<lambda>_.
     rbind (guard (fst (gi_refs d) \<noteq> snd (gi_refs d)) FinPydantic) (\<lambda>_.
     rbind (calculate_growth (gi_inputs d)) (\<lambda>expected.
     rbind (output_commitment sha (gi_formula_id d) expected) (\<lambda>out.
     rbind (guard (out = gi_output_commitment d) FinPydantic) (\<lambda>_.
     rbind (input_commitment sha d) (\<lambda>inp.
     rbind (guard (inp = gi_input_commitment d) FinPydantic) (\<lambda>_.
     Inr d))))))))"

definition provisional_input ::
    "string \<Rightarrow> string \<Rightarrow> string \<Rightarrow> string \<times> string \<Rightarrow> canonical_inputs \<Rightarrow> string \<Rightarrow> growth_input" where
  "provisional_input run_id calculation_id implementation_hash refs inputs output_hash =
     \<lparr>gi_schema = input_schema_version, gi_run_id = run_id, gi_calculation_id = calculation_id,
      gi_formula_id = ''revenue_growth_v1'', gi_capability_id = ''revenue_growth'',
      gi_implementation_hash = implementation_hash, gi_refs = refs, gi_inputs = inputs,
      gi_input_commitment = ''sha256:'' @ replicate 64 (CHR ''0''), gi_output_commitment = output_hash\<rparr>"

definition build_proof_input ::
    "(bytes \<Rightarrow> string) \<Rightarrow> string \<Rightarrow> string \<Rightarrow> string \<Rightarrow> string \<times> string \<Rightarrow> canonical_inputs
       \<Rightarrow> fin_exn + growth_input" where
  "build_proof_input sha run_id calculation_id implementation_hash refs inputs =
     rbind (calculate_growth inputs) (\<lambda>result.
     rbind (output_commitment sha ''revenue_growth_v1'' result) (\<lambda>output_hash.
     let provisional = provisional_input run_id calculation_id implementation_hash refs inputs output_hash in
     rbind (input_commitment sha provisional) (\<lambda>c.
     validate_growth_input sha (provisional\<lparr>gi_input_commitment := c\<rparr>))))"

section \<open>The growth is the exact reduced fraction\<close>

text \<open>
  On valid canonical inputs the growth never raises and is the exact fraction
  \<open>(current - prior) / prior\<close> in lowest terms with a positive denominator; the denominator fits a signed
  64-bit integer, and the numerator needs one bit more: it lies within -2^64 and 2^63 - 2.
\<close>

theorem growth_reduced:
  assumes "canonical_inputs_valid i"
  shows "\<exists>r. calculate_growth i = Inr r
    \<and> gr_numerator r * ci_prior i = (ci_current i - ci_prior i) * gr_denominator r
    \<and> coprime (gr_numerator r) (gr_denominator r)
    \<and> 0 < gr_denominator r \<and> gr_denominator r < 2 ^ 63
    \<and> - (2 ^ 64) < gr_numerator r \<and> gr_numerator r < 2 ^ 63 - 1"
proof -
  define n where "n = ci_current i - ci_prior i"
  define p where "p = ci_prior i"
  define g where "g = gcd n p"
  have p: "0 < p" "p \<le> 2 ^ 63 - 1" and n: "- (2 ^ 64) < n" "n < 2 ^ 63 - 1"
    using assms by (auto simp: canonical_inputs_valid_def p_def n_def)
  then have g: "0 < g" by (simp add: g_def)
  obtain a b where ab: "a = n div g" "b = p div g" by blast
  have ng: "n = a * g" "p = b * g" by (simp_all add: g_def ab)
  have "a * p = n * b" by (simp add: ng)
  moreover have "coprime a b" using p unfolding ab g_def by (intro div_gcd_coprime) simp
  moreover have b: "0 < b" using p(1) g by (simp add: ng zero_less_mult_iff)
  moreover have "b \<le> p" using b g by (simp add: ng)
  moreover have "\<bar>a\<bar> \<le> \<bar>n\<bar>" using g by (cases "a = 0") (auto simp: ng abs_mult)
  moreover have "0 \<le> a \<longleftrightarrow> 0 \<le> n" using g by (simp add: ng zero_le_mult_iff)
  ultimately have "a * p = n * b \<and> coprime a b \<and> 0 < b \<and> b < 2 ^ 63 \<and> - (2 ^ 64) < a \<and> a < 2 ^ 63 - 1"
    using p(2) n by (cases "0 \<le> a") auto
  moreover have "calculate_growth i = Inr \<lparr>gr_numerator = a, gr_denominator = b, gr_unit = ''ratio''\<rparr>"
    using p(1) by (simp add: calculate_growth_def Let_def ab g_def n_def p_def)
  ultimately show ?thesis unfolding n_def p_def by simp
qed

theorem growth_reduced_witness:
  "\<exists>r. calculate_growth \<lparr>ci_prior = 100, ci_current = 125, ci_currency = ''USD'', ci_scale = 0\<rparr> = Inr r
    \<and> gr_numerator r * 100 = 25 * gr_denominator r \<and> coprime (gr_numerator r) (gr_denominator r)"
proof -
  let ?i = "\<lparr>ci_prior = 100, ci_current = 125, ci_currency = ''USD'', ci_scale = 0\<rparr>"
  have "canonical_inputs_valid ?i" by code_simp
  from growth_reduced [OF this] show ?thesis by auto
qed

section \<open>The hashed bytes determine the input\<close>

lemma of_nat_byte_eq: "m < 256 \<Longrightarrow> n < 256 \<Longrightarrow> (of_nat m :: 8 word) = of_nat n \<longleftrightarrow> m = n"
  using of_nat_inverse [of m "of_nat n :: 8 word"] of_nat_inverse [of n "of_nat n :: 8 word"] by auto

lemma utf8_char_prefix:
  assumes "utf8_char c @ xs = utf8_char d @ ys"
  shows "c = d \<and> xs = ys"
proof -
  let ?n = "of_char c :: nat" and ?m = "of_char d :: nat"
  have lt: "?n < 256" "?m < 256" by simp_all
  have b: "192 + k div 64 < 256" "128 + k mod 64 < 256" if "k < 256" for k :: nat
  proof -
    have "k div 64 < 4" "k mod 64 < 64" using that by (simp_all add: less_mult_imp_div_less)
    then show "192 + k div 64 < 256" "128 + k mod 64 < 256" by linarith+
  qed
  have "?n = ?m \<and> xs = ys"
  proof (cases "?n < 128"; cases "?m < 128")
    assume "?n < 128" "?m < 128"
    with assms of_nat_byte_eq [OF lt] show ?thesis by (simp add: utf8_char_def Let_def)
  next
    assume "?n < 128" "\<not> ?m < 128"
    with assms of_nat_byte_eq [OF lt(1) b(1) [OF lt(2)]] show ?thesis
      by (simp add: utf8_char_def Let_def del: of_nat_add)
  next
    assume "\<not> ?n < 128" "?m < 128"
    with assms of_nat_byte_eq [OF b(1) [OF lt(1)] lt(2)] show ?thesis
      by (simp add: utf8_char_def Let_def del: of_nat_add)
  next
    assume h: "\<not> ?n < 128" "\<not> ?m < 128"
    with assms have "?n div 64 = ?m div 64" "?n mod 64 = ?m mod 64" "xs = ys"
      using of_nat_byte_eq [OF b(1) [OF lt(1)] b(1) [OF lt(2)]]
        of_nat_byte_eq [OF b(2) [OF lt(1)] b(2) [OF lt(2)]]
      by (simp_all add: utf8_char_def Let_def del: of_nat_add)
    then show ?thesis by (metis div_mult_mod_eq)
  qed
  then show ?thesis by (simp add: of_char_eq_iff)
qed

lemma utf8_char_not_Nil [simp]: "utf8_char c \<noteq> []"
  by (simp add: utf8_char_def Let_def)

lemma utf8_inject [simp]: "utf8 s = utf8 t \<longleftrightarrow> s = t"
proof
  show "utf8 s = utf8 t \<Longrightarrow> s = t"
  proof (induction s arbitrary: t)
    case Nil
    then show ?case by (cases t) (simp_all add: utf8_def)
  next
    case (Cons c cs)
    then obtain d ds where t: "t = d # ds" by (cases t) (simp_all add: utf8_def)
    with Cons.prems have "utf8_char c @ utf8 cs = utf8_char d @ utf8 ds" by (simp add: utf8_def)
    from utf8_char_prefix [OF this] Cons.IH t show ?case by simp
  qed
qed simp

lemma length_big_endian [simp]: "length (big_endian k n) = k"
  by (induction k arbitrary: n) simp_all

lemma big_endian_inject:
  "m < 256 ^ k \<Longrightarrow> n < 256 ^ k \<Longrightarrow> big_endian k m = big_endian k n \<Longrightarrow> m = n"
proof (induction k arbitrary: m n)
  case 0
  then show ?case by simp
next
  case (Suc k)
  then have b: "big_endian k (m div 256) = big_endian k (n div 256)" and "(of_nat m :: 8 word) = of_nat n"
    by simp_all
  have "m div 256 < 256 ^ k" "n div 256 < 256 ^ k"
    using Suc.prems(1,2) by (simp_all add: less_mult_imp_div_less mult.commute)
  then have "m div 256 = n div 256" using Suc.IH b by blast
  moreover have "(of_nat m :: 8 word) = of_nat n" by fact
  moreover have "(of_nat (m mod 256) :: 8 word) = of_nat m" "(of_nat (n mod 256) :: 8 word) = of_nat n"
    by (simp_all add: word_of_nat_eq_iff take_bit_eq_mod)
  ultimately have "m mod 256 = n mod 256" using of_nat_byte_eq [of "m mod 256" "n mod 256"] by simp
  with \<open>m div 256 = n div 256\<close> show ?case by (metis div_mult_mod_eq)
qed

lemma frame_prefix:
  assumes "to_bytes k (length u) = Inr a" and "to_bytes k (length v) = Inr b"
    and "a @ u @ xs = b @ v @ ys"
  shows "u = v \<and> xs = ys"
proof -
  from assms(1,2) have l: "length u < 256 ^ k" "length v < 256 ^ k"
    and ab: "a = big_endian k (length u)" "b = big_endian k (length v)"
    by (auto simp: to_bytes_def split: if_splits)
  then have len: "length a = length b" by simp
  from assms(3) have "a = b" and rest: "u @ xs = v @ ys"
    unfolding append_eq_append_conv [OF disjI1 [OF len]] by blast+
  with ab have "length u = length v" using big_endian_inject [OF l] by blast
  with rest show ?thesis by simp
qed

lemma write_field_prefix:
  assumes "write_field f = Inr a" and "write_field g = Inr b" and "a @ xs = b @ ys"
  shows "f = g \<and> xs = ys"
proof -
  obtain n v m w where fg: "f = (n, v)" "g = (m, w)" by fastforce
  from assms(1,2) obtain p q r s where
    bytes: "to_bytes 4 (length (utf8 n)) = Inr p" "to_bytes 8 (length (utf8 v)) = Inr q"
      "to_bytes 4 (length (utf8 m)) = Inr r" "to_bytes 8 (length (utf8 w)) = Inr s"
    and a: "a = p @ utf8 n @ q @ utf8 v" and b: "b = r @ utf8 m @ s @ utf8 w"
    by (auto simp: fg write_field_def rbind_Inr_iff)
  from assms(3) have eq: "p @ utf8 n @ (q @ utf8 v @ xs) = r @ utf8 m @ (s @ utf8 w @ ys)"
    by (simp add: a b)
  from frame_prefix [OF bytes(1,3) eq]
  have n: "n = m" and rest: "q @ utf8 v @ xs = s @ utf8 w @ ys" by auto
  from frame_prefix [OF bytes(2,4) rest] n show ?thesis by (simp add: fg)
qed

lemma write_field_not_Nil: "write_field f = Inr a \<Longrightarrow> a \<noteq> []"
proof
  assume w: "write_field f = Inr a" and "a = []"
  then obtain n p where p: "to_bytes 4 n = Inr p" "p = []"
    by (auto simp: write_field_def rbind_Inr_iff split: prod.splits)
  from p(1) have "p = big_endian 4 n" by (simp add: to_bytes_def split: if_splits)
  then have "length p = 4" by (simp only: length_big_endian)
  with p(2) show False by simp
qed

lemma preimage_inject:
  "preimage fs = Inr b \<Longrightarrow> preimage gs = Inr b \<Longrightarrow> fs = gs"
proof (induction fs arbitrary: gs b)
  case Nil
  then have "b = []" by (simp add: preimage_def)
  with Nil.prems(2) show ?case
    by (cases gs) (auto simp: preimage_def rbind_Inr_iff dest: write_field_not_Nil)
next
  case (Cons f fs)
  then obtain a c where a: "write_field f = Inr a" "preimage fs = Inr c" "b = a @ c"
    by (auto simp: preimage_def rbind_Inr_iff)
  show ?case
  proof (cases gs)
    case Nil
    with Cons.prems(2) a write_field_not_Nil [OF a(1)] show ?thesis by (simp add: preimage_def)
  next
    case g: (Cons g gs')
    with Cons.prems(2) obtain d e where d: "write_field g = Inr d" "preimage gs' = Inr e" "b = d @ e"
      by (auto simp: preimage_def rbind_Inr_iff)
    with a write_field_prefix [OF a(1) d(1), of c e] have "f = g" "c = e" by auto
    with Cons.IH [OF a(2)] d(2) g show ?thesis by simp
  qed
qed

lemma length_utf8: "length (utf8 s) \<le> 2 * length s"
proof (induction s)
  case (Cons c s)
  have "length (utf8_char c) \<le> 2" by (simp add: utf8_char_def Let_def)
  with Cons show ?case by (simp add: utf8_def)
qed (simp add: utf8_def)

lemma preimage_ok:
  "list_all (\<lambda>(n, v). length n < 1000 \<and> length v < 1000) fs \<Longrightarrow> is_ok (preimage fs)"
proof (induction fs)
  case Nil
  then show ?case by (simp add: preimage_def)
next
  case (Cons f fs)
  obtain n v where f: "f = (n, v)" by fastforce
  with Cons.prems length_utf8 [of n] length_utf8 [of v]
  have "length (utf8 n) < 256 ^ 4" "length (utf8 v) < 256 ^ 8" by simp_all
  then have "is_ok (write_field f)" by (simp add: f write_field_def to_bytes_def)
  with Cons show ?case by (auto simp: is_ok_iff preimage_def rbind_Inr_iff)
qed

lemma int_text_inject [simp]: "int_text i = int_text j \<longleftrightarrow> i = j"
proof
  assume "int_text i = int_text j"
  then have "dec_of_int i = dec_of_int j" using parse_decimal_int_text by (metis option.inject)
  then show "i = j" by (metis dec_of_int_simps(3) of_int_eq_iff)
qed simp

text \<open>
  C25. A commitment binds: if two proof inputs have the same input commitment, then they agree in every
  field that is hashed (all but the commitment itself), or the digest has been given two different
  byte strings with the same result. Fields cannot run into one another, whatever their texts are.
\<close>

theorem input_commitment_binds:
  assumes "input_commitment sha d = Inr c" and "input_commitment sha e = Inr c"
  shows "e\<lparr>gi_input_commitment := gi_input_commitment d\<rparr> = d
    \<or> (\<exists>x y. preimage (input_fields d) = Inr x \<and> preimage (input_fields e) = Inr y \<and> x \<noteq> y \<and> sha x = sha y)"
proof -
  obtain x y where x: "preimage (input_fields d) = Inr x" and y: "preimage (input_fields e) = Inr y"
    and "sha x = sha y"
    using assms by (auto simp: input_commitment_def finish_hash_def rbind_Inr_iff)
  moreover have "e\<lparr>gi_input_commitment := gi_input_commitment d\<rparr> = d" if "x = y"
  proof -
    have "input_fields d = input_fields e" using preimage_inject [OF x y [folded that]] .
    then have eqs: "gi_schema d = gi_schema e" "gi_run_id d = gi_run_id e"
      "gi_calculation_id d = gi_calculation_id e" "gi_formula_id d = gi_formula_id e"
      "gi_capability_id d = gi_capability_id e" "gi_implementation_hash d = gi_implementation_hash e"
      "fst (gi_refs d) = fst (gi_refs e)" "snd (gi_refs d) = snd (gi_refs e)"
      "ci_prior (gi_inputs d) = ci_prior (gi_inputs e)" "ci_current (gi_inputs d) = ci_current (gi_inputs e)"
      "ci_currency (gi_inputs d) = ci_currency (gi_inputs e)" "ci_scale (gi_inputs d) = ci_scale (gi_inputs e)"
      "gi_output_commitment d = gi_output_commitment e"
      by (simp_all add: input_fields_def)
    have "gi_refs d = gi_refs e" using eqs by (intro prod_eqI)
    moreover have "gi_inputs d = gi_inputs e" using eqs by (intro canonical_inputs.equality) simp_all
    ultimately show ?thesis using eqs by (intro growth_input.equality) simp_all
  qed
  ultimately show ?thesis by blast
qed

definition sample_inputs :: canonical_inputs where
  "sample_inputs = \<lparr>ci_prior = 100, ci_current = 125, ci_currency = ''USD'', ci_scale = 0\<rparr>"

definition sample_proof_input :: growth_input where
  "sample_proof_input = provisional_input ''R'' ''C'' ''sha256:aa'' (''E1'', ''E2'') sample_inputs ''sha256:bb''"

theorem input_commitment_binds_witness:
  "input_commitment (\<lambda>b. map (\<lambda>w. char_of (unat w)) b) sample_proof_input
     = input_commitment (\<lambda>b. map (\<lambda>w. char_of (unat w)) b) (sample_proof_input\<lparr>gi_input_commitment := ''x''\<rparr>)
   \<and> is_ok (input_commitment (\<lambda>b. map (\<lambda>w. char_of (unat w)) b) sample_proof_input)
   \<and> sample_proof_input\<lparr>gi_input_commitment := gi_input_commitment sample_proof_input\<rparr> = sample_proof_input"
proof -
  let ?sha = "\<lambda>b :: bytes. map (\<lambda>w. char_of (unat w)) b"
  have "is_ok (preimage (input_fields sample_proof_input))"
    by (rule preimage_ok)
      (simp add: input_fields_def sample_proof_input_def provisional_input_def input_schema_version_def
        sample_inputs_def int_text_def order.strict_trans1 [OF length_decimal [of _ 2]])
  then have ok: "is_ok (input_commitment ?sha sample_proof_input)"
    by (auto simp: is_ok_iff input_commitment_def finish_hash_def rbind_Inr_iff)
  then obtain c where c: "input_commitment ?sha sample_proof_input = Inr c" by (auto simp: is_ok_iff)
  moreover have "input_commitment ?sha (sample_proof_input\<lparr>gi_input_commitment := ''x''\<rparr>)
      = input_commitment ?sha sample_proof_input"
    by (simp add: input_commitment_def input_fields_def)
  ultimately show ?thesis using input_commitment_binds [OF c c] ok by auto
qed

end
