(* ===== verification/FinancialCapabilities.thy ===== *)
theory FinancialCapabilities
  imports FinanceDomain
begin

text \<open>
  \<open>src/capabilities/financial\<close>: the deterministic calculators for revenue growth and EBITDA margin. A
  calculator checks that its evidence is accepted and comparable, computes with decimals of 28 digits
  and returns a calculation record that names its evidence and keeps the texts of its inputs. The
  source fingerprint (\<open>capabilities/provenance.py\<close>, the hash of a file) and the Python version are the
  argument \<open>provenance\<close>.
\<close>

section \<open>Common checks\<close>

definition require_accepted :: "evidence \<Rightarrow> fin_exn + evidence" where
  "require_accepted r = (if evi_status r \<noteq> ES_ACCEPTED
     then Inl (UnacceptedEvidence (evi_id r)) else Inr r)"

definition decimal_input :: "pyvalue \<Rightarrow> fin_exn + decimal" where
  "decimal_input v = (if v = PyNone then Inl (MissingEvidence ''evidence value is missing'')
     else case to_decimal v of
       None \<Rightarrow> Inl (FinancialCapabilityError ''value is not numeric'')
     | Some d \<Rightarrow> Inr d)"

record provenance =
  pn_code_hash :: string
  pn_source_ref :: string
  pn_runtime_version :: string

section \<open>Revenue growth\<close>

definition calculate_revenue_growth :: "decimal \<Rightarrow> decimal \<Rightarrow> fin_exn + decimal" where
  "calculate_revenue_growth prior current =
     rbind (lift_dec (dec_le_zero prior)) (\<lambda>bad.
     if bad then Inl (NonPositivePriorRevenue ''REVENUE_GROWTH_PRIOR_REVENUE_MUST_BE_POSITIVE'')
     else rbind (lift_dec (dec_sub 28 current prior)) (\<lambda>change. lift_dec (dec_div 28 change prior)))"

definition growth_comparable :: "evidence \<Rightarrow> evidence \<Rightarrow> fin_exn + unit" where
  "growth_comparable prior current =
     rbind (guard (evi_field prior = ''revenue'' \<and> evi_field current = ''revenue'')
       (FinValueError ''revenue_growth requires revenue evidence'')) (\<lambda>_.
     rbind (guard (evi_run_id prior = evi_run_id current \<and> evi_object_id prior = evi_object_id current)
       (FinValueError ''revenue_growth requires one run and research object'')) (\<lambda>_.
     rbind (guard (evi_period_basis prior = Some PB_FY \<and> evi_period_basis current = Some PB_FY)
       (PeriodMismatch ''revenue_growth YoY requires two fiscal-year periods'')) (\<lambda>_.
     rbind (guard (adjacent_financial_periods (evi_period prior) (evi_period current))
       (PeriodMismatch ''revenue_growth YoY requires adjacent fiscal years'')) (\<lambda>_.
     rbind (guard (evi_actuality prior = evi_actuality current)
       (FinValueError ''revenue_growth requires compatible actual/estimate basis'')) (\<lambda>_.
     rbind (guard (truthy (evi_series prior) \<and> evi_series prior = evi_series current)
       (FinValueError ''revenue_growth requires one comparable statement series'')) (\<lambda>_.
     rbind (guard (evidence_unit_class (evi_unit prior) (evi_currency prior) = Some FU_CURRENCY
         \<and> evidence_unit_class (evi_unit current) (evi_currency current) = Some FU_CURRENCY)
       (FinValueError ''revenue_growth requires CURRENCY evidence'')) (\<lambda>_.
     guard (truthy (evi_currency prior) \<and> evi_currency prior = evi_currency current)
       (FinValueError ''revenue_growth requires one explicit, consistent currency''))))))))"

definition growth_snapshot :: "evidence \<Rightarrow> evidence \<Rightarrow> (string \<times> pyvalue) list" where
  "growth_snapshot prior current =
     [(''prior_revenue'', PyText (py_str (evi_value prior))),
      (''current_revenue'', PyText (py_str (evi_value current))),
      (''currency'', opt_value (evi_currency prior)),
      (''prior_period'', PyText (evi_period prior)),
      (''current_period'', PyText (evi_period current)),
      (''period_basis'', basis_value (evi_period_basis current)),
      (''actuality'', PyText (actuality_value (evi_actuality current))),
      (''statement_series'', opt_value (evi_series current))]"

definition execute_growth ::
    "provenance \<Rightarrow> string \<Rightarrow> string \<Rightarrow> string \<Rightarrow> evidence \<Rightarrow> evidence \<Rightarrow> fin_exn + calculation" where
  "execute_growth prov run_id task_id calculation_id prior0 current0 =
     rbind (require_accepted prior0) (\<lambda>prior.
     rbind (require_accepted current0) (\<lambda>current.
     rbind (growth_comparable prior current) (\<lambda>_.
     rbind (decimal_input (evi_value prior)) (\<lambda>p.
     rbind (decimal_input (evi_value current)) (\<lambda>c.
     rbind (calculate_revenue_growth p c) (\<lambda>value.
     Inr \<lparr>ca_id = calculation_id, ca_run_id = run_id, ca_task_id = task_id,
       ca_capability_id = ''revenue_growth'', ca_capability_version = ''1.1.0'',
       ca_formula_id = ''revenue_growth_v1'', ca_inputs = [evi_id prior, evi_id current],
       ca_snapshot = growth_snapshot prior current,
       ca_parameters =
         [(''formula_expression'', PyText ''(current_revenue - prior_revenue) / prior_revenue''),
          (''semantic_precondition'', PyText ''prior_revenue > 0''),
          (''financial_validation_reason'', PyText ''REVENUE_GROWTH_PRIOR_REVENUE_MUST_BE_POSITIVE'')],
       ca_output = PyDecimal value, ca_output_unit = ''ratio'', ca_status = CS_PASS,
       ca_implementation_hash = Some (pn_code_hash prov), ca_code_hash = Some (pn_code_hash prov),
       ca_source_ref = Some (pn_source_ref prov), ca_runtime_version = Some (pn_runtime_version prov),
       ca_review_record_id = None, ca_canonical_record_id = None, ca_proof_ref = None\<rparr>))))))"

section \<open>EBITDA margin\<close>

text \<open>Equality with zero signals only for a signalling NaN.\<close>

definition dec_is_zero :: "decimal \<Rightarrow> decimal_signal + bool" where
  "dec_is_zero d = (if d = DNaN True then Inl InvalidOperation else Inr (dec_cmp (=) d (Dec False 0 0)))"

definition calculate_ebitda_margin :: "decimal \<Rightarrow> decimal \<Rightarrow> fin_exn + decimal" where
  "calculate_ebitda_margin ebitda revenue =
     rbind (lift_dec (dec_is_zero revenue)) (\<lambda>zero.
     if zero then Inl (FinZeroDivision ''revenue must not be zero'')
     else lift_dec (dec_div 28 ebitda revenue))"

definition ebitda_comparable :: "evidence \<Rightarrow> evidence \<Rightarrow> fin_exn + unit" where
  "ebitda_comparable ebitda revenue =
     rbind (guard (evi_field ebitda = ''ebitda'' \<and> evi_field revenue = ''revenue'')
       (FinValueError ''ebitda_margin requires EBITDA and revenue evidence'')) (\<lambda>_.
     rbind (guard (evi_run_id ebitda = evi_run_id revenue \<and> evi_object_id ebitda = evi_object_id revenue)
       (FinValueError ''ebitda_margin requires one run and research object'')) (\<lambda>_.
     rbind (guard (evi_period ebitda = evi_period revenue)
       (PeriodMismatch ''EBITDA and revenue periods must match'')) (\<lambda>_.
     rbind (guard (evi_period_basis ebitda = evi_period_basis revenue)
       (PeriodMismatch ''EBITDA and revenue period basis must match'')) (\<lambda>_.
     rbind (guard (evi_actuality ebitda = evi_actuality revenue)
       (FinValueError ''EBITDA and revenue actual/estimate basis must match'')) (\<lambda>_.
     rbind (guard (evi_as_of ebitda = evi_as_of revenue \<and> evi_cohort ebitda = evi_cohort revenue)
       (FinValueError ''EBITDA and revenue statement cohort must match'')) (\<lambda>_.
     rbind (guard (evidence_unit_class (evi_unit ebitda) (evi_currency ebitda) = Some FU_CURRENCY
         \<and> evidence_unit_class (evi_unit revenue) (evi_currency revenue) = Some FU_CURRENCY)
       (FinValueError ''ebitda_margin requires CURRENCY evidence'')) (\<lambda>_.
     guard (truthy (evi_currency ebitda) \<and> evi_currency ebitda = evi_currency revenue)
       (FinValueError ''EBITDA and revenue currency must match''))))))))"

definition execute_ebitda ::
    "provenance \<Rightarrow> string \<Rightarrow> string \<Rightarrow> string \<Rightarrow> evidence \<Rightarrow> evidence \<Rightarrow> fin_exn + calculation" where
  "execute_ebitda prov run_id task_id calculation_id ebitda0 revenue0 =
     rbind (require_accepted ebitda0) (\<lambda>ebitda.
     rbind (require_accepted revenue0) (\<lambda>revenue.
     rbind (ebitda_comparable ebitda revenue) (\<lambda>_.
     rbind (decimal_input (evi_value ebitda)) (\<lambda>e.
     rbind (decimal_input (evi_value revenue)) (\<lambda>r.
     rbind (calculate_ebitda_margin e r) (\<lambda>value.
     Inr \<lparr>ca_id = calculation_id, ca_run_id = run_id, ca_task_id = task_id,
       ca_capability_id = ''ebitda_margin'', ca_capability_version = ''1.0.0'',
       ca_formula_id = ''ebitda_margin_v1'', ca_inputs = [evi_id ebitda, evi_id revenue],
       ca_snapshot =
         [(''ebitda'', PyText (py_str (evi_value ebitda))),
          (''revenue'', PyText (py_str (evi_value revenue))),
          (''currency'', opt_value (evi_currency revenue)),
          (''period'', PyText (evi_period revenue)),
          (''period_basis'', basis_value (evi_period_basis revenue)),
          (''actuality'', PyText (actuality_value (evi_actuality revenue))),
          (''statement_cohort'', opt_value (evi_cohort revenue))],
       ca_parameters = [],
       ca_output = PyDecimal value, ca_output_unit = ''ratio'', ca_status = CS_PASS,
       ca_implementation_hash = Some (pn_code_hash prov), ca_code_hash = Some (pn_code_hash prov),
       ca_source_ref = Some (pn_source_ref prov), ca_runtime_version = Some (pn_runtime_version prov),
       ca_review_record_id = None, ca_canonical_record_id = None, ca_proof_ref = None\<rparr>))))))"

section \<open>What the growth is\<close>

lemma dec_le_zero_finite:
  "is_finite d \<Longrightarrow> dec_le_zero d = Inr (dec_rat d \<le> 0)"
  by (cases d) (simp_all add: dec_le_zero_def signed_def)

lemma calculate_growth_value:
  assumes "calculate_revenue_growth p c = Inr v"
    and "is_finite p" "is_finite c" "decimal_wf p" "decimal_wf c"
  shows "0 < dec_rat p \<and> is_finite v \<and> decimal_wf v
    \<and> dec_rat v = dec_round 28 (dec_round 28 (dec_rat c - dec_rat p) / dec_rat p)"
proof -
  from assms(1) obtain d where pos: "0 < dec_rat p"
    and d: "dec_sub 28 c p = Inr d" "dec_div 28 d p = Inr v"
    by (auto simp: calculate_revenue_growth_def dec_le_zero_finite [OF assms(2)] lift_dec_def rbind_Inr_iff
        split: if_splits sum.splits)
  from dec_sub_value [OF _ d(1) assms(3,2)]
  have s: "is_finite d" "decimal_wf d" "dec_rat d = dec_round 28 (dec_rat c - dec_rat p)" by simp_all
  from dec_div_value [OF _ d(2) s(1) assms(2) s(2) assms(4)] pos s(3) show ?thesis by simp
qed

end
