(* ===== verification/FinancialModels.thy ===== *)
theory FinancialModels
  imports FinanceDomain
begin

text \<open>
  The released models of \<open>src/domain/financial_semantics.py\<close>: method metadata, metrics, claims,
  dispositions and source coverage, each with the normalisation and the validators that pydantic runs
  when an instance is made (\<open>make_metric\<close>, \<open>make_claim\<close>, ...), and the policy of
  \<open>src/domain/macd_policy.py\<close>.
\<close>

section \<open>Method metadata\<close>

record macd_policy =
  mp_id :: string
  mp_precision :: int
  mp_rounding :: string
  mp_fast :: int
  mp_slow :: int
  mp_signal :: int
  mp_adjust :: bool
  mp_seed :: string

definition macd_decimal_context_policy :: macd_policy where
  "macd_decimal_context_policy = \<lparr>mp_id = ''macd-decimal-context-v1'', mp_precision = 28,
     mp_rounding = ''ROUND_HALF_EVEN'', mp_fast = 12, mp_slow = 26, mp_signal = 9, mp_adjust = False,
     mp_seed = ''first_observation''\<rparr>"

definition warmup_required :: "macd_policy \<Rightarrow> int" where
  "warmup_required p = mp_slow p + mp_signal p - 1"

record method_metadata =
  mm_method :: string
  mm_parameters :: "(string \<times> string) list"
  mm_observation_count :: "int option"
  mm_warmup_required :: "int option"
  mm_warmup_satisfied :: "bool option"
  mm_first_as_of :: "date option"
  mm_last_as_of :: "date option"
  mm_is_wilder :: "bool option"
  mm_ema_adjust :: "bool option"
  mm_ema_seed :: "string option"
  mm_fast_span :: "int option"
  mm_slow_span :: "int option"
  mm_signal_span :: "int option"
  mm_policy_id :: "string option"
  mm_precision :: "int option"
  mm_rounding :: "string option"
  mm_price_basis :: "price_basis option"

definition at_least_one :: "int option \<Rightarrow> bool" where
  "at_least_one v \<longleftrightarrow> (case v of None \<Rightarrow> True | Some n \<Rightarrow> 1 \<le> n)"

definition macd_metadata_matches :: "method_metadata \<Rightarrow> bool" where
  "macd_metadata_matches m \<longleftrightarrow> (let p = macd_decimal_context_policy in
     mm_policy_id m = Some (mp_id p) \<and> mm_precision m = Some (mp_precision p)
     \<and> mm_rounding m = Some (mp_rounding p) \<and> mm_ema_adjust m = Some (mp_adjust p)
     \<and> mm_ema_seed m = Some (mp_seed p) \<and> mm_fast_span m = Some (mp_fast p)
     \<and> mm_slow_span m = Some (mp_slow p) \<and> mm_signal_span m = Some (mp_signal p)
     \<and> mm_warmup_required m = Some (warmup_required p))"

definition make_method :: "method_metadata \<Rightarrow> fin_exn + method_metadata" where
  "make_method m0 =
     rbind (guard (at_least_one (mm_observation_count m0) \<and> at_least_one (mm_warmup_required m0)
         \<and> at_least_one (mm_fast_span m0) \<and> at_least_one (mm_slow_span m0) \<and> at_least_one (mm_signal_span m0)
         \<and> at_least_one (mm_precision m0) \<and> strip (mm_method m0) \<noteq> []) FinPydantic) (\<lambda>_.
     let m = m0\<lparr>mm_method := strip (mm_method m0)\<rparr> in
     if mm_method m \<noteq> ''MACD_EMA_12_26_9_FIRST_OBSERVATION_SEED'' then Inr m
     else rbind (guard (macd_metadata_matches m) FinPydantic) (\<lambda>_.
          rbind (guard (mm_observation_count m \<noteq> None \<and> mm_warmup_satisfied m \<noteq> None) FinPydantic) (\<lambda>_.
          rbind (guard (mm_price_basis m \<noteq> None) FinPydantic) (\<lambda>_. Inr m))))"

section \<open>Metrics\<close>

record metric =
  me_id :: string
  me_calculation_id :: string
  me_name :: string
  me_canonical_value :: string
  me_unit :: financial_unit
  me_display_value :: string
  me_display_unit :: string
  me_period :: string
  me_period_basis :: period_basis
  me_actuality :: actuality
  me_as_of :: date
  me_currency :: "string option"
  me_formula_id :: string
  me_capability_id :: string
  me_evidence_ids :: "string list"
  me_method :: "method_metadata option"
  me_price_basis :: "price_basis option"
  me_action :: "action_status option"
  me_guard_refs :: "string list"
  me_limitations :: "string list"

definition metric_texts :: "metric \<Rightarrow> string list" where
  "metric_texts m = [me_id m, me_calculation_id m, me_name m, me_display_value m, me_display_unit m,
     me_period m, me_formula_id m, me_capability_id m]"

definition strip_metric :: "metric \<Rightarrow> metric" where
  "strip_metric m = m\<lparr>me_id := strip (me_id m), me_calculation_id := strip (me_calculation_id m),
     me_name := strip (me_name m), me_display_value := strip (me_display_value m),
     me_display_unit := strip (me_display_unit m), me_period := strip (me_period m),
     me_formula_id := strip (me_formula_id m), me_capability_id := strip (me_capability_id m)\<rparr>"

text \<open>\<open>ReleasedFinancialMetric.validate_semantics\<close>, in its order.\<close>

definition metric_semantics_valid :: "metric \<Rightarrow> bool" where
  "metric_semantics_valid m \<longleftrightarrow>
     infer_period_basis (me_period m) = Some (me_period_basis m)
     \<and> distinct (me_evidence_ids m) \<and> me_evidence_ids m \<noteq> []
     \<and> (me_unit m = FU_CURRENCY \<longrightarrow> truthy (me_currency m))
     \<and> (me_currency m \<noteq> None \<longrightarrow> strip (the (me_currency m)) \<noteq> [])
     \<and> (me_price_basis m = Some RAW_CLOSE \<longrightarrow>
          me_action m \<noteq> None \<and> me_action m \<noteq> Some CA_UNRESOLVED
          \<and> (me_action m = Some CA_UNASSESSED \<longrightarrow> me_limitations m \<noteq> [])
          \<and> (me_action m \<in> {Some CA_NONE_DETECTED, Some CA_RESOLVED} \<longrightarrow> me_guard_refs m \<noteq> []))
     \<and> (me_price_basis m = Some ADJUSTED_CLOSE \<longrightarrow> me_action m = Some CA_RESOLVED \<and> me_guard_refs m \<noteq> [])
     \<and> (take 5 (me_formula_id m) = ''macd_'' \<longrightarrow>
          (case me_method m of None \<Rightarrow> False | Some mm \<Rightarrow> mm_price_basis mm = me_price_basis m))"

text \<open>\<open>make_metric\<close> is given the value as the text that the caller already made canonical.\<close>

definition make_metric :: "metric \<Rightarrow> fin_exn + metric" where
  "make_metric m0 =
     rbind (case canonical_decimal (PyText (me_canonical_value m0)) of Inl _ \<Rightarrow> Inl FinPydantic | Inr v \<Rightarrow> Inr v) (\<lambda>v.
     rbind (guard (list_all (\<lambda>t. strip t \<noteq> []) (metric_texts m0)) FinPydantic) (\<lambda>_.
     let m = (strip_metric m0)\<lparr>me_canonical_value := v\<rparr> in
     rbind (guard (metric_semantics_valid m) FinPydantic) (\<lambda>_. Inr m)))"

section \<open>Claims and dispositions\<close>

record claim =
  cl_id :: string
  cl_run_id :: string
  cl_type :: string
  cl_statement :: string
  cl_metric_id :: string
  cl_value :: string
  cl_unit :: financial_unit
  cl_period :: string
  cl_period_basis :: period_basis
  cl_actuality :: actuality
  cl_as_of :: date
  cl_currency :: "string option"
  cl_calculation_refs :: "string list"
  cl_evidence_refs :: "string list"
  cl_judgment_refs :: "string list"

definition claim_support_valid :: "claim \<Rightarrow> bool" where
  "claim_support_valid c \<longleftrightarrow> strip (cl_statement c) \<noteq> [] \<and> strip (cl_id c) \<noteq> [] \<and> strip (cl_metric_id c) \<noteq> []
     \<and> infer_period_basis (cl_period c) = Some (cl_period_basis c)
     \<and> cl_calculation_refs c \<noteq> [] \<and> cl_evidence_refs c \<noteq> []
     \<and> distinct (cl_calculation_refs c) \<and> distinct (cl_evidence_refs c)
     \<and> (cl_unit c = FU_CURRENCY \<longrightarrow> truthy (cl_currency c))"

definition make_claim :: "claim \<Rightarrow> fin_exn + claim" where
  "make_claim c0 =
     rbind (case canonical_decimal (PyText (cl_value c0)) of Inl _ \<Rightarrow> Inl FinPydantic | Inr v \<Rightarrow> Inr v) (\<lambda>v.
     let c = c0\<lparr>cl_value := v\<rparr> in
     rbind (guard (claim_support_valid c) FinPydantic) (\<lambda>_. Inr c))"

datatype disposition_status = REPORTABLE | NON_REPORTABLE

record disposition =
  di_calculation_id :: string
  di_metric_id :: "string option"
  di_status :: disposition_status
  di_reason :: "string option"

definition make_disposition :: "disposition \<Rightarrow> fin_exn + disposition" where
  "make_disposition d =
     rbind (guard (strip (di_calculation_id d) \<noteq> []
       \<and> (di_metric_id d \<noteq> None \<longrightarrow> strip (the (di_metric_id d)) \<noteq> [])
       \<and> (di_reason d \<noteq> None \<longrightarrow> strip (the (di_reason d)) \<noteq> [])
       \<and> (if di_status d = REPORTABLE then truthy (di_metric_id d) \<and> di_reason d = None
          else truthy (di_reason d) \<and> di_metric_id d = None)) FinPydantic) (\<lambda>_. Inr d)"

section \<open>Source coverage\<close>

datatype coverage_status = SC_AVAILABLE | SC_BLOCKED | SC_EMPTY | SC_ERROR

record source_coverage =
  sc_status :: coverage_status
  sc_evidence_ids :: "string list"
  sc_reason :: "string option"
  sc_limitation :: "string option"

definition make_coverage :: "source_coverage \<Rightarrow> fin_exn + source_coverage" where
  "make_coverage c =
     rbind (guard (if sc_status c = SC_AVAILABLE then sc_evidence_ids c \<noteq> [] \<and> sc_reason c = None
       else truthy (sc_reason c) \<and> truthy (sc_limitation c)) FinPydantic) (\<lambda>_. Inr c)"

end
