(* ===== verification/FinancialMetrics.thy ===== *)
theory FinancialMetrics
  imports FinancialModels
begin

text \<open>
  \<open>src/output/financial_metrics.py\<close>: from the calculations of a run to the metrics and claims that a
  release carries. Every material formula yields one metric and one claim, in a fixed order; a missing
  or doubled formula, evidence of another run, or an inconsistent series stops the build.
\<close>

section \<open>Python values\<close>

definition snapshot_get :: "(string \<times> pyvalue) list \<Rightarrow> string \<Rightarrow> pyvalue" where
  "snapshot_get s k = (case map_of s k of None \<Rightarrow> PyNone | Some v \<Rightarrow> v)"

text \<open>A \<open>PyOther\<close> is taken to be a float here (below \<open>2^53\<close>), read from its \<open>repr\<close>.\<close>

fun py_truthy :: "pyvalue \<Rightarrow> bool" where
  "py_truthy PyNone = False"
| "py_truthy (PyBool b) = b"
| "py_truthy (PyInt i) = (i \<noteq> 0)"
| "py_truthy (PyDecimal d) = (\<not> dec_cmp (=) d (Dec False 0 0))"
| "py_truthy (PyText s) = (s \<noteq> [])"
| "py_truthy (PyList s vs) = (vs \<noteq> [])"
| "py_truthy (PyDict s kvs) = (kvs \<noteq> [])"
| "py_truthy (PyOther s) = (s \<notin> {''0.0'', ''-0.0''})"

text \<open>The literals that \<open>int(text)\<close> reads: a sign and digits, with single underscores between digits.\<close>

fun int_digits :: "string \<Rightarrow> bool" where
  "int_digits [] = False"
| "int_digits [c] = is_digit c"
| "int_digits (c # d # s) = (is_digit c \<and> int_digits (if d = CHR ''_'' then s else d # s))"

definition int_of_text :: "string \<Rightarrow> int option" where
  "int_of_text t = (case split_sign (strip t) of (neg, ds) \<Rightarrow>
     if int_digits ds then Some (signed neg (decimal_value (filter is_digit ds))) else None)"

fun py_int :: "pyvalue \<Rightarrow> fin_exn + int" where
  "py_int (PyInt i) = Inr i"
| "py_int (PyBool b) = Inr (if b then 1 else 0)"
| "py_int (PyDecimal (Dec s c x)) = Inr (the (dec_int (Dec s c x)))"
| "py_int (PyDecimal (DInf s)) = Inl FinOverflow"
| "py_int (PyDecimal (DNaN s)) = Inl (FinValueError ''cannot convert NaN to integer'')"
| "py_int (PyText t) = (case int_of_text t of None \<Rightarrow> Inl (FinValueError ''invalid literal for int()'') | Some i \<Rightarrow> Inr i)"
| "py_int (PyOther t) = (case parse_decimal t of
     Some (Dec s c x) \<Rightarrow> Inr (the (dec_int (Dec s c x)))
   | Some (DInf s) \<Rightarrow> Inl FinOverflow
   | Some (DNaN s) \<Rightarrow> Inl (FinValueError ''cannot convert float NaN to integer'')
   | None \<Rightarrow> Inl (FinTypeError ''int()''))"
| "py_int v = Inl (FinTypeError ''int()'')"

text \<open>\<open>text in value\<close>: membership in a list, substring of a text, key of a dict.\<close>

fun py_contains :: "string \<Rightarrow> pyvalue \<Rightarrow> fin_exn + bool" where
  "py_contains t (PyList s vs) = Inr (PyText t \<in> set vs)"
| "py_contains t (PyText s) = Inr (sublist t s)"
| "py_contains t (PyDict s kvs) = Inr (t \<in> fst ` set kvs)"
| "py_contains t v = Inl (FinTypeError ''argument is not iterable'')"

section \<open>Formulas\<close>

definition material_formulas :: "string list" where
  "material_formulas = [''revenue_growth_v1'', ''ebitda_margin_v1'',
     ''operating_cash_flow_plus_signed_capex_divided_by_revenue_v1'', ''sma_close_50_v1'',
     ''sma_close_200_v1'', ''rsi_close_14_simple_average_v1'', ''macd_line_close_12_26_adjust_false_v1'',
     ''macd_signal_close_12_26_9_adjust_false_v1'', ''macd_histogram_close_12_26_9_adjust_false_v1'',
     ''latest_volume_to_average_volume_20_v1'']"

record formula_spec =
  fs_code :: string
  fs_name :: string
  fs_unit :: financial_unit
  fs_display_unit :: string

definition spec :: "string \<Rightarrow> string \<Rightarrow> financial_unit \<Rightarrow> string \<Rightarrow> formula_spec" where
  "spec c n u d = \<lparr>fs_code = c, fs_name = n, fs_unit = u, fs_display_unit = d\<rparr>"

definition formula_specs :: "(string \<times> formula_spec) list" where
  "formula_specs =
     [(''revenue_growth_v1'', spec ''revenue_growth'' ''Revenue Growth'' FU_RATIO ''%''),
      (''ebitda_margin_v1'', spec ''ebitda_margin'' ''EBITDA Margin'' FU_RATIO ''%''),
      (''operating_cash_flow_plus_signed_capex_divided_by_revenue_v1'',
         spec ''free_cash_flow_margin'' ''Free Cash Flow Margin'' FU_RATIO ''%''),
      (''sma_close_50_v1'', spec ''sma_50'' ''50-Day Simple Moving Average'' FU_CURRENCY ''currency''),
      (''sma_close_200_v1'', spec ''sma_200'' ''200-Day Simple Moving Average'' FU_CURRENCY ''currency''),
      (''rsi_close_14_simple_average_v1'',
         spec ''rsi_14_simple'' ''RSI 14 (Simple Average, not Wilder)'' FU_INDEX ''index points''),
      (''macd_line_close_12_26_adjust_false_v1'', spec ''macd_line'' ''MACD Line 12/26 EMA'' FU_CURRENCY ''currency''),
      (''macd_signal_close_12_26_9_adjust_false_v1'', spec ''macd_signal'' ''MACD Signal 9 EMA'' FU_CURRENCY ''currency''),
      (''macd_histogram_close_12_26_9_adjust_false_v1'', spec ''macd_histogram'' ''MACD Histogram'' FU_CURRENCY ''currency''),
      (''latest_volume_to_average_volume_20_v1'', spec ''volume_ratio_20'' ''Volume Ratio 20'' FU_RATIO ''x'')]"

section \<open>Inputs of a metric\<close>

definition later :: "evidence \<Rightarrow> evidence \<Rightarrow> bool" where
  "later i b \<longleftrightarrow> evi_as_of b < evi_as_of i \<or> (evi_as_of b = evi_as_of i \<and> evi_id b < evi_id i)"

text \<open>\<open>max(inputs, key=lambda item: (item.as_of, item.evidence_id))\<close>, the first of equals.\<close>

definition anchor_of :: "evidence list \<Rightarrow> evidence" where
  "anchor_of inputs = foldl (\<lambda>b i. if later i b then i else b) (hd inputs) (tl inputs)"

definition currencies_of :: "evidence list \<Rightarrow> string list" where
  "currencies_of inputs = remdups (map (\<lambda>i. the (evi_currency i)) (filter (\<lambda>i. truthy (evi_currency i)) inputs))"

definition price_input :: "evidence \<Rightarrow> bool" where
  "price_input i \<longleftrightarrow> evi_field i \<in> {''close'', ''adjusted_close''}"

definition basis_of :: "evidence \<Rightarrow> price_basis" where
  "basis_of i = (case evi_price_basis i of Some b \<Rightarrow> b
     | None \<Rightarrow> if evi_field i = ''adjusted_close'' then ADJUSTED_CLOSE else RAW_CLOSE)"

definition action_of :: "evidence \<Rightarrow> action_status" where
  "action_of i = (case evi_action i of Some a \<Rightarrow> a | None \<Rightarrow> CA_UNASSESSED)"

text \<open>\<open>quantize(Decimal("0.01"), rounding=ROUND_HALF_UP)\<close> in the default context.\<close>

definition half_up :: "int \<Rightarrow> int \<Rightarrow> int" where
  "half_up n d = (if d \<le> 2 * (n mod d) then n div d + 1 else n div d)"

fun quantize_cents :: "decimal \<Rightarrow> decimal_signal + decimal" where
  "quantize_cents (Dec s c x) =
     (let q = (if - 2 \<le> x then c * 10 ^ nat (x + 2) else half_up c (10 ^ nat (- 2 - x)))
      in if 10 ^ nat prec \<le> q then Inl InvalidOperation else Inr (Dec s q (- 2)))"
| "quantize_cents d = Inl InvalidOperation"

definition display_decimal :: "decimal \<Rightarrow> bool \<Rightarrow> fin_exn + string" where
  "display_decimal d percent =
     rbind (if percent then lift_dec (dec_mul prec d (dec_of_int 100)) else Inr d) (\<lambda>e.
     rbind (lift_dec (quantize_cents e)) (\<lambda>q. Inr (format_f q)))"

definition display_value :: "string \<Rightarrow> formula_spec \<Rightarrow> fin_exn + string" where
  "display_value v sp = (case parse_decimal v of
     None \<Rightarrow> Inl (FinDecimal InvalidOperation)
   | Some d \<Rightarrow> display_decimal d (fs_display_unit sp = ''%''))"

section \<open>Method metadata\<close>

definition plain_method :: method_metadata where
  "plain_method = \<lparr>mm_method = [], mm_parameters = [], mm_observation_count = None, mm_warmup_required = None,
     mm_warmup_satisfied = None, mm_first_as_of = None, mm_last_as_of = None, mm_is_wilder = None,
     mm_ema_adjust = None, mm_ema_seed = None, mm_fast_span = None, mm_slow_span = None,
     mm_signal_span = None, mm_policy_id = None, mm_precision = None, mm_rounding = None,
     mm_price_basis = None\<rparr>"

definition min_date :: "evidence list \<Rightarrow> date" where
  "min_date inputs = foldl (\<lambda>a i. min a (evi_as_of i)) (evi_as_of (hd inputs)) (tl inputs)"

definition max_date :: "evidence list \<Rightarrow> date" where
  "max_date inputs = foldl (\<lambda>a i. max a (evi_as_of i)) (evi_as_of (hd inputs)) (tl inputs)"

definition method_metadata_of :: "calculation \<Rightarrow> evidence list \<Rightarrow> fin_exn + method_metadata" where
  "method_metadata_of calc inputs =
     (let snapshot = ca_snapshot calc; f = ca_formula_id calc;
          observed = snapshot_get snapshot ''observation_count'' in
      rbind (if py_truthy observed then py_int observed
             else Inr (int (length (remdups (map evi_as_of inputs))))) (\<lambda>count.
      let base = plain_method\<lparr>mm_observation_count := Some count,
                   mm_first_as_of := Some (min_date inputs), mm_last_as_of := Some (max_date inputs)\<rparr> in
      if f = ''rsi_close_14_simple_average_v1''
      then make_method (base\<lparr>mm_method := ''RSI_SIMPLE_AVERAGE_NOT_WILDER'', mm_parameters := [(''period'', ''14'')],
             mm_warmup_required := Some 15, mm_warmup_satisfied := Some (15 \<le> count), mm_is_wilder := Some False\<rparr>)
      else if take 5 f = ''macd_''
      then let p = macd_decimal_context_policy; bases = remdups (map basis_of inputs) in
        rbind (guard (length bases = 1) (FinValueError ''MACD methodology requires one technical price basis'')) (\<lambda>_.
        make_method (base\<lparr>mm_method := ''MACD_EMA_12_26_9_FIRST_OBSERVATION_SEED'',
             mm_parameters := [(''fast'', int_text (mp_fast p)), (''slow'', int_text (mp_slow p)), (''signal'', int_text (mp_signal p))],
             mm_warmup_required := Some (warmup_required p), mm_warmup_satisfied := Some (warmup_required p \<le> count),
             mm_ema_adjust := Some (mp_adjust p), mm_ema_seed := Some (mp_seed p), mm_fast_span := Some (mp_fast p),
             mm_slow_span := Some (mp_slow p), mm_signal_span := Some (mp_signal p), mm_policy_id := Some (mp_id p),
             mm_precision := Some (mp_precision p), mm_rounding := Some (mp_rounding p),
             mm_price_basis := Some (hd bases)\<rparr>))
      else let w = snapshot_get snapshot ''window'' in
        rbind (if py_truthy w then py_int w else Inr 1) (\<lambda>window.
        make_method (base\<lparr>mm_method := (if take 4 f = ''sma_'' then ''SIMPLE_MOVING_AVERAGE'' else ''VOLUME_RATIO''),
             mm_parameters := [(''window'', int_text window)], mm_warmup_required := Some window,
             mm_warmup_satisfied := Some (window \<le> count)\<rparr>))))"

section \<open>Metrics and claims\<close>

definition raw_close_limitation :: string where
  "raw_close_limitation =
     ''Technical indicator uses RAW_CLOSE; corporate-action adjustment was not available for the accepted lookback window.''"

text \<open>What the price inputs say: basis, corporate-action status, guard references and limitations.\<close>

definition price_facts :: "evidence list
    \<Rightarrow> fin_exn + (price_basis option \<times> action_status option \<times> string list \<times> string list)" where
  "price_facts inputs =
     (let prices = filter price_input inputs in
      if prices = [] then Inr (None, None, [], [])
      else let bases = remdups (map basis_of prices); actions = remdups (map action_of prices) in
        rbind (guard (length bases = 1 \<and> length actions = 1)
          (FinValueError ''technical metric inputs must use one basis and action status'')) (\<lambda>_.
        rbind (guard (hd actions \<noteq> CA_UNRESOLVED)
          (FinValueError ''unresolved corporate action blocks technical metric release'')) (\<lambda>_.
        Inr (Some (hd bases), Some (hd actions),
          if hd actions \<in> {CA_NONE_DETECTED, CA_RESOLVED} then map evi_id prices else [],
          if hd bases = RAW_CLOSE \<and> hd actions = CA_UNASSESSED then [raw_close_limitation] else []))))"

definition technical_formula :: "string \<Rightarrow> bool" where
  "technical_formula f \<longleftrightarrow> f \<notin> set (take 3 material_formulas)"

definition metric_of :: "calculation \<Rightarrow> evidence list \<Rightarrow> fin_exn + metric" where
  "metric_of calc inputs =
     (case map_of formula_specs (ca_formula_id calc) of
        None \<Rightarrow> Inl (FinKeyError (ca_formula_id calc))
      | Some sp \<Rightarrow>
     let technical = technical_formula (ca_formula_id calc); anchor = anchor_of inputs in
     rbind (if technical then Inr (''DAILY'', PB_DAILY)
            else (case evi_period_basis anchor of
                None \<Rightarrow> Inl (FinValueError ''material statement calculation lacks period basis'')
              | Some b \<Rightarrow> Inr (evi_period anchor, b))) (\<lambda>(period, basis).
     let currencies = currencies_of inputs;
         currency = (if currencies = [] then None else Some (hd currencies)) in
     rbind (guard (length currencies \<le> 1) (FinValueError ''material calculation has inconsistent currency'')) (\<lambda>_.
     rbind (guard (\<not> (fs_unit sp = FU_CURRENCY \<and> currency = None))
       (FinValueError ''currency material metric lacks currency'')) (\<lambda>_.
     rbind (canonical_decimal (ca_output calc)) (\<lambda>canonical.
     rbind (display_value canonical sp) (\<lambda>display.
     rbind (if technical then rbind (method_metadata_of calc inputs) (\<lambda>m. Inr (Some m)) else Inr None) (\<lambda>method.
     rbind (price_facts inputs) (\<lambda>(price, action, guards, limits).
     make_metric \<lparr>me_id = ''METRIC-'' @ ca_id calc, me_calculation_id = ca_id calc, me_name = fs_name sp,
       me_canonical_value = canonical, me_unit = fs_unit sp, me_display_value = display,
       me_display_unit = (if fs_display_unit sp = ''currency'' then the currency else fs_display_unit sp),
       me_period = period, me_period_basis = basis, me_actuality = evi_actuality anchor,
       me_as_of = evi_as_of anchor, me_currency = currency, me_formula_id = ca_formula_id calc,
       me_capability_id = ca_capability_id calc, me_evidence_ids = ca_inputs calc, me_method = method,
       me_price_basis = price, me_action = action, me_guard_refs = guards, me_limitations = limits\<rparr>))))))))"

text \<open>The display unit is missing only for a currency metric without currency, which is refused before.\<close>

definition claim_statement :: "metric \<Rightarrow> fin_exn + string" where
  "claim_statement m =
     (let display = me_display_value m @ me_display_unit m in
      if me_capability_id m = ''revenue_growth''
      then (case parse_decimal (me_canonical_value m) of
          None \<Rightarrow> Inl (FinDecimal InvalidOperation)
        | Some d \<Rightarrow> Inr (''Revenue '' @ (if dec_cmp (\<ge>) d (Dec False 0 0) then ''increased'' else ''decreased'')
            @ '' '' @ display @ '' YoY for '' @ me_period m @ ''.''))
      else Inr (me_name m @ '' was '' @ display @ '' for '' @ me_period m @ '' as of '' @ isoformat (me_as_of m) @ ''.''))"

definition material_inputs :: "calculation \<Rightarrow> evidence list \<Rightarrow> fin_exn + evidence list" where
  "material_inputs calc evidence =
     rbind (rmap (\<lambda>k. case map_of (rev (map (\<lambda>e. (evi_id e, e)) evidence)) k of
         None \<Rightarrow> Inl (FinValueError ''material calculation references missing evidence'')
       | Some e \<Rightarrow> Inr e) (ca_inputs calc)) (\<lambda>inputs.
     rbind (guard (inputs \<noteq> [] \<and> list_all (\<lambda>i. evi_run_id i = ca_run_id calc) inputs)
       (FinValueError ''material calculation evidence belongs to another run'')) (\<lambda>_. Inr inputs))"

type_synonym judgement = "(string \<times> pyvalue) list"

definition is_text :: "pyvalue \<Rightarrow> bool" where
  "is_text v = (case v of PyText t \<Rightarrow> True | _ \<Rightarrow> False)"

fun text_of :: "pyvalue \<Rightarrow> string" where
  "text_of (PyText t) = t"
| "text_of v = []"

definition judgment_refs_of :: "judgement list \<Rightarrow> calculation \<Rightarrow> fin_exn + string list" where
  "judgment_refs_of judgments calc =
     rbind (rmap (\<lambda>j. rbind (case map_of j ''calculation_ids'' of None \<Rightarrow> Inr False
           | Some v \<Rightarrow> py_contains (ca_id calc) v) (\<lambda>b.
         Inr (if b \<and> is_text (snapshot_get j ''judgment_id'') then [text_of (snapshot_get j ''judgment_id'')] else [])))
       judgments) (\<lambda>rs. Inr (concat rs))"

definition claim_of :: "string \<Rightarrow> judgement list \<Rightarrow> calculation \<Rightarrow> metric \<Rightarrow> fin_exn + claim" where
  "claim_of run_id judgments calc m =
     rbind (judgment_refs_of judgments calc) (\<lambda>refs.
     rbind (claim_statement m) (\<lambda>statement.
     make_claim \<lparr>cl_id = ''CLAIM-'' @ ca_id calc, cl_run_id = run_id, cl_type = ''MATERIAL_FINANCIAL_METRIC'',
       cl_statement = statement, cl_metric_id = me_id m, cl_value = me_canonical_value m, cl_unit = me_unit m,
       cl_period = me_period m, cl_period_basis = me_period_basis m, cl_actuality = me_actuality m,
       cl_as_of = me_as_of m, cl_currency = me_currency m, cl_calculation_refs = [ca_id calc],
       cl_evidence_refs = me_evidence_ids m, cl_judgment_refs = refs\<rparr>))"

section \<open>The release\<close>

definition by_formula_step ::
    "(string \<times> calculation) list \<Rightarrow> calculation \<Rightarrow> fin_exn + (string \<times> calculation) list" where
  "by_formula_step acc c =
     (if map_of formula_specs (ca_formula_id c) = None then Inr acc
      else if map_of acc (ca_formula_id c) \<noteq> None then Inl (FinValueError ''duplicate material formula'')
      else Inr (acc @ [(ca_formula_id c, c)]))"

definition release_one ::
    "string \<Rightarrow> evidence list \<Rightarrow> judgement list \<Rightarrow> calculation \<Rightarrow> fin_exn + (metric \<times> claim \<times> disposition)" where
  "release_one run_id evidence judgments calc =
     rbind (guard (ca_run_id calc = run_id \<and> truthy (ca_implementation_hash calc))
       (FinValueError ''material calculation lacks run or implementation identity'')) (\<lambda>_.
     rbind (material_inputs calc evidence) (\<lambda>inputs.
     rbind (metric_of calc inputs) (\<lambda>m.
     rbind (claim_of run_id judgments calc m) (\<lambda>c.
     rbind (make_disposition \<lparr>di_calculation_id = ca_id calc, di_metric_id = Some (me_id m),
         di_status = REPORTABLE, di_reason = None\<rparr>) (\<lambda>d. Inr (m, c, d))))))"

definition build_material_financial_release ::
    "string \<Rightarrow> evidence list \<Rightarrow> calculation list \<Rightarrow> judgement list \<Rightarrow> string list
       \<Rightarrow> fin_exn + (metric \<times> claim \<times> disposition) list" where
  "build_material_financial_release run_id evidence calculations judgments unavailable =
     rbind (rfold by_formula_step [] calculations) (\<lambda>by_formula.
     rbind (guard (set (filter (\<lambda>f. map_of by_formula f = None) material_formulas) = set unavailable)
       (FinValueError ''material calculation set mismatch'')) (\<lambda>_.
     rmap (\<lambda>f. release_one run_id evidence judgments (the (map_of by_formula f)))
       (filter (\<lambda>f. f \<notin> set unavailable) material_formulas)))"

section \<open>Source coverage\<close>

fun coverage_status_value :: "coverage_status \<Rightarrow> string" where
  "coverage_status_value SC_AVAILABLE = ''AVAILABLE''"
| "coverage_status_value SC_BLOCKED = ''BLOCKED''"
| "coverage_status_value SC_EMPTY = ''EMPTY''"
| "coverage_status_value SC_ERROR = ''ERROR''"

text \<open>The non-empty texts of an iterable; a text yields its characters and a dict its keys.\<close>

fun texts_in :: "pyvalue \<Rightarrow> fin_exn + string list" where
  "texts_in (PyList s vs) = Inr (filter (\<lambda>t. t \<noteq> []) (map text_of (filter is_text vs)))"
| "texts_in (PyText s) = Inr (map (\<lambda>c. [c]) s)"
| "texts_in (PyDict s kvs) = Inr (filter (\<lambda>t. t \<noteq> []) (map fst kvs))"
| "texts_in v = Inl (FinTypeError ''object is not iterable'')"

definition title :: "string \<Rightarrow> string" where
  "title s = (case s of [] \<Rightarrow> [] | c # cs \<Rightarrow> upper_char c # map lower_char cs)"

text \<open>The sources are the single words \<open>news\<close> and \<open>transcript\<close>, so that \<open>str.title\<close> has one word.\<close>

definition source_coverage_of :: "string \<Rightarrow> pyvalue \<Rightarrow> fin_exn + source_coverage" where
  "source_coverage_of source v =
     (let details = (case v of PyDict s kvs \<Rightarrow> kvs | _ \<Rightarrow> []);
          status_text = py_str (case map_of details ''status'' of None \<Rightarrow> PyText ''EMPTY'' | Some t \<Rightarrow> t);
          declared = (case List.find (\<lambda>c. coverage_status_value c = status_text)
              [SC_AVAILABLE, SC_BLOCKED, SC_EMPTY, SC_ERROR] of Some c \<Rightarrow> c | None \<Rightarrow> SC_ERROR) in
      rbind (case map_of details ''accepted_evidence_ids'' of None \<Rightarrow> Inr [] | Some w \<Rightarrow> texts_in w) (\<lambda>ids.
      let status = (if declared = SC_AVAILABLE \<and> ids = [] then SC_EMPTY else declared) in
      if status = SC_AVAILABLE
      then make_coverage \<lparr>sc_status = status, sc_evidence_ids = ids, sc_reason = None, sc_limitation = None\<rparr>
      else let code = snapshot_get details ''error_code'';
               reason = (if py_truthy code then py_str code else upper source @ ''_'' @ coverage_status_value status)
        in make_coverage \<lparr>sc_status = status, sc_evidence_ids = [], sc_reason = Some reason,
             sc_limitation = Some (title source @ '' unavailable: '' @ reason @ ''.'')\<rparr>))"

record research_coverage =
  rcv_news :: source_coverage
  rcv_transcript :: source_coverage
  rcv_limitations :: "string list"

definition build_research_source_coverage :: "(string \<times> pyvalue) list \<Rightarrow> fin_exn + research_coverage" where
  "build_research_source_coverage result =
     (let m = (case snapshot_get result ''source_coverage'' of PyDict s kvs \<Rightarrow> kvs | _ \<Rightarrow> []) in
      rbind (source_coverage_of ''news'' (snapshot_get m ''news'')) (\<lambda>news.
      rbind (source_coverage_of ''transcript'' (snapshot_get m ''transcript'')) (\<lambda>transcript.
      Inr \<lparr>rcv_news = news, rcv_transcript = transcript,
        rcv_limitations = map the (filter (\<lambda>l. l \<noteq> None) [sc_limitation news, sc_limitation transcript])\<rparr>)))"

end
