(* ===== verification/FinancialReview.thy ===== *)
theory FinancialReview
  imports FinancialMetrics "HOL-Library.AList"
begin

text \<open>
  \<open>src/assurance\<close>: the deterministic reviewer, the requirement context, and the independent financial
  reviewer. The independent reviewer recomputes every material calculation from the evidence with its
  own arithmetic, checks that metrics and claims are bound to it, and passes a run only when every
  check passes. Its records are those of \<open>FinanceDomain\<close> and \<open>FinancialModels\<close>; the SHA-256 of the JSON
  dump of the reviewed inputs is the parameter \<open>snapshot\<close> (None when serialising raises a type or value
  error).
\<close>

section \<open>Deterministic review\<close>

text \<open>\<open>{record.evidence_id: record for record in evidence}\<close>.\<close>

definition evidence_dict :: "evidence list \<Rightarrow> (string \<times> evidence) list" where
  "evidence_dict evidence = foldl (\<lambda>d e. AList.update (evi_id e) e d) [] evidence"

definition evidence_findings :: "(string \<times> evidence) list \<Rightarrow> review_finding list" where
  "evidence_findings d = map (\<lambda>(k, e). EvidenceNotAccepted (evi_id e) (evi_status e))
     (filter (\<lambda>(k, e). evi_status e \<noteq> ES_ACCEPTED) d)"

definition calculation_findings :: "(string \<times> evidence) list \<Rightarrow> calculation \<Rightarrow> review_finding list" where
  "calculation_findings d c =
     (let missing = sort (remdups (filter (\<lambda>k. map_of d k = None) (ca_inputs c)));
          periods = map (\<lambda>k. evi_period (the (map_of d k))) (ca_inputs c)
      in (if ca_status c \<noteq> CS_PASS then [CalculationFailed (ca_id c)] else [])
         @ (if missing \<noteq> [] then [EvidenceReferenceMissing (ca_id c) missing]
            else if ca_formula_id c = ''ebitda_margin_v1'' \<and> 1 < length (remdups periods)
            then [PeriodsDiffer (ca_id c) periods] else []))"

definition deterministic_review ::
    "string \<Rightarrow> string \<Rightarrow> evidence list \<Rightarrow> calculation list \<Rightarrow> pyvalue list \<Rightarrow> fin_exn + review" where
  "deterministic_review review_id run_id evidence calculations semantic =
     (let d = evidence_dict evidence;
          findings = evidence_findings d @ concat (map (calculation_findings d) calculations) in
      make_review \<lparr>rr_id = review_id, rr_run_id = run_id,
        rr_status = (if findings \<noteq> [] then RV_BLOCK else if semantic \<noteq> [] then RV_REVIEW else RV_PASS),
        rr_findings = findings, rr_semantic = semantic, rr_evidence_refs = [], rr_calculation_refs = [],
        rr_metric_refs = [], rr_claim_refs = [], rr_judgment_refs = [], rr_proof_refs = [], rr_checks = [],
        rr_snapshot_hash = None, rr_context = None, rr_reviewer = ''deterministic-review-v1''\<rparr>)"

section \<open>Requirements\<close>

definition required_capabilities :: "string list \<Rightarrow> string list" where
  "required_capabilities requirements = filter (\<lambda>r. r \<notin>
     {''deterministic_financial_calculations_only'', ''calculation_records_for_reported_values''}) requirements"

definition requirement_context_of ::
    "string \<Rightarrow> string \<Rightarrow> string list \<Rightarrow> branch_result list \<Rightarrow> requirement_context" where
  "requirement_context_of scheme_id scheme_hash requirements branches =
     \<lparr>qc_version = ''financial-requirements/v1'', qc_scheme_id = scheme_id, qc_scheme_hash = scheme_hash,
      qc_required = sort (remdups (required_capabilities requirements)), qc_branches = branches\<rparr>"

definition branch_formulas :: "(string \<times> string list) list" where
  "branch_formulas =
     [(''free_cash_flow_margin'', [''operating_cash_flow_plus_signed_capex_divided_by_revenue_v1'']),
      (''technical_sma_50'', [''sma_close_50_v1'']),
      (''technical_sma_200'', [''sma_close_200_v1'']),
      (''technical_rsi_14'', [''rsi_close_14_simple_average_v1'']),
      (''technical_macd_12_26_9'', [''macd_line_close_12_26_adjust_false_v1'',
         ''macd_signal_close_12_26_9_adjust_false_v1'', ''macd_histogram_close_12_26_9_adjust_false_v1'']),
      (''technical_volume_ratio_20'', [''latest_volume_to_average_volume_20_v1''])]"

definition claim_dependencies_available :: "string list \<Rightarrow> branch_result list \<Rightarrow> bool" where
  "claim_dependencies_available required results =
     (let index = foldl (\<lambda>d b. AList.update (br_id b) b d) [] results in
      required \<noteq> [] \<and> list_all (\<lambda>k. case map_of index k of None \<Rightarrow> False
        | Some b \<Rightarrow> br_status b = BS_COMPLETED) required)"

section \<open>Recomputation\<close>

text \<open>\<open>_decimal\<close>: booleans and \<open>None\<close> are refused, and the number has to be finite.\<close>

definition rv_decimal :: "pyvalue \<Rightarrow> fin_exn + decimal" where
  "rv_decimal v =
     (if v = PyNone \<or> v \<in> {PyBool True, PyBool False} then Inl (FinValueError ''financial value must be numeric'')
      else case to_decimal v of
        None \<Rightarrow> Inl (FinDecimal InvalidOperation)
      | Some d \<Rightarrow> if is_finite d then Inr d else Inl (FinValueError ''financial value must be finite''))"

definition rv_values :: "evidence list \<Rightarrow> string \<Rightarrow> fin_exn + decimal list" where
  "rv_values inputs field = rmap (\<lambda>i. rv_decimal (evi_value i)) (filter (\<lambda>i. evi_field i = field) inputs)"

definition dec_neg :: "int \<Rightarrow> decimal \<Rightarrow> decimal_signal + decimal" where
  "dec_neg p d = (case d of Dec s c x \<Rightarrow> if c = 0 then Inr (Dec False 0 x) else dec_mul p d (Dec True 1 0)
     | _ \<Rightarrow> Inr (dec_minus d))"

fun dec_sum :: "int \<Rightarrow> decimal \<Rightarrow> decimal list \<Rightarrow> fin_exn + decimal" where
  "dec_sum p acc [] = Inr acc"
| "dec_sum p acc (d # ds) = rbind (lift_dec (dec_add p acc d)) (\<lambda>acc'. dec_sum p acc' ds)"

definition dec_zero :: decimal where
  "dec_zero = Dec False 0 0"

definition max_zero :: "decimal \<Rightarrow> decimal" where
  "max_zero d = (if dec_cmp (<) d dec_zero then dec_zero else d)"

text \<open>\<open>_ema\<close> from a first value on; the result is the list of averages.\<close>

fun ema_from :: "decimal \<Rightarrow> decimal \<Rightarrow> decimal list \<Rightarrow> fin_exn + decimal list" where
  "ema_from alpha prev [] = Inr []"
| "ema_from alpha prev (v # vs) =
     rbind (lift_dec (dec_sub 28 v prev)) (\<lambda>diff.
     rbind (lift_dec (dec_mul 28 alpha diff)) (\<lambda>step.
     rbind (lift_dec (dec_add 28 prev step)) (\<lambda>next_value.
     rbind (ema_from alpha next_value vs) (\<lambda>rest. Inr (next_value # rest)))))"

definition ema :: "decimal list \<Rightarrow> int \<Rightarrow> fin_exn + decimal list" where
  "ema values width = (case values of
     [] \<Rightarrow> Inl (FinValueError ''EMA inputs are empty'')
   | v # vs \<Rightarrow> rbind (lift_dec (dec_div 28 (dec_of_int 2) (dec_of_int (width + 1)))) (\<lambda>alpha.
       rbind (ema_from alpha v vs) (\<lambda>rest. Inr (v # rest))))"

fun pairwise_sub :: "int \<Rightarrow> decimal list \<Rightarrow> decimal list \<Rightarrow> fin_exn + decimal list" where
  "pairwise_sub p (a # as) (b # bs) =
     rbind (lift_dec (dec_sub p a b)) (\<lambda>d. rbind (pairwise_sub p as bs) (\<lambda>ds. Inr (d # ds)))"
| "pairwise_sub p as bs = Inr []"

text \<open>The last \<open>n\<close> elements: \<open>xs[-n:]\<close>.\<close>

definition last_n :: "nat \<Rightarrow> 'a list \<Rightarrow> 'a list" where
  "last_n n xs = drop (length xs - n) xs"

definition recompute_growth :: "evidence list \<Rightarrow> fin_exn + decimal" where
  "recompute_growth inputs =
     rbind (rmap (\<lambda>i. rv_decimal (evi_value i)) inputs) (\<lambda>values. case values of
       [prior, current] \<Rightarrow>
         rbind (lift_dec (dec_le_zero prior)) (\<lambda>bad.
         if bad then Inl (FinValueError ''REVENUE_GROWTH_PRIOR_REVENUE_MUST_BE_POSITIVE'')
         else rbind (lift_dec (dec_sub 28 current prior)) (\<lambda>change. lift_dec (dec_div 28 change prior)))
     | _ \<Rightarrow> Inl (FinValueError ''values to unpack''))"

text \<open>\<open>{item.normalized_field: _decimal(item.normalized_value) for item in inputs}\<close> and a lookup.\<close>

definition field_values :: "evidence list \<Rightarrow> fin_exn + (string \<times> decimal) list" where
  "field_values inputs = rbind (rmap (\<lambda>i. rbind (rv_decimal (evi_value i)) (\<lambda>d. Inr (evi_field i, d))) inputs)
     (\<lambda>kvs. Inr (rev kvs))"

definition field_get :: "(string \<times> 'a) list \<Rightarrow> string \<Rightarrow> fin_exn + 'a" where
  "field_get d k = (case map_of d k of None \<Rightarrow> Inl (FinKeyError k) | Some v \<Rightarrow> Inr v)"

definition average_of :: "decimal list \<Rightarrow> int \<Rightarrow> fin_exn + decimal" where
  "average_of values n = rbind (dec_sum 50 dec_zero values) (\<lambda>s. lift_dec (dec_div 50 s (dec_of_int n)))"

definition rsi_of :: "decimal \<Rightarrow> decimal \<Rightarrow> fin_exn + decimal" where
  "rsi_of gain loss =
     (if dec_cmp (=) loss dec_zero
      then Inr (if dec_cmp (=) gain dec_zero then dec_of_int 50 else dec_of_int 100)
      else if dec_cmp (=) gain dec_zero then Inr (dec_of_int 0)
      else rbind (lift_dec (dec_div 50 gain loss)) (\<lambda>strength.
           rbind (lift_dec (dec_add 50 (dec_of_int 1) strength)) (\<lambda>base.
           rbind (lift_dec (dec_div 50 (dec_of_int 100) base)) (\<lambda>share.
           lift_dec (dec_sub 50 (dec_of_int 100) share)))))"

definition recompute_rsi :: "decimal list \<Rightarrow> fin_exn + decimal" where
  "recompute_rsi closes =
     (let earlier = butlast (last_n 15 closes) in
      rbind (guard (length earlier = length (last_n 14 closes)) (FinValueError ''zip() argument 2 is longer'')) (\<lambda>_.
      rbind (pairwise_sub 50 (last_n 14 closes) earlier) (\<lambda>changes.
      rbind (rmap (\<lambda>c. rbind (lift_dec (dec_neg 50 c)) (\<lambda>n. Inr (max_zero n))) changes) (\<lambda>losses.
      rbind (average_of (map max_zero changes) 14) (\<lambda>gain.
      rbind (average_of losses 14) (\<lambda>loss. rsi_of gain loss))))))"

definition recompute_macd :: "string \<Rightarrow> decimal list \<Rightarrow> fin_exn + decimal" where
  "recompute_macd f closes =
     (let p = macd_decimal_context_policy in
      rbind (ema closes (mp_fast p)) (\<lambda>fast.
      rbind (ema closes (mp_slow p)) (\<lambda>slow.
      rbind (pairwise_sub 28 fast slow) (\<lambda>line.
      rbind (ema line (mp_signal p)) (\<lambda>sig.
      if f = ''macd_line_close_12_26_adjust_false_v1'' then Inr (last line)
      else if f = ''macd_signal_close_12_26_9_adjust_false_v1'' then Inr (last sig)
      else lift_dec (dec_sub 28 (last line) (last sig)))))))"

definition recompute_technical :: "string \<Rightarrow> evidence list \<Rightarrow> fin_exn + decimal" where
  "recompute_technical f inputs =
     rbind (rbind (rv_values inputs ''adjusted_close'') (\<lambda>adjusted.
        if adjusted \<noteq> [] then Inr adjusted else rv_values inputs ''close'')) (\<lambda>closes.
     if take 5 f = ''macd_'' then recompute_macd f closes
     else if f = ''sma_close_50_v1'' then average_of (last_n 50 closes) 50
     else if f = ''sma_close_200_v1'' then average_of (last_n 200 closes) 200
     else if f = ''rsi_close_14_simple_average_v1'' then recompute_rsi closes
     else if f = ''latest_volume_to_average_volume_20_v1''
     then rbind (rv_values inputs ''volume'') (\<lambda>all_volumes.
          let volume = last_n 20 all_volumes in
          rbind (average_of volume 20) (\<lambda>average.
          if dec_cmp (=) average dec_zero then Inl (FinValueError ''average volume is zero'')
          else lift_dec (dec_div 50 (last volume) average)))
     else Inl (FinValueError ''unsupported material formula''))"

definition recompute :: "string \<Rightarrow> evidence list \<Rightarrow> fin_exn + decimal" where
  "recompute f inputs =
     (if f = ''revenue_growth_v1'' then recompute_growth inputs
      else if f = ''ebitda_margin_v1''
      then rbind (field_values inputs) (\<lambda>d.
           rbind (field_get d ''ebitda'') (\<lambda>e. rbind (field_get d ''revenue'') (\<lambda>r. lift_dec (dec_div 28 e r))))
      else if f = ''operating_cash_flow_plus_signed_capex_divided_by_revenue_v1''
      then rbind (field_values inputs) (\<lambda>d.
           rbind (field_get d ''operating_cash_flow'') (\<lambda>ocf.
           rbind (field_get d ''capital_expenditure'') (\<lambda>c.
           rbind (lift_dec (dec_add 28 ocf c)) (\<lambda>s.
           rbind (field_get d ''revenue'') (\<lambda>r. lift_dec (dec_div 28 s r))))))
      else recompute_technical f inputs)"

end
