(* ===== verification/FinancialChecks.thy ===== *)
theory FinancialChecks
  imports FinancialReview
begin

text \<open>
  The checks of the independent financial reviewer (\<open>assurance/independent_financial_review.py\<close>): the
  identity of a calculation, the semantics of its formula, the binding of its snapshot, its metric and
  its claim, and the support of judgments.
\<close>

section \<open>Helpers\<close>

definition check :: "string \<Rightarrow> bool \<Rightarrow> string list \<Rightarrow> string option \<Rightarrow> review_check" where
  "check code passed refs detail = \<lparr>rc_code = code, rc_status = (if passed then RV_PASS else RV_BLOCK),
     rc_refs = refs, rc_detail = detail\<rparr>"

fun unique_dict :: "('a \<Rightarrow> string) \<Rightarrow> string \<Rightarrow> (string \<times> 'a) list \<Rightarrow> 'a list \<Rightarrow> fin_exn + (string \<times> 'a) list" where
  "unique_dict key label d [] = Inr d"
| "unique_dict key label d (x # xs) =
     (if map_of d (key x) \<noteq> None then Inl (FinValueError (''duplicate '' @ label @ '' id''))
      else unique_dict key label (d @ [(key x, x)]) xs)"

text \<open>\<open>any(f(x) for x in xs)\<close> where \<open>f\<close> may raise.\<close>

fun rany :: "('a \<Rightarrow> 'e + bool) \<Rightarrow> 'a list \<Rightarrow> 'e + bool" where
  "rany f [] = Inr False"
| "rany f (x # xs) = rbind (f x) (\<lambda>b. if b then Inr True else rany f xs)"

definition starts_with :: "string \<Rightarrow> string \<Rightarrow> bool" where
  "starts_with s p \<longleftrightarrow> take (length p) s = p"

text \<open>\<open>value == n\<close> for an integer literal.\<close>

fun py_eq_int :: "pyvalue \<Rightarrow> int \<Rightarrow> bool" where
  "py_eq_int (PyInt i) n = (i = n)"
| "py_eq_int (PyBool b) n = ((if b then 1 else 0) = n)"
| "py_eq_int (PyDecimal d) n = dec_cmp (=) d (dec_of_int n)"
| "py_eq_int (PyOther s) n = (case parse_decimal s of None \<Rightarrow> False | Some d \<Rightarrow> dec_cmp (=) d (dec_of_int n))"
| "py_eq_int v n = False"

definition same_decimal :: "pyvalue \<Rightarrow> pyvalue \<Rightarrow> bool" where
  "same_decimal a b = (case (rv_decimal a, rv_decimal b) of
     (Inr x, Inr y) \<Rightarrow> dec_cmp (=) x y | _ \<Rightarrow> False)"

fun string_list :: "pyvalue \<Rightarrow> string list" where
  "string_list (PyList s vs) = map text_of (filter is_text vs)"
| "string_list v = []"

section \<open>Identity of a calculation\<close>

definition calculation_identity_matches :: "calculation \<Rightarrow> bool" where
  "calculation_identity_matches c \<longleftrightarrow>
     truthy (ca_implementation_hash c) \<and> ca_code_hash c = ca_implementation_hash c
     \<and> truthy (ca_source_ref c) \<and> truthy (ca_runtime_version c)
     \<and> (let src = the (ca_source_ref c) in
        if ca_formula_id c = ''revenue_growth_v1'' then starts_with src ''src.capabilities.financial.growth''
        else if ca_formula_id c = ''ebitda_margin_v1'' then starts_with src ''src.capabilities.financial.profitability''
        else if ca_formula_id c = ''operating_cash_flow_plus_signed_capex_divided_by_revenue_v1''
        then ca_capability_id c = ''free_cash_flow_margin'' \<and> starts_with src ''generated://''
          \<and> snapshot_get (ca_parameters c) ''generated_source_hash'' = opt_value (ca_implementation_hash c)
          \<and> py_truthy (snapshot_get (ca_parameters c) ''generated_tests_hash'')
          \<and> py_truthy (snapshot_get (ca_parameters c) ''live_input_commitment'')
        else starts_with (ca_capability_id c) ''technical_'' \<and> starts_with src ''src.adapters.finrobot.technical'')"

section \<open>Semantics of the formulas\<close>

definition is_currency :: "evidence \<Rightarrow> bool" where
  "is_currency i \<longleftrightarrow> evidence_unit_class (evi_unit i) (evi_currency i) = Some FU_CURRENCY"

definition validate_growth :: "evidence list \<Rightarrow> fin_exn + unit" where
  "validate_growth inputs = (case inputs of
     [prior, current] \<Rightarrow>
       if evi_field prior \<noteq> ''revenue'' \<or> evi_field current \<noteq> ''revenue''
       then Inl (FinValueError ''revenue growth requires two revenue inputs'')
       else rbind (rv_decimal (evi_value prior)) (\<lambda>p.
            rbind (lift_dec (dec_le_zero p)) (\<lambda>bad.
            rbind (guard (\<not> bad) (FinValueError ''REVENUE_GROWTH_PRIOR_REVENUE_MUST_BE_POSITIVE'')) (\<lambda>_.
            guard (evi_category prior = EC_FINANCIAL_STATEMENT \<and> evi_category current = EC_FINANCIAL_STATEMENT
              \<and> evi_object_id prior = evi_object_id current
              \<and> evi_period_basis prior = Some PB_FY \<and> evi_period_basis current = Some PB_FY
              \<and> adjacent_financial_periods (evi_period prior) (evi_period current)
              \<and> evi_actuality prior = evi_actuality current \<and> evi_actuality prior \<noteq> FA_UNKNOWN
              \<and> truthy (evi_series prior) \<and> evi_series prior = evi_series current
              \<and> truthy (evi_currency prior) \<and> evi_currency prior = evi_currency current
              \<and> is_currency prior \<and> is_currency current)
              (FinValueError ''revenue growth period/series/currency semantics mismatch''))))
   | _ \<Rightarrow> Inl (FinValueError ''revenue growth requires two revenue inputs''))"

definition validate_ebitda :: "evidence list \<Rightarrow> fin_exn + unit" where
  "validate_ebitda inputs = (case inputs of
     [a, b] \<Rightarrow>
       if {evi_field a, evi_field b} \<noteq> {''ebitda'', ''revenue''}
       then Inl (FinValueError ''EBITDA margin input set mismatch'')
       else guard (evi_category a = EC_FINANCIAL_STATEMENT \<and> evi_category b = EC_FINANCIAL_STATEMENT
         \<and> evi_object_id a = evi_object_id b \<and> evi_period a = evi_period b
         \<and> evi_period_basis a = evi_period_basis b \<and> evi_period_basis a = Some PB_FY
         \<and> evi_actuality a = evi_actuality b \<and> evi_actuality a \<noteq> FA_UNKNOWN
         \<and> evi_as_of a = evi_as_of b \<and> truthy (evi_cohort a) \<and> evi_cohort a = evi_cohort b
         \<and> truthy (evi_currency a) \<and> evi_currency a = evi_currency b \<and> is_currency a \<and> is_currency b)
         (FinValueError ''EBITDA margin cohort semantics mismatch'')
   | _ \<Rightarrow> Inl (FinValueError ''EBITDA margin input set mismatch''))"

definition input_fields_of :: "evidence list \<Rightarrow> (string \<times> evidence) list" where
  "input_fields_of inputs = rev (map (\<lambda>i. (evi_field i, i)) inputs)"

definition fcf_fields :: "string set" where
  "fcf_fields = {''operating_cash_flow'', ''capital_expenditure'', ''revenue''}"

definition validate_fcf :: "evidence list \<Rightarrow> fin_exn + unit" where
  "validate_fcf inputs =
     (if length inputs \<noteq> 3 \<or> set (map evi_field inputs) \<noteq> fcf_fields
      then Inl (FinValueError ''FCF margin input set mismatch'')
      else let d = input_fields_of inputs; capex = the (map_of d ''capital_expenditure'');
               reference = the (map_of d ''revenue'');
               mismatch = FinValueError ''FCF margin signed-capex/cohort semantics mismatch'' in
        rbind (guard (list_all (\<lambda>i. evi_category i = EC_FINANCIAL_STATEMENT) inputs
          \<and> evi_sign capex = Some SC_OUTFLOW_NEGATIVE) mismatch) (\<lambda>_.
        rbind (rv_decimal (evi_value capex)) (\<lambda>v.
        guard (\<not> dec_cmp (>) v dec_zero \<and> evi_period_basis reference = Some PB_FY
          \<and> evi_actuality reference \<noteq> FA_UNKNOWN \<and> truthy (evi_cohort reference) \<and> truthy (evi_currency reference)
          \<and> list_all (\<lambda>i. evi_object_id i = evi_object_id reference \<and> evi_period i = evi_period reference
              \<and> evi_period_basis i = evi_period_basis reference \<and> evi_actuality i = evi_actuality reference
              \<and> evi_as_of i = evi_as_of reference \<and> evi_cohort i = evi_cohort reference
              \<and> evi_currency i = evi_currency reference \<and> is_currency i) inputs) mismatch)))"

definition technical_counts :: "(string \<times> nat) list" where
  "technical_counts = [(''sma_close_50_v1'', 50), (''sma_close_200_v1'', 200),
     (''rsi_close_14_simple_average_v1'', 15), (''macd_line_close_12_26_adjust_false_v1'', 34),
     (''macd_signal_close_12_26_9_adjust_false_v1'', 34), (''macd_histogram_close_12_26_9_adjust_false_v1'', 34),
     (''latest_volume_to_average_volume_20_v1'', 20)]"

fun increasing :: "date list \<Rightarrow> bool" where
  "increasing (a # b # ds) = (a < b \<and> increasing (b # ds))"
| "increasing ds = True"

definition volume_invalid :: "evidence \<Rightarrow> fin_exn + bool" where
  "volume_invalid i =
     (if evi_field i \<noteq> ''volume'' \<or> evi_unit i \<notin> {''COUNT'', ''SHARES''} \<or> evi_currency i \<noteq> None then Inr True
      else rbind (rv_decimal (evi_value i)) (\<lambda>v. Inr (dec_cmp (<) v dec_zero)))"

definition price_invalid :: "evidence \<Rightarrow> fin_exn + bool" where
  "price_invalid i =
     (if \<not> price_input i \<or> evi_unit i \<noteq> ''CURRENCY'' \<or> \<not> truthy (evi_currency i) then Inr True
      else rbind (rv_decimal (evi_value i)) (\<lambda>v. Inr (dec_cmp (\<le>) v dec_zero)))"

definition price_series_valid :: "evidence list \<Rightarrow> fin_exn + unit" where
  "price_series_valid inputs =
     (let bases = remdups (map basis_of inputs); actions = remdups (map action_of inputs) in
      rbind (guard (length bases = 1 \<and> length actions = 1 \<and> CA_UNRESOLVED \<notin> set actions
          \<and> length (remdups (map evi_currency inputs)) = 1 \<and> length (remdups (map evi_field inputs)) = 1)
        (FinValueError ''price basis/corporate-action/currency series mismatch'')) (\<lambda>_.
      guard ((evi_field (hd inputs) = ''adjusted_close'') = (hd bases = ADJUSTED_CLOSE))
        (FinValueError ''normalized price field does not match declared basis'')))"

definition observations_valid :: "string \<Rightarrow> nat \<Rightarrow> evidence list \<Rightarrow> fin_exn + unit" where
  "observations_valid f minimum inputs =
     rbind (guard (minimum \<le> length inputs) (FinValueError ''technical formula requires more observations'')) (\<lambda>_.
     rbind (guard (f \<in> {''sma_close_50_v1'', ''sma_close_200_v1'', ''rsi_close_14_simple_average_v1''}
         \<longrightarrow> length inputs = minimum) (FinValueError ''technical formula input count is not exact'')) (\<lambda>_.
     rbind (guard (f = ''latest_volume_to_average_volume_20_v1'' \<longrightarrow> length inputs = 20)
       (FinValueError ''volume ratio requires exactly 20 observations'')) (\<lambda>_.
     rbind (guard (distinct (map evi_as_of inputs) \<and> increasing (map evi_as_of inputs))
       (FinValueError ''technical evidence dates must be unique and ordered'')) (\<lambda>_.
     guard (length (remdups (map evi_object_id inputs)) = 1
         \<and> list_all (\<lambda>i. evi_category i = EC_MARKET \<and> evi_purpose i = Some ''historical_market_context''
             \<and> evi_period i = ''DAILY'' \<and> evi_period_basis i = Some PB_DAILY) inputs)
       (FinValueError ''technical evidence series identity is invalid'')))))"

definition validate_technical :: "string \<Rightarrow> evidence list \<Rightarrow> fin_exn + unit" where
  "validate_technical f inputs = (case map_of technical_counts f of
     None \<Rightarrow> Inl (FinValueError ''unsupported material formula'')
   | Some minimum \<Rightarrow>
     rbind (observations_valid f minimum inputs) (\<lambda>_.
     if f = ''latest_volume_to_average_volume_20_v1''
     then rbind (rany volume_invalid inputs) (\<lambda>bad. guard (\<not> bad) (FinValueError ''volume evidence field/unit is invalid''))
     else rbind (rany price_invalid inputs) (\<lambda>bad.
       rbind (guard (\<not> bad) (FinValueError ''price evidence field/unit is invalid'')) (\<lambda>_.
       price_series_valid inputs))))"

definition validate_formula_semantics :: "string \<Rightarrow> evidence list \<Rightarrow> fin_exn + unit" where
  "validate_formula_semantics f inputs =
     (if f = ''revenue_growth_v1'' then validate_growth inputs
      else if f = ''ebitda_margin_v1'' then validate_ebitda inputs
      else if f = ''operating_cash_flow_plus_signed_capex_divided_by_revenue_v1'' then validate_fcf inputs
      else validate_technical f inputs)"

end
