(* ===== verification/IndependentReview.thy ===== *)
theory IndependentReview
  imports FinancialChecks
begin

text \<open>
  The independent financial reviewer (\<open>assurance/independent_financial_review.py\<close>), second part: how a
  calculation is bound to its snapshot, metric and claim, the support of judgments, and \<open>review\<close> itself.
\<close>

section \<open>Snapshots\<close>

definition text_is :: "pyvalue \<Rightarrow> string \<Rightarrow> bool" where
  "text_is v t \<longleftrightarrow> v = PyText t"

definition snapshot_growth :: "calculation \<Rightarrow> evidence list \<Rightarrow> fin_exn + bool" where
  "snapshot_growth calc inputs = (case inputs of
     [prior, current] \<Rightarrow>
       (let g = snapshot_get (ca_snapshot calc) in
        if \<not> (same_decimal (g ''prior_revenue'') (evi_value prior)
            \<and> same_decimal (g ''current_revenue'') (evi_value current)
            \<and> g ''currency'' = opt_value (evi_currency current)
            \<and> text_is (g ''prior_period'') (evi_period prior)
            \<and> text_is (g ''current_period'') (evi_period current)) then Inr False
        else (case evi_period_basis current of None \<Rightarrow> Inl FinAttributeError
          | Some b \<Rightarrow> Inr (text_is (g ''period_basis'') (period_basis_value b)
              \<and> text_is (g ''actuality'') (actuality_value (evi_actuality current))
              \<and> g ''statement_series'' = opt_value (evi_series current))))
   | _ \<Rightarrow> Inr False)"

definition snapshot_ebitda :: "calculation \<Rightarrow> evidence list \<Rightarrow> fin_exn + bool" where
  "snapshot_ebitda calc inputs =
     (let d = input_fields_of inputs; g = snapshot_get (ca_snapshot calc) in
      case (map_of d ''ebitda'', map_of d ''revenue'') of
        (Some ebitda, Some revenue) \<Rightarrow>
          if \<not> (same_decimal (g ''ebitda'') (evi_value ebitda) \<and> same_decimal (g ''revenue'') (evi_value revenue)
              \<and> g ''currency'' = opt_value (evi_currency revenue) \<and> text_is (g ''period'') (evi_period revenue))
          then Inr False
          else (case evi_period_basis revenue of None \<Rightarrow> Inl FinAttributeError
            | Some b \<Rightarrow> Inr (text_is (g ''period_basis'') (period_basis_value b)
                \<and> text_is (g ''actuality'') (actuality_value (evi_actuality revenue))
                \<and> g ''statement_cohort'' = opt_value (evi_cohort revenue)))
      | _ \<Rightarrow> Inr False)"

definition dict_get :: "pyvalue \<Rightarrow> string \<Rightarrow> pyvalue" where
  "dict_get v k = (case v of PyDict s kvs \<Rightarrow> snapshot_get kvs k | _ \<Rightarrow> PyNone)"

definition is_dict :: "pyvalue \<Rightarrow> bool" where
  "is_dict v = (case v of PyDict s kvs \<Rightarrow> True | _ \<Rightarrow> False)"

definition snapshot_fcf :: "calculation \<Rightarrow> evidence list \<Rightarrow> fin_exn + bool" where
  "snapshot_fcf calc inputs =
     (let d = input_fields_of inputs; g = snapshot_get (ca_snapshot calc); p = snapshot_get (ca_parameters calc) in
      if set (map evi_field inputs) \<noteq> fcf_fields then Inr False
      else if \<not> list_all (\<lambda>k. same_decimal (g k) (evi_value (the (map_of d k))))
          [''operating_cash_flow'', ''capital_expenditure'', ''revenue''] then Inr False
      else rbind (rbind (recompute (ca_formula_id calc) inputs) (\<lambda>v. canonical_decimal (PyDecimal v))) (\<lambda>expected.
        let revenue = the (map_of d ''revenue''); oracle = p ''owned_oracle_result''; live = p ''runtime_result'' in
        if \<not> (text_is (p ''validation_scope'') ''LIVE_RUNTIME'' \<and> text_is (p ''financial_validation_result'') ''PASS''
            \<and> text_is (p ''capital_expenditure_sign_convention'') ''OUTFLOW_NEGATIVE''
            \<and> p ''statement_cohort'' = opt_value (evi_cohort revenue)
            \<and> text_is (p ''period'') (evi_period revenue)) then Inr False
        else (case evi_period_basis revenue of None \<Rightarrow> Inl FinAttributeError
          | Some b \<Rightarrow> Inr (text_is (p ''period_basis'') (period_basis_value b)
              \<and> text_is (p ''actuality'') (actuality_value (evi_actuality revenue))
              \<and> text_is (p ''as_of'') (isoformat (evi_as_of revenue))
              \<and> p ''currency'' = opt_value (evi_currency revenue)
              \<and> is_dict oracle \<and> is_dict live
              \<and> same_decimal (dict_get oracle ''value'') (PyText expected)
              \<and> same_decimal (dict_get live ''value'') (PyText expected)
              \<and> text_is (dict_get oracle ''unit'') ''RATIO'' \<and> text_is (dict_get live ''unit'') ''RATIO''))))"

definition snapshot_common :: "(string \<Rightarrow> pyvalue) \<Rightarrow> evidence list \<Rightarrow> bool" where
  "snapshot_common g inputs =
     (let prices = filter price_input inputs;
          bases = remdups (map basis_of prices); actions = remdups (map action_of prices) in
      text_is (g ''first_as_of'') (isoformat (evi_as_of (hd inputs)))
      \<and> text_is (g ''last_as_of'') (isoformat (evi_as_of (last inputs)))
      \<and> (bases \<noteq> [] \<longrightarrow> length bases = 1 \<and> text_is (g ''technical_price_basis'') (price_basis_value (hd bases))
          \<and> length actions = 1 \<and> text_is (g ''corporate_action_status'') (action_status_value (hd actions))))"

definition snapshot_technical :: "calculation \<Rightarrow> evidence list \<Rightarrow> fin_exn + bool" where
  "snapshot_technical calc inputs =
     (let g = snapshot_get (ca_snapshot calc); f = ca_formula_id calc; common = snapshot_common g inputs in
      if inputs = [] then Inl FinIndexError
      else Inr (common \<and>
        (if f = ''sma_close_50_v1'' then py_eq_int (g ''window'') 50 \<and> py_eq_int (g ''observation_count'') 50
         else if f = ''sma_close_200_v1'' then py_eq_int (g ''window'') 200 \<and> py_eq_int (g ''observation_count'') 200
         else if f = ''rsi_close_14_simple_average_v1''
         then py_eq_int (g ''period'') 14 \<and> py_eq_int (g ''price_change_count'') 14
           \<and> text_is (g ''zero_gain_and_loss_policy'') ''50_index_points''
           \<and> text_is (g ''rsi_method'') ''simple_average_not_wilder''
         else if take 5 f = ''macd_''
         then let p = macd_decimal_context_policy in
           text_is (g ''decimal_context_policy_id'') (mp_id p) \<and> py_eq_int (g ''decimal_precision'') (mp_precision p)
           \<and> text_is (g ''decimal_rounding'') (mp_rounding p) \<and> py_eq_int (g ''fast_span'') (mp_fast p)
           \<and> py_eq_int (g ''slow_span'') (mp_slow p) \<and> py_eq_int (g ''signal_span'') (mp_signal p)
           \<and> g ''ema_adjust'' = PyBool (mp_adjust p) \<and> text_is (g ''ema_seed'') (mp_seed p)
           \<and> py_eq_int (g ''observation_count'') (int (length inputs))
           \<and> py_eq_int (g ''warmup_required'') (warmup_required p) \<and> g ''warmup_satisfied'' = PyBool True
         else py_eq_int (g ''window'') 20 \<and> g ''average_includes_latest_observation'' = PyBool True)))"

definition snapshot_matches :: "calculation \<Rightarrow> evidence list \<Rightarrow> fin_exn + bool" where
  "snapshot_matches calc inputs =
     (if ca_formula_id calc = ''revenue_growth_v1'' then snapshot_growth calc inputs
      else if ca_formula_id calc = ''ebitda_margin_v1'' then snapshot_ebitda calc inputs
      else if ca_formula_id calc = ''operating_cash_flow_plus_signed_capex_divided_by_revenue_v1''
      then snapshot_fcf calc inputs
      else snapshot_technical calc inputs)"

section \<open>Metrics\<close>

definition metric_specs :: "(string \<times> string \<times> financial_unit \<times> string) list" where
  "metric_specs =
     [(''revenue_growth_v1'', ''Revenue Growth'', FU_RATIO, ''%''),
      (''ebitda_margin_v1'', ''EBITDA Margin'', FU_RATIO, ''%''),
      (''operating_cash_flow_plus_signed_capex_divided_by_revenue_v1'', ''Free Cash Flow Margin'', FU_RATIO, ''%''),
      (''sma_close_50_v1'', ''50-Day Simple Moving Average'', FU_CURRENCY, ''currency''),
      (''sma_close_200_v1'', ''200-Day Simple Moving Average'', FU_CURRENCY, ''currency''),
      (''rsi_close_14_simple_average_v1'', ''RSI 14 (Simple Average, not Wilder)'', FU_INDEX, ''index points''),
      (''macd_line_close_12_26_adjust_false_v1'', ''MACD Line 12/26 EMA'', FU_CURRENCY, ''currency''),
      (''macd_signal_close_12_26_9_adjust_false_v1'', ''MACD Signal 9 EMA'', FU_CURRENCY, ''currency''),
      (''macd_histogram_close_12_26_9_adjust_false_v1'', ''MACD Histogram'', FU_CURRENCY, ''currency''),
      (''latest_volume_to_average_volume_20_v1'', ''Volume Ratio 20'', FU_RATIO, ''x'')]"

definition calculation_output_unit :: "financial_unit \<Rightarrow> string" where
  "calculation_output_unit u = (if u = FU_INDEX then ''INDEX_POINTS'' else unit_value u)"

definition rv_display :: "pyvalue \<Rightarrow> string \<Rightarrow> fin_exn + string" where
  "rv_display v kind = rbind (rv_decimal v) (\<lambda>d. display_decimal d (kind = ''%''))"

definition method_matches :: "calculation \<Rightarrow> method_metadata \<Rightarrow> evidence list \<Rightarrow> bool" where
  "method_matches calc m inputs =
     (let f = ca_formula_id calc; n = int (length inputs); p = macd_decimal_context_policy;
          bases = remdups (map basis_of inputs);
          (name, count, warm, extra) =
            (if f = ''rsi_close_14_simple_average_v1''
             then (''RSI_SIMPLE_AVERAGE_NOT_WILDER'', 15, 15,
               mm_is_wilder m = Some False \<and> mm_parameters m = [(''period'', ''14'')])
             else if take 5 f = ''macd_''
             then (''MACD_EMA_12_26_9_FIRST_OBSERVATION_SEED'', n, warmup_required p,
               length bases = 1 \<and> mm_policy_id m = Some (mp_id p) \<and> mm_precision m = Some (mp_precision p)
               \<and> mm_rounding m = Some (mp_rounding p) \<and> mm_ema_adjust m = Some (mp_adjust p)
               \<and> mm_ema_seed m = Some (mp_seed p) \<and> mm_fast_span m = Some (mp_fast p)
               \<and> mm_slow_span m = Some (mp_slow p) \<and> mm_signal_span m = Some (mp_signal p)
               \<and> mm_price_basis m = Some (hd bases)
               \<and> mm_parameters m = [(''fast'', int_text (mp_fast p)), (''slow'', int_text (mp_slow p)),
                   (''signal'', int_text (mp_signal p))])
             else if f = ''latest_volume_to_average_volume_20_v1''
             then (''VOLUME_RATIO'', 20, 20, mm_parameters m = [(''window'', ''20'')])
             else if f = ''sma_close_50_v1''
             then (''SIMPLE_MOVING_AVERAGE'', 50, 50, mm_parameters m = [(''window'', ''50'')])
             else (''SIMPLE_MOVING_AVERAGE'', 200, 200, mm_parameters m = [(''window'', ''200'')]))
      in mm_method m = name \<and> mm_observation_count m = Some count \<and> mm_warmup_required m = Some warm
         \<and> mm_warmup_satisfied m = Some True \<and> mm_first_as_of m = Some (evi_as_of (hd inputs))
         \<and> mm_last_as_of m = Some (evi_as_of (last inputs)) \<and> extra)"

definition basis_ok :: "calculation \<Rightarrow> metric \<Rightarrow> evidence list \<Rightarrow> bool" where
  "basis_ok calc m inputs =
     (technical_formula (ca_formula_id calc) \<and> list_ex price_input inputs \<longrightarrow>
      (let bases = remdups (map basis_of inputs); actions = remdups (map action_of inputs) in
       length bases = 1 \<and> length actions = 1 \<and> me_price_basis m = Some (hd bases)
       \<and> me_action m = Some (hd actions)
       \<and> ((hd actions = CA_UNASSESSED \<and> hd bases = RAW_CLOSE \<and> me_limitations m \<noteq> [])
          \<or> (hd actions \<in> {CA_NONE_DETECTED, CA_RESOLVED} \<and> set (me_guard_refs m) = set (map evi_id inputs)))))"

definition metric_matches :: "calculation \<Rightarrow> metric \<Rightarrow> evidence list \<Rightarrow> fin_exn + bool" where
  "metric_matches calc m inputs = (case map_of metric_specs (ca_formula_id calc) of
     None \<Rightarrow> Inl (FinKeyError (ca_formula_id calc))
   | Some (name, unt, kind) \<Rightarrow>
     let technical = technical_formula (ca_formula_id calc); anchor = anchor_of inputs;
         currencies = currencies_of inputs;
         currency = (if length currencies = 1 then Some (hd currencies) else None) in
     rbind (guard (inputs \<noteq> []) (FinValueError ''max() arg is an empty sequence'')) (\<lambda>_.
     rbind (rv_display (ca_output calc) kind) (\<lambda>display.
     rbind (canonical_decimal (ca_output calc)) (\<lambda>canonical.
     Inr ((if unt = FU_CURRENCY then Some (upper (ca_output_unit calc)) = currency
           else upper (ca_output_unit calc) = calculation_output_unit unt)
       \<and> me_calculation_id m = ca_id calc \<and> me_name m = name \<and> me_formula_id m = ca_formula_id calc
       \<and> me_capability_id m = ca_capability_id calc \<and> me_canonical_value m = canonical \<and> me_unit m = unt
       \<and> me_display_value m = display
       \<and> (if kind = ''currency'' then Some (me_display_unit m) = currency else me_display_unit m = kind)
       \<and> me_period m = (if technical then ''DAILY'' else evi_period anchor)
       \<and> Some (me_period_basis m) = (if technical then Some PB_DAILY else evi_period_basis anchor)
       \<and> me_actuality m = evi_actuality anchor \<and> me_as_of m = evi_as_of anchor \<and> me_currency m = currency
       \<and> me_evidence_ids m = ca_inputs calc
       \<and> (case me_method m of None \<Rightarrow> \<not> technical | Some mm \<Rightarrow> method_matches calc mm inputs)
       \<and> (\<not> technical \<longrightarrow> me_price_basis m = None \<and> me_action m = None \<and> me_guard_refs m = [])
       \<and> basis_ok calc m inputs)))))"

section \<open>Claims\<close>

definition expected_statement :: "calculation \<Rightarrow> metric \<Rightarrow> fin_exn + string" where
  "expected_statement calc m =
     (if ca_formula_id calc = ''revenue_growth_v1''
      then (case parse_decimal (me_canonical_value m) of
          None \<Rightarrow> Inl (FinDecimal InvalidOperation)
        | Some d \<Rightarrow> Inr (''Revenue '' @ (if dec_cmp (\<ge>) d (Dec False 0 0) then ''increased'' else ''decreased'') @ '' ''
            @ me_display_value m @ me_display_unit m @ '' YoY for '' @ me_period m @ ''.''))
      else Inr (me_name m @ '' was '' @ me_display_value m @ me_display_unit m @ '' for '' @ me_period m
            @ '' as of '' @ isoformat (me_as_of m) @ ''.''))"

definition claim_matches :: "string \<Rightarrow> calculation \<Rightarrow> metric \<Rightarrow> claim \<Rightarrow> fin_exn + bool" where
  "claim_matches run_id calc m c =
     rbind (expected_statement calc m) (\<lambda>statement.
     Inr (cl_run_id c = run_id \<and> cl_type c = ''MATERIAL_FINANCIAL_METRIC'' \<and> cl_statement c = statement
       \<and> cl_metric_id c = me_id m \<and> cl_value c = me_canonical_value m \<and> cl_unit c = me_unit m
       \<and> cl_period c = me_period m \<and> cl_period_basis c = me_period_basis m \<and> cl_actuality c = me_actuality m
       \<and> cl_as_of c = me_as_of m \<and> cl_currency c = me_currency m \<and> cl_calculation_refs c = [ca_id calc]
       \<and> cl_evidence_refs c = ca_inputs calc))"

section \<open>Judgments\<close>

definition rsi_label :: "decimal \<Rightarrow> string" where
  "rsi_label v = (if dec_cmp (>) v (dec_of_int 70) then ''OVERBOUGHT''
     else if dec_cmp (<) v (dec_of_int 30) then ''OVERSOLD''
     else if dec_cmp (>) v (dec_of_int 55) then ''BULLISH''
     else if dec_cmp (<) v (dec_of_int 45) then ''BEARISH'' else ''NEUTRAL'')"

definition macd_label :: "decimal \<Rightarrow> decimal \<Rightarrow> string" where
  "macd_label line sig = (if dec_cmp (>) line sig then ''BULLISH''
     else if dec_cmp (<) line sig then ''BEARISH'' else ''NEUTRAL'')"

definition safe_rsi_label :: "pyvalue \<Rightarrow> string option" where
  "safe_rsi_label v = (case rv_decimal v of Inl _ \<Rightarrow> None | Inr d \<Rightarrow> Some (rsi_label d))"

definition safe_macd_label :: "pyvalue \<Rightarrow> pyvalue \<Rightarrow> string option" where
  "safe_macd_label a b = (case (rv_decimal a, rv_decimal b) of
     (Inr x, Inr y) \<Rightarrow> Some (macd_label x y) | _ \<Rightarrow> None)"

record judged =
  jd_ids :: "string list"
  jd_types :: "string list"
  jd_ok :: bool

definition referenced :: "(string \<times> calculation) list \<Rightarrow> string list \<Rightarrow> calculation list" where
  "referenced calcs ids = map (\<lambda>k. the (map_of calcs k)) (filter (\<lambda>k. map_of calcs k \<noteq> None) ids)"

definition judgment_value_ok :: "(string \<times> calculation) list \<Rightarrow> judgement \<Rightarrow> bool" where
  "judgment_value_ok calcs j =
     (let cids = string_list (snapshot_get j ''calculation_ids''); eids = string_list (snapshot_get j ''evidence_ids'');
          kind = snapshot_get j ''judgment_type''; refs = referenced calcs cids in
      if text_is kind ''rsi_state''
      then (case refs of [c] \<Rightarrow> ca_formula_id c = ''rsi_close_14_simple_average_v1''
              \<and> snapshot_get j ''value'' = opt_value (safe_rsi_label (ca_output c)) \<and> set eids = set (ca_inputs c)
            | _ \<Rightarrow> False)
      else if text_is kind ''macd_state''
      then let by_formula = rev (map (\<lambda>c. (ca_formula_id c, c)) refs) in
        (case (map_of by_formula ''macd_line_close_12_26_adjust_false_v1'',
               map_of by_formula ''macd_signal_close_12_26_9_adjust_false_v1'') of
           (Some line, Some sig) \<Rightarrow> length refs = 2
             \<and> snapshot_get j ''value'' = opt_value (safe_macd_label (ca_output line) (ca_output sig))
             \<and> set eids = \<Union> (set ` ca_inputs ` set refs)
         | _ \<Rightarrow> False)
      else False)"

definition judgment_step ::
    "string \<Rightarrow> (string \<times> calculation) list \<Rightarrow> string list \<Rightarrow> judged \<Rightarrow> judgement \<Rightarrow> judged" where
  "judgment_step run_id calcs evidence_ids s j =
     (let jid = snapshot_get j ''judgment_id''; kind = snapshot_get j ''judgment_type'';
          cids = string_list (snapshot_get j ''calculation_ids''); eids = string_list (snapshot_get j ''evidence_ids'') in
      if \<not> is_text jid \<or> text_of jid = [] then s\<lparr>jd_ok := False\<rparr>
      else if \<not> is_text kind then s\<lparr>jd_ids := jd_ids s @ [text_of jid], jd_ok := False\<rparr>
      else s\<lparr>jd_ids := jd_ids s @ [text_of jid], jd_types := jd_types s @ [text_of kind],
             jd_ok := jd_ok s \<and> text_is (snapshot_get j ''run_id'') run_id
               \<and> cids \<noteq> [] \<and> set cids \<subseteq> set (map fst calcs) \<and> eids \<noteq> [] \<and> set eids \<subseteq> set evidence_ids
               \<and> snapshot_get j ''requires_review'' = PyBool True
               \<and> text_is (snapshot_get j ''model'') ''finrobot-technical-threshold-policy-v1''
               \<and> py_truthy (snapshot_get j ''skill_version'') \<and> py_truthy (snapshot_get j ''limitations'')
               \<and> judgment_value_ok calcs j\<rparr>)"

definition claim_judgments_ok :: "metric list \<Rightarrow> judgement list \<Rightarrow> claim \<Rightarrow> bool" where
  "claim_judgments_ok metrics judgments c = (case List.find (\<lambda>m. me_id m = cl_metric_id c) metrics of
     None \<Rightarrow> False
   | Some m \<Rightarrow>
     let supporting = map (\<lambda>j. text_of (snapshot_get j ''judgment_id''))
           (filter (\<lambda>j. me_calculation_id m \<in> set (string_list (snapshot_get j ''calculation_ids''))
              \<and> is_text (snapshot_get j ''judgment_id'')) judgments);
         expected = (if me_formula_id m = ''rsi_close_14_simple_average_v1'' then Some ''rsi_state''
           else if me_formula_id m \<in> {''macd_line_close_12_26_adjust_false_v1'', ''macd_signal_close_12_26_9_adjust_false_v1''}
           then Some ''macd_state'' else None)
     in set (cl_judgment_refs c) = set supporting
        \<and> (case expected of None \<Rightarrow> True | Some t \<Rightarrow>
             list_ex (\<lambda>j. is_text (snapshot_get j ''judgment_id'')
                \<and> text_of (snapshot_get j ''judgment_id'') \<in> set (cl_judgment_refs c)
                \<and> text_is (snapshot_get j ''judgment_type'') t) judgments))"

definition expected_judgments :: "bool \<Rightarrow> string list \<Rightarrow> string list" where
  "expected_judgments with_context formulas =
     (if \<not> with_context then [''rsi_state'', ''macd_state'']
      else (if ''rsi_close_14_simple_average_v1'' \<in> set formulas then [''rsi_state''] else [])
         @ (if ''macd_line_close_12_26_adjust_false_v1'' \<in> set formulas then [''macd_state''] else []))"

definition judgment_check ::
    "string \<Rightarrow> (string \<times> calculation) list \<Rightarrow> string list \<Rightarrow> metric list \<Rightarrow> claim list \<Rightarrow> judgement list
       \<Rightarrow> string list \<Rightarrow> string list \<times> review_check" where
  "judgment_check run_id calcs evidence_ids metrics claims judgments expected =
     (let s = foldl (judgment_step run_id calcs evidence_ids) \<lparr>jd_ids = [], jd_types = [], jd_ok = True\<rparr> judgments;
          ok = jd_ok s \<and> set (concat (map cl_judgment_refs claims)) \<subseteq> set (jd_ids s)
            \<and> list_all (claim_judgments_ok metrics judgments) claims
      in (jd_ids s, check ''FIN_JUDGMENT_SUPPORT''
        (ok \<and> set (jd_types s) = set expected \<and> distinct (jd_ids s) \<and> length (jd_ids s) = length expected)
        (jd_ids s) None))"

section \<open>Closure of the requirements\<close>

text \<open>
  The loop over the branch results under a requirement context: whether each branch declares the
  requirement it should, and which formulas a declared gap takes out of the expected set.
\<close>

definition branch_required :: "string list \<Rightarrow> branch_result \<Rightarrow> bool" where
  "branch_required explicit b \<longleftrightarrow> br_type b \<in> set explicit \<or> br_type b = ''free_cash_flow_margin''"

definition gap_step ::
    "string list \<Rightarrow> bool \<times> string list \<Rightarrow> branch_result \<Rightarrow> fin_exn + bool \<times> string list" where
  "gap_step explicit s b = (case s of (valid, expected) \<Rightarrow>
     let valid' = (valid \<and> (br_requirement b = BR_REQUIRED) = branch_required explicit b) in
     if \<not> branch_required explicit b \<and> br_status b \<in> {BS_INSUFFICIENT_DATA, BS_BLOCKED_BY_RUNTIME}
        \<and> truthy (br_reason_code b)
     then (case map_of branch_formulas (br_type b) of None \<Rightarrow> Inl (FinKeyError (br_type b))
       | Some fs \<Rightarrow> Inr (valid', filter (\<lambda>f. f \<notin> set fs) expected))
     else Inr (valid', expected))"

definition scheme_checks ::
    "requirement_context option \<Rightarrow> branch_result list \<Rightarrow> calculation list \<Rightarrow> fin_exn + review_check list \<times> string list" where
  "scheme_checks context branches calculations = (case context of
     None \<Rightarrow> Inr ([], material_formulas)
   | Some q \<Rightarrow>
     rbind (rfold (gap_step (qc_required q))
       (qc_branches q = branches \<and> length branches = length branch_formulas
          \<and> set (map br_type branches) = set (map fst branch_formulas), material_formulas) branches) (\<lambda>(valid, expected).
     Inr ([check ''FIN_SCHEME_REQUIREMENT_CLOSURE''
        (valid \<and> set (qc_required q) \<subseteq> set (map ca_capability_id calculations)) (map br_id branches) None], expected)))"

definition branch_checks :: "string \<Rightarrow> calculation list \<Rightarrow> branch_result \<Rightarrow> review_check list" where
  "branch_checks run_id calculations b =
     (let owned = map ca_id (filter (\<lambda>c. ca_capability_id c = br_type b) calculations);
          eligible = (br_status b = BS_COMPLETED) in
      check ''FIN_BRANCH_CALCULATION_AVAILABILITY''
        (br_run_id b = run_id \<and> set owned = set (br_calculation_ids b) \<and> (eligible \<or> owned = []))
        (br_id b # owned) None
      # (if br_requirement b = BR_REQUIRED
         then [check ''FIN_REQUIRED_BRANCH_AVAILABILITY'' eligible [br_id b] None] else []))"

definition closure_checks :: "string list \<Rightarrow> calculation list \<Rightarrow> nat \<Rightarrow> nat \<Rightarrow> review_check list" where
  "closure_checks expected calculations metrics claims =
     (let formulas = map ca_formula_id calculations in
      [check ''FIN_MATERIAL_FORMULA_CLOSURE'' (distinct formulas \<and> set formulas = set expected) (map ca_id calculations) None,
       check ''FIN_TYPED_RELEASE_CARDINALITY''
         (length calculations = metrics \<and> metrics = claims \<and> claims = length expected) [] None])"

section \<open>The checks of one calculation\<close>

definition caught :: "fin_exn + bool \<Rightarrow> (fin_exn \<Rightarrow> bool) \<Rightarrow> fin_exn + bool" where
  "caught r catches = (case r of Inr b \<Rightarrow> Inr b | Inl e \<Rightarrow> if catches e then Inr False else Inl e)"

definition resolved_inputs :: "(string \<times> evidence) list \<Rightarrow> calculation \<Rightarrow> evidence list" where
  "resolved_inputs evidence calc =
     map (\<lambda>k. the (map_of evidence k)) (filter (\<lambda>k. map_of evidence k \<noteq> None) (ca_inputs calc))"

definition identity_ok :: "string \<Rightarrow> date \<Rightarrow> calculation \<Rightarrow> evidence list \<Rightarrow> bool" where
  "identity_ok run_id run_as_of calc inputs \<longleftrightarrow>
     ca_run_id calc = run_id \<and> ca_status calc = CS_PASS \<and> calculation_identity_matches calc
     \<and> length inputs = length (ca_inputs calc) \<and> distinct (map evi_id inputs)
     \<and> list_all (\<lambda>i. evi_run_id i = run_id \<and> evi_status i = ES_ACCEPTED \<and> evi_as_of i \<le> run_as_of) inputs"

definition recompute_ok :: "calculation \<Rightarrow> evidence list \<Rightarrow> fin_exn + bool" where
  "recompute_ok calc inputs =
     rbind (validate_formula_semantics (ca_formula_id calc) inputs) (\<lambda>_.
     rbind (recompute (ca_formula_id calc) inputs) (\<lambda>expected.
     rbind (rv_decimal (ca_output calc)) (\<lambda>actual. Inr (dec_cmp (=) expected actual))))"

definition calculation_checks ::
    "string \<Rightarrow> date \<Rightarrow> (string \<times> evidence) list \<Rightarrow> (string \<times> metric) list \<Rightarrow> (string \<times> claim) list
       \<Rightarrow> calculation \<Rightarrow> fin_exn + review_check list" where
  "calculation_checks run_id run_as_of evidence metrics claims calc =
     (let inputs = resolved_inputs evidence calc; refs = ca_id calc # ca_inputs calc;
          identity = check ''FIN_CALCULATION_IDENTITY'' (identity_ok run_id run_as_of calc inputs) refs
            (Some (ca_formula_id calc)) in
      if \<not> identity_ok run_id run_as_of calc inputs then Inr [identity]
      else
        rbind (caught (recompute_ok calc inputs) value_like) (\<lambda>recomputed.
        rbind (caught (snapshot_matches calc inputs) (\<lambda>e. e \<noteq> FinAttributeError)) (\<lambda>snapshot_ok.
        let metric = map_of metrics (ca_id calc) in
        rbind (case metric of None \<Rightarrow> Inr False
          | Some m \<Rightarrow> caught (metric_matches calc m inputs) value_like) (\<lambda>metric_ok.
        let claim = (case metric of None \<Rightarrow> None | Some m \<Rightarrow> map_of claims (me_id m)) in
        rbind (case (metric, claim) of (Some m, Some c) \<Rightarrow> claim_matches run_id calc m c | _ \<Rightarrow> Inr False) (\<lambda>claim_ok.
        Inr [identity,
             check ''FIN_CALCULATION_RECOMPUTATION'' recomputed refs None,
             check ''FIN_CALCULATION_INPUT_SNAPSHOT'' snapshot_ok refs None,
             check ''FIN_METRIC_BINDING'' metric_ok (ca_id calc # (case metric of None \<Rightarrow> [] | Some m \<Rightarrow> [me_id m])) None,
             check ''FIN_CLAIM_SUPPORT'' claim_ok (ca_id calc # (case claim of None \<Rightarrow> [] | Some c \<Rightarrow> [cl_id c])) None])))))"

section \<open>Review\<close>

record review_input =
  ri_run_id :: string
  ri_run_as_of :: date
  ri_evidence :: "evidence list"
  ri_calculations :: "calculation list"
  ri_metrics :: "metric list"
  ri_claims :: "claim list"
  ri_judgments :: "judgement list"
  ri_proof_requirements :: "(string \<times> proof_requirement) list"
  ri_context :: "requirement_context option"

definition must_prove :: "(string \<times> proof_requirement) list \<Rightarrow> string list" where
  "must_prove reqs = map fst (filter (\<lambda>(k, r). r = PQ_MUST_PROVE) reqs)"

definition proof_closure_check ::
    "(string \<times> calculation) list \<Rightarrow> (string \<times> proof_requirement) list \<Rightarrow> review_check" where
  "proof_closure_check calcs reqs =
     (let required = sort (must_prove reqs) in
      check ''FIN_PROOF_REQUIREMENT_CLOSURE''
        (set (map fst reqs) = set (map fst calcs) \<and> length required = 1
         \<and> ca_formula_id (the (map_of calcs (hd required))) = ''revenue_growth_v1'') required None)"

definition review_checks :: "review_input \<Rightarrow> branch_result list \<Rightarrow> fin_exn + review_check list \<times> string list" where
  "review_checks i branches =
     rbind (unique_dict evi_id ''evidence'' [] (ri_evidence i)) (\<lambda>evidence.
     rbind (unique_dict ca_id ''calculation'' [] (ri_calculations i)) (\<lambda>calcs.
     rbind (unique_dict me_calculation_id ''metric calculation'' [] (ri_metrics i)) (\<lambda>metrics.
     rbind (unique_dict cl_metric_id ''claim metric'' [] (ri_claims i)) (\<lambda>claims.
     rbind (scheme_checks (ri_context i) branches (ri_calculations i)) (\<lambda>(scheme, expected).
     rbind (rmap (calculation_checks (ri_run_id i) (ri_run_as_of i) evidence metrics claims) (ri_calculations i)) (\<lambda>per_calc.
     case judgment_check (ri_run_id i) calcs (map fst evidence) (ri_metrics i) (ri_claims i) (ri_judgments i)
         (expected_judgments (ri_context i \<noteq> None) expected) of (judgment_ids, judgments) \<Rightarrow>
     Inr (scheme @ concat (map (branch_checks (ri_run_id i) (ri_calculations i)) branches)
        @ closure_checks expected (ri_calculations i) (length (ri_metrics i)) (length (ri_claims i))
        @ concat per_calc @ [judgments, proof_closure_check calcs (ri_proof_requirements i)], judgment_ids)))))))"

definition independent_review ::
    "(review_input \<Rightarrow> fin_exn + string) \<Rightarrow> string \<Rightarrow> review_input \<Rightarrow> branch_result list \<Rightarrow> fin_exn + review" where
  "independent_review snapshot review_id i branches =
     rbind (review_checks i branches) (\<lambda>(checks, judgment_ids).
     rbind (snapshot i) (\<lambda>hash.
     make_review \<lparr>rr_id = review_id, rr_run_id = ri_run_id i,
       rr_status = (if list_all (\<lambda>c. rc_status c = RV_PASS) checks then RV_PASS else RV_BLOCK),
       rr_findings = map (\<lambda>c. CheckFinding (rc_code c) (rc_detail c)) (filter (\<lambda>c. rc_status c = RV_BLOCK) checks),
       rr_semantic = [],
       rr_evidence_refs = sort (map evi_id (ri_evidence i)), rr_calculation_refs = sort (map ca_id (ri_calculations i)),
       rr_metric_refs = sort (map me_id (ri_metrics i)), rr_claim_refs = sort (map cl_id (ri_claims i)),
       rr_judgment_refs = sort judgment_ids, rr_proof_refs = sort (must_prove (ri_proof_requirements i)),
       rr_checks = checks, rr_snapshot_hash = Some hash, rr_context = ri_context i,
       rr_reviewer = independent_reviewer\<rparr>))"

end
