(* ===== verification/ReleaseGate.thy ===== *)
theory ReleaseGate
  imports RiscZero IndependentReview
begin

text \<open>
  \<open>src/assurance/release_gate.py\<close> and \<open>proof_policy.py\<close>: the decision whether a run may be released. The
  gate collects reasons against the release; it allows it when there is none. Under strict lineage a
  required proof counts only when its record, its input commitment, its verification and its receipt on
  disk fit together and fit the calculation, whose growth the gate recomputes as an exact fraction.

  Arguments: \<open>sha\<close> is SHA-256 in hexadecimal, \<open>snapshot\<close> the hash of the reviewed inputs, \<open>read_file\<close> the
  bytes of a file if there is one, and \<open>dev_mode\<close> says whether \<open>RISC0_DEV_MODE\<close> is set. The two outcomes
  of the function are a decision and an exception that it does not catch.
\<close>

section \<open>Policy\<close>

definition requirement_for :: "bool \<Rightarrow> calculation \<Rightarrow> proof_requirement" where
  "requirement_for require_material c =
     (if require_material \<and> ca_formula_id c \<in> {''revenue_growth_v1'', ''numeric_consistency_v1''}
      then PQ_MUST_PROVE else PQ_NOT_REQUIRED)"

section \<open>Inputs\<close>

record input_commitment_record =
  pi_run_id :: string
  pi_calculation_id :: string
  pi_formula_id :: string
  pi_capability_id :: string
  pi_implementation_hash :: string
  pi_refs :: "string list"
  pi_canonical :: "(string \<times> pyvalue) list"
  pi_input_commitment :: string
  pi_output_commitment :: string

record gate_input =
  ga_review :: review
  ga_requirements :: "(string \<times> proof_requirement) list"
  ga_proofs :: "(string \<times> (proof_record + proof_result)) list"
  ga_calculations :: "(string \<times> calculation) list option"
  ga_evidence :: "evidence list option"
  ga_metrics :: "metric list option"
  ga_claims :: "claim list option"
  ga_judgments :: "judgement list option"
  ga_run_as_of :: "date option"
  ga_commitments :: "(string \<times> input_commitment_record) list option"
  ga_verifications :: "(string \<times> proof_verification) list option"
  ga_artifacts :: "(string \<times> proof_artifact) list option"
  ga_context :: "requirement_context option"

record gate_env =
  ge_sha :: "bytes \<Rightarrow> string"
  ge_snapshot :: "review_input \<Rightarrow> fin_exn + string"
  ge_read_file :: "string \<Rightarrow> bytes option"
  ge_dev_mode :: bool

definition expected_image_id :: string where
  "expected_image_id = ''491e8fb2335a465b112dda11b16b6dcec703e11b1bfa3d21ebaec177c3847e36''"

definition strict_formulas :: "string list" where
  "strict_formulas = [''operating_cash_flow_plus_signed_capex_divided_by_revenue_v1'', ''sma_close_50_v1'',
     ''sma_close_200_v1'', ''rsi_close_14_simple_average_v1'', ''macd_line_close_12_26_adjust_false_v1'',
     ''macd_signal_close_12_26_9_adjust_false_v1'', ''macd_histogram_close_12_26_9_adjust_false_v1'',
     ''latest_volume_to_average_volume_20_v1'']"

definition required_ids :: "gate_input \<Rightarrow> string list" where
  "required_ids g = must_prove (ga_requirements g)"

definition opt_list :: "'a list option \<Rightarrow> 'a list" where
  "opt_list xs = (case xs of None \<Rightarrow> [] | Some ys \<Rightarrow> ys)"

definition strict_lineage :: "gate_input \<Rightarrow> bool" where
  "strict_lineage g \<longleftrightarrow> (let r = ga_review g in
     rr_reviewer r = independent_reviewer
     \<or> list_ex (\<lambda>c. starts_with (rc_code c) ''FIN_'') (rr_checks r)
     \<or> rr_metric_refs r \<noteq> [] \<or> rr_claim_refs r \<noteq> [] \<or> rr_proof_refs r \<noteq> []
     \<or> list_ex (\<lambda>(k, c). ca_formula_id c \<in> set strict_formulas) (opt_list (ga_calculations g)))"

section \<open>The reviewed inputs\<close>

definition snapshot_catches :: "fin_exn \<Rightarrow> bool" where
  "snapshot_catches e = (case e of FinKeyError k \<Rightarrow> False | FinIndexError \<Rightarrow> False | FinDecimal d \<Rightarrow> False
     | FinOverflow \<Rightarrow> False | _ \<Rightarrow> True)"

definition ascii :: "string \<Rightarrow> bool" where
  "ascii s \<longleftrightarrow> list_all (\<lambda>c. (of_char c :: nat) < 128) s"

text \<open>\<open>hmac.compare_digest\<close> refuses texts outside ASCII with a type error.\<close>

definition compare_digest :: "string \<Rightarrow> string \<Rightarrow> fin_exn + bool" where
  "compare_digest a b = (if ascii a \<and> ascii b then Inr (a = b) else Inl (FinTypeError ''compare_digest''))"

definition gate_snapshot_input :: "gate_input \<Rightarrow> review_input" where
  "gate_snapshot_input g = \<lparr>ri_run_id = rr_run_id (ga_review g), ri_run_as_of = the (ga_run_as_of g),
     ri_evidence = opt_list (ga_evidence g), ri_calculations = map snd (opt_list (ga_calculations g)),
     ri_metrics = opt_list (ga_metrics g), ri_claims = opt_list (ga_claims g),
     ri_judgments = opt_list (ga_judgments g), ri_proof_requirements = ga_requirements g, ri_context = ga_context g\<rparr>"

definition refs_match :: "gate_input \<Rightarrow> bool" where
  "refs_match g \<longleftrightarrow> (let r = ga_review g in
     set (map fst (opt_list (ga_calculations g))) = set (rr_calculation_refs r)
     \<and> set (map evi_id (opt_list (ga_evidence g))) = set (rr_evidence_refs r)
     \<and> set (map me_id (opt_list (ga_metrics g))) = set (rr_metric_refs r)
     \<and> set (map cl_id (opt_list (ga_claims g))) = set (rr_claim_refs r)
     \<and> set (map (\<lambda>j. text_of (snapshot_get j ''judgment_id''))
         (filter (\<lambda>j. is_text (snapshot_get j ''judgment_id'')) (opt_list (ga_judgments g)))) = set (rr_judgment_refs r))"

definition snapshot_reasons :: "gate_env \<Rightarrow> gate_input \<Rightarrow> fin_exn + string list" where
  "snapshot_reasons env g =
     (if ga_calculations g = None \<or> ga_evidence g = None \<or> ga_metrics g = None \<or> ga_claims g = None
         \<or> ga_judgments g = None \<or> ga_run_as_of g = None
      then Inr [''REVIEW_INPUT_SNAPSHOT_MISSING'']
      else rbind (case ge_snapshot env (gate_snapshot_input g) of
          Inr h \<Rightarrow> Inr (Some h) | Inl e \<Rightarrow> if snapshot_catches e then Inr None else Inl e) (\<lambda>hash.
        rbind (case (hash, rr_snapshot_hash (ga_review g)) of
            (Some h, Some h') \<Rightarrow> compare_digest h h' | _ \<Rightarrow> Inr False) (\<lambda>same.
        Inr (if same \<and> refs_match g then [] else [''REVIEW_INPUT_SNAPSHOT_MISMATCH'']))))"

section \<open>The expected commitment\<close>

text \<open>\<open>_expected_revenue_growth_commitment\<close>; the last call is outside the \<open>try\<close>.\<close>

definition canonical_of :: "decimal \<Rightarrow> decimal \<Rightarrow> string \<Rightarrow> canonical_inputs option" where
  "canonical_of prior current currency = (case (prior, current) of
     (Dec s c x, Dec t e y) \<Rightarrow>
       (let scale = max 0 (max (- x) (- y)); factor = Dec False (10 ^ nat scale) 0 in
        case (dec_mul prec prior factor, dec_mul prec current factor) of
          (Inr p, Inr q) \<Rightarrow> (case (dec_int p, dec_int q) of
             (Some m, Some n) \<Rightarrow>
               (let i = \<lparr>ci_prior = m, ci_current = n, ci_currency = currency, ci_scale = scale\<rparr>
                in if canonical_inputs_valid i then Some i else None)
           | _ \<Rightarrow> None)
        | _ \<Rightarrow> None)
   | _ \<Rightarrow> None)"

definition growth_quotient :: "canonical_inputs \<Rightarrow> decimal option" where
  "growth_quotient i = (case calculate_growth i of
     Inl _ \<Rightarrow> None
   | Inr r \<Rightarrow> (case dec_div 28 (dec_of_int (gr_numerator r)) (dec_of_int (gr_denominator r)) of
       Inl _ \<Rightarrow> None | Inr v \<Rightarrow> Some v))"

definition expected_canonical :: "calculation \<Rightarrow> canonical_inputs option" where
  "expected_canonical calc =
     (if ca_formula_id calc \<noteq> ''revenue_growth_v1'' \<or> \<not> truthy (ca_implementation_hash calc) then None
      else case (map_of (ca_snapshot calc) ''prior_revenue'', map_of (ca_snapshot calc) ''current_revenue'',
                 map_of (ca_snapshot calc) ''currency'') of
        (Some pv, Some cv, Some cur) \<Rightarrow>
          (case (to_decimal pv, to_decimal cv) of
             (Some prior, Some current) \<Rightarrow>
               if length (ca_inputs calc) \<noteq> 2 \<or> \<not> is_finite prior \<or> \<not> is_finite current then None
               else (case canonical_of prior current (py_str cur) of
                   None \<Rightarrow> None
                 | Some i \<Rightarrow> (case (growth_quotient i, to_decimal (ca_output calc)) of
                     (Some expected, Some actual) \<Rightarrow>
                       if is_finite actual \<and> dec_cmp (=) actual expected then Some i else None
                   | _ \<Rightarrow> None))
           | _ \<Rightarrow> None)
      | _ \<Rightarrow> None)"

definition expected_commitment :: "(bytes \<Rightarrow> string) \<Rightarrow> calculation \<Rightarrow> fin_exn + growth_input option" where
  "expected_commitment sha calc = (case expected_canonical calc of
     None \<Rightarrow> Inr None
   | Some i \<Rightarrow> rbind (build_proof_input sha (ca_run_id calc) (ca_id calc) (the (ca_implementation_hash calc))
         (ca_inputs calc ! 0, ca_inputs calc ! 1) i) (\<lambda>d. Inr (Some d)))"

text \<open>Equality of a JSON object with the dump of canonical inputs.\<close>

definition canonical_json_matches :: "(string \<times> pyvalue) list \<Rightarrow> canonical_inputs \<Rightarrow> bool" where
  "canonical_json_matches j i \<longleftrightarrow>
     fst ` set j = {''prior_revenue_minor'', ''current_revenue_minor'', ''currency'', ''scale''}
     \<and> py_eq_int (snapshot_get j ''prior_revenue_minor'') (ci_prior i)
     \<and> py_eq_int (snapshot_get j ''current_revenue_minor'') (ci_current i)
     \<and> text_is (snapshot_get j ''currency'') (ci_currency i)
     \<and> py_eq_int (snapshot_get j ''scale'') (ci_scale i)"

section \<open>One required proof\<close>

definition record_ok :: "bool \<Rightarrow> string \<Rightarrow> string \<Rightarrow> proof_record \<Rightarrow> bool" where
  "record_ok strict run_id k p \<longleftrightarrow>
     pr_status p = PS_VERIFIED \<and> pr_run_id p = run_id \<and> pr_calculation_id p = k \<and> pr_image_id p \<noteq> []
     \<and> pr_implementation_hash p \<noteq> [] \<and> pr_input_commitment p \<noteq> [] \<and> truthy (pr_receipt_ref p)
     \<and> truthy (pr_receipt_hash p) \<and> truthy (pr_journal_hash p)
     \<and> (strict \<longrightarrow> pr_backend p = ''risc0'' \<and> pr_image_id p = expected_image_id)"

definition calculation_ok :: "string \<Rightarrow> calculation option \<Rightarrow> proof_record \<Rightarrow> bool" where
  "calculation_ok run_id calc p \<longleftrightarrow> (case calc of None \<Rightarrow> False | Some c \<Rightarrow>
     ca_run_id c = run_id \<and> ca_implementation_hash c = Some (pr_implementation_hash p)
     \<and> pr_program_id p = ca_formula_id c)"

definition commitment_ok ::
    "bool \<Rightarrow> string \<Rightarrow> string \<Rightarrow> calculation option \<Rightarrow> growth_input option \<Rightarrow> proof_record
       \<Rightarrow> input_commitment_record option \<Rightarrow> bool" where
  "commitment_ok strict run_id k calc expected p commitment \<longleftrightarrow> (case commitment of None \<Rightarrow> False | Some m \<Rightarrow>
     pi_run_id m = run_id \<and> pi_calculation_id m = k \<and> pi_implementation_hash m = pr_implementation_hash p
     \<and> pi_input_commitment m = pr_input_commitment p
     \<and> (strict \<longrightarrow> (case (calc, expected) of
          (Some c, Some e) \<Rightarrow> pi_formula_id m = ca_formula_id c \<and> pi_capability_id m = ca_capability_id c
            \<and> pi_refs m = ca_inputs c \<and> pi_output_commitment m \<noteq> []
            \<and> canonical_json_matches (pi_canonical m) (gi_inputs e)
            \<and> pi_input_commitment m = gi_input_commitment e
            \<and> pi_output_commitment m = gi_output_commitment e
        | _ \<Rightarrow> False)))"

definition verification_ok :: "bool \<Rightarrow> proof_record \<Rightarrow> proof_verification option \<Rightarrow> bool" where
  "verification_ok strict p v \<longleftrightarrow> (case v of None \<Rightarrow> False | Some w \<Rightarrow>
     pv_proof_id w = pr_id p \<and> pv_status w = PS_VERIFIED \<and> pv_verified w \<and> pv_image_id w = pr_image_id p
     \<and> Some (pv_receipt_hash w) = pr_receipt_hash p \<and> Some (pv_journal_hash w) = pr_journal_hash p
     \<and> (strict \<longrightarrow> pv_verifier w = ''risc0-independent-host-verifier''))"

definition artifact_ok :: "gate_env \<Rightarrow> bool \<Rightarrow> proof_record \<Rightarrow> proof_artifact option \<Rightarrow> bool" where
  "artifact_ok env strict p a \<longleftrightarrow> (case a of None \<Rightarrow> False | Some r \<Rightarrow>
     pa_proof_id r = pr_id p \<and> Some (pa_ref r) = pr_receipt_ref p \<and> Some (pa_content_hash r) = pr_receipt_hash p
     \<and> 0 < pa_size r
     \<and> (strict \<longrightarrow> pa_type r = ''application/vnd.risc0.receipt''
        \<and> (case ge_read_file env (pa_ref r) of None \<Rightarrow> False | Some content \<Rightarrow>
             pa_size r = int (length content) \<and> pa_content_hash r = ''sha256:'' @ ge_sha env content)))"

text \<open>A collection that was not handed over counts as absent only under strict lineage.\<close>

definition supplied_ok :: "bool \<Rightarrow> (string \<times> 'a) list option \<Rightarrow> string \<Rightarrow> ('a option \<Rightarrow> bool) \<Rightarrow> bool" where
  "supplied_ok strict xs k ok = (case xs of None \<Rightarrow> \<not> strict | Some ys \<Rightarrow> ok (map_of ys k))"

definition proof_ok :: "gate_env \<Rightarrow> gate_input \<Rightarrow> string \<Rightarrow> growth_input option \<Rightarrow> proof_record \<Rightarrow> bool" where
  "proof_ok env g k expected p \<longleftrightarrow>
     (let strict = strict_lineage g; run_id = rr_run_id (ga_review g);
          calc = map_of (opt_list (ga_calculations g)) k in
      record_ok strict run_id k p
      \<and> (ga_calculations g \<noteq> None \<and> strict \<longrightarrow> calculation_ok run_id calc p)
      \<and> supplied_ok strict (ga_commitments g) k (commitment_ok strict run_id k calc expected p)
      \<and> supplied_ok strict (ga_verifications g) k (verification_ok strict p)
      \<and> supplied_ok strict (ga_artifacts g) k (artifact_ok env strict p))"

definition proof_reasons :: "gate_env \<Rightarrow> gate_input \<Rightarrow> string \<Rightarrow> fin_exn + string list" where
  "proof_reasons env g k = (case map_of (ga_proofs g) k of
     None \<Rightarrow> Inr [''PROOF_MISSING:'' @ k]
   | Some (Inr result) \<Rightarrow> Inr [''PROOF_'' @ proof_status_value (ps_status result) @ '':'' @ k]
   | Some (Inl p) \<Rightarrow>
       rbind (case (ga_commitments g, map_of (opt_list (ga_calculations g)) k) of
           (Some _, Some c) \<Rightarrow> expected_commitment (ge_sha env) c | _ \<Rightarrow> Inr None) (\<lambda>expected.
       Inr (if proof_ok env g k expected p then [] else [''PROOF_IDENTITY_OR_VERIFICATION_INVALID:'' @ k])))"

section \<open>The decision\<close>

record release_decision =
  rd_allowed :: bool
  rd_reasons :: "string list"

definition review_reasons :: "gate_input \<Rightarrow> string list" where
  "review_reasons g = (let r = ga_review g in
     (if rr_context r \<noteq> ga_context g then [''REVIEW_REQUIREMENT_CONTEXT_MISMATCH''] else [])
     @ (if rr_status r \<noteq> RV_PASS then [''REVIEW_'' @ review_status_value (rr_status r)] else [])
     @ (if strict_lineage g \<and> rr_reviewer r \<noteq> independent_reviewer then [''STRICT_REVIEW_IDENTITY_INVALID''] else []))"

definition prior_positive :: "calculation \<Rightarrow> bool" where
  "prior_positive c = (case map_of (ca_snapshot c) ''prior_revenue'' of
     None \<Rightarrow> False
   | Some v \<Rightarrow> (case to_decimal v of None \<Rightarrow> False
      | Some d \<Rightarrow> is_finite d \<and> dec_cmp (>) d (Dec False 0 0)))"

definition growth_reasons :: "gate_input \<Rightarrow> string list" where
  "growth_reasons g = concat (map (\<lambda>(k, c). if ca_formula_id c = ''revenue_growth_v1'' \<and> \<not> prior_positive c
     then [growth_reason] else []) (opt_list (ga_calculations g)))"

definition set_mismatch :: "gate_input \<Rightarrow> string \<Rightarrow> string list \<Rightarrow> string list" where
  "set_mismatch g label ks = (if set ks \<noteq> set (required_ids g) then [label @ ''_SET_MISMATCH''] else [])"

definition strict_reasons :: "gate_env \<Rightarrow> gate_input \<Rightarrow> string list" where
  "strict_reasons env g =
     (if ge_dev_mode env then [''RISC0_DEV_MODE_FORBIDDEN''] else [])
     @ (if set (rr_proof_refs (ga_review g)) \<noteq> set (required_ids g) then [''REVIEW_PROOF_REQUIREMENT_MISMATCH''] else [])"

definition closure_reasons :: "gate_input \<Rightarrow> string list" where
  "closure_reasons g = set_mismatch g ''PROOF'' (map fst (ga_proofs g))
     @ set_mismatch g ''COMMITMENT'' (map fst (opt_list (ga_commitments g)))
     @ set_mismatch g ''VERIFICATION'' (map fst (opt_list (ga_verifications g)))
     @ set_mismatch g ''ARTIFACT'' (map fst (opt_list (ga_artifacts g)))"

definition evaluate :: "gate_env \<Rightarrow> gate_input \<Rightarrow> fin_exn + release_decision" where
  "evaluate env g =
     (let strict = strict_lineage g in
      rbind (if strict then snapshot_reasons env g else Inr []) (\<lambda>snapshot.
      rbind (rmap (proof_reasons env g) (required_ids g)) (\<lambda>proofs.
      let reasons = review_reasons g @ snapshot @ (if strict then strict_reasons env g else [])
        @ growth_reasons g @ (if strict then closure_reasons g else []) @ concat proofs
      in Inr \<lparr>rd_allowed = (reasons = []), rd_reasons = reasons\<rparr>)))"

end
