(* ===== verification/GateArithmetic.thy ===== *)
theory GateArithmetic
  imports ReleaseGate FinancialCapabilities
begin

text \<open>
  The arithmetic of the release gate. The canonical integers that the gate derives from the texts of a
  snapshot are the exact revenues in minor units (a revenue that 28 digits cannot hold is out of the
  64-bit range and refused), and the quotient that the gate computes from the reduced fraction is the
  one that the calculator rounds.
\<close>

section \<open>Rounding keeps the order of magnitude\<close>

lemma rounded_ge:
  assumes "magnitude q k" and "etiny p \<le> k - (p - 1)" and "0 < p"
  shows "10 powi k \<le> rounded p q"
proof -
  have q: "0 < q" using assms(1) powi_pos [of k] unfolding magnitude_def by linarith
  obtain n d where nd: "quotient_of q = (n, d)" by fastforce
  have d: "0 < d" and qv: "q = of_int n / of_int d"
    using quotient_of_denom_pos [OF nd] quotient_of_div [OF nd] by auto
  with q have n: "0 < n" by (simp add: zero_less_divide_iff)
  have "adjusted n d = k"
    using adjusted_magnitude [OF n d] assms(1) magnitude_unique by (simp add: qv [symmetric])
  then have x: "round_exp p q = k - (p - 1)" using assms(2) by (simp add: round_exp_def nd)
  have "10 powi (p - 1) * 10 powi (k - (p - 1)) \<le> q"
    using assms(1) by (simp add: magnitude_def powi_split [symmetric])
  then have "of_int (10 ^ nat (p - 1)) \<le> q / 10 powi (k - (p - 1))"
    using powi_nat [of "p - 1"] assms(3) by (simp add: le_divide_eq)
  then have "10 ^ nat (p - 1) \<le> \<lfloor>q / 10 powi (k - (p - 1))\<rfloor>" by (simp only: le_floor_iff)
  also have "\<dots> \<le> rat_half_even (q / 10 powi (k - (p - 1)))" by (simp add: rat_half_even_def Let_def)
  finally have "of_int (10 ^ nat (p - 1)) * 10 powi (k - (p - 1)) \<le> rounded p q"
    using q by (simp add: rounded_def x mult_right_mono)
  moreover have "of_int (10 ^ nat (p - 1)) * 10 powi (k - (p - 1)) = (10 powi k :: rat)"
    using powi_nat [of "p - 1"] assms(3) powi_split [of "p - 1" "k - (p - 1)"] by simp
  ultimately show ?thesis by simp
qed

lemma dec_int_ge:
  assumes "of_int b \<le> \<bar>dec_rat d\<bar>" and "is_finite d" and "decimal_wf d" and "dec_int d = Some n"
  shows "b \<le> \<bar>n\<bar>"
proof -
  obtain s c x where d: "d = Dec s c x" using assms(2) by (rule finite_cases)
  have c: "0 \<le> c" using assms(3) by (simp add: d)
  have v: "of_int b \<le> (of_int c * 10 powi x :: rat)"
    using assms(1) c by (simp add: d Decimals.signed_def abs_mult split: if_splits)
  show ?thesis
  proof (cases "0 \<le> x")
    case True
    then have "(of_int b :: rat) \<le> of_int (c * 10 ^ nat x)" using v powi_nat [OF True] by simp
    then have "b \<le> c * 10 ^ nat x" by (simp only: of_int_le_iff)
    then show ?thesis using assms(4) True c by (auto simp: d Decimals.signed_def)
  next
    case False
    then have "(of_int (b * 10 ^ nat (- x)) :: rat) \<le> of_int c"
      using v by (simp add: power_int_def field_simps)
    then have "b * 10 ^ nat (- x) \<le> c" by (simp only: of_int_le_iff)
    then have "b * 10 ^ nat (- x) div 10 ^ nat (- x) \<le> c div 10 ^ nat (- x)"
      by (rule zdiv_mono1) simp
    then have "b \<le> c div 10 ^ nat (- x)" by simp
    then show ?thesis using assms(4) False c by (auto simp: d Decimals.signed_def pos_imp_zdiv_nonneg_iff)
  qed
qed

section \<open>Canonical integers\<close>

lemma canonical_int:
  assumes "is_finite d" and "decimal_wf d" and "dec_mul 28 d (Dec False (10 ^ nat scale) 0) = Inr r"
    and "dec_int r = Some n" and "\<bar>n\<bar> \<le> 2 ^ 63" and "0 \<le> scale"
    and "\<And>s c x. d = Dec s c x \<Longrightarrow> - x \<le> scale"
  shows "of_int n = dec_rat d * 10 powi scale"
proof -
  obtain s c x where d: "d = Dec s c x" using assms(1) by (rule finite_cases)
  have c: "0 \<le> c" and x: "0 \<le> x + scale" using assms(2) assms(7) [OF d] by (simp_all add: d)
  define m where "m = Decimals.signed s (c * 10 ^ nat (x + scale))"
  have m: "dec_rat d * 10 powi scale = of_int m"
    using powi_nat [OF x] by (simp add: d m_def Decimals.signed_def powi_split mult.assoc)
  have f: "dec_rat (Dec False (10 ^ nat scale) 0) = 10 powi scale"
    using powi_nat [OF assms(6)] by (simp add: Decimals.signed_def)
  from dec_mul_value [OF _ assms(3,1) _ assms(2)]
  have r: "is_finite r" "decimal_wf r" "dec_rat r = dec_round 28 (of_int m)" unfolding f m by simp_all
  show ?thesis
  proof (cases "\<bar>m\<bar> < 10 ^ 28")
    case True
    have "dec_round 28 (of_int m * 10 powi 0) = of_int m * 10 powi 0"
      by (rule dec_round_exact) (use True in \<open>simp_all add: etiny_def\<close>)
    with r dec_int_exact [of r m] assms(4) m show ?thesis by simp
  next
    case False
    define q :: rat where "q = of_int \<bar>m\<bar>"
    have q: "of_int (10 ^ 28) \<le> q" unfolding q_def using False by (simp only: of_int_le_iff)
    have q0: "0 < \<bar>m\<bar>" using False by auto
    from adjusted_magnitude [OF q0, of 1]
    have mag: "magnitude q (adjusted \<bar>m\<bar> 1)" by (simp add: q_def)
    have "(10 :: rat) powi 28 \<le> q" using q by simp
    with mag have "(10 :: rat) powi 28 < 10 powi (adjusted \<bar>m\<bar> 1 + 1)" unfolding magnitude_def by linarith
    then have k: "28 \<le> adjusted \<bar>m\<bar> 1" by (simp only: powi_less_iff)
    then have "10 powi adjusted \<bar>m\<bar> 1 \<le> rounded 28 q"
      by (intro rounded_ge [OF mag]) (simp_all add: etiny_def)
    moreover have "(10 :: rat) powi 28 \<le> 10 powi adjusted \<bar>m\<bar> 1"
      using k powi_less_iff [of "adjusted \<bar>m\<bar> 1" 28] by (simp add: not_less [symmetric])
    ultimately have "of_int (10 ^ 28) \<le> rounded 28 q" by simp
    moreover have "\<bar>dec_rat r\<bar> = \<bar>rounded 28 q\<bar>"
      unfolding r(3) by (auto simp: dec_round_def q_def)
    ultimately have "of_int (10 ^ 28) \<le> \<bar>dec_rat r\<bar>" by linarith
    from dec_int_ge [OF this r(1,2) assms(4)] assms(5) have False by simp
    then show ?thesis ..
  qed
qed

text \<open>The canonical integers are the exact revenues in units of \<open>10^-scale\<close>.\<close>

lemma canonical_of_exact:
  assumes "canonical_of prior current currency = Some i" and "decimal_wf prior" and "decimal_wf current"
  shows "is_finite prior \<and> is_finite current \<and> canonical_inputs_valid i \<and> ci_currency i = currency
    \<and> of_int (ci_prior i) = dec_rat prior * 10 powi ci_scale i
    \<and> of_int (ci_current i) = dec_rat current * 10 powi ci_scale i"
proof -
  obtain s c x t e y where pc: "prior = Dec s c x" "current = Dec t e y"
    using assms(1) by (cases prior; cases current) (auto simp: canonical_of_def)
  define scale where "scale = max 0 (max (- x) (- y))"
  have sc: "0 \<le> scale" "- x \<le> scale" "- y \<le> scale" by (auto simp: scale_def)
  obtain p q m n where
    mul: "dec_mul 28 prior (Dec False (10 ^ nat scale) 0) = Inr p"
      "dec_mul 28 current (Dec False (10 ^ nat scale) 0) = Inr q"
    and int: "dec_int p = Some m" "dec_int q = Some n"
    and i: "i = \<lparr>ci_prior = m, ci_current = n, ci_currency = currency, ci_scale = scale\<rparr>"
      "canonical_inputs_valid i"
    using assms(1) unfolding canonical_of_def pc prec_def
    by (auto simp: scale_def [symmetric] Let_def simp del: dec_mul.simps split: sum.splits option.splits if_splits)
  have b: "\<bar>m\<bar> \<le> 2 ^ 63" "\<bar>n\<bar> \<le> 2 ^ 63" using i by (auto simp: canonical_inputs_valid_def abs_le_iff)
  have fin: "is_finite prior" "is_finite current" by (simp_all add: pc)
  have "of_int m = dec_rat prior * 10 powi scale"
    by (rule canonical_int [OF fin(1) assms(2) mul(1) int(1) b(1) sc(1)]) (use pc sc in auto)
  moreover have "of_int n = dec_rat current * 10 powi scale"
    by (rule canonical_int [OF fin(2) assms(3) mul(2) int(2) b(2) sc(1)]) (use pc sc in auto)
  ultimately show ?thesis using fin i by simp
qed

end
