(* ===== verification/ExpectedCommitment.thy ===== *)
theory ExpectedCommitment
  imports GateArithmetic
begin

text \<open>
  What the commitment that the release gate expects says about the calculation: it exists only when the
  reported growth is the correctly rounded exact growth of the revenues in the calculation's snapshot,
  and it commits to those revenues in minor units and to the reduced fraction.
\<close>

section \<open>Parsed decimals are well formed\<close>

lemma parse_number_wf: "parse_number neg s = Some d \<Longrightarrow> decimal_wf d"
proof -
  assume "parse_number neg s = Some d"
  moreover have "list_all is_digit (takeWhile is_digit t)" for t
    by (auto simp: list_all_iff dest: set_takeWhileD)
  ultimately show "decimal_wf d"
    by (auto simp: parse_number_def Let_def intro!: digits_value_nonneg split: if_splits)
qed

lemma to_decimal_wf: "to_decimal v = Some d \<Longrightarrow> decimal_wf d"
  by (auto simp: to_decimal_def parse_decimal_def Let_def dest: parse_number_wf split: prod.splits if_splits)

section \<open>The exact growth\<close>

text \<open>The exact growth of two revenues.\<close>

definition exact_growth :: "rat \<Rightarrow> rat \<Rightarrow> rat" where
  "exact_growth prior current = (current - prior) / prior"

lemma calculate_growth_ratio:
  assumes "calculate_growth i = Inr r"
  shows "0 < ci_prior i \<and> 0 < gr_denominator r
    \<and> of_int (gr_numerator r) / of_int (gr_denominator r)
      = (exact_growth (of_int (ci_prior i)) (of_int (ci_current i)) :: rat)"
proof -
  define n p where "n = ci_current i - ci_prior i" and "p = ci_prior i"
  have p: "0 < p" and r: "gr_numerator r = n div gcd n p" "gr_denominator r = p div gcd n p"
    using assms by (auto simp: calculate_growth_def Let_def n_def p_def split: if_splits)
  obtain a b where n: "n = gcd n p * a" and b: "p = gcd n p * b" by (meson dvdE gcd_dvd1 gcd_dvd2)
  have g: "0 < gcd n p" using p by simp
  have ab: "n div gcd n p = a" "p div gcd n p = b" using n b g by (metis nonzero_mult_div_cancel_left less_irrefl)+
  have "0 < b" using p b g by (metis zero_less_mult_pos)
  moreover have "(of_int n :: rat) / of_int p = of_int a / of_int b"
    using n b g by (metis of_int_mult mult_divide_mult_cancel_left of_int_eq_0_iff less_irrefl)
  moreover have "(of_int n :: rat) / of_int p = exact_growth (of_int (ci_prior i)) (of_int (ci_current i))"
    by (simp add: exact_growth_def n_def p_def)
  ultimately show ?thesis using p unfolding r ab by (simp add: p_def)
qed

lemma growth_quotient_value:
  assumes "growth_quotient i = Some v"
  shows "0 < ci_prior i \<and> is_finite v \<and> decimal_wf v
    \<and> dec_rat v = dec_round 28 (exact_growth (of_int (ci_prior i)) (of_int (ci_current i)))"
proof -
  obtain r where r: "calculate_growth i = Inr r"
    and v: "dec_div 28 (dec_of_int (gr_numerator r)) (dec_of_int (gr_denominator r)) = Inr v"
    using assms by (auto simp: growth_quotient_def split: sum.splits)
  from dec_div_value [OF _ v] calculate_growth_ratio [OF r] show ?thesis by simp
qed

text \<open>The growth of 64-bit revenues is far from the smallest exponent, so rounding is relative.\<close>

lemma magnitude_exists:
  assumes "0 < q"
  obtains k where "magnitude q k"
proof -
  obtain n d where nd: "quotient_of q = (n, d)" by fastforce
  have d: "0 < d" and q: "q = of_int n / of_int d"
    using quotient_of_denom_pos [OF nd] quotient_of_div [OF nd] by auto
  with assms have "0 < n" by (simp add: zero_less_divide_iff)
  from adjusted_magnitude [OF this d] q that show thesis by simp
qed

lemma rounded_relative:
  assumes "10 powi - 900000 \<le> q"
  shows "\<bar>rounded 28 q - q\<bar> \<le> q / 10 ^ 27 / 2"
proof -
  have "0 < (10 :: rat) powi - 900000" by (rule powi_pos)
  with assms have "0 < q" by linarith
  then obtain k where k: "magnitude q k" by (rule magnitude_exists)
  then have "q < 10 powi (k + 1)" by (simp only: magnitude_def)
  with assms have "(10 :: rat) powi - 900000 < 10 powi (k + 1)" by linarith
  then have "- 900000 < k + 1" by (simp only: powi_less_iff)
  then have e: "etiny 28 \<le> k - (28 - 1)" by (simp add: etiny_def)
  have "(10 :: rat) powi (28 - 1) = 10 ^ 27" by (simp add: power_int_def)
  with rounded_error [OF k e] show ?thesis by simp
qed

lemma dec_round_relative:
  assumes "q = 0 \<or> 10 powi - 900000 \<le> \<bar>q\<bar>"
  shows "\<bar>dec_round 28 q - q\<bar> \<le> \<bar>q\<bar> / 10 ^ 27 / 2"
proof (cases "q = 0")
  case True
  then show ?thesis by (simp add: dec_round_def)
next
  case False
  then have "10 powi - 900000 \<le> \<bar>q\<bar>" using assms by blast
  note rounded_relative [OF this]
  moreover have "\<bar>dec_round 28 q - q\<bar> = \<bar>rounded 28 \<bar>q\<bar> - \<bar>q\<bar>\<bar>"
    by (cases "q < 0") (simp_all add: dec_round_def)
  ultimately show ?thesis by simp
qed

lemma powi_uminus: "(10 :: rat) powi (- x) = 1 / 10 powi x"
  by (simp add: power_int_minus divide_inverse)

lemma exact_growth_range:
  assumes "0 < p" and "p \<le> 2 ^ 63"
  shows "exact_growth (of_int p) (of_int c) = 0 \<or> 10 powi - 900000 \<le> \<bar>exact_growth (of_int p) (of_int c) :: rat\<bar>"
proof (cases "c = p")
  case True
  then show ?thesis by (intro disjI1) (simp add: exact_growth_def)
next
  case False
  have "p \<le> 10 ^ 19" using assms by simp
  then have "(of_int p :: rat) \<le> of_int (10 ^ 19)" by (simp only: of_int_le_iff)
  then have p: "0 < (of_int p :: rat)" "(of_int p :: rat) \<le> 10 powi 19" using assms(1) by simp_all
  have "(10 :: rat) powi - 900000 \<le> 10 powi - 19"
    by (rule power_int_increasing) simp_all
  also have "10 powi - 19 \<le> 1 / (of_int p :: rat)"
    unfolding powi_uminus by (rule divide_left_mono [OF p(2)]) (use p(1) in simp_all)
  also have "\<dots> \<le> \<bar>of_int (c - p)\<bar> / of_int p"
  proof -
    have "1 \<le> \<bar>c - p\<bar>" using False by simp
    then have "(1 :: rat) \<le> of_int \<bar>c - p\<bar>" by (simp only: of_int_1_le_iff)
    then show ?thesis using p by (simp add: divide_right_mono)
  qed
  also have "\<dots> = \<bar>exact_growth (of_int p) (of_int c)\<bar>"
    using p by (simp add: exact_growth_def abs_divide)
  finally show ?thesis by blast
qed

text \<open>
  \<open>rounded_growth a p c\<close>: the number \<open>a\<close> is the growth from \<open>p\<close> to \<open>c\<close> rounded correctly to 28 digits,
  with a relative error of at most half a unit in the 28th digit.
\<close>

definition rounded_growth :: "rat \<Rightarrow> rat \<Rightarrow> rat \<Rightarrow> bool" where
  "rounded_growth a p c \<longleftrightarrow> a = dec_round 28 (exact_growth p c)
     \<and> \<bar>a - exact_growth p c\<bar> \<le> \<bar>exact_growth p c\<bar> / 10 ^ 27 / 2"

lemma exact_growth_scale: "0 < u \<Longrightarrow> exact_growth (p * u) (c * u) = exact_growth p c"
  by (simp add: exact_growth_def left_diff_distrib [symmetric])

lemma dec_cmp_eq_finite:
  "is_finite a \<Longrightarrow> is_finite b \<Longrightarrow> dec_cmp (=) a b \<longleftrightarrow> dec_rat a = dec_rat b"
  by (cases a; cases b) (simp_all del: dec_rat.simps)

text \<open>
  \<open>growth_exact c i\<close>: the snapshot of the calculation holds a positive prior and a current revenue, the
  inputs \<open>i\<close> are exactly these revenues in units of \<open>10^-scale\<close>, and the reported output is their growth.
\<close>

definition snapshot_decimal :: "calculation \<Rightarrow> string \<Rightarrow> decimal option" where
  "snapshot_decimal c k = (case map_of (ca_snapshot c) k of None \<Rightarrow> None | Some v \<Rightarrow> to_decimal v)"

definition growth_exact :: "calculation \<Rightarrow> canonical_inputs \<Rightarrow> bool" where
  "growth_exact c i \<longleftrightarrow>
     (case (snapshot_decimal c ''prior_revenue'', snapshot_decimal c ''current_revenue'', to_decimal (ca_output c)) of
        (Some prior, Some current, Some actual) \<Rightarrow>
          0 < dec_rat prior
          \<and> of_int (ci_prior i) = dec_rat prior * 10 powi ci_scale i
          \<and> of_int (ci_current i) = dec_rat current * 10 powi ci_scale i
          \<and> is_finite actual \<and> rounded_growth (dec_rat actual) (dec_rat prior) (dec_rat current)
      | _ \<Rightarrow> False)"

lemma expected_canonical_sound:
  assumes "expected_canonical c = Some i"
  shows "ca_formula_id c = ''revenue_growth_v1'' \<and> truthy (ca_implementation_hash c) \<and> length (ca_inputs c) = 2
    \<and> canonical_inputs_valid i \<and> growth_exact c i"
proof -
  obtain pv cv cur prior current v actual where
    f: "ca_formula_id c = ''revenue_growth_v1''" "truthy (ca_implementation_hash c)" "length (ca_inputs c) = 2"
    and snap: "map_of (ca_snapshot c) ''prior_revenue'' = Some pv" "map_of (ca_snapshot c) ''current_revenue'' = Some cv"
    and dec: "to_decimal pv = Some prior" "to_decimal cv = Some current"
    and can: "canonical_of prior current (py_str cur) = Some i"
    and v: "growth_quotient i = Some v" and act: "to_decimal (ca_output c) = Some actual"
    and eq: "is_finite actual" "dec_cmp (=) actual v"
    using assms by (auto simp: expected_canonical_def split: if_splits option.splits)
  have i: "canonical_inputs_valid i" "of_int (ci_prior i) = dec_rat prior * 10 powi ci_scale i"
    "of_int (ci_current i) = dec_rat current * 10 powi ci_scale i"
    using canonical_of_exact [OF can to_decimal_wf [OF dec(1)] to_decimal_wf [OF dec(2)]] by blast+
  have q: "0 < ci_prior i" "is_finite v"
    "dec_rat v = dec_round 28 (exact_growth (of_int (ci_prior i)) (of_int (ci_current i)))"
    using growth_quotient_value [OF v] by blast+
  have "ci_prior i \<le> 2 ^ 63" using i(1) by (simp add: canonical_inputs_valid_def)
  note rel = dec_round_relative [OF exact_growth_range [OF q(1) this, of "ci_current i"]]
  have u: "0 < (10 :: rat) powi ci_scale i" by simp
  have "0 < (of_int (ci_prior i) :: rat)" using q(1) by simp
  then have "0 < dec_rat prior" using u unfolding i(2) by (simp only: zero_less_mult_iff) auto
  moreover have "dec_rat actual = dec_rat v" using eq q(2) by (simp only: dec_cmp_eq_finite)
  then have "rounded_growth (dec_rat actual) (dec_rat prior) (dec_rat current)"
    using rel unfolding rounded_growth_def q(3) i(2,3) exact_growth_scale [OF u] by simp
  ultimately show ?thesis using f snap dec act i eq(1) by (simp add: growth_exact_def snapshot_decimal_def)
qed

lemma build_proof_input_Inr:
  assumes "build_proof_input sha run_id k h refs i = Inr e"
  shows "gi_run_id e = run_id \<and> gi_calculation_id e = k \<and> gi_implementation_hash e = h \<and> gi_refs e = refs
    \<and> fst refs \<noteq> snd refs \<and> gi_inputs e = i
    \<and> input_commitment sha e = Inr (gi_input_commitment e)
    \<and> (\<exists>r. calculate_growth i = Inr r
        \<and> output_commitment sha ''revenue_growth_v1'' r = Inr (gi_output_commitment e))"
  using assms
  by (auto simp: build_proof_input_def validate_growth_input_def provisional_input_def Let_def rbind_Inr_iff)

lemma expected_commitment_facts:
  assumes "expected_commitment sha c = Inr (Some e)"
  shows "ca_formula_id c = ''revenue_growth_v1'' \<and> growth_exact c (gi_inputs e)
    \<and> gi_run_id e = ca_run_id c \<and> gi_calculation_id e = ca_id c
    \<and> Some (gi_implementation_hash e) = ca_implementation_hash c
    \<and> [fst (gi_refs e), snd (gi_refs e)] = ca_inputs c
    \<and> input_commitment sha e = Inr (gi_input_commitment e)
    \<and> (\<exists>r. calculate_growth (gi_inputs e) = Inr r
        \<and> output_commitment sha ''revenue_growth_v1'' r = Inr (gi_output_commitment e))"
proof -
  obtain i where i: "expected_canonical c = Some i"
    and "build_proof_input sha (ca_run_id c) (ca_id c) (the (ca_implementation_hash c))
      (ca_inputs c ! 0, ca_inputs c ! 1) i = Inr e"
    using assms by (auto simp: expected_commitment_def rbind_Inr_iff split: option.splits)
  note e = build_proof_input_Inr [OF this(2)] and c = expected_canonical_sound [OF i]
  have "Some (the (ca_implementation_hash c)) = ca_implementation_hash c"
    using c by (cases "ca_implementation_hash c") (simp_all add: truthy_def)
  moreover have "[ca_inputs c ! 0, ca_inputs c ! 1] = ca_inputs c"
    using c by (auto simp: length_Suc_conv numeral_2_eq_2)
  ultimately show ?thesis using e c by simp
qed

end
