(* ===== verification/GrowthPassesGate.thy ===== *)
theory GrowthPassesGate
  imports ExpectedCommitment
begin

text \<open>
  The growth calculator and the release gate agree: for revenues whose minor units fit the proof input,
  the growth that the calculator records is the one that the gate recomputes from the texts of the
  snapshot, although the calculator works on decimals and the gate on a reduced fraction.
\<close>

section \<open>The gate's quotient exists\<close>

lemma ratio_at_0 [simp]: "ratio_at 0 n d = (n, d)"
  by (simp add: ratio_at_def)

lemma powi_big: "2 * (10 :: rat) powi 900000 < 10 powi (emax + 1)"
proof -
  have "2 * (10 :: rat) powi 900000 < 10 powi 1 * 10 powi 900000"
    by (rule mult_strict_right_mono [OF _ powi_pos]) simp
  also have "\<dots> = 10 powi (1 + 900000)" by (rule powi_split [symmetric])
  also have "\<dots> < 10 powi (emax + 1)" unfolding powi_less_iff by (simp add: emax_def)
  finally show ?thesis .
qed

lemma rounded_in_range:
  assumes "10 powi - 900000 \<le> q" and "q \<le> 10 powi 900000"
  shows "rounded 28 q < 10 powi (emax + 1) \<and> 0 < rounded 28 q"
proof -
  define B where "B = (10 :: rat) powi 900000"
  define T where "T = (10 :: rat) powi (emax + 1)"
  have B: "q \<le> B" "2 * B < T" unfolding B_def T_def by (rule assms(2), rule powi_big)
  have "0 < q" using powi_pos [of "- 900000"] assms(1) by (rule less_le_trans)
  then have "q / 10 ^ 27 / 2 < q" by simp
  with rounded_relative [OF assms(1)] have "rounded 28 q < 2 * q" "0 < rounded 28 q"
    unfolding abs_le_iff by linarith+
  with B have "rounded 28 q < T \<and> 0 < rounded 28 q" by linarith
  then show ?thesis unfolding T_def .
qed

lemma dec_div_int:
  assumes "0 < d" and "n = 0 \<or> 10 powi - 900000 \<le> (\<bar>of_int n / of_int d\<bar> :: rat)"
    and "(\<bar>of_int n / of_int d\<bar> :: rat) \<le> 10 powi 900000"
  shows "\<exists>v. dec_div 28 (dec_of_int n) (dec_of_int d) = Inr v"
proof -
  define q :: rat where "q = of_int \<bar>n\<bar> / of_int d"
  have q: "q = \<bar>of_int n / of_int d\<bar>" using assms(1) by (simp add: q_def abs_divide)
  have "rounded 28 q < 10 powi (emax + 1) \<and> (\<bar>n\<bar> = 0 \<or> 0 < rounded 28 q)"
  proof (cases "n = 0")
    case True
    then have "q = 0" by (simp add: q_def)
    then show ?thesis using True powi_pos [of "emax + 1"] by (simp only: rounded_0 abs_0 simp_thms)
  next
    case False
    then have "10 powi - 900000 \<le> q" "q \<le> 10 powi 900000" using assms(2,3) unfolding q by blast+
    from rounded_in_range [OF this] show ?thesis by blast
  qed
  with finish_ok [of "\<bar>n\<bar>" d 28 "n < 0" 0] assms(1)
  have "\<exists>r. finish 28 (n < 0) 0 \<bar>n\<bar> d = Inr r" unfolding q_def by (simp only: simp_thms)
  then show ?thesis using assms(1) by (simp add: dec_of_int_def)
qed

lemma growth_quotient_exists:
  assumes "canonical_inputs_valid i"
  shows "\<exists>v. growth_quotient i = Some v"
proof -
  let ?g = "exact_growth (of_int (ci_prior i)) (of_int (ci_current i)) :: rat"
  have p: "0 < ci_prior i" "ci_prior i \<le> 2 ^ 63" and c: "\<bar>ci_current i - ci_prior i\<bar> \<le> 2 ^ 64"
    using assms by (auto simp: canonical_inputs_valid_def)
  then obtain r where r: "calculate_growth i = Inr r" by (auto simp: calculate_growth_def Let_def)
  note ratio = calculate_growth_ratio [OF r]
  have range: "?g = 0 \<or> 10 powi - 900000 \<le> \<bar>?g\<bar>" by (rule exact_growth_range [OF p])
  have "(of_int \<bar>ci_current i - ci_prior i\<bar> :: rat) \<le> of_int (10 ^ 20)"
    unfolding of_int_le_iff using c by simp
  moreover have "\<bar>?g\<bar> \<le> of_int \<bar>ci_current i - ci_prior i\<bar>"
  proof -
    have "1 \<le> (of_int (ci_prior i) :: rat)" using p(1) by simp
    then show ?thesis by (simp add: exact_growth_def abs_divide divide_le_eq mult_le_cancel_left1)
  qed
  ultimately have "\<bar>?g\<bar> \<le> of_int (10 ^ 20)" by (rule order_trans [rotated])
  also have "(of_int (10 ^ 20) :: rat) = 10 powi 20" by simp
  also have "(10 :: rat) powi 20 \<le> 10 powi 900000" by (rule power_int_increasing) simp_all
  finally have upper: "\<bar>?g\<bar> \<le> 10 powi 900000" .
  have "gr_numerator r = 0 \<or> 10 powi - 900000 \<le> \<bar>of_int (gr_numerator r) / of_int (gr_denominator r) :: rat\<bar>"
    using range ratio by (metis divide_eq_0_iff of_int_eq_0_iff less_irrefl)
  moreover have "\<bar>of_int (gr_numerator r) / of_int (gr_denominator r) :: rat\<bar> \<le> 10 powi 900000"
    using upper ratio by metis
  ultimately have "\<exists>v. dec_div 28 (dec_of_int (gr_numerator r)) (dec_of_int (gr_denominator r)) = Inr v"
    using dec_div_int ratio by blast
  then show ?thesis by (auto simp: growth_quotient_def r)
qed

section \<open>The calculator's growth\<close>

lemma growth_subtraction_exact:
  assumes "canonical_inputs_valid i" and "of_int (ci_prior i) = p * 10 powi ci_scale i"
    and "of_int (ci_current i) = c * (10 :: rat) powi ci_scale i"
  shows "dec_round 28 (c - p) = c - p"
proof -
  define m where "m = ci_current i - ci_prior i"
  have "10 powi ci_scale i * (10 :: rat) powi (- ci_scale i) = 1"
    unfolding powi_split [symmetric] by simp
  then have "c - p = of_int m * 10 powi (- ci_scale i)"
    unfolding m_def of_int_diff assms(2,3) left_diff_distrib mult.assoc by simp
  moreover have "\<bar>m\<bar> < 10 ^ nat 28" "etiny 28 \<le> - ci_scale i"
    using assms(1) by (auto simp: canonical_inputs_valid_def m_def etiny_def)
  ultimately show ?thesis using dec_round_exact [of 28 m "- ci_scale i"] by simp
qed

lemma execute_growth_fields:
  assumes "execute_growth prov run_id task_id k prior current = Inr calc"
  shows "ca_formula_id calc = ''revenue_growth_v1'' \<and> ca_capability_id calc = ''revenue_growth''
    \<and> ca_id calc = k \<and> ca_run_id calc = run_id \<and> ca_inputs calc = [evi_id prior, evi_id current]
    \<and> ca_snapshot calc = growth_snapshot prior current \<and> ca_status calc = CS_PASS
    \<and> ca_implementation_hash calc = Some (pn_code_hash prov) \<and> ca_code_hash calc = Some (pn_code_hash prov)
    \<and> ca_source_ref calc = Some (pn_source_ref prov) \<and> ca_runtime_version calc = Some (pn_runtime_version prov)
    \<and> evi_status prior = ES_ACCEPTED \<and> evi_status current = ES_ACCEPTED
    \<and> growth_comparable prior current = Inr ()
    \<and> (\<exists>p c v. decimal_input (evi_value prior) = Inr p \<and> decimal_input (evi_value current) = Inr c
        \<and> calculate_revenue_growth p c = Inr v \<and> ca_output calc = PyDecimal v)"
  using assms by (auto simp: execute_growth_def require_accepted_def rbind_Inr_iff split: if_splits)

lemma execute_growth_canonical:
  assumes "execute_growth prov run_id task_id k prior current = Inr calc"
    and "to_decimal (evi_value prior) = Some p" and "to_decimal (evi_value current) = Some c"
    and "canonical_of p c (the (evi_currency prior)) = Some i" and "pn_code_hash prov \<noteq> []"
  shows "expected_canonical calc = Some i \<and> ca_run_id calc = run_id \<and> ca_id calc = k
    \<and> ca_implementation_hash calc = Some (pn_code_hash prov) \<and> ca_inputs calc = [evi_id prior, evi_id current]"
proof -
  note can = canonical_of_exact [OF assms(4) to_decimal_wf [OF assms(2)] to_decimal_wf [OF assms(3)]]
  note calc = execute_growth_fields [OF assms(1)]
  obtain v where v: "calculate_revenue_growth p c = Inr v" "ca_output calc = PyDecimal v"
    using calc assms(2,3) by (auto simp: decimal_input_def split: if_splits)
  have cur: "truthy (evi_currency prior)" using calc by (auto simp: growth_comparable_def rbind_Inr_iff)
  obtain currency where cur: "evi_currency prior = Some currency" using cur by (auto simp: truthy_def)
  note val = calculate_growth_value [OF v(1) _ _ to_decimal_wf [OF assms(2)] to_decimal_wf [OF assms(3)]]
  have val: "is_finite v" "decimal_wf v" "dec_rat v = dec_round 28 (exact_growth (dec_rat p) (dec_rat c))"
    using val can growth_subtraction_exact [of i "dec_rat p" "dec_rat c"] by (auto simp: exact_growth_def)
  obtain w where w: "growth_quotient i = Some w" using growth_quotient_exists can by blast
  have u: "0 < (10 :: rat) powi ci_scale i" by simp
  have "dec_rat v = dec_rat w" and fw: "is_finite w"
    using growth_quotient_value [OF w] can val(3) exact_growth_scale [OF u, of "dec_rat p" "dec_rat c"] by auto
  then have eq: "dec_cmp (=) v w" by (simp add: dec_cmp_eq_finite [OF val(1) fw])
  have text_eq: "to_decimal (PyText (py_str x)) = to_decimal x" for x by (simp add: to_decimal_def)
  have "expected_canonical calc = Some i"
    using assms(2-5) can val(1,2) w eq cur
    by (simp add: expected_canonical_def calc v(2) growth_snapshot_def opt_value_def truthy_def text_eq)
  then show ?thesis using calc by simp
qed

lemma execute_growth_uncommitted:
  assumes "execute_growth prov run_id task_id k prior current = Inr calc"
    and "to_decimal (evi_value prior) = Some p" and "to_decimal (evi_value current) = Some c"
    and "canonical_of p c (the (evi_currency prior)) = None"
  shows "expected_commitment sha calc = Inr None"
proof -
  note calc = execute_growth_fields [OF assms(1)]
  have "truthy (evi_currency prior)" using calc by (auto simp: growth_comparable_def rbind_Inr_iff)
  then obtain currency where cur: "evi_currency prior = Some currency" by (auto simp: truthy_def)
  have text_eq: "to_decimal (PyText (py_str x)) = to_decimal x" for x by (simp add: to_decimal_def)
  have "expected_canonical calc = None"
    using assms(2-4) cur
    by (simp add: expected_canonical_def calc growth_snapshot_def opt_value_def text_eq)
  then show ?thesis by (simp add: expected_commitment_def)
qed

section \<open>The commitment is built\<close>

text \<open>A digest that is 64 lower-case hexadecimal characters, and texts of fewer than 1000 characters.\<close>

definition hex_digest :: "(bytes \<Rightarrow> string) \<Rightarrow> bool" where
  "hex_digest sha \<longleftrightarrow> (\<forall>b. length (sha b) = 64 \<and> list_all lower_hex (sha b))"

definition short_text :: "string \<Rightarrow> bool" where
  "short_text s \<longleftrightarrow> s \<noteq> [] \<and> length s < 1000"

lemma finish_hash_identity: "finish_hash sha fs = Inr h \<Longrightarrow> hex_digest sha \<Longrightarrow> sha256_identity h \<and> length h = 71"
  by (auto simp: finish_hash_def rbind_Inr_iff hex_digest_def sha256_identity_def)

lemma finish_hash_ok:
  "list_all (\<lambda>(n, v). length n < 1000 \<and> length v < 1000) fs \<Longrightarrow> \<exists>h. finish_hash sha fs = Inr h"
  using preimage_ok [of fs] by (auto simp: finish_hash_def is_ok_iff rbind_Inr_iff)

lemma length_int_text: "\<bar>n\<bar> < 10 ^ 30 \<Longrightarrow> length (int_text n) < 1000"
  using length_decimal [of "nat \<bar>n\<bar>" 30] by (auto simp: int_text_def nat_less_iff)

lemma abs_div_le: "g dvd n \<Longrightarrow> 0 < g \<Longrightarrow> \<bar>n div g\<bar> \<le> \<bar>n :: int\<bar>"
  by (elim dvdE) (simp add: abs_mult mult_le_cancel_right1)

lemma output_commitment_ok:
  assumes "canonical_inputs_valid i" and "calculate_growth i = Inr r" and "short_text formula"
  shows "\<exists>h. output_commitment sha formula r = Inr h"
proof -
  have "\<bar>gr_numerator r\<bar> \<le> \<bar>ci_current i - ci_prior i\<bar>" "\<bar>gr_denominator r\<bar> \<le> ci_prior i" "gr_unit r = ''ratio''"
    using assms(2) abs_div_le [of "gcd (ci_current i - ci_prior i) (ci_prior i)" "ci_prior i"]
      abs_div_le [of "gcd (ci_current i - ci_prior i) (ci_prior i)" "ci_current i - ci_prior i"]
    by (auto simp: calculate_growth_def Let_def split: if_splits)
  moreover have "\<bar>ci_current i - ci_prior i\<bar> < 10 ^ 30" "ci_prior i < 10 ^ 30"
    using assms(1) by (auto simp: canonical_inputs_valid_def)
  ultimately have "length (int_text (gr_numerator r)) < 1000" "length (int_text (gr_denominator r)) < 1000"
    "gr_unit r = ''ratio''" by (auto intro!: length_int_text)
  then show ?thesis using assms(3) finish_hash_ok [of "output_fields formula r" sha]
    by (simp add: output_commitment_def output_fields_def short_text_def)
qed

lemma input_commitment_ok:
  assumes "canonical_inputs_valid (gi_inputs d)" and "short_text (gi_run_id d)" and "short_text (gi_calculation_id d)"
    and "short_text (gi_implementation_hash d)" and "short_text (fst (gi_refs d))" and "short_text (snd (gi_refs d))"
    and "gi_schema d = input_schema_version" and "gi_formula_id d = ''revenue_growth_v1''"
    and "gi_capability_id d = ''revenue_growth''" and "length (gi_output_commitment d) = 71"
  shows "\<exists>h. input_commitment sha d = Inr h"
proof -
  have "length (int_text (ci_prior (gi_inputs d))) < 1000" "length (int_text (ci_current (gi_inputs d))) < 1000"
    "length (int_text (ci_scale (gi_inputs d))) < 1000" "length (ci_currency (gi_inputs d)) < 1000"
    "length (int_text 2) < 1000"
    using assms(1) by (auto simp: canonical_inputs_valid_def currency_code_def intro!: length_int_text)
  then show ?thesis using assms finish_hash_ok [of "input_fields d" sha]
    by (simp add: input_commitment_def input_fields_def short_text_def input_schema_version_def)
qed

lemma build_proof_input_ok:
  assumes "canonical_inputs_valid i" and "hex_digest sha" and "short_text run_id" and "short_text k" and "short_text h"
    and "short_text a" and "short_text b" and "a \<noteq> b"
  shows "\<exists>e. build_proof_input sha run_id k h (a, b) i = Inr e"
proof -
  obtain r where r: "calculate_growth i = Inr r"
    using assms(1) by (auto simp: canonical_inputs_valid_def calculate_growth_def Let_def)
  have "short_text ''revenue_growth_v1''" by (simp add: short_text_def)
  from output_commitment_ok [OF assms(1) r this] obtain out where
    out: "output_commitment sha ''revenue_growth_v1'' r = Inr out" by blast
  then have out_id: "sha256_identity out" "length out = 71"
    using finish_hash_identity assms(2) unfolding output_commitment_def by blast+
  define d where "d = provisional_input run_id k h (a, b) i out"
  have d: "gi_inputs d = i" "gi_run_id d = run_id" "gi_calculation_id d = k" "gi_implementation_hash d = h"
    "gi_refs d = (a, b)" "gi_schema d = input_schema_version" "gi_formula_id d = ''revenue_growth_v1''"
    "gi_capability_id d = ''revenue_growth''" "gi_output_commitment d = out"
    by (simp_all add: d_def provisional_input_def)
  have "\<exists>c. input_commitment sha d = Inr c"
    by (rule input_commitment_ok) (use assms out_id d in simp_all)
  then obtain c where c: "input_commitment sha d = Inr c" by blast
  then have "sha256_identity c" using finish_hash_identity assms(2) unfolding input_commitment_def by blast
  moreover have "input_commitment sha (d\<lparr>gi_input_commitment := c\<rparr>) = Inr c"
    using c by (simp add: input_commitment_def input_fields_def)
  ultimately have "validate_growth_input sha (d\<lparr>gi_input_commitment := c\<rparr>) = Inr (d\<lparr>gi_input_commitment := c\<rparr>)"
    using assms(1,3-8) d r out out_id
    by (simp add: validate_growth_input_def growth_fields_valid_def short_text_def guard_def)
  then show ?thesis using r out c by (simp add: build_proof_input_def d_def [symmetric] Let_def)
qed

section \<open>A sample\<close>

definition sample_sha :: "bytes \<Rightarrow> string" where
  "sample_sha b = replicate 64 (CHR ''a'')"

definition sample_evidence :: "string \<Rightarrow> string \<Rightarrow> pyvalue \<Rightarrow> date \<Rightarrow> evidence" where
  "sample_evidence k period v d = \<lparr>evi_id = k, evi_run_id = ''R'', evi_object_id = ''O'', evi_provider = ''P'',
     evi_purpose = None, evi_category = EC_FINANCIAL_STATEMENT, evi_period = period, evi_period_basis = Some PB_FY,
     evi_actuality = FA_ACTUAL, evi_series = Some ''S'', evi_cohort = Some ''C'', evi_price_basis = None,
     evi_action = None, evi_sign = None, evi_as_of = d, evi_field = ''revenue'', evi_value = v,
     evi_unit = ''CURRENCY'', evi_currency = Some ''USD'', evi_status = ES_ACCEPTED\<rparr>"

definition sample_prior :: evidence where
  "sample_prior = sample_evidence ''E1'' ''FY2023'' (PyText ''99.50'') (Date 2023 12 31)"

definition sample_current :: evidence where
  "sample_current = sample_evidence ''E2'' ''FY2024'' (PyInt 125) (Date 2024 12 31)"

definition sample_provenance :: provenance where
  "sample_provenance = \<lparr>pn_code_hash = ''sha256:aa'', pn_source_ref = ''src.capabilities.financial.growth:execute'',
     pn_runtime_version = ''3.12.1''\<rparr>"

definition sample_growth :: calculation where
  "sample_growth = (case execute_growth sample_provenance ''R'' ''T'' ''C1'' sample_prior sample_current of Inr c \<Rightarrow> c)"

definition sample_canonical :: canonical_inputs where
  "sample_canonical = \<lparr>ci_prior = 9950, ci_current = 12500, ci_currency = ''USD'', ci_scale = 2\<rparr>"

lemma sample_growth_ok:
  "execute_growth sample_provenance ''R'' ''T'' ''C1'' sample_prior sample_current = Inr sample_growth"
  by code_simp

lemma sample_canonical_ok:
  "canonical_of (Dec False 9950 (- 2)) (Dec False 125 0) ''USD'' = Some sample_canonical"
  by code_simp

lemma sample_decimals:
  "to_decimal (evi_value sample_prior) = Some (Dec False 9950 (- 2))"
  "to_decimal (evi_value sample_current) = Some (Dec False 125 0)"
  by code_simp+

lemma sample_texts:
  "hex_digest sample_sha" "short_text ''R''" "short_text ''C1''" "short_text (pn_code_hash sample_provenance)"
  "short_text (evi_id sample_prior)" "short_text (evi_id sample_current)"
  "evi_id sample_prior \<noteq> evi_id sample_current" "evi_currency sample_prior = Some ''USD''"
  by (simp_all add: hex_digest_def sample_sha_def short_text_def sample_prior_def sample_current_def
    sample_evidence_def sample_provenance_def lower_hex_def list_all_iff)

lemma sample_expected:
  obtains e where "expected_commitment sample_sha sample_growth = Inr (Some e)" and "gi_inputs e = sample_canonical"
proof -
  have "canonical_of (Dec False 9950 (- 2)) (Dec False 125 0) (the (evi_currency sample_prior)) = Some sample_canonical"
    using sample_canonical_ok sample_texts(8) by simp
  moreover have "pn_code_hash sample_provenance \<noteq> []" using sample_texts(4) by (simp add: short_text_def)
  ultimately have can: "expected_canonical sample_growth = Some sample_canonical"
    and c: "ca_run_id sample_growth = ''R''" "ca_id sample_growth = ''C1''"
      "ca_implementation_hash sample_growth = Some (pn_code_hash sample_provenance)"
      "ca_inputs sample_growth = [evi_id sample_prior, evi_id sample_current]"
    using execute_growth_canonical [OF sample_growth_ok sample_decimals] by blast+
  from expected_canonical_sound [OF can]
  have "canonical_inputs_valid sample_canonical" by blast
  from build_proof_input_ok [OF this sample_texts(1-7)] obtain e where
    e: "build_proof_input sample_sha ''R'' ''C1'' (pn_code_hash sample_provenance)
      (evi_id sample_prior, evi_id sample_current) sample_canonical = Inr e" by blast
  then have "expected_commitment sample_sha sample_growth = Inr (Some e)"
    by (simp add: expected_commitment_def can c)
  with build_proof_input_Inr [OF e] that show thesis by blast
qed

section \<open>The properties\<close>

text \<open>
  C12. The release gate expects a commitment for a calculation only if the calculation is a revenue
  growth whose snapshot holds a positive prior revenue and whose reported output is the exact growth
  rounded correctly to 28 digits. The commitment then binds the run, the calculation, its code hash
  and its two evidence ids to the exact revenues in minor units (nothing was lost when they were
  scaled) and to the growth as a fraction that equals the exact growth.
\<close>

theorem expected_commitment_sound:
  assumes "expected_commitment sha c = Inr (Some e)"
  shows "ca_formula_id c = ''revenue_growth_v1'' \<and> growth_exact c (gi_inputs e)
    \<and> gi_run_id e = ca_run_id c \<and> gi_calculation_id e = ca_id c
    \<and> Some (gi_implementation_hash e) = ca_implementation_hash c
    \<and> [fst (gi_refs e), snd (gi_refs e)] = ca_inputs c
    \<and> input_commitment sha e = Inr (gi_input_commitment e)
    \<and> (\<exists>r. output_commitment sha ''revenue_growth_v1'' r = Inr (gi_output_commitment e)
        \<and> of_int (gr_numerator r) / of_int (gr_denominator r)
          = (exact_growth (of_int (ci_prior (gi_inputs e))) (of_int (ci_current (gi_inputs e))) :: rat))"
  using expected_commitment_facts [OF assms] calculate_growth_ratio by blast

theorem expected_commitment_sound_witness:
  "\<exists>e. expected_commitment sample_sha sample_growth = Inr (Some e) \<and> gi_inputs e = sample_canonical
    \<and> growth_exact sample_growth (gi_inputs e) \<and> [fst (gi_refs e), snd (gi_refs e)] = [''E1'', ''E2'']"
proof -
  obtain e where e: "expected_commitment sample_sha sample_growth = Inr (Some e)" "gi_inputs e = sample_canonical"
    by (rule sample_expected)
  moreover have "ca_inputs sample_growth = [''E1'', ''E2'']" by code_simp
  ultimately show ?thesis using expected_commitment_sound [OF e(1)] by auto
qed

text \<open>
  C17. The growth calculator and the gate agree on what is committed. Let a calculation be recorded for two
  evidence records, with short texts, distinct evidence ids and a hash that yields 64 hexadecimal digits.
  When the two revenues fit the proof input (a scale of at most 18 decimals, minor units in 64 bits,
  an upper-case currency), the gate finds a commitment to exactly these revenues and evidence ids: neither
  the subtraction in decimals nor the texts of the snapshot lose a digit. When they do not fit, as a revenue
  of 1E+30, the calculation is recorded all the same and the gate expects no commitment of it.
\<close>

theorem growth_passes_gate:
  assumes "execute_growth prov run_id task_id k prior current = Inr calc"
    and "to_decimal (evi_value prior) = Some p" and "to_decimal (evi_value current) = Some c"
    and "hex_digest sha" and "short_text run_id" and "short_text k" and "short_text (pn_code_hash prov)"
    and "short_text (evi_id prior)" and "short_text (evi_id current)" and "evi_id prior \<noteq> evi_id current"
  shows "case canonical_of p c (the (evi_currency prior)) of
      None \<Rightarrow> expected_commitment sha calc = Inr None
    | Some i \<Rightarrow> \<exists>e. expected_commitment sha calc = Inr (Some e) \<and> gi_inputs e = i
        \<and> gi_refs e = (evi_id prior, evi_id current)"
proof (cases "canonical_of p c (the (evi_currency prior))")
  case None
  then show ?thesis using execute_growth_uncommitted [OF assms(1-3)] by simp
next
  case (Some i)
  have "pn_code_hash prov \<noteq> []" using assms(7) by (simp add: short_text_def)
  note can = execute_growth_canonical [OF assms(1-3) Some this]
  have "canonical_inputs_valid i"
    using canonical_of_exact [OF Some to_decimal_wf [OF assms(2)] to_decimal_wf [OF assms(3)]] by blast
  from build_proof_input_ok [OF this assms(4-10)] obtain e where
    e: "build_proof_input sha run_id k (pn_code_hash prov) (evi_id prior, evi_id current) i = Inr e" by blast
  then have "expected_commitment sha calc = Inr (Some e)"
    using can by (simp add: expected_commitment_def)
  then show ?thesis using build_proof_input_Inr [OF e] by (auto simp: Some)
qed

definition sample_huge :: evidence where
  "sample_huge = sample_evidence ''E2'' ''FY2024'' (PyText ''1E+30'') (Date 2024 12 31)"

definition sample_huge_growth :: calculation where
  "sample_huge_growth =
     (case execute_growth sample_provenance ''R'' ''T'' ''C1'' sample_prior sample_huge of Inr c \<Rightarrow> c)"

theorem growth_passes_gate_witness:
  "(\<exists>e. expected_commitment sample_sha sample_growth = Inr (Some e) \<and> gi_inputs e = sample_canonical
      \<and> gi_refs e = (evi_id sample_prior, evi_id sample_current))
   \<and> ca_status sample_huge_growth = CS_PASS \<and> expected_commitment sample_sha sample_huge_growth = Inr None"
proof -
  have cur: "evi_currency sample_prior = Some ''USD''" by (simp add: sample_prior_def sample_evidence_def)
  have 1: "\<exists>e. expected_commitment sample_sha sample_growth = Inr (Some e) \<and> gi_inputs e = sample_canonical
      \<and> gi_refs e = (evi_id sample_prior, evi_id sample_current)"
    using growth_passes_gate [OF sample_growth_ok sample_decimals sample_texts(1-7)] sample_canonical_ok
    by (simp add: cur)
  have huge: "execute_growth sample_provenance ''R'' ''T'' ''C1'' sample_prior sample_huge = Inr sample_huge_growth"
    by code_simp
  have dec: "to_decimal (evi_value sample_huge) = Some (Dec False 1 30)" by code_simp
  have none: "canonical_of (Dec False 9950 (- 2)) (Dec False 1 30) ''USD'' = None" by code_simp
  have ids: "short_text (evi_id sample_huge)" "evi_id sample_prior \<noteq> evi_id sample_huge"
    by (simp_all add: sample_huge_def sample_prior_def sample_evidence_def short_text_def)
  have "expected_commitment sample_sha sample_huge_growth = Inr None"
    using growth_passes_gate [OF huge sample_decimals(1) dec sample_texts(1-5) ids] none by (simp add: cur)
  moreover have "ca_status sample_huge_growth = CS_PASS" using execute_growth_fields [OF huge] by blast
  ultimately show ?thesis using 1 by blast
qed

end
