(* ===== verification/ReleaseSafety.thy ===== *)
theory ReleaseSafety
  imports GrowthPassesGate
begin

text \<open>
  What a release decision guarantees: when the gate lets a run with strict lineage through, every proof
  that was required is there, verified, tied to the calculation and to the receipt on disk, and the
  growth that it proves is the exact growth of the recorded revenues.
\<close>

section \<open>No reason is left\<close>

lemma evaluate_allowed:
  assumes "evaluate env g = Inr d" and "rd_allowed d" and "strict_lineage g"
  shows "review_reasons g = [] \<and> snapshot_reasons env g = Inr [] \<and> strict_reasons env g = []
    \<and> growth_reasons g = [] \<and> closure_reasons g = []
    \<and> (\<forall>k\<in>set (required_ids g). proof_reasons env g k = Inr [])"
proof -
  obtain snapshot proofs where s: "snapshot_reasons env g = Inr snapshot"
    and p: "rmap (proof_reasons env g) (required_ids g) = Inr proofs"
    and d: "d = \<lparr>rd_allowed = (review_reasons g @ snapshot @ strict_reasons env g @ growth_reasons g
        @ closure_reasons g @ concat proofs = []),
      rd_reasons = review_reasons g @ snapshot @ strict_reasons env g @ growth_reasons g
        @ closure_reasons g @ concat proofs\<rparr>"
    using assms(1,3) by (auto simp: evaluate_def Let_def rbind_Inr_iff)
  have nil: "review_reasons g = []" "snapshot = []" "strict_reasons env g = []" "growth_reasons g = []"
    "closure_reasons g = []" "\<forall>r\<in>set proofs. r = []"
    using assms(2) by (simp_all add: d)
  from p have "list_all2 (\<lambda>k r. proof_reasons env g k = Inr r) (required_ids g) proofs"
    by (simp add: rmap_Inr_iff)
  then have "\<forall>k\<in>set (required_ids g). \<exists>r\<in>set proofs. proof_reasons env g k = Inr r"
    by (induction rule: list_all2_induct) auto
  with nil s show ?thesis by metis
qed

lemma proof_reasons_Nil:
  assumes "proof_reasons env g k = Inr []"
  shows "\<exists>p expected. map_of (ga_proofs g) k = Some (Inl p) \<and> proof_ok env g k expected p
    \<and> (expected = None \<or> (\<exists>c. map_of (opt_list (ga_calculations g)) k = Some c
          \<and> expected_commitment (ge_sha env) c = Inr expected))"
  using assms by (auto simp: proof_reasons_def rbind_Inr_iff split: option.splits sum.splits if_splits)

text \<open>
  \<open>released env g k\<close>: the calculation \<open>k\<close> of the run has a proof record of the expected program image that was
  verified by the independent verifier; the proof is about the growth that the gate recomputes from the
  snapshot of the calculation; and the receipt that was verified is the file on disk.
\<close>

definition released :: "gate_env \<Rightarrow> gate_input \<Rightarrow> string \<Rightarrow> bool" where
  "released env g k \<longleftrightarrow>
     (case (map_of (ga_proofs g) k, map_of (opt_list (ga_calculations g)) k, map_of (opt_list (ga_verifications g)) k,
            map_of (opt_list (ga_artifacts g)) k) of
        (Some (Inl p), Some c, Some v, Some a) \<Rightarrow>
          pr_status p = PS_VERIFIED \<and> pr_image_id p = expected_image_id \<and> pr_run_id p = rr_run_id (ga_review g)
          \<and> pr_calculation_id p = k \<and> ca_run_id c = pr_run_id p
          \<and> ca_implementation_hash c = Some (pr_implementation_hash p)
          \<and> (case expected_commitment (ge_sha env) c of
               Inr (Some e) \<Rightarrow> pr_input_commitment p = gi_input_commitment e \<and> growth_exact c (gi_inputs e)
             | _ \<Rightarrow> False)
          \<and> pv_proof_id v = pr_id p \<and> pv_verified v \<and> pv_verifier v = ''risc0-independent-host-verifier''
          \<and> pv_image_id v = expected_image_id \<and> Some (pv_receipt_hash v) = pr_receipt_hash p
          \<and> pa_proof_id a = pr_id p
          \<and> (case ge_read_file env (pa_ref a) of
               None \<Rightarrow> False
             | Some content \<Rightarrow> content \<noteq> [] \<and> pr_receipt_hash p = Some (''sha256:'' @ ge_sha env content))
      | _ \<Rightarrow> False)"

lemma proof_released:
  assumes "proof_reasons env g k = Inr []" and "strict_lineage g" and "ga_calculations g \<noteq> None"
  shows "released env g k"
proof -
  from proof_reasons_Nil [OF assms(1)] obtain p expected where
    p: "map_of (ga_proofs g) k = Some (Inl p)" and ok: "proof_ok env g k expected p"
    and exp: "expected = None \<or> (\<exists>c. map_of (opt_list (ga_calculations g)) k = Some c
      \<and> expected_commitment (ge_sha env) c = Inr expected)" by blast
  let ?c = "map_of (opt_list (ga_calculations g)) k"
  have rec: "record_ok True (rr_run_id (ga_review g)) k p" and cal: "calculation_ok (rr_run_id (ga_review g)) ?c p"
    and com: "supplied_ok True (ga_commitments g) k (commitment_ok True (rr_run_id (ga_review g)) k ?c expected p)"
    and ver: "supplied_ok True (ga_verifications g) k (verification_ok True p)"
    and art: "supplied_ok True (ga_artifacts g) k (artifact_ok env True p)"
    using ok assms(2,3) by (simp_all add: proof_ok_def Let_def)
  obtain c where c: "?c = Some c" and c2: "ca_run_id c = rr_run_id (ga_review g)"
    "ca_implementation_hash c = Some (pr_implementation_hash p)"
    using cal by (auto simp: calculation_ok_def split: option.splits)
  obtain e where e: "expected = Some e" "pr_input_commitment p = gi_input_commitment e"
    using com c by (auto simp: supplied_ok_def commitment_ok_def split: option.splits)
  then have ec: "expected_commitment (ge_sha env) c = Inr (Some e)" using exp c by auto
  then have g: "growth_exact c (gi_inputs e)" using expected_commitment_facts by blast
  obtain v where v: "map_of (opt_list (ga_verifications g)) k = Some v" "verification_ok True p (Some v)"
    using ver by (auto simp: supplied_ok_def verification_ok_def opt_list_def split: option.splits)
  obtain a where a: "map_of (opt_list (ga_artifacts g)) k = Some a" "artifact_ok env True p (Some a)"
    using art by (auto simp: supplied_ok_def artifact_ok_def opt_list_def split: option.splits)
  have "case ge_read_file env (pa_ref a) of None \<Rightarrow> False
    | Some content \<Rightarrow> content \<noteq> [] \<and> pr_receipt_hash p = Some (''sha256:'' @ ge_sha env content)"
    using a(2) by (auto simp: artifact_ok_def split: option.splits)
  then show ?thesis
    using p c c2 e ec g v a rec by (simp add: released_def record_ok_def verification_ok_def artifact_ok_def)
qed

section \<open>A sample run\<close>

definition sample_commitment :: growth_input where
  "sample_commitment = (case expected_commitment sample_sha sample_growth of Inr (Some e) \<Rightarrow> e)"

lemma sample_commitment_facts:
  "expected_commitment sample_sha sample_growth = Inr (Some sample_commitment)"
  "gi_inputs sample_commitment = sample_canonical" "gi_output_commitment sample_commitment \<noteq> []"
proof -
  obtain e where e: "expected_commitment sample_sha sample_growth = Inr (Some e)" "gi_inputs e = sample_canonical"
    by (rule sample_expected)
  then show "expected_commitment sample_sha sample_growth = Inr (Some sample_commitment)"
    "gi_inputs sample_commitment = sample_canonical"
    by (simp_all add: sample_commitment_def)
  obtain r where "output_commitment sample_sha ''revenue_growth_v1'' r = Inr (gi_output_commitment e)"
    using expected_commitment_facts [OF e(1)] by blast
  then have "length (gi_output_commitment e) = 71"
    using finish_hash_identity sample_texts(1) unfolding output_commitment_def by blast
  then show "gi_output_commitment sample_commitment \<noteq> []"
    using e by (auto simp: sample_commitment_def)
qed

definition sample_record :: proof_record where
  "sample_record = \<lparr>pr_id = ''P1'', pr_run_id = ''R'', pr_calculation_id = ''C1'', pr_backend = ''risc0'',
     pr_program_id = ''revenue_growth_v1'', pr_image_id = expected_image_id, pr_implementation_hash = ''sha256:aa'',
     pr_input_commitment = gi_input_commitment sample_commitment, pr_receipt_ref = Some ''receipt'',
     pr_receipt_hash = Some (''sha256:'' @ sample_sha []), pr_journal_hash = Some ''j'', pr_status = PS_VERIFIED\<rparr>"

definition sample_commitment_record :: input_commitment_record where
  "sample_commitment_record = \<lparr>pi_run_id = ''R'', pi_calculation_id = ''C1'', pi_formula_id = ''revenue_growth_v1'',
     pi_capability_id = ''revenue_growth'', pi_implementation_hash = ''sha256:aa'', pi_refs = [''E1'', ''E2''],
     pi_canonical = [(''prior_revenue_minor'', PyInt 9950), (''current_revenue_minor'', PyInt 12500),
       (''currency'', PyText ''USD''), (''scale'', PyInt 2)],
     pi_input_commitment = gi_input_commitment sample_commitment,
     pi_output_commitment = gi_output_commitment sample_commitment\<rparr>"

definition sample_verification :: proof_verification where
  "sample_verification = \<lparr>pv_proof_id = ''P1'', pv_verifier = ''risc0-independent-host-verifier'',
     pv_image_id = expected_image_id, pv_receipt_hash = ''sha256:'' @ sample_sha [], pv_journal_hash = ''j'',
     pv_status = PS_VERIFIED, pv_verified = True\<rparr>"

definition sample_artifact :: proof_artifact where
  "sample_artifact = \<lparr>pa_proof_id = ''P1'', pa_type = ''application/vnd.risc0.receipt'', pa_ref = ''receipt'',
     pa_content_hash = ''sha256:'' @ sample_sha [], pa_size = 2\<rparr>"

definition sample_review :: review where
  "sample_review = \<lparr>rr_id = ''RV'', rr_run_id = ''R'', rr_status = RV_PASS, rr_findings = [], rr_semantic = [],
     rr_evidence_refs = [''E1'', ''E2''], rr_calculation_refs = [''C1''], rr_metric_refs = [], rr_claim_refs = [],
     rr_judgment_refs = [], rr_proof_refs = [''C1''], rr_checks = [check ''FIN_CALCULATION_IDENTITY'' True [''C1''] None],
     rr_snapshot_hash = Some ''hash'', rr_context = None, rr_reviewer = independent_reviewer\<rparr>"

definition sample_gate :: gate_input where
  "sample_gate = \<lparr>ga_review = sample_review, ga_requirements = [(''C1'', PQ_MUST_PROVE)],
     ga_proofs = [(''C1'', Inl sample_record)], ga_calculations = Some [(''C1'', sample_growth)],
     ga_evidence = Some [sample_prior, sample_current], ga_metrics = Some [], ga_claims = Some [],
     ga_judgments = Some [], ga_run_as_of = Some (Date 2025 1 31),
     ga_commitments = Some [(''C1'', sample_commitment_record)],
     ga_verifications = Some [(''C1'', sample_verification)], ga_artifacts = Some [(''C1'', sample_artifact)],
     ga_context = None\<rparr>"

definition sample_env :: gate_env where
  "sample_env = \<lparr>ge_sha = sample_sha, ge_snapshot = (\<lambda>i. Inr ''hash''), ge_read_file = (\<lambda>f. Some [7, 7]),
     ge_dev_mode = False\<rparr>"

lemma sample_growth_fields:
  "ca_formula_id sample_growth = ''revenue_growth_v1''" "ca_capability_id sample_growth = ''revenue_growth''"
  "ca_inputs sample_growth = [''E1'', ''E2'']" "ca_run_id sample_growth = ''R''"
  "ca_implementation_hash sample_growth = Some ''sha256:aa''" "ca_id sample_growth = ''C1''"
  "ca_snapshot sample_growth = growth_snapshot sample_prior sample_current"
  using execute_growth_fields [OF sample_growth_ok]
  by (simp_all add: sample_prior_def sample_current_def sample_evidence_def sample_provenance_def)

lemma sample_growth_positive: "prior_positive sample_growth"
proof -
  have "to_decimal (PyText (py_str (evi_value sample_prior))) = Some (Dec False 9950 (- 2))"
    using sample_decimals(1) by (simp add: to_decimal_def)
  then show ?thesis
    by (simp add: prior_positive_def sample_growth_fields growth_snapshot_def dec_cmp.simps scaled_def Decimals.signed_def)
qed

lemma sample_strict: "strict_lineage sample_gate"
  by (simp add: strict_lineage_def sample_gate_def sample_review_def)

lemma sample_required: "required_ids sample_gate = [''C1'']"
  by (simp add: required_ids_def must_prove_def sample_gate_def)

lemma sample_proof_ok: "proof_ok sample_env sample_gate ''C1'' (Some sample_commitment) sample_record"
proof -
  have "record_ok True ''R'' ''C1'' sample_record"
    using expected_commitment_facts [OF sample_commitment_facts(1)]
    by (auto simp: record_ok_def sample_record_def truthy_def expected_image_id_def input_commitment_def
        dest: finish_hash_identity [OF _ sample_texts(1)])
  moreover have "calculation_ok ''R'' (Some sample_growth) sample_record"
    by (simp add: calculation_ok_def sample_growth_fields sample_record_def)
  moreover have "commitment_ok True ''R'' ''C1'' (Some sample_growth) (Some sample_commitment) sample_record
      (Some sample_commitment_record)"
    by (simp add: commitment_ok_def sample_growth_fields sample_record_def sample_commitment_record_def
        sample_commitment_facts canonical_json_matches_def sample_canonical_def snapshot_get_def text_is_def)
  moreover have "verification_ok True sample_record (Some sample_verification)"
    by (simp add: verification_ok_def sample_record_def sample_verification_def)
  moreover have "artifact_ok sample_env True sample_record (Some sample_artifact)"
    by (simp add: artifact_ok_def sample_record_def sample_artifact_def sample_env_def sample_sha_def)
  ultimately show ?thesis
    by (simp add: proof_ok_def Let_def sample_strict)
       (simp add: sample_gate_def sample_review_def supplied_ok_def opt_list_def)
qed

lemma sample_released: "evaluate sample_env sample_gate = Inr \<lparr>rd_allowed = True, rd_reasons = []\<rparr>"
proof -
  have "proof_reasons sample_env sample_gate ''C1'' = Inr []"
    using sample_proof_ok
    by (simp add: proof_reasons_def sample_gate_def sample_env_def opt_list_def sample_commitment_facts)
  moreover have "snapshot_reasons sample_env sample_gate = Inr []"
    by (simp add: snapshot_reasons_def sample_gate_def sample_env_def sample_review_def compare_digest_def ascii_def
        refs_match_def opt_list_def sample_prior_def sample_current_def sample_evidence_def)
  moreover have "review_reasons sample_gate = []" "growth_reasons sample_gate = []"
    by (simp_all add: review_reasons_def growth_reasons_def sample_gate_def sample_review_def opt_list_def
        sample_growth_positive)
  moreover have "strict_reasons sample_env sample_gate = []" "closure_reasons sample_gate = []"
    using sample_required
    by (simp_all add: strict_reasons_def closure_reasons_def set_mismatch_def)
       (simp_all add: sample_gate_def sample_env_def sample_review_def opt_list_def)
  ultimately show ?thesis by (simp add: evaluate_def sample_strict sample_required)
qed

section \<open>The property\<close>

text \<open>
  C2. A run that the gate releases under strict lineage is sound: the review is the independent one, it
  passed, and its hash is that of the inputs that the gate holds, whose ids are those that the review
  names; dev mode is off; every growth has a positive prior revenue; the proofs handed over are exactly
  those that were required; and every required proof is verified, bound to the exact growth and to the
  receipt on disk.
\<close>

theorem release_allowed_sound:
  assumes "evaluate env g = Inr d" and "rd_allowed d" and "strict_lineage g"
  shows "rr_status (ga_review g) = RV_PASS \<and> rr_reviewer (ga_review g) = independent_reviewer
    \<and> rr_context (ga_review g) = ga_context g
    \<and> (\<exists>h. ge_snapshot env (gate_snapshot_input g) = Inr h \<and> rr_snapshot_hash (ga_review g) = Some h)
    \<and> refs_match g \<and> \<not> ge_dev_mode env
    \<and> (\<forall>(k, c)\<in>set (opt_list (ga_calculations g)). ca_formula_id c = ''revenue_growth_v1'' \<longrightarrow> prior_positive c)
    \<and> set (rr_proof_refs (ga_review g)) = set (required_ids g) \<and> set (map fst (ga_proofs g)) = set (required_ids g)
    \<and> (\<forall>k\<in>set (required_ids g). released env g k)"
proof -
  note nil = evaluate_allowed [OF assms]
  have rev: "rr_status (ga_review g) = RV_PASS" "rr_reviewer (ga_review g) = independent_reviewer"
    "rr_context (ga_review g) = ga_context g"
    using nil assms(3) by (auto simp: review_reasons_def Let_def split: if_splits)
  have snap: "ga_calculations g \<noteq> None" "refs_match g"
    "\<exists>h. ge_snapshot env (gate_snapshot_input g) = Inr h \<and> rr_snapshot_hash (ga_review g) = Some h"
    using nil by (auto simp: snapshot_reasons_def rbind_Inr_iff compare_digest_def split: sum.splits option.splits if_splits)
  have "\<not> ge_dev_mode env" "set (rr_proof_refs (ga_review g)) = set (required_ids g)"
    using nil by (auto simp: strict_reasons_def split: if_splits)
  moreover have "set (map fst (ga_proofs g)) = set (required_ids g)"
    using nil by (auto simp: closure_reasons_def set_mismatch_def split: if_splits)
  moreover have "\<forall>(k, c)\<in>set (opt_list (ga_calculations g)).
      ca_formula_id c = ''revenue_growth_v1'' \<longrightarrow> prior_positive c"
    using nil by (auto simp: growth_reasons_def split: if_splits)
  moreover have "\<forall>k\<in>set (required_ids g). released env g k"
    using nil proof_released [OF _ assms(3) snap(1)] by blast
  ultimately show ?thesis using rev snap by blast
qed

theorem release_allowed_sound_witness:
  "evaluate sample_env sample_gate = Inr \<lparr>rd_allowed = True, rd_reasons = []\<rparr> \<and> required_ids sample_gate = [''C1'']
    \<and> released sample_env sample_gate ''C1''"
  using release_allowed_sound [OF sample_released _ sample_strict] sample_released sample_required by simp

end
