(* ===== verification/ReviewSafety.thy ===== *)
theory ReviewSafety
  imports IndependentReview GateArithmetic
begin

text \<open>
  What a passing independent review guarantees: every calculation of the run rests on accepted evidence of
  the run, its output is the value that the reviewer computes from that evidence, and exactly one metric
  and one claim report it.
\<close>

section \<open>Indexes\<close>

lemma unique_dict_append:
  "unique_dict key label d xs = Inr d' \<Longrightarrow> distinct (map fst d)
    \<Longrightarrow> d' = d @ map (\<lambda>x. (key x, x)) xs \<and> distinct (map fst d @ map key xs)"
proof (induction xs arbitrary: d)
  case (Cons x xs)
  then have "key x \<notin> set (map fst d)" and u: "unique_dict key label (d @ [(key x, x)]) xs = Inr d'"
    by (auto simp: map_of_eq_None_iff split: if_splits)
  with Cons.IH [OF u] Cons.prems(2) show ?case by simp
qed simp

lemma unique_dict_index:
  "unique_dict key label [] xs = Inr d \<Longrightarrow> d = map (\<lambda>x. (key x, x)) xs \<and> distinct (map key xs)"
  using unique_dict_append [of key label "[]" xs d] by simp

definition index_by :: "('a \<Rightarrow> string) \<Rightarrow> 'a list \<Rightarrow> (string \<times> 'a) list" where
  "index_by key xs = map (\<lambda>x. (key x, x)) xs"

lemma index_by_Some: "map_of (index_by key xs) k = Some x \<Longrightarrow> x \<in> set xs \<and> key x = k"
  unfolding index_by_def by (drule map_of_SomeD) auto

lemma resolved_index:
  assumes "length (resolved_inputs (index_by evi_id es) c) = length (ca_inputs c)"
  shows "map evi_id (resolved_inputs (index_by evi_id es) c) = ca_inputs c
    \<and> set (resolved_inputs (index_by evi_id es) c) \<subseteq> set es"
proof -
  let ?d = "index_by evi_id es"
  have all: "filter (\<lambda>k. map_of ?d k \<noteq> None) (ca_inputs c) = ca_inputs c"
    using assms unfolding resolved_inputs_def length_map by (metis filter_id_conv length_filter_less less_irrefl)
  then have "map_of ?d k = Some (the (map_of ?d k))" if "k \<in> set (ca_inputs c)" for k
    using that unfolding filter_id_conv by auto
  then have "the (map_of ?d k) \<in> set es \<and> evi_id (the (map_of ?d k)) = k" if "k \<in> set (ca_inputs c)" for k
    using that index_by_Some [of evi_id es] by blast
  then show ?thesis unfolding resolved_inputs_def all by (auto intro: map_idI)
qed

section \<open>What a passing review says of a calculation\<close>

definition recomputed_exactly :: "calculation \<Rightarrow> evidence list \<Rightarrow> bool" where
  "recomputed_exactly c inputs =
     (case (validate_formula_semantics (ca_formula_id c) inputs, recompute (ca_formula_id c) inputs, rv_decimal (ca_output c)) of
        (Inr u, Inr expected, Inr actual) \<Rightarrow> is_finite expected \<and> is_finite actual \<and> dec_rat expected = dec_rat actual
      | _ \<Rightarrow> False)"

definition reported :: "calculation \<Rightarrow> metric list \<Rightarrow> claim list \<Rightarrow> bool" where
  "reported c metrics claims \<longleftrightarrow>
     list_ex (\<lambda>m. me_calculation_id m = ca_id c \<and> me_evidence_ids m = ca_inputs c
       \<and> canonical_decimal (ca_output c) = Inr (me_canonical_value m)
       \<and> list_ex (\<lambda>l. cl_metric_id l = me_id m \<and> cl_value l = me_canonical_value m
           \<and> cl_calculation_refs l = [ca_id c] \<and> cl_evidence_refs l = ca_inputs c) claims) metrics"

definition supported :: "review_input \<Rightarrow> calculation \<Rightarrow> bool" where
  "supported i c \<longleftrightarrow>
     (let inputs = resolved_inputs (index_by evi_id (ri_evidence i)) c in
      ca_run_id c = ri_run_id i \<and> ca_status c = CS_PASS
      \<and> map evi_id inputs = ca_inputs c \<and> set inputs \<subseteq> set (ri_evidence i)
      \<and> list_all (\<lambda>e. evi_run_id e = ri_run_id i \<and> evi_status e = ES_ACCEPTED \<and> evi_as_of e \<le> ri_run_as_of i) inputs
      \<and> recomputed_exactly c inputs \<and> reported c (ri_metrics i) (ri_claims i))"

lemma check_status [simp]: "rc_status (check code b refs d) = RV_PASS \<longleftrightarrow> b"
  by (simp add: check_def)

lemma rv_decimal_finite: "rv_decimal v = Inr d \<Longrightarrow> is_finite d"
  by (auto simp: rv_decimal_def split: if_splits option.splits)

lemma dec_cmp_eq_rat:
  "dec_cmp (=) a b \<Longrightarrow> is_finite b \<Longrightarrow> is_finite a \<and> dec_rat a = dec_rat b"
  by (cases a; cases b) (auto simp: Decimals.signed_def simp del: dec_rat.simps split: if_splits)

lemma recompute_ok_exactly: "caught (recompute_ok c inputs) value_like = Inr True \<Longrightarrow> recomputed_exactly c inputs"
  by (auto simp: caught_def recompute_ok_def recomputed_exactly_def rbind_Inr_iff rv_decimal_finite
      dest: dec_cmp_eq_rat split: sum.splits if_splits)

lemma calculation_checks_pass:
  assumes "calculation_checks run_id run_as_of evidence metrics claims c = Inr checks"
    and "\<forall>k\<in>set checks. rc_status k = RV_PASS"
  shows "identity_ok run_id run_as_of c (resolved_inputs evidence c)
    \<and> recomputed_exactly c (resolved_inputs evidence c)
    \<and> (\<exists>m l. map_of metrics (ca_id c) = Some m \<and> metric_matches c m (resolved_inputs evidence c) = Inr True
          \<and> map_of claims (me_id m) = Some l \<and> claim_matches run_id c m l = Inr True)"
proof -
  let ?in = "resolved_inputs evidence c"
  have id: "identity_ok run_id run_as_of c ?in"
    using assms by (auto simp: calculation_checks_def Let_def rbind_Inr_iff split: if_splits)
  have "caught (recompute_ok c ?in) value_like = Inr True"
    using assms id by (auto simp: calculation_checks_def Let_def rbind_Inr_iff)
  moreover have "\<exists>m l. map_of metrics (ca_id c) = Some m \<and> metric_matches c m ?in = Inr True
      \<and> map_of claims (me_id m) = Some l \<and> claim_matches run_id c m l = Inr True"
    using assms id
    by (auto simp: calculation_checks_def Let_def rbind_Inr_iff caught_def split: option.splits sum.splits if_splits)
  ultimately show ?thesis using id recompute_ok_exactly by blast
qed

lemma metric_matches_fields:
  "metric_matches c m inputs = Inr True
    \<Longrightarrow> me_calculation_id m = ca_id c \<and> me_evidence_ids m = ca_inputs c
      \<and> canonical_decimal (ca_output c) = Inr (me_canonical_value m)"
  by (auto simp: metric_matches_def Let_def rbind_Inr_iff split: option.splits prod.splits)

lemma claim_matches_fields:
  "claim_matches run_id c m l = Inr True
    \<Longrightarrow> cl_metric_id l = me_id m \<and> cl_value l = me_canonical_value m \<and> cl_calculation_refs l = [ca_id c]
      \<and> cl_evidence_refs l = ca_inputs c"
  by (auto simp: claim_matches_def rbind_Inr_iff)

lemma checks_supported:
  assumes "calculation_checks (ri_run_id i) (ri_run_as_of i) (index_by evi_id (ri_evidence i))
      (index_by me_calculation_id (ri_metrics i)) (index_by cl_metric_id (ri_claims i)) c = Inr checks"
    and "\<forall>k\<in>set checks. rc_status k = RV_PASS"
  shows "supported i c"
proof -
  from calculation_checks_pass [OF assms] obtain m l where
    id: "identity_ok (ri_run_id i) (ri_run_as_of i) c (resolved_inputs (index_by evi_id (ri_evidence i)) c)"
    and rec: "recomputed_exactly c (resolved_inputs (index_by evi_id (ri_evidence i)) c)"
    and m: "map_of (index_by me_calculation_id (ri_metrics i)) (ca_id c) = Some m"
      "metric_matches c m (resolved_inputs (index_by evi_id (ri_evidence i)) c) = Inr True"
    and l: "map_of (index_by cl_metric_id (ri_claims i)) (me_id m) = Some l"
      "claim_matches (ri_run_id i) c m l = Inr True"
    by blast
  have "reported c (ri_metrics i) (ri_claims i)"
    using index_by_Some [OF m(1)] index_by_Some [OF l(1)] metric_matches_fields [OF m(2)] claim_matches_fields [OF l(2)]
    unfolding reported_def list_ex_iff by blast
  with id rec resolved_index [of "ri_evidence i" c] show ?thesis
    by (simp add: supported_def identity_ok_def Let_def)
qed

section \<open>The review\<close>

lemma review_checks_parts:
  assumes "review_checks i branches = Inr (checks, ids)"
  shows "distinct (map ca_id (ri_calculations i))
    \<and> (\<exists>expected per_calc.
        rmap (calculation_checks (ri_run_id i) (ri_run_as_of i) (index_by evi_id (ri_evidence i))
          (index_by me_calculation_id (ri_metrics i)) (index_by cl_metric_id (ri_claims i))) (ri_calculations i) = Inr per_calc
      \<and> (\<forall>ks\<in>set per_calc. set ks \<subseteq> set checks)
      \<and> set (closure_checks expected (ri_calculations i) (length (ri_metrics i)) (length (ri_claims i))) \<subseteq> set checks
      \<and> proof_closure_check (index_by ca_id (ri_calculations i)) (ri_proof_requirements i) \<in> set checks)"
proof -
  obtain evidence calcs metrics claims scheme expected per_calc support where
    u: "unique_dict evi_id ''evidence'' [] (ri_evidence i) = Inr evidence"
      "unique_dict ca_id ''calculation'' [] (ri_calculations i) = Inr calcs"
      "unique_dict me_calculation_id ''metric calculation'' [] (ri_metrics i) = Inr metrics"
      "unique_dict cl_metric_id ''claim metric'' [] (ri_claims i) = Inr claims"
    and per: "rmap (calculation_checks (ri_run_id i) (ri_run_as_of i) evidence metrics claims) (ri_calculations i)
      = Inr per_calc"
    and checks: "checks = scheme @ concat (map (branch_checks (ri_run_id i) (ri_calculations i)) branches)
      @ closure_checks expected (ri_calculations i) (length (ri_metrics i)) (length (ri_claims i))
      @ concat per_calc @ [support, proof_closure_check calcs (ri_proof_requirements i)]"
    using assms by (auto simp: review_checks_def rbind_Inr_iff case_prod_unfold)
  have "set (closure_checks expected (ri_calculations i) (length (ri_metrics i)) (length (ri_claims i))) \<subseteq> set checks"
    "\<forall>ks\<in>set per_calc. set ks \<subseteq> set checks"
    "proof_closure_check calcs (ri_proof_requirements i) \<in> set checks"
    by (auto simp: checks)
  moreover have "evidence = index_by evi_id (ri_evidence i)" "metrics = index_by me_calculation_id (ri_metrics i)"
    "claims = index_by cl_metric_id (ri_claims i)" "calcs = index_by ca_id (ri_calculations i)"
    "distinct (map ca_id (ri_calculations i))"
    using u [THEN unique_dict_index] by (simp_all add: index_by_def)
  moreover note per
  ultimately show ?thesis by blast
qed

lemma all_supported:
  assumes "rmap (calculation_checks (ri_run_id i) (ri_run_as_of i) (index_by evi_id (ri_evidence i))
      (index_by me_calculation_id (ri_metrics i)) (index_by cl_metric_id (ri_claims i))) cs = Inr per_calc"
    and "\<forall>ks\<in>set per_calc. \<forall>k\<in>set ks. rc_status k = RV_PASS"
  shows "\<forall>c\<in>set cs. supported i c"
  using assms by (induction cs arbitrary: per_calc) (auto simp: rbind_Inr_iff intro: checks_supported)

lemma closure_pass:
  "\<forall>k\<in>set (closure_checks expected cs m n). rc_status k = RV_PASS
    \<Longrightarrow> distinct (map ca_formula_id cs) \<and> m = length cs \<and> n = length cs"
  by (simp add: closure_checks_def Let_def)

lemma proof_closure_growth:
  assumes "rc_status (proof_closure_check (index_by ca_id cs) reqs) = RV_PASS"
  shows "\<exists>c\<in>set cs. must_prove reqs = [ca_id c] \<and> ca_formula_id c = ''revenue_growth_v1''"
proof -
  let ?d = "index_by ca_id cs"
  have keys: "set (map fst reqs) = set (map fst ?d)" and one: "length (must_prove reqs) = 1"
    and f: "ca_formula_id (the (map_of ?d (hd (sort (must_prove reqs))))) = ''revenue_growth_v1''"
    using assms by (simp_all add: proof_closure_check_def Let_def)
  from one obtain k where k: "must_prove reqs = [k]" by (auto simp: length_Suc_conv)
  then have "k \<in> set (must_prove reqs)" by simp
  then have "k \<in> set (map fst reqs)" unfolding must_prove_def by force
  then have "map_of ?d k \<noteq> None" using keys by (simp add: map_of_eq_None_iff)
  then obtain c where c: "map_of ?d k = Some c" by blast
  from index_by_Some [OF this] f k c show ?thesis by auto
qed

section \<open>A sample review\<close>

text \<open>
  A run with three calculations under a requirement context; the technical branches have no data. The
  checks of each calculation are evaluated on their own.
\<close>

definition review_evidence :: "string \<Rightarrow> string \<Rightarrow> string \<Rightarrow> int \<Rightarrow> evidence" where
  "review_evidence k field period v = \<lparr>evi_id = k, evi_run_id = ''R'', evi_object_id = ''O'', evi_provider = ''P'',
     evi_purpose = None, evi_category = EC_FINANCIAL_STATEMENT, evi_period = period, evi_period_basis = Some PB_FY,
     evi_actuality = FA_ACTUAL, evi_series = Some ''S'', evi_cohort = Some ''C'', evi_price_basis = None,
     evi_action = None, evi_sign = Some SC_OUTFLOW_NEGATIVE, evi_as_of = Date 2024 12 31, evi_field = field,
     evi_value = PyInt v, evi_unit = ''CURRENCY'', evi_currency = Some ''USD'', evi_status = ES_ACCEPTED\<rparr>"

definition review_calculation ::
    "string \<Rightarrow> string \<Rightarrow> string \<Rightarrow> string list \<Rightarrow> (string \<times> pyvalue) list \<Rightarrow> (string \<times> pyvalue) list
       \<Rightarrow> decimal \<Rightarrow> string \<Rightarrow> calculation" where
  "review_calculation k capability formula inputs snapshot parameters output source =
     \<lparr>ca_id = k, ca_run_id = ''R'', ca_task_id = ''T'', ca_capability_id = capability, ca_capability_version = ''1.0.0'',
      ca_formula_id = formula, ca_inputs = inputs, ca_snapshot = snapshot, ca_parameters = parameters,
      ca_output = PyDecimal output, ca_output_unit = ''ratio'', ca_status = CS_PASS,
      ca_implementation_hash = Some ''h'', ca_code_hash = Some ''h'', ca_source_ref = Some source,
      ca_runtime_version = Some ''3.12'', ca_review_record_id = None, ca_canonical_record_id = None, ca_proof_ref = None\<rparr>"

definition review_metric :: "string \<Rightarrow> string \<Rightarrow> string \<Rightarrow> string \<Rightarrow> string list \<Rightarrow> string \<Rightarrow> string \<Rightarrow> metric" where
  "review_metric k name capability formula inputs v display = \<lparr>me_id = ''M'' @ k, me_calculation_id = k, me_name = name,
     me_canonical_value = v, me_unit = FU_RATIO, me_display_value = display, me_display_unit = ''%'',
     me_period = ''FY2024'', me_period_basis = PB_FY, me_actuality = FA_ACTUAL, me_as_of = Date 2024 12 31,
     me_currency = Some ''USD'', me_formula_id = formula, me_capability_id = capability, me_evidence_ids = inputs,
     me_method = None, me_price_basis = None, me_action = None, me_guard_refs = [], me_limitations = []\<rparr>"

definition review_claim :: "metric \<Rightarrow> string \<Rightarrow> claim" where
  "review_claim m statement = \<lparr>cl_id = ''L'' @ me_calculation_id m, cl_run_id = ''R'', cl_type = ''MATERIAL_FINANCIAL_METRIC'',
     cl_statement = statement, cl_metric_id = me_id m, cl_value = me_canonical_value m, cl_unit = me_unit m,
     cl_period = me_period m, cl_period_basis = me_period_basis m, cl_actuality = me_actuality m,
     cl_as_of = me_as_of m, cl_currency = me_currency m, cl_calculation_refs = [me_calculation_id m],
     cl_evidence_refs = me_evidence_ids m, cl_judgment_refs = []\<rparr>"

definition fcf_formula :: string where
  "fcf_formula = ''operating_cash_flow_plus_signed_capex_divided_by_revenue_v1''"

definition review_common :: "(string \<times> pyvalue) list" where
  "review_common = [(''currency'', PyText ''USD''), (''period'', PyText ''FY2024''), (''period_basis'', PyText ''FY''),
     (''actuality'', PyText ''ACTUAL''), (''statement_cohort'', PyText ''C''), (''statement_series'', PyText ''S''),
     (''as_of'', PyText ''2024-12-31''), (''prior_period'', PyText ''FY2023''), (''current_period'', PyText ''FY2024'')]"

definition review_calculations :: "calculation list" where
  "review_calculations =
     [review_calculation ''C1'' ''revenue_growth'' ''revenue_growth_v1'' [''E1'', ''E2'']
        (review_common @ [(''prior_revenue'', PyInt 100), (''current_revenue'', PyInt 125)]) []
        (Dec False 25 (- 2)) ''src.capabilities.financial.growth'',
      review_calculation ''C2'' ''ebitda_margin'' ''ebitda_margin_v1'' [''E3'', ''E2'']
        (review_common @ [(''ebitda'', PyInt 25), (''revenue'', PyInt 125)]) []
        (Dec False 2 (- 1)) ''src.capabilities.financial.profitability'',
      review_calculation ''C3'' ''free_cash_flow_margin'' fcf_formula [''E4'', ''E5'', ''E2'']
        [(''operating_cash_flow'', PyInt 30), (''capital_expenditure'', PyInt (- 5)), (''revenue'', PyInt 125)]
        (review_common @ [(''generated_source_hash'', PyText ''h''), (''generated_tests_hash'', PyText ''t''),
          (''live_input_commitment'', PyText ''i''), (''validation_scope'', PyText ''LIVE_RUNTIME''),
          (''financial_validation_result'', PyText ''PASS''),
          (''capital_expenditure_sign_convention'', PyText ''OUTFLOW_NEGATIVE''),
          (''owned_oracle_result'', PyDict [] [(''value'', PyText ''0.2''), (''unit'', PyText ''RATIO'')]),
          (''runtime_result'', PyDict [] [(''value'', PyText ''0.2''), (''unit'', PyText ''RATIO'')])])
        (Dec False 2 (- 1)) ''generated://fcf'']"

definition review_metrics :: "metric list" where
  "review_metrics =
     [review_metric ''C1'' ''Revenue Growth'' ''revenue_growth'' ''revenue_growth_v1'' [''E1'', ''E2''] ''0.25'' ''25.00'',
      review_metric ''C2'' ''EBITDA Margin'' ''ebitda_margin'' ''ebitda_margin_v1'' [''E3'', ''E2''] ''0.2'' ''20.00'',
      review_metric ''C3'' ''Free Cash Flow Margin'' ''free_cash_flow_margin'' fcf_formula [''E4'', ''E5'', ''E2'']
        ''0.2'' ''20.00'']"

definition review_branches :: "branch_result list" where
  "review_branches = map (\<lambda>(t, fs). \<lparr>br_id = t, br_run_id = ''R'', br_task_id = ''T'', br_type = t,
     br_status = (if t = ''free_cash_flow_margin'' then BS_COMPLETED else BS_INSUFFICIENT_DATA),
     br_requirement = (if t = ''free_cash_flow_margin'' then BR_REQUIRED else BR_CONDITIONAL),
     br_required_inputs = 3, br_available_inputs = 3,
     br_calculation_ids = (if t = ''free_cash_flow_margin'' then [''C3''] else []), br_dependency_ids = [],
     br_reason_code = (if t = ''free_cash_flow_margin'' then None else Some ''GAP''), br_diagnostic_id = None,
     br_failure_stage = None, br_build_record_ids = []\<rparr>) branch_formulas"

definition sample_review_input :: review_input where
  "sample_review_input = \<lparr>ri_run_id = ''R'', ri_run_as_of = Date 2025 1 31,
     ri_evidence = [review_evidence ''E1'' ''revenue'' ''FY2023'' 100, review_evidence ''E2'' ''revenue'' ''FY2024'' 125,
       review_evidence ''E3'' ''ebitda'' ''FY2024'' 25, review_evidence ''E4'' ''operating_cash_flow'' ''FY2024'' 30,
       review_evidence ''E5'' ''capital_expenditure'' ''FY2024'' (- 5)],
     ri_calculations = review_calculations, ri_metrics = review_metrics,
     ri_claims = map (\<lambda>(m, s). review_claim m s) (zip review_metrics
       [''Revenue increased 25.00% YoY for FY2024.'', ''EBITDA Margin was 20.00% for FY2024 as of 2024-12-31.'',
        ''Free Cash Flow Margin was 20.00% for FY2024 as of 2024-12-31.'']),
     ri_judgments = [],
     ri_proof_requirements = [(''C1'', PQ_MUST_PROVE), (''C2'', PQ_NOT_REQUIRED), (''C3'', PQ_NOT_REQUIRED)],
     ri_context = Some (requirement_context_of ''SC'' ''sh'' [''revenue_growth'', ''free_cash_flow_margin''] review_branches)\<rparr>"

definition sample_calculation_checks :: "calculation \<Rightarrow> fin_exn + review_check list" where
  "sample_calculation_checks =
     calculation_checks (ri_run_id sample_review_input) (ri_run_as_of sample_review_input)
       (index_by evi_id (ri_evidence sample_review_input))
       (index_by me_calculation_id (ri_metrics sample_review_input))
       (index_by cl_metric_id (ri_claims sample_review_input))"

definition all_pass :: "review_check list \<Rightarrow> bool" where
  "all_pass ks \<longleftrightarrow> list_all (\<lambda>c. rc_status c = RV_PASS) ks"

definition passing :: "fin_exn + review_check list \<Rightarrow> bool" where
  "passing r = (case r of Inl e \<Rightarrow> False | Inr ks \<Rightarrow> all_pass ks)"

lemma sample_growth_passes: "passing (sample_calculation_checks (review_calculations ! 0))"
  by code_simp

lemma sample_ebitda_passes: "passing (sample_calculation_checks (review_calculations ! 1))"
  by code_simp

lemma sample_fcf_passes: "passing (sample_calculation_checks (review_calculations ! 2))"
  by code_simp

lemma sample_indexes:
  "unique_dict evi_id ''evidence'' [] (ri_evidence sample_review_input) = Inr (index_by evi_id (ri_evidence sample_review_input))"
  "unique_dict ca_id ''calculation'' [] review_calculations = Inr (index_by ca_id review_calculations)"
  "unique_dict me_calculation_id ''metric calculation'' [] (ri_metrics sample_review_input)
     = Inr (index_by me_calculation_id (ri_metrics sample_review_input))"
  "unique_dict cl_metric_id ''claim metric'' [] (ri_claims sample_review_input)
     = Inr (index_by cl_metric_id (ri_claims sample_review_input))"
  by code_simp+

lemma sample_scheme:
  "case scheme_checks (ri_context sample_review_input) review_branches review_calculations of Inl e \<Rightarrow> False
    | Inr (ks, expected) \<Rightarrow> all_pass ks \<and> expected = map ca_formula_id review_calculations"
  by code_simp

lemma sample_branches: "all_pass (concat (map (branch_checks ''R'' review_calculations) review_branches))"
  by code_simp

lemma sample_closure:
  "all_pass (closure_checks (map ca_formula_id review_calculations) review_calculations
     (length (ri_metrics sample_review_input)) (length (ri_claims sample_review_input)))"
  by code_simp

lemma sample_judgments:
  "rc_status (snd (judgment_check ''R'' (index_by ca_id review_calculations)
     (map fst (index_by evi_id (ri_evidence sample_review_input))) (ri_metrics sample_review_input)
     (ri_claims sample_review_input) []
     (expected_judgments True (map ca_formula_id review_calculations)))) = RV_PASS"
  by code_simp

lemma sample_proofs:
  "rc_status (proof_closure_check (index_by ca_id review_calculations) (ri_proof_requirements sample_review_input)) = RV_PASS"
  by code_simp

lemma sample_review_checks:
  obtains ks ids where "review_checks sample_review_input review_branches = Inr (ks, ids)" and "all_pass ks"
proof -
  let ?i = sample_review_input
  obtain k0 k1 k2 where k: "sample_calculation_checks (review_calculations ! 0) = Inr k0"
    "sample_calculation_checks (review_calculations ! 1) = Inr k1"
    "sample_calculation_checks (review_calculations ! 2) = Inr k2"
    and pass: "all_pass k0" "all_pass k1" "all_pass k2"
    using sample_growth_passes sample_ebitda_passes sample_fcf_passes by (auto simp: passing_def split: sum.splits)
  have calcs: "ri_calculations ?i = review_calculations" "ri_run_id ?i = ''R''" "ri_judgments ?i = []"
    "ri_context ?i \<noteq> None"
    by (simp_all add: sample_review_input_def)
  have three: "review_calculations = [review_calculations ! 0, review_calculations ! 1, review_calculations ! 2]"
    by (simp add: review_calculations_def)
  have rmap: "rmap sample_calculation_checks review_calculations = Inr [k0, k1, k2]"
    by (subst three) (simp add: k One_nat_def [symmetric] del: One_nat_def)
  obtain scheme where scheme: "scheme_checks (ri_context ?i) review_branches review_calculations
      = Inr (scheme, map ca_formula_id review_calculations)" "all_pass scheme"
    using sample_scheme by (auto split: sum.splits)
  have "\<exists>ks ids. review_checks ?i review_branches = Inr (ks, ids) \<and> all_pass ks"
    using sample_indexes scheme rmap pass sample_branches sample_closure sample_judgments sample_proofs calcs
    by (simp add: review_checks_def sample_calculation_checks_def case_prod_unfold all_pass_def)
  then show thesis using that by blast
qed

section \<open>The property\<close>

text \<open>
  C6. A review with the status PASS is sound: every calculation of the run is supported by accepted
  evidence of the run (dated no later than the run), the reviewer's own computation gives exactly its
  output, and one metric and one claim report that output with the same evidence. There are as many metrics and
  claims as calculations, no formula occurs twice, and the one calculation that must be proved
  is the revenue growth. The review records the hash of what it has seen.
\<close>

theorem review_pass_sound:
  assumes "independent_review snapshot review_id i branches = Inr r" and "rr_status r = RV_PASS"
  shows "(\<forall>c\<in>set (ri_calculations i). supported i c)
    \<and> distinct (map ca_id (ri_calculations i)) \<and> distinct (map ca_formula_id (ri_calculations i))
    \<and> length (ri_metrics i) = length (ri_calculations i) \<and> length (ri_claims i) = length (ri_calculations i)
    \<and> (\<exists>c\<in>set (ri_calculations i). must_prove (ri_proof_requirements i) = [ca_id c]
          \<and> ca_formula_id c = ''revenue_growth_v1'')
    \<and> snapshot i = Inr (the (rr_snapshot_hash r)) \<and> rr_run_id r = ri_run_id i"
proof -
  obtain checks ids where rc: "review_checks i branches = Inr (checks, ids)"
    and pass: "\<forall>k\<in>set checks. rc_status k = RV_PASS"
    and hash: "snapshot i = Inr (the (rr_snapshot_hash r))" "rr_run_id r = ri_run_id i"
    using assms
    by (auto simp: independent_review_def make_review_def rbind_Inr_iff list_all_iff split: if_splits)
  from review_checks_parts [OF rc] obtain expected per_calc where ids: "distinct (map ca_id (ri_calculations i))"
    and per: "rmap (calculation_checks (ri_run_id i) (ri_run_as_of i) (index_by evi_id (ri_evidence i))
      (index_by me_calculation_id (ri_metrics i)) (index_by cl_metric_id (ri_claims i))) (ri_calculations i) = Inr per_calc"
    and ks: "\<forall>ks\<in>set per_calc. set ks \<subseteq> set checks"
    and closure: "set (closure_checks expected (ri_calculations i) (length (ri_metrics i)) (length (ri_claims i)))
      \<subseteq> set checks"
    and proofs: "proof_closure_check (index_by ca_id (ri_calculations i)) (ri_proof_requirements i) \<in> set checks"
    by blast
  have "\<forall>c\<in>set (ri_calculations i). supported i c" using all_supported [OF per] ks pass by blast
  moreover have "distinct (map ca_formula_id (ri_calculations i))
      \<and> length (ri_metrics i) = length (ri_calculations i) \<and> length (ri_claims i) = length (ri_calculations i)"
    by (rule closure_pass) (use closure pass in blast)
  ultimately show ?thesis using proof_closure_growth proofs pass ids hash by blast
qed

theorem review_pass_sound_witness:
  "\<exists>r. independent_review (\<lambda>i. Inr ''hash'') ''RV'' sample_review_input review_branches = Inr r
    \<and> rr_status r = RV_PASS \<and> (\<forall>c\<in>set review_calculations. supported sample_review_input c)"
proof -
  obtain ks ids where ks: "review_checks sample_review_input review_branches = Inr (ks, ids)" "all_pass ks"
    by (rule sample_review_checks)
  have "ks \<noteq> []" using ks(1) by (auto simp: review_checks_def rbind_Inr_iff case_prod_unfold)
  moreover have "ri_calculations sample_review_input \<noteq> []" "ri_claims sample_review_input \<noteq> []"
    by (simp_all add: sample_review_input_def review_calculations_def review_metrics_def)
  moreover have "sort (map ca_id (ri_calculations sample_review_input)) \<noteq> []"
    "sort (map cl_id (ri_claims sample_review_input)) \<noteq> []"
    using calculation by (metis length_0_conv length_map length_sort)+
  ultimately obtain r where r: "independent_review (\<lambda>i. Inr ''hash'') ''RV'' sample_review_input review_branches = Inr r"
    "rr_status r = RV_PASS"
    using ks
    by (auto simp: independent_review_def make_review_def review_valid_def guard_def truthy_def all_pass_def
        list_all_iff Let_def image_constant_conv)
  moreover have "ri_calculations sample_review_input = review_calculations" by (simp add: sample_review_input_def)
  ultimately show ?thesis using review_pass_sound [OF r] by auto
qed

end
