(* ===== verification/GrowthReview.thy ===== *)
theory GrowthReview
  imports GrowthPassesGate
begin

text \<open>
  The growth calculator and the independent reviewer agree: the reviewer's own computation from the
  evidence always reproduces the recorded growth when the revenues are finite and its additional
  semantic conditions hold, and its reading of the snapshot matches the evidence.
\<close>

lemma rv_decimal_input:
  assumes "decimal_input v = Inr d"
  shows "rv_decimal v = (if is_finite d then Inr d else Inl (FinValueError ''financial value must be finite''))"
proof -
  have "to_decimal (PyBool True) = None" "to_decimal (PyBool False) = None" by code_simp+
  with assms show ?thesis
    by (auto simp: decimal_input_def rv_decimal_def split: if_splits option.splits)
qed

lemma rv_decimal_text: "decimal_input v = Inr d \<Longrightarrow> rv_decimal (PyText (py_str v)) = rv_decimal v"
  using rv_decimal_input [of v d]
  by (auto simp: decimal_input_def rv_decimal_def to_decimal_def split: if_splits option.splits)

lemma same_decimal_text:
  "decimal_input v = Inr d \<Longrightarrow> same_decimal (PyText (py_str v)) v \<longleftrightarrow> is_finite d"
  by (auto simp: same_decimal_def rv_decimal_text rv_decimal_input dec_cmp_eq_finite)

lemma recompute_growth_same:
  assumes "decimal_input (evi_value prior) = Inr p" and "decimal_input (evi_value current) = Inr c"
    and "is_finite p" and "is_finite c" and "calculate_revenue_growth p c = Inr v"
  shows "recompute_growth [prior, current] = Inr v"
proof -
  have "rmap (\<lambda>i. rv_decimal (evi_value i)) [prior, current] = Inr [p, c]"
    using rv_decimal_input [OF assms(1)] rv_decimal_input [OF assms(2)] assms(3,4) by simp
  moreover obtain change where "lift_dec (dec_le_zero p) = Inr False" "lift_dec (dec_sub 28 c p) = Inr change"
    "lift_dec (dec_div 28 change p) = Inr v"
    using assms(5) by (auto simp: calculate_revenue_growth_def rbind_Inr_iff split: if_splits)
  ultimately show ?thesis by (simp add: recompute_growth_def lift_dec_def)
qed

definition reviewable :: "evidence \<Rightarrow> evidence \<Rightarrow> bool" where
  "reviewable prior current \<longleftrightarrow> evi_category prior = EC_FINANCIAL_STATEMENT \<and> evi_category current = EC_FINANCIAL_STATEMENT
     \<and> evi_actuality prior \<noteq> FA_UNKNOWN"

lemma validate_growth_comparable:
  assumes "growth_comparable prior current = Inr ()" and "decimal_input (evi_value prior) = Inr p"
    and "is_finite p" and "0 < dec_rat p"
  shows "validate_growth [prior, current]
    = guard (reviewable prior current) (FinValueError ''revenue growth period/series/currency semantics mismatch'')"
proof -
  have "rv_decimal (evi_value prior) = Inr p" "lift_dec (dec_le_zero p) = Inr False"
    using rv_decimal_input [OF assms(2)] assms(3,4) by (simp_all add: dec_le_zero_finite lift_dec_def)
  moreover have "evi_field prior = ''revenue''" "evi_field current = ''revenue''"
    "evi_object_id prior = evi_object_id current" "evi_period_basis prior = Some PB_FY"
    "evi_period_basis current = Some PB_FY" "adjacent_financial_periods (evi_period prior) (evi_period current)"
    "evi_actuality prior = evi_actuality current" "truthy (evi_series prior)" "evi_series prior = evi_series current"
    "truthy (evi_currency prior)" "evi_currency prior = evi_currency current" "is_currency prior" "is_currency current"
    using assms(1) by (auto simp: growth_comparable_def rbind_Inr_iff is_currency_def)
  ultimately show ?thesis by (simp add: validate_growth_def reviewable_def lift_dec_def)
qed

text \<open>
  C26. For what the growth calculator records, the independent reviewer's recomputation succeeds exactly
  when both revenues are finite, both records are financial statements and the figures are known to be
  actual or estimated; otherwise the check fails and never escapes as an exception. The snapshot matches the
  evidence whenever the revenues are finite. The calculator itself records a growth in all these cases.
\<close>

theorem growth_passes_review:
  assumes "execute_growth prov run_id task_id k prior current = Inr calc"
  shows "\<exists>p c. decimal_input (evi_value prior) = Inr p \<and> decimal_input (evi_value current) = Inr c
    \<and> caught (recompute_ok calc [prior, current]) value_like
        = Inr (is_finite p \<and> is_finite c \<and> reviewable prior current)
    \<and> snapshot_matches calc [prior, current] = Inr (is_finite p \<and> is_finite c)"
proof -
  note f = execute_growth_fields [OF assms]
  then obtain p c v where pc: "decimal_input (evi_value prior) = Inr p" "decimal_input (evi_value current) = Inr c"
    and v: "calculate_revenue_growth p c = Inr v" "ca_output calc = PyDecimal v"
    and cmp: "growth_comparable prior current = Inr ()"
    by blast
  have wf: "decimal_wf p" "decimal_wf c"
    using pc by (auto simp: decimal_input_def intro: to_decimal_wf split: if_splits option.splits)
  have "caught (recompute_ok calc [prior, current]) value_like
    = Inr (is_finite p \<and> is_finite c \<and> reviewable prior current)"
  proof (cases "is_finite p \<and> is_finite c")
    case True
    from calculate_growth_value [OF v(1) _ _ wf] True
    have val: "0 < dec_rat p" "is_finite v" "decimal_wf v" by auto
    then have "rv_decimal (ca_output calc) = Inr v" by (simp add: v(2) rv_decimal_def)
    then show ?thesis
      using f True val recompute_growth_same [OF pc _ _ v(1)] validate_growth_comparable [OF cmp pc(1)]
      by (auto simp: recompute_ok_def validate_formula_semantics_def recompute_def guard_def caught_def value_like_def
          dec_cmp_eq_finite)
  next
    case False
    then show ?thesis
      using f pc
      by (auto simp: recompute_ok_def validate_formula_semantics_def recompute_def recompute_growth_def
          rv_decimal_input caught_def value_like_def validate_growth_def guard_def lift_dec_def dec_le_zero_finite
          split: sum.splits if_splits)
  qed
  moreover have "snapshot_matches calc [prior, current] = Inr (is_finite p \<and> is_finite c)"
    using f cmp same_decimal_text [OF pc(1)] same_decimal_text [OF pc(2)]
    by (auto simp: snapshot_matches_def snapshot_growth_def growth_snapshot_def snapshot_get_def text_is_def
        growth_comparable_def rbind_Inr_iff basis_value_def opt_value_def)
  ultimately show ?thesis using pc by blast
qed

theorem growth_passes_review_witness:
  "snapshot_matches sample_growth [sample_prior, sample_current] = Inr True
    \<and> caught (recompute_ok sample_growth [sample_prior, sample_current]) value_like = Inr True"
  using growth_passes_review [OF sample_growth_ok] sample_decimals
  by (auto simp: decimal_input_def sample_prior_def sample_current_def sample_evidence_def reviewable_def)

end
