(* ===== verification/GateFindings.thy ===== *)
theory GateFindings
  imports ReleaseSafety GrowthReview
begin

text \<open>
  Where the release chain does not do what it means to: exceptions that escape the gate and the review,
  a proof requirement that can never be met, and an infinite growth that is recorded as a success.
\<close>

section \<open>The gate\<close>

text \<open>The proof input of a growth that names one evidence id twice is refused by an exception.\<close>

lemma gate_raises_on_repeated_evidence:
  assumes "expected_canonical c = Some i" and "ca_inputs c = [a, a]"
    and "short_text (ca_run_id c)" and "short_text (ca_id c)" and "short_text (the (ca_implementation_hash c))"
    and "short_text a" and "hex_digest sha"
  shows "expected_commitment sha c = Inl FinPydantic"
proof -
  have i: "canonical_inputs_valid i" using expected_canonical_sound [OF assms(1)] by blast
  then obtain r where r: "calculate_growth i = Inr r" by (auto simp: canonical_inputs_valid_def calculate_growth_def Let_def)
  have "short_text ''revenue_growth_v1''" by (simp add: short_text_def)
  from output_commitment_ok [OF i r this] obtain h where h: "output_commitment sha ''revenue_growth_v1'' r = Inr h"
    by blast
  then have len: "length h = 71" using finish_hash_identity assms(7) unfolding output_commitment_def by blast
  let ?d = "provisional_input (ca_run_id c) (ca_id c) (the (ca_implementation_hash c)) (a, a) i h"
  have "\<exists>x. input_commitment sha ?d = Inr x"
    by (rule input_commitment_ok) (use assms i len in \<open>simp_all add: provisional_input_def\<close>)
  then obtain x where x: "input_commitment sha ?d = Inr x" by blast
  have "build_proof_input sha (ca_run_id c) (ca_id c) (the (ca_implementation_hash c)) (a, a) i = Inl FinPydantic"
    using r h x by (auto simp: build_proof_input_def validate_growth_input_def guard_def provisional_input_def Let_def)
  then show ?thesis using assms(1,2) by (simp add: expected_commitment_def)
qed

text \<open>Under strict lineage only a growth can satisfy a proof requirement.\<close>

lemma other_proof_never_released:
  assumes "strict_lineage g" and "k \<in> set (required_ids g)"
    and "map_of (opt_list (ga_calculations g)) k = Some c" and "ca_formula_id c \<noteq> ''revenue_growth_v1''"
    and "evaluate env g = Inr d"
  shows "\<not> rd_allowed d"
proof
  assume "rd_allowed d"
  from evaluate_allowed [OF assms(5) this assms(1)] assms(2)
  have k: "proof_reasons env g k = Inr []" and s: "snapshot_reasons env g = Inr []" by blast+
  from s have "ga_calculations g \<noteq> None" by (auto simp: snapshot_reasons_def split: if_splits)
  from proof_released [OF k assms(1) this] obtain e where "expected_commitment (ge_sha env) c = Inr (Some e)"
    using assms(3) by (auto simp: released_def split: option.splits sum.splits)
  with expected_commitment_facts assms(4) show False by blast
qed

section \<open>The review and the calculators\<close>

lemma review_raises_on_untyped_period:
  assumes "execute_ebitda prov run_id task_id k ebitda revenue = Inr calc"
    and "evi_period_basis revenue = None" and "decimal_input (evi_value ebitda) = Inr e"
    and "decimal_input (evi_value revenue) = Inr r" and "is_finite e" and "is_finite r"
  shows "caught (snapshot_matches calc [ebitda, revenue]) (\<lambda>x. x \<noteq> FinAttributeError) = Inl FinAttributeError"
proof -
  have "evi_field ebitda = ''ebitda''" "evi_field revenue = ''revenue''"
    "ca_formula_id calc = ''ebitda_margin_v1''"
    "map_of (ca_snapshot calc) ''ebitda'' = Some (PyText (py_str (evi_value ebitda)))"
    "map_of (ca_snapshot calc) ''revenue'' = Some (PyText (py_str (evi_value revenue)))"
    "map_of (ca_snapshot calc) ''currency'' = Some (opt_value (evi_currency revenue))"
    "map_of (ca_snapshot calc) ''period'' = Some (PyText (evi_period revenue))"
    using assms(1) by (auto simp: execute_ebitda_def ebitda_comparable_def require_accepted_def rbind_Inr_iff split: if_splits)
  then show ?thesis
    using same_decimal_text [OF assms(3)] same_decimal_text [OF assms(4)] assms(2,5,6)
    by (simp add: snapshot_matches_def snapshot_ebitda_def input_fields_of_def snapshot_get_def text_is_def caught_def)
qed

lemma infinite_growth_recorded:
  assumes "is_finite p" and "decimal_wf p" and "0 < dec_rat p"
  shows "calculate_revenue_growth p (DInf False) = Inr (DInf False)"
proof -
  obtain s c x where p: "p = Dec s c x" using assms(1) by (rule finite_cases)
  have s: "\<not> s"
  proof
    assume s
    have "0 \<le> (of_int c * 10 powi x :: rat)" using assms(2) by (simp add: p)
    with \<open>s\<close> assms(3) show False by (simp add: p Decimals.signed_def)
  qed
  have "dec_le_zero p = Inr False" using assms(1,3) by (simp add: dec_le_zero_finite)
  then show ?thesis using s by (simp add: calculate_revenue_growth_def lift_dec_def p)
qed

end
