(* ===== verification/Machines.thy ===== *)
theory Machines
  imports Prelude
begin

text \<open>
  Deterministic machines whose rejected operations change nothing. The locale \<open>guarded_machine\<close> is the
  contract of one: every step keeps the validity of the state and moves it forward in a preorder. The
  durable admission and the product database are instances.
\<close>

definition settle :: "'s \<Rightarrow> 'e + 's \<Rightarrow> 's" where
  "settle s r = (case r of Inl _ \<Rightarrow> s | Inr s' \<Rightarrow> s')"

lemma settle_simps [simp]: "settle s (Inl e) = s" "settle s (Inr t) = t"
  by (simp_all add: settle_def)

locale guarded_machine =
  fixes attempt :: "'s \<Rightarrow> 'o \<Rightarrow> 'e + 's"
    and valid :: "'s \<Rightarrow> bool"
    and forward :: "'s \<Rightarrow> 's \<Rightarrow> bool"
  assumes keeps_valid: "valid s \<Longrightarrow> attempt s x = Inr t \<Longrightarrow> valid t"
    and moves_forward: "valid s \<Longrightarrow> attempt s x = Inr t \<Longrightarrow> forward s t"
    and forward_refl: "forward s s"
    and forward_trans: "forward s t \<Longrightarrow> forward t u \<Longrightarrow> forward s u"
begin

definition step :: "'s \<Rightarrow> 'o \<Rightarrow> 's" where
  "step s x = settle s (attempt s x)"

lemma step_valid: "valid s \<Longrightarrow> valid (step s x)"
  by (cases "attempt s x") (auto simp: step_def dest: keeps_valid)

lemma step_forward: "valid s \<Longrightarrow> forward s (step s x)"
  by (cases "attempt s x") (auto simp: step_def forward_refl dest: moves_forward)

lemma run_valid: "valid s \<Longrightarrow> valid (foldl step s xs)"
  by (induction xs arbitrary: s) (auto intro: step_valid)

lemma run_forward: "valid s \<Longrightarrow> forward s (foldl step s xs)"
proof (induction xs arbitrary: s)
  case Nil
  then show ?case by (simp add: forward_refl)
next
  case (Cons x xs)
  from Cons.IH [OF step_valid [OF Cons.prems]] step_forward [OF Cons.prems]
  show ?case by (auto intro: forward_trans)
qed

end

end
