(* ===== verification/AdmissionLease.thy ===== *)
theory AdmissionLease
  imports RuntimeEvents
begin

text \<open>
  The durable delivery of an admitted run: \<open>RunSchedulerAdmissionV1\<close> of
  \<open>phase4_product/admission.py\<close> with its validator, and the fenced transitions of
  \<open>phase4_product/durability.py\<close> (lease, run start, acknowledgment, release, failure). A product error keeps its
  code and the reason code of its details.
\<close>

section \<open>Errors\<close>

datatype product_code =
    PE_INVALID_CURSOR | PE_UNAUTHENTICATED | PE_FORBIDDEN | PE_NOT_FOUND | PE_IDENTITY_MISMATCH
  | PE_UNAVAILABLE | PE_NOT_GENERATED | PE_NOT_RELEASED | PE_CONFLICT | PE_CURSOR_AHEAD
  | PE_SCHEMA_INCOMPATIBLE | PE_UNSUPPORTED_EVENT | PE_TERMINAL | PE_REQUEST_VALIDATION_ERROR
  | PE_INTEGRITY_FAILURE | PE_INTERNAL_ERROR | PE_TRANSIENT_BACKEND_ERROR

datatype recovery_hint = RH_NONE | RH_RETRY | RH_SNAPSHOT_RELOAD | RH_REAUTHENTICATE

text \<open>
  Besides a \<open>ProductError\<close> an operation may raise a \<open>ValueError\<close> of any class, fail an assertion, or
  violate a constraint of the database.
\<close>

datatype product_exn =
    ProductError product_code string
  | ProductValueError
  | ProductAssertionError
  | DatabaseIntegrityError

fun error_policy :: "product_code \<Rightarrow> int \<times> bool \<times> recovery_hint" where
  "error_policy PE_INVALID_CURSOR = (400, False, RH_SNAPSHOT_RELOAD)"
| "error_policy PE_UNAUTHENTICATED = (401, False, RH_REAUTHENTICATE)"
| "error_policy PE_FORBIDDEN = (403, False, RH_NONE)"
| "error_policy PE_NOT_FOUND = (404, False, RH_NONE)"
| "error_policy PE_IDENTITY_MISMATCH = (404, False, RH_NONE)"
| "error_policy PE_UNAVAILABLE = (409, False, RH_NONE)"
| "error_policy PE_NOT_GENERATED = (409, False, RH_NONE)"
| "error_policy PE_NOT_RELEASED = (409, False, RH_SNAPSHOT_RELOAD)"
| "error_policy PE_CONFLICT = (409, False, RH_NONE)"
| "error_policy PE_CURSOR_AHEAD = (409, False, RH_SNAPSHOT_RELOAD)"
| "error_policy PE_SCHEMA_INCOMPATIBLE = (409, False, RH_NONE)"
| "error_policy PE_UNSUPPORTED_EVENT = (409, False, RH_SNAPSHOT_RELOAD)"
| "error_policy PE_TERMINAL = (409, False, RH_NONE)"
| "error_policy PE_REQUEST_VALIDATION_ERROR = (422, False, RH_NONE)"
| "error_policy PE_INTEGRITY_FAILURE = (500, False, RH_SNAPSHOT_RELOAD)"
| "error_policy PE_INTERNAL_ERROR = (500, False, RH_NONE)"
| "error_policy PE_TRANSIENT_BACKEND_ERROR = (503, True, RH_RETRY)"

section \<open>Times and names\<close>

definition is_utc :: "timestamp \<Rightarrow> bool" where
  "is_utc t \<longleftrightarrow> ts_utcoffset t = Some 0"

definition earlier :: "timestamp \<Rightarrow> timestamp \<Rightarrow> bool" where
  "earlier a b \<longleftrightarrow> ts_instant a < ts_instant b"

definition shifted :: "timestamp \<Rightarrow> int \<Rightarrow> timestamp" where
  "shifted t d = t\<lparr>ts_instant := ts_instant t + d\<rparr>"

definition utc_if_given :: "timestamp option \<Rightarrow> bool" where
  "utc_if_given t \<longleftrightarrow> (case t of None \<Rightarrow> True | Some x \<Rightarrow> is_utc x)"

definition nonblank :: "string \<Rightarrow> bool" where
  "nonblank s \<longleftrightarrow> strip s \<noteq> []"

definition nonblank_given :: "string option \<Rightarrow> bool" where
  "nonblank_given s \<longleftrightarrow> (case s of None \<Rightarrow> False | Some x \<Rightarrow> nonblank x)"

section \<open>The admission row\<close>

datatype admission_state = AS_PENDING | AS_LEASED | AS_ACKNOWLEDGED | AS_FAILED

record sched_admission =
  sa_admission_id :: string
  sa_run_id :: string
  sa_outcome_id :: string
  sa_state :: admission_state
  sa_attempts :: nat
  sa_max_attempts :: nat
  sa_next_attempt_at :: "timestamp option"
  sa_lease_owner :: "string option"
  sa_generation :: nat
  sa_lease_expires_at :: "timestamp option"
  sa_start_committed_at :: "timestamp option"
  sa_started_event_id :: "string option"
  sa_started_sequence :: "int option"
  sa_acknowledged_at :: "timestamp option"
  sa_failed_at :: "timestamp option"
  sa_failure_code :: "string option"
  sa_created_at :: timestamp
  sa_updated_at :: timestamp

text \<open>\<open>state_fields_are_consistent\<close>, with the constraints of the fields.\<close>

definition start_recorded :: "sched_admission \<Rightarrow> bool" where
  "start_recorded a \<longleftrightarrow> sa_start_committed_at a \<noteq> None \<and> sa_started_event_id a \<noteq> None
     \<and> sa_started_sequence a \<noteq> None"

definition start_absent :: "sched_admission \<Rightarrow> bool" where
  "start_absent a \<longleftrightarrow> sa_start_committed_at a = None \<and> sa_started_event_id a = None
     \<and> sa_started_sequence a = None"

definition delivery_cleared :: "sched_admission \<Rightarrow> bool" where
  "delivery_cleared a \<longleftrightarrow> sa_next_attempt_at a = None \<and> sa_lease_owner a = None \<and> sa_lease_expires_at a = None"

fun state_fields_ok :: "admission_state \<Rightarrow> sched_admission \<Rightarrow> bool" where
  "state_fields_ok AS_PENDING a =
     (sa_lease_owner a = None \<and> sa_lease_expires_at a = None \<and> sa_acknowledged_at a = None \<and> sa_failed_at a = None)"
| "state_fields_ok AS_LEASED a =
     (nonblank_given (sa_lease_owner a) \<and> 1 \<le> sa_generation a
      \<and> (case sa_lease_expires_at a of None \<Rightarrow> False | Some e \<Rightarrow> earlier (sa_updated_at a) e)
      \<and> sa_next_attempt_at a = None \<and> sa_acknowledged_at a = None \<and> sa_failed_at a = None)"
| "state_fields_ok AS_ACKNOWLEDGED a =
     (start_recorded a \<and> sa_acknowledged_at a \<noteq> None \<and> sa_failed_at a = None \<and> sa_failure_code a = None
      \<and> delivery_cleared a)"
| "state_fields_ok AS_FAILED a =
     (sa_failed_at a \<noteq> None \<and> nonblank_given (sa_failure_code a) \<and> sa_acknowledged_at a = None
      \<and> delivery_cleared a)"

definition times_ok :: "sched_admission \<Rightarrow> bool" where
  "times_ok a \<longleftrightarrow> utc_if_given (sa_next_attempt_at a) \<and> utc_if_given (sa_lease_expires_at a)
     \<and> utc_if_given (sa_start_committed_at a) \<and> utc_if_given (sa_acknowledged_at a)
     \<and> utc_if_given (sa_failed_at a) \<and> is_utc (sa_created_at a) \<and> is_utc (sa_updated_at a)"

definition admission_valid :: "sched_admission \<Rightarrow> bool" where
  "admission_valid a \<longleftrightarrow>
     1 \<le> sa_max_attempts a \<and> (case sa_started_sequence a of None \<Rightarrow> True | Some n \<Rightarrow> 1 \<le> n)
     \<and> nonblank (sa_admission_id a) \<and> nonblank (sa_run_id a) \<and> nonblank (sa_outcome_id a) \<and> times_ok a
     \<and> \<not> earlier (sa_updated_at a) (sa_created_at a) \<and> sa_attempts a \<le> sa_max_attempts a
     \<and> (start_recorded a \<or> start_absent a) \<and> state_fields_ok (sa_state a) a
     \<and> (sa_state a \<noteq> AS_FAILED \<longrightarrow> sa_failure_code a = None)"

record lease_fence =
  lf_admission_id :: string
  lf_run_id :: string
  lf_owner :: string
  lf_generation :: nat
  lf_expires_at :: timestamp

section \<open>Guards and the replacement of a row\<close>

definition request_error :: "string \<Rightarrow> product_exn" where
  "request_error reason = ProductError PE_REQUEST_VALIDATION_ERROR reason"

definition require_nonblank :: "string \<Rightarrow> product_exn + unit" where
  "require_nonblank s = guard (nonblank s) (request_error ''INVALID_IDENTITY'')"

definition require_utc :: "timestamp \<Rightarrow> product_exn + unit" where
  "require_utc t = guard (is_utc t) (request_error ''UTC_TIMESTAMP_REQUIRED'')"

definition scheduler_integrity :: "string \<Rightarrow> product_exn" where
  "scheduler_integrity reason = ProductError PE_INTEGRITY_FAILURE reason"

definition replace_admission :: "sched_admission \<Rightarrow> product_exn + sched_admission" where
  "replace_admission a =
     (if admission_valid a then Inr a else Inl (scheduler_integrity ''INVALID_ADMISSION_TRANSITION''))"

definition require_transition_time :: "sched_admission \<Rightarrow> timestamp \<Rightarrow> product_exn + unit" where
  "require_transition_time a t =
     guard (\<not> earlier t (sa_updated_at a)) (ProductError PE_CONFLICT ''STALE_ADMISSION_TRANSITION'')"

definition make_fence :: "sched_admission \<Rightarrow> string \<Rightarrow> nat \<Rightarrow> timestamp \<Rightarrow> product_exn + lease_fence" where
  "make_fence a owner generation expires =
     rbind (require_nonblank (sa_admission_id a)) (\<lambda>_.
     rbind (require_nonblank (sa_run_id a)) (\<lambda>_.
     rbind (require_nonblank owner) (\<lambda>_.
     rbind (guard (1 \<le> generation) (request_error ''INVALID_LEASE_GENERATION'')) (\<lambda>_.
     rbind (require_utc expires) (\<lambda>_.
     Inr \<lparr>lf_admission_id = sa_admission_id a, lf_run_id = sa_run_id a, lf_owner = owner,
       lf_generation = generation, lf_expires_at = expires\<rparr>)))))"

section \<open>Transitions\<close>

definition lease_due :: "sched_admission \<Rightarrow> timestamp \<Rightarrow> product_exn + unit" where
  "lease_due a leased_at =
     (if sa_state a \<in> {AS_ACKNOWLEDGED, AS_FAILED} then Inl (ProductError PE_TERMINAL ''ADMISSION_TERMINAL'')
      else if sa_state a = AS_LEASED then
        (case sa_lease_expires_at a of
           None \<Rightarrow> Inl (scheduler_integrity ''LEASE_FIELDS_INCOMPLETE'')
         | Some e \<Rightarrow> guard (\<not> earlier leased_at e) (ProductError PE_CONFLICT ''ADMISSION_LEASE_HELD''))
      else guard (case sa_next_attempt_at a of None \<Rightarrow> True | Some d \<Rightarrow> \<not> earlier leased_at d)
             (ProductError PE_CONFLICT ''ADMISSION_NOT_DUE''))"

definition lease_scheduler_admission ::
    "sched_admission \<Rightarrow> string \<Rightarrow> timestamp \<Rightarrow> int \<Rightarrow> product_exn + sched_admission \<times> lease_fence" where
  "lease_scheduler_admission a worker leased_at duration =
     rbind (require_nonblank worker) (\<lambda>_.
     rbind (require_utc leased_at) (\<lambda>_.
     rbind (guard (0 < duration) (request_error ''INVALID_LEASE_DURATION'')) (\<lambda>_.
     rbind (lease_due a leased_at) (\<lambda>_.
     rbind (guard (sa_attempts a < sa_max_attempts a)
       (ProductError PE_TERMINAL ''ADMISSION_DELIVERY_EXHAUSTED'')) (\<lambda>_.
     rbind (require_transition_time a leased_at) (\<lambda>_.
     let generation = sa_generation a + 1; expires = shifted leased_at duration in
     rbind (replace_admission (a\<lparr>sa_state := AS_LEASED, sa_attempts := sa_attempts a + 1,
       sa_next_attempt_at := None, sa_lease_owner := Some worker, sa_generation := generation,
       sa_lease_expires_at := Some expires, sa_updated_at := leased_at\<rparr>)) (\<lambda>leased.
     rbind (make_fence leased worker generation expires) (\<lambda>fence.
     Inr (leased, fence)))))))))"

definition fence_matches :: "sched_admission \<Rightarrow> lease_fence \<Rightarrow> bool" where
  "fence_matches a f \<longleftrightarrow> sa_admission_id a = lf_admission_id f \<and> sa_run_id a = lf_run_id f
     \<and> sa_state a = AS_LEASED \<and> sa_lease_owner a = Some (lf_owner f)
     \<and> sa_generation a = lf_generation f \<and> sa_lease_expires_at a = Some (lf_expires_at f)"

definition require_current_scheduler_fence ::
    "sched_admission \<Rightarrow> lease_fence \<Rightarrow> timestamp \<Rightarrow> product_exn + unit" where
  "require_current_scheduler_fence a f t =
     rbind (require_utc t) (\<lambda>_.
     rbind (guard (fence_matches a f) (ProductError PE_CONFLICT ''STALE_ADMISSION_FENCE'')) (\<lambda>_.
     guard (case sa_lease_expires_at a of None \<Rightarrow> False | Some e \<Rightarrow> earlier t e)
       (ProductError PE_CONFLICT ''ADMISSION_LEASE_EXPIRED'')))"

definition record_scheduler_run_start ::
    "sched_admission \<Rightarrow> lease_fence \<Rightarrow> timestamp \<Rightarrow> string \<Rightarrow> int \<Rightarrow> product_exn + sched_admission" where
  "record_scheduler_run_start a f started_at event_id sequence =
     rbind (require_nonblank event_id) (\<lambda>_.
     rbind (require_utc started_at) (\<lambda>_.
     rbind (guard (1 \<le> sequence) (request_error ''INVALID_EVENT_SEQUENCE'')) (\<lambda>_.
     rbind (require_current_scheduler_fence a f started_at) (\<lambda>_.
     if start_recorded a then
       (if (sa_start_committed_at a, sa_started_event_id a, sa_started_sequence a)
            = (Some started_at, Some event_id, Some sequence) then Inr a
        else Inl (scheduler_integrity ''RUN_START_IDENTITY_MISMATCH''))
     else if \<not> start_absent a then Inl (scheduler_integrity ''RUN_START_FIELDS_INCOMPLETE'')
     else rbind (require_transition_time a started_at) (\<lambda>_.
       replace_admission (a\<lparr>sa_start_committed_at := Some started_at, sa_started_event_id := Some event_id,
         sa_started_sequence := Some sequence, sa_updated_at := started_at\<rparr>))))))"

definition acknowledge_scheduler_admission ::
    "sched_admission \<Rightarrow> lease_fence \<Rightarrow> timestamp \<Rightarrow> product_exn + sched_admission" where
  "acknowledge_scheduler_admission a f acknowledged_at =
     rbind (require_utc acknowledged_at) (\<lambda>_.
     if sa_state a = AS_ACKNOWLEDGED then
       (if sa_admission_id a = lf_admission_id f \<and> sa_run_id a = lf_run_id f \<and> sa_generation a = lf_generation f
        then Inr a else Inl (ProductError PE_CONFLICT ''STALE_ADMISSION_FENCE''))
     else
     rbind (require_current_scheduler_fence a f acknowledged_at) (\<lambda>_.
     rbind (guard (start_recorded a) (ProductError PE_CONFLICT ''RUN_START_NOT_COMMITTED'')) (\<lambda>_.
     rbind (require_transition_time a acknowledged_at) (\<lambda>_.
     replace_admission (a\<lparr>sa_state := AS_ACKNOWLEDGED, sa_next_attempt_at := None, sa_lease_owner := None,
       sa_lease_expires_at := None, sa_acknowledged_at := Some acknowledged_at,
       sa_updated_at := acknowledged_at\<rparr>)))))"

definition release_scheduler_admission ::
    "sched_admission \<Rightarrow> lease_fence \<Rightarrow> timestamp \<Rightarrow> timestamp \<Rightarrow> product_exn + sched_admission" where
  "release_scheduler_admission a f released_at next_attempt_at =
     rbind (require_utc released_at) (\<lambda>_.
     rbind (require_utc next_attempt_at) (\<lambda>_.
     rbind (require_current_scheduler_fence a f released_at) (\<lambda>_.
     rbind (require_transition_time a released_at) (\<lambda>_.
     rbind (guard (\<not> earlier next_attempt_at released_at) (request_error ''INVALID_NEXT_ATTEMPT_TIME'')) (\<lambda>_.
     rbind (guard (sa_attempts a < sa_max_attempts a)
       (ProductError PE_TERMINAL ''ADMISSION_DELIVERY_EXHAUSTED'')) (\<lambda>_.
     replace_admission (a\<lparr>sa_state := AS_PENDING, sa_next_attempt_at := Some next_attempt_at,
       sa_lease_owner := None, sa_lease_expires_at := None, sa_updated_at := released_at\<rparr>)))))))"

definition fail_fence :: "sched_admission \<Rightarrow> lease_fence option \<Rightarrow> timestamp \<Rightarrow> product_exn + unit" where
  "fail_fence a fence failed_at =
     (if sa_state a = AS_LEASED then
        (case fence of None \<Rightarrow> Inl (ProductError PE_CONFLICT ''ADMISSION_FENCE_REQUIRED'')
         | Some f \<Rightarrow> require_current_scheduler_fence a f failed_at)
      else guard (fence = None) (ProductError PE_CONFLICT ''STALE_ADMISSION_FENCE''))"

definition fail_scheduler_admission ::
    "sched_admission \<Rightarrow> timestamp \<Rightarrow> string \<Rightarrow> lease_fence option \<Rightarrow> product_exn + sched_admission" where
  "fail_scheduler_admission a failed_at code fence =
     rbind (require_nonblank code) (\<lambda>_.
     rbind (require_utc failed_at) (\<lambda>_.
     if sa_state a = AS_FAILED then
       (if sa_failure_code a = Some code then Inr a
        else Inl (scheduler_integrity ''ADMISSION_FAILURE_IDENTITY_MISMATCH''))
     else if sa_state a = AS_ACKNOWLEDGED then Inl (ProductError PE_TERMINAL ''ADMISSION_ACKNOWLEDGED'')
     else
     rbind (fail_fence a fence failed_at) (\<lambda>_.
     rbind (require_transition_time a failed_at) (\<lambda>_.
     replace_admission (a\<lparr>sa_state := AS_FAILED, sa_next_attempt_at := None, sa_lease_owner := None,
       sa_lease_expires_at := None, sa_failed_at := Some failed_at, sa_failure_code := Some code,
       sa_updated_at := failed_at\<rparr>)))))"

section \<open>The table of rows\<close>

text \<open>
  \<open>get_for_update\<close> reads a row, \<open>replace_fenced\<close> is the compare-and-set on the generation, and
  \<open>list_due_admission_ids\<close> is its query. The rows are keyed by the admission id.
\<close>

type_synonym admission_table = "(string \<times> sched_admission) list"

definition replace_fenced :: "admission_table \<Rightarrow> sched_admission \<Rightarrow> nat \<Rightarrow> bool \<times> admission_table" where
  "replace_fenced rows a expected =
     (case map_of rows (sa_admission_id a) of
        Some r \<Rightarrow> if sa_generation r = expected
          then (True, map (\<lambda>(k, r). (k, if k = sa_admission_id a then a else r)) rows) else (False, rows)
      | None \<Rightarrow> (False, rows))"

definition due_at :: "timestamp \<Rightarrow> sched_admission \<Rightarrow> bool" where
  "due_at t r \<longleftrightarrow> sa_state r = AS_PENDING
     \<and> (case sa_next_attempt_at r of None \<Rightarrow> False | Some d \<Rightarrow> \<not> earlier t d)"

definition due_key :: "string \<times> sched_admission \<Rightarrow> int \<times> string" where
  "due_key kr = (case sa_next_attempt_at (snd kr) of None \<Rightarrow> 0 | Some d \<Rightarrow> ts_instant d, fst kr)"

definition due_before :: "int \<times> string \<Rightarrow> int \<times> string \<Rightarrow> bool" where
  "due_before a b \<longleftrightarrow> fst a < fst b \<or> (fst a = fst b \<and> snd a \<le> snd b)"

fun insert_due :: "string \<times> sched_admission \<Rightarrow> admission_table \<Rightarrow> admission_table" where
  "insert_due x [] = [x]"
| "insert_due x (y # ys) = (if due_before (due_key x) (due_key y) then x # y # ys else y # insert_due x ys)"

definition list_due_admission_ids :: "admission_table \<Rightarrow> timestamp \<Rightarrow> nat \<Rightarrow> string list" where
  "list_due_admission_ids rows t limit =
     take limit (map fst (foldr insert_due (filter (\<lambda>(k, r). due_at t r) rows) []))"

end
