(* ===== verification/LeaseSafety.thy ===== *)
theory LeaseSafety
  imports AdmissionLease Machines
begin

text \<open>
  What holds of an admission row under any sequence of delivery operations, by any workers holding any
  fences, in which a rejected operation leaves the row alone: the row stays valid, its identity and
  a committed run start never change, a final row is final, attempts and generation count the leases, and
  a fence that was superseded has lost its effect.
\<close>

section \<open>Operations\<close>

datatype delivery_op =
    OpLease string timestamp int
  | OpStart lease_fence timestamp string int
  | OpAck lease_fence timestamp
  | OpRelease lease_fence timestamp timestamp
  | OpFail timestamp string "lease_fence option"

fun deliver :: "sched_admission \<Rightarrow> delivery_op \<Rightarrow> product_exn + sched_admission" where
  "deliver a (OpLease w t d) = rbind (lease_scheduler_admission a w t d) (\<lambda>(b, f). Inr b)"
| "deliver a (OpStart f t e n) = record_scheduler_run_start a f t e n"
| "deliver a (OpAck f t) = acknowledge_scheduler_admission a f t"
| "deliver a (OpRelease f t n) = release_scheduler_admission a f t n"
| "deliver a (OpFail t c f) = fail_scheduler_admission a t c f"

fun op_time :: "delivery_op \<Rightarrow> timestamp" where
  "op_time (OpLease w t d) = t"
| "op_time (OpStart f t e n) = t"
| "op_time (OpAck f t) = t"
| "op_time (OpRelease f t n) = t"
| "op_time (OpFail t c f) = t"

fun op_fence :: "delivery_op \<Rightarrow> lease_fence option" where
  "op_fence (OpLease w t d) = None"
| "op_fence (OpStart f t e n) = Some f"
| "op_fence (OpAck f t) = Some f"
| "op_fence (OpRelease f t n) = Some f"
| "op_fence (OpFail t c f) = f"

definition delivery_step :: "sched_admission \<Rightarrow> delivery_op \<Rightarrow> sched_admission" where
  "delivery_step a p = settle a (deliver a p)"

definition delivery_run :: "sched_admission \<Rightarrow> delivery_op list \<Rightarrow> sched_admission" where
  "delivery_run = foldl delivery_step"

section \<open>One operation\<close>

definition is_final :: "sched_admission \<Rightarrow> bool" where
  "is_final a \<longleftrightarrow> sa_state a \<in> {AS_ACKNOWLEDGED, AS_FAILED}"

text \<open>A row \<open>b\<close> may follow a row \<open>a\<close>.\<close>

definition row_forward :: "sched_admission \<Rightarrow> sched_admission \<Rightarrow> bool" where
  "row_forward a b \<longleftrightarrow>
     sa_admission_id b = sa_admission_id a \<and> sa_run_id b = sa_run_id a \<and> sa_outcome_id b = sa_outcome_id a
     \<and> sa_max_attempts b = sa_max_attempts a \<and> sa_created_at b = sa_created_at a
     \<and> (start_recorded a \<longrightarrow> sa_start_committed_at b = sa_start_committed_at a
          \<and> sa_started_event_id b = sa_started_event_id a \<and> sa_started_sequence b = sa_started_sequence a)
     \<and> sa_generation a \<le> sa_generation b \<and> sa_attempts b + sa_generation a = sa_attempts a + sa_generation b
     \<and> ts_instant (sa_updated_at a) \<le> ts_instant (sa_updated_at b)
     \<and> (is_final a \<longrightarrow> b = a)"

lemma row_forward_refl: "row_forward a a"
  by (simp add: row_forward_def)

lemma row_forward_trans: "row_forward a b \<Longrightarrow> row_forward b c \<Longrightarrow> row_forward a c"
  unfolding row_forward_def start_recorded_def by auto

lemma replace_admission_Inr: "replace_admission a = Inr b \<longleftrightarrow> admission_valid a \<and> b = a"
  by (auto simp: replace_admission_def)

lemmas delivery_inversion = rbind_Inr_iff guard_Inr_iff replace_admission_Inr require_transition_time_def
  require_nonblank_def require_utc_def

lemma lease_Inr:
  assumes "lease_scheduler_admission a w t d = Inr (b, f)"
  shows "\<not> is_final a \<and> sa_attempts a < sa_max_attempts a \<and> \<not> earlier t (sa_updated_at a) \<and> admission_valid b
    \<and> b = a\<lparr>sa_state := AS_LEASED, sa_attempts := sa_attempts a + 1, sa_next_attempt_at := None,
        sa_lease_owner := Some w, sa_generation := sa_generation a + 1,
        sa_lease_expires_at := Some (shifted t d), sa_updated_at := t\<rparr>
    \<and> fence_matches b f"
  using assms by (auto simp: lease_scheduler_admission_def delivery_inversion lease_due_def Let_def
      make_fence_def fence_matches_def is_final_def split: if_splits)

lemma current_fence_Inr:
  "require_current_scheduler_fence a f t = Inr u \<longleftrightarrow>
     is_utc t \<and> fence_matches a f \<and> (\<exists>e. sa_lease_expires_at a = Some e \<and> earlier t e)"
  by (auto simp: require_current_scheduler_fence_def delivery_inversion split: option.splits)

lemma start_Inr:
  assumes "record_scheduler_run_start a f t e n = Inr b"
  shows "fence_matches a f \<and> (\<exists>x. sa_lease_expires_at a = Some x \<and> earlier t x)
    \<and> (start_recorded a \<and> b = a
       \<or> start_absent a \<and> admission_valid b \<and> \<not> earlier t (sa_updated_at a)
         \<and> b = a\<lparr>sa_start_committed_at := Some t, sa_started_event_id := Some e, sa_started_sequence := Some n,
             sa_updated_at := t\<rparr>)"
  using assms by (auto simp: record_scheduler_run_start_def delivery_inversion current_fence_Inr split: if_splits)

lemma ack_Inr:
  assumes "acknowledge_scheduler_admission a f t = Inr b"
  shows "sa_state a = AS_ACKNOWLEDGED \<and> b = a
    \<or> fence_matches a f \<and> (\<exists>x. sa_lease_expires_at a = Some x \<and> earlier t x) \<and> start_recorded a
      \<and> admission_valid b \<and> \<not> earlier t (sa_updated_at a)
      \<and> b = a\<lparr>sa_state := AS_ACKNOWLEDGED, sa_next_attempt_at := None, sa_lease_owner := None,
          sa_lease_expires_at := None, sa_acknowledged_at := Some t, sa_updated_at := t\<rparr>"
  using assms by (auto simp: acknowledge_scheduler_admission_def delivery_inversion current_fence_Inr
      split: if_splits)

lemma release_Inr:
  assumes "release_scheduler_admission a f t n = Inr b"
  shows "fence_matches a f \<and> (\<exists>x. sa_lease_expires_at a = Some x \<and> earlier t x)
    \<and> admission_valid b \<and> \<not> earlier t (sa_updated_at a)
    \<and> b = a\<lparr>sa_state := AS_PENDING, sa_next_attempt_at := Some n, sa_lease_owner := None,
        sa_lease_expires_at := None, sa_updated_at := t\<rparr>"
  using assms by (auto simp: release_scheduler_admission_def delivery_inversion current_fence_Inr)

lemma fail_Inr:
  assumes "fail_scheduler_admission a t c f = Inr b"
  shows "sa_state a = AS_FAILED \<and> b = a
    \<or> (sa_state a = AS_LEASED \<and> (\<exists>g x. f = Some g \<and> fence_matches a g \<and> sa_lease_expires_at a = Some x \<and> earlier t x)
        \<or> sa_state a = AS_PENDING \<and> f = None)
      \<and> admission_valid b \<and> \<not> earlier t (sa_updated_at a)
      \<and> b = a\<lparr>sa_state := AS_FAILED, sa_next_attempt_at := None, sa_lease_owner := None,
          sa_lease_expires_at := None, sa_failed_at := Some t, sa_failure_code := Some c, sa_updated_at := t\<rparr>"
  using assms by (cases "sa_state a") (auto simp: fail_scheduler_admission_def fail_fence_def delivery_inversion
      current_fence_Inr split: if_splits option.splits)

lemma deliver_valid: "admission_valid a \<Longrightarrow> deliver a p = Inr b \<Longrightarrow> admission_valid b"
  by (cases p) (auto simp: rbind_Inr_iff dest!: lease_Inr start_Inr ack_Inr release_Inr fail_Inr)

lemma deliver_forward: "deliver a p = Inr b \<Longrightarrow> row_forward a b"
proof (cases p)
  case (OpLease w t d)
  moreover assume "deliver a p = Inr b"
  ultimately obtain f where "lease_scheduler_admission a w t d = Inr (b, f)" by (auto simp: rbind_Inr_iff)
  from lease_Inr [OF this] show ?thesis by (auto simp: row_forward_def earlier_def)
next
  case (OpStart f t e n)
  moreover assume "deliver a p = Inr b"
  ultimately have "record_scheduler_run_start a f t e n = Inr b" by simp
  from start_Inr [OF this] show ?thesis
    by (auto simp: row_forward_def earlier_def fence_matches_def is_final_def start_recorded_def start_absent_def)
next
  case (OpAck f t)
  moreover assume "deliver a p = Inr b"
  ultimately have "acknowledge_scheduler_admission a f t = Inr b" by simp
  from ack_Inr [OF this] show ?thesis
    by (auto simp: row_forward_def earlier_def fence_matches_def is_final_def)
next
  case (OpRelease f t n)
  moreover assume "deliver a p = Inr b"
  ultimately have "release_scheduler_admission a f t n = Inr b" by simp
  from release_Inr [OF this] show ?thesis
    by (auto simp: row_forward_def earlier_def fence_matches_def is_final_def)
next
  case (OpFail t c f)
  moreover assume "deliver a p = Inr b"
  ultimately have "fail_scheduler_admission a t c f = Inr b" by simp
  from fail_Inr [OF this] show ?thesis
    by (auto simp: row_forward_def earlier_def is_final_def)
qed

interpretation lease: guarded_machine deliver admission_valid row_forward
  by unfold_locales (auto intro: deliver_valid deliver_forward row_forward_refl row_forward_trans)

lemma delivery_step_eq: "delivery_step = lease.step"
  by (intro ext) (simp add: delivery_step_def lease.step_def)

lemma delivery_run_valid: "admission_valid a \<Longrightarrow> admission_valid (delivery_run a ps)"
  unfolding delivery_run_def delivery_step_eq by (rule lease.run_valid)

lemma delivery_run_forward: "admission_valid a \<Longrightarrow> row_forward a (delivery_run a ps)"
  unfolding delivery_run_def delivery_step_eq by (rule lease.run_forward)

lemma delivery_run_append: "delivery_run a (ps @ qs) = delivery_run (delivery_run a ps) qs"
  by (simp add: delivery_run_def)

section \<open>Fences\<close>

text \<open>A fence is spent once its lease was taken over or given up.\<close>

definition spent :: "lease_fence \<Rightarrow> sched_admission \<Rightarrow> bool" where
  "spent f a \<longleftrightarrow> lf_generation f < sa_generation a
     \<or> lf_generation f = sa_generation a \<and> sa_state a \<noteq> AS_LEASED"

lemma spent_not_matching: "spent f a \<Longrightarrow> \<not> fence_matches a f"
  by (auto simp: spent_def fence_matches_def)

lemma spent_step:
  assumes "spent f a" and "deliver a p = Inr b"
  shows "spent f b"
proof (cases p)
  case (OpLease w t d)
  with assms(2) obtain g where "lease_scheduler_admission a w t d = Inr (b, g)" by (auto simp: rbind_Inr_iff)
  from lease_Inr [OF this] assms(1) show ?thesis by (auto simp: spent_def)
next
  case (OpStart g t e n)
  with assms(2) have "record_scheduler_run_start a g t e n = Inr b" by simp
  from start_Inr [OF this] assms(1) show ?thesis by (auto simp: spent_def fence_matches_def)
next
  case (OpAck g t)
  with assms(2) have "acknowledge_scheduler_admission a g t = Inr b" by simp
  from ack_Inr [OF this] assms(1) show ?thesis by (auto simp: spent_def)
next
  case (OpRelease g t n)
  with assms(2) have "release_scheduler_admission a g t n = Inr b" by simp
  from release_Inr [OF this] assms(1) show ?thesis by (auto simp: spent_def)
next
  case (OpFail t c g)
  with assms(2) have "fail_scheduler_admission a t c g = Inr b" by simp
  from fail_Inr [OF this] assms(1) show ?thesis by (auto simp: spent_def)
qed

lemma spent_run: "spent f a \<Longrightarrow> spent f (delivery_run a ps)"
proof (induction ps arbitrary: a)
  case Nil
  then show ?case by (simp add: delivery_run_def)
next
  case (Cons p ps)
  have "spent f (delivery_step a p)"
    using Cons.prems by (cases "deliver a p") (auto simp: delivery_step_def dest: spent_step)
  from Cons.IH [OF this] show ?case by (simp add: delivery_run_def)
qed

lemma spent_powerless:
  assumes "spent f a" and "op_fence p = Some f"
  shows "delivery_step a p = a"
proof (cases "deliver a p")
  case (Inl e)
  then show ?thesis by (simp add: delivery_step_def)
next
  case (Inr b)
  note no = spent_not_matching [OF assms(1)]
  have "b = a"
  proof (cases p)
    case (OpLease w t d)
    with assms(2) show ?thesis by simp
  next
    case (OpStart g t e n)
    with Inr have "record_scheduler_run_start a g t e n = Inr b" by simp
    from start_Inr [OF this] no OpStart assms(2) show ?thesis by simp
  next
    case (OpAck g t)
    with Inr have "acknowledge_scheduler_admission a g t = Inr b" by simp
    from ack_Inr [OF this] no OpAck assms(2) show ?thesis by auto
  next
    case (OpRelease g t n)
    with Inr have "release_scheduler_admission a g t n = Inr b" by simp
    from release_Inr [OF this] no OpRelease assms(2) show ?thesis by simp
  next
    case (OpFail t c g)
    with Inr have "fail_scheduler_admission a t c g = Inr b" by simp
    from fail_Inr [OF this] no OpFail assms(2) show ?thesis by auto
  qed
  with Inr show ?thesis by (simp add: delivery_step_def)
qed

section \<open>An expired lease\<close>

definition expired_at :: "timestamp \<Rightarrow> sched_admission \<Rightarrow> bool" where
  "expired_at t a \<longleftrightarrow> sa_state a = AS_LEASED
     \<and> (case sa_lease_expires_at a of None \<Rightarrow> False | Some e \<Rightarrow> \<not> earlier t e)"

lemma expired_only_lease:
  assumes "expired_at (op_time p) a" and "deliver a p = Inr b"
  shows "\<exists>w t d. p = OpLease w t d \<and> sa_attempts a < sa_max_attempts a"
proof (cases p)
  case (OpLease w t d)
  with assms(2) obtain g where "lease_scheduler_admission a w t d = Inr (b, g)" by (auto simp: rbind_Inr_iff)
  from lease_Inr [OF this] OpLease show ?thesis by auto
next
  case (OpStart g t e n)
  with assms(2) have "record_scheduler_run_start a g t e n = Inr b" by simp
  from start_Inr [OF this] assms(1) OpStart show ?thesis by (auto simp: expired_at_def)
next
  case (OpAck g t)
  with assms(2) have "acknowledge_scheduler_admission a g t = Inr b" by simp
  from ack_Inr [OF this] assms(1) OpAck show ?thesis by (auto simp: expired_at_def)
next
  case (OpRelease g t n)
  with assms(2) have "release_scheduler_admission a g t n = Inr b" by simp
  from release_Inr [OF this] assms(1) OpRelease show ?thesis by (auto simp: expired_at_def)
next
  case (OpFail t c g)
  with assms(2) have "fail_scheduler_admission a t c g = Inr b" by simp
  from fail_Inr [OF this] assms(1) OpFail show ?thesis by (auto simp: expired_at_def)
qed

lemma lease_expired:
  assumes "admission_valid a" and "expired_at t a" and "sa_attempts a < sa_max_attempts a"
    and "nonblank w" and "is_utc t" and "0 < d"
  shows "\<exists>b f. lease_scheduler_admission a w t d = Inr (b, f)"
proof -
  obtain e where e: "sa_state a = AS_LEASED" "sa_lease_expires_at a = Some e" "\<not> earlier t e"
    using assms(2) by (auto simp: expired_at_def split: option.splits)
  let ?b = "a\<lparr>sa_state := AS_LEASED, sa_attempts := sa_attempts a + 1, sa_next_attempt_at := None,
      sa_lease_owner := Some w, sa_generation := sa_generation a + 1,
      sa_lease_expires_at := Some (shifted t d), sa_updated_at := t\<rparr>"
  have up: "\<not> earlier t (sa_updated_at a)"
    using e assms(1) by (auto simp: admission_valid_def earlier_def)
  have ids: "nonblank (sa_admission_id a)" "nonblank (sa_run_id a)" using assms(1) by (auto simp: admission_valid_def)
  have "admission_valid ?b"
    using assms e up by (auto simp: admission_valid_def times_ok_def utc_if_given_def is_utc_def shifted_def
        nonblank_given_def earlier_def start_recorded_def start_absent_def split: option.splits)
  with assms e up ids show ?thesis
    by (simp add: lease_scheduler_admission_def require_nonblank_def require_utc_def lease_due_def
        require_transition_time_def replace_admission_def make_fence_def Let_def is_utc_def shifted_def)
qed

section \<open>Witnesses\<close>

definition at_us :: "int \<Rightarrow> timestamp" where
  "at_us n = \<lparr>ts_instant = n, ts_utcoffset = Some 0\<rparr>"

definition pending_row :: sched_admission where
  "pending_row = \<lparr>sa_admission_id = ''ADM-1'', sa_run_id = ''RUN-1'', sa_outcome_id = ''OUT-1'', sa_state = AS_PENDING,
     sa_attempts = 0, sa_max_attempts = 1, sa_next_attempt_at = Some (at_us 0), sa_lease_owner = None,
     sa_generation = 0, sa_lease_expires_at = None, sa_start_committed_at = None, sa_started_event_id = None,
     sa_started_sequence = None, sa_acknowledged_at = None, sa_failed_at = None, sa_failure_code = None,
     sa_created_at = at_us 0, sa_updated_at = at_us 0\<rparr>"

definition fence_1 :: lease_fence where
  "fence_1 = \<lparr>lf_admission_id = ''ADM-1'', lf_run_id = ''RUN-1'', lf_owner = ''worker'', lf_generation = 1,
     lf_expires_at = at_us 300\<rparr>"

definition leased_row :: sched_admission where
  "leased_row = delivery_run pending_row [OpLease ''worker'' (at_us 0) 300]"

definition delivered_row :: sched_admission where
  "delivered_row = delivery_run leased_row [OpStart fence_1 (at_us 5) ''EVT-1'' 6, OpAck fence_1 (at_us 6)]"

lemma pending_row_valid: "admission_valid pending_row" "sa_generation pending_row = 0" "sa_attempts pending_row = 0"
  by code_simp+

lemma leased_row_eq: "lease_scheduler_admission pending_row ''worker'' (at_us 0) 300 = Inr (leased_row, fence_1)"
  by code_simp

lemma leased_row_facts: "admission_valid leased_row" "expired_at (at_us 300) leased_row" "sa_attempts leased_row = sa_max_attempts leased_row"
  by code_simp+

lemma delivered_row_facts: "sa_state delivered_row = AS_ACKNOWLEDGED" "start_recorded delivered_row"
  "sa_started_sequence delivered_row = Some 6"
  by code_simp+

section \<open>Properties\<close>

text \<open>
  C8. The delivery of an admitted run is safe under every sequence of operations of any workers: between
  any two points of its history the row stays valid and keeps its identity, a run start once committed is
  never replaced by another (so a run starts at most once), an acknowledged or failed row never changes
  again, an acknowledgment presupposes the committed start, and the leases ever granted, which the
  generation counts, never exceed the maximum of deliveries.
\<close>

theorem delivery_history_safe:
  assumes "admission_valid a" and "sa_generation a = 0" and "sa_attempts a = 0"
    and "b = delivery_run a ps" and "c = delivery_run b qs"
  shows "admission_valid c \<and> sa_admission_id c = sa_admission_id b \<and> sa_run_id c = sa_run_id b
    \<and> (start_recorded b \<longrightarrow> (sa_start_committed_at c, sa_started_event_id c, sa_started_sequence c)
         = (sa_start_committed_at b, sa_started_event_id b, sa_started_sequence b))
    \<and> (sa_state b \<in> {AS_ACKNOWLEDGED, AS_FAILED} \<longrightarrow> c = b)
    \<and> (sa_state c = AS_ACKNOWLEDGED \<longrightarrow> start_recorded c)
    \<and> sa_generation b \<le> sa_generation c \<and> sa_generation c = sa_attempts c \<and> sa_generation c \<le> sa_max_attempts a"
proof -
  have b: "admission_valid b" and ab: "row_forward a b"
    using delivery_run_valid delivery_run_forward assms(1,4) by blast+
  have c: "admission_valid c" and bc: "row_forward b c"
    using delivery_run_valid delivery_run_forward b assms(5) by blast+
  from ab bc c assms(2,3) show ?thesis
    by (auto simp: row_forward_def is_final_def admission_valid_def)
qed

theorem delivery_history_safe_witness:
  "delivery_run delivered_row [OpAck fence_1 (at_us 7), OpStart fence_1 (at_us 8) ''EVT-2'' 7] = delivered_row"
  using delivery_history_safe [OF pending_row_valid refl refl, of "[OpLease ''worker'' (at_us 0) 300,
    OpStart fence_1 (at_us 5) ''EVT-1'' 6, OpAck fence_1 (at_us 6)]"
    "[OpAck fence_1 (at_us 7), OpStart fence_1 (at_us 8) ''EVT-2'' 7]"] delivered_row_facts(1)
  by (simp add: delivered_row_def leased_row_def delivery_run_append [symmetric])

text \<open>
  C21. A lease hands out exclusive authority: once the lease behind a fence was taken over by another
  one, or was released, acknowledged or failed, no operation under that fence changes the row any more, whatever
  happens in between.
\<close>

theorem spent_fence_powerless:
  assumes "lease_scheduler_admission a worker leased_at duration = Inr (b, fence)" and "admission_valid a"
    and "c = delivery_run b ps" and "sa_generation c \<noteq> lf_generation fence \<or> sa_state c \<noteq> AS_LEASED"
    and "op_fence p = Some fence"
  shows "delivery_step (delivery_run c qs) p = delivery_run c qs"
proof -
  have "fence_matches b fence" "admission_valid b" using lease_Inr [OF assms(1)] by auto
  with delivery_run_forward [of b ps] have "lf_generation fence \<le> sa_generation c"
    by (simp add: assms(3) row_forward_def fence_matches_def)
  with assms(4) have "spent fence c" by (auto simp: spent_def)
  from spent_powerless [OF spent_run [OF this] assms(5)] show ?thesis .
qed

theorem spent_fence_powerless_witness:
  "delivery_step delivered_row (OpRelease fence_1 (at_us 9) (at_us 20)) = delivered_row"
  using spent_fence_powerless [OF leased_row_eq pending_row_valid(1) delivered_row_def _, of
    "OpRelease fence_1 (at_us 9) (at_us 20)" "[]"] delivered_row_facts(1)
  by (simp add: delivery_run_def)

text \<open>
  C27. After a lease expired without an outcome, another worker can take the delivery over exactly when an
  attempt is left. When none is left, no operation at any later time changes the row: it stays LEASED for
  ever and is never failed, because failing a leased row needs its unexpired fence.
\<close>

theorem expired_lease_outcome:
  assumes "admission_valid a" and "expired_at t a"
  shows "(sa_attempts a < sa_max_attempts a \<and> nonblank w \<and> is_utc t \<and> 0 < d \<longrightarrow>
       (\<exists>b f. lease_scheduler_admission a w t d = Inr (b, f) \<and> sa_generation b = sa_generation a + 1))
    \<and> (sa_attempts a = sa_max_attempts a \<and> (\<forall>p\<in>set ps. \<not> earlier (op_time p) t) \<longrightarrow>
       delivery_run a ps = a)"
proof (intro conjI impI)
  assume "sa_attempts a < sa_max_attempts a \<and> nonblank w \<and> is_utc t \<and> 0 < d"
  with lease_expired [OF assms] obtain b f where "lease_scheduler_admission a w t d = Inr (b, f)" by blast
  with lease_Inr [OF this] show "\<exists>b f. lease_scheduler_admission a w t d = Inr (b, f) \<and> sa_generation b = sa_generation a + 1"
    by auto
next
  assume "sa_attempts a = sa_max_attempts a \<and> (\<forall>p\<in>set ps. \<not> earlier (op_time p) t)"
  then have full: "sa_attempts a = sa_max_attempts a" and late: "\<forall>p\<in>set ps. \<not> earlier (op_time p) t" by auto
  have "delivery_step a p = a" if "p \<in> set ps" for p
  proof (cases "deliver a p")
    case (Inr b)
    have "expired_at (op_time p) a"
      using assms(2) late that by (fastforce simp: expired_at_def earlier_def split: option.splits)
    from expired_only_lease [OF this Inr] full show ?thesis by auto
  qed (simp add: delivery_step_def)
  then show "delivery_run a ps = a" by (induction ps) (simp_all add: delivery_run_def)
qed

theorem expired_lease_outcome_witness:
  "delivery_run leased_row [OpFail (at_us 300) ''LOST'' (Some fence_1), OpLease ''other'' (at_us 400) 300,
     OpRelease fence_1 (at_us 500) (at_us 600), OpAck fence_1 (at_us 700)] = leased_row"
proof -
  let ?ps = "[OpFail (at_us 300) ''LOST'' (Some fence_1), OpLease ''other'' (at_us 400) 300,
     OpRelease fence_1 (at_us 500) (at_us 600), OpAck fence_1 (at_us 700)]"
  have "\<forall>p\<in>set ?ps. \<not> earlier (op_time p) (at_us 300)" by (simp add: earlier_def at_us_def)
  with expired_lease_outcome [OF leased_row_facts(1,2), of undefined undefined ?ps] leased_row_facts(3)
  show ?thesis by blast
qed

end
