(* ===== verification/CanonicalJson.thy ===== *)
theory CanonicalJson
  imports DecimalText "HOL-Library.Multiset"
begin

text \<open>
  \<open>phase4_product/hashing.py\<close>: RFC 8785 canonical JSON and the identities that are hashes of it. Here a
  Python string is the list of its code points, any code point included, because encoding, escaping and
  the order of the keys depend on them. A float is its exact value; \<open>repr\<close> of a positive float is an
  argument, SHA-256 (as lower-case hexadecimal) another one.
\<close>

section \<open>Text and its encodings\<close>

type_synonym utext = "nat list"

definition ucs :: "string \<Rightarrow> utext" where
  "ucs s = map of_char s"

datatype json_exn = CanonicalJSONError | JsonValueError

definition surrogate :: "nat \<Rightarrow> bool" where
  "surrogate c \<longleftrightarrow> 0xD800 \<le> c \<and> c \<le> 0xDFFF"

definition utf8_char :: "nat \<Rightarrow> nat list" where
  "utf8_char c =
     (if c < 0x80 then [c]
      else if c < 0x800 then [0xC0 + c div 64, 0x80 + c mod 64]
      else if c < 0x10000 then [0xE0 + c div 4096, 0x80 + c div 64 mod 64, 0x80 + c mod 64]
      else [0xF0 + c div 262144, 0x80 + c div 4096 mod 64, 0x80 + c div 64 mod 64, 0x80 + c mod 64])"

definition utf8 :: "utext \<Rightarrow> json_exn + nat list" where
  "utf8 s = (if list_all (\<lambda>c. \<not> surrogate c) s then Inr (concat (map utf8_char s)) else Inl CanonicalJSONError)"

definition utf16_char :: "nat \<Rightarrow> nat list" where
  "utf16_char c =
     (if c < 0x10000 then [c div 256, c mod 256]
      else let hi = 0xD800 + (c - 0x10000) div 1024; lo = 0xDC00 + (c - 0x10000) mod 1024 in
        [hi div 256, hi mod 256, lo div 256, lo mod 256])"

definition utf16_be :: "utext \<Rightarrow> nat list" where
  "utf16_be s = concat (map utf16_char s)"

definition utf16_sort_key :: "utext \<Rightarrow> json_exn + nat list" where
  "utf16_sort_key s = (if list_all (\<lambda>c. \<not> surrogate c) s then Inr (utf16_be s) else Inl CanonicalJSONError)"

section \<open>Values\<close>

text \<open>
  A dict is the list of its entries in insertion order; a key that is not a string is \<open>None\<close>.
  \<open>VOther\<close> is a value of any other type.
\<close>

datatype jvalue =
    VNull
  | VBool bool
  | VInt int
  | VFloat pyfloat
  | VText utext
  | VList "jvalue list"
  | VDict "(utext option \<times> jvalue) list"
  | VOther

section \<open>Serialisation\<close>

definition hex_digit :: "nat \<Rightarrow> nat" where
  "hex_digit n = (if n < 10 then 48 + n else 87 + n)"

definition escape_char :: "nat \<Rightarrow> nat list" where
  "escape_char c =
     (if c = 8 then [92, 98] else if c = 9 then [92, 116] else if c = 10 then [92, 110]
      else if c = 12 then [92, 102] else if c = 13 then [92, 114] else if c = 34 then [92, 34]
      else if c = 92 then [92, 92]
      else if c < 32 then [92, 117, 48, 48, hex_digit (c div 16), hex_digit (c mod 16)]
      else [c])"

definition serialize_string :: "utext \<Rightarrow> json_exn + utext" where
  "serialize_string s =
     rbind (utf8 s) (\<lambda>_. Inr ([34] @ concat (map escape_char s) @ [34]))"

text \<open>
  \<open>render_decimal ds p\<close> writes the digits \<open>ds\<close> with the decimal point after the first \<open>p\<close> of them, the last
  part of \<open>_serialize_float\<close>.
\<close>

definition render_decimal :: "string \<Rightarrow> int \<Rightarrow> string" where
  "render_decimal ds p =
     (let e = p - 1 in
      if -6 \<le> e \<and> e < 21 then
        (if p \<le> 0 then ''0.'' @ zeros (- p) @ ds
         else if int (length ds) \<le> p then ds @ zeros (p - int (length ds))
         else take (nat p) ds @ ''.'' @ drop (nat p) ds)
      else [hd ds] @ (if 1 < length ds then ''.'' @ tl ds else [])
        @ ''e'' @ (if 0 \<le> e then ''+'' else []) @ int_text e)"

definition rstrip_zeros :: "string \<Rightarrow> string" where
  "rstrip_zeros ds = rev (dropWhile (\<lambda>c. c = CHR ''0'') (rev ds))"

definition float_parts :: "string \<Rightarrow> json_exn + string \<times> string \<times> int" where
  "float_parts raw =
     (let mantissa = takeWhile (\<lambda>c. c \<noteq> CHR ''e'') raw; rest = dropWhile (\<lambda>c. c \<noteq> CHR ''e'') raw in
      case parse_exponent rest of
        None \<Rightarrow> Inl JsonValueError
      | Some e \<Rightarrow> Inr (takeWhile (\<lambda>c. c \<noteq> CHR ''.'') mantissa, tl (dropWhile (\<lambda>c. c \<noteq> CHR ''.'') mantissa), e))"

definition render_positive :: "string \<Rightarrow> json_exn + string" where
  "render_positive raw =
     rbind (float_parts raw) (\<lambda>(whole, fraction, e).
     let digits = whole @ fraction;
         stripped = dropWhile (\<lambda>c. c = CHR ''0'') digits;
         leading = int (length digits) - int (length stripped);
         point = int (length whole) + e - leading;
         kept = (if rstrip_zeros stripped = [] then ''0'' else rstrip_zeros stripped) in
     Inr (render_decimal kept point))"

fun serialize_float :: "(rat \<Rightarrow> string) \<Rightarrow> pyfloat \<Rightarrow> json_exn + string" where
  "serialize_float repr (Finite r) =
     (if r = 0 then Inr ''0''
      else rbind (render_positive (map lower_char (repr \<bar>r\<bar>))) (\<lambda>t. Inr (if r < 0 then CHR ''-'' # t else t)))"
| "serialize_float repr _ = Inl CanonicalJSONError"

definition max_safe_integer :: int where
  "max_safe_integer = 9007199254740991"

fun joined :: "utext list \<Rightarrow> utext" where
  "joined [] = []"
| "joined [t] = t"
| "joined (t # ts) = t @ [44] @ joined ts"

lemma rmap_cong [fundef_cong]:
  "xs = ys \<Longrightarrow> (\<And>x. x \<in> set ys \<Longrightarrow> f x = g x) \<Longrightarrow> rmap f xs = rmap g ys"
proof (induction xs arbitrary: ys)
  case Nil
  then show ?case by simp
next
  case (Cons x xs)
  then have "f x = g x" "rmap f xs = rmap g xs" by auto
  with Cons.prems(1) show ?case by (auto)
qed

definition key_text :: "utext option \<times> 'a \<Rightarrow> utext" where
  "key_text e = (case fst e of None \<Rightarrow> [] | Some k \<Rightarrow> k)"

definition sorted_entries :: "(utext option \<times> 'a) list \<Rightarrow> (utext option \<times> 'a) list" where
  "sorted_entries es = sort_key (\<lambda>e. utf16_be (key_text e)) es"

lemma set_sorted_entries [simp]: "set (sorted_entries es) = set es"
  by (simp add: sorted_entries_def)

fun serialize :: "(rat \<Rightarrow> string) \<Rightarrow> jvalue \<Rightarrow> json_exn + utext" where
  "serialize repr VNull = Inr (ucs ''null'')"
| "serialize repr (VBool b) = Inr (if b then ucs ''true'' else ucs ''false'')"
| "serialize repr (VText s) = serialize_string s"
| "serialize repr (VInt i) =
     (if max_safe_integer < \<bar>i\<bar> then Inl CanonicalJSONError else Inr (ucs (int_text i)))"
| "serialize repr (VFloat x) = rbind (serialize_float repr x) (\<lambda>t. Inr (ucs t))"
| "serialize repr (VList vs) = rbind (rmap (serialize repr) vs) (\<lambda>ts. Inr ([91] @ joined ts @ [93]))"
| "serialize repr (VDict es) =
     rbind (guard (list_all (\<lambda>e. fst e \<noteq> None) es) CanonicalJSONError) (\<lambda>_.
     rbind (rmap (\<lambda>e. utf16_sort_key (key_text e)) es) (\<lambda>_.
     rbind (rmap (\<lambda>e. rbind (serialize_string (key_text e)) (\<lambda>k.
         rbind (serialize repr (snd e)) (\<lambda>t. Inr (k @ [58] @ t)))) (sorted_entries es)) (\<lambda>ts.
     Inr ([123] @ joined ts @ [125]))))"
| "serialize repr VOther = Inl CanonicalJSONError"

definition canonical_json_bytes :: "(rat \<Rightarrow> string) \<Rightarrow> jvalue \<Rightarrow> json_exn + nat list" where
  "canonical_json_bytes repr v = rbind (serialize repr v) utf8"

section \<open>Hash identities\<close>

definition sha256_bytes :: "(nat list \<Rightarrow> utext) \<Rightarrow> nat list \<Rightarrow> utext" where
  "sha256_bytes sha b = ucs ''sha256:'' @ sha b"

definition is_sha256_identity :: "utext \<Rightarrow> bool" where
  "is_sha256_identity s \<longleftrightarrow> length s = 7 + 64 \<and> take 7 s = ucs ''sha256:''
     \<and> list_all (\<lambda>c. c \<in> set (ucs ''0123456789abcdef'')) (drop 7 s)"

definition require_sha256_identity :: "utext \<Rightarrow> json_exn + utext" where
  "require_sha256_identity s = (if is_sha256_identity s then Inr s else Inl JsonValueError)"

definition canonical_json_sha256 :: "(rat \<Rightarrow> string) \<Rightarrow> (nat list \<Rightarrow> utext) \<Rightarrow> jvalue \<Rightarrow> json_exn + utext" where
  "canonical_json_sha256 repr sha v = rbind (canonical_json_bytes repr v) (\<lambda>b. Inr (sha256_bytes sha b))"

text \<open>\<open>str.isspace\<close>, \<open>str.strip\<close>; \<open>str.upper\<close> outside ASCII is the argument \<open>up\<close>.\<close>

definition uspace :: "nat \<Rightarrow> bool" where
  "uspace c \<longleftrightarrow> (9 \<le> c \<and> c \<le> 13) \<or> (28 \<le> c \<and> c \<le> 32) \<or> c = 0x85 \<or> c = 0xA0 \<or> c = 0x1680
     \<or> (0x2000 \<le> c \<and> c \<le> 0x200A) \<or> c \<in> {0x2028, 0x2029, 0x202F, 0x205F, 0x3000}"

definition ustrip :: "utext \<Rightarrow> utext" where
  "ustrip s = rev (dropWhile uspace (rev (dropWhile uspace s)))"

definition upper_text :: "(nat \<Rightarrow> utext) \<Rightarrow> utext \<Rightarrow> utext" where
  "upper_text up s = concat (map (\<lambda>c. if 97 \<le> c \<and> c \<le> 122 then [c - 32] else if c < 128 then [c] else up c) s)"

definition normalize_http_method :: "(nat \<Rightarrow> utext) \<Rightarrow> utext \<Rightarrow> json_exn + utext" where
  "normalize_http_method up m =
     (if m = [] \<or> m \<noteq> ustrip m then Inl JsonValueError
      else let n = upper_text up m in
        if n \<noteq> [] \<and> list_all (\<lambda>c. (65 \<le> c \<and> c \<le> 90) \<or> (97 \<le> c \<and> c \<le> 122)) n then Inr n
        else Inl JsonValueError)"

definition control_char :: "nat \<Rightarrow> bool" where
  "control_char c \<longleftrightarrow> c < 32 \<or> c = 127"

fun has_empty_segment :: "utext \<Rightarrow> bool" where
  "has_empty_segment (c # d # s) = ((c = 47 \<and> d = 47) \<or> has_empty_segment (d # s))"
| "has_empty_segment _ = False"

definition normalize_route_template :: "utext \<Rightarrow> json_exn + utext" where
  "normalize_route_template r =
     (if r = [] \<or> r \<noteq> ustrip r \<or> hd r \<noteq> 47 \<or> 63 \<in> set r \<or> 35 \<in> set r
        \<or> list_ex control_char r \<or> has_empty_segment r then Inl JsonValueError
      else if 1 < length r \<and> last r = 47 then Inr (rev (dropWhile (\<lambda>c. c = 47) (rev r)))
      else Inr r)"

definition contract_version :: utext where
  "contract_version = ucs ''phase4-core/v1''"

definition local_access_scope :: utext where
  "local_access_scope = ucs ''LOCAL_SINGLE_USER''"

definition field :: "string \<Rightarrow> jvalue \<Rightarrow> utext option \<times> jvalue" where
  "field k v = (Some (ucs k), v)"

definition canonical_request_hash ::
    "(rat \<Rightarrow> string) \<Rightarrow> (nat list \<Rightarrow> utext) \<Rightarrow> (nat \<Rightarrow> utext) \<Rightarrow> utext \<Rightarrow> utext \<Rightarrow> jvalue \<Rightarrow> utext \<Rightarrow> utext
       \<Rightarrow> json_exn + utext" where
  "canonical_request_hash repr sha up m r body version scope =
     rbind (guard (version = contract_version \<and> scope = local_access_scope) JsonValueError) (\<lambda>_.
     rbind (normalize_http_method up m) (\<lambda>m'.
     rbind (normalize_route_template r) (\<lambda>r'.
     canonical_json_sha256 repr sha (VDict [field ''body'' body, field ''contract_version'' (VText version),
       field ''effective_access_scope_key'' (VText scope), field ''method'' (VText m'),
       field ''route_template'' (VText r')]))))"

definition idempotency_key_digest ::
    "(rat \<Rightarrow> string) \<Rightarrow> (nat list \<Rightarrow> utext) \<Rightarrow> (nat \<Rightarrow> utext) \<Rightarrow> utext \<Rightarrow> utext \<Rightarrow> utext \<Rightarrow> utext
       \<Rightarrow> json_exn + utext" where
  "idempotency_key_digest repr sha up key m r scope =
     rbind (guard (ustrip key \<noteq> [] \<and> \<not> list_ex control_char key \<and> scope = local_access_scope) JsonValueError) (\<lambda>_.
     rbind (normalize_http_method up m) (\<lambda>m'.
     rbind (normalize_route_template r) (\<lambda>r'.
     canonical_json_sha256 repr sha (VDict [field ''effective_access_scope_key'' (VText scope),
       field ''idempotency_key'' (VText key), field ''method'' (VText m'), field ''route_template'' (VText r')]))))"

definition draft_payload_hash :: "(rat \<Rightarrow> string) \<Rightarrow> (nat list \<Rightarrow> utext) \<Rightarrow> (utext option \<times> jvalue) list \<Rightarrow> json_exn + utext" where
  "draft_payload_hash repr sha payload =
     canonical_json_sha256 repr sha (VDict (filter (\<lambda>e. fst e \<noteq> Some (ucs ''draft_hash'')) payload))"

end
