(* ===== verification/CanonicalFacts.thy ===== *)
theory CanonicalFacts
  imports CanonicalJson
begin

text \<open>
  The text of a number in canonical JSON has the value of the number; the text of a string and the two
  encodings can be read back.
\<close>

section \<open>Numbers\<close>

lemma decimal_value_append_zeros: "decimal_value (ds @ zeros n) = decimal_value ds * 10 ^ nat n"
proof -
  have "decimal_value (ds @ replicate k (CHR ''0'')) = decimal_value ds * 10 ^ k" for k
  proof (induction k)
    case 0
    then show ?case by simp
  next
    case (Suc k)
    have "ds @ replicate (Suc k) (CHR ''0'') = (ds @ replicate k (CHR ''0'')) @ ''0''"
      by (simp add: replicate_append_same)
    then show ?case by (simp only: decimal_value_snoc Suc.IH) simp
  qed
  then show ?thesis by (simp add: zeros_def)
qed

lemma dec_rat_pos: "dec_rat (Dec False c x) = of_int c * 10 powi x"
  by (simp add: Decimals.signed_def)

text \<open>\<open>reads s q\<close>: the text \<open>s\<close> is a plain numeral of value \<open>q\<close>.\<close>

definition reads :: "string \<Rightarrow> rat \<Rightarrow> bool" where
  "reads s q \<longleftrightarrow> list_all num_char s \<and> s \<noteq> [] \<and> is_digit (hd s)
     \<and> (\<exists>c x. parse_number False s = Some (Dec False c x) \<and> of_int c * 10 powi x = q)"

lemma reads_unique: "reads s q \<Longrightarrow> reads s r \<Longrightarrow> q = r"
  by (auto simp: reads_def)

lemma reads_whole: "list_all is_digit ds \<Longrightarrow> ds \<noteq> [] \<Longrightarrow> reads ds (of_int (decimal_value ds))"
  using parse_number_whole [of ds "[]" False]
  by (auto simp: reads_def digits_num_char hd_digits exponent_tail_def parse_exponent_def intro!: exI [of _ 0])

lemma parse_exponent_lower:
  "parse_exponent (CHR ''e'' # (if 0 \<le> e then ''+'' else []) @ int_text e) = Some e"
  using decimal_digits by (auto simp: parse_exponent_def split_sign_def int_text_def Decimals.signed_def)

lemma reads_point:
  assumes "list_all is_digit w" "list_all is_digit f" "w \<noteq> []"
  shows "reads (w @ CHR ''.'' # f) (of_int (decimal_value (w @ f)) * 10 powi (- int (length f)))"
  using parse_number_point [OF assms(1,2), of "[]" False] assms
  by (auto simp: reads_def digits_num_char hd_digits exponent_tail_def parse_exponent_def num_char_def [of "CHR ''.''"])

definition exponent_text :: "int \<Rightarrow> string" where
  "exponent_text e = CHR ''e'' # (if 0 \<le> e then ''+'' else []) @ int_text e"

lemma exponent_text_facts:
  "exponent_tail (exponent_text e)" "list_all num_char (exponent_text e)" "parse_exponent (exponent_text e) = Some e"
  using int_text_num_char parse_exponent_lower by (auto simp: exponent_text_def exponent_tail_def num_char_def)

lemma reads_scientific:
  assumes "list_all is_digit ds" "ds \<noteq> []"
  shows "reads ([hd ds] @ (if 1 < length ds then ''.'' @ tl ds else []) @ exponent_text e)
    (of_int (decimal_value ds) * 10 powi (e - (int (length ds) - 1)))"
proof (cases "1 < length ds")
  case True
  obtain d t where ds: "ds = d # t" "t \<noteq> []" using True by (cases ds) auto
  have "parse_number False ([d] @ CHR ''.'' # t @ exponent_text e)
      = map_option (\<lambda>x. Dec False (decimal_value ([d] @ t)) (x - int (length t))) (Some e)"
    using parse_number_point [of "[d]" t "exponent_text e" False] assms exponent_text_facts ds by simp
  with ds assms exponent_text_facts(2) [of e] show ?thesis
    by (auto simp: reads_def digits_num_char num_char_def [of "CHR ''.''"] num_char_def [of d])
next
  case False
  then obtain d where ds: "ds = [d]" using assms(2) by (cases ds) auto
  have "parse_number False ([d] @ exponent_text e) = map_option (\<lambda>x. Dec False (decimal_value [d]) x) (Some e)"
    using parse_number_whole [of "[d]" "exponent_text e" False] assms exponent_text_facts ds by simp
  with ds assms exponent_text_facts(2) [of e] show ?thesis
    by (auto simp: reads_def num_char_def [of d])
qed

lemma powi_borrow: "(10 :: rat) powi (a + int n) = 10 powi a * 10 ^ n"
  by (simp add: power_int_add)

lemma reads_render:
  assumes "list_all is_digit ds" "ds \<noteq> []"
  shows "reads (render_decimal ds p) (of_int (decimal_value ds) * 10 powi (p - int (length ds)))"
proof -
  consider "\<not> (-6 \<le> p - 1 \<and> p - 1 < 21)" | "-6 \<le> p - 1 \<and> p - 1 < 21" "p \<le> 0"
    | "-6 \<le> p - 1 \<and> p - 1 < 21" "0 < p" "int (length ds) \<le> p"
    | "-6 \<le> p - 1 \<and> p - 1 < 21" "0 < p" "p < int (length ds)" by linarith
  then show ?thesis
  proof cases
    case 1
    then have "render_decimal ds p = [hd ds] @ (if 1 < length ds then ''.'' @ tl ds else []) @ exponent_text (p - 1)"
      unfolding render_decimal_def Let_def exponent_text_def by (simp only: if_False) simp
    with reads_scientific [OF assms, of "p - 1"] show ?thesis by (simp add: algebra_simps)
  next
    case 2
    then have t: "render_decimal ds p = ''0'' @ CHR ''.'' # (zeros (- p) @ ds)"
      by (simp add: render_decimal_def Let_def)
    have "int (length (zeros (- p) @ ds)) = - (p - int (length ds))" using 2 by (simp add: length_zeros)
    moreover have "decimal_value (''0'' @ zeros (- p) @ ds) = decimal_value ds" by simp
    ultimately show ?thesis
      using reads_point [of "''0''" "zeros (- p) @ ds"] assms unfolding t
      by (simp only: list_all_append digits_zeros list.pred_inject zero_digit) simp
  next
    case 3
    then have t: "render_decimal ds p = ds @ zeros (p - int (length ds))"
      by (simp add: render_decimal_def Let_def)
    have "(10 :: rat) powi (p - int (length ds)) = 10 ^ nat (p - int (length ds))"
      using 3 by (simp add: power_int_def)
    with reads_whole [of "ds @ zeros (p - int (length ds))"] assms show ?thesis
      unfolding t by (simp add: decimal_value_append_zeros)
  next
    case 4
    then have t: "render_decimal ds p = take (nat p) ds @ CHR ''.'' # drop (nat p) ds"
      by (simp add: render_decimal_def Let_def)
    have "take (nat p) ds \<noteq> []" "- int (length (drop (nat p) ds)) = p - int (length ds)"
      using 4 assms by (auto simp: of_nat_diff)
    with reads_point [of "take (nat p) ds" "drop (nat p) ds"] take_digits [OF assms(1), of "nat p"]
    show ?thesis unfolding t by simp
  qed
qed

section \<open>Floats\<close>

text \<open>
  The documented shape of \<open>repr\<close> of a positive float: digits, perhaps a fraction, perhaps an
  exponent with \<open>e\<close>.
\<close>

definition float_exponent :: "string \<Rightarrow> bool" where
  "float_exponent t \<longleftrightarrow> t = [] \<or> (\<exists>s ds. t = CHR ''e'' # s @ ds \<and> s \<in> {[], ''+'', ''-''} \<and> list_all is_digit ds \<and> ds \<noteq> [])"

definition float_repr :: "string \<Rightarrow> bool" where
  "float_repr raw \<longleftrightarrow> (\<exists>w f t. list_all is_digit w \<and> w \<noteq> [] \<and> list_all is_digit f \<and> float_exponent t
     \<and> (raw = w @ t \<and> f = [] \<or> raw = w @ CHR ''.'' # f @ t) \<and> 0 < decimal_value (w @ f))"

definition printed :: "string \<Rightarrow> rat" where
  "printed raw = (case parse_number False raw of Some d \<Rightarrow> dec_rat d | None \<Rightarrow> 0)"

lemma lower_digits: "list_all is_digit w \<Longrightarrow> map lower_char w = w"
  by (induction w) (auto simp: lower_digit)

lemma float_exponent_facts:
  assumes "float_exponent t"
  obtains x where "parse_exponent t = Some x" "exponent_tail t" "map lower_char t = t"
proof (cases "t = []")
  case True
  then show ?thesis by (intro that) (simp_all add: parse_exponent_def exponent_tail_def)
next
  case False
  then obtain s ds where t: "t = CHR ''e'' # s @ ds" "s \<in> {[], ''+'', ''-''}" "list_all is_digit ds" "ds \<noteq> []"
    using assms by (auto simp: float_exponent_def)
  have "split_sign (s @ ds) = (s = ''-'', ds)"
    using t(2) t(4) hd_digits [OF t(3,4)] by (cases ds) (auto simp: split_sign_def)
  then have "parse_exponent t = Some (Decimals.signed (s = ''-'') (decimal_value ds))"
    using t by (auto simp: parse_exponent_def)
  moreover have "map lower_char ds = ds" by (rule lower_digits [OF t(3)])
  moreover have "lower_char (CHR ''e'') = CHR ''e''" "map lower_char s = s"
    using t(2) by (auto simp: lower_char_def Let_def)
  ultimately show ?thesis using t(1) by (intro that) (simp_all add: exponent_tail_def)
qed

lemma takeWhile_until:
  assumes "list_all (\<lambda>c. c \<noteq> x) w"
  shows "takeWhile (\<lambda>c. c \<noteq> x) (w @ x # r) = w" "dropWhile (\<lambda>c. c \<noteq> x) (w @ x # r) = x # r"
    "takeWhile (\<lambda>c. c \<noteq> x) w = w" "dropWhile (\<lambda>c. c \<noteq> x) w = []"
  using assms by (induction w) auto

lemma digits_no: "list_all is_digit w \<Longrightarrow> \<not> is_digit x \<Longrightarrow> list_all (\<lambda>c. c \<noteq> x) w"
  by (auto simp: list_all_iff)

lemma float_parts_of:
  assumes "list_all is_digit w" "list_all is_digit f" "float_exponent t" "parse_exponent t = Some e"
    and "raw = w @ t \<and> f = [] \<or> raw = w @ CHR ''.'' # f @ t"
  shows "float_parts raw = Inr (w, f, e)"
proof -
  have noe: "list_all (\<lambda>c. c \<noteq> CHR ''e'') w" "list_all (\<lambda>c. c \<noteq> CHR ''e'') f"
    using digits_no [OF assms(1)] digits_no [OF assms(2)] by simp_all
  have nod: "list_all (\<lambda>c. c \<noteq> CHR ''.'') w" using digits_no [OF assms(1)] by simp
  define m where "m = (if raw = w @ t \<and> f = [] then w else w @ CHR ''.'' # f)"
  have raw: "raw = m @ t" using assms(5) by (auto simp: m_def)
  have m: "list_all (\<lambda>c. c \<noteq> CHR ''e'') m" using noe by (simp add: m_def)
  have split: "takeWhile (\<lambda>c. c \<noteq> CHR ''e'') raw = m" "dropWhile (\<lambda>c. c \<noteq> CHR ''e'') raw = t"
  proof -
    consider "t = []" | r where "t = CHR ''e'' # r" using assms(3) by (auto simp: float_exponent_def)
    then show "takeWhile (\<lambda>c. c \<noteq> CHR ''e'') raw = m" "dropWhile (\<lambda>c. c \<noteq> CHR ''e'') raw = t"
      by (cases; use takeWhile_until [OF m] raw in simp)+
  qed
  have "takeWhile (\<lambda>c. c \<noteq> CHR ''.'') m = w" "tl (dropWhile (\<lambda>c. c \<noteq> CHR ''.'') m) = f"
    unfolding m_def by (simp_all only: takeWhile_until [OF nod] list.sel split: if_split) auto
  then show ?thesis by (simp add: float_parts_def Let_def split assms(4))
qed

lemma stripped_value:
  assumes "list_all is_digit ds" "0 < decimal_value ds"
  defines "s \<equiv> dropWhile (\<lambda>c. c = CHR ''0'') ds"
  shows "rstrip_zeros s \<noteq> []" "list_all is_digit (rstrip_zeros s)"
    "of_int (decimal_value (rstrip_zeros s)) * (10::rat) powi (int (length s) - int (length (rstrip_zeros s))) = of_int (decimal_value ds)"
proof -
  have lead: "decimal_value (dropWhile (\<lambda>c. c = CHR ''0'') xs) = decimal_value xs" for xs
    by (induction xs) auto
  have s: "list_all is_digit s" "decimal_value s = decimal_value ds"
    using assms(1) lead by (auto simp: s_def list_all_iff dest: set_dropWhileD)
  define z where "z = takeWhile (\<lambda>c. c = CHR ''0'') (rev s)"
  have z: "z = replicate (length z) (CHR ''0'')"
    unfolding z_def by (metis (full_types) replicate_length_same set_takeWhileD)
  have split: "s = rstrip_zeros s @ rev z"
    unfolding rstrip_zeros_def z_def by (metis rev_append rev_rev_ident takeWhile_dropWhile_id)
  then have "s = rstrip_zeros s @ zeros (int (length z))"
    using z by (metis nat_int rev_replicate zeros_def)
  then have v: "decimal_value s = decimal_value (rstrip_zeros s) * 10 ^ length z"
    by (metis decimal_value_append_zeros nat_int)
  have len: "int (length s) - int (length (rstrip_zeros s)) = int (length z)"
    using arg_cong [OF split, of length] by simp
  show "rstrip_zeros s \<noteq> []" using v s(2) assms(2) by auto
  show "list_all is_digit (rstrip_zeros s)" using s(1) split by (metis list_all_append)
  show "of_int (decimal_value (rstrip_zeros s)) * (10::rat) powi (int (length s) - int (length (rstrip_zeros s))) = of_int (decimal_value ds)"
    unfolding len using v s(2) by simp
qed

lemma reads_render_positive:
  assumes "float_repr raw"
  obtains t where "render_positive (map lower_char raw) = Inr t" "reads t (printed raw)"
proof -
  obtain w f t where w: "list_all is_digit w" "w \<noteq> []" "list_all is_digit f" "float_exponent t"
    and raw: "raw = w @ t \<and> f = [] \<or> raw = w @ CHR ''.'' # f @ t" and pos: "0 < decimal_value (w @ f)"
    using assms by (auto simp: float_repr_def)
  obtain e where e: "parse_exponent t = Some e" "exponent_tail t" "map lower_char t = t"
    using float_exponent_facts [OF w(4)] .
  have low: "map lower_char raw = raw"
    using raw e(3) lower_digits [OF w(1)] lower_digits [OF w(3)]
    by (auto simp: lower_char_def [of "CHR ''.''"] Let_def)
  define s where "s = dropWhile (\<lambda>c. c = CHR ''0'') (w @ f)"
  define k where "k = rstrip_zeros s"
  have ds: "list_all is_digit (w @ f)" using w by simp
  note st = stripped_value [OF ds pos, folded s_def k_def]
  define p where "p = int (length w) + e - (int (length (w @ f)) - int (length s))"
  have "render_positive raw = Inr (render_decimal k p)"
    using float_parts_of [OF w(1,3,4) e(1) raw] st(1)
    by (simp add: render_positive_def Let_def s_def [symmetric] k_def [symmetric] p_def)
  moreover have "printed raw = of_int (decimal_value (w @ f)) * 10 powi (e - int (length f))"
  proof (cases "raw = w @ t \<and> f = []")
    case True
    with parse_number_whole [OF w(1,2) e(2)] e(1) show ?thesis by (simp add: printed_def Decimals.signed_def)
  next
    case False
    with raw have "raw = w @ CHR ''.'' # f @ t" by blast
    with parse_number_point [OF w(1,3) _ e(2), of False] w(2) e(1) show ?thesis by (simp add: printed_def Decimals.signed_def)
  qed
  moreover have "of_int (decimal_value k) * 10 powi (p - int (length k)) = of_int (decimal_value (w @ f)) * (10::rat) powi (e - int (length f))"
  proof -
    have "p - int (length k) = (int (length s) - int (length k)) + (e - int (length f))" by (simp add: p_def)
    moreover have "(10::rat) powi ((int (length s) - int (length k)) + (e - int (length f)))
        = 10 powi (int (length s) - int (length k)) * 10 powi (e - int (length f))"
      by (rule power_int_add) simp
    ultimately have "(10::rat) powi (p - int (length k)) = 10 powi (int (length s) - int (length k)) * 10 powi (e - int (length f))"
      by (simp only:)
    with st(3) show ?thesis by (simp add: mult.assoc [symmetric])
  qed
  ultimately show ?thesis
    using that [of "render_decimal k p"] reads_render [OF st(2,1), of p] low by simp
qed

section \<open>The number text of a value\<close>

definition number_reads :: "string \<Rightarrow> rat \<Rightarrow> bool" where
  "number_reads s q \<longleftrightarrow> reads s q \<or> (\<exists>t. s = CHR ''-'' # t \<and> reads t (- q))"

lemma number_reads_unique: "number_reads s q \<Longrightarrow> number_reads s r \<Longrightarrow> q = r"
proof -
  have "\<not> is_digit (hd s)" if "\<exists>t. s = CHR ''-'' # t" using that by auto
  moreover assume "number_reads s q" "number_reads s r"
  ultimately show ?thesis
    using reads_unique unfolding number_reads_def by (metis list.inject neg_equal_iff_equal reads_def)
qed

lemma number_reads_int: "number_reads (int_text i) (of_int i)"
proof (cases "i < 0")
  case True
  have "reads (decimal (nat (- i))) (of_int (decimal_value (decimal (nat (- i)))))"
    by (rule reads_whole) (simp_all add: decimal_digits)
  with True show ?thesis by (simp add: number_reads_def int_text_def)
next
  case False
  have "reads (decimal (nat i)) (of_int (decimal_value (decimal (nat i))))"
    by (rule reads_whole) (simp_all add: decimal_digits)
  with False show ?thesis by (simp add: number_reads_def int_text_def)
qed

definition float_value :: "(rat \<Rightarrow> string) \<Rightarrow> rat \<Rightarrow> rat" where
  "float_value repr r = (if r = 0 then 0 else if r < 0 then - printed (repr (- r)) else printed (repr r))"

lemma number_reads_float:
  assumes "\<And>x. 0 < x \<Longrightarrow> float_repr (repr x)" and "serialize_float repr (Finite r) = Inr t"
  shows "number_reads t (float_value repr r)"
proof (cases "r = 0")
  case True
  with assms(2) reads_whole [of "''0''"] show ?thesis by (auto simp: number_reads_def float_value_def decimal_value_def)
next
  case False
  then obtain u where u: "render_positive (map lower_char (repr \<bar>r\<bar>)) = Inr u" "reads u (printed (repr \<bar>r\<bar>))"
    using reads_render_positive [OF assms(1) [of "\<bar>r\<bar>"]] by auto
  with False assms(2) show ?thesis
    by (cases "r < 0") (auto simp: number_reads_def float_value_def)
qed

lemma number_reads_chars:
  assumes "number_reads s q"
  shows "list_all num_char s" "s \<noteq> []" "hd s = CHR ''-'' \<or> is_digit (hd s)"
  using assms by (auto simp: number_reads_def reads_def num_char_def [of "CHR ''-''"])

section \<open>Strings\<close>

lemma inj_ucs: "ucs s = ucs t \<Longrightarrow> s = t"
  unfolding ucs_def by (rule map_injective) (auto intro!: injI)

text \<open>Reading one escaped character.\<close>

lemma escape_char_ne: "escape_char c \<noteq> []" "hd (escape_char c) \<noteq> 34"
  by (auto simp: escape_char_def)

definition unhex :: "nat \<Rightarrow> nat" where
  "unhex n = (if n < 58 then n - 48 else n - 87)"

lemma unhex_hex: "n < 16 \<Longrightarrow> unhex (hex_digit n) = n"
  by (simp add: unhex_def hex_digit_def)

definition unescape :: "nat list \<Rightarrow> nat \<times> nat list" where
  "unescape t = (if hd t \<noteq> 92 then (hd t, tl t)
     else if t ! 1 = 117 then (16 * unhex (t ! 4) + unhex (t ! 5), drop 6 t)
     else (if t ! 1 = 98 then 8 else if t ! 1 = 116 then 9 else if t ! 1 = 110 then 10 else if t ! 1 = 102 then 12
           else if t ! 1 = 114 then 13 else t ! 1, drop 2 t))"

lemma unescape_escape: "unescape (escape_char c @ r) = (c, r)"
proof -
  consider "c = 8" | "c = 9" | "c = 10" | "c = 12" | "c = 13" | "c = 34" | "c = 92"
    | (hex) "c < 32" "c \<notin> {8, 9, 10, 12, 13}" | (plain) "32 \<le> c" "c \<noteq> 34" "c \<noteq> 92" by fastforce
  then show ?thesis
  proof cases
    case hex
    then have e: "escape_char c = [92, 117, 48, 48, hex_digit (c div 16), hex_digit (c mod 16)]"
      by (simp add: escape_char_def)
    have "unhex (hex_digit (c div 16)) = c div 16" "unhex (hex_digit (c mod 16)) = c mod 16"
      using hex by (simp_all add: unhex_hex)
    then show ?thesis by (simp add: e unescape_def)
  next
    case plain
    then have "escape_char c = [c]" by (simp add: escape_char_def)
    with plain show ?thesis by (simp add: unescape_def)
  qed (simp_all add: escape_char_def unescape_def)
qed

lemma escape_char_read: "escape_char c @ r = escape_char d @ s \<Longrightarrow> c = d \<and> r = s"
  by (metis unescape_escape prod.inject)

definition escaped :: "utext \<Rightarrow> utext" where
  "escaped s = concat (map escape_char s) @ [34]"

lemma escaped_read: "escaped s @ r = escaped t @ u \<Longrightarrow> s = t \<and> r = u"
proof (induction s arbitrary: t)
  case Nil
  show ?case
  proof (cases t)
    case Nil
    with Nil.prems show ?thesis by (simp add: escaped_def)
  next
    case (Cons d t')
    with Nil.prems escape_char_ne [of d] show ?thesis by (cases "escape_char d") (simp_all add: escaped_def)
  qed
next
  case (Cons c s)
  show ?case
  proof (cases t)
    case Nil
    with Cons.prems escape_char_ne [of c] show ?thesis by (cases "escape_char c") (simp_all add: escaped_def)
  next
    case (Cons d t')
    have "escape_char c @ (escaped s @ r) = escape_char d @ (escaped t' @ u)"
      using Cons.prems Cons by (simp add: escaped_def)
    from escape_char_read [OF this] Cons.IH [of t'] Cons show ?thesis by simp
  qed
qed

lemma serialize_string_eq: "serialize_string s = Inr t \<Longrightarrow> t = [34] @ escaped s"
  by (auto simp: serialize_string_def rbind_Inr_iff escaped_def)

section \<open>UTF-8 and UTF-16\<close>

definition unutf8 :: "nat list \<Rightarrow> nat \<times> nat list" where
  "unutf8 b = (if hd b < 0x80 then (hd b, tl b)
     else if hd b < 0xE0 then (64 * (hd b - 0xC0) + (b ! 1 - 0x80), drop 2 b)
     else if hd b < 0xF0 then (4096 * (hd b - 0xE0) + 64 * (b ! 1 - 0x80) + (b ! 2 - 0x80), drop 3 b)
     else (262144 * (hd b - 0xF0) + 4096 * (b ! 1 - 0x80) + 64 * (b ! 2 - 0x80) + (b ! 3 - 0x80), drop 4 b))"

lemma unutf8_char: "unutf8 (utf8_char c @ r) = (c, r)"
proof -
  have two: "64 * (c div 64) + c mod 64 = c" by simp
  have three: "4096 * (c div 4096) + 64 * (c div 64 mod 64) + c mod 64 = c"
  proof -
    have "c div 64 = 64 * (c div 64 div 64) + c div 64 mod 64" by simp
    then have "c div 64 = 64 * (c div 4096) + c div 64 mod 64" by (simp add: div_mult2_eq [symmetric])
    with two show ?thesis by linarith
  qed
  have four: "262144 * (c div 262144) + 4096 * (c div 4096 mod 64) + 64 * (c div 64 mod 64) + c mod 64 = c"
  proof -
    have "c div 4096 = 64 * (c div 4096 div 64) + c div 4096 mod 64" by simp
    then have "c div 4096 = 64 * (c div 262144) + c div 4096 mod 64" by (simp add: div_mult2_eq [symmetric])
    with three show ?thesis by linarith
  qed
  consider "c < 0x80" | "0x80 \<le> c \<and> c < 0x800" | "0x800 \<le> c \<and> c < 0x10000" | "0x10000 \<le> c" by linarith
  then show ?thesis
  proof cases
    case 1
    then show ?thesis by (simp add: utf8_char_def unutf8_def)
  next
    case 2
    then have "c div 64 < 32" by (simp add: less_mult_imp_div_less)
    with 2 two show ?thesis by (simp add: utf8_char_def unutf8_def)
  next
    case 3
    then have "c div 4096 < 16" by (simp add: less_mult_imp_div_less)
    with 3 three show ?thesis by (simp add: utf8_char_def unutf8_def)
  next
    case 4
    with four show ?thesis by (simp add: utf8_char_def unutf8_def)
  qed
qed

lemma utf8_char_ne: "utf8_char c \<noteq> []"
  by (simp add: utf8_char_def)

lemma concat_read:
  assumes "\<And>c r. P c \<Longrightarrow> dec (enc c @ r) = (c, r)" and "\<And>c. enc c \<noteq> []"
  shows "concat (map enc s) = concat (map enc t) \<Longrightarrow> list_all P s \<Longrightarrow> list_all P t \<Longrightarrow> s = t"
proof (induction s arbitrary: t)
  case Nil
  with assms(2) show ?case by (cases t) auto
next
  case (Cons c s)
  show ?case
  proof (cases t)
    case Nil
    with Cons.prems assms(2) show ?thesis by simp
  next
    case (Cons d t')
    with Cons.prems have eq: "enc c @ concat (map enc s) = enc d @ concat (map enc t')" "P c" "P d" by simp_all
    then have "(c, concat (map enc s)) = (d, concat (map enc t'))" using assms(1) by metis
    with Cons.IH [of t'] Cons Cons.prems show ?thesis by simp
  qed
qed

lemma utf8_inj: "utf8 s = Inr b \<Longrightarrow> utf8 t = Inr b \<Longrightarrow> s = t"
  by (rule concat_read [of "\<lambda>_. True" unutf8 utf8_char, OF unutf8_char utf8_char_ne])
    (auto simp: utf8_def list_all_iff split: if_splits)

definition unutf16 :: "nat list \<Rightarrow> nat \<times> nat list" where
  "unutf16 b = (let u = 256 * hd b + b ! 1 in
     if 0xD800 \<le> u \<and> u < 0xDC00 then (0x10000 + 1024 * (u - 0xD800) + (256 * b ! 2 + b ! 3 - 0xDC00), drop 4 b)
     else (u, drop 2 b))"

definition scalar :: "nat \<Rightarrow> bool" where
  "scalar c \<longleftrightarrow> c < 0x110000 \<and> \<not> surrogate c"

lemma unutf16_char: "scalar c \<Longrightarrow> unutf16 (utf16_char c @ r) = (c, r)"
proof -
  assume c: "scalar c"
  show ?thesis
  proof (cases "c < 0x10000")
    case True
    have "256 * (c div 256) + c mod 256 = c" by simp
    with c True show ?thesis by (auto simp: utf16_char_def unutf16_def scalar_def surrogate_def Let_def)
  next
    case False
    define hi where "hi = 0xD800 + (c - 0x10000) div 1024"
    define lo where "lo = 0xDC00 + (c - 0x10000) mod 1024"
    have "c - 0x10000 < 0x100000" using c False by (auto simp: scalar_def)
    then have hi: "0xD800 \<le> hi" "hi < 0xDC00" by (auto simp: hi_def less_mult_imp_div_less)
    have "1024 * (hi - 0xD800) + (lo - 0xDC00) = c - 0x10000" by (simp add: hi_def lo_def)
    then have total: "0x10000 + 1024 * (hi - 0xD800) + (lo - 0xDC00) = c" using False by simp
    have e: "utf16_char c = [hi div 256, hi mod 256, lo div 256, lo mod 256]"
      using False by (simp add: utf16_char_def hi_def lo_def Let_def)
    have "256 * (hi div 256) + hi mod 256 = hi" "256 * (lo div 256) + lo mod 256 = lo" by simp_all
    with hi total show ?thesis by (simp add: e unutf16_def Let_def)
  qed
qed

lemma utf16_inj: "utf16_be s = utf16_be t \<Longrightarrow> list_all scalar s \<Longrightarrow> list_all scalar t \<Longrightarrow> s = t"
  unfolding utf16_be_def
  by (rule concat_read [of scalar unutf16 utf16_char, OF unutf16_char])
    (auto simp: utf16_char_def Let_def)

end
