(* ===== verification/CanonicalBinding.thy ===== *)
theory CanonicalBinding
  imports CanonicalFacts
begin

text \<open>
  Canonical JSON identifies a value: equal bytes mean equal values (a float is known by the number that
  \<open>repr\<close> prints), and the order in which a dict was filled does not matter. Hence the hashes of requests and
  idempotency keys bind what they were computed from, up to collisions of SHA-256.
\<close>

section \<open>Equal values\<close>

fun number_value :: "(rat \<Rightarrow> string) \<Rightarrow> jvalue \<Rightarrow> rat option" where
  "number_value repr (VInt i) = Some (of_int i)"
| "number_value repr (VFloat (Finite r)) = Some (float_value repr r)"
| "number_value repr _ = None"

inductive json_same :: "(rat \<Rightarrow> string) \<Rightarrow> jvalue \<Rightarrow> jvalue \<Rightarrow> bool" for repr where
  same_null: "json_same repr VNull VNull"
| same_bool: "json_same repr (VBool b) (VBool b)"
| same_text: "json_same repr (VText s) (VText s)"
| same_number: "number_value repr v = Some q \<Longrightarrow> number_value repr w = Some q \<Longrightarrow> json_same repr v w"
| same_list: "list_all2 (json_same repr) vs ws \<Longrightarrow> json_same repr (VList vs) (VList ws)"
| same_dict: "length es = length fs
    \<Longrightarrow> (\<And>k v. (k, v) \<in> set es \<Longrightarrow> \<exists>w. (k, w) \<in> set fs \<and> json_same repr v w)
    \<Longrightarrow> (\<And>k w. (k, w) \<in> set fs \<Longrightarrow> \<exists>v. (k, v) \<in> set es \<and> json_same repr v w)
    \<Longrightarrow> json_same repr (VDict es) (VDict fs)"

inductive_cases json_same_textE: "json_same repr (VText s) w"
inductive_cases json_same_dictE: "json_same repr (VDict es) w"
inductive_cases json_same_intE: "json_same repr (VInt i) w"

definition repr_law :: "(rat \<Rightarrow> string) \<Rightarrow> bool" where
  "repr_law repr \<longleftrightarrow> (\<forall>x>0. float_repr (repr x))"

section \<open>Reading canonical text\<close>

definition stops :: "utext \<Rightarrow> bool" where
  "stops r \<longleftrightarrow> r = [] \<or> hd r \<in> {44, 93, 125}"

definition number_code :: "nat \<Rightarrow> bool" where
  "number_code c \<longleftrightarrow> (48 \<le> c \<and> c \<le> 57) \<or> c \<in> {43, 45, 46, 69, 101}"

lemma number_code_char: "num_char c \<Longrightarrow> number_code (of_char c)"
  by (auto simp: num_char_def number_code_def is_digit_def)

lemma number_text_read:
  assumes "list_all num_char a" "list_all num_char b" "ucs a @ r = ucs b @ s" "stops r" "stops s"
  shows "a = b \<and> r = s"
proof -
  have tw: "takeWhile number_code (ucs x @ y) = ucs x" if "list_all num_char x" "stops y" for x y
  proof -
    have "takeWhile number_code y = []"
      using that(2) by (cases y) (auto simp: stops_def number_code_def)
    moreover have "\<forall>c\<in>set (ucs x). number_code c"
      using that(1) by (auto simp: ucs_def list_all_iff number_code_char)
    ultimately show ?thesis by (simp add: takeWhile_append2)
  qed
  have "ucs a = ucs b" using tw [OF assms(1,4)] tw [OF assms(2,5)] assms(3) by metis
  with assms(3) show ?thesis by (auto dest: inj_ucs)
qed

lemma joined_Cons: "joined (t # ts) = t @ (if ts = [] then [] else 44 # joined ts)"
  by (cases ts) simp_all

lemma joined_read:
  assumes item: "\<And>x a y b r s. x \<in> set xs \<Longrightarrow> f x = Inr a \<Longrightarrow> f y = Inr b \<Longrightarrow> a @ r = b @ s
      \<Longrightarrow> stops r \<Longrightarrow> stops s \<Longrightarrow> R x y \<and> a = b \<and> r = s"
    and ne: "\<And>x a. f x = Inr a \<Longrightarrow> a \<noteq> [] \<and> hd a \<noteq> c" and c: "c \<in> {93, 125}"
  shows "rmap f xs = Inr ts \<Longrightarrow> rmap f ys = Inr us \<Longrightarrow> joined ts @ c # r = joined us @ c # s
    \<Longrightarrow> list_all2 R xs ys \<and> r = s"
  using item
proof (induction xs arbitrary: ys ts us)
  case Nil
  show ?case
  proof (cases ys)
    case Nil
    with Nil.prems show ?thesis by simp
  next
    case (Cons y ys')
    with Nil.prems obtain u us' where "f y = Inr u" "us = u # us'" by (auto simp: rbind_Inr_iff)
    with Nil.prems ne [of y u] show ?thesis by (cases u) (auto simp: joined_Cons)
  qed
next
  case (Cons x xs)
  obtain t ts' where t: "f x = Inr t" "rmap f xs = Inr ts'" "ts = t # ts'"
    using Cons.prems(1) by (auto simp: rbind_Inr_iff)
  show ?case
  proof (cases ys)
    case Nil
    with Cons.prems t ne [of x t] show ?thesis by (cases t) (auto simp: joined_Cons)
  next
    case (Cons y ys')
    with Cons.prems(2) obtain u us' where u: "f y = Inr u" "rmap f ys' = Inr us'" "us = u # us'"
      by (auto simp: rbind_Inr_iff)
    define p where "p = (if ts' = [] then [] else 44 # joined ts') @ c # r"
    define q where "q = (if us' = [] then [] else 44 # joined us') @ c # s"
    have eq: "t @ p = u @ q" using Cons.prems(3) t(3) u(3) by (simp add: joined_Cons p_def q_def)
    have st: "stops p" "stops q" using c by (auto simp: p_def q_def stops_def)
    from Cons.prems(4) [OF _ t(1) u(1) eq st] have R: "R x y" and pq: "p = q" by auto
    have "list_all2 R xs ys' \<and> r = s"
    proof (cases "ts' = [] \<or> us' = []")
      case True
      with pq c have "ts' = []" "us' = []" "r = s" by (auto simp: p_def q_def split: if_splits)
      moreover from this have "xs = []" "ys' = []" using t(2) u(2) by (auto simp: rmap_Inr_iff)
      ultimately show ?thesis by simp
    next
      case False
      with pq have "joined ts' @ c # r = joined us' @ c # s" by (simp add: p_def q_def)
      moreover have "\<And>x a y b r s. x \<in> set xs \<Longrightarrow> f x = Inr a \<Longrightarrow> f y = Inr b \<Longrightarrow> a @ r = b @ s
          \<Longrightarrow> stops r \<Longrightarrow> stops s \<Longrightarrow> R x y \<and> a = b \<and> r = s"
        by (rule Cons.prems(4)) simp_all
      ultimately show ?thesis by (rule Cons.IH [OF t(2) u(2)])
    qed
    with R Cons show ?thesis by simp
  qed
qed

fun kind :: "jvalue \<Rightarrow> nat" where
  "kind VNull = 0"
| "kind (VBool b) = (if b then 1 else 2)"
| "kind (VText s) = 3"
| "kind (VInt i) = 4"
| "kind (VFloat x) = 4"
| "kind (VList vs) = 5"
| "kind (VDict es) = 6"
| "kind VOther = 7"

definition code_kind :: "nat \<Rightarrow> nat" where
  "code_kind c = (if c = 110 then 0 else if c = 116 then 1 else if c = 102 then 2 else if c = 34 then 3
     else if c = 91 then 5 else if c = 123 then 6 else 4)"

lemma number_serialized:
  assumes "repr_law repr" "kind v = 4" "serialize repr v = Inr a"
  shows "\<exists>s q. a = ucs s \<and> number_value repr v = Some q \<and> number_reads s q"
proof (cases v)
  case (VInt i)
  with assms(3) number_reads_int [of i] show ?thesis by (auto split: if_splits)
next
  case (VFloat x)
  with assms(3) obtain t where t: "serialize_float repr x = Inr t" "a = ucs t" by (auto simp: rbind_Inr_iff)
  then obtain r where r: "x = Finite r" by (cases x) auto
  have "number_reads t (float_value repr r)"
    using number_reads_float [of repr r t] assms(1) t(1) by (simp add: repr_law_def r)
  with VFloat r t show ?thesis by auto
qed (use assms in \<open>auto split: if_splits\<close>)

lemma serialize_hd:
  assumes "repr_law repr" "serialize repr v = Inr a"
  shows "a \<noteq> [] \<and> code_kind (hd a) = kind v \<and> hd a \<notin> {93, 125, 44}"
proof (cases "kind v = 4")
  case True
  from number_serialized [OF assms(1) True assms(2)] obtain s q where s: "a = ucs s" "number_reads s q" by blast
  from number_reads_chars [OF s(2)] obtain c t where c: "s = c # t" "c = CHR ''-'' \<or> is_digit c" by (cases s) auto
  then show ?thesis using True s(1) by (auto simp: ucs_def code_kind_def is_digit_def)
next
  case False
  with assms(2) show ?thesis
    by (cases v) (auto simp: code_kind_def ucs_def rbind_Inr_iff dest!: serialize_string_eq split: if_splits)
qed

definition entry_same :: "(rat \<Rightarrow> string) \<Rightarrow> utext option \<times> jvalue \<Rightarrow> utext option \<times> jvalue \<Rightarrow> bool" where
  "entry_same repr e f \<longleftrightarrow> key_text e = key_text f \<and> json_same repr (snd e) (snd f)"

definition entry_text :: "(rat \<Rightarrow> string) \<Rightarrow> utext option \<times> jvalue \<Rightarrow> json_exn + utext" where
  "entry_text repr e = rbind (serialize_string (key_text e)) (\<lambda>k.
     rbind (serialize repr (snd e)) (\<lambda>t. Inr (k @ [58] @ t)))"

lemma serialize_dict:
  "serialize repr (VDict es) = Inr a \<longleftrightarrow> list_all (\<lambda>e. fst e \<noteq> None) es
     \<and> list_all (\<lambda>e. list_all (\<lambda>c. \<not> surrogate c) (key_text e)) es
     \<and> (\<exists>ts. rmap (entry_text repr) (sorted_entries es) = Inr ts \<and> a = [123] @ joined ts @ [125])"
proof -
  have "(\<exists>ks. rmap (\<lambda>e. utf16_sort_key (key_text e)) es = Inr ks) \<longleftrightarrow> list_all (\<lambda>e. list_all (\<lambda>c. \<not> surrogate c) (key_text e)) es"
    by (induction es) (auto simp: rbind_Inr_iff utf16_sort_key_def split: if_splits)
  then show ?thesis by (auto simp: rbind_Inr_iff guard_Inr_iff entry_text_def [abs_def])
qed

lemma list_all2_entries:
  assumes "list_all2 (entry_same repr) xs ys" "list_all (\<lambda>e. fst e \<noteq> None) xs" "list_all (\<lambda>e. fst e \<noteq> None) ys"
  shows "length xs = length ys
    \<and> (\<forall>k v. (k, v) \<in> set xs \<longrightarrow> (\<exists>w. (k, w) \<in> set ys \<and> json_same repr v w))
    \<and> (\<forall>k w. (k, w) \<in> set ys \<longrightarrow> (\<exists>v. (k, v) \<in> set xs \<and> json_same repr v w))"
  using assms
proof (induction rule: list_all2_induct)
  case Nil
  then show ?case by simp
next
  case (Cons x xs y ys)
  obtain k v l w where xy: "x = (k, v)" "y = (l, w)" by (cases x; cases y) auto
  then have "k = l" "json_same repr v w" using Cons by (auto simp: entry_same_def key_text_def split: option.splits)
  with Cons xy show ?case by (auto; blast)
qed

lemma number_read:
  assumes "repr_law repr" "kind v = 4" "serialize repr v = Inr a" "serialize repr w = Inr b" "a @ r = b @ s"
    "stops r" "stops s"
  shows "json_same repr v w \<and> a = b \<and> r = s"
proof -
  have "kind w = 4"
    using serialize_hd [OF assms(1,3)] serialize_hd [OF assms(1,4)] assms(2,5) by (metis append_is_Nil_conv hd_append2)
  from number_serialized [OF assms(1,2,3)] number_serialized [OF assms(1) this assms(4)]
  obtain x q y p where x: "a = ucs x" "number_value repr v = Some q" "number_reads x q"
    and y: "b = ucs y" "number_value repr w = Some p" "number_reads y p" by blast
  have "x = y \<and> r = s"
    using number_text_read [OF number_reads_chars(1) [OF x(3)] number_reads_chars(1) [OF y(3)]] assms(5-7) x(1) y(1) by simp
  with x y number_reads_unique [of x q p] show ?thesis by (auto intro: same_number)
qed

lemma serialize_read:
  assumes "repr_law repr"
  shows "serialize repr v = Inr a \<Longrightarrow> serialize repr w = Inr b \<Longrightarrow> a @ r = b @ s \<Longrightarrow> stops r \<Longrightarrow> stops s
    \<Longrightarrow> json_same repr v w \<and> a = b \<and> r = s"
proof (induction v arbitrary: w a b r s)
  case (VList vs)
  from serialize_hd [OF assms VList.prems(1)] serialize_hd [OF assms VList.prems(2)] VList.prems(3)
  have "kind w = 5" by (metis append_is_Nil_conv hd_append2 kind.simps(6))
  then obtain ws where w: "w = VList ws" by (cases w) (auto split: if_splits)
  obtain ts us where t: "rmap (serialize repr) vs = Inr ts" "a = [91] @ joined ts @ [93]"
    and u: "rmap (serialize repr) ws = Inr us" "b = [91] @ joined us @ [93]"
    using VList.prems(1,2) by (auto simp: w rbind_Inr_iff)
  have eq: "joined ts @ 93 # r = joined us @ 93 # s" using VList.prems(3) t(2) u(2) by simp
  have ne: "\<And>x a. serialize repr x = Inr a \<Longrightarrow> a \<noteq> [] \<and> hd a \<noteq> 93" using serialize_hd [OF assms] by auto
  have "list_all2 (json_same repr) vs ws \<and> r = s"
    by (rule joined_read [where f = "serialize repr" and c = 93, OF _ ne _ t(1) u(1) eq]) (auto dest: VList.IH)
  then show ?case using t u VList.prems(3) w by (auto intro: same_list)
next
  case (VDict es)
  from serialize_hd [OF assms VDict.prems(1)] serialize_hd [OF assms VDict.prems(2)] VDict.prems(3)
  have "kind w = 6" by (metis append_is_Nil_conv hd_append2 kind.simps(7))
  then obtain fs where w: "w = VDict fs" by (cases w) (auto split: if_splits)
  obtain ts us where keys: "list_all (\<lambda>e. fst e \<noteq> None) es" "list_all (\<lambda>e. fst e \<noteq> None) fs"
    and t: "rmap (entry_text repr) (sorted_entries es) = Inr ts" "a = [123] @ joined ts @ [125]"
    and u: "rmap (entry_text repr) (sorted_entries fs) = Inr us" "b = [123] @ joined us @ [125]"
    using VDict.prems(1,2) unfolding w serialize_dict by blast
  have eq: "joined ts @ 125 # r = joined us @ 125 # s" using VDict.prems(3) t(2) u(2) by simp
  have ne: "\<And>x a. entry_text repr x = Inr a \<Longrightarrow> a \<noteq> [] \<and> hd a \<noteq> 125"
    by (auto simp: entry_text_def rbind_Inr_iff dest!: serialize_string_eq)
  have item: "entry_same repr x y \<and> a = b \<and> r = s"
    if "x \<in> set (sorted_entries es)" and a: "entry_text repr x = Inr a" and b: "entry_text repr y = Inr b"
      and ab: "a @ r = b @ s" and st: "stops r" "stops s" for x a y b r s
  proof -
    obtain k p where k: "k = [34] @ escaped (key_text x)" "serialize repr (snd x) = Inr p" "a = k @ [58] @ p"
      using a by (auto simp: entry_text_def rbind_Inr_iff dest!: serialize_string_eq)
    obtain l q where l: "l = [34] @ escaped (key_text y)" "serialize repr (snd y) = Inr q" "b = l @ [58] @ q"
      using b by (auto simp: entry_text_def rbind_Inr_iff dest!: serialize_string_eq)
    have "escaped (key_text x) @ 58 # p @ r = escaped (key_text y) @ 58 # q @ s" using ab k l by simp
    from escaped_read [OF this] have key: "key_text x = key_text y" and pq: "p @ r = q @ s" by auto
    have "x \<in> set es" using that(1) by simp
    moreover have "snd x \<in> Basic_BNFs.snds x" by (cases x) simp
    ultimately have "json_same repr (snd x) (snd y) \<and> p = q \<and> r = s"
      using VDict.IH k(2) l(2) pq st by blast
    with key k l show ?thesis by (simp add: entry_same_def)
  qed
  have all: "list_all2 (entry_same repr) (sorted_entries es) (sorted_entries fs) \<and> r = s"
    by (rule joined_read [where f = "entry_text repr" and c = 125, OF item ne _ t(1) u(1) eq]) auto
  have "json_same repr (VDict es) (VDict fs)"
  proof (rule same_dict)
    have "length (sorted_entries es) = length (sorted_entries fs)" using all by (auto dest: list_all2_lengthD)
    then show "length es = length fs" by (simp add: sorted_entries_def)
  qed (use list_all2_entries [of repr "sorted_entries es" "sorted_entries fs"] all keys in \<open>auto simp: list_all_iff\<close>)
  with all t u VDict.prems(3) w show ?case by auto
next
  case (VText t)
  from serialize_hd [OF assms VText.prems(1)] serialize_hd [OF assms VText.prems(2)] VText.prems(3)
  have "kind w = 3" by (metis append_is_Nil_conv hd_append2 kind.simps(3))
  then obtain u where w: "w = VText u" by (cases w) (auto split: if_splits)
  have "a = [34] @ escaped t" "b = [34] @ escaped u" using VText.prems(1,2) w by (auto dest!: serialize_string_eq)
  with VText.prems(3) escaped_read [of t r u s] show ?case by (auto simp: w intro: same_text)
next
  case (VInt i)
  then show ?case using number_read [OF assms _ VInt.prems] by simp
next
  case (VFloat x)
  then show ?case using number_read [OF assms _ VFloat.prems] by simp
next
  case VNull
  from serialize_hd [OF assms VNull.prems(1)] serialize_hd [OF assms VNull.prems(2)] VNull.prems(3)
  have "kind w = 0" by (metis append_is_Nil_conv hd_append2 kind.simps(1))
  then have "w = VNull" by (cases w) (auto split: if_splits)
  with VNull.prems show ?case by (auto intro: same_null)
next
  case (VBool c)
  from serialize_hd [OF assms VBool.prems(1)] serialize_hd [OF assms VBool.prems(2)] VBool.prems(3)
  have "kind w = kind (VBool c)" by (metis append_is_Nil_conv hd_append2)
  then have "w = VBool c" by (cases w) (auto split: if_splits)
  with VBool.prems show ?case by (auto intro: same_bool split: if_splits)
qed simp

lemma bytes_same:
  assumes "repr_law repr" "canonical_json_bytes repr v = Inr b" "canonical_json_bytes repr w = Inr b"
  shows "json_same repr v w"
proof -
  obtain t u where "serialize repr v = Inr t" "utf8 t = Inr b" "serialize repr w = Inr u" "utf8 u = Inr b"
    using assms(2,3) by (auto simp: canonical_json_bytes_def rbind_Inr_iff)
  moreover from this have "t = u" by (auto dest: utf8_inj)
  ultimately show ?thesis using serialize_read [OF assms(1), of v t w t "[]" "[]"] by (simp add: stops_def)
qed

section \<open>The order of entries\<close>

text \<open>\<open>json_reorder\<close>: the entries of dicts may be permuted, at any depth.\<close>

inductive json_reorder :: "jvalue \<Rightarrow> jvalue \<Rightarrow> bool" where
  reorder_refl: "json_reorder v v"
| reorder_list: "list_all2 json_reorder vs ws \<Longrightarrow> json_reorder (VList vs) (VList ws)"
| reorder_dict: "list_all2 (\<lambda>e g. fst e = fst g \<and> json_reorder (snd e) (snd g)) es gs \<Longrightarrow> mset gs = mset fs
    \<Longrightarrow> json_reorder (VDict es) (VDict fs)"

text \<open>The keys of a Python dict are distinct, and a code point is below \<open>0x110000\<close>.\<close>

fun json_wf :: "jvalue \<Rightarrow> bool" where
  "json_wf (VList vs) \<longleftrightarrow> list_all json_wf vs"
| "json_wf (VDict es) \<longleftrightarrow> distinct (map fst es) \<and> list_all (\<lambda>e. list_all (\<lambda>c. c < 0x110000) (key_text e)) es
     \<and> list_all (\<lambda>e. json_wf (snd e)) es"
| "json_wf v \<longleftrightarrow> True"

lemma insort_key_map: "insort_key f (g x) (map g xs) = map g (insort_key (\<lambda>y. f (g y)) x xs)"
  by (induction xs) simp_all

lemma sort_key_map: "sort_key f (map g xs) = map g (sort_key (\<lambda>y. f (g y)) xs)"
  by (induction xs) (simp_all add: insort_key_map)

lemma insort_key_cong: "\<forall>y\<in>insert x (set ys). f y = g y \<Longrightarrow> insort_key f x ys = insort_key g x ys"
  by (induction ys) auto

lemma sort_key_cong: "\<forall>y\<in>set ys. f y = g y \<Longrightarrow> sort_key f ys = sort_key g ys"
  by (induction ys) (auto intro!: insort_key_cong)

lemma sort_key_pairs:
  assumes "list_all2 Q xs ys" and "\<And>x y. Q x y \<Longrightarrow> f x = f y"
  shows "list_all2 Q (sort_key f xs) (sort_key f ys)"
proof -
  define ps where "ps = zip xs ys"
  have ps: "xs = map fst ps" "ys = map snd ps" and Q: "\<forall>p\<in>set ps. Q (fst p) (snd p)"
    using assms(1) by (auto simp: ps_def list_all2_iff)
  have "sort_key (\<lambda>p. f (fst p)) ps = sort_key (\<lambda>p. f (snd p)) ps"
    by (rule sort_key_cong) (use Q assms(2) in auto)
  then show ?thesis unfolding ps sort_key_map using Q
    by (simp add: list_all2_map1 list_all2_map2 list_all2_same)
qed

lemma rmap_list_all2:
  "list_all2 Q xs ys \<Longrightarrow> rmap f xs = Inr ts \<Longrightarrow> (\<And>x y t. x \<in> set xs \<Longrightarrow> Q x y \<Longrightarrow> f x = Inr t \<Longrightarrow> f y = Inr t) \<Longrightarrow> rmap f ys = Inr ts"
proof (induction arbitrary: ts rule: list_all2_induct)
  case Nil
  then show ?case by simp
next
  case (Cons x xs y ys)
  obtain t us where t: "f x = Inr t" "rmap f xs = Inr us" "ts = t # us"
    using Cons.prems(1) by (auto simp: rbind_Inr_iff)
  have "f y = Inr t" by (rule Cons.prems(2) [OF _ Cons.hyps(1) t(1)]) simp
  moreover have "rmap f ys = Inr us" by (rule Cons.IH [OF t(2)]) (rule Cons.prems(2), simp_all)
  ultimately show ?case using t(3) by simp
qed

lemma serialize_reorder: "json_reorder v w \<Longrightarrow> json_wf v \<Longrightarrow> serialize repr v = Inr t \<Longrightarrow> serialize repr w = Inr t"
proof (induction arbitrary: t rule: json_reorder.induct)
  case (reorder_refl v)
  then show ?case by simp
next
  case (reorder_list vs ws)
  obtain ts where ts: "rmap (serialize repr) vs = Inr ts" "t = [91] @ joined ts @ [93]"
    using reorder_list.prems by (auto simp: rbind_Inr_iff)
  have "rmap (serialize repr) ws = Inr ts"
    by (rule rmap_list_all2 [OF reorder_list.IH ts(1)]) (use reorder_list.prems(1) in \<open>auto simp: list_all_iff\<close>)
  with ts(2) show ?case by simp
next
  case (reorder_dict es gs fs)
  let ?f = "\<lambda>e. utf16_be (key_text (e :: utext option \<times> jvalue))"
  have keys: "map fst es = map fst gs"
    by (rule nth_equalityI) (use reorder_dict.IH in \<open>auto simp: list_all2_conv_all_nth\<close>)
  obtain ts where some: "list_all (\<lambda>e. fst e \<noteq> None) es"
    and nosur: "list_all (\<lambda>e. list_all (\<lambda>c. \<not> surrogate c) (key_text e)) es"
    and ts: "rmap (entry_text repr) (sorted_entries es) = Inr ts" "t = [123] @ joined ts @ [125]"
    using reorder_dict.prems(2) unfolding serialize_dict by blast
  have set_keys: "fst ` set gs = fst ` set es" "fst ` set fs = fst ` set es"
    using keys mset_eq_setD [OF reorder_dict.hyps(1)] by (metis set_map)+
  have inherit: "list_all (\<lambda>e. P (fst e)) xs" if "fst ` set xs = fst ` set es" "list_all (\<lambda>e. P (fst e)) es"
    for P and xs :: "(utext option \<times> jvalue) list"
    using that by (metis (no_types, lifting) imageE image_eqI list_all_iff)
  have kt: "key_text e = key_text (fst e, ())" for e :: "utext option \<times> jvalue" by (simp add: key_text_def)
  have "list_all2 (\<lambda>e g. fst e = fst g \<and> json_reorder (snd e) (snd g) \<and>
      (\<forall>t. json_wf (snd e) \<longrightarrow> serialize repr (snd e) = Inr t \<longrightarrow> serialize repr (snd g) = Inr t)) es gs"
    by (rule list_all2_mono [OF reorder_dict.IH]) blast
  then have sorted: "list_all2 (\<lambda>e g. fst e = fst g \<and> json_reorder (snd e) (snd g) \<and>
      (\<forall>t. json_wf (snd e) \<longrightarrow> serialize repr (snd e) = Inr t \<longrightarrow> serialize repr (snd g) = Inr t))
      (sorted_entries es) (sorted_entries gs)"
    unfolding sorted_entries_def by (rule sort_key_pairs) (simp add: key_text_def)
  have step: "rmap (entry_text repr) (sorted_entries gs) = Inr ts"
  proof (rule rmap_list_all2 [OF sorted ts(1)])
    fix x y t
    assume x: "x \<in> set (sorted_entries es)" and xy: "fst x = fst y \<and> json_reorder (snd x) (snd y) \<and>
        (\<forall>t. json_wf (snd x) \<longrightarrow> serialize repr (snd x) = Inr t \<longrightarrow> serialize repr (snd y) = Inr t)"
      and t: "entry_text repr x = Inr t"
    have "json_wf (snd x)" using x reorder_dict.prems(1) by (simp add: list_all_iff)
    moreover have "key_text x = key_text y" using xy by (simp add: key_text_def)
    ultimately show "entry_text repr y = Inr t" using xy t by (auto simp: entry_text_def rbind_Inr_iff)
  qed
  have inj: "inj_on ?f (set gs)"
  proof (rule inj_onI)
    fix x y assume xy: "x \<in> set gs" "y \<in> set gs" "?f x = ?f y"
    have "list_all scalar (key_text e)" if "e \<in> set gs" for e
    proof -
      have "fst e \<in> fst ` set es" using that set_keys(1) by blast
      then obtain e' where e': "e' \<in> set es" "fst e' = fst e" by (auto simp: image_iff)
      then have "key_text e' = key_text e" by (simp add: key_text_def)
      with e' nosur reorder_dict.prems(1) show ?thesis by (auto simp: list_all_iff scalar_def)
    qed
    with xy utf16_inj have "key_text x = key_text y" by blast
    moreover have "fst x \<noteq> None" "fst y \<noteq> None"
      using inherit [of gs "\<lambda>k. k \<noteq> None"] set_keys(1) some xy by (auto simp: list_all_iff)
    ultimately have "fst x = fst y" by (auto simp: key_text_def)
    moreover have "distinct (map fst gs)" using reorder_dict.prems(1) keys by simp
    ultimately show "x = y" using xy by (metis distinct_map inj_on_eq_iff)
  qed
  have "sort_key ?f gs = sort_key ?f fs"
    by (rule sort_key_inj_key_eq) (use inj reorder_dict.hyps(1) in auto)
  then have same: "sorted_entries fs = sorted_entries gs" by (simp add: sorted_entries_def)
  have "list_all (\<lambda>e. fst e \<noteq> None) fs" by (rule inherit [OF set_keys(2) some])
  moreover have "list_all (\<lambda>e. list_all (\<lambda>c. \<not> surrogate c) (key_text e)) fs"
    using inherit [OF set_keys(2), of "\<lambda>k. list_all (\<lambda>c. \<not> surrogate c) (key_text (k, ()))"] nosur kt by simp
  ultimately show ?case unfolding serialize_dict same using step ts(2) by blast
qed

end
