(* ===== verification/HashIdentity.thy ===== *)
theory HashIdentity
  imports CanonicalBinding
begin

text \<open>
  What the identities of \<open>phase4_product/hashing.py\<close> mean: the properties of canonical JSON, of the request
  hash and of the digest of an idempotency key. A collision of SHA-256 is the only way out.
\<close>

definition collision :: "(nat list \<Rightarrow> utext) \<Rightarrow> bool" where
  "collision sha \<longleftrightarrow> (\<exists>x y. x \<noteq> y \<and> sha x = sha y)"

lemma hash_same:
  assumes "repr_law repr" "canonical_json_sha256 repr sha v = Inr h" "canonical_json_sha256 repr sha w = Inr h"
    "\<not> collision sha"
  shows "json_same repr v w"
proof -
  obtain b c where "canonical_json_bytes repr v = Inr b" "canonical_json_bytes repr w = Inr c" "sha b = sha c"
    using assms(2,3) by (auto simp: canonical_json_sha256_def rbind_Inr_iff sha256_bytes_def)
  moreover from this assms(4) have "b = c" unfolding collision_def by blast
  ultimately show ?thesis using bytes_same [OF assms(1), of v b w] by simp
qed

lemma json_same_text: "json_same repr (VText s) w \<Longrightarrow> w = VText s"
  by (erule json_same_textE) auto

lemma json_same_entry:
  assumes "json_same repr (VDict es) (VDict fs)" "(k, v) \<in> set es"
  obtains w where "(k, w) \<in> set fs" "json_same repr v w"
  using assms(1)
proof (cases rule: json_same.cases)
  case same_dict
  with assms(2) that show ?thesis by blast
qed simp_all

lemma request_hash_parts:
  assumes "canonical_request_hash repr sha up m r body ver scope = Inr h"
  obtains m' r' where "normalize_http_method up m = Inr m'" "normalize_route_template r = Inr r'"
    "ver = contract_version" "scope = local_access_scope"
    "canonical_json_sha256 repr sha (VDict [field ''body'' body, field ''contract_version'' (VText ver),
       field ''effective_access_scope_key'' (VText scope), field ''method'' (VText m'),
       field ''route_template'' (VText r')]) = Inr h"
  using assms by (auto simp: canonical_request_hash_def rbind_Inr_iff guard_Inr_iff)

lemma key_digest_parts:
  assumes "idempotency_key_digest repr sha up key m r scope = Inr h"
  obtains m' r' where "normalize_http_method up m = Inr m'" "normalize_route_template r = Inr r'"
    "canonical_json_sha256 repr sha (VDict [field ''effective_access_scope_key'' (VText scope),
       field ''idempotency_key'' (VText key), field ''method'' (VText m'), field ''route_template'' (VText r')]) = Inr h"
  using assms by (auto simp: idempotency_key_digest_def rbind_Inr_iff guard_Inr_iff)

lemma field_keys [simp]:
  "ucs ''body'' \<noteq> ucs ''contract_version''" "ucs ''body'' \<noteq> ucs ''effective_access_scope_key''"
  "ucs ''body'' \<noteq> ucs ''method''" "ucs ''body'' \<noteq> ucs ''route_template''"
  "ucs ''method'' \<noteq> ucs ''body''" "ucs ''method'' \<noteq> ucs ''contract_version''"
  "ucs ''method'' \<noteq> ucs ''effective_access_scope_key''" "ucs ''method'' \<noteq> ucs ''route_template''"
  "ucs ''method'' \<noteq> ucs ''idempotency_key''"
  "ucs ''route_template'' \<noteq> ucs ''body''" "ucs ''route_template'' \<noteq> ucs ''contract_version''"
  "ucs ''route_template'' \<noteq> ucs ''effective_access_scope_key''" "ucs ''route_template'' \<noteq> ucs ''method''"
  "ucs ''route_template'' \<noteq> ucs ''idempotency_key''"
  "ucs ''idempotency_key'' \<noteq> ucs ''effective_access_scope_key''" "ucs ''idempotency_key'' \<noteq> ucs ''method''"
  "ucs ''idempotency_key'' \<noteq> ucs ''route_template''"
  by (simp_all add: ucs_def)

lemma request_hash_inj:
  assumes "repr_law repr" "\<not> collision sha"
    and "canonical_request_hash repr sha up m r body ver scope = Inr h"
    and "canonical_request_hash repr sha up n s other ver' scope' = Inr h"
  shows "normalize_http_method up m = normalize_http_method up n
    \<and> normalize_route_template r = normalize_route_template s \<and> json_same repr body other"
proof -
  from assms(3) obtain m' r' where 1: "normalize_http_method up m = Inr m'" "normalize_route_template r = Inr r'"
    "canonical_json_sha256 repr sha (VDict [field ''body'' body, field ''contract_version'' (VText ver),
       field ''effective_access_scope_key'' (VText scope), field ''method'' (VText m'),
       field ''route_template'' (VText r')]) = Inr h"
    by (rule request_hash_parts)
  from assms(4) obtain n' s' where 2: "normalize_http_method up n = Inr n'" "normalize_route_template s = Inr s'"
    "canonical_json_sha256 repr sha (VDict [field ''body'' other, field ''contract_version'' (VText ver'),
       field ''effective_access_scope_key'' (VText scope'), field ''method'' (VText n'),
       field ''route_template'' (VText s')]) = Inr h"
    by (rule request_hash_parts)
  note same = hash_same [OF assms(1) 1(3) 2(3) assms(2)]
  have "json_same repr body other"
    by (rule json_same_entry [OF same, of "Some (ucs ''body'')" body]) (auto simp: field_def)
  moreover have "VText m' = VText n'"
    by (rule json_same_entry [OF same, of "Some (ucs ''method'')" "VText m'"]) (auto simp: field_def dest: json_same_text)
  moreover have "VText r' = VText s'"
    by (rule json_same_entry [OF same, of "Some (ucs ''route_template'')" "VText r'"])
      (auto simp: field_def dest: json_same_text)
  ultimately show ?thesis using 1 2 by simp
qed

lemma key_digest_inj:
  assumes "repr_law repr" "\<not> collision sha"
    and "idempotency_key_digest repr sha up key m r scope = Inr h"
    and "idempotency_key_digest repr sha up key' n s scope' = Inr h"
  shows "key = key' \<and> normalize_http_method up m = normalize_http_method up n
    \<and> normalize_route_template r = normalize_route_template s"
proof -
  from assms(3) obtain m' r' where 1: "normalize_http_method up m = Inr m'" "normalize_route_template r = Inr r'"
    "canonical_json_sha256 repr sha (VDict [field ''effective_access_scope_key'' (VText scope),
       field ''idempotency_key'' (VText key), field ''method'' (VText m'), field ''route_template'' (VText r')]) = Inr h"
    by (rule key_digest_parts)
  from assms(4) obtain n' s' where 2: "normalize_http_method up n = Inr n'" "normalize_route_template s = Inr s'"
    "canonical_json_sha256 repr sha (VDict [field ''effective_access_scope_key'' (VText scope'),
       field ''idempotency_key'' (VText key'), field ''method'' (VText n'), field ''route_template'' (VText s')]) = Inr h"
    by (rule key_digest_parts)
  note same = hash_same [OF assms(1) 1(3) 2(3) assms(2)]
  have "VText key = VText key'"
    by (rule json_same_entry [OF same, of "Some (ucs ''idempotency_key'')" "VText key"])
      (auto simp: field_def dest: json_same_text)
  moreover have "VText m' = VText n'"
    by (rule json_same_entry [OF same, of "Some (ucs ''method'')" "VText m'"]) (auto simp: field_def dest: json_same_text)
  moreover have "VText r' = VText s'"
    by (rule json_same_entry [OF same, of "Some (ucs ''route_template'')" "VText r'"])
      (auto simp: field_def dest: json_same_text)
  ultimately show ?thesis using 1 2 by simp
qed

section \<open>Witnesses\<close>

definition half_repr :: "rat \<Rightarrow> string" where
  "half_repr r = ''0.5''"

lemma half_repr_law: "repr_law half_repr"
proof -
  have "float_repr ''0.5''"
    unfolding float_repr_def
    by (rule exI [of _ "''0''"], rule exI [of _ "''5''"], rule exI [of _ "[]"])
      (simp add: is_digit_def float_exponent_def decimal_value_def)
  then show ?thesis by (simp add: repr_law_def half_repr_def)
qed

definition doc_1 :: jvalue where
  "doc_1 = VDict [(Some (ucs ''b''), VList [VInt 12, VBool True]), (Some [8364], VText [34, 233, 10])]"

definition doc_2 :: jvalue where
  "doc_2 = VDict [(Some [8364], VText [34, 233, 10]), (Some (ucs ''b''), VList [VInt 12, VBool True])]"

definition doc_bytes :: "nat list" where
  "doc_bytes = [123, 34, 98, 34, 58, 91, 49, 50, 44, 116, 114, 117, 101, 93, 44, 34, 226, 130, 172, 34, 58, 34, 92, 34,
     195, 169, 92, 110, 34, 125]"

lemmas serialize_eval = canonical_json_bytes_def serialize_string_def sorted_entries_def key_text_def utf16_be_def utf16_char_def
  utf16_sort_key_def surrogate_def utf8_def utf8_char_def escape_char_def ucs_def int_text_def max_safe_integer_def

lemma doc_1_bytes: "canonical_json_bytes half_repr doc_1 = Inr doc_bytes"
  by (simp add: serialize_eval doc_1_def doc_bytes_def ResumeCursor.decimal.simps [of 12] ResumeCursor.decimal.simps [of "Suc 0"] digit_char_def)

lemma doc_1_wf: "json_wf doc_1"
  by (simp add: doc_1_def key_text_def ucs_def)

lemma doc_2_bytes: "canonical_json_bytes half_repr doc_2 = Inr doc_bytes"
  by (simp add: serialize_eval doc_2_def doc_bytes_def ResumeCursor.decimal.simps [of 12] ResumeCursor.decimal.simps [of "Suc 0"] digit_char_def)

section \<open>Properties\<close>

text \<open>
  C5. Canonical JSON is injective: two values with the same canonical bytes are the same value, where dicts are
  compared as maps and numbers by the number they print. So an identity that is a hash of the bytes
  never stands for two different requests or drafts, unless SHA-256 collides.
\<close>

theorem canonical_json_injective:
  assumes "repr_law repr" and "canonical_json_bytes repr v = Inr b" and "canonical_json_bytes repr w = Inr b"
  shows "json_same repr v w"
  using assms by (rule bytes_same)

theorem canonical_json_injective_witness: "json_same half_repr doc_1 doc_2"
  by (rule canonical_json_injective [OF half_repr_law doc_1_bytes doc_2_bytes])

text \<open>
  Canonical JSON is canonical: the order in which the dicts of a value were filled, at any depth, does not
  change the bytes.
\<close>

theorem canonical_json_order:
  assumes "json_reorder v w" and "json_wf v" and "canonical_json_bytes repr v = Inr b"
  shows "canonical_json_bytes repr w = Inr b"
proof -
  obtain t where "serialize repr v = Inr t" "utf8 t = Inr b"
    using assms(3) by (auto simp: canonical_json_bytes_def rbind_Inr_iff)
  with serialize_reorder [OF assms(1,2)] show ?thesis by (simp add: canonical_json_bytes_def)
qed

theorem canonical_json_order_witness: "canonical_json_bytes half_repr doc_2 = Inr doc_bytes"
proof (rule canonical_json_order [OF _ doc_1_wf doc_1_bytes])
  show "json_reorder doc_1 doc_2"
    unfolding doc_1_def doc_2_def
    by (rule reorder_dict [of _ "[(Some (ucs ''b''), VList [VInt 12, VBool True]), (Some [8364], VText [34, 233, 10])]"])
      (auto intro: reorder_refl)
qed

text \<open>
  C22. A request hash binds the request: equal hashes mean the same method, the same route and the same body, or
  SHA-256 has a collision; and the digest under which an outcome is stored binds the exact
  idempotency key, method and route in the same way.
\<close>

theorem request_identity_binds:
  assumes "repr_law repr"
    and "canonical_request_hash repr sha up m r body ver scope = Inr h"
    and "canonical_request_hash repr sha up n s other ver scope = Inr h"
    and "idempotency_key_digest repr sha up key m r scope = Inr d"
    and "idempotency_key_digest repr sha up key' n s scope = Inr d"
  shows "collision sha \<or> (key = key' \<and> normalize_http_method up m = normalize_http_method up n
    \<and> normalize_route_template r = normalize_route_template s \<and> json_same repr body other)"
  using request_hash_inj [OF assms(1) _ assms(2,3)] key_digest_inj [OF assms(1) _ assms(4,5)] by blast

definition plain_sha :: "nat list \<Rightarrow> utext" where
  "plain_sha b = b"

lemma post_normalized:
  "normalize_http_method (\<lambda>c. [c]) (ucs ''post'') = Inr (ucs ''POST'')"
  "normalize_http_method (\<lambda>c. [c]) (ucs ''POST'') = Inr (ucs ''POST'')"
  "normalize_route_template (ucs ''/api/objects/'') = Inr (ucs ''/api/objects'')"
  "normalize_route_template (ucs ''/api/objects'') = Inr (ucs ''/api/objects'')"
  by (simp_all add: normalize_http_method_def normalize_route_template_def ucs_def ustrip_def uspace_def upper_text_def
      control_char_def Let_def)

lemma post_scope: "ustrip (ucs ''K-1'') \<noteq> [] \<and> \<not> list_ex control_char (ucs ''K-1'')"
  by (simp add: ucs_def ustrip_def uspace_def control_char_def)

lemma request_dict_ok: "is_ok (canonical_json_sha256 half_repr plain_sha (VDict [field ''body'' (VInt 7),
    field ''contract_version'' (VText contract_version), field ''effective_access_scope_key'' (VText local_access_scope),
    field ''method'' (VText (ucs ''POST'')), field ''route_template'' (VText (ucs ''/api/objects''))]))"
  by (simp add: canonical_json_sha256_def serialize_eval field_def contract_version_def local_access_scope_def
      ResumeCursor.decimal.simps [of 7] digit_char_def)

lemma key_dict_ok: "is_ok (canonical_json_sha256 half_repr plain_sha (VDict [
    field ''effective_access_scope_key'' (VText local_access_scope), field ''idempotency_key'' (VText (ucs ''K-1'')),
    field ''method'' (VText (ucs ''POST'')), field ''route_template'' (VText (ucs ''/api/objects''))]))"
  by (simp add: canonical_json_sha256_def serialize_eval field_def local_access_scope_def)

theorem request_identity_binds_witness:
  "normalize_http_method (\<lambda>c. [c]) (ucs ''post'') = normalize_http_method (\<lambda>c. [c]) (ucs ''POST'')
   \<and> json_same half_repr (VInt 7) (VInt 7)"
proof -
  let ?up = "\<lambda>c :: nat. [c]"
  obtain h where "canonical_request_hash half_repr plain_sha ?up (ucs ''post'') (ucs ''/api/objects/'') (VInt 7)
      contract_version local_access_scope = Inr h"
    "canonical_request_hash half_repr plain_sha ?up (ucs ''POST'') (ucs ''/api/objects'') (VInt 7)
      contract_version local_access_scope = Inr h"
    using request_dict_ok by (auto simp: canonical_request_hash_def post_normalized is_ok_iff)
  moreover obtain d where
    "idempotency_key_digest half_repr plain_sha ?up (ucs ''K-1'') (ucs ''post'') (ucs ''/api/objects/'') local_access_scope = Inr d"
    "idempotency_key_digest half_repr plain_sha ?up (ucs ''K-1'') (ucs ''POST'') (ucs ''/api/objects'') local_access_scope = Inr d"
    using key_dict_ok post_scope by (auto simp: idempotency_key_digest_def post_normalized is_ok_iff)
  moreover have "\<not> collision plain_sha" by (simp add: collision_def plain_sha_def)
  ultimately show ?thesis using request_identity_binds [OF half_repr_law] by blast
qed

end
