(* ===== verification/RuntimeBindings.thy ===== *)
theory RuntimeBindings
  imports RuntimeStates
begin

text \<open>
  \<open>agentic/runtime_bindings.py\<close>: which planned graphs the registered agents can execute. The registry of
  \<open>agentic/registry.py\<close> is the list of its agents with the task types they support.
\<close>

type_synonym agent_registry = "(string \<times> string list) list"

definition skill_task_types :: "string \<Rightarrow> string list" where
  "skill_task_types skill =
     (case map_of
        [(''evidence_collection_v1'', [''evidence_collection'']),
         (''fundamental_analysis_v1'', [''fundamental_analysis'']),
         (''peer_analysis_v1'', [''peer_analysis'']),
         (''research_news_analysis_v1'', [''research_news_analysis'']),
         (''valuation_analysis_v1'', [''valuation_analysis'']),
         (''risk_analysis_v1'', [''risk_analysis'']),
         (''report_synthesis_v1'', [''report_synthesis'', ''quality_review''])] skill of
        None \<Rightarrow> []
      | Some ts \<Rightarrow> ts)"

definition native_planning_task_types :: "string list" where
  "native_planning_task_types = skill_task_types ''evidence_collection_v1''"

definition task_bound :: "agent_registry \<Rightarrow> string \<Rightarrow> string list \<Rightarrow> task \<Rightarrow> bool" where
  "task_bound registry run_id known t =
     (case map_of registry (t_assigned_agent t) of
        None \<Rightarrow> False
      | Some supported \<Rightarrow>
          t_task_type t \<in> set (supported @ native_planning_task_types)
          \<and> t_task_type t \<in> set (skill_task_types (t_skill_id t))
          \<and> t_run_id t = run_id
          \<and> take (length run_id + 1) (t_task_id t) = run_id @ '':''
          \<and> set (t_dependencies t) \<subseteq> set known)"

text \<open>
  The loop collects the tasks whose dependencies are resolved, until a round adds none (an error) or
  all are resolved.
\<close>

definition ready_keys :: "(string \<Rightarrow> string list) \<Rightarrow> string list \<Rightarrow> string list \<Rightarrow> string list" where
  "ready_keys deps keys resolved =
     filter (\<lambda>k. k \<notin> set resolved \<and> set (deps k) \<subseteq> set resolved) keys"

function resolve_layers :: "(string \<Rightarrow> string list) \<Rightarrow> string list \<Rightarrow> string list \<Rightarrow> bool" where
  "resolve_layers deps keys resolved =
     (if length resolved < length keys then
        (let ready = ready_keys deps keys resolved in
         if ready = [] then False else resolve_layers deps keys (resolved @ ready))
      else True)"
  by pat_completeness auto
termination
  by (relation "measure (\<lambda>(deps, keys, resolved). length keys - length resolved)")
    (auto intro!: diff_less_mono2)

declare resolve_layers.simps [simp del]

definition validate_graph_runtime_bindings ::
    "planned_task_graph \<Rightarrow> agent_registry \<Rightarrow> string list option \<Rightarrow> bool" where
  "validate_graph_runtime_bindings g registry skills \<longleftrightarrow>
     (let ts = g_tasks g; known = task_ids ts in
      ts \<noteq> [] \<and> distinct known
      \<and> list_all (task_bound registry (g_run_id g) known) ts
      \<and> resolve_layers (task_deps ts) known []
      \<and> (case skills of None \<Rightarrow> True | Some required \<Rightarrow> set required \<subseteq> set (map t_skill_id ts)))"

section \<open>The loop decides acyclicity\<close>

lemma resolve_layers_acyclic:
  assumes "resolve_layers deps keys resolved" and "distinct keys" and "distinct resolved"
    and "set resolved \<subseteq> set keys"
  shows "acyclic (dep_rel deps (set keys - set resolved))"
  using assms
proof (induction deps keys resolved rule: resolve_layers.induct)
  case (1 deps keys resolved)
  show ?case
  proof (cases "length resolved < length keys")
    case False
    have "set resolved = set keys"
    proof (rule card_subset_eq)
      show "card (set resolved) = card (set keys)"
        using False 1(3,4) card_mono [OF _ 1(5)] distinct_card [of resolved] distinct_card [of keys] by simp
    qed (use 1 in auto)
    then show ?thesis by (simp add: dep_rel_def acyclic_def)
  next
    case True
    define ready where "ready = ready_keys deps keys resolved"
    have ready: "ready \<noteq> []" "resolve_layers deps keys (resolved @ ready)"
      using 1(2) True by (auto simp: resolve_layers.simps [of deps keys resolved] Let_def ready_def split: if_splits)
    have facts: "distinct (resolved @ ready)" "set (resolved @ ready) \<subseteq> set keys"
      using 1(3-5) by (auto simp: ready_def ready_keys_def)
    have ac: "acyclic (dep_rel deps (set keys - set (resolved @ ready)))"
      by (rule 1(1) [OF True ready_def ready 1(3) facts])
    have "acyclic (dep_rel deps (set keys - set resolved))"
    proof (rule acyclic_extend_layer [where L = "set ready"])
      show "acyclic (dep_rel deps (set keys - set resolved - set ready))"
        using ac by (simp add: Diff_eq Int_assoc Compl_Un)
      show "set (deps x) \<inter> (set keys - set resolved) = {}" if "x \<in> set ready" for x
        using that by (auto simp: ready_def ready_keys_def)
    qed
    then show ?thesis .
  qed
qed

lemma bindings_facts:
  assumes "validate_graph_runtime_bindings g registry skills"
  shows "g_tasks g \<noteq> []" and "graph_wf (g_tasks g)" and "list_all (\<lambda>t. t_run_id t = g_run_id g) (g_tasks g)"
proof -
  let ?k = "task_ids (g_tasks g)"
  have b: "list_all (task_bound registry (g_run_id g) ?k) (g_tasks g)" and d: "distinct ?k"
    and r: "resolve_layers (task_deps (g_tasks g)) ?k []" and "g_tasks g \<noteq> []"
    using assms by (simp_all add: validate_graph_runtime_bindings_def Let_def)
  then show "g_tasks g \<noteq> []" by simp
  have t: "t_run_id t = g_run_id g \<and> set (t_dependencies t) \<subseteq> set ?k" if "t \<in> set (g_tasks g)" for t
    using b that by (auto simp: list_all_iff task_bound_def split: option.splits)
  have "acyclic (dep_rel (task_deps (g_tasks g)) (set ?k))"
    using resolve_layers_acyclic [OF r d] by simp
  with d t show "graph_wf (g_tasks g)" by (simp add: graph_wf_def list_all_iff)
  from t show "list_all (\<lambda>t. t_run_id t = g_run_id g) (g_tasks g)" by (simp add: list_all_iff)
qed

end
