(* ===== verification/RunDrafts.thy ===== *)
theory RunDrafts
  imports AdmissionLease CanonicalJson FinanceDomain RuntimeBindings
begin

text \<open>
  Drafts and their admission: the records of \<open>phase4_product/contracts.py\<close> that a prepare and a confirm
  exchange, with their JSON dumps, the rules of \<open>phase4_product/admission.py\<close>, and the incremental context of
  \<open>domain/incremental.py\<close>. An id is a \<open>string\<close>; a hash and an idempotency key are lists of code points, as in
  \<open>CanonicalJson\<close>. The goal and the scheme of the domain have the fields of their projections, so one record
  stands for both.
\<close>

section \<open>What the product layer takes from outside\<close>

text \<open>
  SHA-256, \<open>repr\<close> of a float, upper-casing outside ASCII, \<open>datetime.isoformat\<close>, and how pydantic writes a
  datetime to JSON and reads it from there.
\<close>

record wire_env =
  we_repr :: "rat \<Rightarrow> string"
  we_sha :: "nat list \<Rightarrow> utext"
  we_up :: "nat \<Rightarrow> utext"
  we_iso :: "timestamp \<Rightarrow> string"
  we_dump :: "timestamp \<Rightarrow> string"
  we_parse :: "string \<Rightarrow> timestamp option"

fun of_json :: "json_exn + 'a \<Rightarrow> product_exn + 'a" where
  "of_json (Inl e) = Inl ProductValueError"
| "of_json (Inr x) = Inr x"

text \<open>\<open>==\<close> on decoded JSON: dicts ignore their order, numbers compare by value.\<close>

fun jnumber :: "jvalue \<Rightarrow> pyfloat option" where
  "jnumber (VBool b) = Some (Finite (if b then 1 else 0))"
| "jnumber (VInt i) = Some (Finite (of_int i))"
| "jnumber (VFloat x) = (if x = NaN then None else Some x)"
| "jnumber _ = None"

lemma size_zip_left [termination_simp]:
  "(a, b) \<in> set (zip vs ws) \<Longrightarrow> size a < Suc (size_list size vs)"
  by (auto dest!: set_zip_leftD intro!: le_imp_less_Suc size_list_estimation')

fun json_eq :: "jvalue \<Rightarrow> jvalue \<Rightarrow> bool" where
  "json_eq VNull w = (w = VNull)"
| "json_eq (VText s) w = (w = VText s)"
| "json_eq (VList vs) w =
     (case w of VList ws \<Rightarrow> length vs = length ws \<and> list_all (\<lambda>(v, u). json_eq v u) (zip vs ws) | _ \<Rightarrow> False)"
| "json_eq (VDict es) w =
     (case w of
        VDict fs \<Rightarrow> length es = length fs
          \<and> list_all (\<lambda>(k, v). case map_of fs k of None \<Rightarrow> False | Some u \<Rightarrow> json_eq v u) es
      | _ \<Rightarrow> False)"
| "json_eq VOther w = False"
| "json_eq v w = (jnumber v \<noteq> None \<and> jnumber v = jnumber w)"

section \<open>Errors of the product layer\<close>

definition public_resource_types :: "string list" where
  "public_resource_types =
     [''anchor_manifest'', ''calculation'', ''canonical_execution'', ''claim'', ''evidence'', ''graph'',
      ''idempotency_outcome'', ''projection'', ''proof'', ''released_result'', ''report'', ''report_artifact'',
      ''research_goal'', ''research_object'', ''research_run'', ''research_run_draft'', ''research_scheme'',
      ''results_workspace'', ''review'', ''scheduler_admission'', ''task'', ''trace_bundle'']"

text \<open>Constructing the error checks that the type of its resource is public.\<close>

definition product_error :: "product_code \<Rightarrow> string \<Rightarrow> string \<Rightarrow> product_exn" where
  "product_error code resource reason =
     (if resource \<in> set public_resource_types then ProductError code reason else ProductValueError)"

definition identity_error :: "string \<Rightarrow> product_exn" where
  "identity_error resource = product_error PE_IDENTITY_MISMATCH resource ''''"

definition draft_conflict :: "string \<Rightarrow> product_exn" where
  "draft_conflict reason = product_error PE_CONFLICT ''research_run_draft'' reason"

definition integrity_error :: "string \<Rightarrow> string \<Rightarrow> product_exn" where
  "integrity_error resource reason = product_error PE_INTEGRITY_FAILURE resource reason"

section \<open>Incremental context\<close>

datatype inc_decision_kind = ID_REUSE | ID_REFRESH | ID_REVALIDATE | ID_PREVENT | ID_UNKNOWN

datatype inc_category = IC_VIEW_CONTEXT | IC_VERIFIED_METRIC | IC_VERIFIED_CLAIM | IC_RESOLVED_ISSUE

record inc_decision =
  id_decision :: inc_decision_kind
  id_source_run_id :: string
  id_source_identity :: string
  id_category :: inc_category
  id_statement :: string
  id_reason :: string

record inc_context =
  ic_object_id :: string
  ic_base_run_id :: string
  ic_base_view :: string
  ic_base_version :: int
  ic_base_as_of :: date
  ic_target_as_of :: date
  ic_prior_summary :: "string option"
  ic_decisions :: "inc_decision list"

fun decision_value :: "inc_decision_kind \<Rightarrow> string" where
  "decision_value ID_REUSE = ''REUSE''"
| "decision_value ID_REFRESH = ''REFRESH''"
| "decision_value ID_REVALIDATE = ''REVALIDATE''"
| "decision_value ID_PREVENT = ''PREVENT''"
| "decision_value ID_UNKNOWN = ''UNKNOWN''"

fun category_value :: "inc_category \<Rightarrow> string" where
  "category_value IC_VIEW_CONTEXT = ''VIEW_CONTEXT''"
| "category_value IC_VERIFIED_METRIC = ''VERIFIED_METRIC''"
| "category_value IC_VERIFIED_CLAIM = ''VERIFIED_CLAIM''"
| "category_value IC_RESOLVED_ISSUE = ''RESOLVED_ISSUE''"

fun allowed_decisions :: "inc_category \<Rightarrow> inc_decision_kind list" where
  "allowed_decisions IC_VIEW_CONTEXT = [ID_REUSE, ID_UNKNOWN]"
| "allowed_decisions IC_VERIFIED_METRIC = [ID_REFRESH, ID_REVALIDATE, ID_UNKNOWN]"
| "allowed_decisions IC_VERIFIED_CLAIM = [ID_REFRESH, ID_REVALIDATE, ID_UNKNOWN]"
| "allowed_decisions IC_RESOLVED_ISSUE = [ID_PREVENT, ID_UNKNOWN]"

definition text_within :: "nat \<Rightarrow> string \<Rightarrow> bool" where
  "text_within n s \<longleftrightarrow> 1 \<le> length s \<and> length s \<le> n"

definition inc_decision_valid :: "inc_decision \<Rightarrow> bool" where
  "inc_decision_valid d \<longleftrightarrow> id_source_run_id d \<noteq> [] \<and> id_source_identity d \<noteq> []
     \<and> text_within 4000 (id_statement d) \<and> text_within 2000 (id_reason d)"

definition inc_context_valid :: "inc_context \<Rightarrow> bool" where
  "inc_context_valid c \<longleftrightarrow>
     ic_object_id c \<noteq> [] \<and> ic_base_run_id c \<noteq> [] \<and> ic_base_view c \<noteq> [] \<and> 1 \<le> ic_base_version c
     \<and> (case ic_prior_summary c of None \<Rightarrow> True | Some s \<Rightarrow> length s \<le> 4000)
     \<and> length (ic_decisions c) \<le> 32 \<and> list_all inc_decision_valid (ic_decisions c)
     \<and> \<not> ic_target_as_of c < ic_base_as_of c
     \<and> distinct (map id_source_identity (ic_decisions c))
     \<and> list_all (\<lambda>d. id_source_run_id d = ic_base_run_id c
          \<and> id_decision d \<in> set (allowed_decisions (id_category d))
          \<and> (id_category d = IC_VIEW_CONTEXT \<longrightarrow> id_source_identity d = ic_base_view c)) (ic_decisions c)"

section \<open>Goals, schemes and drafts\<close>

record goal =
  go_goal_id :: string
  go_object_id :: string
  go_type :: string
  go_text :: string
  go_as_of :: date
  go_preferences :: "(utext option \<times> jvalue) list"
  go_created_at :: timestamp

record scheme =
  sc_scheme_id :: string
  sc_object_id :: string
  sc_goal_id :: string
  sc_research_scope :: "string list"
  sc_data :: "string list"
  sc_agents :: "string list"
  sc_skills :: "string list"
  sc_calculations :: "string list"
  sc_assurance :: "(utext option \<times> jvalue) list"
  sc_reports :: "string list"
  sc_limitations :: "string list"
  sc_generated_by :: string
  sc_generated_model :: "string option"
  sc_created_at :: timestamp
  sc_confirmed_at :: "timestamp option"
  sc_context :: "inc_context option"

record draft =
  dr_draft_id :: string
  dr_version :: int
  dr_object_id :: string
  dr_goal :: goal
  dr_scheme :: scheme
  dr_prepare_hash :: utext
  dr_hash :: utext
  dr_created_at :: timestamp
  dr_expires_at :: timestamp

definition jtext :: "string \<Rightarrow> jvalue" where
  "jtext s = VText (ucs s)"

definition jtexts :: "string list \<Rightarrow> jvalue" where
  "jtexts ss = VList (map jtext ss)"

definition jdate :: "date \<Rightarrow> jvalue" where
  "jdate d = jtext (isoformat d)"

definition jmaybe :: "('a \<Rightarrow> jvalue) \<Rightarrow> 'a option \<Rightarrow> jvalue" where
  "jmaybe f x = (case x of None \<Rightarrow> VNull | Some y \<Rightarrow> f y)"

text \<open>A field with \<open>exclude_if\<close> is left out when it is \<open>None\<close>.\<close>

definition optional :: "string \<Rightarrow> ('a \<Rightarrow> jvalue) \<Rightarrow> 'a option \<Rightarrow> (utext option \<times> jvalue) list" where
  "optional k f x = (case x of None \<Rightarrow> [] | Some y \<Rightarrow> [field k (f y)])"

definition decision_dump :: "inc_decision \<Rightarrow> jvalue" where
  "decision_dump d = VDict
     [field ''decision'' (jtext (decision_value (id_decision d))),
      field ''source_run_id'' (jtext (id_source_run_id d)),
      field ''source_identity'' (jtext (id_source_identity d)),
      field ''category'' (jtext (category_value (id_category d))),
      field ''statement'' (jtext (id_statement d)), field ''reason'' (jtext (id_reason d)),
      field ''authority'' (jtext ''phase5b-exact-memory-policy/v1'')]"

definition context_dump :: "inc_context \<Rightarrow> jvalue" where
  "context_dump c = VDict
     ([field ''research_object_id'' (jtext (ic_object_id c)), field ''base_run_id'' (jtext (ic_base_run_id c)),
       field ''base_research_view_version'' (jtext (ic_base_view c)),
       field ''base_version_number'' (VInt (ic_base_version c)),
       field ''base_as_of'' (jdate (ic_base_as_of c)), field ''target_as_of'' (jdate (ic_target_as_of c))]
      @ optional ''prior_summary'' jtext (ic_prior_summary c)
      @ [field ''decisions'' (VList (map decision_dump (ic_decisions c)))])"

definition jtime :: "wire_env \<Rightarrow> timestamp \<Rightarrow> jvalue" where
  "jtime env t = jtext (we_dump env t)"

definition goal_dump :: "wire_env \<Rightarrow> goal \<Rightarrow> jvalue" where
  "goal_dump env g = VDict
     [field ''goal_id'' (jtext (go_goal_id g)), field ''research_object_id'' (jtext (go_object_id g)),
      field ''goal_type'' (jtext (go_type g)), field ''goal_text'' (jtext (go_text g)),
      field ''as_of'' (jdate (go_as_of g)), field ''preferences'' (VDict (go_preferences g)),
      field ''created_at'' (jtime env (go_created_at g))]"

definition scheme_dump :: "wire_env \<Rightarrow> scheme \<Rightarrow> jvalue" where
  "scheme_dump env s = VDict
     ([field ''scheme_id'' (jtext (sc_scheme_id s)), field ''research_object_id'' (jtext (sc_object_id s)),
       field ''goal_id'' (jtext (sc_goal_id s)), field ''research_scope'' (jtexts (sc_research_scope s)),
       field ''data_requirements'' (jtexts (sc_data s)), field ''agent_requirements'' (jtexts (sc_agents s)),
       field ''skill_requirements'' (jtexts (sc_skills s)),
       field ''calculation_requirements'' (jtexts (sc_calculations s)),
       field ''assurance_requirements'' (VDict (sc_assurance s)),
       field ''report_requirements'' (jtexts (sc_reports s)), field ''limitations'' (jtexts (sc_limitations s)),
       field ''generated_by'' (jtext (sc_generated_by s)),
       field ''generated_model'' (jmaybe jtext (sc_generated_model s)),
       field ''created_at'' (jtime env (sc_created_at s)),
       field ''confirmed_at'' (jmaybe (jtime env) (sc_confirmed_at s))]
      @ optional ''incremental_context'' context_dump (sc_context s))"

text \<open>\<open>created\<close> and \<open>expires\<close> are the texts of the two times.\<close>

definition draft_fields ::
    "string \<Rightarrow> int \<Rightarrow> string \<Rightarrow> jvalue \<Rightarrow> jvalue \<Rightarrow> utext \<Rightarrow> string \<Rightarrow> string \<Rightarrow> (utext option \<times> jvalue) list" where
  "draft_fields draft_id version object_id g s prepare_hash created expires =
     [field ''schema_version'' (jtext ''phase4-run-draft/v1''), field ''draft_id'' (jtext draft_id),
      field ''draft_version'' (VInt version), field ''status'' (jtext ''AWAITING_CONFIRMATION''),
      field ''preview_kind'' (jtext ''SCHEME_ONLY''),
      field ''planned_graph_availability'' (VDict
        [field ''status'' (jtext ''NOT_GENERATED''), field ''reason_code'' (jtext ''PLAN_CREATED_ON_CONFIRM''),
         field ''retryable'' (VBool False)]),
      field ''object_id'' (jtext object_id), field ''goal'' g, field ''scheme_snapshot'' s,
      field ''prepare_request_hash'' (VText prepare_hash), field ''created_at'' (jtext created),
      field ''expires_at'' (jtext expires)]"

definition draft_dump :: "wire_env \<Rightarrow> draft \<Rightarrow> (utext option \<times> jvalue) list" where
  "draft_dump env d =
     draft_fields (dr_draft_id d) (dr_version d) (dr_object_id d) (goal_dump env (dr_goal d))
       (scheme_dump env (dr_scheme d)) (dr_prepare_hash d) (we_dump env (dr_created_at d))
       (we_dump env (dr_expires_at d)) @ [field ''draft_hash'' (VText (dr_hash d))]"

section \<open>Validators\<close>

definition goal_valid :: "goal \<Rightarrow> bool" where
  "goal_valid g \<longleftrightarrow> nonblank (go_goal_id g) \<and> nonblank (go_object_id g) \<and> nonblank (go_type g)
     \<and> nonblank (go_text g) \<and> is_utc (go_created_at g)"

definition scheme_valid :: "scheme \<Rightarrow> bool" where
  "scheme_valid s \<longleftrightarrow> nonblank (sc_scheme_id s) \<and> nonblank (sc_object_id s) \<and> nonblank (sc_goal_id s)
     \<and> nonblank (sc_generated_by s) \<and> is_utc (sc_created_at s) \<and> utc_if_given (sc_confirmed_at s)
     \<and> (case sc_context s of None \<Rightarrow> True | Some c \<Rightarrow> inc_context_valid c)"

definition draft_valid :: "draft \<Rightarrow> bool" where
  "draft_valid d \<longleftrightarrow>
     nonblank (dr_draft_id d) \<and> 1 \<le> dr_version d \<and> nonblank (dr_object_id d) \<and> goal_valid (dr_goal d)
     \<and> scheme_valid (dr_scheme d) \<and> is_sha256_identity (dr_prepare_hash d) \<and> is_sha256_identity (dr_hash d)
     \<and> is_utc (dr_created_at d) \<and> is_utc (dr_expires_at d)
     \<and> go_object_id (dr_goal d) = dr_object_id d \<and> sc_object_id (dr_scheme d) = dr_object_id d
     \<and> sc_goal_id (dr_scheme d) = go_goal_id (dr_goal d) \<and> sc_confirmed_at (dr_scheme d) = None
     \<and> earlier (dr_created_at d) (dr_expires_at d)"

record draft_lease =
  dl_lease_id :: utext
  dl_draft_id :: string
  dl_draft_hash :: utext
  dl_scheme_id :: string
  dl_base_run_id :: string
  dl_base_view :: string
  dl_previous_expires_at :: timestamp
  dl_authorized_at :: timestamp
  dl_expires_at :: timestamp

text \<open>\<open>DRAFT_EXPIRY\<close>, thirty minutes in microseconds.\<close>

definition draft_expiry :: int where
  "draft_expiry = 30 * 60 * 1000000"

definition lease_valid :: "draft_lease \<Rightarrow> bool" where
  "lease_valid l \<longleftrightarrow> is_utc (dl_previous_expires_at l) \<and> is_utc (dl_authorized_at l) \<and> is_utc (dl_expires_at l)
     \<and> \<not> earlier (dl_authorized_at l) (dl_previous_expires_at l)
     \<and> ts_instant (dl_expires_at l) - ts_instant (dl_authorized_at l) = draft_expiry"

record draft_record =
  rd_draft :: draft
  rd_consumed_at :: "timestamp option"
  rd_admission_id :: "string option"
  rd_run_id :: "string option"
  rd_lease :: "draft_lease option"

definition effective_expires_at :: "draft_record \<Rightarrow> timestamp" where
  "effective_expires_at r =
     (case rd_lease r of Some l \<Rightarrow> dl_expires_at l | None \<Rightarrow> dr_expires_at (rd_draft r))"

definition consumed :: "draft_record \<Rightarrow> bool" where
  "consumed r \<longleftrightarrow> rd_consumed_at r \<noteq> None"

definition lease_binds :: "draft \<Rightarrow> draft_lease \<Rightarrow> bool" where
  "lease_binds d l \<longleftrightarrow>
     (case sc_context (dr_scheme d) of
        None \<Rightarrow> False
      | Some c \<Rightarrow>
          (dl_draft_id l, dl_draft_hash l, dl_scheme_id l, dl_base_run_id l, dl_base_view l)
            = (dr_draft_id d, dr_hash d, sc_scheme_id (dr_scheme d), ic_base_run_id c, ic_base_view c))
     \<and> \<not> earlier (dl_previous_expires_at l) (dr_expires_at d)"

definition consumption_ok :: "draft_record \<Rightarrow> bool" where
  "consumption_ok r \<longleftrightarrow>
     (rd_consumed_at r = None \<and> rd_admission_id r = None \<and> rd_run_id r = None)
     \<or> (case rd_consumed_at r of
          None \<Rightarrow> False
        | Some t \<Rightarrow> is_utc t \<and> \<not> earlier t (dr_created_at (rd_draft r))
            \<and> nonblank_given (rd_admission_id r) \<and> nonblank_given (rd_run_id r))"

definition make_draft_record :: "draft_record \<Rightarrow> product_exn + draft_record" where
  "make_draft_record r =
     (if (case rd_lease r of None \<Rightarrow> True | Some l \<Rightarrow> lease_binds (rd_draft r) l) \<and> consumption_ok r
      then Inr r else Inl ProductValueError)"

definition fresh_record :: "draft \<Rightarrow> draft_record" where
  "fresh_record d = \<lparr>rd_draft = d, rd_consumed_at = None, rd_admission_id = None, rd_run_id = None, rd_lease = None\<rparr>"

section \<open>Requests and their hashes\<close>

record prepare_request =
  pq_object_id :: string
  pq_goal :: string
  pq_as_of :: date
  pq_preferences :: "(utext option \<times> jvalue) list"
  pq_base_run_id :: "string option"
  pq_base_view :: "string option"

record confirm_request =
  cq_draft_id :: string
  cq_version :: int
  cq_hash :: utext
  cq_object_id :: string

definition prepare_route :: utext where
  "prepare_route = ucs ''/api/research-runs/prepare''"

definition confirm_route :: utext where
  "confirm_route = ucs ''/api/research-runs''"

definition request_hash :: "wire_env \<Rightarrow> utext \<Rightarrow> jvalue \<Rightarrow> product_exn + utext" where
  "request_hash env route body =
     of_json (canonical_request_hash (we_repr env) (we_sha env) (we_up env) (ucs ''POST'') route body
       contract_version local_access_scope)"

definition key_digest :: "wire_env \<Rightarrow> utext \<Rightarrow> utext \<Rightarrow> json_exn + utext" where
  "key_digest env route key =
     idempotency_key_digest (we_repr env) (we_sha env) (we_up env) key (ucs ''POST'') route local_access_scope"

definition prepare_dump :: "prepare_request \<Rightarrow> jvalue" where
  "prepare_dump q = VDict
     ([field ''research_object_id'' (jtext (pq_object_id q)), field ''research_goal'' (jtext (pq_goal q)),
       field ''as_of'' (jdate (pq_as_of q)), field ''preferences'' (VDict (pq_preferences q))]
      @ optional ''base_run_id'' jtext (pq_base_run_id q)
      @ optional ''base_research_view_version'' jtext (pq_base_view q))"

definition prepare_request_hash :: "wire_env \<Rightarrow> prepare_request \<Rightarrow> product_exn + utext" where
  "prepare_request_hash env q = request_hash env prepare_route (prepare_dump q)"

definition confirm_dump :: "confirm_request \<Rightarrow> jvalue" where
  "confirm_dump q = VDict
     [field ''draft_id'' (jtext (cq_draft_id q)), field ''draft_version'' (VInt (cq_version q)),
      field ''draft_hash'' (VText (cq_hash q)), field ''research_object_id'' (jtext (cq_object_id q)),
      field ''confirm_scheme'' (VBool True)]"

definition confirmation_request_hash :: "wire_env \<Rightarrow> confirm_request \<Rightarrow> product_exn + utext" where
  "confirmation_request_hash env q = request_hash env confirm_route (confirm_dump q)"

definition draft_hash_is_valid :: "wire_env \<Rightarrow> draft \<Rightarrow> product_exn + bool" where
  "draft_hash_is_valid env d =
     rbind (of_json (draft_payload_hash (we_repr env) (we_sha env) (draft_dump env d))) (\<lambda>h. Inr (dr_hash d = h))"

end
