(* ===== verification/RunAdmission.thy ===== *)
theory RunAdmission
  imports RunDrafts
begin

text \<open>
  The pure rules of \<open>phase4_product/admission.py\<close>: building a draft, validating a confirmation, the admission it
  yields, the tombstone of a consumed draft, the decision on an idempotency key, and the outbox row.
\<close>

section \<open>Times of the caller\<close>

definition require_aware_utc :: "timestamp \<Rightarrow> product_exn + unit" where
  "require_aware_utc t = guard (is_utc t) ProductValueError"

text \<open>\<open>str.replace\<close> with a non-empty pattern.\<close>

function replace_text :: "string \<Rightarrow> string \<Rightarrow> string \<Rightarrow> string" where
  "replace_text old new s =
     (if s = [] \<or> old = [] then s
      else if take (length old) s = old then new @ replace_text old new (drop (length old) s)
      else hd s # replace_text old new (tl s))"
  by pat_completeness auto
termination
  by (relation "measure (\<lambda>(old, new, s). length s)") auto

declare replace_text.simps [simp del]

definition zulu :: "wire_env \<Rightarrow> timestamp \<Rightarrow> string" where
  "zulu env t = replace_text ''+00:00'' ''Z'' (we_iso env t)"

section \<open>Prepare\<close>

definition validate_prepare_identity :: "prepare_request \<Rightarrow> goal \<Rightarrow> scheme \<Rightarrow> product_exn + unit" where
  "validate_prepare_identity q g s =
     rbind (require_aware_utc (go_created_at g)) (\<lambda>_.
     rbind (require_aware_utc (sc_created_at s)) (\<lambda>_.
     rbind (guard (pq_object_id q = go_object_id g) (identity_error ''research_object'')) (\<lambda>_.
     rbind (guard (sc_object_id s = pq_object_id q) (identity_error ''research_object'')) (\<lambda>_.
     rbind (guard (sc_goal_id s = go_goal_id g) (identity_error ''research_goal'')) (\<lambda>_.
     rbind (guard (sc_confirmed_at s = None) (integrity_error ''research_scheme'' '''')) (\<lambda>_.
     rbind (guard (pq_goal q = go_text g) (identity_error ''research_goal'')) (\<lambda>_.
     guard (pq_as_of q = go_as_of g \<and> json_eq (VDict (pq_preferences q)) (VDict (go_preferences g)))
       (identity_error ''research_goal''))))))))"

definition context_closes :: "prepare_request \<Rightarrow> scheme \<Rightarrow> bool" where
  "context_closes q s \<longleftrightarrow>
     (case sc_context s of
        None \<Rightarrow> pq_base_run_id q = None
      | Some c \<Rightarrow> ic_object_id c = pq_object_id q \<and> Some (ic_base_run_id c) = pq_base_run_id q
          \<and> Some (ic_base_view c) = pq_base_view q \<and> ic_target_as_of c = pq_as_of q)"

text \<open>
  \<open>model_validate\<close> of a dump: a datetime is read back from its text, and a value that a validator rejects
  is an error.
\<close>

definition read_time :: "wire_env \<Rightarrow> string \<Rightarrow> product_exn + timestamp" where
  "read_time env s = (case we_parse env s of None \<Rightarrow> Inl ProductValueError | Some t \<Rightarrow> Inr t)"

definition reread_goal :: "wire_env \<Rightarrow> goal \<Rightarrow> product_exn + goal" where
  "reread_goal env g =
     rbind (read_time env (we_dump env (go_created_at g))) (\<lambda>t. Inr (g\<lparr>go_created_at := t\<rparr>))"

definition reread_scheme :: "wire_env \<Rightarrow> scheme \<Rightarrow> product_exn + scheme" where
  "reread_scheme env s =
     rbind (read_time env (we_dump env (sc_created_at s))) (\<lambda>t.
     rbind (case sc_confirmed_at s of None \<Rightarrow> Inr None
            | Some c \<Rightarrow> rbind (read_time env (we_dump env c)) (\<lambda>u. Inr (Some u))) (\<lambda>c.
     Inr (s\<lparr>sc_created_at := t, sc_confirmed_at := c\<rparr>)))"

definition validated_draft :: "draft \<Rightarrow> product_exn + draft" where
  "validated_draft d = (if draft_valid d then Inr d else Inl ProductValueError)"

definition build_prepare_draft ::
    "wire_env \<Rightarrow> prepare_request \<Rightarrow> string \<Rightarrow> goal \<Rightarrow> scheme \<Rightarrow> timestamp \<Rightarrow> product_exn + draft" where
  "build_prepare_draft env q draft_id g s now =
     rbind (require_aware_utc now) (\<lambda>_.
     rbind (validate_prepare_identity q g s) (\<lambda>_.
     rbind (guard (context_closes q s) ProductValueError) (\<lambda>_.
     rbind (guard (nonblank draft_id) ProductValueError) (\<lambda>_.
     rbind (prepare_request_hash env q) (\<lambda>prepare_hash.
     let created = zulu env now; expires = zulu env (shifted now draft_expiry);
         payload = draft_fields draft_id 1 (pq_object_id q) (goal_dump env g) (scheme_dump env s)
           prepare_hash created expires in
     rbind (of_json (draft_payload_hash (we_repr env) (we_sha env) payload)) (\<lambda>h.
     rbind (reread_goal env g) (\<lambda>g'.
     rbind (reread_scheme env s) (\<lambda>s'.
     rbind (read_time env created) (\<lambda>c.
     rbind (read_time env expires) (\<lambda>e.
     rbind (validated_draft \<lparr>dr_draft_id = draft_id, dr_version = 1, dr_object_id = pq_object_id q,
       dr_goal = g', dr_scheme = s', dr_prepare_hash = prepare_hash, dr_hash = h,
       dr_created_at = c, dr_expires_at = e\<rparr>) (\<lambda>d.
     rbind (draft_hash_is_valid env d) (\<lambda>ok.
     if ok then Inr d else Inl ProductAssertionError))))))))))))"

section \<open>Confirm\<close>

definition validate_draft_identity_closure :: "draft \<Rightarrow> product_exn + unit" where
  "validate_draft_identity_closure d =
     rbind (guard (go_object_id (dr_goal d) = dr_object_id d \<and> sc_object_id (dr_scheme d) = dr_object_id d
         \<and> sc_goal_id (dr_scheme d) = go_goal_id (dr_goal d)) (integrity_error ''research_run_draft'' '''')) (\<lambda>_.
     guard (sc_confirmed_at (dr_scheme d) = None) (integrity_error ''research_run_draft'' ''''))"

record validated_confirm =
  vc_draft :: draft
  vc_request :: confirm_request
  vc_hash :: utext

definition identities_match :: "validated_confirm \<Rightarrow> bool" where
  "identities_match v \<longleftrightarrow> is_sha256_identity (vc_hash v)
     \<and> cq_draft_id (vc_request v) = dr_draft_id (vc_draft v)
     \<and> cq_object_id (vc_request v) = dr_object_id (vc_draft v)
     \<and> cq_version (vc_request v) = dr_version (vc_draft v) \<and> cq_hash (vc_request v) = dr_hash (vc_draft v)"

definition validate_confirm_request ::
    "wire_env \<Rightarrow> draft_record \<Rightarrow> confirm_request \<Rightarrow> timestamp \<Rightarrow> product_exn + validated_confirm" where
  "validate_confirm_request env r q now =
     (let d = rd_draft r in
     rbind (require_aware_utc now) (\<lambda>_.
     rbind (guard (cq_draft_id q = dr_draft_id d) (identity_error ''draft'')) (\<lambda>_.
     rbind (guard (cq_object_id q = dr_object_id d) (identity_error ''research_object'')) (\<lambda>_.
     rbind (validate_draft_identity_closure d) (\<lambda>_.
     rbind (draft_hash_is_valid env d) (\<lambda>ok.
     rbind (guard ok (integrity_error ''research_run_draft'' ''DRAFT_HASH_INTEGRITY_FAILURE'')) (\<lambda>_.
     rbind (guard (cq_version q = dr_version d) (draft_conflict ''DRAFT_VERSION_MISMATCH'')) (\<lambda>_.
     rbind (guard (cq_hash q = dr_hash d) (draft_conflict ''DRAFT_VERSION_MISMATCH'')) (\<lambda>_.
     rbind (guard (\<not> consumed r) (draft_conflict ''DRAFT_CONSUMED'')) (\<lambda>_.
     rbind (guard (earlier now (effective_expires_at r)) (draft_conflict ''DRAFT_EXPIRED'')) (\<lambda>_.
     rbind (confirmation_request_hash env q) (\<lambda>h.
     let v = \<lparr>vc_draft = d, vc_request = q, vc_hash = h\<rparr> in
     if identities_match v then Inr v else Inl ProductValueError))))))))))))"

record run_admission =
  ra_admission_id :: string
  ra_run_id :: string
  ra_object_id :: string
  ra_draft_id :: string
  ra_draft_version :: int
  ra_draft_hash :: utext
  ra_goal_id :: string
  ra_scheme_id :: string
  ra_planned_graph_id :: string
  ra_request_hash :: utext
  ra_admitted_at :: timestamp
  ra_projection_ref :: string
  ra_events_ref :: string

definition projection_ref :: "string \<Rightarrow> string" where
  "projection_ref run_id = ''/api/research-runs/'' @ run_id @ ''/projection''"

definition events_ref :: "string \<Rightarrow> string" where
  "events_ref run_id = ''/api/research-runs/'' @ run_id @ ''/events''"

definition run_admission_valid :: "run_admission \<Rightarrow> bool" where
  "run_admission_valid a \<longleftrightarrow>
     list_all nonblank [ra_admission_id a, ra_run_id a, ra_object_id a, ra_draft_id a, ra_goal_id a,
       ra_scheme_id a, ra_planned_graph_id a, ra_projection_ref a, ra_events_ref a]
     \<and> 1 \<le> ra_draft_version a \<and> is_sha256_identity (ra_draft_hash a) \<and> is_sha256_identity (ra_request_hash a)
     \<and> is_utc (ra_admitted_at a) \<and> ra_projection_ref a = projection_ref (ra_run_id a)
     \<and> ra_events_ref a = events_ref (ra_run_id a)"

definition build_run_admission ::
    "validated_confirm \<Rightarrow> string \<Rightarrow> string \<Rightarrow> string \<Rightarrow> timestamp \<Rightarrow> product_exn + run_admission" where
  "build_run_admission v admission_id run_id graph_id admitted_at =
     rbind (require_aware_utc admitted_at) (\<lambda>_.
     let d = vc_draft v;
         a = \<lparr>ra_admission_id = admission_id, ra_run_id = run_id, ra_object_id = dr_object_id d,
           ra_draft_id = dr_draft_id d, ra_draft_version = dr_version d, ra_draft_hash = dr_hash d,
           ra_goal_id = go_goal_id (dr_goal d), ra_scheme_id = sc_scheme_id (dr_scheme d),
           ra_planned_graph_id = graph_id, ra_request_hash = vc_hash v, ra_admitted_at = admitted_at,
           ra_projection_ref = projection_ref run_id, ra_events_ref = events_ref run_id\<rparr> in
     if run_admission_valid a then Inr a else Inl ProductValueError)"

text \<open>The tombstone is a new record: the lease authorization of the old one is not carried over.\<close>

definition mark_draft_consumed :: "draft_record \<Rightarrow> run_admission \<Rightarrow> timestamp \<Rightarrow> product_exn + draft_record" where
  "mark_draft_consumed r a consumed_at =
     (let d = rd_draft r in
     rbind (guard (\<not> consumed r) (draft_conflict ''DRAFT_CONSUMED'')) (\<lambda>_.
     rbind (guard (ra_draft_id a = dr_draft_id d \<and> ra_draft_version a = dr_version d
       \<and> ra_draft_hash a = dr_hash d \<and> ra_object_id a = dr_object_id d)
       (identity_error ''research_run_draft'')) (\<lambda>_.
     rbind (require_aware_utc consumed_at) (\<lambda>_.
     make_draft_record \<lparr>rd_draft = d, rd_consumed_at = Some consumed_at,
       rd_admission_id = Some (ra_admission_id a), rd_run_id = Some (ra_run_id a), rd_lease = None\<rparr>))))"

definition build_scheduler_admission ::
    "run_admission \<Rightarrow> string \<Rightarrow> nat \<Rightarrow> timestamp \<Rightarrow> product_exn + sched_admission" where
  "build_scheduler_admission a outcome_id max_attempts created_at =
     rbind (require_aware_utc created_at) (\<lambda>_.
     let s = \<lparr>sa_admission_id = ra_admission_id a, sa_run_id = ra_run_id a, sa_outcome_id = outcome_id,
       sa_state = AS_PENDING, sa_attempts = 0, sa_max_attempts = max_attempts,
       sa_next_attempt_at = Some created_at, sa_lease_owner = None, sa_generation = 0,
       sa_lease_expires_at = None, sa_start_committed_at = None, sa_started_event_id = None,
       sa_started_sequence = None, sa_acknowledged_at = None, sa_failed_at = None, sa_failure_code = None,
       sa_created_at = created_at, sa_updated_at = created_at\<rparr> in
     if admission_valid s then Inr s else Inl ProductValueError)"

section \<open>Idempotency\<close>

datatype idempotency_kind = IK_CREATE | IK_REPLAY | IK_CONFLICT

definition decide_idempotency :: "utext \<Rightarrow> utext option \<Rightarrow> product_exn + idempotency_kind" where
  "decide_idempotency incoming stored =
     rbind (of_json (require_sha256_identity incoming)) (\<lambda>_.
     case stored of
       None \<Rightarrow> Inr IK_CREATE
     | Some h \<Rightarrow> rbind (of_json (require_sha256_identity h)) (\<lambda>_.
         Inr (if incoming = h then IK_REPLAY else IK_CONFLICT)))"

definition require_idempotency_match :: "idempotency_kind \<Rightarrow> product_exn + idempotency_kind" where
  "require_idempotency_match k =
     (if k = IK_CONFLICT then Inl (ProductError PE_CONFLICT ''IDEMPOTENCY_REQUEST_MISMATCH'') else Inr k)"

record confirm_response =
  cr_admission :: run_admission
  cr_request_id :: "string option"
  cr_replayed :: bool

definition build_confirm_response :: "run_admission \<Rightarrow> string option \<Rightarrow> bool \<Rightarrow> product_exn + confirm_response" where
  "build_confirm_response a request_id replayed =
     (if (case request_id of None \<Rightarrow> True | Some s \<Rightarrow> nonblank s)
      then Inr \<lparr>cr_admission = a, cr_request_id = request_id, cr_replayed = replayed\<rparr>
      else Inl ProductValueError)"

end
