(* ===== verification/ConfirmCommit.thy ===== *)
theory ConfirmCommit
  imports RunAdmission
begin

text \<open>
  The atomic write set of an accepted confirmation: \<open>DurableIdempotencyOutcomeV1\<close>,
  \<open>DurablePrepareOutcomeV1\<close>, \<open>AtomicPrepareCommit\<close> and \<open>AtomicConfirmCommit\<close> of
  \<open>phase4_product/durability.py\<close>, with every check in the order of the code, and the initial events of
  \<open>postgresql_backend.py\<close>.
\<close>

section \<open>Outcomes\<close>

record 'p outcome =
  oc_outcome_id :: string
  oc_scope :: utext
  oc_digest :: utext
  oc_method :: utext
  oc_route :: utext
  oc_request_hash :: utext
  oc_payload :: 'p
  oc_created_at :: timestamp

definition require_sha256 :: "utext \<Rightarrow> product_exn + unit" where
  "require_sha256 h = guard (is_sha256_identity h) (request_error ''INVALID_SHA256'')"

definition validate_outcome_identity :: "utext \<Rightarrow> 'p outcome \<Rightarrow> product_exn + unit" where
  "validate_outcome_identity expected_route c =
     rbind (require_nonblank (oc_outcome_id c)) (\<lambda>_.
     rbind (guard (ustrip (oc_digest c) \<noteq> []) (request_error ''INVALID_IDENTITY'')) (\<lambda>_.
     rbind (guard (oc_scope c = local_access_scope) (request_error ''INVALID_ACCESS_SCOPE'')) (\<lambda>_.
     rbind (require_sha256 (oc_digest c)) (\<lambda>_.
     rbind (guard (oc_method c = ucs ''POST'') (request_error ''INVALID_HTTP_METHOD'')) (\<lambda>_.
     rbind (guard (oc_route c = expected_route) (request_error ''INVALID_ROUTE_TEMPLATE'')) (\<lambda>_.
     rbind (require_sha256 (oc_request_hash c)) (\<lambda>_.
     require_utc (oc_created_at c))))))))"

definition make_confirm_outcome :: "run_admission outcome \<Rightarrow> product_exn + run_admission outcome" where
  "make_confirm_outcome c =
     rbind (validate_outcome_identity confirm_route c) (\<lambda>_.
     rbind (guard (ra_request_hash (oc_payload c) = oc_request_hash c)
       (integrity_error ''idempotency_outcome'' ''IDEMPOTENCY_OUTCOME_IDENTITY_MISMATCH'')) (\<lambda>_.
     Inr c))"

definition make_prepare_outcome :: "wire_env \<Rightarrow> draft outcome \<Rightarrow> product_exn + draft outcome" where
  "make_prepare_outcome env c =
     rbind (validate_outcome_identity prepare_route c) (\<lambda>_.
     rbind (guard (dr_prepare_hash (oc_payload c) = oc_request_hash c)
       (integrity_error ''research_run_draft'' ''IDEMPOTENCY_OUTCOME_IDENTITY_MISMATCH'')) (\<lambda>_.
     rbind (draft_hash_is_valid env (oc_payload c)) (\<lambda>ok.
     rbind (guard ok (integrity_error ''research_run_draft'' ''DRAFT_HASH_INTEGRITY_FAILURE'')) (\<lambda>_.
     Inr c))))"

definition validate_atomic_key :: "wire_env \<Rightarrow> string \<Rightarrow> 'p outcome \<Rightarrow> utext \<Rightarrow> product_exn + unit" where
  "validate_atomic_key env resource c key =
     (case idempotency_key_digest (we_repr env) (we_sha env) (we_up env) key (oc_method c) (oc_route c) (oc_scope c) of
        Inl _ \<Rightarrow> Inl (request_error ''INVALID_IDEMPOTENCY_KEY'')
      | Inr expected \<Rightarrow>
          guard (oc_digest c = expected) (integrity_error resource ''IDEMPOTENCY_KEY_DIGEST_MISMATCH''))"

section \<open>Prepare\<close>

record prepare_commit =
  pc_outcome :: "draft outcome"
  pc_request :: prepare_request
  pc_record :: draft_record
  pc_goal :: goal
  pc_scheme :: scheme

definition check_prepare_commit :: "wire_env \<Rightarrow> utext \<Rightarrow> prepare_commit \<Rightarrow> product_exn + unit" where
  "check_prepare_commit env key c =
     (let d = oc_payload (pc_outcome c);
          mismatch = integrity_error ''research_run_draft'' ''PREPARE_WRITE_SET_IDENTITY_MISMATCH'' in
     rbind (validate_atomic_key env ''research_run_draft'' (pc_outcome c) key) (\<lambda>_.
     rbind (draft_hash_is_valid env d) (\<lambda>ok.
     rbind (guard ok (integrity_error ''research_run_draft'' ''DRAFT_HASH_INTEGRITY_FAILURE'')) (\<lambda>_.
     rbind (prepare_request_hash env (pc_request c)) (\<lambda>h.
     rbind (guard (oc_request_hash (pc_outcome c) = h \<and> \<not> consumed (pc_record c)
       \<and> rd_draft (pc_record c) = d) mismatch) (\<lambda>_.
     guard (json_eq (goal_dump env (pc_goal c)) (goal_dump env (dr_goal d))
       \<and> json_eq (scheme_dump env (pc_scheme c)) (scheme_dump env (dr_scheme d))) mismatch))))))"

section \<open>The run and its initial events\<close>

record research_run =
  ru_run_id :: string
  ru_object_id :: string
  ru_goal_id :: string
  ru_scheme_id :: string
  ru_status :: run_status
  ru_as_of :: date
  ru_planned_graph_id :: "string option"
  ru_actual_graph_id :: "string option"
  ru_started_at :: "timestamp option"
  ru_completed_at :: "timestamp option"
  ru_created_at :: timestamp
  ru_updated_at :: timestamp
  ru_base_run_id :: "string option"
  ru_base_view :: "string option"
  ru_reexecution_of :: "string option"

definition incremental_base :: "research_run \<Rightarrow> bool" where
  "incremental_base r \<longleftrightarrow>
     (ru_base_run_id r = None \<longleftrightarrow> ru_base_view r = None) \<and> ru_base_run_id r \<noteq> Some (ru_run_id r)
     \<and> (case ru_reexecution_of r of
          None \<Rightarrow> True
        | Some p \<Rightarrow> nonblank p \<and> p = strip p \<and> p \<noteq> ru_run_id r \<and> ru_base_run_id r \<noteq> Some p
            \<and> ru_base_run_id r \<noteq> None)"

definition make_run :: "research_run \<Rightarrow> product_exn + research_run" where
  "make_run r = (if incremental_base r then Inr r else Inl ProductValueError)"

definition setup_payloads :: "wire_env \<Rightarrow> research_run \<Rightarrow> scheme \<Rightarrow> planned_task_graph \<Rightarrow> (event_type \<times> json_object) list" where
  "setup_payloads env r s g =
     [(RUN_CREATED, [(''object_id'', JStr (ru_object_id r))]),
      (SCHEME_GENERATED,
        [(''scheme_id'', JStr (sc_scheme_id s)), (''generated_by'', JStr (sc_generated_by s)),
         (''generated_at'', JStr (we_iso env (sc_created_at s))), (''generation_stage'', JStr ''prepare''),
         (''retrospective'', JBool True)]),
      (SCHEME_CONFIRMED, [(''scheme_id'', JStr (sc_scheme_id s))]),
      (PLAN_GENERATED,
        [(''graph_id'', JStr (g_graph_id g)), (''task_count'', JInt (int (length (g_tasks g))))])]"

definition event_specs ::
    "wire_env \<Rightarrow> research_run \<Rightarrow> scheme \<Rightarrow> planned_task_graph \<Rightarrow> (event_type \<times> string option \<times> json_object) list" where
  "event_specs env r s g =
     map (\<lambda>(t, p). (t, None, p)) (setup_payloads env r s g)
     @ map (\<lambda>t. (TASK_CREATED, Some (t_task_id t), [(''task_type'', JStr (t_task_type t))])) (g_tasks g)"

definition make_event :: "runtime_event \<Rightarrow> product_exn + runtime_event" where
  "make_event e = (if event_fields_valid e then Inr e else Inl ProductValueError)"

text \<open>\<open>ids\<close> are the identifiers drawn for the events, in order.\<close>

definition initial_events ::
    "wire_env \<Rightarrow> (nat \<Rightarrow> string) \<Rightarrow> research_run \<Rightarrow> scheme \<Rightarrow> planned_task_graph \<Rightarrow> timestamp
       \<Rightarrow> product_exn + runtime_event list" where
  "initial_events env ids r s g now =
     rmap (\<lambda>(i, (t, task_id, p)).
         make_event \<lparr>ev_event_id = ''EVT-'' @ ids i, ev_run_id = ru_run_id r, ev_task_id = task_id, ev_type = t,
           ev_timestamp = now, ev_sequence = int i + 1, ev_payload = p\<rparr>)
       (enumerate 0 (event_specs env r s g))"

section \<open>Confirm\<close>

record confirm_commit =
  cc_draft :: draft_record
  cc_outcome :: "run_admission outcome"
  cc_request :: confirm_request
  cc_scheduler :: sched_admission
  cc_goal :: goal
  cc_scheme :: scheme
  cc_run :: research_run
  cc_planned :: planned_task_graph
  cc_actual :: "actual_runtime_graph option"
  cc_tasks :: "task list"
  cc_events :: "runtime_event list"

text \<open>\<open>==\<close> on decoded JSON with the payload type of events.\<close>

fun plain_eq :: "json \<Rightarrow> json \<Rightarrow> bool" where
  "plain_eq JNull w = (w = JNull)"
| "plain_eq (JStr s) w = (w = JStr s)"
| "plain_eq (JList vs) w =
     (case w of JList ws \<Rightarrow> length vs = length ws \<and> list_all (\<lambda>(v, u). plain_eq v u) (zip vs ws) | _ \<Rightarrow> False)"
| "plain_eq (JObj es) w =
     (case w of
        JObj fs \<Rightarrow> length es = length fs
          \<and> list_all (\<lambda>(k, v). case map_of fs k of None \<Rightarrow> False | Some u \<Rightarrow> plain_eq v u) es
      | _ \<Rightarrow> False)"
| "plain_eq v w = scalar_eq v w"

text \<open>Equality of the dumps of two tasks.\<close>

definition same_dump :: "task \<Rightarrow> task \<Rightarrow> bool" where
  "same_dump t u \<longleftrightarrow> t\<lparr>t_evidence_source_coverage := []\<rparr> = u\<lparr>t_evidence_source_coverage := []\<rparr>
     \<and> plain_eq (JObj (t_evidence_source_coverage t)) (JObj (t_evidence_source_coverage u))"

definition check_request_bound :: "wire_env \<Rightarrow> confirm_commit \<Rightarrow> product_exn + unit" where
  "check_request_bound env c =
     (let d = rd_draft (cc_draft c); q = cc_request c in
     rbind (confirmation_request_hash env q) (\<lambda>h.
     guard (oc_request_hash (cc_outcome c) = h \<and> cq_draft_id q = dr_draft_id d \<and> cq_version q = dr_version d
         \<and> cq_hash q = dr_hash d \<and> cq_object_id q = dr_object_id d)
       (integrity_error ''idempotency_outcome'' ''CONFIRM_REQUEST_HASH_MISMATCH'')))"

definition one_admission :: "confirm_commit \<Rightarrow> bool" where
  "one_admission c \<longleftrightarrow>
     (let d = cc_draft c; a = oc_payload (cc_outcome c); r = cc_run c; s = cc_scheduler c in
      rd_admission_id d = Some (ra_admission_id a) \<and> rd_run_id d = Some (ra_run_id a)
      \<and> ra_run_id a = ru_run_id r \<and> ra_object_id a = ru_object_id r \<and> ra_goal_id a = go_goal_id (cc_goal c)
      \<and> ra_scheme_id a = sc_scheme_id (cc_scheme c) \<and> ru_goal_id r = go_goal_id (cc_goal c)
      \<and> ru_scheme_id r = sc_scheme_id (cc_scheme c) \<and> ra_planned_graph_id a = g_graph_id (cc_planned c)
      \<and> ru_planned_graph_id r = Some (g_graph_id (cc_planned c)) \<and> sa_admission_id s = ra_admission_id a
      \<and> sa_run_id s = ru_run_id r \<and> sa_outcome_id s = oc_outcome_id (cc_outcome c))"

definition admission_of_draft :: "confirm_commit \<Rightarrow> bool" where
  "admission_of_draft c \<longleftrightarrow>
     (let d = rd_draft (cc_draft c); a = oc_payload (cc_outcome c) in
      ra_draft_id a = dr_draft_id d \<and> ra_draft_version a = dr_version d \<and> ra_draft_hash a = dr_hash d
      \<and> ra_object_id a = dr_object_id d)"

definition pristine :: "sched_admission \<Rightarrow> timestamp \<Rightarrow> bool" where
  "pristine s now \<longleftrightarrow>
     sa_state s = AS_PENDING \<and> sa_attempts s = 0 \<and> sa_generation s = 0 \<and> sa_next_attempt_at s = Some now
     \<and> sa_created_at s = now \<and> sa_updated_at s = now \<and> sa_lease_owner s = None \<and> sa_lease_expires_at s = None
     \<and> sa_start_committed_at s = None \<and> sa_started_event_id s = None \<and> sa_started_sequence s = None
     \<and> sa_acknowledged_at s = None \<and> sa_failed_at s = None \<and> sa_failure_code s = None"

definition object_closure :: "confirm_commit \<Rightarrow> bool" where
  "object_closure c \<longleftrightarrow>
     (let r = cc_run c; g = cc_goal c; s = cc_scheme c in
      go_object_id g = ru_object_id r \<and> sc_object_id s = ru_object_id r \<and> sc_goal_id s = go_goal_id g
      \<and> ru_as_of r = go_as_of g \<and> sc_confirmed_at s \<noteq> None \<and> g_run_id (cc_planned c) = ru_run_id r)"

definition as_prepared :: "wire_env \<Rightarrow> confirm_commit \<Rightarrow> bool" where
  "as_prepared env c \<longleftrightarrow>
     (let d = rd_draft (cc_draft c) in
      json_eq (goal_dump env (cc_goal c)) (goal_dump env (dr_goal d))
      \<and> json_eq (scheme_dump env ((cc_scheme c)\<lparr>sc_confirmed_at := sc_confirmed_at (dr_scheme d)\<rparr>))
          (scheme_dump env (dr_scheme d)))"

definition actual_graph_bound :: "confirm_commit \<Rightarrow> bool" where
  "actual_graph_bound c \<longleftrightarrow>
     (case cc_actual c of
        None \<Rightarrow> ru_actual_graph_id (cc_run c) = None
      | Some g \<Rightarrow> g_run_id g = ru_run_id (cc_run c) \<and> ru_actual_graph_id (cc_run c) = Some (g_graph_id g))"

definition authoritative_tasks :: "confirm_commit \<Rightarrow> task list" where
  "authoritative_tasks c = (case cc_actual c of None \<Rightarrow> g_tasks (cc_planned c) | Some g \<Rightarrow> g_tasks g)"

definition tasks_of_graph :: "confirm_commit \<Rightarrow> bool" where
  "tasks_of_graph c \<longleftrightarrow>
     (let r = ru_run_id (cc_run c); auth = authoritative_tasks c in
      distinct (task_ids (cc_tasks c)) \<and> distinct (task_ids auth)
      \<and> set (task_ids (cc_tasks c)) = set (task_ids auth)
      \<and> list_all (\<lambda>t. t_run_id t = r) (cc_tasks c @ g_tasks (cc_planned c) @ auth)
      \<and> list_all (\<lambda>t. case find_task (t_task_id t) auth of None \<Rightarrow> True | Some u \<Rightarrow> same_dump t u) (cc_tasks c)
      \<and> (case cc_actual c of None \<Rightarrow> True
          | Some g \<Rightarrow> list_all2 same_dump (g_tasks g) (g_tasks (cc_planned c))))"

definition contiguous :: "string \<Rightarrow> runtime_event list \<Rightarrow> bool" where
  "contiguous run_id evs \<longleftrightarrow> map ev_sequence evs = map int [1..<Suc (length evs)]
     \<and> list_all (\<lambda>e. ev_run_id e = run_id) evs"

definition one_creation :: "runtime_event list \<Rightarrow> bool" where
  "one_creation evs \<longleftrightarrow> distinct (map ev_event_id evs)
     \<and> length (filter (\<lambda>e. ev_type e = RUN_CREATED) evs) = 1"

definition setup_types :: "event_type list" where
  "setup_types = [RUN_CREATED, SCHEME_GENERATED, SCHEME_CONFIRMED, PLAN_GENERATED]"

definition setup_phase :: "runtime_event list \<Rightarrow> bool" where
  "setup_phase evs \<longleftrightarrow> list_all (\<lambda>e. ev_type e \<in> set (setup_types @ [TASK_CREATED])) evs"

definition setup_bound :: "wire_env \<Rightarrow> confirm_commit \<Rightarrow> bool" where
  "setup_bound env c \<longleftrightarrow>
     list_all (\<lambda>(e, _, p). ev_task_id e = None \<and> plain_eq (JObj (ev_payload e)) (JObj p))
       (zip (take 4 (cc_events c)) (setup_payloads env (cc_run c) (cc_scheme c) (cc_planned c)))"

definition creation_bound :: "confirm_commit \<Rightarrow> runtime_event \<times> task \<Rightarrow> bool" where
  "creation_bound c = (\<lambda>(e, planned).
     case find_task (case ev_task_id e of None \<Rightarrow> '''' | Some k \<Rightarrow> k) (cc_tasks c) of
       None \<Rightarrow> False
     | Some t \<Rightarrow> t_status t = TS_CREATED \<and> t_task_id t = t_task_id planned
         \<and> plain_eq (JObj (ev_payload e)) (JObj [(''task_type'', JStr (t_task_type t))]))"

definition creations_cover :: "confirm_commit \<Rightarrow> bool" where
  "creations_cover c \<longleftrightarrow>
     distinct (task_ids (g_tasks (cc_planned c))) \<and> set (task_ids (g_tasks (cc_planned c))) = set (task_ids (cc_tasks c))"

definition check_events :: "wire_env \<Rightarrow> confirm_commit \<Rightarrow> product_exn + unit" where
  "check_events env c =
     (let evs = cc_events c; tasks = g_tasks (cc_planned c);
          identity = integrity_error ''projection'' ''INITIAL_EVENT_IDENTITY_INVALID'' in
     rbind (guard (evs \<noteq> []) (integrity_error ''projection'' ''INITIAL_EVENTS_MISSING'')) (\<lambda>_.
     rbind (guard (contiguous (ru_run_id (cc_run c)) evs)
       (integrity_error ''projection'' ''INITIAL_EVENT_SEQUENCE_INVALID'')) (\<lambda>_.
     rbind (guard (one_creation evs) identity) (\<lambda>_.
     rbind (guard (setup_phase evs) (integrity_error ''projection'' ''INITIAL_EVENT_PHASE_INVALID'')) (\<lambda>_.
     rbind (guard (map ev_type evs = setup_types @ replicate (length tasks) TASK_CREATED) identity) (\<lambda>_.
     rbind (guard (setup_bound env c) identity) (\<lambda>_.
     rbind (guard (list_all (creation_bound c) (zip (drop 4 evs) tasks)) identity) (\<lambda>_.
     guard (creations_cover c) identity))))))))"

definition check_confirm_commit :: "wire_env \<Rightarrow> utext \<Rightarrow> confirm_commit \<Rightarrow> product_exn + unit" where
  "check_confirm_commit env key c =
     (let d = cc_draft c; a = oc_payload (cc_outcome c);
          mismatch = \<lambda>resource. integrity_error resource ''CONFIRM_WRITE_SET_IDENTITY_MISMATCH'' in
     rbind (validate_atomic_key env ''idempotency_outcome'' (cc_outcome c) key) (\<lambda>_.
     rbind (draft_hash_is_valid env (rd_draft d)) (\<lambda>ok.
     rbind (guard ok (integrity_error ''research_run_draft'' ''DRAFT_HASH_INTEGRITY_FAILURE'')) (\<lambda>_.
     rbind (check_request_bound env c) (\<lambda>_.
     rbind (guard (consumed d) (integrity_error ''research_run_draft'' ''DRAFT_NOT_CONSUMED'')) (\<lambda>_.
     rbind (guard (one_admission c) (mismatch ''scheduler_admission'')) (\<lambda>_.
     rbind (guard (admission_of_draft c) (mismatch ''research_run_draft'')) (\<lambda>_.
     rbind (guard (pristine (cc_scheduler c) (ra_admitted_at a))
       (integrity_error ''scheduler_admission'' ''INITIAL_ADMISSION_STATE_INVALID'')) (\<lambda>_.
     rbind (guard (ru_status (cc_run c) = RS_PLANNING \<and> ru_started_at (cc_run c) = None
       \<and> ru_completed_at (cc_run c) = None) (integrity_error ''research_run'' ''CONFIRM_RUN_STATUS_MISMATCH'')) (\<lambda>_.
     rbind (guard (object_closure c) (mismatch ''research_run'')) (\<lambda>_.
     rbind (guard (as_prepared env c) (mismatch ''research_run_draft'')) (\<lambda>_.
     rbind (guard (actual_graph_bound c) (integrity_error ''graph'' ''ACTUAL_GRAPH_IDENTITY_MISMATCH'')) (\<lambda>_.
     rbind (guard (tasks_of_graph c) (integrity_error ''research_run'' ''TASK_GRAPH_IDENTITY_MISMATCH'')) (\<lambda>_.
     check_events env c))))))))))))))"

end
