(* ===== verification/ProductStore.thy ===== *)
theory ProductStore
  imports ConfirmCommit
begin

text \<open>
  The product database and its transactions: the rows of \<open>infrastructure/database/phase4_product.py\<close> and
  \<open>infrastructure/database/draft_leases.py\<close> with their keys, and the operations \<open>prepare_run\<close>, \<open>confirm_run\<close>,
  \<open>renew_exact_draft\<close> and \<open>_start_admitted_run\<close> that read and write them. A table is a list of rows with
  their primary keys. A transaction that raises is rolled back, so it is a function to an error or the new
  database. Confirmations hold the advisory lock of the scope, and the other operations lock the rows they
  change, so transactions are atomic steps.
\<close>

section \<open>Rows\<close>

datatype outcome_body = BodyPrepare draft | BodyConfirm run_admission | BodyOther

record draft_row =
  wr_draft :: draft
  wr_consumed_at :: "timestamp option"
  wr_admission_id :: "string option"
  wr_run_id :: "string option"

record lease_row =
  lr_draft_id :: string
  lr_request_hash :: utext
  lr_authorized_at :: timestamp
  lr_lease :: draft_lease

record run_row =
  rr_run :: research_run
  rr_goal :: goal
  rr_scheme :: scheme
  rr_planned :: planned_task_graph
  rr_actual :: actual_runtime_graph
  rr_revision :: int
  rr_sequence :: int

record product_db =
  pd_objects :: "string list"
  pd_goals :: "(string \<times> goal) list"
  pd_schemes :: "(string \<times> bool \<times> scheme) list"
  pd_drafts :: "(string \<times> draft_row) list"
  pd_leases :: "(utext \<times> lease_row) list"
  pd_outcomes :: "(string \<times> outcome_body outcome) list"
  pd_runs :: "(string \<times> run_row) list"
  pd_planned :: "(string \<times> string) list"
  pd_actual :: "(string \<times> string) list"
  pd_tasks :: "(string \<times> task) list"
  pd_events :: "(string \<times> runtime_event) list"
  pd_admissions :: admission_table

definition insert_row :: "'k \<Rightarrow> 'v \<Rightarrow> ('k \<times> 'v) list \<Rightarrow> product_exn + ('k \<times> 'v) list" where
  "insert_row k v rows = (if k \<in> fst ` set rows then Inl DatabaseIntegrityError else Inr (rows @ [(k, v)]))"

definition update_row :: "'k \<Rightarrow> ('v \<Rightarrow> 'v) \<Rightarrow> ('k \<times> 'v) list \<Rightarrow> ('k \<times> 'v) list" where
  "update_row k f rows = map (\<lambda>(k', v). (k', if k' = k then f v else v)) rows"

fun insert_rows :: "('k \<times> 'v) list \<Rightarrow> ('k \<times> 'v) list \<Rightarrow> product_exn + ('k \<times> 'v) list" where
  "insert_rows [] rows = Inr rows"
| "insert_rows ((k, v) # kvs) rows = rbind (insert_row k v rows) (insert_rows kvs)"

definition outcome_key :: "'p outcome \<Rightarrow> utext \<times> utext \<times> utext \<times> utext" where
  "outcome_key c = (oc_scope c, oc_method c, oc_route c, oc_digest c)"

definition with_payload :: "'p outcome \<Rightarrow> 'q \<Rightarrow> 'q outcome" where
  "with_payload c p = \<lparr>oc_outcome_id = oc_outcome_id c, oc_scope = oc_scope c, oc_digest = oc_digest c,
     oc_method = oc_method c, oc_route = oc_route c, oc_request_hash = oc_request_hash c, oc_payload = p,
     oc_created_at = oc_created_at c\<rparr>"

definition insert_outcome ::
    "outcome_body outcome \<Rightarrow> (string \<times> outcome_body outcome) list
       \<Rightarrow> product_exn + (string \<times> outcome_body outcome) list" where
  "insert_outcome c rows =
     (if outcome_key c \<in> outcome_key ` snd ` set rows then Inl DatabaseIntegrityError
      else insert_row (oc_outcome_id c) c rows)"

definition insert_admission :: "sched_admission \<Rightarrow> admission_table \<Rightarrow> product_exn + admission_table" where
  "insert_admission a rows =
     (if sa_run_id a \<in> sa_run_id ` snd ` set rows \<or> sa_outcome_id a \<in> sa_outcome_id ` snd ` set rows
      then Inl DatabaseIntegrityError else insert_row (sa_admission_id a) a rows)"

definition event_key :: "runtime_event \<Rightarrow> string \<times> int" where
  "event_key e = (ev_run_id e, ev_sequence e)"

fun insert_events ::
    "runtime_event list \<Rightarrow> (string \<times> runtime_event) list \<Rightarrow> product_exn + (string \<times> runtime_event) list" where
  "insert_events [] rows = Inr rows"
| "insert_events (e # es) rows =
     (if event_key e \<in> event_key ` snd ` set rows then Inl DatabaseIntegrityError
      else rbind (insert_row (ev_event_id e) e rows) (insert_events es))"

section \<open>Reading rows\<close>

definition reread_draft :: "wire_env \<Rightarrow> draft \<Rightarrow> product_exn + draft" where
  "reread_draft env d =
     rbind (reread_goal env (dr_goal d)) (\<lambda>g.
     rbind (reread_scheme env (dr_scheme d)) (\<lambda>s.
     rbind (read_time env (we_dump env (dr_created_at d))) (\<lambda>c.
     rbind (read_time env (we_dump env (dr_expires_at d))) (\<lambda>e.
     validated_draft (d\<lparr>dr_goal := g, dr_scheme := s, dr_created_at := c, dr_expires_at := e\<rparr>)))))"

definition reread_admission :: "wire_env \<Rightarrow> run_admission \<Rightarrow> product_exn + run_admission" where
  "reread_admission env a =
     rbind (read_time env (we_dump env (ra_admitted_at a))) (\<lambda>t.
     let b = a\<lparr>ra_admitted_at := t\<rparr> in if run_admission_valid b then Inr b else Inl ProductValueError)"

definition reread_lease :: "wire_env \<Rightarrow> draft_lease \<Rightarrow> product_exn + draft_lease" where
  "reread_lease env l =
     rbind (read_time env (we_dump env (dl_previous_expires_at l))) (\<lambda>p.
     rbind (read_time env (we_dump env (dl_authorized_at l))) (\<lambda>a.
     rbind (read_time env (we_dump env (dl_expires_at l))) (\<lambda>e.
     let b = l\<lparr>dl_previous_expires_at := p, dl_authorized_at := a, dl_expires_at := e\<rparr> in
     if lease_valid b then Inr b else Inl ProductValueError)))"

text \<open>\<open>ORDER BY authorized_at DESC LIMIT 1\<close>.\<close>

definition later_row :: "lease_row option \<Rightarrow> lease_row \<Rightarrow> lease_row option" where
  "later_row best r =
     (case best of None \<Rightarrow> Some r
      | Some b \<Rightarrow> if earlier (lr_authorized_at b) (lr_authorized_at r) then Some r else Some b)"

definition latest_lease_row :: "product_db \<Rightarrow> string \<Rightarrow> lease_row option" where
  "latest_lease_row db draft_id =
     foldl later_row None (filter (\<lambda>r. lr_draft_id r = draft_id) (map snd (pd_leases db)))"

definition latest_lease :: "wire_env \<Rightarrow> product_db \<Rightarrow> string \<Rightarrow> product_exn + draft_lease option" where
  "latest_lease env db draft_id =
     (case latest_lease_row db draft_id of
        None \<Rightarrow> Inr None
      | Some r \<Rightarrow> rbind (reread_lease env (lr_lease r)) (\<lambda>l. Inr (Some l)))"

definition get_draft :: "wire_env \<Rightarrow> product_db \<Rightarrow> string \<Rightarrow> product_exn + draft_record option" where
  "get_draft env db draft_id =
     (case map_of (pd_drafts db) draft_id of
        None \<Rightarrow> Inr None
      | Some w \<Rightarrow>
          rbind (reread_draft env (wr_draft w)) (\<lambda>d.
          rbind (latest_lease env db draft_id) (\<lambda>l.
          rbind (make_draft_record \<lparr>rd_draft = d, rd_consumed_at = wr_consumed_at w,
            rd_admission_id = wr_admission_id w, rd_run_id = wr_run_id w, rd_lease = l\<rparr>) (\<lambda>r. Inr (Some r)))))"

text \<open>The row of an outcome is decoded, which runs the checks of its class again.\<close>

definition decode_outcome :: "wire_env \<Rightarrow> outcome_body outcome \<Rightarrow> product_exn + outcome_body outcome" where
  "decode_outcome env c =
     (case oc_payload c of
        BodyPrepare d \<Rightarrow> rbind (reread_draft env d) (\<lambda>d'.
          rbind (make_prepare_outcome env (with_payload c d')) (\<lambda>_. Inr (with_payload c (BodyPrepare d'))))
      | BodyConfirm a \<Rightarrow> rbind (reread_admission env a) (\<lambda>a'.
          rbind (make_confirm_outcome (with_payload c a')) (\<lambda>_. Inr (with_payload c (BodyConfirm a'))))
      | BodyOther \<Rightarrow> Inr c)"

definition get_outcome ::
    "wire_env \<Rightarrow> product_db \<Rightarrow> utext \<Rightarrow> utext \<Rightarrow> product_exn + outcome_body outcome option" where
  "get_outcome env db route digest =
     (case find (\<lambda>c. outcome_key c = (local_access_scope, ucs ''POST'', route, digest)) (map snd (pd_outcomes db)) of
        None \<Rightarrow> Inr None
      | Some c \<Rightarrow> rbind (decode_outcome env c) (\<lambda>c'. Inr (Some c')))"

definition terminal_run_statuses :: "run_status list" where
  "terminal_run_statuses = [RS_RELEASED, RS_FAILED, RS_CANCELLED]"

definition active_run_ids :: "product_db \<Rightarrow> string list" where
  "active_run_ids db =
     map fst (filter (\<lambda>(k, r). ru_status (rr_run r) \<notin> set terminal_run_statuses) (pd_runs db))"

definition get_active_run_id :: "product_db \<Rightarrow> string option" where
  "get_active_run_id db = (case sort (active_run_ids db) of [] \<Rightarrow> None | k # _ \<Rightarrow> Some k)"

section \<open>Prepare\<close>

text \<open>
  \<open>plan\<close> stands for what happens between the goal and the draft: the scheme generator, its validation and
  the projections. It yields the scheme and the projections of goal and scheme.
\<close>

record prepare_ids =
  pi_goal :: string
  pi_draft :: string
  pi_outcome :: string

definition idempotency_conflict :: product_exn where
  "idempotency_conflict = ProductError PE_CONFLICT ''IDEMPOTENCY_REQUEST_MISMATCH''"

definition insert_prepare_commit :: "prepare_commit \<Rightarrow> product_db \<Rightarrow> product_exn + product_db" where
  "insert_prepare_commit c db =
     (let d = rd_draft (pc_record c) in
     rbind (insert_row (go_goal_id (pc_goal c)) (pc_goal c) (pd_goals db)) (\<lambda>goals.
     rbind (insert_row (sc_scheme_id (pc_scheme c)) (False, pc_scheme c) (pd_schemes db)) (\<lambda>schemes.
     rbind (insert_row (dr_draft_id d) \<lparr>wr_draft = d, wr_consumed_at = None, wr_admission_id = None,
       wr_run_id = None\<rparr> (pd_drafts db)) (\<lambda>drafts.
     rbind (insert_outcome (with_payload (pc_outcome c) (BodyPrepare (oc_payload (pc_outcome c))))
       (pd_outcomes db)) (\<lambda>outcomes.
     Inr (db\<lparr>pd_goals := goals, pd_schemes := schemes, pd_drafts := drafts, pd_outcomes := outcomes\<rparr>))))))"

definition new_goal :: "prepare_request \<Rightarrow> string \<Rightarrow> timestamp \<Rightarrow> goal" where
  "new_goal q goal_id now = \<lparr>go_goal_id = goal_id, go_object_id = pq_object_id q,
     go_type = ''comprehensive_equity_research'', go_text = pq_goal q, go_as_of = pq_as_of q,
     go_preferences = pq_preferences q, go_created_at = now\<rparr>"

definition prepare_run ::
    "wire_env \<Rightarrow> (goal \<Rightarrow> product_exn + scheme \<times> goal \<times> scheme) \<Rightarrow> prepare_ids \<Rightarrow> timestamp \<Rightarrow> prepare_request
       \<Rightarrow> utext \<Rightarrow> product_db \<Rightarrow> product_exn + draft \<times> product_db" where
  "prepare_run env plan ids now q key db =
     rbind (prepare_request_hash env q) (\<lambda>h.
     rbind (of_json (key_digest env prepare_route key)) (\<lambda>digest.
     rbind (get_outcome env db prepare_route digest) (\<lambda>stored.
     case stored of
       Some c \<Rightarrow> (case oc_payload c of
           BodyPrepare d \<Rightarrow> if oc_request_hash c = h then Inr (d, db) else Inl idempotency_conflict
         | _ \<Rightarrow> Inl idempotency_conflict)
     | None \<Rightarrow>
         rbind (guard (pq_object_id q \<in> set (pd_objects db)) (product_error PE_NOT_FOUND ''research_object'' '''')) (\<lambda>_.
         let g = new_goal q (''GOAL-'' @ pi_goal ids) now in
         rbind (plan g) (\<lambda>(s, gp, sp).
         rbind (build_prepare_draft env q (''DRAFT-'' @ pi_draft ids) gp sp now) (\<lambda>d.
         rbind (make_prepare_outcome env \<lparr>oc_outcome_id = ''OUT-'' @ pi_outcome ids, oc_scope = local_access_scope,
           oc_digest = digest, oc_method = ucs ''POST'', oc_route = prepare_route, oc_request_hash = h,
           oc_payload = d, oc_created_at = dr_created_at d\<rparr>) (\<lambda>out.
         let c = \<lparr>pc_outcome = out, pc_request = q, pc_record = fresh_record d, pc_goal = g, pc_scheme = s\<rparr> in
         rbind (check_prepare_commit env key c) (\<lambda>_.
         rbind (insert_prepare_commit c db) (\<lambda>db'.
         Inr (d, db'))))))))))"

section \<open>Renewal of a draft\<close>

record renew_request =
  rn_object_id :: string
  rn_draft_hash :: utext
  rn_scheme_id :: string
  rn_base_run_id :: string
  rn_base_view :: string
  rn_previous_expires_at :: timestamp

definition renew_dump :: "wire_env \<Rightarrow> renew_request \<Rightarrow> jvalue" where
  "renew_dump env q = VDict
     [field ''research_object_id'' (jtext (rn_object_id q)), field ''draft_hash'' (VText (rn_draft_hash q)),
      field ''scheme_id'' (jtext (rn_scheme_id q)), field ''base_run_id'' (jtext (rn_base_run_id q)),
      field ''base_research_view_version'' (jtext (rn_base_view q)),
      field ''previous_expires_at'' (jtime env (rn_previous_expires_at q))]"

definition hash_json :: "wire_env \<Rightarrow> jvalue \<Rightarrow> product_exn + utext" where
  "hash_json env v = of_json (canonical_json_sha256 (we_repr env) (we_sha env) v)"

definition lease_id_of :: "wire_env \<Rightarrow> string \<Rightarrow> utext \<Rightarrow> product_exn + utext" where
  "lease_id_of env draft_id key =
     rbind (hash_json env (VDict [field ''draft_id'' (jtext draft_id), field ''idempotency_key'' (VText key)])) (\<lambda>h.
     Inr (ucs ''LEASE-'' @ tl (dropWhile (\<lambda>c. c \<noteq> 58) h)))"

definition load_record :: "wire_env \<Rightarrow> product_db \<Rightarrow> string \<Rightarrow> product_exn + draft_record" where
  "load_record env db draft_id =
     (case map_of (pd_drafts db) draft_id of
        None \<Rightarrow> Inl (ProductError PE_NOT_FOUND '''')
      | Some w \<Rightarrow>
          rbind (reread_draft env (wr_draft w)) (\<lambda>d.
          rbind (draft_hash_is_valid env d) (\<lambda>ok.
          rbind (guard ok (ProductError PE_INTEGRITY_FAILURE '''')) (\<lambda>_.
          rbind (latest_lease env db draft_id) (\<lambda>l.
          make_draft_record \<lparr>rd_draft = d, rd_consumed_at = wr_consumed_at w,
            rd_admission_id = wr_admission_id w, rd_run_id = wr_run_id w, rd_lease = l\<rparr>)))))"

definition renews_exactly :: "draft \<Rightarrow> renew_request \<Rightarrow> bool" where
  "renews_exactly d q \<longleftrightarrow>
     (case sc_context (dr_scheme d) of
        None \<Rightarrow> False
      | Some c \<Rightarrow>
          (rn_draft_hash q, rn_scheme_id q, rn_object_id q, rn_base_run_id q, rn_base_view q)
            = (dr_hash d, sc_scheme_id (dr_scheme d), dr_object_id d, ic_base_run_id c, ic_base_view c))"

definition make_lease :: "draft_lease \<Rightarrow> product_exn + draft_lease" where
  "make_lease l = (if lease_valid l then Inr l else Inl ProductValueError)"

definition renew_exact_draft ::
    "wire_env \<Rightarrow> timestamp \<Rightarrow> string \<Rightarrow> renew_request \<Rightarrow> utext \<Rightarrow> product_db
       \<Rightarrow> product_exn + draft_lease \<times> product_db" where
  "renew_exact_draft env now draft_id q key db =
     rbind (hash_json env (renew_dump env q)) (\<lambda>fingerprint.
     rbind (lease_id_of env draft_id key) (\<lambda>lease_id.
     rbind (load_record env db draft_id) (\<lambda>r.
     let d = rd_draft r; conflict = ProductError PE_CONFLICT '''' in
     rbind (guard (renews_exactly d q) conflict) (\<lambda>_.
     rbind (guard (\<not> consumed r) conflict) (\<lambda>_.
     case map_of (pd_leases db) lease_id of
       Some row \<Rightarrow>
         rbind (guard (lr_request_hash row = fingerprint) conflict) (\<lambda>_.
         rbind (reread_lease env (lr_lease row)) (\<lambda>l. Inr (l, db)))
     | None \<Rightarrow>
         rbind (guard (ts_utcoffset (rn_previous_expires_at q) \<noteq> None
           \<and> ts_instant (rn_previous_expires_at q) = ts_instant (effective_expires_at r)) conflict) (\<lambda>_.
         rbind (guard (\<not> earlier now (effective_expires_at r)) conflict) (\<lambda>_.
         rbind (make_lease \<lparr>dl_lease_id = lease_id, dl_draft_id = draft_id, dl_draft_hash = dr_hash d,
           dl_scheme_id = rn_scheme_id q, dl_base_run_id = rn_base_run_id q, dl_base_view = rn_base_view q,
           dl_previous_expires_at = effective_expires_at r, dl_authorized_at = now,
           dl_expires_at = shifted now draft_expiry\<rparr>) (\<lambda>l.
         rbind (insert_row lease_id \<lparr>lr_draft_id = draft_id, lr_request_hash = fingerprint,
           lr_authorized_at = now, lr_lease = l\<rparr> (pd_leases db)) (\<lambda>leases.
         Inr (l, db\<lparr>pd_leases := leases\<rparr>))))))))))"

record draft_review =
  xr_draft :: draft
  xr_effective_expires_at :: timestamp
  xr_lease_id :: "utext option"
  xr_consumed :: bool
  xr_lease_valid :: bool

definition read_exact_draft :: "wire_env \<Rightarrow> timestamp \<Rightarrow> string \<Rightarrow> product_db \<Rightarrow> product_exn + draft_review" where
  "read_exact_draft env now draft_id db =
     rbind (load_record env db draft_id) (\<lambda>r.
     Inr \<lparr>xr_draft = rd_draft r, xr_effective_expires_at = effective_expires_at r,
       xr_lease_id = map_option dl_lease_id (rd_lease r), xr_consumed = consumed r,
       xr_lease_valid = (\<not> consumed r \<and> earlier now (effective_expires_at r))\<rparr>)"

end
