(* ===== verification/ConfirmRun.thy ===== *)
theory ConfirmRun
  imports ProductStore
begin

text \<open>
  Accepting a confirmation and starting the accepted run: \<open>confirm_run\<close>, \<open>_start_admitted_run\<close> and the scheduler
  loop of \<open>phase4_product/postgresql_backend.py\<close>, \<open>insert_confirm_commit\<close> and \<open>publish\<close> of
  \<open>infrastructure/database/phase4_product.py\<close>, and \<open>bind_incremental_plan\<close> of \<open>phase4_product/incremental.py\<close>.
\<close>

section \<open>Planning\<close>

text \<open>
  A planner is outside: it returns a graph, with the goal and the scheme as it left them (it gets the
  objects themselves), or fails with a planning error, or raises something else.
\<close>

datatype plan_outcome =
    PlanReady planned_task_graph goal scheme
  | PlanFailed string
  | PlanRaised product_exn

type_synonym planner = "string \<Rightarrow> goal \<Rightarrow> scheme \<Rightarrow> plan_outcome"

record backend =
  be_planner :: planner
  be_incremental :: "planner option"
  be_agents :: agent_registry

definition incremental_constraint :: string where
  "incremental_constraint =
     '' Incremental policy: prior research is historical context only. '' @
     ''Acquire fresh evidence owned by this Run; revalidate financial claims with new '' @
     ''calculations, review and proof. Do not inherit prior approval.''"

definition prevention_constraint :: string where
  "prevention_constraint = '' Check financial input period consistency before calculations.''"

definition constraint_of :: "inc_context \<Rightarrow> string" where
  "constraint_of c = incremental_constraint
     @ (if list_ex (\<lambda>d. id_decision d = ID_PREVENT) (ic_decisions c) then prevention_constraint else [])"

definition own_fresh_task :: "string \<Rightarrow> task \<Rightarrow> bool" where
  "own_fresh_task run_id t \<longleftrightarrow>
     t_run_id t = run_id \<and> take (length run_id + 1) (t_task_id t) = run_id @ '':''
     \<and> t_task_input_evidence_ids t = [] \<and> t_task_output_evidence_ids t = []
     \<and> (case t_result_ref t of None \<Rightarrow> True | Some r \<Rightarrow> r = [])"

definition bind_incremental_plan :: "planned_task_graph \<Rightarrow> inc_context \<Rightarrow> product_exn + planned_task_graph" where
  "bind_incremental_plan g c =
     rbind (guard (g_run_id g \<noteq> ic_base_run_id c) ProductValueError) (\<lambda>_.
     rbind (guard (list_all (own_fresh_task (g_run_id g)) (g_tasks g)) ProductValueError) (\<lambda>_.
     Inr (g\<lparr>g_tasks := map (\<lambda>t. t\<lparr>t_goal := t_goal t @ constraint_of c\<rparr>) (g_tasks g)\<rparr>)))"

definition binding_error :: product_exn where
  "binding_error = ProductError PE_CONFLICT ''GRAPH_RUNTIME_BINDING_INVALID''"

definition chosen_planner :: "backend \<Rightarrow> scheme \<Rightarrow> product_exn + planner" where
  "chosen_planner be s =
     (case sc_context s of
        None \<Rightarrow> Inr (be_planner be)
      | Some _ \<Rightarrow> (case be_incremental be of None \<Rightarrow> Inl (ProductError PE_CONFLICT '''') | Some p \<Rightarrow> Inr p))"

definition plan_run ::
    "wire_env \<Rightarrow> backend \<Rightarrow> string \<Rightarrow> goal \<Rightarrow> scheme \<Rightarrow> product_exn + planned_task_graph \<times> goal \<times> scheme" where
  "plan_run env be run_id g s =
     rbind (chosen_planner be s) (\<lambda>planner.
     case planner run_id g s of
       PlanFailed reason \<Rightarrow> Inl (ProductError PE_CONFLICT reason)
     | PlanRaised e \<Rightarrow> Inl e
     | PlanReady graph g' s' \<Rightarrow>
         rbind (guard (json_eq (scheme_dump env s') (scheme_dump env s) \<and> json_eq (goal_dump env g') (goal_dump env g)
           \<and> g_run_id graph = run_id) binding_error) (\<lambda>_.
         rbind (guard (validate_graph_runtime_bindings graph (be_agents be) (Some (sc_skills s'))) binding_error) (\<lambda>_.
         rbind (case sc_context s' of None \<Rightarrow> Inr graph | Some c \<Rightarrow> bind_incremental_plan graph c) (\<lambda>bound.
         Inr (bound, g', s')))))"

section \<open>The confirmed write set\<close>

record confirm_ids =
  ci_run :: string
  ci_admission :: string
  ci_outcome :: string
  ci_event :: "nat \<Rightarrow> string"

record confirm_clock =
  ck_checked :: timestamp
  ck_confirmed :: timestamp
  ck_admitted :: timestamp
  ck_created :: int

definition stored_graph :: "confirm_commit \<Rightarrow> int \<Rightarrow> actual_runtime_graph" where
  "stored_graph c created =
     (case cc_actual c of
        Some g \<Rightarrow> g
      | None \<Rightarrow> \<lparr>g_created_at = created, g_graph_id = ''ACTUAL-'' @ ru_run_id (cc_run c),
          g_run_id = ru_run_id (cc_run c), g_version = 1, g_tasks = cc_tasks c, g_mutation_history = []\<rparr>)"

definition consume_row :: "draft_record \<Rightarrow> draft_row \<Rightarrow> draft_row" where
  "consume_row r w =
     (if wr_consumed_at w = None
      then w\<lparr>wr_consumed_at := rd_consumed_at r, wr_admission_id := rd_admission_id r, wr_run_id := rd_run_id r\<rparr>
      else w)"

definition insert_confirm_commit :: "int \<Rightarrow> confirm_commit \<Rightarrow> product_db \<Rightarrow> product_exn + product_db" where
  "insert_confirm_commit created c db =
     (let r = cc_run c; run_id = ru_run_id r in
     rbind (insert_row run_id \<lparr>rr_run = r, rr_goal = cc_goal c, rr_scheme = cc_scheme c, rr_planned = cc_planned c,
       rr_actual = stored_graph c created, rr_revision = 1, rr_sequence = int (length (cc_events c))\<rparr> (pd_runs db)) (\<lambda>runs.
     rbind (insert_row (g_graph_id (cc_planned c)) run_id (pd_planned db)) (\<lambda>planned.
     rbind (case cc_actual c of None \<Rightarrow> Inr (pd_actual db) | Some g \<Rightarrow> insert_row (g_graph_id g) run_id (pd_actual db)) (\<lambda>actual.
     rbind (insert_rows (map (\<lambda>t. (t_task_id t, t)) (cc_tasks c)) (pd_tasks db)) (\<lambda>tasks.
     rbind (insert_outcome (with_payload (cc_outcome c) (BodyConfirm (oc_payload (cc_outcome c)))) (pd_outcomes db)) (\<lambda>outcomes.
     rbind (insert_admission (cc_scheduler c) (pd_admissions db)) (\<lambda>admissions.
     rbind (insert_events (cc_events c) (pd_events db)) (\<lambda>events.
     Inr (db\<lparr>pd_drafts := update_row (dr_draft_id (rd_draft (cc_draft c))) (consume_row (cc_draft c)) (pd_drafts db),
       pd_schemes := update_row (sc_scheme_id (cc_scheme c)) (\<lambda>_. (True, cc_scheme c)) (pd_schemes db),
       pd_runs := runs, pd_planned := planned, pd_actual := actual, pd_tasks := tasks,
       pd_outcomes := outcomes, pd_admissions := admissions, pd_events := events\<rparr>)))))))))"

definition new_run :: "string \<Rightarrow> goal \<Rightarrow> scheme \<Rightarrow> string \<Rightarrow> string \<Rightarrow> string \<Rightarrow> timestamp \<Rightarrow> research_run" where
  "new_run run_id g s object_id planned_id actual_id now =
     \<lparr>ru_run_id = run_id, ru_object_id = object_id, ru_goal_id = go_goal_id g, ru_scheme_id = sc_scheme_id s,
      ru_status = RS_PLANNING, ru_as_of = go_as_of g, ru_planned_graph_id = Some planned_id,
      ru_actual_graph_id = Some actual_id, ru_started_at = None, ru_completed_at = None, ru_created_at = now,
      ru_updated_at = now, ru_base_run_id = map_option ic_base_run_id (sc_context s),
      ru_base_view = map_option ic_base_view (sc_context s), ru_reexecution_of = None\<rparr>"

definition created_state :: "int \<Rightarrow> string \<Rightarrow> planned_task_graph \<Rightarrow> product_exn + runtime_state" where
  "created_state now run_id g =
     (case create_state now run_id g None of Inl _ \<Rightarrow> Inl ProductValueError | Inr st \<Rightarrow> Inr st)"

text \<open>From the validated request to the commit.\<close>

definition build_commit ::
    "wire_env \<Rightarrow> backend \<Rightarrow> confirm_ids \<Rightarrow> confirm_clock \<Rightarrow> draft_record \<Rightarrow> validated_confirm \<Rightarrow> utext \<Rightarrow> utext \<Rightarrow> utext
       \<Rightarrow> product_exn + confirm_commit" where
  "build_commit env be ids ck r v h digest key =
     (let d = vc_draft v; run_id = ''RUN-'' @ ci_run ids; now = ck_admitted ck in
     rbind (reread_goal env (dr_goal d)) (\<lambda>g0.
     rbind (reread_scheme env (dr_scheme d)) (\<lambda>s0.
     rbind (plan_run env be run_id g0 (s0\<lparr>sc_confirmed_at := Some (ck_confirmed ck)\<rparr>)) (\<lambda>(planned, g, s).
     rbind (created_state (ck_created ck) run_id planned) (\<lambda>st.
     let actual = rs_actual_graph st in
     rbind (make_run (new_run run_id g s (dr_object_id d) (g_graph_id planned) (g_graph_id actual) now)) (\<lambda>run.
     rbind (build_run_admission v (''ADM-'' @ ci_admission ids) run_id (g_graph_id planned) now) (\<lambda>a.
     rbind (make_confirm_outcome \<lparr>oc_outcome_id = ''OUT-'' @ ci_outcome ids, oc_scope = local_access_scope,
       oc_digest = digest, oc_method = ucs ''POST'', oc_route = confirm_route, oc_request_hash = h,
       oc_payload = a, oc_created_at = now\<rparr>) (\<lambda>out.
     rbind (initial_events env (ci_event ids) run s planned now) (\<lambda>evs.
     rbind (mark_draft_consumed r a now) (\<lambda>tomb.
     rbind (build_scheduler_admission a (oc_outcome_id out) 3 now) (\<lambda>sched.
     let c = \<lparr>cc_draft = tomb, cc_outcome = out, cc_request = vc_request v, cc_scheduler = sched, cc_goal = g,
       cc_scheme = s, cc_run = run, cc_planned = planned, cc_actual = Some actual, cc_tasks = g_tasks actual,
       cc_events = evs\<rparr> in
     rbind (check_confirm_commit env key c) (\<lambda>_.
     Inr c))))))))))))"

text \<open>The transaction: the admission, whether it is a replay, and the database.\<close>

definition confirm_transaction ::
    "wire_env \<Rightarrow> backend \<Rightarrow> confirm_ids \<Rightarrow> confirm_clock \<Rightarrow> confirm_request \<Rightarrow> utext \<Rightarrow> product_db
       \<Rightarrow> product_exn + run_admission \<times> bool \<times> product_db" where
  "confirm_transaction env be ids ck q key db =
     rbind (confirmation_request_hash env q) (\<lambda>h.
     rbind (of_json (key_digest env confirm_route key)) (\<lambda>digest.
     rbind (get_outcome env db confirm_route digest) (\<lambda>stored.
     case stored of
       Some c \<Rightarrow> (case oc_payload c of
           BodyConfirm a \<Rightarrow> if oc_request_hash c = h then Inr (a, True, db) else Inl idempotency_conflict
         | _ \<Rightarrow> Inl idempotency_conflict)
     | None \<Rightarrow>
         rbind (get_draft env db (cq_draft_id q)) (\<lambda>found.
         case found of
           None \<Rightarrow> Inl (product_error PE_NOT_FOUND ''research_run_draft'' '''')
         | Some r \<Rightarrow>
             rbind (validate_confirm_request env r q (ck_checked ck)) (\<lambda>v.
             rbind (guard (get_active_run_id db = None) (product_error PE_CONFLICT ''research_run'' ''RUN_ALREADY_ACTIVE'')) (\<lambda>_.
             rbind (build_commit env be ids ck r v h digest key) (\<lambda>c.
             rbind (insert_confirm_commit (ck_created ck) c db) (\<lambda>db'.
             Inr (oc_payload (cc_outcome c), False, db')))))))))"

text \<open>The response is built after the commit: raising there (a blank request id) does not undo it.\<close>

definition confirm_run ::
    "wire_env \<Rightarrow> backend \<Rightarrow> confirm_ids \<Rightarrow> confirm_clock \<Rightarrow> confirm_request \<Rightarrow> utext \<Rightarrow> string option \<Rightarrow> product_db
       \<Rightarrow> (product_exn + confirm_response) \<times> product_db" where
  "confirm_run env be ids ck q key request_id db =
     (case confirm_transaction env be ids ck q key db of
        Inl e \<Rightarrow> (Inl e, db)
      | Inr (a, replayed, db') \<Rightarrow> (build_confirm_response a request_id replayed, db'))"

section \<open>Starting an admitted run\<close>

record write_set =
  ws_run_id :: string
  ws_expected_revision :: int
  ws_run :: "research_run option"
  ws_tasks :: "task list"
  ws_events :: "runtime_event list"

definition make_write_set :: "write_set \<Rightarrow> product_exn + write_set" where
  "make_write_set w =
     rbind (require_nonblank (ws_run_id w)) (\<lambda>_.
     rbind (guard (1 \<le> ws_expected_revision w) (request_error ''INVALID_PROJECTION_REVISION'')) (\<lambda>_.
     rbind (guard (ws_run w \<noteq> None \<or> ws_tasks w \<noteq> [] \<or> ws_events w \<noteq> []) (request_error ''EMPTY_PROJECTION_WRITE_SET'')) (\<lambda>_.
     rbind (guard ((case ws_run w of None \<Rightarrow> True | Some r \<Rightarrow> ru_run_id r = ws_run_id w)
         \<and> list_all (\<lambda>t. t_run_id t = ws_run_id w) (ws_tasks w) \<and> list_all (\<lambda>e. ev_run_id e = ws_run_id w) (ws_events w))
       (integrity_error ''projection'' ''PROJECTION_WRITE_SET_IDENTITY_MISMATCH'')) (\<lambda>_.
     Inr w))))"

fun upsert_tasks :: "task list \<Rightarrow> (string \<times> task) list \<Rightarrow> (string \<times> task) list" where
  "upsert_tasks [] rows = rows"
| "upsert_tasks (t # ts) rows =
     upsert_tasks ts (if t_task_id t \<in> fst ` set rows then update_row (t_task_id t) (\<lambda>_. t) rows
       else rows @ [(t_task_id t, t)])"

definition publish :: "write_set \<Rightarrow> product_db \<Rightarrow> product_exn + (int \<times> int) \<times> product_db" where
  "publish w db =
     (case map_of (pd_runs db) (ws_run_id w) of
        None \<Rightarrow> Inl (ProductError PE_NOT_FOUND '''')
      | Some base \<Rightarrow>
          rbind (guard (rr_revision base = ws_expected_revision w)
            (product_error PE_CONFLICT ''projection'' ''STALE_PROJECTION_REVISION'')) (\<lambda>_.
          let last = rr_sequence base + int (length (ws_events w)) in
          rbind (guard (map ev_sequence (ws_events w) = map (\<lambda>i. rr_sequence base + 1 + int i) [0..<length (ws_events w)])
            (integrity_error ''projection'' '''')) (\<lambda>_.
          rbind (insert_events (ws_events w) (pd_events db)) (\<lambda>events.
          Inr ((rr_revision base + 1, last),
            db\<lparr>pd_events := events,
              pd_runs := update_row (ws_run_id w)
                (\<lambda>x. x\<lparr>rr_run := (case ws_run w of None \<Rightarrow> rr_run x | Some r \<Rightarrow> r),
                  rr_revision := rr_revision base + 1, rr_sequence := last\<rparr>) (pd_runs db),
              pd_tasks := upsert_tasks (ws_tasks w) (pd_tasks db)\<rparr>)))))"

definition lease_duration :: int where
  "lease_duration = 5 * 60 * 1000000"

definition started_run :: "timestamp \<Rightarrow> research_run \<Rightarrow> research_run" where
  "started_run now r = r\<lparr>ru_status := RS_RUNNING, ru_started_at := Some now, ru_updated_at := now\<rparr>"

definition start_event :: "timestamp \<Rightarrow> string \<Rightarrow> run_row \<Rightarrow> runtime_event" where
  "start_event now e row = \<lparr>ev_event_id = ''EVT-'' @ e, ev_run_id = ru_run_id (rr_run row), ev_task_id = None,
     ev_type = RUN_STARTED, ev_timestamp = now, ev_sequence = rr_sequence row + 1,
     ev_payload = [(''actual_graph_version'', JInt (g_version (rr_actual row)))]\<rparr>"

definition begin_run ::
    "timestamp \<Rightarrow> string \<Rightarrow> sched_admission \<Rightarrow> lease_fence \<Rightarrow> run_row \<Rightarrow> product_db \<Rightarrow> product_exn + product_db" where
  "begin_run now event_id leased fence row db =
     rbind (make_event (start_event now event_id row)) (\<lambda>event.
     rbind (make_write_set \<lparr>ws_run_id = ru_run_id (rr_run row), ws_expected_revision = rr_revision row,
       ws_run = Some (started_run now (rr_run row)), ws_tasks = [], ws_events = [event]\<rparr>) (\<lambda>w.
     rbind (publish w db) (\<lambda>(_, db').
     rbind (record_scheduler_run_start leased fence now (ev_event_id event) (ev_sequence event)) (\<lambda>started.
     rbind (acknowledge_scheduler_admission started fence now) (\<lambda>acknowledged.
     let (kept, rows) = replace_fenced (pd_admissions db') acknowledged (lf_generation fence) in
     if kept then Inr (db'\<lparr>pd_admissions := rows\<rparr>) else Inl (ProductError PE_CONFLICT ''''))))))"

definition start_admitted_run ::
    "string \<Rightarrow> timestamp \<Rightarrow> string \<Rightarrow> string \<Rightarrow> product_db \<Rightarrow> product_exn + product_db" where
  "start_admitted_run worker now event_id admission_id db =
     (case map_of (pd_admissions db) admission_id of
        None \<Rightarrow> Inr db
      | Some current \<Rightarrow>
          rbind (lease_scheduler_admission current worker now lease_duration) (\<lambda>(leased, fence).
          let (stored, rows) = replace_fenced (pd_admissions db) leased (sa_generation current) in
          if \<not> stored then Inr db
          else (case map_of (pd_runs db) (sa_run_id leased) of
              None \<Rightarrow> Inl (product_error PE_NOT_FOUND ''research_run'' '''')
            | Some row \<Rightarrow> begin_run now event_id leased fence row (db\<lparr>pd_admissions := rows\<rparr>))))"

text \<open>
  One round of the scheduler loop: a \<open>ProductError\<close> of one delivery is skipped, any other exception ends the
  loop. \<open>clock\<close> and \<open>events\<close> give the time and the event id drawn for each delivery.
\<close>

fun deliver_due ::
    "string \<Rightarrow> (string \<Rightarrow> timestamp) \<Rightarrow> (string \<Rightarrow> string) \<Rightarrow> string list \<Rightarrow> product_db \<Rightarrow> product_exn option \<times> product_db" where
  "deliver_due worker clock events [] db = (None, db)"
| "deliver_due worker clock events (k # ks) db =
     (case start_admitted_run worker (clock k) (events k) k db of
        Inr db' \<Rightarrow> deliver_due worker clock events ks db'
      | Inl (ProductError code reason) \<Rightarrow> deliver_due worker clock events ks db
      | Inl e \<Rightarrow> (Some e, db))"

definition scheduler_round ::
    "string \<Rightarrow> timestamp \<Rightarrow> (string \<Rightarrow> timestamp) \<Rightarrow> (string \<Rightarrow> string) \<Rightarrow> product_db \<Rightarrow> product_exn option \<times> product_db" where
  "scheduler_round worker now clock events db =
     deliver_due worker clock events (list_due_admission_ids (pd_admissions db) now 16) db"

end
