(* ===== verification/PlainJson.thy ===== *)
theory PlainJson
  imports CanonicalFacts
begin

text \<open>
  Canonical JSON is total on plain values: no float, no integer beyond the safe range, no surrogate in a
  text, no key that is not a text. Such values always have a hash.
\<close>

definition plain_text :: "utext \<Rightarrow> bool" where
  "plain_text s \<longleftrightarrow> list_all (\<lambda>c. \<not> surrogate c) s"

fun plain :: "jvalue \<Rightarrow> bool" where
  "plain VNull = True"
| "plain (VBool b) = True"
| "plain (VInt i) = (\<bar>i\<bar> \<le> max_safe_integer)"
| "plain (VText s) = plain_text s"
| "plain (VList vs) = list_all plain vs"
| "plain (VDict es) = list_all (\<lambda>e. fst e \<noteq> None \<and> plain_text (key_text e) \<and> plain (snd e)) es"
| "plain (VFloat x) = False"
| "plain VOther = False"

lemma plain_text_iff: "plain_text s \<longleftrightarrow> (\<forall>c\<in>set s. \<not> surrogate c)"
  by (simp add: plain_text_def list_all_iff)

lemma small_not_surrogate: "c < 256 \<Longrightarrow> \<not> surrogate c"
  by (simp add: surrogate_def)

lemma plain_ucs [simp]: "plain_text (ucs s)"
  by (auto simp: plain_text_iff ucs_def intro!: small_not_surrogate)

lemma plain_escape: "\<not> surrogate c \<Longrightarrow> plain_text (escape_char c)"
  by (auto simp: escape_char_def hex_digit_def plain_text_iff Let_def intro!: small_not_surrogate)

lemma serialize_string_plain:
  assumes "plain_text s"
  shows "\<exists>t. serialize_string s = Inr t \<and> plain_text t"
proof -
  have "plain_text ([34] @ concat (map escape_char s) @ [34])"
    using assms plain_escape by (fastforce simp: plain_text_iff surrogate_def)
  with assms show ?thesis by (simp add: serialize_string_def utf8_def plain_text_def)
qed

lemma joined_plain: "list_all plain_text ts \<Longrightarrow> plain_text (joined ts)"
  by (induction ts rule: joined.induct) (auto simp: plain_text_iff small_not_surrogate)

lemma rmap_total:
  assumes "\<And>x. x \<in> set xs \<Longrightarrow> \<exists>t. f x = Inr t \<and> P t"
  shows "\<exists>ts. rmap f xs = Inr ts \<and> list_all P ts"
  using assms
proof (induction xs)
  case Nil
  then show ?case by simp
next
  case (Cons x xs)
  then obtain t ts where "f x = Inr t" "P t" "rmap f xs = Inr ts" "list_all P ts" by (meson list.set_intros)
  then show ?case by simp
qed

lemma utf16_sort_key_plain: "plain_text s \<Longrightarrow> utf16_sort_key s = Inr (utf16_be s)"
  by (simp add: utf16_sort_key_def plain_text_def)

lemma serialize_plain: "plain v \<Longrightarrow> \<exists>t. serialize repr v = Inr t \<and> plain_text t"
proof (induction v rule: plain.induct)
  case (4 s)
  then show ?case using serialize_string_plain by simp
next
  case (5 vs)
  then have "\<exists>ts. rmap (serialize repr) vs = Inr ts \<and> list_all plain_text ts"
    by (intro rmap_total) (simp add: list_all_iff)
  then show ?case using joined_plain by (fastforce simp: plain_text_iff small_not_surrogate)
next
  case (6 es)
  have "\<exists>ts. rmap (\<lambda>e. utf16_sort_key (key_text e)) es = Inr ts \<and> list_all (\<lambda>_. True) ts"
    using 6(2) by (intro rmap_total) (simp add: list_all_iff utf16_sort_key_plain)
  moreover have "\<exists>ts. rmap (\<lambda>e. rbind (serialize_string (key_text e)) (\<lambda>k.
      rbind (serialize repr (snd e)) (\<lambda>t. Inr (k @ [58] @ t)))) (sorted_entries es) = Inr ts \<and> list_all plain_text ts"
  proof (rule rmap_total)
    fix e assume "e \<in> set (sorted_entries es)"
    then have e: "e \<in> set es" by simp
    obtain t where t: "serialize repr (snd e) = Inr t" "plain_text t"
      using 6(1) [OF e] 6(2) e by (auto simp: list_all_iff)
    obtain k where "serialize_string (key_text e) = Inr k" "plain_text k"
      using serialize_string_plain [of "key_text e"] 6(2) e by (auto simp: list_all_iff)
    with t show "\<exists>t. rbind (serialize_string (key_text e)) (\<lambda>k. rbind (serialize repr (snd e)) (\<lambda>t. Inr (k @ [58] @ t))) = Inr t
        \<and> plain_text t"
      by (auto simp: plain_text_iff small_not_surrogate)
  qed
  moreover have "list_all (\<lambda>e. fst e \<noteq> None) es" using 6(2) by (simp add: list_all_iff)
  ultimately show ?case using joined_plain
    by (fastforce simp: plain_text_iff small_not_surrogate)
qed (simp_all add: not_less)

lemma plain_hash: "plain v \<Longrightarrow> canonical_json_sha256 repr (\<lambda>_. h) v = Inr (ucs ''sha256:'' @ h)"
  using serialize_plain [of v repr]
  by (auto simp: canonical_json_sha256_def canonical_json_bytes_def utf8_def plain_text_def sha256_bytes_def)

lemma plain_hash_ok: "plain v \<Longrightarrow> is_ok (canonical_json_sha256 repr sha v)"
  using serialize_plain [of v repr]
  by (auto simp: canonical_json_sha256_def canonical_json_bytes_def utf8_def plain_text_def is_ok_iff)

end
