(* ===== verification/ProductFacts.thy ===== *)
theory ProductFacts
  imports ConfirmRun
begin

text \<open>
  Facts of the rows, of the checks of a write set, and the inversion of the transactions.
\<close>

section \<open>Rows\<close>

lemma insert_row_Inr: "insert_row k v rows = Inr rows' \<longleftrightarrow> k \<notin> fst ` set rows \<and> rows' = rows @ [(k, v)]"
  by (auto simp: insert_row_def)

lemma insert_outcome_Inr:
  "insert_outcome c rows = Inr rows' \<longleftrightarrow>
     outcome_key c \<notin> outcome_key ` snd ` set rows \<and> oc_outcome_id c \<notin> fst ` set rows
     \<and> rows' = rows @ [(oc_outcome_id c, c)]"
  by (auto simp: insert_outcome_def insert_row_Inr)

lemma insert_admission_Inr:
  "insert_admission a rows = Inr rows' \<longleftrightarrow>
     sa_run_id a \<notin> sa_run_id ` snd ` set rows \<and> sa_outcome_id a \<notin> sa_outcome_id ` snd ` set rows
     \<and> sa_admission_id a \<notin> fst ` set rows \<and> rows' = rows @ [(sa_admission_id a, a)]"
  by (auto simp: insert_admission_def insert_row_Inr)

lemma insert_events_Inr: "insert_events es rows = Inr rows' \<Longrightarrow> rows' = rows @ map (\<lambda>e. (ev_event_id e, e)) es"
  by (induction es arbitrary: rows) (fastforce simp: rbind_Inr_iff insert_row_Inr split: if_splits)+

lemma insert_rows_Inr: "insert_rows kvs rows = Inr rows' \<Longrightarrow> rows' = rows @ kvs"
  by (induction kvs arbitrary: rows) (fastforce simp: rbind_Inr_iff insert_row_Inr)+

lemma map_of_snoc: "k \<notin> fst ` set rows \<Longrightarrow> map_of (rows @ [(k, v)]) k = Some v"
  by (simp add: map_add_def map_of_eq_None_iff [THEN iffD2])

lemma fst_update_row [simp]: "map fst (update_row k f rows) = map fst rows"
  by (induction rows) (auto simp: update_row_def)

lemma map_of_update_row:
  "map_of (update_row k f rows) j = (if j = k then map_option f (map_of rows j) else map_of rows j)"
  by (induction rows) (auto simp: update_row_def)

lemma fst_set_update_row [simp]: "fst ` set (update_row k f rows) = fst ` set rows"
  by (metis fst_update_row set_map)

lemma with_payload_simps [simp]:
  "oc_outcome_id (with_payload c p) = oc_outcome_id c" "oc_scope (with_payload c p) = oc_scope c"
  "oc_digest (with_payload c p) = oc_digest c" "oc_method (with_payload c p) = oc_method c"
  "oc_route (with_payload c p) = oc_route c" "oc_request_hash (with_payload c p) = oc_request_hash c"
  "oc_payload (with_payload c p) = p" "oc_created_at (with_payload c p) = oc_created_at c"
  "with_payload (with_payload c p) q = with_payload c q"
  by (simp_all add: with_payload_def)

lemma with_payload_self [simp]: "with_payload c (oc_payload c) = c"
  by (cases c) (simp add: with_payload_def)

lemma outcome_key_with_payload [simp]: "outcome_key (with_payload c p) = outcome_key c"
  by (simp add: outcome_key_def)

section \<open>Reading back\<close>

text \<open>The JSON text of a UTC datetime reads back as that datetime.\<close>

definition wire_law :: "wire_env \<Rightarrow> bool" where
  "wire_law env \<longleftrightarrow> (\<forall>t. is_utc t \<longrightarrow> we_parse env (we_dump env t) = Some t)"

lemma read_time_law: "wire_law env \<Longrightarrow> is_utc t \<Longrightarrow> read_time env (we_dump env t) = Inr t"
  by (simp add: wire_law_def read_time_def)

lemma reread_goal_law: "wire_law env \<Longrightarrow> is_utc (go_created_at g) \<Longrightarrow> reread_goal env g = Inr g"
  by (simp add: reread_goal_def read_time_law)

lemma reread_scheme_law:
  "wire_law env \<Longrightarrow> is_utc (sc_created_at s) \<Longrightarrow> utc_if_given (sc_confirmed_at s) \<Longrightarrow> reread_scheme env s = Inr s"
  by (auto simp: reread_scheme_def read_time_law utc_if_given_def split: option.splits)

lemma reread_draft_law:
  assumes "wire_law env" and "draft_valid d"
  shows "reread_draft env d = Inr d"
proof -
  have "is_utc (go_created_at (dr_goal d))" "is_utc (sc_created_at (dr_scheme d))"
    "utc_if_given (sc_confirmed_at (dr_scheme d))" "is_utc (dr_created_at d)" "is_utc (dr_expires_at d)"
    using assms(2) by (simp_all add: draft_valid_def goal_valid_def scheme_valid_def utc_if_given_def)
  with assms show ?thesis
    by (simp add: reread_draft_def read_time_law reread_goal_law reread_scheme_law validated_draft_def)
qed

lemma reread_admission_law:
  assumes "wire_law env" and "run_admission_valid a"
  shows "reread_admission env a = Inr a"
proof -
  have "is_utc (ra_admitted_at a)" using assms(2) by (simp add: run_admission_valid_def)
  with assms show ?thesis by (simp add: reread_admission_def read_time_law Let_def)
qed

lemma reread_lease_law:
  assumes "wire_law env" and "lease_valid l"
  shows "reread_lease env l = Inr l"
proof -
  have "is_utc (dl_previous_expires_at l)" "is_utc (dl_authorized_at l)" "is_utc (dl_expires_at l)"
    using assms(2) by (simp_all add: lease_valid_def)
  with assms show ?thesis by (simp add: reread_lease_def read_time_law Let_def)
qed

lemma reread_draft_Inr: "reread_draft env d = Inr e \<Longrightarrow> draft_valid e \<and> dr_draft_id e = dr_draft_id d \<and> dr_hash e = dr_hash d"
  by (auto simp: reread_draft_def rbind_Inr_iff validated_draft_def split: if_splits)

section \<open>Outcomes\<close>

lemma make_confirm_outcome_Inr:
  "make_confirm_outcome c = Inr c' \<longleftrightarrow>
     c' = c \<and> is_ok (validate_outcome_identity confirm_route c) \<and> ra_request_hash (oc_payload c) = oc_request_hash c"
  by (auto simp: make_confirm_outcome_def rbind_Inr_iff guard_Inr_iff is_ok_iff)

lemma outcome_identity_key:
  "is_ok (validate_outcome_identity route c) \<Longrightarrow>
     outcome_key c = (local_access_scope, ucs ''POST'', route, oc_digest c)"
  by (auto simp: validate_outcome_identity_def is_ok_iff rbind_Inr_iff guard_Inr_iff outcome_key_def)

lemma outcome_identity_payload [simp]:
  "validate_outcome_identity route (with_payload c p) = validate_outcome_identity route c"
  by (simp add: validate_outcome_identity_def)

section \<open>The checks of a confirmed write set\<close>

lemma check_confirm_commit_Inr:
  "check_confirm_commit env key c = Inr u \<longleftrightarrow>
     validate_atomic_key env ''idempotency_outcome'' (cc_outcome c) key = Inr ()
     \<and> draft_hash_is_valid env (rd_draft (cc_draft c)) = Inr True \<and> check_request_bound env c = Inr ()
     \<and> consumed (cc_draft c) \<and> one_admission c \<and> admission_of_draft c
     \<and> pristine (cc_scheduler c) (ra_admitted_at (oc_payload (cc_outcome c)))
     \<and> ru_status (cc_run c) = RS_PLANNING \<and> ru_started_at (cc_run c) = None \<and> ru_completed_at (cc_run c) = None
     \<and> object_closure c \<and> as_prepared env c \<and> actual_graph_bound c \<and> tasks_of_graph c
     \<and> check_events env c = Inr ()"
  by (auto simp: check_confirm_commit_def Let_def rbind_Inr_iff guard_Inr_iff)

lemma check_events_Inr:
  "check_events env c = Inr u \<longleftrightarrow>
     cc_events c \<noteq> [] \<and> contiguous (ru_run_id (cc_run c)) (cc_events c) \<and> one_creation (cc_events c)
     \<and> setup_phase (cc_events c)
     \<and> map ev_type (cc_events c) = setup_types @ replicate (length (g_tasks (cc_planned c))) TASK_CREATED
     \<and> setup_bound env c \<and> list_all (creation_bound c) (zip (drop 4 (cc_events c)) (g_tasks (cc_planned c)))
     \<and> creations_cover c"
  by (auto simp: check_events_def Let_def rbind_Inr_iff guard_Inr_iff)

text \<open>The events of the setup phase are a valid log, whatever their payloads.\<close>

lemma plain_log_ok:
  assumes "contiguous run_id evs" and "distinct (map ev_event_id evs)"
    and "\<And>e. e \<in> set evs \<Longrightarrow> ev_event_id e \<noteq> [] \<and> ev_type e \<notin> set terminal_types \<and> ev_type e \<noteq> CLOSURE_RECOVERY_STARTED"
  shows "log_ok run_id evs \<and> \<not> log_terminal evs"
  using assms
proof (induction evs rule: rev_induct)
  case Nil
  then show ?case by (simp add: log_terminal_def)
next
  case (snoc e evs)
  have c: "contiguous run_id evs" "ev_run_id e = run_id" "ev_sequence e = int (length evs) + 1"
    using snoc.prems(1) by (auto simp: contiguous_def)
  have "log_ok run_id evs \<and> \<not> log_terminal evs" using snoc c(1) by (simp add: contiguous_def)
  moreover have "fits run_id evs e"
    using calculation snoc.prems(2) snoc.prems(3) [of e] c(2,3)
    by (auto simp: fits_def terminal_discipline_def log_ids_def)
  ultimately show ?case using snoc.prems(3) [of e] by simp
qed

lemma setup_not_closing: "t \<in> set (setup_types @ [TASK_CREATED]) \<Longrightarrow>
    t \<notin> set terminal_types \<and> t \<noteq> CLOSURE_RECOVERY_STARTED"
  by (auto simp: setup_types_def terminal_types_def)

section \<open>Inversion of a confirmation\<close>

lemma make_event_Inr: "make_event e = Inr e' \<longleftrightarrow> event_fields_valid e \<and> e' = e"
  by (auto simp: make_event_def)

lemma initial_events_valid:
  assumes "initial_events env ids r s g now = Inr evs" and "e \<in> set evs"
  shows "event_fields_valid e"
  using assms by (auto simp: initial_events_def rmap_Inr_iff list_all2_conv_all_nth in_set_conv_nth make_event_Inr
      case_prod_beta)

lemma mark_draft_consumed_Inr:
  "mark_draft_consumed r a t = Inr r' \<Longrightarrow> rd_draft r' = rd_draft r \<and> \<not> consumed r \<and> rd_consumed_at r' = Some t
     \<and> rd_admission_id r' = Some (ra_admission_id a) \<and> rd_run_id r' = Some (ra_run_id a)
     \<and> \<not> earlier t (dr_created_at (rd_draft r))"
  by (auto simp: mark_draft_consumed_def make_draft_record_def consumption_ok_def Let_def rbind_Inr_iff
      split: if_splits)

lemma build_scheduler_admission_Inr:
  "build_scheduler_admission a out n t = Inr s \<Longrightarrow> admission_valid s \<and> sa_admission_id s = ra_admission_id a
     \<and> sa_run_id s = ra_run_id a \<and> sa_outcome_id s = out"
  by (auto simp: build_scheduler_admission_def Let_def rbind_Inr_iff split: if_splits)

lemma build_run_admission_Inr:
  "build_run_admission v k run_id graph_id t = Inr a \<Longrightarrow> run_admission_valid a \<and> ra_run_id a = run_id
     \<and> ra_request_hash a = vc_hash v \<and> ra_draft_id a = dr_draft_id (vc_draft v) \<and> ra_admission_id a = k
     \<and> ra_draft_hash a = dr_hash (vc_draft v) \<and> ra_admitted_at a = t"
  by (auto simp: build_run_admission_def Let_def rbind_Inr_iff split: if_splits)

lemma created_state_Inr:
  "created_state now run_id g = Inr st \<Longrightarrow> graph_wf (g_tasks g) \<and> g_tasks (rs_actual_graph st) = g_tasks g
     \<and> g_version (rs_actual_graph st) = 1 \<and> g_run_id g = run_id"
  by (auto simp: created_state_def create_state_Inr_iff split: sum.splits)

text \<open>What a commit that passed its checks was built from.\<close>

definition commit_of ::
    "wire_env \<Rightarrow> confirm_ids \<Rightarrow> confirm_clock \<Rightarrow> draft_record \<Rightarrow> validated_confirm \<Rightarrow> utext \<Rightarrow> utext \<Rightarrow> confirm_commit \<Rightarrow> bool" where
  "commit_of env ids ck r v h digest c \<longleftrightarrow>
     rd_draft (cc_draft c) = rd_draft r \<and> rd_consumed_at (cc_draft c) = Some (ck_admitted ck)
     \<and> rd_admission_id (cc_draft c) = Some (ra_admission_id (oc_payload (cc_outcome c)))
     \<and> rd_run_id (cc_draft c) = Some (ru_run_id (cc_run c))
     \<and> is_ok (validate_outcome_identity confirm_route (cc_outcome c))
     \<and> oc_digest (cc_outcome c) = digest \<and> oc_request_hash (cc_outcome c) = h
     \<and> ra_request_hash (oc_payload (cc_outcome c)) = h
     \<and> run_admission_valid (oc_payload (cc_outcome c))
     \<and> ra_run_id (oc_payload (cc_outcome c)) = ru_run_id (cc_run c)
     \<and> ra_draft_id (oc_payload (cc_outcome c)) = dr_draft_id (vc_draft v)
     \<and> ra_admitted_at (oc_payload (cc_outcome c)) = ck_admitted ck
     \<and> sa_admission_id (cc_scheduler c) = ra_admission_id (oc_payload (cc_outcome c))
     \<and> sa_run_id (cc_scheduler c) = ru_run_id (cc_run c)
     \<and> sa_outcome_id (cc_scheduler c) = oc_outcome_id (cc_outcome c)
     \<and> admission_valid (cc_scheduler c) \<and> ru_run_id (cc_run c) = ''RUN-'' @ ci_run ids
     \<and> (\<exists>g. cc_actual c = Some g \<and> cc_tasks c = g_tasks g \<and> g_tasks g = g_tasks (cc_planned c) \<and> g_version g = 1)
     \<and> graph_wf (g_tasks (cc_planned c))
     \<and> list_all event_fields_valid (cc_events c)"

lemma build_commit_Inr:
  assumes "build_commit env be ids ck r v h digest key = Inr c" and "vc_hash v = h"
  shows "commit_of env ids ck r v h digest c \<and> check_confirm_commit env key c = Inr ()
    \<and> \<not> consumed r"
proof -
  from assms(1) obtain g0 s0 planned g s st run a out evs tomb sched
    where st: "created_state (ck_created ck) (''RUN-'' @ ci_run ids) planned = Inr st"
      and run: "make_run (new_run (''RUN-'' @ ci_run ids) g s (dr_object_id (vc_draft v)) (g_graph_id planned)
            (g_graph_id (rs_actual_graph st)) (ck_admitted ck)) = Inr run"
      and a: "build_run_admission v (''ADM-'' @ ci_admission ids) (''RUN-'' @ ci_run ids) (g_graph_id planned)
            (ck_admitted ck) = Inr a"
      and out: "make_confirm_outcome \<lparr>oc_outcome_id = ''OUT-'' @ ci_outcome ids, oc_scope = local_access_scope,
            oc_digest = digest, oc_method = ucs ''POST'', oc_route = confirm_route, oc_request_hash = h,
            oc_payload = a, oc_created_at = ck_admitted ck\<rparr> = Inr out"
      and evs: "initial_events env (ci_event ids) run s planned (ck_admitted ck) = Inr evs"
      and tomb: "mark_draft_consumed r a (ck_admitted ck) = Inr tomb"
      and sched: "build_scheduler_admission a (oc_outcome_id out) 3 (ck_admitted ck) = Inr sched"
      and c: "c = \<lparr>cc_draft = tomb, cc_outcome = out, cc_request = vc_request v, cc_scheduler = sched, cc_goal = g,
       cc_scheme = s, cc_run = run, cc_planned = planned, cc_actual = Some (rs_actual_graph st),
       cc_tasks = g_tasks (rs_actual_graph st), cc_events = evs\<rparr>"
      and checked: "check_confirm_commit env key c = Inr ()"
    unfolding build_commit_def Let_def
    by (elim rbind_InrE) (auto elim!: rbind_InrE split: prod.split_asm)
  have r: "ru_run_id run = ''RUN-'' @ ci_run ids"
    using run by (auto simp: make_run_def new_run_def split: if_splits)
  have "list_all event_fields_valid evs" using initial_events_valid [OF evs] by (simp add: list_all_iff)
  with c r checked created_state_Inr [OF st] build_run_admission_Inr [OF a] out
    mark_draft_consumed_Inr [OF tomb] build_scheduler_admission_Inr [OF sched] assms(2)
  show ?thesis by (simp add: commit_of_def make_confirm_outcome_Inr)
qed

lemma validate_confirm_request_Inr:
  assumes "validate_confirm_request env r q now = Inr v"
  shows "vc_draft v = rd_draft r \<and> vc_request v = q \<and> confirmation_request_hash env q = Inr (vc_hash v)
    \<and> \<not> consumed r \<and> earlier now (effective_expires_at r) \<and> cq_draft_id q = dr_draft_id (rd_draft r)
    \<and> cq_hash q = dr_hash (rd_draft r) \<and> draft_hash_is_valid env (rd_draft r) = Inr True"
  using assms by (auto simp: validate_confirm_request_def Let_def rbind_Inr_iff split: if_splits)

lemma confirm_accepted:
  assumes "confirm_transaction env be ids ck q key db = Inr (a, False, db')"
  obtains h digest r v c where "confirmation_request_hash env q = Inr h" and "key_digest env confirm_route key = Inr digest"
    and "get_outcome env db confirm_route digest = Inr None" and "get_draft env db (cq_draft_id q) = Inr (Some r)"
    and "validate_confirm_request env r q (ck_checked ck) = Inr v" and "vc_hash v = h" and "get_active_run_id db = None"
    and "commit_of env ids ck r v h digest c" and "check_confirm_commit env key c = Inr ()"
    and "insert_confirm_commit (ck_created ck) c db = Inr db'" and "a = oc_payload (cc_outcome c)"
proof -
  from assms obtain h digest r v c where parts: "confirmation_request_hash env q = Inr h"
      "of_json (key_digest env confirm_route key) = Inr digest"
      "get_outcome env db confirm_route digest = Inr None" "get_draft env db (cq_draft_id q) = Inr (Some r)"
      "validate_confirm_request env r q (ck_checked ck) = Inr v" "get_active_run_id db = None"
      "build_commit env be ids ck r v h digest key = Inr c"
      "insert_confirm_commit (ck_created ck) c db = Inr db'" "a = oc_payload (cc_outcome c)"
    unfolding confirm_transaction_def
    by (elim rbind_InrE) (auto simp: guard_bind_Inr_iff elim!: rbind_InrE
      split: option.split_asm outcome_body.split_asm if_split_asm)
  have "key_digest env confirm_route key = Inr digest"
    using parts(2) by (cases "key_digest env confirm_route key") auto
  moreover have "vc_hash v = h" using validate_confirm_request_Inr [OF parts(5)] parts(1) by simp
  moreover note build_commit_Inr [OF parts(7) calculation(2)]
  ultimately show thesis using that [OF parts(1) _ parts(3-5) _ parts(6) _ _ parts(8,9)] by blast
qed

end
