(* ===== verification/ProductMachine.thy ===== *)
theory ProductMachine
  imports ProductFacts LeaseSafety
begin

text \<open>
  The product database as a machine: any sequence of prepares, renewals, confirmations, starts of admitted
  runs, and moves of the status of a started run, in which a transaction that raises changes nothing. Its
  invariant ties drafts, outcomes, runs and deliveries to one another.
\<close>

section \<open>Operations\<close>

datatype product_op =
    OpPrepare "goal \<Rightarrow> product_exn + scheme \<times> goal \<times> scheme" prepare_ids timestamp prepare_request utext
  | OpRenew timestamp string renew_request utext
  | OpConfirm backend confirm_ids confirm_clock confirm_request utext
  | OpStartRun string timestamp string string
  | OpProgress string run_status

definition run_terminal :: "run_row \<Rightarrow> bool" where
  "run_terminal r \<longleftrightarrow> ru_status (rr_run r) \<in> set terminal_run_statuses"

text \<open>
  \<open>OpProgress\<close> stands for the execution of a run: it moves a run that was started to another status, and
  a run that has ended only to another final status (closure recovery).
\<close>

definition progress :: "string \<Rightarrow> run_status \<Rightarrow> product_db \<Rightarrow> product_exn + product_db" where
  "progress run_id status db =
     (case map_of (pd_runs db) run_id of
        None \<Rightarrow> Inl ProductAssertionError
      | Some r \<Rightarrow>
          if ru_status (rr_run r) \<noteq> RS_PLANNING \<and> status \<noteq> RS_PLANNING
             \<and> (run_terminal r \<longrightarrow> status \<in> set terminal_run_statuses)
          then Inr (db\<lparr>pd_runs := update_row run_id (\<lambda>x. x\<lparr>rr_run := (rr_run x)\<lparr>ru_status := status\<rparr>\<rparr>) (pd_runs db)\<rparr>)
          else Inl ProductAssertionError)"

fun transact :: "wire_env \<Rightarrow> product_db \<Rightarrow> product_op \<Rightarrow> product_exn + product_db" where
  "transact env db (OpPrepare plan ids now q key) = rbind (prepare_run env plan ids now q key db) (\<lambda>(d, db'). Inr db')"
| "transact env db (OpRenew now k q key) = rbind (renew_exact_draft env now k q key db) (\<lambda>(l, db'). Inr db')"
| "transact env db (OpConfirm be ids ck q key) =
     rbind (confirm_transaction env be ids ck q key db) (\<lambda>(a, replayed, db'). Inr db')"
| "transact env db (OpStartRun worker now e k) = start_admitted_run worker now e k db"
| "transact env db (OpProgress k status) = progress k status db"

definition product_step :: "wire_env \<Rightarrow> product_db \<Rightarrow> product_op \<Rightarrow> product_db" where
  "product_step env db op = settle db (transact env db op)"

definition product_run :: "wire_env \<Rightarrow> product_db \<Rightarrow> product_op list \<Rightarrow> product_db" where
  "product_run env = foldl (product_step env)"

definition new_db :: "string list \<Rightarrow> product_db" where
  "new_db objects = \<lparr>pd_objects = objects, pd_goals = [], pd_schemes = [], pd_drafts = [], pd_leases = [],
     pd_outcomes = [], pd_runs = [], pd_planned = [], pd_actual = [], pd_tasks = [], pd_events = [],
     pd_admissions = []\<rparr>"

section \<open>The invariant\<close>

definition keyed :: "('k \<times> 'v) list \<Rightarrow> ('v \<Rightarrow> 'k) \<Rightarrow> bool" where
  "keyed rows key \<longleftrightarrow> distinct (map fst rows) \<and> (\<forall>(k, v)\<in>set rows. k = key v)"

definition draft_row_ok :: "draft_row \<Rightarrow> bool" where
  "draft_row_ok w \<longleftrightarrow> draft_valid (wr_draft w)
     \<and> (wr_consumed_at w = None \<longleftrightarrow> wr_admission_id w = None) \<and> (wr_consumed_at w = None \<longleftrightarrow> wr_run_id w = None)"

text \<open>An admission is recorded: the draft it consumed, its run and its delivery.\<close>

definition recorded :: "product_db \<Rightarrow> string \<Rightarrow> run_admission \<Rightarrow> bool" where
  "recorded db outcome_id a \<longleftrightarrow>
     (\<exists>w. (ra_draft_id a, w) \<in> set (pd_drafts db) \<and> wr_consumed_at w \<noteq> None
        \<and> wr_admission_id w = Some (ra_admission_id a) \<and> wr_run_id w = Some (ra_run_id a))
     \<and> (\<exists>s. (ra_admission_id a, s) \<in> set (pd_admissions db) \<and> sa_run_id s = ra_run_id a
        \<and> sa_outcome_id s = outcome_id)"

definition outcome_ok :: "product_db \<Rightarrow> outcome_body outcome \<Rightarrow> bool" where
  "outcome_ok db c \<longleftrightarrow>
     (case oc_payload c of
        BodyConfirm a \<Rightarrow> is_ok (validate_outcome_identity confirm_route c) \<and> ra_request_hash a = oc_request_hash c
          \<and> run_admission_valid a \<and> recorded db (oc_outcome_id c) a
      | BodyPrepare d \<Rightarrow> is_ok (validate_outcome_identity prepare_route c)
      | BodyOther \<Rightarrow> False)"

text \<open>A delivery waits exactly as long as its run is planned.\<close>

definition delivery_ok :: "product_db \<Rightarrow> sched_admission \<Rightarrow> bool" where
  "delivery_ok db s \<longleftrightarrow> admission_valid s \<and> sa_attempts s \<le> 1 \<and> sa_generation s = sa_attempts s
     \<and> (\<exists>r. (sa_run_id s, r) \<in> set (pd_runs db)
        \<and> (if ru_status (rr_run r) = RS_PLANNING then sa_state s = AS_PENDING \<and> start_absent s \<and> sa_attempts s = 0
           else sa_state s = AS_ACKNOWLEDGED))"

definition consumed_recorded :: "product_db \<Rightarrow> string \<Rightarrow> draft_row \<Rightarrow> bool" where
  "consumed_recorded db k w \<longleftrightarrow>
     (wr_consumed_at w \<noteq> None \<longrightarrow>
       (\<exists>c a. c \<in> snd ` set (pd_outcomes db) \<and> oc_payload c = BodyConfirm a \<and> ra_draft_id a = k))"

definition db_ok :: "product_db \<Rightarrow> bool" where
  "db_ok db \<longleftrightarrow>
     keyed (pd_drafts db) (\<lambda>w. dr_draft_id (wr_draft w)) \<and> keyed (pd_outcomes db) oc_outcome_id
     \<and> keyed (pd_runs db) (\<lambda>r. ru_run_id (rr_run r)) \<and> keyed (pd_admissions db) sa_admission_id
     \<and> inj_on (\<lambda>kc. outcome_key (snd kc)) (set (pd_outcomes db))
     \<and> inj_on (\<lambda>ks. sa_run_id (snd ks)) (set (pd_admissions db))
     \<and> length (active_run_ids db) \<le> 1
     \<and> (\<forall>(k, w)\<in>set (pd_drafts db). draft_row_ok w \<and> consumed_recorded db k w)
     \<and> (\<forall>(k, c)\<in>set (pd_outcomes db). outcome_ok db c)
     \<and> (\<forall>(k, s)\<in>set (pd_admissions db). delivery_ok db s)"

section \<open>Progress\<close>

definition db_forward :: "product_db \<Rightarrow> product_db \<Rightarrow> bool" where
  "db_forward db db' \<longleftrightarrow>
     (\<forall>(k, w)\<in>set (pd_drafts db). \<exists>w'. (k, w') \<in> set (pd_drafts db') \<and> wr_draft w' = wr_draft w
        \<and> (wr_consumed_at w \<noteq> None \<longrightarrow> w' = w))
     \<and> set (pd_outcomes db) \<subseteq> set (pd_outcomes db') \<and> set (pd_leases db) \<subseteq> set (pd_leases db')
     \<and> (\<forall>(k, r)\<in>set (pd_runs db). \<exists>r'. (k, r') \<in> set (pd_runs db')
        \<and> (ru_status (rr_run r) \<noteq> RS_PLANNING \<longrightarrow> ru_status (rr_run r') \<noteq> RS_PLANNING)
        \<and> (run_terminal r \<longrightarrow> run_terminal r'))
     \<and> (\<forall>(k, s)\<in>set (pd_admissions db). \<exists>s'. (k, s') \<in> set (pd_admissions db') \<and> row_forward s s')"

lemma keyed_snoc: "keyed (rows @ [(k, v)]) key \<longleftrightarrow> keyed rows key \<and> k \<notin> fst ` set rows \<and> k = key v"
  by (auto simp: keyed_def)

lemma keyed_map_of: "keyed rows key \<Longrightarrow> (k, v) \<in> set rows \<longleftrightarrow> map_of rows k = Some v"
  by (auto simp: keyed_def)

lemma keyed_unique: "keyed rows key \<Longrightarrow> (k, v) \<in> set rows \<Longrightarrow> (k, w) \<in> set rows \<Longrightarrow> v = w"
  by (simp add: keyed_map_of)

lemma set_update_row:
  "(j, v) \<in> set (update_row k f rows) \<longleftrightarrow>
     (if j = k then (\<exists>u. (k, u) \<in> set rows \<and> v = f u) else (j, v) \<in> set rows)"
  by (induction rows) (auto simp: update_row_def)

lemma keyed_update_row:
  assumes "keyed rows key" and "\<And>v. key v = k \<Longrightarrow> key (f v) = k"
  shows "keyed (update_row k f rows) key"
  using assms by (auto simp: keyed_def update_row_def comp_def case_prod_beta)

lemma db_forward_refl: "db_forward db db"
  by (auto simp: db_forward_def row_forward_refl)

lemma db_forward_trans:
  assumes "db_forward a b" and "db_forward b c"
  shows "db_forward a c"
  unfolding db_forward_def
proof (intro conjI)
  show "\<forall>(k, w)\<in>set (pd_drafts a). \<exists>w'. (k, w') \<in> set (pd_drafts c) \<and> wr_draft w' = wr_draft w
      \<and> (wr_consumed_at w \<noteq> None \<longrightarrow> w' = w)"
  proof clarify
    fix k w assume "(k, w) \<in> set (pd_drafts a)"
    with assms(1) obtain u where u: "(k, u) \<in> set (pd_drafts b)" "wr_draft u = wr_draft w"
      "wr_consumed_at w \<noteq> None \<longrightarrow> u = w" by (fastforce simp: db_forward_def)
    with assms(2) obtain v where "(k, v) \<in> set (pd_drafts c)" "wr_draft v = wr_draft u"
      "wr_consumed_at u \<noteq> None \<longrightarrow> v = u" by (fastforce simp: db_forward_def)
    with u show "\<exists>w'. (k, w') \<in> set (pd_drafts c) \<and> wr_draft w' = wr_draft w
      \<and> (wr_consumed_at w \<noteq> None \<longrightarrow> w' = w)" by (intro exI [of _ v]) auto
  qed
  show "set (pd_outcomes a) \<subseteq> set (pd_outcomes c)" "set (pd_leases a) \<subseteq> set (pd_leases c)"
    using assms by (auto simp: db_forward_def)
  show "\<forall>(k, r)\<in>set (pd_runs a). \<exists>r'. (k, r') \<in> set (pd_runs c)
        \<and> (ru_status (rr_run r) \<noteq> RS_PLANNING \<longrightarrow> ru_status (rr_run r') \<noteq> RS_PLANNING)
        \<and> (run_terminal r \<longrightarrow> run_terminal r')"
    using assms unfolding db_forward_def by fast
  show "\<forall>(k, s)\<in>set (pd_admissions a). \<exists>s'. (k, s') \<in> set (pd_admissions c) \<and> row_forward s s'"
    using assms row_forward_trans unfolding db_forward_def by fast
qed

lemma recorded_forward: "db_forward db db' \<Longrightarrow> recorded db k a \<Longrightarrow> recorded db' k a"
  unfolding recorded_def db_forward_def row_forward_def by fastforce

lemma outcome_ok_forward: "db_forward db db' \<Longrightarrow> outcome_ok db c \<Longrightarrow> outcome_ok db' c"
  by (auto simp: outcome_ok_def recorded_forward split: outcome_body.splits)

lemma consumed_recorded_forward: "db_forward db db' \<Longrightarrow> consumed_recorded db k w \<Longrightarrow> consumed_recorded db' k w"
  unfolding consumed_recorded_def db_forward_def by blast

section \<open>Each operation\<close>

lemma build_prepare_draft_Inr:
  assumes "build_prepare_draft env q draft_id g s now = Inr d"
  shows "draft_valid d \<and> draft_hash_is_valid env d = Inr True \<and> dr_draft_id d = draft_id
    \<and> prepare_request_hash env q = Inr (dr_prepare_hash d) \<and> context_closes q s
    \<and> read_time env (zulu env now) = Inr (dr_created_at d)
    \<and> read_time env (zulu env (shifted now draft_expiry)) = Inr (dr_expires_at d)"
  using assms by (auto simp: build_prepare_draft_def Let_def rbind_Inr_iff validated_draft_def split: if_splits)

lemma make_prepare_outcome_Inr:
  "make_prepare_outcome env c = Inr c' \<Longrightarrow> c' = c \<and> is_ok (validate_outcome_identity prepare_route c)"
  by (auto simp: make_prepare_outcome_def rbind_Inr_iff is_ok_iff)

definition unconsumed_row :: "draft \<Rightarrow> draft_row" where
  "unconsumed_row d = \<lparr>wr_draft = d, wr_consumed_at = None, wr_admission_id = None, wr_run_id = None\<rparr>"

definition prepared :: "product_db \<Rightarrow> draft \<Rightarrow> outcome_body outcome \<Rightarrow> product_db \<Rightarrow> bool" where
  "prepared db d c db' \<longleftrightarrow>
     pd_drafts db' = pd_drafts db @ [(dr_draft_id d, unconsumed_row d)]
     \<and> pd_outcomes db' = pd_outcomes db @ [(oc_outcome_id c, c)] \<and> pd_leases db' = pd_leases db
     \<and> pd_runs db' = pd_runs db \<and> pd_admissions db' = pd_admissions db \<and> pd_events db' = pd_events db
     \<and> dr_draft_id d \<notin> fst ` set (pd_drafts db) \<and> oc_outcome_id c \<notin> fst ` set (pd_outcomes db)
     \<and> outcome_key c \<notin> outcome_key ` snd ` set (pd_outcomes db)"

lemma insert_prepare_commit_Inr:
  assumes "insert_prepare_commit c db = Inr db'"
  shows "prepared db (rd_draft (pc_record c))
    (with_payload (pc_outcome c) (BodyPrepare (oc_payload (pc_outcome c)))) db'"
  using assms unfolding insert_prepare_commit_def Let_def
  by (elim rbind_InrE) (auto simp: insert_row_Inr insert_outcome_Inr prepared_def unconsumed_row_def)

lemma prepare_step:
  assumes "prepare_run env plan ids now q key db = Inr (d, db')"
  shows "db' = db \<or> (\<exists>c. prepared db d c db' \<and> draft_valid d \<and> oc_payload c = BodyPrepare d
    \<and> is_ok (validate_outcome_identity prepare_route c))"
proof -
  have "db' = db \<or> (\<exists>c. insert_prepare_commit c db = Inr db' \<and> rd_draft (pc_record c) = d
      \<and> oc_payload (pc_outcome c) = d \<and> draft_valid d \<and> is_ok (validate_outcome_identity prepare_route (pc_outcome c)))"
    using assms unfolding prepare_run_def
  proof (elim rbind_InrE, goal_cases)
    case (1 h digest stored)
    show ?case
    proof (cases stored)
      case None
      from 1(4) obtain s gp sp out
        where "build_prepare_draft env q (''DRAFT-'' @ pi_draft ids) gp sp now = Inr d"
          and "make_prepare_outcome env \<lparr>oc_outcome_id = ''OUT-'' @ pi_outcome ids, oc_scope = local_access_scope,
           oc_digest = digest, oc_method = ucs ''POST'', oc_route = prepare_route, oc_request_hash = h,
           oc_payload = d, oc_created_at = dr_created_at d\<rparr> = Inr out"
          and "insert_prepare_commit \<lparr>pc_outcome = out, pc_request = q, pc_record = fresh_record d,
            pc_goal = new_goal q (''GOAL-'' @ pi_goal ids) now, pc_scheme = s\<rparr> db = Inr db'"
        by (auto simp: None Let_def elim!: rbind_InrE split: prod.split_asm)
      then show ?thesis
        by (auto simp: fresh_record_def dest!: build_prepare_draft_Inr make_prepare_outcome_Inr)
    next
      case (Some c)
      with 1(4) show ?thesis by (auto split: outcome_body.split_asm if_split_asm)
    qed
  qed
  then show ?thesis using insert_prepare_commit_Inr by fastforce
qed

definition confirm_body :: "confirm_commit \<Rightarrow> outcome_body outcome" where
  "confirm_body c = with_payload (cc_outcome c) (BodyConfirm (oc_payload (cc_outcome c)))"

definition new_run_row :: "int \<Rightarrow> confirm_commit \<Rightarrow> run_row" where
  "new_run_row created c = \<lparr>rr_run = cc_run c, rr_goal = cc_goal c, rr_scheme = cc_scheme c, rr_planned = cc_planned c,
     rr_actual = stored_graph c created, rr_revision = 1, rr_sequence = int (length (cc_events c))\<rparr>"

definition admitted :: "int \<Rightarrow> product_db \<Rightarrow> confirm_commit \<Rightarrow> product_db \<Rightarrow> bool" where
  "admitted created db c db' \<longleftrightarrow>
     pd_drafts db' = update_row (dr_draft_id (rd_draft (cc_draft c))) (consume_row (cc_draft c)) (pd_drafts db)
     \<and> pd_outcomes db' = pd_outcomes db @ [(oc_outcome_id (cc_outcome c), confirm_body c)]
     \<and> pd_leases db' = pd_leases db
     \<and> pd_runs db' = pd_runs db @ [(ru_run_id (cc_run c), new_run_row created c)]
     \<and> pd_admissions db' = pd_admissions db @ [(sa_admission_id (cc_scheduler c), cc_scheduler c)]
     \<and> pd_events db' = pd_events db @ map (\<lambda>e. (ev_event_id e, e)) (cc_events c)
     \<and> pd_tasks db' = pd_tasks db @ map (\<lambda>t. (t_task_id t, t)) (cc_tasks c)
     \<and> outcome_key (cc_outcome c) \<notin> outcome_key ` snd ` set (pd_outcomes db)
     \<and> oc_outcome_id (cc_outcome c) \<notin> fst ` set (pd_outcomes db)
     \<and> ru_run_id (cc_run c) \<notin> fst ` set (pd_runs db)
     \<and> sa_admission_id (cc_scheduler c) \<notin> fst ` set (pd_admissions db)
     \<and> sa_run_id (cc_scheduler c) \<notin> sa_run_id ` snd ` set (pd_admissions db)"

lemma insert_confirm_commit_Inr:
  assumes "insert_confirm_commit created c db = Inr db'"
  shows "admitted created db c db'"
  using assms unfolding insert_confirm_commit_def Let_def
  by (elim rbind_InrE) (auto simp: insert_row_Inr insert_outcome_Inr insert_admission_Inr admitted_def
      confirm_body_def new_run_row_def dest!: insert_events_Inr insert_rows_Inr)

lemma confirm_replayed:
  assumes "confirm_transaction env be ids ck q key db = Inr (a, True, db')"
  shows "db' = db"
  using assms unfolding confirm_transaction_def
  by (elim rbind_InrE) (auto simp: guard_bind_Inr_iff elim!: rbind_InrE
      split: option.split_asm outcome_body.split_asm if_split_asm)

lemma get_draft_Inr:
  assumes "get_draft env db k = Inr (Some r)"
  shows "\<exists>w. map_of (pd_drafts db) k = Some w \<and> reread_draft env (wr_draft w) = Inr (rd_draft r)
    \<and> rd_consumed_at r = wr_consumed_at w \<and> rd_admission_id r = wr_admission_id w \<and> rd_run_id r = wr_run_id w
    \<and> latest_lease env db k = Inr (rd_lease r)"
proof (cases "map_of (pd_drafts db) k")
  case None
  with assms show ?thesis by (simp add: get_draft_def)
next
  case (Some w)
  with assms obtain d l where "reread_draft env (wr_draft w) = Inr d" "latest_lease env db k = Inr l"
    and "make_draft_record \<lparr>rd_draft = d, rd_consumed_at = wr_consumed_at w,
      rd_admission_id = wr_admission_id w, rd_run_id = wr_run_id w, rd_lease = l\<rparr> = Inr r"
    by (auto simp: get_draft_def elim!: rbind_InrE)
  moreover from this(3) have "r = \<lparr>rd_draft = d, rd_consumed_at = wr_consumed_at w,
      rd_admission_id = wr_admission_id w, rd_run_id = wr_run_id w, rd_lease = l\<rparr>"
    by (simp add: make_draft_record_def split: if_split_asm)
  ultimately show ?thesis using Some by simp
qed

definition lease_row_of :: "utext \<Rightarrow> draft_lease \<Rightarrow> lease_row" where
  "lease_row_of fingerprint l = \<lparr>lr_draft_id = dl_draft_id l, lr_request_hash = fingerprint,
     lr_authorized_at = dl_authorized_at l, lr_lease = l\<rparr>"

definition renewed :: "wire_env \<Rightarrow> timestamp \<Rightarrow> string \<Rightarrow> utext \<Rightarrow> draft_lease \<Rightarrow> product_db \<Rightarrow> product_db \<Rightarrow> bool" where
  "renewed env now k fingerprint l db db' \<longleftrightarrow>
     db' = db\<lparr>pd_leases := pd_leases db @ [(dl_lease_id l, lease_row_of fingerprint l)]\<rparr>
     \<and> map_of (pd_leases db) (dl_lease_id l) = None \<and> lease_valid l \<and> dl_draft_id l = k \<and> dl_authorized_at l = now
     \<and> (\<exists>r. load_record env db k = Inr r \<and> \<not> consumed r \<and> \<not> earlier now (effective_expires_at r)
          \<and> dl_previous_expires_at l = effective_expires_at r)"

lemma renew_step:
  assumes "renew_exact_draft env now k q key db = Inr (l, db')"
  shows "db' = db \<or> (\<exists>fingerprint. renewed env now k fingerprint l db db')"
  using assms unfolding renew_exact_draft_def Let_def
proof (elim rbind_InrE, goal_cases)
  case (1 fp i r)
  show ?case
  proof (cases "map_of (pd_leases db) i")
    case None
    from 1 have "renewed env now k fp l db db'"
      by (auto simp: None guard_bind_Inr_iff insert_row_Inr make_lease_def renewed_def lease_row_of_def
          elim!: rbind_InrE split: if_split_asm)
    then show ?thesis by blast
  next
    case (Some row)
    with 1 show ?thesis by (auto simp: guard_bind_Inr_iff elim!: rbind_InrE)
  qed
qed

section \<open>Starting a run\<close>

lemma replace_fenced_update:
  "replace_fenced rows a n = (b, rows') \<Longrightarrow>
     (if b then rows' = update_row (sa_admission_id a) (\<lambda>_. a) rows
        \<and> (\<exists>r. map_of rows (sa_admission_id a) = Some r \<and> sa_generation r = n) else rows' = rows)"
  by (auto simp: replace_fenced_def update_row_def split: option.split_asm if_split_asm)

lemma publish_Inr:
  assumes "publish w db = Inr (v, db')"
  shows "\<exists>base. map_of (pd_runs db) (ws_run_id w) = Some base \<and> rr_revision base = ws_expected_revision w
    \<and> pd_runs db' = update_row (ws_run_id w) (\<lambda>x. x\<lparr>rr_run := (case ws_run w of None \<Rightarrow> rr_run x | Some r \<Rightarrow> r),
        rr_revision := rr_revision base + 1, rr_sequence := rr_sequence base + int (length (ws_events w))\<rparr>) (pd_runs db)
    \<and> pd_events db' = pd_events db @ map (\<lambda>e. (ev_event_id e, e)) (ws_events w)
    \<and> pd_drafts db' = pd_drafts db \<and> pd_outcomes db' = pd_outcomes db \<and> pd_leases db' = pd_leases db
    \<and> pd_admissions db' = pd_admissions db"
  using assms unfolding publish_def
  by (auto simp: Let_def guard_bind_Inr_iff split: option.split_asm elim!: rbind_InrE dest!: insert_events_Inr)

text \<open>What a start that did something did.\<close>

definition delivered :: "timestamp \<Rightarrow> string \<Rightarrow> sched_admission \<Rightarrow> run_row \<Rightarrow> sched_admission \<Rightarrow> product_db \<Rightarrow> product_db \<Rightarrow> bool" where
  "delivered now e cur row acked db db' \<longleftrightarrow>
     sa_state acked = AS_ACKNOWLEDGED \<and> admission_valid acked \<and> row_forward cur acked \<and> \<not> is_final cur
     \<and> sa_generation acked = sa_generation cur + 1 \<and> sa_attempts acked = sa_attempts cur + 1
     \<and> (start_absent cur \<longrightarrow> sa_started_event_id acked = Some (''EVT-'' @ e)
          \<and> sa_started_sequence acked = Some (rr_sequence row + 1))
     \<and> map_of (pd_runs db) (sa_run_id cur) = Some row
     \<and> pd_runs db' = update_row (ru_run_id (rr_run row)) (\<lambda>x. x\<lparr>rr_run := started_run now (rr_run row),
         rr_revision := rr_revision row + 1, rr_sequence := rr_sequence row + 1\<rparr>) (pd_runs db)
     \<and> pd_events db' = pd_events db @ [(''EVT-'' @ e, start_event now e row)]
     \<and> pd_admissions db' = update_row (sa_admission_id cur) (\<lambda>_. acked) (pd_admissions db)
     \<and> pd_drafts db' = pd_drafts db \<and> pd_outcomes db' = pd_outcomes db \<and> pd_leases db' = pd_leases db"

lemma begin_run_Inr:
  assumes "begin_run now e leased fence row db = Inr db'" and "fence_matches leased fence"
  shows "\<exists>started acked. record_scheduler_run_start leased fence now (''EVT-'' @ e) (rr_sequence row + 1) = Inr started
    \<and> acknowledge_scheduler_admission started fence now = Inr acked
    \<and> (\<exists>base. map_of (pd_runs db) (ru_run_id (rr_run row)) = Some base \<and> rr_revision base = rr_revision row
        \<and> pd_runs db' = update_row (ru_run_id (rr_run row)) (\<lambda>x. x\<lparr>rr_run := started_run now (rr_run row),
            rr_revision := rr_revision base + 1, rr_sequence := rr_sequence base + 1\<rparr>) (pd_runs db))
    \<and> pd_events db' = pd_events db @ [(''EVT-'' @ e, start_event now e row)]
    \<and> pd_admissions db' = update_row (sa_admission_id acked) (\<lambda>_. acked) (pd_admissions db)
    \<and> pd_drafts db' = pd_drafts db \<and> pd_outcomes db' = pd_outcomes db \<and> pd_leases db' = pd_leases db"
  using assms(1) unfolding begin_run_def
proof (elim rbind_InrE, goal_cases)
  case (1 event w vdb)
  obtain v db1 where vdb: "vdb = (v, db1)" by (cases vdb)
  have e: "event = start_event now e row" using 1(1) by (simp add: make_event_Inr)
  have w: "w = \<lparr>ws_run_id = ru_run_id (rr_run row), ws_expected_revision = rr_revision row,
       ws_run = Some (started_run now (rr_run row)), ws_tasks = [], ws_events = [event]\<rparr>"
    using 1(2) by (auto simp: make_write_set_def guard_bind_Inr_iff elim!: rbind_InrE)
  from 1(4) obtain started acked rows
    where s: "record_scheduler_run_start leased fence now (ev_event_id event) (ev_sequence event) = Inr started"
      and a: "acknowledge_scheduler_admission started fence now = Inr acked"
      and r: "replace_fenced (pd_admissions db1) acked (lf_generation fence) = (True, rows)"
      and d: "db' = db1\<lparr>pd_admissions := rows\<rparr>"
    by (auto simp: vdb split: prod.split_asm if_split_asm elim!: rbind_InrE)
  show ?case
    using s a d publish_Inr [of w db v db1] 1(3) replace_fenced_update [OF r]
    by (auto simp: vdb w e start_event_def)
qed

lemma start_step:
  assumes "start_admitted_run worker now e k db = Inr db'"
    and "keyed (pd_admissions db) sa_admission_id" and "keyed (pd_runs db) (\<lambda>r. ru_run_id (rr_run r))"
    and "\<And>s. map_of (pd_admissions db) k = Some s \<Longrightarrow> admission_valid s"
  shows "db' = db \<or> (\<exists>cur row acked. map_of (pd_admissions db) k = Some cur \<and> delivered now e cur row acked db db')"
proof (cases "map_of (pd_admissions db) k")
  case None
  with assms(1) show ?thesis by (simp add: start_admitted_run_def)
next
  case (Some cur)
  from assms(1) obtain leased fence stored rows
    where lease: "lease_scheduler_admission cur worker now lease_duration = Inr (leased, fence)"
      and repl: "replace_fenced (pd_admissions db) leased (sa_generation cur) = (stored, rows)"
      and rest: "\<not> stored \<and> db' = db \<or> stored \<and> (\<exists>row. map_of (pd_runs db) (sa_run_id leased) = Some row
        \<and> begin_run now e leased fence row (db\<lparr>pd_admissions := rows\<rparr>) = Inr db')"
    by (auto simp: start_admitted_run_def Some elim!: rbind_InrE split: prod.split_asm if_split_asm option.split_asm)
  show ?thesis
  proof (cases stored)
    case False
    with rest show ?thesis by simp
  next
    case True
    with rest obtain row where row: "map_of (pd_runs db) (sa_run_id leased) = Some row"
      and begun: "begin_run now e leased fence row (db\<lparr>pd_admissions := rows\<rparr>) = Inr db'" by auto
    note l = lease_Inr [OF lease]
    have fwd: "row_forward cur leased" using deliver_forward [of cur "OpLease worker now lease_duration" leased] lease by simp
    from begin_run_Inr [OF begun] l obtain started acked base where
      s: "record_scheduler_run_start leased fence now (''EVT-'' @ e) (rr_sequence row + 1) = Inr started"
      and a: "acknowledge_scheduler_admission started fence now = Inr acked"
      and base: "map_of (pd_runs db) (ru_run_id (rr_run row)) = Some base"
        "pd_runs db' = update_row (ru_run_id (rr_run row)) (\<lambda>x. x\<lparr>rr_run := started_run now (rr_run row),
            rr_revision := rr_revision base + 1, rr_sequence := rr_sequence base + 1\<rparr>) (pd_runs db)"
      and tables: "pd_events db' = pd_events db @ [(''EVT-'' @ e, start_event now e row)]"
        "pd_admissions db' = update_row (sa_admission_id acked) (\<lambda>_. acked) rows"
        "pd_drafts db' = pd_drafts db" "pd_outcomes db' = pd_outcomes db" "pd_leases db' = pd_leases db"
      by auto
    have "sa_run_id leased = ru_run_id (rr_run row)" using row assms(3) by (auto simp: keyed_def dest!: map_of_SomeD)
    with base(1) row have same: "base = row" by simp
    have sfwd: "row_forward leased started" using deliver_forward [of leased "OpStart fence now (''EVT-'' @ e) (rr_sequence row + 1)"] s by simp
    have afwd: "row_forward started acked" using deliver_forward [of started "OpAck fence now"] a by simp
    have forward: "row_forward cur acked" using row_forward_trans [OF row_forward_trans [OF fwd sfwd] afwd] .
    have rows: "rows = update_row (sa_admission_id cur) (\<lambda>_. leased) (pd_admissions db)"
      using replace_fenced_update [OF repl] True fwd by (simp add: row_forward_def)
    have ids: "sa_admission_id acked = sa_admission_id cur" using forward by (simp add: row_forward_def)
    have "update_row (sa_admission_id cur) (\<lambda>_. acked) rows = update_row (sa_admission_id cur) (\<lambda>_. acked) (pd_admissions db)"
      by (simp add: rows update_row_def comp_def case_prod_beta)
    with ids tables(2) have adm: "pd_admissions db' = update_row (sa_admission_id cur) (\<lambda>_. acked) (pd_admissions db)" by simp
    have st: "sa_state acked = AS_ACKNOWLEDGED \<and> admission_valid acked \<and> \<not> is_final cur
        \<and> sa_generation acked = sa_generation cur + 1 \<and> sa_attempts acked = sa_attempts cur + 1
        \<and> (start_absent cur \<longrightarrow> sa_started_event_id acked = Some (''EVT-'' @ e)
          \<and> sa_started_sequence acked = Some (rr_sequence row + 1))"
      using l start_Inr [OF s] ack_Inr [OF a] by (auto simp: is_final_def start_absent_def start_recorded_def)
    have "sa_run_id leased = sa_run_id cur" using fwd by (simp add: row_forward_def)
    with st forward row base(2) tables(1,3,4,5) adm have "delivered now e cur row acked db db'"
      by (simp add: delivered_def same)
    with Some show ?thesis by blast
  qed
qed

section \<open>Every operation moves forward\<close>

lemma prepared_forward: "prepared db d c db' \<Longrightarrow> db_forward db db'"
  by (auto simp: prepared_def db_forward_def row_forward_refl)

lemma renewed_forward: "renewed env now k fp l db db' \<Longrightarrow> db_forward db db'"
  by (auto simp: renewed_def db_forward_def row_forward_refl)

lemma update_row_step:
  assumes "\<And>v. (k, v) \<in> set rows \<Longrightarrow> R v (f v)" and "\<And>v. R v v"
  shows "\<forall>(j, v)\<in>set rows. \<exists>v'. (j, v') \<in> set (update_row k f rows) \<and> R v v'"
proof clarify
  fix j v assume v: "(j, v) \<in> set rows"
  show "\<exists>v'. (j, v') \<in> set (update_row k f rows) \<and> R v v'"
  proof (cases "j = k")
    case True
    with v assms(1) show ?thesis by (intro exI [of _ "f v"]) (auto simp: set_update_row)
  next
    case False
    with v assms(2) show ?thesis by (intro exI [of _ v]) (simp add: set_update_row)
  qed
qed

lemma admitted_forward:
  assumes "admitted created db c db'"
  shows "db_forward db db'"
proof -
  have "\<forall>(k, w)\<in>set (pd_drafts db). \<exists>w'. (k, w') \<in> set (pd_drafts db') \<and> wr_draft w' = wr_draft w
      \<and> (wr_consumed_at w \<noteq> None \<longrightarrow> w' = w)"
    using assms update_row_step [of "dr_draft_id (rd_draft (cc_draft c))" "pd_drafts db"
      "\<lambda>w w'. wr_draft w' = wr_draft w \<and> (wr_consumed_at w \<noteq> None \<longrightarrow> w' = w)" "consume_row (cc_draft c)"]
    by (simp add: admitted_def consume_row_def)
  with assms show ?thesis by (auto simp: db_forward_def admitted_def row_forward_refl)
qed

definition run_forward :: "run_row \<Rightarrow> run_row \<Rightarrow> bool" where
  "run_forward r r' \<longleftrightarrow> (ru_status (rr_run r) \<noteq> RS_PLANNING \<longrightarrow> ru_status (rr_run r') \<noteq> RS_PLANNING)
     \<and> (run_terminal r \<longrightarrow> run_terminal r')"

lemma db_forwardI:
  assumes "pd_drafts db' = pd_drafts db" and "pd_outcomes db' = pd_outcomes db" and "pd_leases db' = pd_leases db"
    and "\<forall>(k, r)\<in>set (pd_runs db). \<exists>r'. (k, r') \<in> set (pd_runs db') \<and> run_forward r r'"
    and "\<forall>(k, s)\<in>set (pd_admissions db). \<exists>s'. (k, s') \<in> set (pd_admissions db') \<and> row_forward s s'"
  shows "db_forward db db'"
  using assms by (auto simp: db_forward_def run_forward_def)

lemma delivered_forward:
  assumes "delivered now e cur row acked db db'" and "map_of (pd_admissions db) (sa_admission_id cur) = Some cur"
    and "keyed (pd_admissions db) sa_admission_id" and "ru_status (rr_run row) = RS_PLANNING"
    and "keyed (pd_runs db) (\<lambda>r. ru_run_id (rr_run r))"
  shows "db_forward db db'"
proof (rule db_forwardI)
  have cur: "s = cur" if "(sa_admission_id cur, s) \<in> set (pd_admissions db)" for s
    using that assms(2,3) by (auto simp: keyed_def)
  have row: "r = row" if "(ru_run_id (rr_run row), r) \<in> set (pd_runs db)" for r
  proof -
    have m: "map_of (pd_runs db) (sa_run_id cur) = Some row" using assms(1) by (simp add: delivered_def)
    then have "sa_run_id cur = ru_run_id (rr_run row)" using assms(5) by (auto simp: keyed_def dest!: map_of_SomeD)
    with that assms(5) m show ?thesis by (auto simp: keyed_def)
  qed
  have a: "pd_admissions db' = update_row (sa_admission_id cur) (\<lambda>_. acked) (pd_admissions db)"
    "row_forward cur acked" using assms(1) by (simp_all add: delivered_def)
  show "\<forall>(k, s)\<in>set (pd_admissions db). \<exists>s'. (k, s') \<in> set (pd_admissions db') \<and> row_forward s s'"
    unfolding a(1) by (rule update_row_step) (use cur a(2) row_forward_refl in auto)
  have r: "pd_runs db' = update_row (ru_run_id (rr_run row)) (\<lambda>x. x\<lparr>rr_run := started_run now (rr_run row),
         rr_revision := rr_revision row + 1, rr_sequence := rr_sequence row + 1\<rparr>) (pd_runs db)"
    using assms(1) by (simp add: delivered_def)
  show "\<forall>(k, r)\<in>set (pd_runs db). \<exists>r'. (k, r') \<in> set (pd_runs db') \<and> run_forward r r'"
    unfolding r
  proof (rule update_row_step)
    fix x assume "(ru_run_id (rr_run row), x) \<in> set (pd_runs db)"
    then have "ru_status (rr_run x) = RS_PLANNING" using row assms(4) by blast
    then show "run_forward x (x\<lparr>rr_run := started_run now (rr_run row), rr_revision := rr_revision row + 1,
        rr_sequence := rr_sequence row + 1\<rparr>)"
      by (simp add: run_forward_def run_terminal_def terminal_run_statuses_def started_run_def)
  qed (simp add: run_forward_def)
qed (use assms(1) in \<open>simp_all add: delivered_def\<close>)

lemma progress_Inr:
  assumes "progress k st db = Inr db'"
  shows "\<exists>r. map_of (pd_runs db) k = Some r \<and> ru_status (rr_run r) \<noteq> RS_PLANNING \<and> st \<noteq> RS_PLANNING
    \<and> (run_terminal r \<longrightarrow> st \<in> set terminal_run_statuses)
    \<and> db' = db\<lparr>pd_runs := update_row k (\<lambda>x. x\<lparr>rr_run := (rr_run x)\<lparr>ru_status := st\<rparr>\<rparr>) (pd_runs db)\<rparr>"
  using assms by (auto simp: progress_def split: option.split_asm if_split_asm)

lemma progress_forward:
  assumes "progress k st db = Inr db'" and "keyed (pd_runs db) (\<lambda>r. ru_run_id (rr_run r))"
  shows "db_forward db db'"
proof -
  obtain r where r: "map_of (pd_runs db) k = Some r" "ru_status (rr_run r) \<noteq> RS_PLANNING" "st \<noteq> RS_PLANNING"
    "run_terminal r \<longrightarrow> st \<in> set terminal_run_statuses"
    "db' = db\<lparr>pd_runs := update_row k (\<lambda>x. x\<lparr>rr_run := (rr_run x)\<lparr>ru_status := st\<rparr>\<rparr>) (pd_runs db)\<rparr>"
    using progress_Inr [OF assms(1)] by blast
  have runs: "pd_runs db' = update_row k (\<lambda>x. x\<lparr>rr_run := (rr_run x)\<lparr>ru_status := st\<rparr>\<rparr>) (pd_runs db)"
    using r(5) by simp
  have only: "x = r" if "(k, x) \<in> set (pd_runs db)" for x using that r(1) assms(2) by (auto simp: keyed_def)
  show ?thesis
  proof (rule db_forwardI)
    show "\<forall>(k, r)\<in>set (pd_runs db). \<exists>r'. (k, r') \<in> set (pd_runs db') \<and> run_forward r r'"
      unfolding runs
      by (rule update_row_step) (use only r in \<open>auto simp: run_forward_def run_terminal_def\<close>)
    show "\<forall>(k, s)\<in>set (pd_admissions db). \<exists>s'. (k, s') \<in> set (pd_admissions db') \<and> row_forward s s'"
      using r(5) row_forward_refl by auto
  qed (use r(5) in simp_all)
qed

end
