(* ===== verification/ProductInvariant.thy ===== *)
theory ProductInvariant
  imports ProductMachine
begin

text \<open>
  Every operation of the product database keeps its invariant, so the database is a guarded machine.
\<close>

section \<open>Parts of the invariant\<close>

lemma db_ok_keyed:
  assumes "db_ok db"
  shows "keyed (pd_drafts db) (\<lambda>w. dr_draft_id (wr_draft w))" and "keyed (pd_outcomes db) oc_outcome_id"
    and "keyed (pd_runs db) (\<lambda>r. ru_run_id (rr_run r))" and "keyed (pd_admissions db) sa_admission_id"
    and "inj_on (\<lambda>kc. outcome_key (snd kc)) (set (pd_outcomes db))"
    and "inj_on (\<lambda>ks. sa_run_id (snd ks)) (set (pd_admissions db))"
    and "length (active_run_ids db) \<le> 1"
  using assms by (simp_all add: db_ok_def)

lemma db_ok_draft: "db_ok db \<Longrightarrow> (k, w) \<in> set (pd_drafts db) \<Longrightarrow> draft_row_ok w \<and> consumed_recorded db k w"
  by (auto simp: db_ok_def)

lemma db_ok_outcome: "db_ok db \<Longrightarrow> (k, c) \<in> set (pd_outcomes db) \<Longrightarrow> outcome_ok db c"
  by (auto simp: db_ok_def)

lemma db_ok_delivery: "db_ok db \<Longrightarrow> (k, s) \<in> set (pd_admissions db) \<Longrightarrow> delivery_ok db s"
  by (auto simp: db_ok_def)

lemma db_okI:
  assumes "keyed (pd_drafts db) (\<lambda>w. dr_draft_id (wr_draft w))" and "keyed (pd_outcomes db) oc_outcome_id"
    and "keyed (pd_runs db) (\<lambda>r. ru_run_id (rr_run r))" and "keyed (pd_admissions db) sa_admission_id"
    and "inj_on (\<lambda>kc. outcome_key (snd kc)) (set (pd_outcomes db))"
    and "inj_on (\<lambda>ks. sa_run_id (snd ks)) (set (pd_admissions db))"
    and "length (active_run_ids db) \<le> 1"
    and "\<And>k w. (k, w) \<in> set (pd_drafts db) \<Longrightarrow> draft_row_ok w \<and> consumed_recorded db k w"
    and "\<And>k c. (k, c) \<in> set (pd_outcomes db) \<Longrightarrow> outcome_ok db c"
    and "\<And>k s. (k, s) \<in> set (pd_admissions db) \<Longrightarrow> delivery_ok db s"
  shows "db_ok db"
  unfolding db_ok_def using assms by auto

lemma new_db_ok: "db_ok (new_db objects)"
  by (simp add: db_ok_def new_db_def keyed_def active_run_ids_def)

lemma active_run_ids_cong: "pd_runs db' = pd_runs db \<Longrightarrow> active_run_ids db' = active_run_ids db"
  by (simp add: active_run_ids_def)

lemma delivery_ok_cong: "pd_runs db' = pd_runs db \<Longrightarrow> delivery_ok db' s = delivery_ok db s"
  by (simp add: delivery_ok_def)

lemma no_active: "get_active_run_id db = None \<longleftrightarrow> active_run_ids db = []"
proof (cases "sort (active_run_ids db)")
  case Nil
  then have "set (active_run_ids db) = {}" by (metis set_empty set_sort)
  with Nil show ?thesis by (simp add: get_active_run_id_def)
next
  case (Cons k ks)
  then have "set (active_run_ids db) \<noteq> {}" by (metis list.distinct(1) set_empty set_sort)
  with Cons show ?thesis by (simp add: get_active_run_id_def)
qed

lemma fewer_update:
  assumes "\<And>r. (k, r) \<in> set rows \<Longrightarrow> P r \<Longrightarrow> P (f r)"
  shows "length (filter (\<lambda>(j, r). \<not> P r) (update_row k f rows)) \<le> length (filter (\<lambda>(j, r). \<not> P r) rows)"
  using assms
proof (induction rows)
  case Nil
  then show ?case by (simp add: update_row_def)
next
  case (Cons jr rows)
  have "length (filter (\<lambda>(j, r). \<not> P r) (update_row k f rows)) \<le> length (filter (\<lambda>(j, r). \<not> P r) rows)"
    by (rule Cons.IH) (simp add: Cons.prems)
  moreover have "P (snd jr) \<Longrightarrow> fst jr = k \<Longrightarrow> P (f (snd jr))" using Cons.prems by (cases jr) auto
  ultimately show ?case by (cases jr) (auto simp: update_row_def)
qed

lemma active_update:
  assumes "\<And>r. (k, r) \<in> set (pd_runs db) \<Longrightarrow> run_terminal r \<Longrightarrow> run_terminal (f r)"
    and "pd_runs db' = update_row k f (pd_runs db)"
  shows "length (active_run_ids db') \<le> length (active_run_ids db)"
proof -
  have "active_run_ids d = map fst (filter (\<lambda>(j, r). \<not> run_terminal r) (pd_runs d))" for d
    by (simp add: active_run_ids_def run_terminal_def)
  with fewer_update [where P = run_terminal, OF assms(1), of k] assms(2) show ?thesis by simp
qed

lemma inj_on_snoc:
  assumes "inj_on (\<lambda>x. g (snd x)) (set rows)" and "g v \<notin> g ` snd ` set rows"
  shows "inj_on (\<lambda>x. g (snd x)) (set (rows @ [(k, v)]))"
  using assms by (auto simp: image_image)

lemma inj_on_update_row:
  assumes "inj_on (\<lambda>x. g (snd x)) (set rows)" and "\<And>v. (k, v) \<in> set rows \<Longrightarrow> g (f v) = g v"
  shows "inj_on (\<lambda>x. g (snd x)) (set (update_row k f rows))"
proof -
  let ?h = "\<lambda>(k', v). (k', if k' = k then f v else v)"
  have "g (snd (?h x)) = g (snd x)" if "x \<in> set rows" for x using that assms(2) [of "snd x"] by (auto simp: case_prod_beta)
  with assms(1) have "inj_on ((\<lambda>x. g (snd x)) \<circ> ?h) (set rows)" by (simp add: inj_on_def)
  then show ?thesis unfolding update_row_def set_map by (rule inj_on_imageI)
qed

section \<open>Prepare and renewal\<close>

lemma unconsumed_row_ok: "draft_row_ok (unconsumed_row d) \<longleftrightarrow> draft_valid d" "consumed_recorded db k (unconsumed_row d)"
  by (simp_all add: draft_row_ok_def consumed_recorded_def unconsumed_row_def)

lemma prepared_ok:
  assumes "db_ok db" and "prepared db d c db'" and "draft_valid d" and "oc_payload c = BodyPrepare d"
    and "is_ok (validate_outcome_identity prepare_route c)"
  shows "db_ok db'"
proof -
  note k = db_ok_keyed [OF assms(1)]
  have t: "pd_drafts db' = pd_drafts db @ [(dr_draft_id d, unconsumed_row d)]"
    "pd_outcomes db' = pd_outcomes db @ [(oc_outcome_id c, c)]" "pd_runs db' = pd_runs db"
    "pd_admissions db' = pd_admissions db" "dr_draft_id d \<notin> fst ` set (pd_drafts db)"
    "oc_outcome_id c \<notin> fst ` set (pd_outcomes db)" "outcome_key c \<notin> outcome_key ` snd ` set (pd_outcomes db)"
    using assms(2) by (simp_all add: prepared_def)
  note f = prepared_forward [OF assms(2)]
  show ?thesis
  proof (rule db_okI)
    show "inj_on (\<lambda>kc. outcome_key (snd kc)) (set (pd_outcomes db'))"
      unfolding t(2) by (rule inj_on_snoc [OF k(5) t(7)])
    show "draft_row_ok w \<and> consumed_recorded db' i w" if "(i, w) \<in> set (pd_drafts db')" for i w
      using that db_ok_draft [OF assms(1)] consumed_recorded_forward [OF f] assms(3)
      by (auto simp: t(1) unconsumed_row_ok)
    show "outcome_ok db' x" if "(i, x) \<in> set (pd_outcomes db')" for i x
      using that db_ok_outcome [OF assms(1)] outcome_ok_forward [OF f] assms(4,5)
      by (auto simp: t(2) outcome_ok_def)
    show "delivery_ok db' s" if "(i, s) \<in> set (pd_admissions db')" for i s
      using that db_ok_delivery [OF assms(1)] by (simp add: t(4) delivery_ok_cong [OF t(3)])
  qed (use k t active_run_ids_cong [OF t(3)] in \<open>simp_all add: keyed_snoc unconsumed_row_def\<close>)
qed

lemma renewed_ok:
  assumes "db_ok db" and "renewed env now k fp l db db'"
  shows "db_ok db'"
proof -
  note f = renewed_forward [OF assms(2)]
  obtain leases where db': "db' = db\<lparr>pd_leases := leases\<rparr>" using assms(2) by (simp add: renewed_def)
  have runs: "pd_runs db' = pd_runs db" by (simp add: db')
  show ?thesis
  proof (rule db_okI)
    show "draft_row_ok w \<and> consumed_recorded db' i w" if "(i, w) \<in> set (pd_drafts db')" for i w
      using that db_ok_draft [OF assms(1)] consumed_recorded_forward [OF f] by (auto simp: db')
    show "outcome_ok db' x" if "(i, x) \<in> set (pd_outcomes db')" for i x
      using that db_ok_outcome [OF assms(1)] outcome_ok_forward [OF f] by (auto simp: db')
    show "delivery_ok db' s" if "(i, s) \<in> set (pd_admissions db')" for i s
      using that db_ok_delivery [OF assms(1)] delivery_ok_cong [OF runs] by (simp add: db')
  qed (use db_ok_keyed [OF assms(1)] active_run_ids_cong [OF runs] in \<open>simp_all add: db'\<close>)
qed

section \<open>Confirmation\<close>

text \<open>A draft that was found unconsumed, and the commit built from it.\<close>

definition confirmable :: "product_db \<Rightarrow> confirm_commit \<Rightarrow> bool" where
  "confirmable db c \<longleftrightarrow>
     (\<exists>w. (ra_draft_id (oc_payload (cc_outcome c)), w) \<in> set (pd_drafts db) \<and> wr_consumed_at w = None)
     \<and> ra_draft_id (oc_payload (cc_outcome c)) = dr_draft_id (rd_draft (cc_draft c))
     \<and> (\<exists>t. rd_consumed_at (cc_draft c) = Some t)
     \<and> rd_admission_id (cc_draft c) = Some (ra_admission_id (oc_payload (cc_outcome c)))
     \<and> rd_run_id (cc_draft c) = Some (ru_run_id (cc_run c))
     \<and> is_ok (validate_outcome_identity confirm_route (cc_outcome c))
     \<and> ra_request_hash (oc_payload (cc_outcome c)) = oc_request_hash (cc_outcome c)
     \<and> run_admission_valid (oc_payload (cc_outcome c))
     \<and> ra_run_id (oc_payload (cc_outcome c)) = ru_run_id (cc_run c)
     \<and> sa_admission_id (cc_scheduler c) = ra_admission_id (oc_payload (cc_outcome c))
     \<and> sa_run_id (cc_scheduler c) = ru_run_id (cc_run c)
     \<and> sa_outcome_id (cc_scheduler c) = oc_outcome_id (cc_outcome c) \<and> admission_valid (cc_scheduler c)
     \<and> pristine (cc_scheduler c) (ra_admitted_at (oc_payload (cc_outcome c)))
     \<and> ru_status (cc_run c) = RS_PLANNING"

lemma confirm_step:
  assumes "confirm_transaction env be ids ck q key db = Inr (a, False, db')" and "db_ok db"
  obtains c where "confirmable db c" and "admitted (ck_created ck) db c db'" and "active_run_ids db = []"
    and "a = oc_payload (cc_outcome c)" and "ra_draft_id a = cq_draft_id q"
    and "key_digest env confirm_route key = Inr (oc_digest (cc_outcome c))"
    and "confirmation_request_hash env q = Inr (oc_request_hash (cc_outcome c))"
proof -
  from confirm_accepted [OF assms(1)] obtain h digest r v c where p:
    "confirmation_request_hash env q = Inr h" "key_digest env confirm_route key = Inr digest"
    "get_draft env db (cq_draft_id q) = Inr (Some r)"
    "validate_confirm_request env r q (ck_checked ck) = Inr v" "get_active_run_id db = None"
    "commit_of env ids ck r v h digest c" "check_confirm_commit env key c = Inr ()"
    "insert_confirm_commit (ck_created ck) c db = Inr db'" "a = oc_payload (cc_outcome c)" by metis
  from get_draft_Inr [OF p(3)] obtain w where w: "map_of (pd_drafts db) (cq_draft_id q) = Some w"
    "rd_consumed_at r = wr_consumed_at w" by blast
  note v = validate_confirm_request_Inr [OF p(4)]
  have row: "(cq_draft_id q, w) \<in> set (pd_drafts db)" "wr_consumed_at w = None"
    using w v by (auto simp: consumed_def dest: map_of_SomeD)
  have "confirmable db c" "ra_draft_id a = cq_draft_id q"
    using p(6,7,9) v row unfolding confirmable_def check_confirm_commit_Inr commit_of_def by auto
  moreover have "key_digest env confirm_route key = Inr (oc_digest (cc_outcome c))"
    "confirmation_request_hash env q = Inr (oc_request_hash (cc_outcome c))"
    using p(1,2,6) by (simp_all add: commit_of_def)
  moreover note insert_confirm_commit_Inr [OF p(8)]
  ultimately show thesis using that p(5,9) by (simp add: no_active)
qed

lemma admitted_tables:
  assumes "admitted created db c db'"
  shows "pd_drafts db' = update_row (dr_draft_id (rd_draft (cc_draft c))) (consume_row (cc_draft c)) (pd_drafts db)"
    and "pd_outcomes db' = pd_outcomes db @ [(oc_outcome_id (cc_outcome c), confirm_body c)]"
    and "pd_runs db' = pd_runs db @ [(ru_run_id (cc_run c), new_run_row created c)]"
    and "pd_admissions db' = pd_admissions db @ [(sa_admission_id (cc_scheduler c), cc_scheduler c)]"
    and "outcome_key (confirm_body c) \<notin> outcome_key ` snd ` set (pd_outcomes db)"
    and "oc_outcome_id (cc_outcome c) \<notin> fst ` set (pd_outcomes db)"
    and "ru_run_id (cc_run c) \<notin> fst ` set (pd_runs db)"
    and "sa_admission_id (cc_scheduler c) \<notin> fst ` set (pd_admissions db)"
    and "sa_run_id (cc_scheduler c) \<notin> sa_run_id ` snd ` set (pd_admissions db)"
  using assms by (simp_all add: admitted_def confirm_body_def)

lemma admitted_recorded:
  assumes "confirmable db c" and "admitted created db c db'"
  shows "recorded db' (oc_outcome_id (cc_outcome c)) (oc_payload (cc_outcome c))"
proof -
  note t = admitted_tables [OF assms(2)]
  obtain w where "(dr_draft_id (rd_draft (cc_draft c)), w) \<in> set (pd_drafts db)" "wr_consumed_at w = None"
    using assms(1) by (auto simp: confirmable_def)
  then have "(dr_draft_id (rd_draft (cc_draft c)), consume_row (cc_draft c) w) \<in> set (pd_drafts db')"
    by (auto simp: t(1) set_update_row)
  then show ?thesis
    using assms(1) \<open>wr_consumed_at w = None\<close> unfolding recorded_def
    by (intro conjI exI [of _ "consume_row (cc_draft c) w"] exI [of _ "cc_scheduler c"])
      (auto simp: confirmable_def consume_row_def t(4))
qed

lemma confirm_body_simps [simp]:
  "oc_payload (confirm_body c) = BodyConfirm (oc_payload (cc_outcome c))"
  "oc_outcome_id (confirm_body c) = oc_outcome_id (cc_outcome c)"
  "oc_request_hash (confirm_body c) = oc_request_hash (cc_outcome c)"
  "validate_outcome_identity route (confirm_body c) = validate_outcome_identity route (cc_outcome c)"
  by (simp_all add: confirm_body_def)

lemma admitted_ok:
  assumes "db_ok db" and "confirmable db c" and "admitted created db c db'" and "active_run_ids db = []"
  shows "db_ok db'"
proof -
  note k = db_ok_keyed [OF assms(1)] and t = admitted_tables [OF assms(3)] and f = admitted_forward [OF assms(3)]
  note rec = admitted_recorded [OF assms(2,3)]
  have new: "consumed_recorded db' (dr_draft_id (rd_draft (cc_draft c))) w" for w
    using assms(2) unfolding consumed_recorded_def
    by (auto simp: t(2) confirmable_def intro!: exI [of _ "confirm_body c"])
  show ?thesis
  proof (rule db_okI)
    show "inj_on (\<lambda>kc. outcome_key (snd kc)) (set (pd_outcomes db'))"
      unfolding t(2) by (rule inj_on_snoc [OF k(5) t(5)])
    show "inj_on (\<lambda>ks. sa_run_id (snd ks)) (set (pd_admissions db'))"
      unfolding t(4) by (rule inj_on_snoc [OF k(6) t(9)])
    show "keyed (pd_drafts db') (\<lambda>w. dr_draft_id (wr_draft w))"
      unfolding t(1) by (rule keyed_update_row [OF k(1)]) (simp add: consume_row_def)
    show "keyed (pd_outcomes db') oc_outcome_id" "keyed (pd_admissions db') sa_admission_id"
      "keyed (pd_runs db') (\<lambda>r. ru_run_id (rr_run r))"
      using k t by (simp_all add: keyed_snoc new_run_row_def)
    show "length (active_run_ids db') \<le> 1" using assms(4) by (simp add: active_run_ids_def t(3))
    show "draft_row_ok w \<and> consumed_recorded db' i w" if w: "(i, w) \<in> set (pd_drafts db')" for i w
    proof (cases "i = dr_draft_id (rd_draft (cc_draft c))")
      case True
      with w obtain u where "(i, u) \<in> set (pd_drafts db)" "w = consume_row (cc_draft c) u"
        by (auto simp: t(1) set_update_row)
      with db_ok_draft [OF assms(1)] assms(2) new True show ?thesis
        by (fastforce simp: draft_row_ok_def consume_row_def confirmable_def)
    next
      case False
      with w have "(i, w) \<in> set (pd_drafts db)" by (simp add: t(1) set_update_row)
      with db_ok_draft [OF assms(1) this] consumed_recorded_forward [OF f] show ?thesis by blast
    qed
    show "outcome_ok db' x" if "(i, x) \<in> set (pd_outcomes db')" for i x
      using that db_ok_outcome [OF assms(1)] outcome_ok_forward [OF f] rec assms(2)
      by (auto simp: t(2) outcome_ok_def confirmable_def)
    show "delivery_ok db' s" if "(i, s) \<in> set (pd_admissions db')" for i s
    proof (cases "(i, s) \<in> set (pd_admissions db)")
      case True
      with db_ok_delivery [OF assms(1)] show ?thesis by (fastforce simp: delivery_ok_def t(3))
    next
      case False
      with that have s: "s = cc_scheduler c" by (auto simp: t(4))
      have "admission_valid s" "sa_state s = AS_PENDING" "start_absent s" "sa_attempts s = 0" "sa_generation s = 0"
        "sa_run_id s = ru_run_id (cc_run c)" "ru_status (rr_run (new_run_row created c)) = RS_PLANNING"
        using assms(2) by (simp_all add: s confirmable_def pristine_def start_absent_def new_run_row_def)
      then show ?thesis unfolding delivery_ok_def by (auto simp: t(3))
    qed
  qed
qed

section \<open>Starting and running\<close>

lemma delivered_ok:
  assumes "db_ok db" and "delivered now e cur row acked db db'" and "(i, cur) \<in> set (pd_admissions db)"
  shows "db_ok db' \<and> ru_status (rr_run row) = RS_PLANNING"
proof -
  note k = db_ok_keyed [OF assms(1)] and d = assms(2) [unfolded delivered_def]
  have i: "i = sa_admission_id cur" using assms(3) k(4) by (auto simp: keyed_def)
  have rid: "sa_run_id cur = ru_run_id (rr_run row)" using d k(3) by (auto simp: keyed_def dest!: map_of_SomeD)
  have row: "r = row" if "(ru_run_id (rr_run row), r) \<in> set (pd_runs db)" for r
    using that d k(3) by (auto simp: keyed_def rid)
  have "delivery_ok db cur" using db_ok_delivery [OF assms(1,3)] .
  then have plan: "ru_status (rr_run row) = RS_PLANNING" and zero: "sa_attempts cur = 0" "sa_generation cur = 0"
    using d row by (auto simp: delivery_ok_def rid is_final_def split: if_split_asm)
  have f: "db_forward db db'"
    using delivered_forward [OF assms(2) _ k(4) plan k(3)] assms(3) k(4) i by (simp add: keyed_map_of)
  have runs: "pd_runs db' = update_row (ru_run_id (rr_run row)) (\<lambda>x. x\<lparr>rr_run := started_run now (rr_run row),
         rr_revision := rr_revision row + 1, rr_sequence := rr_sequence row + 1\<rparr>) (pd_runs db)"
    and adm: "pd_admissions db' = update_row (sa_admission_id cur) (\<lambda>_. acked) (pd_admissions db)"
    and rest: "pd_drafts db' = pd_drafts db" "pd_outcomes db' = pd_outcomes db"
    and fwd: "row_forward cur acked" and acked: "sa_state acked = AS_ACKNOWLEDGED" "admission_valid acked"
      "sa_generation acked = 1" "sa_attempts acked = 1"
    using d zero by auto
  have ids: "sa_run_id acked = sa_run_id cur" "sa_admission_id acked = sa_admission_id cur"
    using fwd by (simp_all add: row_forward_def)
  have cur_only: "x = cur" if "(sa_admission_id cur, x) \<in> set (pd_admissions db)" for x
    using that assms(3) unfolding i by (rule keyed_unique [OF k(4)])
  have "db_ok db'"
  proof (rule db_okI)
    show "keyed (pd_runs db') (\<lambda>r. ru_run_id (rr_run r))"
      unfolding runs by (rule keyed_update_row [OF k(3)]) (simp add: started_run_def)
    show "keyed (pd_admissions db') sa_admission_id"
      unfolding adm by (rule keyed_update_row [OF k(4)]) (simp add: ids)
    show "inj_on (\<lambda>ks. sa_run_id (snd ks)) (set (pd_admissions db'))"
      unfolding adm by (rule inj_on_update_row [OF k(6)]) (metis cur_only ids(1))
    show "length (active_run_ids db') \<le> 1"
      using active_update [OF _ runs] k(7) row plan
      by (fastforce simp: run_terminal_def terminal_run_statuses_def)
    show "draft_row_ok w \<and> consumed_recorded db' j w" if "(j, w) \<in> set (pd_drafts db')" for j w
      using that db_ok_draft [OF assms(1)] consumed_recorded_forward [OF f] by (auto simp: rest)
    show "outcome_ok db' x" if "(j, x) \<in> set (pd_outcomes db')" for j x
      using that db_ok_outcome [OF assms(1)] outcome_ok_forward [OF f] by (auto simp: rest)
    show "delivery_ok db' s" if s: "(j, s) \<in> set (pd_admissions db')" for j s
    proof (cases "j = sa_admission_id cur")
      case True
      with s have "s = acked" by (auto simp: adm set_update_row)
      have "\<exists>r. (ru_run_id (rr_run row), r) \<in> set (pd_runs db') \<and> ru_status (rr_run r) = RS_RUNNING"
        using d by (auto simp: runs set_update_row rid started_run_def dest!: map_of_SomeD intro!: exI)
      then obtain r where "(sa_run_id s, r) \<in> set (pd_runs db')" "ru_status (rr_run r) = RS_RUNNING"
        using \<open>s = acked\<close> ids rid by auto
      with \<open>s = acked\<close> acked show ?thesis unfolding delivery_ok_def by (intro conjI exI [of _ r]) simp_all
    next
      case False
      with s have old: "(j, s) \<in> set (pd_admissions db)" by (simp add: adm set_update_row)
      have "sa_run_id s \<noteq> sa_run_id cur" using inj_onD [OF k(6) _ old assms(3)] False i by auto
      with db_ok_delivery [OF assms(1) old] show ?thesis
        by (auto simp: delivery_ok_def runs set_update_row rid)
    qed
  qed (use k in \<open>simp_all add: rest\<close>)
  with plan show ?thesis by blast
qed

lemma progress_ok:
  assumes "db_ok db" and "progress k st db = Inr db'"
  shows "db_ok db'"
proof -
  note b = db_ok_keyed [OF assms(1)] and f = progress_forward [OF assms(2) db_ok_keyed(3) [OF assms(1)]]
  obtain r where r: "map_of (pd_runs db) k = Some r" "ru_status (rr_run r) \<noteq> RS_PLANNING" "st \<noteq> RS_PLANNING"
    "run_terminal r \<longrightarrow> st \<in> set terminal_run_statuses"
    "db' = db\<lparr>pd_runs := update_row k (\<lambda>x. x\<lparr>rr_run := (rr_run x)\<lparr>ru_status := st\<rparr>\<rparr>) (pd_runs db)\<rparr>"
    using progress_Inr [OF assms(2)] by blast
  have only: "x = r" if "(k, x) \<in> set (pd_runs db)" for x using that r(1) b(3) by (auto simp: keyed_def)
  have runs: "pd_runs db' = update_row k (\<lambda>x. x\<lparr>rr_run := (rr_run x)\<lparr>ru_status := st\<rparr>\<rparr>) (pd_runs db)"
    and rest: "pd_drafts db' = pd_drafts db" "pd_outcomes db' = pd_outcomes db" "pd_admissions db' = pd_admissions db"
    using r(5) by simp_all
  show ?thesis
  proof (rule db_okI)
    show "keyed (pd_runs db') (\<lambda>r. ru_run_id (rr_run r))"
      unfolding runs by (rule keyed_update_row [OF b(3)]) simp
    show "length (active_run_ids db') \<le> 1"
      using active_update [OF _ runs] b(7) only r(4) by (fastforce simp: run_terminal_def)
    show "draft_row_ok w \<and> consumed_recorded db' j w" if "(j, w) \<in> set (pd_drafts db')" for j w
      using that db_ok_draft [OF assms(1)] consumed_recorded_forward [OF f] by (auto simp: rest)
    show "outcome_ok db' x" if "(j, x) \<in> set (pd_outcomes db')" for j x
      using that db_ok_outcome [OF assms(1)] outcome_ok_forward [OF f] by (auto simp: rest)
    show "delivery_ok db' s" if "(j, s) \<in> set (pd_admissions db')" for j s
    proof -
      have old: "delivery_ok db s" using that db_ok_delivery [OF assms(1)] by (simp add: rest)
      then obtain x where x: "(sa_run_id s, x) \<in> set (pd_runs db)"
        "if ru_status (rr_run x) = RS_PLANNING then sa_state s = AS_PENDING \<and> start_absent s \<and> sa_attempts s = 0
           else sa_state s = AS_ACKNOWLEDGED" by (auto simp: delivery_ok_def)
      have "\<exists>y. (sa_run_id s, y) \<in> set (pd_runs db') \<and> (ru_status (rr_run y) = RS_PLANNING \<longleftrightarrow> ru_status (rr_run x) = RS_PLANNING)"
      proof (cases "sa_run_id s = k")
        case True
        with x(1) only r(2,3) show ?thesis
          by (intro exI [of _ "x\<lparr>rr_run := (rr_run x)\<lparr>ru_status := st\<rparr>\<rparr>"]) (auto simp: runs set_update_row)
      next
        case False
        with x(1) show ?thesis by (intro exI [of _ x]) (simp add: runs set_update_row)
      qed
      with x(2) old show ?thesis unfolding delivery_ok_def by metis
    qed
  qed (use b in \<open>simp_all add: rest\<close>)
qed

section \<open>The machine\<close>

lemma transact_step:
  assumes "db_ok db" and "transact env db op = Inr db'"
  shows "db_ok db' \<and> db_forward db db'"
proof (cases op)
  case (OpPrepare plan ids now q key)
  with assms(2) obtain d where "prepare_run env plan ids now q key db = Inr (d, db')" by (auto elim!: rbind_InrE)
  from prepare_step [OF this] show ?thesis
    using prepared_ok [OF assms(1)] prepared_forward assms(1) db_forward_refl by blast
next
  case (OpRenew now k q key)
  with assms(2) obtain l where "renew_exact_draft env now k q key db = Inr (l, db')" by (auto elim!: rbind_InrE)
  from renew_step [OF this] show ?thesis
    using renewed_ok [OF assms(1)] renewed_forward assms(1) db_forward_refl by blast
next
  case (OpConfirm be ids ck q key)
  with assms(2) obtain a replayed where t: "confirm_transaction env be ids ck q key db = Inr (a, replayed, db')"
    by (auto elim!: rbind_InrE)
  show ?thesis
  proof (cases replayed)
    case True
    with t confirm_replayed assms(1) db_forward_refl show ?thesis by fastforce
  next
    case False
    with t have "confirm_transaction env be ids ck q key db = Inr (a, False, db')" by simp
    from confirm_step [OF this assms(1)] show ?thesis
      using admitted_ok [OF assms(1)] admitted_forward by metis
  qed
next
  case (OpStartRun worker now e k)
  with assms(2) have s: "start_admitted_run worker now e k db = Inr db'" by simp
  note b = db_ok_keyed [OF assms(1)]
  have "admission_valid x" if "map_of (pd_admissions db) k = Some x" for x
    using db_ok_delivery [OF assms(1) map_of_SomeD [OF that]] by (simp add: delivery_ok_def)
  from start_step [OF s b(4,3) this] show ?thesis
  proof
    assume "db' = db"
    with assms(1) db_forward_refl show ?thesis by simp
  next
    assume "\<exists>cur row acked. map_of (pd_admissions db) k = Some cur \<and> delivered now e cur row acked db db'"
    then obtain cur row acked where c: "map_of (pd_admissions db) k = Some cur"
      and d: "delivered now e cur row acked db db'" by blast
    have k: "k = sa_admission_id cur" using map_of_SomeD [OF c] b(4) by (auto simp: keyed_def)
    note ok = delivered_ok [OF assms(1) d map_of_SomeD [OF c]]
    from delivered_forward [OF d _ b(4) _ b(3)] c k ok show ?thesis by simp
  qed
next
  case (OpProgress k st)
  with assms(2) have "progress k st db = Inr db'" by simp
  with progress_ok [OF assms(1)] progress_forward db_ok_keyed(3) [OF assms(1)] show ?thesis by blast
qed

interpretation product: guarded_machine "transact env" db_ok db_forward for env
  by unfold_locales (use transact_step db_forward_refl db_forward_trans in blast)+

lemma product_step_eq: "product_step env = product.step env"
  by (intro ext) (simp add: product_step_def product.step_def)

lemma product_run_ok: "db_ok db \<Longrightarrow> db_ok (product_run env db ops)"
  unfolding product_run_def product_step_eq by (rule product.run_valid)

lemma product_run_forward: "db_ok db \<Longrightarrow> db_forward db (product_run env db ops)"
  unfolding product_run_def product_step_eq by (rule product.run_forward)

lemma product_run_append: "product_run env db (ps @ qs) = product_run env (product_run env db ps) qs"
  by (simp add: product_run_def)

end
