(* ===== verification/ProductScenario.thy ===== *)
theory ProductScenario
  imports ProductInvariant PlainJson
begin

text \<open>
  A small concrete deployment: one object, one draft, one task, and clocks that print as decimals.
\<close>

function bits :: "int \<Rightarrow> string" where
  "bits i = (if i \<le> 0 then [] else (if even i then CHR ''0'' else CHR ''1'') # bits (i div 2))"
  by pat_completeness auto
termination
  by (relation "measure nat") auto

declare bits.simps [simp del]

definition print_time :: "timestamp \<Rightarrow> string" where
  "print_time t = (if ts_instant t < 0 then CHR ''-'' # bits (- ts_instant t) else bits (ts_instant t))"

definition bits_value :: "string \<Rightarrow> int" where
  "bits_value s = foldr (\<lambda>c n. (if c = CHR ''1'' then 1 else 0) + 2 * n) s 0"

definition scan_time :: "string \<Rightarrow> timestamp option" where
  "scan_time s = Some (at_us (if s \<noteq> [] \<and> hd s = CHR ''-'' then - bits_value (tl s) else bits_value s))"

lemma bits_value_bits: "0 \<le> i \<Longrightarrow> bits_value (bits i) = i"
proof (induction i rule: bits.induct)
  case (1 i)
  show ?case
  proof (cases "i = 0")
    case True
    then show ?thesis by (simp add: bits.simps [of 0] bits_value_def)
  next
    case False
    then have "0 < i" "bits_value (bits (i div 2)) = i div 2" using 1 by auto
    then show ?thesis by (simp add: bits.simps [of i] bits_value_def) presburger
  qed
qed

lemma hd_bits: "bits i \<noteq> [] \<Longrightarrow> hd (bits i) \<noteq> CHR ''-''"
  by (subst (asm) bits.simps, subst bits.simps) auto

definition demo_env :: wire_env where
  "demo_env = \<lparr>we_repr = \<lambda>_. ''0.5'', we_sha = \<lambda>_. ucs (replicate 64 CHR ''a''), we_up = \<lambda>c. [c], we_iso = print_time,
     we_dump = print_time, we_parse = scan_time\<rparr>"

definition demo_goal_request :: prepare_request where
  "demo_goal_request = \<lparr>pq_object_id = ''AAPL'', pq_goal = ''Grow'', pq_as_of = Date 2024 1 2, pq_preferences = [],
     pq_base_run_id = None, pq_base_view = None\<rparr>"

definition demo_scheme :: "string \<Rightarrow> scheme" where
  "demo_scheme goal_id = \<lparr>sc_scheme_id = ''SCH-1'', sc_object_id = ''AAPL'', sc_goal_id = goal_id, sc_research_scope = [],
     sc_data = [], sc_agents = [], sc_skills = [''evidence_collection_v1''], sc_calculations = [], sc_assurance = [],
     sc_reports = [], sc_limitations = [], sc_generated_by = ''lead'', sc_generated_model = None,
     sc_created_at = at_us 1, sc_confirmed_at = None, sc_context = None\<rparr>"

definition demo_plan :: "goal \<Rightarrow> product_exn + scheme \<times> goal \<times> scheme" where
  "demo_plan g = (let s = demo_scheme (go_goal_id g) in Inr (s, g, s))"

definition demo_task :: "string \<Rightarrow> task" where
  "demo_task run_id = \<lparr>t_created_at = 5, t_task_id = run_id @ '':T1'', t_run_id = run_id, t_parent_task_id = None,
     t_task_type = ''evidence_collection'', t_goal = ''collect'', t_assigned_agent = ''data'',
     t_skill_id = ''evidence_collection_v1'', t_dependencies = [], t_origin = TO_PLAN, t_reason_code = None,
     t_status = TS_CREATED, t_progress = 0, t_attempt_count = 0, t_result_ref = None, t_task_input_evidence_ids = [],
     t_task_output_evidence_ids = [], t_evidence_acquisition_status = None, t_evidence_source_coverage = [],
     t_output_requirements = None, t_output_outcomes = [], t_missing_output_dependencies = []\<rparr>"

definition demo_backend :: backend where
  "demo_backend = \<lparr>be_planner = \<lambda>run_id g s. PlanReady \<lparr>g_created_at = 5, g_graph_id = ''PLAN-'' @ run_id, g_run_id = run_id,
     g_version = 1, g_tasks = [demo_task run_id]\<rparr> g s, be_incremental = None,
     be_agents = [(''data'', [''evidence_collection''])]\<rparr>"

definition demo_prepare :: product_op where
  "demo_prepare = OpPrepare demo_plan \<lparr>pi_goal = ''1'', pi_draft = ''1'', pi_outcome = ''1''\<rparr> (at_us 2) demo_goal_request
     (ucs ''KEY-0'')"

definition demo_request :: confirm_request where
  "demo_request = \<lparr>cq_draft_id = ''DRAFT-1'', cq_version = 1, cq_hash = ucs (''sha256:'' @ replicate 64 CHR ''a''),
     cq_object_id = ''AAPL''\<rparr>"

definition demo_ids :: "string \<Rightarrow> confirm_ids" where
  "demo_ids s = \<lparr>ci_run = s, ci_admission = s, ci_outcome = ''C'' @ s, ci_event = \<lambda>n. s @ ''-'' @ decimal n\<rparr>"

definition demo_clock :: "int \<Rightarrow> confirm_clock" where
  "demo_clock n = \<lparr>ck_checked = at_us n, ck_confirmed = at_us (n + 1), ck_admitted = at_us (n + 2), ck_created = n + 2\<rparr>"

definition demo_confirm :: product_op where
  "demo_confirm = OpConfirm demo_backend (demo_ids ''1'') (demo_clock 10) demo_request (ucs ''KEY-1'')"

section \<open>The environment\<close>

definition demo_hash :: utext where
  "demo_hash = ucs (''sha256:'' @ replicate 64 CHR ''a'')"

lemma demo_hash_identity [simp]: "is_sha256_identity demo_hash"
  by code_simp

lemma demo_hash_plain [simp]: "plain_text demo_hash"
  by (simp add: demo_hash_def)

lemma is_utc_at_us [simp]: "is_utc (at_us n)"
  by (simp add: is_utc_def at_us_def)

lemma demo_wire_law: "wire_law demo_env"
proof -
  have "scan_time (print_time t) = Some t" if "is_utc t" for t
  proof -
    have t: "t = at_us (ts_instant t)" using that by (simp add: at_us_def is_utc_def)
    show ?thesis
    proof (cases "ts_instant t < 0")
      case True
      then show ?thesis using t by (simp add: scan_time_def print_time_def bits_value_bits)
    next
      case False
      then show ?thesis using t hd_bits [of "ts_instant t"] by (auto simp: scan_time_def print_time_def bits_value_bits)
    qed
  qed
  then show ?thesis by (simp add: wire_law_def demo_env_def)
qed

lemma replace_text_absent: "c \<notin> set s \<Longrightarrow> replace_text (c # old) new s = s"
proof (induction s)
  case Nil
  then show ?case by (simp add: replace_text.simps)
next
  case (Cons d s)
  then show ?case by (subst replace_text.simps) auto
qed

lemma set_bits: "set (bits i) \<subseteq> {CHR ''0'', CHR ''1''}"
proof (induction i rule: bits.induct)
  case (1 i)
  then show ?case by (cases "i \<le> 0") (auto simp: bits.simps [of i])
qed

lemma demo_zulu: "zulu demo_env t = print_time t"
proof -
  have "CHR ''+'' \<notin> set (print_time t)" using set_bits by (auto simp: print_time_def)
  then show ?thesis by (simp add: zulu_def demo_env_def replace_text_absent)
qed

lemma demo_read [simp]: "read_time demo_env (we_dump demo_env (at_us n)) = Inr (at_us n)"
  by (rule read_time_law [OF demo_wire_law]) simp

lemma demo_dump: "we_dump demo_env = print_time"
  by (simp add: demo_env_def)

lemma demo_shifted [simp]: "shifted (at_us n) d = at_us (n + d)"
  by (simp add: shifted_def at_us_def)

lemma demo_canonical: "plain v \<Longrightarrow> canonical_json_sha256 (we_repr demo_env) (we_sha demo_env) v = Inr demo_hash"
  using plain_hash [of v "we_repr demo_env" "ucs (replicate 64 CHR ''a'')"]
  by (simp add: demo_env_def demo_hash_def ucs_def)

lemma demo_normalized:
  "normalize_http_method (we_up demo_env) (ucs ''POST'') = Inr (ucs ''POST'')"
  "normalize_route_template prepare_route = Inr prepare_route"
  "normalize_route_template confirm_route = Inr confirm_route"
  by (simp_all add: demo_env_def normalize_http_method_def normalize_route_template_def prepare_route_def
      confirm_route_def ucs_def ustrip_def uspace_def upper_text_def control_char_def Let_def)

lemma demo_plain [simp]:
  "plain_text prepare_route" "plain_text confirm_route" "plain_text contract_version" "plain_text local_access_scope"
  by (simp_all add: prepare_route_def confirm_route_def contract_version_def local_access_scope_def)

lemma field_plain [simp]: "fst (field k v) = Some (ucs k)" "key_text (field k v) = ucs k" "snd (field k v) = v"
  by (simp_all add: field_def key_text_def)

lemma demo_request_hash:
  assumes "plain body" and "route \<in> {prepare_route, confirm_route}"
  shows "request_hash demo_env route body = Inr demo_hash"
  using assms by (auto simp: request_hash_def canonical_request_hash_def demo_normalized demo_canonical)

lemma demo_key_digest:
  assumes "ustrip (ucs key) \<noteq> []" and "\<not> list_ex control_char (ucs key)" and "route \<in> {prepare_route, confirm_route}"
  shows "key_digest demo_env route (ucs key) = Inr demo_hash"
  using assms by (auto simp: key_digest_def idempotency_key_digest_def demo_normalized demo_canonical)

lemma demo_keys:
  "route \<in> {prepare_route, confirm_route} \<Longrightarrow> key_digest demo_env route (ucs ''KEY-0'') = Inr demo_hash"
  "route \<in> {prepare_route, confirm_route} \<Longrightarrow> key_digest demo_env route (ucs ''KEY-1'') = Inr demo_hash"
  by (rule demo_key_digest; simp add: ucs_def ustrip_def uspace_def control_char_def)+

section \<open>Prepare\<close>

definition demo_goal :: goal where
  "demo_goal = new_goal demo_goal_request ''GOAL-1'' (at_us 2)"

definition demo_draft :: draft where
  "demo_draft = \<lparr>dr_draft_id = ''DRAFT-1'', dr_version = 1, dr_object_id = ''AAPL'', dr_goal = demo_goal,
     dr_scheme = demo_scheme ''GOAL-1'', dr_prepare_hash = demo_hash, dr_hash = demo_hash,
     dr_created_at = at_us 2, dr_expires_at = at_us (2 + draft_expiry)\<rparr>"

definition demo_prepared :: "outcome_body outcome" where
  "demo_prepared = \<lparr>oc_outcome_id = ''OUT-1'', oc_scope = local_access_scope, oc_digest = demo_hash,
     oc_method = ucs ''POST'', oc_route = prepare_route, oc_request_hash = demo_hash,
     oc_payload = BodyPrepare demo_draft, oc_created_at = at_us 2\<rparr>"

definition demo_db :: product_db where
  "demo_db = (new_db [''AAPL''])\<lparr>pd_goals := [(''GOAL-1'', demo_goal)],
     pd_schemes := [(''SCH-1'', False, demo_scheme ''GOAL-1'')],
     pd_drafts := [(''DRAFT-1'', unconsumed_row demo_draft)], pd_outcomes := [(''OUT-1'', demo_prepared)]\<rparr>"

lemmas demo_records = demo_goal_def demo_scheme_def new_goal_def demo_goal_request_def

lemma plain_jtext [simp]: "plain (jtext s)" "plain (jtime env t)" "plain (jdate d)"
  by (simp_all add: jtext_def jtime_def jdate_def)

lemma plain_jtexts [simp]: "plain (jtexts ss)"
  by (simp add: jtexts_def list_all_iff)

lemma demo_dumps_plain:
  "plain (goal_dump demo_env demo_goal)" "plain (scheme_dump demo_env (demo_scheme ''GOAL-1''))"
  "plain (prepare_dump demo_goal_request)" "plain (VDict (draft_dump demo_env demo_draft))"
  by (simp_all add: goal_dump_def scheme_dump_def prepare_dump_def draft_dump_def draft_fields_def optional_def
      jmaybe_def demo_records demo_draft_def max_safe_integer_def)

lemma plain_filter: "plain (VDict es) \<Longrightarrow> plain (VDict (filter P es))"
  by (simp add: list_all_iff)

lemma demo_draft_hash: "draft_hash_is_valid demo_env demo_draft = Inr True"
  using plain_filter [OF demo_dumps_plain(4)]
  by (simp add: draft_hash_is_valid_def draft_payload_hash_def demo_canonical demo_draft_def)

lemma ucs_eq [simp]: "ucs s = ucs t \<longleftrightarrow> s = t"
  using inj_ucs by blast

lemma demo_json_refl:
  "json_eq (goal_dump demo_env demo_goal) (goal_dump demo_env demo_goal)"
  "json_eq (scheme_dump demo_env (demo_scheme ''GOAL-1'')) (scheme_dump demo_env (demo_scheme ''GOAL-1''))"
  by (simp_all add: goal_dump_def scheme_dump_def optional_def jmaybe_def demo_records field_def jtext_def jtime_def
      jdate_def jtexts_def)

lemma nonblank_Cons: "\<not> is_space c \<Longrightarrow> nonblank (c # s)"
  by (auto simp: nonblank_def strip_def dropWhile_append dropWhile_eq_Nil_conv)

lemma not_space: "c \<in> set ''-:ABCDEFGHIJKLMNOPQRSTUVWXYZabcdefghijklmnopqrstuvwxyz'' \<Longrightarrow> \<not> is_space c"
  by (auto simp: is_space_def)

lemma demo_draft_valid: "draft_valid demo_draft"
  by (simp add: draft_valid_def goal_valid_def scheme_valid_def demo_records demo_draft_def utc_if_given_def
      nonblank_Cons not_space earlier_def draft_expiry_def) (simp add: at_us_def)

lemma demo_prepare_hash: "prepare_request_hash demo_env demo_goal_request = Inr demo_hash"
  by (simp add: prepare_request_hash_def demo_request_hash demo_dumps_plain)

lemma demo_build:
  "build_prepare_draft demo_env demo_goal_request ''DRAFT-1'' demo_goal (demo_scheme ''GOAL-1'') (at_us 2) = Inr demo_draft"
proof -
  have "validate_prepare_identity demo_goal_request demo_goal (demo_scheme ''GOAL-1'') = Inr ()"
    by (simp add: validate_prepare_identity_def require_aware_utc_def demo_records)
  moreover have "of_json (draft_payload_hash (we_repr demo_env) (we_sha demo_env)
      (draft_fields ''DRAFT-1'' 1 ''AAPL'' (goal_dump demo_env demo_goal) (scheme_dump demo_env (demo_scheme ''GOAL-1''))
         demo_hash c e)) = Inr demo_hash" for c e
  proof -
    have "plain (VDict (draft_fields ''DRAFT-1'' 1 ''AAPL'' (goal_dump demo_env demo_goal)
        (scheme_dump demo_env (demo_scheme ''GOAL-1'')) demo_hash c e))"
      using demo_dumps_plain by (simp add: draft_fields_def max_safe_integer_def)
    from plain_filter [OF this] show ?thesis by (simp add: draft_payload_hash_def demo_canonical)
  qed
  moreover have "reread_goal demo_env demo_goal = Inr demo_goal"
    by (rule reread_goal_law [OF demo_wire_law]) (simp add: demo_records)
  moreover have "reread_scheme demo_env (demo_scheme ''GOAL-1'') = Inr (demo_scheme ''GOAL-1'')"
    by (rule reread_scheme_law [OF demo_wire_law]) (simp_all add: demo_records utc_if_given_def)
  moreover have "read_time demo_env (zulu demo_env (at_us n)) = Inr (at_us n)" for n
    using demo_read [of n] by (simp add: demo_zulu demo_dump)
  moreover have "context_closes demo_goal_request (demo_scheme ''GOAL-1'')"
    by (simp add: context_closes_def demo_records)
  moreover have "nonblank ''DRAFT-1''" using demo_draft_valid by (simp add: draft_valid_def demo_draft_def)
  moreover have "pq_object_id demo_goal_request = ''AAPL''" by (simp add: demo_goal_request_def)
  ultimately show ?thesis
    using demo_draft_valid demo_draft_hash
    by (simp add: build_prepare_draft_def require_aware_utc_def demo_prepare_hash Let_def validated_draft_def
        demo_draft_def [symmetric])
qed

lemma demo_atomic:
  assumes "key \<in> {ucs ''KEY-0'', ucs ''KEY-1''}" and "oc_route c \<in> {prepare_route, confirm_route}"
    and "oc_scope c = local_access_scope" and "oc_method c = ucs ''POST''" and "oc_digest c = demo_hash"
  shows "validate_atomic_key demo_env resource c key = Inr ()"
  using assms demo_keys [of "oc_route c"] by (auto simp: validate_atomic_key_def key_digest_def)

lemma demo_identity:
  assumes "oc_route c = route" and "nonblank (oc_outcome_id c)"
    and "oc_scope c = local_access_scope" and "oc_method c = ucs ''POST''" and "oc_digest c = demo_hash"
    and "oc_request_hash c = demo_hash" and "oc_created_at c = at_us n"
  shows "validate_outcome_identity route c = Inr ()"
proof -
  have "ustrip demo_hash \<noteq> []"
    by (simp add: demo_hash_def ucs_def ustrip_def uspace_def)
  with assms show ?thesis
    by (simp add: validate_outcome_identity_def require_nonblank_def require_sha256_def require_utc_def)
qed

lemma demo_prepare_outcome:
  "make_prepare_outcome demo_env (with_payload demo_prepared demo_draft) = Inr (with_payload demo_prepared demo_draft)"
proof -
  have "validate_outcome_identity prepare_route (with_payload demo_prepared demo_draft) = Inr ()"
    by (rule demo_identity) (simp_all add: demo_prepared_def nonblank_Cons not_space)
  then show ?thesis using demo_draft_hash by (simp add: make_prepare_outcome_def) (simp add: demo_prepared_def demo_draft_def)
qed

lemma demo_prepare_run: "transact demo_env (new_db [''AAPL'']) demo_prepare = Inr demo_db"
proof -
  let ?out = "\<lparr>oc_outcome_id = ''OUT-1'', oc_scope = local_access_scope, oc_digest = demo_hash,
     oc_method = ucs ''POST'', oc_route = prepare_route, oc_request_hash = demo_hash,
     oc_payload = demo_draft, oc_created_at = dr_created_at demo_draft\<rparr>"
  have out: "?out = with_payload demo_prepared demo_draft"
    by (simp add: with_payload_def demo_prepared_def demo_draft_def)
  let ?c = "\<lparr>pc_outcome = ?out, pc_request = demo_goal_request, pc_record = fresh_record demo_draft,
    pc_goal = demo_goal, pc_scheme = demo_scheme ''GOAL-1''\<rparr>"
  have check: "check_prepare_commit demo_env (ucs ''KEY-0'') ?c = Inr ()"
    using demo_draft_hash demo_prepare_hash demo_json_refl
    by (simp add: check_prepare_commit_def Let_def demo_atomic fresh_record_def consumed_def)
      (simp add: demo_draft_def)
  have ins: "insert_prepare_commit ?c (new_db [''AAPL'']) = Inr demo_db"
    by (simp add: insert_prepare_commit_def Let_def new_db_def demo_db_def insert_row_def insert_outcome_def
        fresh_record_def unconsumed_row_def with_payload_def demo_prepared_def demo_goal_def new_goal_def
        demo_scheme_def demo_draft_def)
  have "get_outcome demo_env (new_db [''AAPL'']) prepare_route demo_hash = Inr None"
    by (simp add: get_outcome_def new_db_def)
  moreover have "demo_plan demo_goal = Inr (demo_scheme ''GOAL-1'', demo_goal, demo_scheme ''GOAL-1'')"
    by (simp add: demo_plan_def demo_goal_def new_goal_def Let_def)
  moreover have "pq_object_id demo_goal_request \<in> set (pd_objects (new_db [''AAPL'']))"
    by (simp add: demo_goal_request_def new_db_def)
  ultimately show ?thesis
    using demo_build check ins demo_prepare_outcome
    by (simp add: demo_prepare_def prepare_run_def demo_prepare_hash demo_keys demo_goal_def [symmetric] Let_def out)
qed

section \<open>Confirmation\<close>

definition demo_admission :: run_admission where
  "demo_admission = \<lparr>ra_admission_id = ''ADM-1'', ra_run_id = ''RUN-1'', ra_object_id = ''AAPL'', ra_draft_id = ''DRAFT-1'',
     ra_draft_version = 1, ra_draft_hash = demo_hash, ra_goal_id = ''GOAL-1'', ra_scheme_id = ''SCH-1'',
     ra_planned_graph_id = ''PLAN-RUN-1'', ra_request_hash = demo_hash, ra_admitted_at = at_us 12,
     ra_projection_ref = projection_ref ''RUN-1'', ra_events_ref = events_ref ''RUN-1''\<rparr>"

definition demo_graph :: planned_task_graph where
  "demo_graph = \<lparr>g_created_at = 5, g_graph_id = ''PLAN-RUN-1'', g_run_id = ''RUN-1'', g_version = 1,
     g_tasks = [demo_task ''RUN-1'']\<rparr>"

lemma demo_confirm_hash: "confirmation_request_hash demo_env demo_request = Inr demo_hash"
proof -
  have "plain (confirm_dump demo_request)"
    by (simp add: confirm_dump_def demo_request_def max_safe_integer_def)
  then show ?thesis by (simp add: confirmation_request_hash_def demo_request_hash)
qed

lemma demo_get_draft: "get_draft demo_env demo_db ''DRAFT-1'' = Inr (Some (fresh_record demo_draft))"
  using reread_draft_law [OF demo_wire_law demo_draft_valid]
  by (simp add: get_draft_def demo_db_def unconsumed_row_def latest_lease_def latest_lease_row_def new_db_def
      make_draft_record_def consumption_ok_def fresh_record_def)

lemma demo_validated: "validate_confirm_request demo_env (fresh_record demo_draft) demo_request (at_us 10) =
    Inr \<lparr>vc_draft = demo_draft, vc_request = demo_request, vc_hash = demo_hash\<rparr>"
proof -
  have "validate_draft_identity_closure demo_draft = Inr ()"
    by (simp add: validate_draft_identity_closure_def demo_draft_def demo_records)
  moreover have "earlier (at_us 10) (effective_expires_at (fresh_record demo_draft))"
    by (simp add: effective_expires_at_def fresh_record_def demo_draft_def earlier_def at_us_def draft_expiry_def)
  moreover have "cq_draft_id demo_request = dr_draft_id demo_draft" "cq_object_id demo_request = dr_object_id demo_draft"
    "cq_version demo_request = dr_version demo_draft" "cq_hash demo_request = dr_hash demo_draft"
    by (simp_all add: demo_request_def demo_draft_def demo_hash_def)
  ultimately show ?thesis
    using demo_draft_hash demo_confirm_hash
    by (simp add: validate_confirm_request_def require_aware_utc_def Let_def fresh_record_def consumed_def
        identities_match_def)
qed

definition demo_confirmed :: scheme where
  "demo_confirmed = (demo_scheme ''GOAL-1'')\<lparr>sc_confirmed_at := Some (at_us 11)\<rparr>"

definition demo_actual :: actual_runtime_graph where
  "demo_actual = \<lparr>g_created_at = 12, g_graph_id = ''PLAN-RUN-1-actual'', g_run_id = ''RUN-1'', g_version = 1,
     g_tasks = [demo_task ''RUN-1''], g_mutation_history = []\<rparr>"

definition demo_run :: research_run where
  "demo_run = new_run ''RUN-1'' demo_goal demo_confirmed ''AAPL'' ''PLAN-RUN-1'' ''PLAN-RUN-1-actual'' (at_us 12)"

definition demo_event :: "nat \<times> event_type \<times> string option \<times> json_object \<Rightarrow> runtime_event" where
  "demo_event = (\<lambda>(i, t, k, p). \<lparr>ev_event_id = ''EVT-1-'' @ decimal i, ev_run_id = ''RUN-1'', ev_task_id = k, ev_type = t,
     ev_timestamp = at_us 12, ev_sequence = int i + 1, ev_payload = p\<rparr>)"

definition demo_events :: "runtime_event list" where
  "demo_events = map demo_event (enumerate 0 (event_specs demo_env demo_run demo_confirmed demo_graph))"

definition demo_outcome :: "run_admission outcome" where
  "demo_outcome = \<lparr>oc_outcome_id = ''OUT-C1'', oc_scope = local_access_scope, oc_digest = demo_hash,
     oc_method = ucs ''POST'', oc_route = confirm_route, oc_request_hash = demo_hash,
     oc_payload = demo_admission, oc_created_at = at_us 12\<rparr>"

definition demo_tombstone :: draft_record where
  "demo_tombstone = \<lparr>rd_draft = demo_draft, rd_consumed_at = Some (at_us 12), rd_admission_id = Some ''ADM-1'',
     rd_run_id = Some ''RUN-1'', rd_lease = None\<rparr>"

definition demo_delivery :: sched_admission where
  "demo_delivery = \<lparr>sa_admission_id = ''ADM-1'', sa_run_id = ''RUN-1'', sa_outcome_id = ''OUT-C1'', sa_state = AS_PENDING,
     sa_attempts = 0, sa_max_attempts = 3, sa_next_attempt_at = Some (at_us 12), sa_lease_owner = None,
     sa_generation = 0, sa_lease_expires_at = None, sa_start_committed_at = None, sa_started_event_id = None,
     sa_started_sequence = None, sa_acknowledged_at = None, sa_failed_at = None, sa_failure_code = None,
     sa_created_at = at_us 12, sa_updated_at = at_us 12\<rparr>"

definition demo_commit :: confirm_commit where
  "demo_commit = \<lparr>cc_draft = demo_tombstone, cc_outcome = demo_outcome, cc_request = demo_request,
     cc_scheduler = demo_delivery, cc_goal = demo_goal, cc_scheme = demo_confirmed, cc_run = demo_run,
     cc_planned = demo_graph, cc_actual = Some demo_actual, cc_tasks = [demo_task ''RUN-1''], cc_events = demo_events\<rparr>"

lemma demo_bindings: "validate_graph_runtime_bindings demo_graph (be_agents demo_backend) (Some [''evidence_collection_v1''])"
  by code_simp

lemma demo_confirmed_json: "json_eq (scheme_dump demo_env demo_confirmed) (scheme_dump demo_env demo_confirmed)"
  by (simp add: scheme_dump_def optional_def jmaybe_def demo_confirmed_def demo_scheme_def field_def jtext_def jtime_def
      jdate_def jtexts_def)

lemma demo_plan_run:
  "plan_run demo_env demo_backend ''RUN-1'' demo_goal demo_confirmed = Inr (demo_graph, demo_goal, demo_confirmed)"
proof -
  have "be_planner demo_backend ''RUN-1'' demo_goal demo_confirmed = PlanReady demo_graph demo_goal demo_confirmed"
    by (simp add: demo_backend_def demo_graph_def)
  moreover have "chosen_planner demo_backend demo_confirmed = Inr (be_planner demo_backend)" "sc_context demo_confirmed = None"
    "sc_skills demo_confirmed = [''evidence_collection_v1'']"
    by (simp_all add: chosen_planner_def demo_confirmed_def demo_scheme_def)
  ultimately show ?thesis
    using demo_confirmed_json demo_json_refl(1) demo_bindings by (simp add: plan_run_def demo_graph_def)
qed

lemma demo_created: "\<exists>st. created_state 12 ''RUN-1'' demo_graph = Inr st \<and> rs_actual_graph st = demo_actual"
proof -
  have "peel_tasks (g_tasks demo_graph)" "dependencies_reference_known_tasks demo_actual" by code_simp+
  then show ?thesis
    by (simp add: created_state_def create_state_def Let_def demo_graph_def demo_actual_def demo_task_def)
qed

lemma demo_made_events:
  "initial_events demo_env (ci_event (demo_ids ''1'')) demo_run demo_confirmed demo_graph (at_us 12) = Inr demo_events"
  unfolding initial_events_def rmap_Inr_iff demo_events_def
  by (auto simp: list.rel_map make_event_def demo_event_def demo_ids_def demo_run_def new_run_def
      event_fields_valid_def event_specs_def setup_payloads_def demo_graph_def demo_task_def max_sequence_def enumerate_simps)

lemma demo_built: "build_run_admission \<lparr>vc_draft = demo_draft, vc_request = demo_request, vc_hash = demo_hash\<rparr>
    ''ADM-1'' ''RUN-1'' ''PLAN-RUN-1'' (at_us 12) = Inr demo_admission"
proof -
  have "run_admission_valid demo_admission"
    by (simp add: run_admission_valid_def demo_admission_def projection_ref_def events_ref_def nonblank_Cons not_space
        is_space_def)
  then show ?thesis
    by (simp add: build_run_admission_def require_aware_utc_def Let_def demo_admission_def demo_draft_def demo_records)
qed

lemma demo_outcome_made: "make_confirm_outcome demo_outcome = Inr demo_outcome"
proof -
  have "validate_outcome_identity confirm_route demo_outcome = Inr ()"
    by (rule demo_identity) (simp_all add: demo_outcome_def nonblank_Cons not_space)
  then show ?thesis by (simp add: make_confirm_outcome_def) (simp add: demo_outcome_def demo_admission_def)
qed

lemma demo_marked: "mark_draft_consumed (fresh_record demo_draft) demo_admission (at_us 12) = Inr demo_tombstone"
  by (simp add: mark_draft_consumed_def Let_def fresh_record_def consumed_def require_aware_utc_def demo_admission_def
      make_draft_record_def consumption_ok_def demo_tombstone_def demo_draft_def nonblank_given_def nonblank_Cons not_space
      earlier_def) (simp add: at_us_def)

lemma demo_delivery_valid: "admission_valid demo_delivery"
  by code_simp

lemma demo_scheduled: "build_scheduler_admission demo_admission ''OUT-C1'' 3 (at_us 12) = Inr demo_delivery"
  using demo_delivery_valid
  by (simp add: build_scheduler_admission_def require_aware_utc_def Let_def demo_delivery_def demo_admission_def)

lemma demo_run_made: "make_run demo_run = Inr demo_run"
  by (simp add: make_run_def incremental_base_def demo_run_def new_run_def demo_confirmed_def demo_scheme_def)

lemma decimal_eq: "decimal m = decimal n \<longleftrightarrow> m = n"
  by (metis decimal_value_decimal of_nat_eq_iff)

lemma demo_events_list:
  "demo_events = [demo_event (0, RUN_CREATED, None, [(''object_id'', JStr ''AAPL'')]),
     demo_event (1, SCHEME_GENERATED, None, [(''scheme_id'', JStr ''SCH-1''), (''generated_by'', JStr ''lead''),
       (''generated_at'', JStr (print_time (at_us 1))), (''generation_stage'', JStr ''prepare''), (''retrospective'', JBool True)]),
     demo_event (2, SCHEME_CONFIRMED, None, [(''scheme_id'', JStr ''SCH-1'')]),
     demo_event (3, PLAN_GENERATED, None, [(''graph_id'', JStr ''PLAN-RUN-1''), (''task_count'', JInt 1)]),
     demo_event (4, TASK_CREATED, Some ''RUN-1:T1'', [(''task_type'', JStr ''evidence_collection'')])]"
  by (simp add: demo_events_def event_specs_def setup_payloads_def demo_run_def new_run_def demo_confirmed_def
      demo_scheme_def demo_graph_def demo_task_def demo_env_def enumerate_simps numeral_eq_Suc)

lemma demo_checked: "check_confirm_commit demo_env (ucs ''KEY-1'') demo_commit = Inr ()"
proof -
  have "check_request_bound demo_env demo_commit = Inr ()"
    using demo_confirm_hash by (simp add: check_request_bound_def Let_def demo_commit_def demo_outcome_def
        demo_tombstone_def demo_request_def demo_draft_def demo_hash_def)
  moreover have "one_admission demo_commit" "admission_of_draft demo_commit"
    "pristine (cc_scheduler demo_commit) (ra_admitted_at (oc_payload (cc_outcome demo_commit)))" "object_closure demo_commit"
    by (simp_all add: one_admission_def admission_of_draft_def pristine_def object_closure_def Let_def demo_commit_def
        demo_outcome_def demo_tombstone_def demo_run_def new_run_def demo_admission_def demo_delivery_def demo_graph_def
        demo_confirmed_def demo_draft_def demo_records)
  moreover have "as_prepared demo_env demo_commit"
  proof -
    have "(demo_confirmed\<lparr>sc_confirmed_at := sc_confirmed_at (demo_scheme ''GOAL-1'')\<rparr>) = demo_scheme ''GOAL-1''"
      by (simp add: demo_confirmed_def demo_scheme_def)
    then show ?thesis using demo_json_refl
      by (simp add: as_prepared_def Let_def demo_commit_def demo_tombstone_def demo_draft_def)
  qed
  moreover have "same_dump (demo_task ''RUN-1'') (demo_task ''RUN-1'')"
    by (simp add: same_dump_def demo_task_def)
  then have "tasks_of_graph demo_commit" "actual_graph_bound demo_commit"
    by (simp_all add: tasks_of_graph_def authoritative_tasks_def actual_graph_bound_def demo_commit_def demo_actual_def
        demo_graph_def demo_run_def new_run_def Let_def) (simp_all add: demo_task_def)
  moreover have "check_events demo_env demo_commit = Inr ()"
  proof -
    have "contiguous ''RUN-1'' demo_events" "one_creation demo_events" "setup_phase demo_events"
      "map ev_type demo_events = setup_types @ replicate 1 TASK_CREATED"
      by (simp_all add: demo_events_list contiguous_def one_creation_def setup_phase_def setup_types_def demo_event_def
          decimal_eq upt_rec)
    moreover have "setup_bound demo_env demo_commit"
      by (simp add: setup_bound_def demo_commit_def demo_events_list setup_payloads_def demo_event_def demo_run_def
          new_run_def demo_confirmed_def demo_scheme_def demo_graph_def scalar_eq.simps) (simp add: demo_env_def)
    moreover have "list_all (creation_bound demo_commit) (zip (drop 4 demo_events) [demo_task ''RUN-1''])"
      by (simp add: creation_bound_def demo_commit_def demo_events_list demo_event_def demo_task_def)
    ultimately show ?thesis
      by (simp add: check_events_def Let_def demo_commit_def creations_cover_def demo_graph_def)
        (simp add: demo_events_list demo_run_def new_run_def)
  qed
  ultimately show ?thesis
    using demo_draft_hash
    by (simp add: check_confirm_commit_Inr demo_atomic demo_commit_def demo_outcome_def demo_tombstone_def consumed_def
        demo_run_def new_run_def)
qed

lemma demo_build_commit:
  "build_commit demo_env demo_backend (demo_ids ''1'') (demo_clock 10) (fresh_record demo_draft)
     \<lparr>vc_draft = demo_draft, vc_request = demo_request, vc_hash = demo_hash\<rparr> demo_hash demo_hash (ucs ''KEY-1'')
   = Inr demo_commit"
proof -
  obtain st where st: "created_state 12 ''RUN-1'' demo_graph = Inr st" "rs_actual_graph st = demo_actual"
    using demo_created by blast
  have "reread_goal demo_env (dr_goal demo_draft) = Inr demo_goal"
    using reread_goal_law [OF demo_wire_law, of demo_goal] by (simp add: demo_draft_def) (simp add: demo_records)
  moreover have "reread_scheme demo_env (dr_scheme demo_draft) = Inr (demo_scheme ''GOAL-1'')"
    using reread_scheme_law [OF demo_wire_law, of "demo_scheme ''GOAL-1''"]
    by (simp add: demo_draft_def utc_if_given_def) (simp add: demo_scheme_def)
  moreover have "\<lparr>oc_outcome_id = ''OUT-C1'', oc_scope = local_access_scope, oc_digest = demo_hash,
      oc_method = ucs ''POST'', oc_route = confirm_route, oc_request_hash = demo_hash, oc_payload = demo_admission,
      oc_created_at = at_us 12\<rparr> = demo_outcome" by (simp add: demo_outcome_def)
  moreover have "dr_object_id demo_draft = ''AAPL''" "g_graph_id demo_graph = ''PLAN-RUN-1''"
    "g_graph_id demo_actual = ''PLAN-RUN-1-actual''" "g_tasks demo_actual = [demo_task ''RUN-1'']"
    "oc_outcome_id demo_outcome = ''OUT-C1''"
    by (simp_all add: demo_draft_def demo_graph_def demo_actual_def demo_outcome_def)
  moreover have "ci_run (demo_ids ''1'') = ''1''" "ci_admission (demo_ids ''1'') = ''1''" "ci_outcome (demo_ids ''1'') = ''C1''"
    "ck_confirmed (demo_clock 10) = at_us 11" "ck_admitted (demo_clock 10) = at_us 12" "ck_created (demo_clock 10) = 12"
    by (simp_all add: demo_ids_def demo_clock_def)
  ultimately show ?thesis
    using st demo_plan_run demo_run_made demo_built demo_outcome_made demo_made_events demo_marked demo_scheduled demo_checked
    by (simp add: build_commit_def Let_def demo_confirmed_def [symmetric] demo_run_def [symmetric] demo_commit_def [symmetric])
qed

definition demo_admitted :: product_db where
  "demo_admitted = demo_db\<lparr>
     pd_drafts := [(''DRAFT-1'', \<lparr>wr_draft = demo_draft, wr_consumed_at = Some (at_us 12), wr_admission_id = Some ''ADM-1'',
       wr_run_id = Some ''RUN-1''\<rparr>)],
     pd_schemes := [(''SCH-1'', True, demo_confirmed)],
     pd_runs := [(''RUN-1'', new_run_row 12 demo_commit)], pd_planned := [(''PLAN-RUN-1'', ''RUN-1'')],
     pd_actual := [(''PLAN-RUN-1-actual'', ''RUN-1'')], pd_tasks := [(''RUN-1:T1'', demo_task ''RUN-1'')],
     pd_outcomes := [(''OUT-1'', demo_prepared), (''OUT-C1'', with_payload demo_outcome (BodyConfirm demo_admission))],
     pd_admissions := [(''ADM-1'', demo_delivery)], pd_events := map (\<lambda>e. (ev_event_id e, e)) demo_events\<rparr>"

lemma demo_inserted: "insert_confirm_commit 12 demo_commit demo_db = Inr demo_admitted"
proof -
  have "insert_events demo_events [] = Inr (map (\<lambda>e. (ev_event_id e, e)) demo_events)"
    by (simp add: demo_events_list demo_event_def insert_row_def event_key_def decimal_eq)
  then show ?thesis
    by (simp add: insert_confirm_commit_def Let_def demo_commit_def demo_db_def new_db_def insert_row_def
        insert_outcome_def insert_admission_def update_row_def consume_row_def unconsumed_row_def demo_tombstone_def demo_admitted_def
        new_run_row_def outcome_key_def demo_run_def new_run_def demo_graph_def demo_actual_def demo_task_def
        demo_outcome_def demo_prepared_def prepare_route_def confirm_route_def demo_delivery_def demo_draft_def
        demo_confirmed_def demo_scheme_def with_payload_def)
qed

lemma demo_confirm_run:
  "confirm_transaction demo_env demo_backend (demo_ids ''1'') (demo_clock 10) demo_request (ucs ''KEY-1'') demo_db
   = Inr (demo_admission, False, demo_admitted)"
proof -
  have "get_outcome demo_env demo_db confirm_route demo_hash = Inr None"
    by (simp add: get_outcome_def demo_db_def outcome_key_def demo_prepared_def prepare_route_def confirm_route_def)
  moreover have "get_active_run_id demo_db = None" by (simp add: no_active active_run_ids_def demo_db_def new_db_def)
  moreover have "cq_draft_id demo_request = ''DRAFT-1''" "ck_checked (demo_clock 10) = at_us 10"
    "ck_created (demo_clock 10) = 12" "oc_payload (cc_outcome demo_commit) = demo_admission"
    by (simp_all add: demo_request_def demo_clock_def demo_commit_def demo_outcome_def)
  ultimately show ?thesis
    using demo_confirm_hash demo_get_draft demo_validated demo_build_commit demo_inserted
    by (simp add: confirm_transaction_def demo_keys)
qed

definition demo_start :: product_op where
  "demo_start = OpStartRun ''worker'' (at_us 20) ''S1'' ''ADM-1''"

lemma demo_reachable: "product_run demo_env (new_db [''AAPL'']) [demo_prepare] = demo_db"
  "product_run demo_env (new_db [''AAPL'']) [demo_prepare, demo_confirm] = demo_admitted"
  using demo_prepare_run demo_confirm_run by (simp_all add: product_run_def product_step_def demo_confirm_def)

section \<open>Start\<close>

definition demo_leased :: sched_admission where
  "demo_leased = demo_delivery\<lparr>sa_state := AS_LEASED, sa_attempts := 1, sa_next_attempt_at := None,
     sa_lease_owner := Some ''worker'', sa_generation := 1, sa_lease_expires_at := Some (at_us 300000020),
     sa_updated_at := at_us 20\<rparr>"

definition demo_fence :: lease_fence where
  "demo_fence = \<lparr>lf_admission_id = ''ADM-1'', lf_run_id = ''RUN-1'', lf_owner = ''worker'', lf_generation = 1,
     lf_expires_at = at_us 300000020\<rparr>"

definition demo_recorded :: sched_admission where
  "demo_recorded = demo_leased\<lparr>sa_start_committed_at := Some (at_us 20), sa_started_event_id := Some ''EVT-S1'',
     sa_started_sequence := Some 6\<rparr>"

definition demo_acked :: sched_admission where
  "demo_acked = demo_recorded\<lparr>sa_state := AS_ACKNOWLEDGED, sa_lease_owner := None, sa_lease_expires_at := None,
     sa_acknowledged_at := Some (at_us 20)\<rparr>"

lemma demo_lease: "lease_scheduler_admission demo_delivery ''worker'' (at_us 20) lease_duration = Inr (demo_leased, demo_fence)"
  by code_simp

lemma demo_record: "record_scheduler_run_start demo_leased demo_fence (at_us 20) ''EVT-S1'' 6 = Inr demo_recorded"
  by code_simp

lemma demo_ack: "acknowledge_scheduler_admission demo_recorded demo_fence (at_us 20) = Inr demo_acked"
  by code_simp

lemma demo_start_run:
  "\<exists>db'. start_admitted_run ''worker'' (at_us 20) ''S1'' ''ADM-1'' demo_admitted = Inr db' \<and> db' \<noteq> demo_admitted"
proof -
  let ?row = "new_run_row 12 demo_commit"
  let ?db = "demo_admitted\<lparr>pd_admissions := [(''ADM-1'', demo_leased)]\<rparr>"
  let ?e = "start_event (at_us 20) ''S1'' ?row"
  have row: "ru_run_id (rr_run ?row) = ''RUN-1''" "rr_revision ?row = 1" "rr_sequence ?row = 5"
    "ru_status (rr_run ?row) = RS_PLANNING"
    by (simp_all add: new_run_row_def demo_commit_def demo_run_def new_run_def demo_events_list)
  have event: "ev_event_id ?e = ''EVT-S1''" "ev_sequence ?e = 6" "event_fields_valid ?e" "event_key ?e = (''RUN-1'', 6)"
    by (simp_all add: start_event_def row event_fields_valid_def max_sequence_def event_key_def)
  have "insert_events [?e] (map (\<lambda>e. (ev_event_id e, e)) demo_events) =
      Inr (map (\<lambda>e. (ev_event_id e, e)) demo_events @ [(''EVT-S1'', ?e)])"
    using event by (simp add: insert_row_def demo_events_list demo_event_def event_key_def)
  then have "\<exists>db'. publish \<lparr>ws_run_id = ''RUN-1'', ws_expected_revision = 1, ws_run = Some (started_run (at_us 20) (rr_run ?row)),
      ws_tasks = [], ws_events = [?e]\<rparr> ?db = Inr ((2, 6), db') \<and> pd_admissions db' = [(''ADM-1'', demo_leased)]
      \<and> pd_events db' = pd_events demo_admitted @ [(''EVT-S1'', ?e)]"
    using event row by (simp add: publish_def Let_def demo_admitted_def)
  then obtain db' where pub: "publish \<lparr>ws_run_id = ''RUN-1'', ws_expected_revision = 1,
      ws_run = Some (started_run (at_us 20) (rr_run ?row)), ws_tasks = [], ws_events = [?e]\<rparr> ?db = Inr ((2, 6), db')"
    "pd_admissions db' = [(''ADM-1'', demo_leased)]" "pd_events db' = pd_events demo_admitted @ [(''EVT-S1'', ?e)]" by blast
  have wset: "make_write_set \<lparr>ws_run_id = ''RUN-1'', ws_expected_revision = 1,
      ws_run = Some (started_run (at_us 20) (rr_run ?row)), ws_tasks = [], ws_events = [?e]\<rparr>
    = Inr \<lparr>ws_run_id = ''RUN-1'', ws_expected_revision = 1,
      ws_run = Some (started_run (at_us 20) (rr_run ?row)), ws_tasks = [], ws_events = [?e]\<rparr>"
    by (simp add: make_write_set_def require_nonblank_def nonblank_Cons not_space started_run_def row start_event_def)
  have kept: "replace_fenced [(''ADM-1'', demo_leased)] demo_acked (lf_generation demo_fence) = (True, [(''ADM-1'', demo_acked)])"
    by code_simp
  have begun: "begin_run (at_us 20) ''S1'' demo_leased demo_fence ?row ?db = Inr (db'\<lparr>pd_admissions := [(''ADM-1'', demo_acked)]\<rparr>)"
    using pub wset event row kept demo_record demo_ack by (simp add: begin_run_def make_event_def)
  have stored: "replace_fenced [(''ADM-1'', demo_delivery)] demo_leased (sa_generation demo_delivery) = (True, [(''ADM-1'', demo_leased)])"
    by code_simp
  have tables: "pd_admissions demo_admitted = [(''ADM-1'', demo_delivery)]" "pd_runs demo_admitted = [(''RUN-1'', ?row)]"
    "sa_run_id demo_leased = ''RUN-1''"
    by (simp_all add: demo_admitted_def demo_leased_def demo_delivery_def)
  have "start_admitted_run ''worker'' (at_us 20) ''S1'' ''ADM-1'' demo_admitted = Inr (db'\<lparr>pd_admissions := [(''ADM-1'', demo_acked)]\<rparr>)"
    using demo_lease begun stored by (simp add: start_admitted_run_def tables)
  moreover have "db'\<lparr>pd_admissions := [(''ADM-1'', demo_acked)]\<rparr> \<noteq> demo_admitted"
  proof
    assume "db'\<lparr>pd_admissions := [(''ADM-1'', demo_acked)]\<rparr> = demo_admitted"
    then have "pd_events (db'\<lparr>pd_admissions := [(''ADM-1'', demo_acked)]\<rparr>) = pd_events demo_admitted" by (rule arg_cong)
    with pub(3) show False by simp
  qed
  ultimately show ?thesis by blast
qed

end
