(* ===== verification/RenewalScenario.thy ===== *)
theory RenewalScenario
  imports ProductScenario HashIdentity
begin

text \<open>
  A concrete draft that continues an earlier run, renewed twice after it expired. The hash parameter tells
  the identity of the first renewal from everything else, so that the two renewals have different
  identifiers.
\<close>

section \<open>The environment\<close>

definition lease_key :: "string \<Rightarrow> jvalue" where
  "lease_key key = VDict [field ''draft_id'' (jtext ''DRAFT-1''), field ''idempotency_key'' (VText (ucs key))]"

definition renewal_sha :: "nat list \<Rightarrow> utext" where
  "renewal_sha b = ucs (replicate 64
     (if canonical_json_bytes half_repr (lease_key ''KEY-R1'') = Inr b then CHR ''b'' else CHR ''a''))"

definition renewal_env :: wire_env where
  "renewal_env = demo_env\<lparr>we_repr := half_repr, we_sha := renewal_sha\<rparr>"

definition hash_of :: "jvalue \<Rightarrow> utext" where
  "hash_of v = projr (canonical_json_sha256 half_repr renewal_sha v)"

lemma renewal_env_fields [simp]:
  "we_repr renewal_env = half_repr" "we_sha renewal_env = renewal_sha" "we_up renewal_env = we_up demo_env"
  "we_iso renewal_env = we_iso demo_env" "we_dump renewal_env = we_dump demo_env" "we_parse renewal_env = we_parse demo_env"
  by (simp_all add: renewal_env_def)

lemma renewal_wire_law: "wire_law renewal_env"
  using demo_wire_law by (simp add: wire_law_def)

lemma renewal_read [simp]: "read_time renewal_env (we_dump demo_env (at_us n)) = Inr (at_us n)"
  using demo_read [of n] by (simp add: read_time_def)

lemma renewal_zulu: "zulu renewal_env t = we_dump demo_env t"
  using demo_zulu [of t] by (simp add: zulu_def demo_dump)

lemma renewal_hash_values: "plain v \<Longrightarrow> \<exists>c \<in> {CHR ''a'', CHR ''b''}.
    canonical_json_sha256 half_repr renewal_sha v = Inr (ucs (''sha256:'' @ replicate 64 c))"
proof -
  assume "plain v"
  then obtain b where "canonical_json_bytes half_repr v = Inr b"
    using plain_hash_ok [of v half_repr renewal_sha] by (auto simp: canonical_json_sha256_def is_ok_iff rbind_Inr_iff)
  then show ?thesis
    by (simp add: canonical_json_sha256_def sha256_bytes_def renewal_sha_def ucs_def)
qed

lemma renewal_hash: "plain v \<Longrightarrow> canonical_json_sha256 half_repr renewal_sha v = Inr (hash_of v)"
  using renewal_hash_values [of v] by (auto simp: hash_of_def)

lemma hash_of_identity: "plain v \<Longrightarrow> is_sha256_identity (hash_of v)"
  using renewal_hash_values [of v] by (auto simp: hash_of_def is_sha256_identity_def ucs_def list_all_iff)

lemma hash_of_plain: "plain v \<Longrightarrow> plain_text (hash_of v)"
  using renewal_hash_values [of v] by (auto simp: hash_of_def)

lemma lease_key_plain: "plain (lease_key key)"
  by (simp add: lease_key_def)

lemma lease_keys_differ:
  assumes "key \<noteq> ''KEY-R1''"
  shows "canonical_json_bytes half_repr (lease_key key) \<noteq> canonical_json_bytes half_repr (lease_key ''KEY-R1'')"
proof
  assume same: "canonical_json_bytes half_repr (lease_key key) = canonical_json_bytes half_repr (lease_key ''KEY-R1'')"
  obtain b where b: "canonical_json_bytes half_repr (lease_key ''KEY-R1'') = Inr b"
    using plain_hash_ok [OF lease_key_plain, of half_repr renewal_sha]
    by (auto simp: canonical_json_sha256_def is_ok_iff rbind_Inr_iff)
  from bytes_same [OF half_repr_law same [unfolded b] b]
  have "json_same half_repr (lease_key key) (lease_key ''KEY-R1'')" .
  then have "VText (ucs key) = VText (ucs ''KEY-R1'')"
    unfolding lease_key_def
    by (rule json_same_entry [of _ _ _ "Some (ucs ''idempotency_key'')" "VText (ucs key)"])
      (auto simp: field_def jtext_def dest: json_same_text)
  with assms show False by simp
qed

lemma lease_key_hash:
  "canonical_json_sha256 half_repr renewal_sha (lease_key key)
     = Inr (ucs (''sha256:'' @ replicate 64 (if key = ''KEY-R1'' then CHR ''b'' else CHR ''a'')))"
proof -
  obtain b where b: "canonical_json_bytes half_repr (lease_key key) = Inr b"
    using plain_hash_ok [OF lease_key_plain, of half_repr renewal_sha]
    by (auto simp: canonical_json_sha256_def is_ok_iff rbind_Inr_iff)
  have "(canonical_json_bytes half_repr (lease_key ''KEY-R1'') = Inr b) = (key = ''KEY-R1'')"
    using b lease_keys_differ [of key] by metis
  then show ?thesis by (simp add: canonical_json_sha256_def b sha256_bytes_def renewal_sha_def ucs_def)
qed

definition renewal_id :: "string \<Rightarrow> utext" where
  "renewal_id key = ucs (''LEASE-'' @ replicate 64 (if key = ''KEY-R1'' then CHR ''b'' else CHR ''a''))"

lemma renewal_lease_id: "lease_id_of renewal_env ''DRAFT-1'' (ucs key) = Inr (renewal_id key)"
  using lease_key_hash [of key]
  by (simp add: lease_id_of_def hash_json_def lease_key_def renewal_id_def ucs_def)

section \<open>The draft\<close>

definition base_context :: inc_context where
  "base_context = \<lparr>ic_object_id = ''AAPL'', ic_base_run_id = ''RUN-0'', ic_base_view = ''VIEW-0'', ic_base_version = 1,
     ic_base_as_of = Date 2023 1 2, ic_target_as_of = Date 2024 1 2, ic_prior_summary = None, ic_decisions = []\<rparr>"

definition next_request :: prepare_request where
  "next_request = demo_goal_request\<lparr>pq_base_run_id := Some ''RUN-0'', pq_base_view := Some ''VIEW-0''\<rparr>"

definition next_scheme :: "string \<Rightarrow> scheme" where
  "next_scheme goal_id = (demo_scheme goal_id)\<lparr>sc_context := Some base_context\<rparr>"

definition next_plan :: "goal \<Rightarrow> product_exn + scheme \<times> goal \<times> scheme" where
  "next_plan g = (let s = next_scheme (go_goal_id g) in Inr (s, g, s))"

definition next_prepare :: product_op where
  "next_prepare = OpPrepare next_plan \<lparr>pi_goal = ''1'', pi_draft = ''1'', pi_outcome = ''1''\<rparr> (at_us 2) next_request
     (ucs ''KEY-0'')"

definition next_prepare_hash :: utext where
  "next_prepare_hash = hash_of (VDict [field ''body'' (prepare_dump next_request),
     field ''contract_version'' (VText contract_version),
     field ''effective_access_scope_key'' (VText local_access_scope), field ''method'' (VText (ucs ''POST'')),
     field ''route_template'' (VText prepare_route)])"

definition next_digest :: utext where
  "next_digest = hash_of (VDict [field ''effective_access_scope_key'' (VText local_access_scope),
     field ''idempotency_key'' (VText (ucs ''KEY-0'')), field ''method'' (VText (ucs ''POST'')),
     field ''route_template'' (VText prepare_route)])"

definition next_fields :: "(utext option \<times> jvalue) list" where
  "next_fields = draft_fields ''DRAFT-1'' 1 ''AAPL'' (goal_dump renewal_env demo_goal)
     (scheme_dump renewal_env (next_scheme ''GOAL-1'')) next_prepare_hash (we_dump demo_env (at_us 2))
     (we_dump demo_env (at_us (2 + draft_expiry)))"

definition next_draft :: draft where
  "next_draft = \<lparr>dr_draft_id = ''DRAFT-1'', dr_version = 1, dr_object_id = ''AAPL'', dr_goal = demo_goal,
     dr_scheme = next_scheme ''GOAL-1'', dr_prepare_hash = next_prepare_hash, dr_hash = hash_of (VDict next_fields),
     dr_created_at = at_us 2, dr_expires_at = at_us (2 + draft_expiry)\<rparr>"

definition next_prepared :: "outcome_body outcome" where
  "next_prepared = \<lparr>oc_outcome_id = ''OUT-1'', oc_scope = local_access_scope, oc_digest = next_digest,
     oc_method = ucs ''POST'', oc_route = prepare_route, oc_request_hash = next_prepare_hash,
     oc_payload = BodyPrepare next_draft, oc_created_at = at_us 2\<rparr>"

definition next_db :: product_db where
  "next_db = (new_db [''AAPL''])\<lparr>pd_goals := [(''GOAL-1'', demo_goal)],
     pd_schemes := [(''SCH-1'', False, next_scheme ''GOAL-1'')],
     pd_drafts := [(''DRAFT-1'', unconsumed_row next_draft)], pd_outcomes := [(''OUT-1'', next_prepared)]\<rparr>"

lemmas next_records = demo_records next_request_def next_scheme_def base_context_def

lemma next_goal: "new_goal next_request ''GOAL-1'' (at_us 2) = demo_goal"
  by (simp add: next_records)

lemma next_dumps_plain:
  "plain (goal_dump renewal_env demo_goal)" "plain (scheme_dump renewal_env (next_scheme ''GOAL-1''))"
  "plain (prepare_dump next_request)"
  by (simp_all add: goal_dump_def scheme_dump_def prepare_dump_def context_dump_def optional_def jmaybe_def next_records
      max_safe_integer_def)

lemma next_parts_plain:
  "plain (VDict [field ''body'' (prepare_dump next_request), field ''contract_version'' (VText contract_version),
     field ''effective_access_scope_key'' (VText local_access_scope), field ''method'' (VText (ucs ''POST'')),
     field ''route_template'' (VText prepare_route)])"
  "plain (VDict [field ''effective_access_scope_key'' (VText local_access_scope),
     field ''idempotency_key'' (VText (ucs ''KEY-0'')), field ''method'' (VText (ucs ''POST'')),
     field ''route_template'' (VText prepare_route)])"
  using next_dumps_plain(3) by simp_all

lemma next_fields_plain: "plain (VDict next_fields)"
  using next_dumps_plain hash_of_plain [OF next_parts_plain(1)]
  by (simp add: next_fields_def draft_fields_def max_safe_integer_def next_prepare_hash_def)

lemma next_identities: "is_sha256_identity next_prepare_hash" "is_sha256_identity next_digest"
  "is_sha256_identity (dr_hash next_draft)"
  using hash_of_identity [OF next_parts_plain(1)] hash_of_identity [OF next_parts_plain(2)]
    hash_of_identity [OF next_fields_plain]
  by (simp_all add: next_prepare_hash_def next_digest_def next_draft_def)

lemma renewal_normalized:
  "normalize_http_method (we_up renewal_env) (ucs ''POST'') = Inr (ucs ''POST'')"
  using demo_normalized(1) by simp

lemma next_prepare_hashed: "prepare_request_hash renewal_env next_request = Inr next_prepare_hash"
  using demo_normalized renewal_hash [OF next_parts_plain(1)]
  by (simp add: prepare_request_hash_def request_hash_def canonical_request_hash_def next_prepare_hash_def)

lemma next_digested: "key_digest renewal_env prepare_route (ucs ''KEY-0'') = Inr next_digest"
  using demo_normalized renewal_hash [OF next_parts_plain(2)]
  by (simp add: key_digest_def idempotency_key_digest_def next_digest_def)
    (simp add: ucs_def ustrip_def uspace_def control_char_def)

lemma next_fields_kept: "filter (\<lambda>e. fst e \<noteq> Some (ucs ''draft_hash'')) next_fields = next_fields"
  by (simp add: next_fields_def draft_fields_def)

lemma next_dump: "draft_dump renewal_env next_draft = next_fields @ [field ''draft_hash'' (VText (dr_hash next_draft))]"
  by (simp add: draft_dump_def next_fields_def next_draft_def)

lemma next_payload_hash:
  "draft_payload_hash half_repr renewal_sha next_fields = Inr (dr_hash next_draft)"
  "draft_payload_hash half_repr renewal_sha (draft_dump renewal_env next_draft) = Inr (dr_hash next_draft)"
  using renewal_hash [OF next_fields_plain]
  by (simp_all add: draft_payload_hash_def next_dump next_fields_kept) (simp_all add: next_draft_def)

lemma next_hash_valid: "draft_hash_is_valid renewal_env next_draft = Inr True"
  by (simp add: draft_hash_is_valid_def next_payload_hash)

lemma next_scheme_valid: "scheme_valid (next_scheme ''GOAL-1'')"
proof -
  have "\<not> Date 2024 1 2 < Date 2023 1 2" by code_simp
  then show ?thesis
    by (simp add: scheme_valid_def inc_context_valid_def next_records utc_if_given_def nonblank_Cons not_space)
qed

lemma next_draft_valid: "draft_valid next_draft"
  using next_identities next_scheme_valid demo_draft_valid
  by (simp add: draft_valid_def next_draft_def demo_draft_def) (simp add: next_records)

lemma next_built:
  "build_prepare_draft renewal_env next_request ''DRAFT-1'' demo_goal (next_scheme ''GOAL-1'') (at_us 2) = Inr next_draft"
proof -
  have "validate_prepare_identity next_request demo_goal (next_scheme ''GOAL-1'') = Inr ()"
    by (simp add: validate_prepare_identity_def require_aware_utc_def next_records)
  moreover have "reread_goal renewal_env demo_goal = Inr demo_goal"
    by (rule reread_goal_law [OF renewal_wire_law]) (simp add: next_records)
  moreover have "reread_scheme renewal_env (next_scheme ''GOAL-1'') = Inr (next_scheme ''GOAL-1'')"
    by (rule reread_scheme_law [OF renewal_wire_law]) (simp_all add: next_records utc_if_given_def)
  moreover have "context_closes next_request (next_scheme ''GOAL-1'')"
    by (simp add: context_closes_def next_records)
  moreover have "nonblank ''DRAFT-1''" using next_draft_valid by (simp add: draft_valid_def next_draft_def)
  moreover have "pq_object_id next_request = ''AAPL''" by (simp add: next_records)
  moreover have "\<lparr>dr_draft_id = ''DRAFT-1'', dr_version = 1, dr_object_id = ''AAPL'', dr_goal = demo_goal,
      dr_scheme = next_scheme ''GOAL-1'', dr_prepare_hash = next_prepare_hash, dr_hash = dr_hash next_draft,
      dr_created_at = at_us 2, dr_expires_at = at_us (2 + draft_expiry)\<rparr> = next_draft"
    by (simp add: next_draft_def)
  ultimately show ?thesis
    using next_draft_valid next_hash_valid next_payload_hash(1)
    by (simp add: build_prepare_draft_def require_aware_utc_def next_prepare_hashed Let_def validated_draft_def
        renewal_zulu next_fields_def [symmetric])
qed

lemma next_json_refl:
  "json_eq (goal_dump renewal_env demo_goal) (goal_dump renewal_env demo_goal)"
  "json_eq (scheme_dump renewal_env (next_scheme ''GOAL-1'')) (scheme_dump renewal_env (next_scheme ''GOAL-1''))"
  by (simp_all add: goal_dump_def scheme_dump_def context_dump_def optional_def jmaybe_def next_records field_def
      jtext_def jtime_def jdate_def jtexts_def)

lemma nonempty_identity: "is_sha256_identity h \<Longrightarrow> ustrip h \<noteq> []"
proof -
  assume "is_sha256_identity h"
  then obtain c t where h: "h = c # t" "take 7 h = ucs ''sha256:''" by (cases h) (auto simp: is_sha256_identity_def)
  then have "\<not> uspace c" by (simp add: ucs_def uspace_def)
  with h(1) show ?thesis by (auto simp: ustrip_def dropWhile_eq_Nil_conv)
qed

lemma next_outcome_made:
  "make_prepare_outcome renewal_env (with_payload next_prepared next_draft) = Inr (with_payload next_prepared next_draft)"
proof -
  have "validate_outcome_identity prepare_route (with_payload next_prepared next_draft) = Inr ()"
    using next_identities nonempty_identity [OF next_identities(2)]
    by (simp add: validate_outcome_identity_def require_nonblank_def require_sha256_def require_utc_def next_prepared_def
        nonblank_Cons not_space)
  then show ?thesis using next_hash_valid by (simp add: make_prepare_outcome_def) (simp add: next_prepared_def next_draft_def)
qed

lemma next_prepare_run: "transact renewal_env (new_db [''AAPL'']) next_prepare = Inr next_db"
proof -
  let ?out = "\<lparr>oc_outcome_id = ''OUT-1'', oc_scope = local_access_scope, oc_digest = next_digest,
     oc_method = ucs ''POST'', oc_route = prepare_route, oc_request_hash = next_prepare_hash,
     oc_payload = next_draft, oc_created_at = dr_created_at next_draft\<rparr>"
  have out: "?out = with_payload next_prepared next_draft"
    by (simp add: with_payload_def next_prepared_def next_draft_def)
  let ?c = "\<lparr>pc_outcome = ?out, pc_request = next_request, pc_record = fresh_record next_draft,
    pc_goal = demo_goal, pc_scheme = next_scheme ''GOAL-1''\<rparr>"
  have "validate_atomic_key renewal_env ''research_run_draft'' ?out (ucs ''KEY-0'') = Inr ()"
    using next_digested by (simp add: validate_atomic_key_def key_digest_def)
  then have check: "check_prepare_commit renewal_env (ucs ''KEY-0'') ?c = Inr ()"
    using next_hash_valid next_prepare_hashed next_json_refl
    by (simp add: check_prepare_commit_def Let_def fresh_record_def consumed_def) (simp add: next_draft_def)
  have ins: "insert_prepare_commit ?c (new_db [''AAPL'']) = Inr next_db"
    by (simp add: insert_prepare_commit_def Let_def new_db_def next_db_def insert_row_def insert_outcome_def
        fresh_record_def unconsumed_row_def with_payload_def next_prepared_def demo_goal_def new_goal_def
        next_scheme_def demo_scheme_def next_draft_def)
  have "get_outcome renewal_env (new_db [''AAPL'']) prepare_route next_digest = Inr None"
    by (simp add: get_outcome_def new_db_def)
  moreover have "next_plan demo_goal = Inr (next_scheme ''GOAL-1'', demo_goal, next_scheme ''GOAL-1'')"
    by (simp add: next_plan_def demo_goal_def new_goal_def Let_def)
  moreover have "pq_object_id next_request \<in> set (pd_objects (new_db [''AAPL'']))"
    by (simp add: next_records new_db_def)
  ultimately show ?thesis
    using next_built check ins next_outcome_made
    by (simp add: next_prepare_def prepare_run_def next_prepare_hashed next_digested next_goal Let_def out)
qed

section \<open>The renewals\<close>

definition renewal_request :: "int \<Rightarrow> renew_request" where
  "renewal_request end_us = \<lparr>rn_object_id = ''AAPL'', rn_draft_hash = dr_hash next_draft, rn_scheme_id = ''SCH-1'',
     rn_base_run_id = ''RUN-0'', rn_base_view = ''VIEW-0'', rn_previous_expires_at = at_us end_us\<rparr>"

text \<open>The first renewal comes 5 microseconds after the draft expired, the second 2 after the first ended.\<close>

definition renewal_history :: "product_op list" where
  "renewal_history = [next_prepare,
     OpRenew (at_us (7 + draft_expiry)) ''DRAFT-1'' (renewal_request (2 + draft_expiry)) (ucs ''KEY-R1''),
     OpRenew (at_us (9 + 2 * draft_expiry)) ''DRAFT-1'' (renewal_request (7 + 2 * draft_expiry)) (ucs ''KEY-R2'')]"

definition renewal_lease :: "string \<Rightarrow> int \<Rightarrow> int \<Rightarrow> draft_lease" where
  "renewal_lease key end_us now_us = \<lparr>dl_lease_id = renewal_id key, dl_draft_id = ''DRAFT-1'',
     dl_draft_hash = dr_hash next_draft, dl_scheme_id = ''SCH-1'', dl_base_run_id = ''RUN-0'', dl_base_view = ''VIEW-0'',
     dl_previous_expires_at = at_us end_us, dl_authorized_at = at_us now_us,
     dl_expires_at = at_us (now_us + draft_expiry)\<rparr>"

definition renewal_fingerprint :: "int \<Rightarrow> utext" where
  "renewal_fingerprint end_us = hash_of (renew_dump renewal_env (renewal_request end_us))"

definition renewal_row :: "string \<Rightarrow> int \<Rightarrow> int \<Rightarrow> utext \<times> lease_row" where
  "renewal_row key end_us now_us = (renewal_id key, \<lparr>lr_draft_id = ''DRAFT-1'',
     lr_request_hash = renewal_fingerprint end_us, lr_authorized_at = at_us now_us,
     lr_lease = renewal_lease key end_us now_us\<rparr>)"

lemma renewal_lease_valid: "end_us \<le> now_us \<Longrightarrow> lease_valid (renewal_lease key end_us now_us)"
  by (simp add: lease_valid_def renewal_lease_def earlier_def at_us_def) (simp add: is_utc_def)

lemma renewal_fingerprinted:
  "hash_json renewal_env (renew_dump renewal_env (renewal_request end_us)) = Inr (renewal_fingerprint end_us)"
proof -
  have "plain_text (dr_hash next_draft)" using hash_of_plain [OF next_fields_plain] by (simp add: next_draft_def)
  then have "plain (renew_dump renewal_env (renewal_request end_us))"
    by (simp add: renew_dump_def renewal_request_def)
  from renewal_hash [OF this] show ?thesis by (simp add: hash_json_def renewal_fingerprint_def)
qed

lemma renewal_step:
  assumes drafts: "pd_drafts db = [(''DRAFT-1'', unconsumed_row next_draft)]"
    and latest: "latest_lease renewal_env db ''DRAFT-1'' = Inr l"
    and l: "case l of None \<Rightarrow> end_us = 2 + draft_expiry
      | Some m \<Rightarrow> lease_binds next_draft m \<and> dl_expires_at m = at_us end_us"
    and new: "renewal_id key \<notin> fst ` set (pd_leases db)" and now: "end_us \<le> now_us"
  shows "transact renewal_env db (OpRenew (at_us now_us) ''DRAFT-1'' (renewal_request end_us) (ucs key))
    = Inr (db\<lparr>pd_leases := pd_leases db @ [renewal_row key end_us now_us]\<rparr>)"
proof -
  let ?r = "(fresh_record next_draft)\<lparr>rd_lease := l\<rparr>"
  have loaded: "load_record renewal_env db ''DRAFT-1'' = Inr ?r"
    using latest l reread_draft_law [OF renewal_wire_law next_draft_valid] next_hash_valid
    by (simp add: load_record_def drafts unconsumed_row_def fresh_record_def make_draft_record_def consumption_ok_def
        split: option.splits)
  have ends: "effective_expires_at ?r = at_us end_us"
    using l by (simp add: effective_expires_at_def fresh_record_def next_draft_def split: option.splits)
  have exact: "renews_exactly next_draft (renewal_request end_us)"
    by (simp add: renews_exactly_def renewal_request_def) (simp add: next_draft_def next_records)
  have free: "map_of (pd_leases db) (renewal_id key) = None" using new by (simp add: map_of_eq_None_iff)
  have lease: "make_lease (renewal_lease key end_us now_us) = Inr (renewal_lease key end_us now_us)"
    using renewal_lease_valid [OF now] by (simp add: make_lease_def)
  have row: "\<lparr>dl_lease_id = renewal_id key, dl_draft_id = ''DRAFT-1'', dl_draft_hash = dr_hash next_draft,
      dl_scheme_id = ''SCH-1'', dl_base_run_id = ''RUN-0'', dl_base_view = ''VIEW-0'',
      dl_previous_expires_at = at_us end_us, dl_authorized_at = at_us now_us,
      dl_expires_at = at_us (now_us + draft_expiry)\<rparr> = renewal_lease key end_us now_us"
    by (simp add: renewal_lease_def)
  have request: "rn_scheme_id (renewal_request end_us) = ''SCH-1''" "rn_base_run_id (renewal_request end_us) = ''RUN-0''"
    "rn_base_view (renewal_request end_us) = ''VIEW-0''" "rn_previous_expires_at (renewal_request end_us) = at_us end_us"
    by (simp_all add: renewal_request_def)
  have times: "\<not> earlier (at_us now_us) (at_us end_us)" "ts_utcoffset (at_us end_us) \<noteq> None"
    using now by (simp_all add: earlier_def at_us_def)
  show ?thesis
    using loaded ends exact free lease new times
    by (simp add: renew_exact_draft_def renewal_fingerprinted renewal_lease_id Let_def fresh_record_def consumed_def
        insert_row_def renewal_row_def request row)
qed

definition renewed_db :: product_db where
  "renewed_db = next_db\<lparr>pd_leases := [renewal_row ''KEY-R1'' (2 + draft_expiry) (7 + draft_expiry),
     renewal_row ''KEY-R2'' (7 + 2 * draft_expiry) (9 + 2 * draft_expiry)]\<rparr>"

lemma renewed_reachable: "product_run renewal_env (new_db [''AAPL'']) renewal_history = renewed_db"
proof -
  let ?db1 = "next_db\<lparr>pd_leases := [renewal_row ''KEY-R1'' (2 + draft_expiry) (7 + draft_expiry)]\<rparr>"
  let ?l1 = "renewal_lease ''KEY-R1'' (2 + draft_expiry) (7 + draft_expiry)"
  have tables: "pd_drafts next_db = [(''DRAFT-1'', unconsumed_row next_draft)]" "pd_leases next_db = []"
    by (simp_all add: next_db_def new_db_def)
  have "latest_lease renewal_env next_db ''DRAFT-1'' = Inr None"
    by (simp add: latest_lease_def latest_lease_row_def tables)
  from renewal_step [OF tables(1) this, of "2 + draft_expiry" "''KEY-R1''" "7 + draft_expiry"]
  have 1: "transact renewal_env next_db (OpRenew (at_us (7 + draft_expiry)) ''DRAFT-1''
      (renewal_request (2 + draft_expiry)) (ucs ''KEY-R1'')) = Inr ?db1"
    by (simp add: tables)
  have valid: "lease_valid ?l1" by (rule renewal_lease_valid) simp
  have latest: "latest_lease renewal_env ?db1 ''DRAFT-1'' = Inr (Some ?l1)"
    using reread_lease_law [OF renewal_wire_law valid]
    by (simp add: latest_lease_def latest_lease_row_def later_row_def renewal_row_def)
  have binds: "lease_binds next_draft ?l1"
    by (simp add: lease_binds_def renewal_lease_def) (simp add: next_draft_def next_records earlier_def at_us_def)
  have ids: "renewal_id ''KEY-R2'' \<noteq> renewal_id ''KEY-R1''" by (simp add: renewal_id_def)
  have 2: "transact renewal_env ?db1 (OpRenew (at_us (9 + 2 * draft_expiry)) ''DRAFT-1''
      (renewal_request (7 + 2 * draft_expiry)) (ucs ''KEY-R2'')) = Inr renewed_db"
  proof -
    have "dl_expires_at ?l1 = at_us (7 + 2 * draft_expiry)"
      by (simp add: renewal_lease_def algebra_simps)
    then have "transact renewal_env ?db1 (OpRenew (at_us (9 + 2 * draft_expiry)) ''DRAFT-1''
        (renewal_request (7 + 2 * draft_expiry)) (ucs ''KEY-R2''))
      = Inr (?db1\<lparr>pd_leases := pd_leases ?db1 @ [renewal_row ''KEY-R2'' (7 + 2 * draft_expiry) (9 + 2 * draft_expiry)]\<rparr>)"
      by (intro renewal_step [OF _ latest])
        (use binds ids in \<open>simp_all add: tables(1) renewal_row_def [of "''KEY-R1''"]\<close>)
    then show ?thesis by (simp add: renewed_db_def)
  qed
  show ?thesis
    using next_prepare_run 1 2
    by (simp add: product_run_def product_step_def renewal_history_def)
qed

end
