(* ===== verification/AdmissionSafety.thy ===== *)
theory AdmissionSafety
  imports ProductScenario
begin

text \<open>
  What the product database promises about confirmations: what an accepted one writes, that none is accepted
  twice, that its key answers it for ever, and when a run starts.
\<close>

section \<open>Accepted confirmations\<close>

definition confirmed :: "product_db \<Rightarrow> outcome_body outcome \<Rightarrow> run_admission \<Rightarrow> bool" where
  "confirmed db c a \<longleftrightarrow> c \<in> snd ` set (pd_outcomes db) \<and> oc_payload c = BodyConfirm a"

lemma confirmed_ok:
  assumes "db_ok db" and "confirmed db c a"
  shows "(oc_outcome_id c, c) \<in> set (pd_outcomes db)" and "recorded db (oc_outcome_id c) a" and "run_admission_valid a"
    and "is_ok (validate_outcome_identity confirm_route c)" and "ra_request_hash a = oc_request_hash c"
proof -
  obtain i where i: "(i, c) \<in> set (pd_outcomes db)" using assms(2) by (auto simp: confirmed_def)
  with db_ok_keyed(2) [OF assms(1)] show "(oc_outcome_id c, c) \<in> set (pd_outcomes db)" by (auto simp: keyed_def)
  from db_ok_outcome [OF assms(1) i] assms(2) show "recorded db (oc_outcome_id c) a" "run_admission_valid a"
    "is_ok (validate_outcome_identity confirm_route c)" "ra_request_hash a = oc_request_hash c"
    by (simp_all add: outcome_ok_def confirmed_def)
qed

lemma confirmed_forward: "db_forward db db' \<Longrightarrow> confirmed db c a \<Longrightarrow> confirmed db' c a"
  by (auto simp: confirmed_def db_forward_def)

text \<open>The row of a consumed draft and the delivery determine the outcome they belong to.\<close>

lemma recorded_unique:
  assumes "db_ok db" and "recorded db i a" and "recorded db j b" and "ra_draft_id a = ra_draft_id b \<or> ra_run_id a = ra_run_id b"
  shows "i = j"
proof -
  note k = db_ok_keyed [OF assms(1)]
  obtain w s where w: "(ra_draft_id a, w) \<in> set (pd_drafts db)" "wr_admission_id w = Some (ra_admission_id a)"
    "wr_run_id w = Some (ra_run_id a)"
    and s: "(ra_admission_id a, s) \<in> set (pd_admissions db)" "sa_run_id s = ra_run_id a" "sa_outcome_id s = i"
    using assms(2) by (auto simp: recorded_def)
  obtain v t where v: "(ra_draft_id b, v) \<in> set (pd_drafts db)" "wr_admission_id v = Some (ra_admission_id b)"
    "wr_run_id v = Some (ra_run_id b)"
    and t: "(ra_admission_id b, t) \<in> set (pd_admissions db)" "sa_run_id t = ra_run_id b" "sa_outcome_id t = j"
    using assms(3) by (auto simp: recorded_def)
  have "ra_run_id a = ra_run_id b"
  proof (cases "ra_draft_id a = ra_draft_id b")
    case True
    with keyed_unique [OF k(1) w(1)] v(1) have "w = v" by simp
    with w v show ?thesis by simp
  next
    case False
    with assms(4) show ?thesis by simp
  qed
  with s t have "sa_run_id s = sa_run_id t" by simp
  with inj_onD [OF k(6) _ s(1) t(1)] have "s = t" by simp
  with s t show ?thesis by simp
qed

lemma confirmed_unique:
  assumes "db_ok db" and "confirmed db c a" and "confirmed db d b"
    and "outcome_key c = outcome_key d \<or> ra_draft_id a = ra_draft_id b \<or> ra_run_id a = ra_run_id b"
  shows "c = d"
proof -
  note c = confirmed_ok [OF assms(1,2)] and d = confirmed_ok [OF assms(1,3)]
  show ?thesis
  proof (cases "outcome_key c = outcome_key d")
    case True
    with inj_onD [OF db_ok_keyed(5) [OF assms(1)] _ c(1) d(1)] show ?thesis by simp
  next
    case False
    with assms(4) recorded_unique [OF assms(1) c(2) d(2)] have "oc_outcome_id c = oc_outcome_id d" by blast
    with keyed_unique [OF db_ok_keyed(2) [OF assms(1)] c(1)] d(1) show ?thesis by simp
  qed
qed

section \<open>The answer under a key\<close>

lemma get_outcome_confirmed:
  assumes "wire_law env" and "db_ok db" and "confirmed db c a"
  shows "get_outcome env db confirm_route (oc_digest c) = Inr (Some c)"
proof -
  note ok = confirmed_ok [OF assms(2,3)]
  let ?P = "\<lambda>c'. outcome_key c' = (local_access_scope, ucs ''POST'', confirm_route, oc_digest c)"
  have key: "?P c" using outcome_identity_key [OF ok(4)] .
  then obtain d where d: "find ?P (map snd (pd_outcomes db)) = Some d"
    using ok(1) by (cases "find ?P (map snd (pd_outcomes db))") (auto simp: find_None_iff image_iff)
  then have "?P d" "d \<in> snd ` set (pd_outcomes db)" by (auto simp: find_Some_iff)
  then obtain i where "(i, d) \<in> set (pd_outcomes db)" by auto
  with inj_onD [OF db_ok_keyed(5) [OF assms(2)] _ this ok(1)] key \<open>?P d\<close> have "d = c" by simp
  moreover have "decode_outcome env c = Inr c"
    using assms(3) ok(4,5) reread_admission_law [OF assms(1) ok(3)] with_payload_self [of c]
    by (simp add: decode_outcome_def confirmed_def make_confirm_outcome_def is_ok_iff)
  ultimately show ?thesis using d by (simp add: get_outcome_def)
qed

lemma confirm_answered:
  assumes "wire_law env" and "db_ok db" and "confirmed db c a"
    and "key_digest env confirm_route key = Inr (oc_digest c)" and "confirmation_request_hash env q = Inr h"
  shows "confirm_transaction env be ids ck q key db =
    (if h = oc_request_hash c then Inr (a, True, db) else Inl idempotency_conflict)"
  using assms(3-5) get_outcome_confirmed [OF assms(1-3)] by (auto simp: confirm_transaction_def confirmed_def)

section \<open>What an accepted confirmation writes\<close>

lemma accepted_confirmed:
  assumes "admitted created db c db'"
  shows "confirmed db' (confirm_body c) (oc_payload (cc_outcome c))"
  using admitted_tables(2) [OF assms] by (simp add: confirmed_def)

lemma planned_created:
  assumes "list_all (creation_bound c) (zip (drop 4 evs) ts)" and "map ev_type evs = setup_types @ replicate (length ts) TASK_CREATED"
    and "cc_tasks c = ts" and "graph_wf ts"
  shows "list_all (\<lambda>t. t_status t = TS_CREATED) ts"
  unfolding list_all_iff
proof
  fix t assume "t \<in> set ts"
  then obtain i where i: "i < length ts" "t = ts ! i" by (auto simp: in_set_conv_nth)
  have "length evs = 4 + length ts" using arg_cong [OF assms(2), of length] by (simp add: setup_types_def)
  with i have "(drop 4 evs ! i, t) \<in> set (zip (drop 4 evs) ts)" by (auto simp: set_zip intro!: exI [of _ i])
  with assms(1) have "creation_bound c (drop 4 evs ! i, t)" by (auto simp: list_all_iff)
  then obtain k u where "find_task k ts = Some u" "t_status u = TS_CREATED" "t_task_id u = t_task_id t"
    using assms(3) by (auto simp: creation_bound_def split: option.split_asm)
  moreover from this(1) have "u \<in> set ts" by (simp add: find_task_SomeD)
  moreover have "distinct (task_ids ts)" using assms(4) by (simp add: graph_wf_def)
  ultimately have "u = t" using \<open>t \<in> set ts\<close> by (auto simp: task_ids_def distinct_map inj_on_def)
  with \<open>t_status u = TS_CREATED\<close> show "t_status t = TS_CREATED" by simp
qed

lemma update_row_only:
  assumes "keyed rows key" and "(k, w) \<in> set rows"
  shows "update_row k f rows = update_row k (\<lambda>_. f w) rows"
  using assms by (auto simp: update_row_def dest: keyed_unique)

text \<open>The parts of the database an accepted confirmation leaves behind, for its run and its events.\<close>

definition planned_run :: "product_db \<Rightarrow> run_row \<Rightarrow> runtime_event list \<Rightarrow> product_db \<Rightarrow> bool" where
  "planned_run db r evs db' \<longleftrightarrow>
     pd_runs db' = pd_runs db @ [(ru_run_id (rr_run r), r)] \<and> ru_status (rr_run r) = RS_PLANNING
     \<and> graph_wf (g_tasks (rr_actual r)) \<and> list_all (\<lambda>t. t_status t = TS_CREATED) (g_tasks (rr_actual r))
     \<and> pd_tasks db' = pd_tasks db @ map (\<lambda>t. (t_task_id t, t)) (g_tasks (rr_actual r))
     \<and> pd_events db' = pd_events db @ map (\<lambda>e. (ev_event_id e, e)) evs
     \<and> log_ok (ru_run_id (rr_run r)) evs \<and> \<not> log_terminal evs \<and> rr_sequence r = int (length evs)
     \<and> map ev_type evs = setup_types @ replicate (length (g_tasks (rr_actual r))) TASK_CREATED"

lemma accepted_run:
  assumes "commit_of env ids ck r v h digest c" and "check_confirm_commit env key c = Inr ()" and "admitted created db c db'"
  shows "planned_run db (new_run_row created c) (cc_events c) db'"
proof -
  obtain g where g: "cc_actual c = Some g" "cc_tasks c = g_tasks g" "g_tasks g = g_tasks (cc_planned c)"
    and wf: "graph_wf (g_tasks (cc_planned c))" and ev: "list_all event_fields_valid (cc_events c)"
    using assms(1) by (auto simp: commit_of_def)
  have "check_events env c = Inr ()" and pl: "ru_status (cc_run c) = RS_PLANNING"
    using assms(2) by (simp_all add: check_confirm_commit_Inr)
  then have e: "contiguous (ru_run_id (cc_run c)) (cc_events c)" "one_creation (cc_events c)" "setup_phase (cc_events c)"
    "map ev_type (cc_events c) = setup_types @ replicate (length (g_tasks (cc_planned c))) TASK_CREATED"
    "list_all (creation_bound c) (zip (drop 4 (cc_events c)) (g_tasks (cc_planned c)))"
    by (simp_all add: check_events_Inr)
  have "log_ok (ru_run_id (cc_run c)) (cc_events c) \<and> \<not> log_terminal (cc_events c)"
  proof (rule plain_log_ok [OF e(1)])
    show "distinct (map ev_event_id (cc_events c))" using e(2) by (simp add: one_creation_def)
    show "ev_event_id x \<noteq> [] \<and> ev_type x \<notin> set terminal_types \<and> ev_type x \<noteq> CLOSURE_RECOVERY_STARTED"
      if "x \<in> set (cc_events c)" for x
      using that ev e(3) setup_not_closing [of "ev_type x"]
      by (auto simp: list_all_iff event_fields_valid_def setup_phase_def)
  qed
  moreover have "list_all (\<lambda>t. t_status t = TS_CREATED) (g_tasks (cc_planned c))"
    by (rule planned_created [OF e(5,4) _ wf]) (simp add: g)
  ultimately show ?thesis
    using assms(3) g wf e(4) pl by (simp add: planned_run_def new_run_row_def stored_graph_def admitted_def)
qed

section \<open>Runs that stay open\<close>

definition run_open :: "product_db \<Rightarrow> string \<Rightarrow> bool" where
  "run_open db k \<longleftrightarrow> (\<exists>r. (k, r) \<in> set (pd_runs db) \<and> \<not> run_terminal r)"

lemma open_active: "run_open db k \<Longrightarrow> get_active_run_id db \<noteq> None"
proof -
  assume "run_open db k"
  then obtain r where "(k, r) \<in> set (pd_runs db)" "\<not> run_terminal r" by (auto simp: run_open_def)
  then have "k \<in> set (active_run_ids db)" by (auto simp: active_run_ids_def run_terminal_def intro!: image_eqI)
  then show ?thesis by (auto simp: no_active)
qed

fun progress_of :: "product_op \<Rightarrow> string option" where
  "progress_of (OpProgress k status) = Some k"
| "progress_of _ = None"

lemma open_step:
  assumes "db_ok db" and "run_open db k" and "transact env db op = Inr db'" and "progress_of op \<noteq> Some k"
  shows "run_open db' k"
proof (cases op)
  case (OpPrepare plan ids now q key)
  with assms(3) obtain d where "prepare_run env plan ids now q key db = Inr (d, db')" by (auto elim!: rbind_InrE)
  from prepare_step [OF this] assms(2) show ?thesis by (auto simp: run_open_def prepared_def)
next
  case (OpRenew now i q key)
  with assms(3) obtain l where "renew_exact_draft env now i q key db = Inr (l, db')" by (auto elim!: rbind_InrE)
  from renew_step [OF this] assms(2) show ?thesis by (auto simp: run_open_def renewed_def)
next
  case (OpConfirm be ids ck q key)
  with assms(3) obtain a replayed where t: "confirm_transaction env be ids ck q key db = Inr (a, replayed, db')"
    by (auto elim!: rbind_InrE)
  show ?thesis
  proof (cases replayed)
    case True
    with t confirm_replayed assms(2) show ?thesis by fastforce
  next
    case False
    with t have "confirm_transaction env be ids ck q key db = Inr (a, False, db')" by simp
    from confirm_step [OF this assms(1)] obtain c where "admitted (ck_created ck) db c db'" by metis
    with assms(2) show ?thesis by (auto simp: run_open_def admitted_tables(3))
  qed
next
  case (OpStartRun worker now e i)
  with assms(3) have s: "start_admitted_run worker now e i db = Inr db'" by simp
  note b = db_ok_keyed [OF assms(1)]
  have "admission_valid x" if "map_of (pd_admissions db) i = Some x" for x
    using db_ok_delivery [OF assms(1) map_of_SomeD [OF that]] by (simp add: delivery_ok_def)
  from start_step [OF s b(4,3) this] show ?thesis
  proof
    assume "db' = db"
    with assms(2) show ?thesis by simp
  next
    assume "\<exists>cur row acked. map_of (pd_admissions db) i = Some cur \<and> delivered now e cur row acked db db'"
    then obtain cur row acked where d: "delivered now e cur row acked db db'" by blast
    obtain r where r: "(k, r) \<in> set (pd_runs db)" "\<not> run_terminal r" using assms(2) by (auto simp: run_open_def)
    have "\<exists>x. (k, x) \<in> set (pd_runs db') \<and> \<not> run_terminal x"
    proof (cases "k = ru_run_id (rr_run row)")
      case True
      with r(1) d show ?thesis
        by (auto simp: delivered_def set_update_row run_terminal_def started_run_def terminal_run_statuses_def intro!: exI)
    next
      case False
      with r d show ?thesis by (auto simp: delivered_def set_update_row)
    qed
    then show ?thesis by (simp add: run_open_def)
  qed
next
  case (OpProgress i st)
  with assms(3,4) have "progress i st db = Inr db'" "i \<noteq> k" by simp_all
  with progress_Inr [of i st db db'] assms(2) show ?thesis by (auto simp: run_open_def set_update_row)
qed

lemma open_run:
  assumes "db_ok db" and "run_open db k" and "\<forall>op\<in>set ops. progress_of op \<noteq> Some k"
  shows "run_open (product_run env db ops) k"
  using assms
proof (induction ops arbitrary: db)
  case Nil
  then show ?case by (simp add: product_run_def)
next
  case (Cons op ops)
  have "run_open (product_step env db op) k"
    using Cons.prems open_step [OF Cons.prems(1,2)] by (cases "transact env db op") (auto simp: product_step_def)
  moreover have "db_ok (product_step env db op)"
    using Cons.prems(1) unfolding product_step_eq by (rule product.step_valid)
  ultimately have "run_open (product_run env (product_step env db op) ops) k" using Cons by simp
  then show ?case by (simp add: product_run_def)
qed

section \<open>Properties\<close>

text \<open>
  C7. What an accepted confirmation does. No run was active before; afterwards exactly the admitted one is. The
  draft the request names, with the hash it names, was unconsumed and is now consumed by this run, and no
  other draft changed. One run is added, in PLANNING, with an acyclic graph of newly created tasks; its
  initial events form a valid open log, one creation event per task, and the run row counts them. One
  delivery is added, pristine and due at the admission.
\<close>

theorem confirmation_accepted:
  assumes "db = product_run env (new_db objects) history"
    and "confirm_transaction env be ids ck q key db = Inr (a, False, db')"
  shows "active_run_ids db = [] \<and> active_run_ids db' = [ra_run_id a]
    \<and> (\<exists>w. map_of (pd_drafts db) (cq_draft_id q) = Some w \<and> dr_hash (wr_draft w) = cq_hash q \<and> wr_consumed_at w = None
        \<and> pd_drafts db' = update_row (cq_draft_id q) (\<lambda>_. w\<lparr>wr_consumed_at := Some (ck_admitted ck),
            wr_admission_id := Some (ra_admission_id a), wr_run_id := Some (ra_run_id a)\<rparr>) (pd_drafts db))
    \<and> (\<exists>r evs. ru_run_id (rr_run r) = ra_run_id a \<and> planned_run db r evs db')
    \<and> (\<exists>s. pd_admissions db' = pd_admissions db @ [(ra_admission_id a, s)] \<and> sa_run_id s = ra_run_id a
        \<and> admission_valid s \<and> pristine s (ck_admitted ck))"
proof -
  have ok: "db_ok db" unfolding assms(1) by (rule product_run_ok [OF new_db_ok])
  from confirm_accepted [OF assms(2)] obtain h digest r v c where p: "get_draft env db (cq_draft_id q) = Inr (Some r)"
    "validate_confirm_request env r q (ck_checked ck) = Inr v" "get_active_run_id db = None"
    "commit_of env ids ck r v h digest c" "check_confirm_commit env key c = Inr ()"
    "insert_confirm_commit (ck_created ck) c db = Inr db'" "a = oc_payload (cc_outcome c)" by metis
  from get_draft_Inr [OF p(1)] obtain w where w: "map_of (pd_drafts db) (cq_draft_id q) = Some w"
    "reread_draft env (wr_draft w) = Inr (rd_draft r)" "rd_consumed_at r = wr_consumed_at w" by blast
  note v = validate_confirm_request_Inr [OF p(2)] and rd = reread_draft_Inr [OF w(2)]
    and adm = insert_confirm_commit_Inr [OF p(6)]
  note t = admitted_tables [OF adm]
  have w_row: "(cq_draft_id q, w) \<in> set (pd_drafts db)" and fresh: "wr_consumed_at w = None"
    using w v by (auto simp: consumed_def dest: map_of_SomeD)
  have c: "rd_draft (cc_draft c) = rd_draft r" "rd_consumed_at (cc_draft c) = Some (ck_admitted ck)"
    "rd_admission_id (cc_draft c) = Some (ra_admission_id a)" "rd_run_id (cc_draft c) = Some (ra_run_id a)"
    "ra_run_id a = ru_run_id (cc_run c)" "sa_admission_id (cc_scheduler c) = ra_admission_id a"
    "sa_run_id (cc_scheduler c) = ra_run_id a" "admission_valid (cc_scheduler c)" "ra_admitted_at a = ck_admitted ck"
    using p(4,7) by (simp_all add: commit_of_def)
  have none: "active_run_ids db = []" using p(3) by (simp add: no_active)
  have run: "planned_run db (new_run_row (ck_created ck) c) (cc_events c) db'" by (rule accepted_run [OF p(4,5) adm])
  have "active_run_ids db' = [ra_run_id a]"
    using none run c(5) by (simp add: active_run_ids_def planned_run_def new_run_row_def terminal_run_statuses_def)
  moreover have "pd_drafts db' = update_row (cq_draft_id q) (\<lambda>_. w\<lparr>wr_consumed_at := Some (ck_admitted ck),
            wr_admission_id := Some (ra_admission_id a), wr_run_id := Some (ra_run_id a)\<rparr>) (pd_drafts db)"
    using update_row_only [OF db_ok_keyed(1) [OF ok] w_row, of "consume_row (cc_draft c)"] v fresh c(1-4)
    by (simp add: t(1) consume_row_def)
  moreover have "pristine (cc_scheduler c) (ck_admitted ck)"
    using p(5,7) c(9) by (simp add: check_confirm_commit_Inr)
  ultimately show ?thesis
    using none w(1) fresh v rd run c t(4) by (auto simp: new_run_row_def intro!: exI)
qed

theorem confirmation_accepted_witness:
  "active_run_ids demo_db = [] \<and> active_run_ids demo_admitted = [''RUN-1'']"
  using confirmation_accepted [OF demo_reachable(1) [symmetric] demo_confirm_run] by (simp add: demo_admission_def)

text \<open>
  C3. Admission happens exactly once, whatever sequence of transactions ran: at most one run is active; two
  accepted confirmations with the same key, the same draft or the same run are the same; every consumed draft
  belongs to an accepted confirmation, for exactly the run it names; and every accepted confirmation has
  one delivery, which waits while its run is planned and is acknowledged once it has started.
\<close>

theorem admission_exactly_once:
  assumes "db = product_run env (new_db objects) history"
  shows "length (active_run_ids db) \<le> 1
    \<and> (\<forall>c a d b. confirmed db c a \<and> confirmed db d b
         \<and> (outcome_key c = outcome_key d \<or> ra_draft_id a = ra_draft_id b \<or> ra_run_id a = ra_run_id b) \<longrightarrow> c = d)
    \<and> (\<forall>k w. map_of (pd_drafts db) k = Some w \<and> wr_consumed_at w \<noteq> None \<longrightarrow>
         (\<exists>c a. confirmed db c a \<and> ra_draft_id a = k \<and> wr_run_id w = Some (ra_run_id a)))
    \<and> (\<forall>c a. confirmed db c a \<longrightarrow> (\<exists>s r. map_of (pd_admissions db) (ra_admission_id a) = Some s
         \<and> sa_run_id s = ra_run_id a \<and> sa_outcome_id s = oc_outcome_id c \<and> map_of (pd_runs db) (ra_run_id a) = Some r
         \<and> sa_state s = (if ru_status (rr_run r) = RS_PLANNING then AS_PENDING else AS_ACKNOWLEDGED)))"
proof -
  have ok: "db_ok db" unfolding assms by (rule product_run_ok [OF new_db_ok])
  note k = db_ok_keyed [OF ok]
  have "\<exists>c a. confirmed db c a \<and> ra_draft_id a = i \<and> wr_run_id w = Some (ra_run_id a)"
    if w: "map_of (pd_drafts db) i = Some w" "wr_consumed_at w \<noteq> None" for i w
  proof -
    have row: "(i, w) \<in> set (pd_drafts db)" using w(1) by (rule map_of_SomeD)
    with db_ok_draft [OF ok row] w(2) obtain c a where c: "confirmed db c a" "ra_draft_id a = i"
      by (auto simp: consumed_recorded_def confirmed_def)
    with confirmed_ok(2) [OF ok c(1)] obtain x where "(i, x) \<in> set (pd_drafts db)" "wr_run_id x = Some (ra_run_id a)"
      by (auto simp: recorded_def)
    with keyed_unique [OF k(1) row] c show ?thesis by auto
  qed
  moreover have "\<exists>s r. map_of (pd_admissions db) (ra_admission_id a) = Some s
         \<and> sa_run_id s = ra_run_id a \<and> sa_outcome_id s = oc_outcome_id c \<and> map_of (pd_runs db) (ra_run_id a) = Some r
         \<and> sa_state s = (if ru_status (rr_run r) = RS_PLANNING then AS_PENDING else AS_ACKNOWLEDGED)"
    if c: "confirmed db c a" for c a
  proof -
    obtain s where s: "(ra_admission_id a, s) \<in> set (pd_admissions db)" "sa_run_id s = ra_run_id a"
      "sa_outcome_id s = oc_outcome_id c" using confirmed_ok(2) [OF ok c] by (auto simp: recorded_def)
    from db_ok_delivery [OF ok s(1)] obtain r where "(sa_run_id s, r) \<in> set (pd_runs db)"
      "sa_state s = (if ru_status (rr_run r) = RS_PLANNING then AS_PENDING else AS_ACKNOWLEDGED)"
      by (auto simp: delivery_ok_def split: if_splits)
    with s k(3,4) show ?thesis by (auto simp: keyed_map_of)
  qed
  ultimately show ?thesis using k(7) confirmed_unique [OF ok] by blast
qed

theorem admission_exactly_once_witness:
  "\<exists>c a. confirmed demo_admitted c a \<and> ra_draft_id a = ''DRAFT-1'' \<and> ra_run_id a = ''RUN-1''"
proof -
  let ?w = "\<lparr>wr_draft = demo_draft, wr_consumed_at = Some (at_us 12), wr_admission_id = Some ''ADM-1'',
       wr_run_id = Some ''RUN-1''\<rparr>"
  have "map_of (pd_drafts demo_admitted) ''DRAFT-1'' = Some ?w \<and> wr_consumed_at ?w \<noteq> None"
    by (simp add: demo_admitted_def)
  with admission_exactly_once [OF demo_reachable(2) [symmetric]]
  have "\<exists>c a. confirmed demo_admitted c a \<and> ra_draft_id a = ''DRAFT-1'' \<and> wr_run_id ?w = Some (ra_run_id a)"
    by blast
  then show ?thesis by (metis draft_row.select_convs(4) option.inject)
qed

text \<open>
  C11. The key of an accepted confirmation answers for ever. Whatever happens afterwards, a confirmation under
  the same key with the same request hash returns the same admission as a replay and changes nothing, also
  when another run is active or the draft has expired, and with any other request hash it is refused as
  an idempotency conflict.
\<close>

theorem confirmation_replays:
  assumes "wire_law env" and "db = product_run env (new_db objects) history"
    and "confirm_transaction env be ids ck q key db = Inr (a, False, db')" and "later = product_run env db' ops"
    and "confirmation_request_hash env q' = Inr h'"
  shows "confirm_transaction env be' ids' ck' q' key later =
    (if confirmation_request_hash env q' = confirmation_request_hash env q then Inr (a, True, later)
     else Inl (ProductError PE_CONFLICT ''IDEMPOTENCY_REQUEST_MISMATCH''))"
proof -
  have ok: "db_ok db" unfolding assms(2) by (rule product_run_ok [OF new_db_ok])
  from confirm_step [OF assms(3) ok] obtain c where c: "confirmable db c" "admitted (ck_created ck) db c db'"
    "active_run_ids db = []" "a = oc_payload (cc_outcome c)" "key_digest env confirm_route key = Inr (oc_digest (cc_outcome c))"
    "confirmation_request_hash env q = Inr (oc_request_hash (cc_outcome c))" by metis
  have ok': "db_ok db'" using admitted_ok [OF ok c(1,2,3)] .
  have "db_ok later" "confirmed later (confirm_body c) a"
    using product_run_ok [OF ok'] confirmed_forward [OF product_run_forward [OF ok']] accepted_confirmed [OF c(2)]
    by (simp_all add: assms(4) c(4))
  with confirm_answered [OF assms(1), of later "confirm_body c" a key q' h'] assms(5) c(5,6) show ?thesis
    by (simp add: confirm_body_def idempotency_conflict_def)
qed

theorem confirmation_replays_witness:
  "confirm_transaction demo_env demo_backend (demo_ids ''2'') (demo_clock 99) demo_request (ucs ''KEY-1'')
     (product_run demo_env demo_admitted [demo_start])
   = Inr (demo_admission, True, product_run demo_env demo_admitted [demo_start])"
  using confirmation_replays [OF demo_wire_law demo_reachable(1) [symmetric] demo_confirm_run refl demo_confirm_hash]
  by simp

text \<open>
  C24. Nothing else ends a run than its own execution, so as long as a run that has not ended makes no
  progress, no confirmation of any draft under any new key is accepted, whatever else happens: a run whose
  worker disappeared blocks the product until someone moves its status.
\<close>

theorem stalled_run_blocks:
  assumes "db = product_run env (new_db objects) history" and "(k, r) \<in> set (pd_runs db)"
    and "ru_status (rr_run r) \<notin> set terminal_run_statuses" and "\<forall>op\<in>set ops. progress_of op \<noteq> Some k"
  shows "confirm_transaction env be ids ck q key (product_run env db ops) \<noteq> Inr (a, False, db')"
proof
  assume accepted: "confirm_transaction env be ids ck q key (product_run env db ops) = Inr (a, False, db')"
  have ok: "db_ok db" unfolding assms(1) by (rule product_run_ok [OF new_db_ok])
  have "run_open db k" using assms(2,3) by (auto simp: run_open_def run_terminal_def)
  from open_active [OF open_run [OF ok this assms(4)]] have "get_active_run_id (product_run env db ops) \<noteq> None" .
  with confirm_accepted [OF accepted] show False by metis
qed

theorem stalled_run_blocks_witness:
  "confirm_transaction demo_env demo_backend (demo_ids ''2'') (demo_clock 99) demo_request (ucs ''KEY-2'')
     (product_run demo_env demo_admitted [demo_start]) \<noteq> Inr (demo_admission, False, demo_admitted)"
proof -
  have "(''RUN-1'', new_run_row 12 demo_commit) \<in> set (pd_runs demo_admitted)"
    "ru_status (rr_run (new_run_row 12 demo_commit)) \<notin> set terminal_run_statuses"
    by (simp_all add: demo_admitted_def new_run_row_def demo_commit_def demo_run_def new_run_def terminal_run_statuses_def)
  from stalled_run_blocks [OF demo_reachable(2) [symmetric] this, of "[demo_start]"] show ?thesis
    by (simp add: demo_start_def)
qed

text \<open>
  C18. An admitted run starts at most once. When a start changes anything, the delivery was pending and its run
  planned; the run is RUNNING from that time, the log gained exactly its RUN_STARTED event with the next
  sequence number, and the delivery is acknowledged with that event. After that every start of this
  delivery, by any worker at any time, is refused.
\<close>

theorem admitted_run_starts_once:
  assumes "db = product_run env (new_db objects) history" and "start_admitted_run worker now e k db = Inr db'"
    and "db' \<noteq> db"
  shows "\<exists>s row acked. map_of (pd_admissions db) k = Some s \<and> sa_state s = AS_PENDING
    \<and> map_of (pd_runs db) (sa_run_id s) = Some row \<and> ru_status (rr_run row) = RS_PLANNING
    \<and> map_of (pd_runs db') (sa_run_id s) = Some (row\<lparr>rr_run := started_run now (rr_run row),
        rr_revision := rr_revision row + 1, rr_sequence := rr_sequence row + 1\<rparr>)
    \<and> pd_events db' = pd_events db @ [(''EVT-'' @ e, start_event now e row)]
    \<and> map_of (pd_admissions db') k = Some acked \<and> sa_state acked = AS_ACKNOWLEDGED
    \<and> sa_started_event_id acked = Some (''EVT-'' @ e) \<and> sa_started_sequence acked = Some (rr_sequence row + 1)
    \<and> (\<forall>ops worker' now' e'. \<exists>x. start_admitted_run worker' now' e' k (product_run env db' ops) = Inl x)"
proof -
  have ok: "db_ok db" unfolding assms(1) by (rule product_run_ok [OF new_db_ok])
  note b = db_ok_keyed [OF ok]
  have "admission_valid x" if "map_of (pd_admissions db) k = Some x" for x
    using db_ok_delivery [OF ok map_of_SomeD [OF that]] by (simp add: delivery_ok_def)
  from start_step [OF assms(2) b(4,3) this] assms(3) obtain s row acked where s: "map_of (pd_admissions db) k = Some s"
    and d: "delivered now e s row acked db db'" by blast
  have k: "k = sa_admission_id s" using map_of_SomeD [OF s] b(4) by (auto simp: keyed_def)
  note ok' = delivered_ok [OF ok d map_of_SomeD [OF s]]
  have row: "map_of (pd_runs db) (sa_run_id s) = Some row" using d by (simp add: delivered_def)
  have rid: "ru_run_id (rr_run row) = sa_run_id s" using map_of_SomeD [OF row] b(3) by (auto simp: keyed_def)
  have pending: "sa_state s = AS_PENDING \<and> start_absent s"
    using db_ok_delivery [OF ok map_of_SomeD [OF s]] ok' keyed_unique [OF b(3) map_of_SomeD [OF row]]
    by (auto simp: delivery_ok_def split: if_splits)
  have a: "map_of (pd_admissions db') k = Some acked" "sa_state acked = AS_ACKNOWLEDGED"
    using d s k by (simp_all add: delivered_def map_of_update_row)
  have later: "\<exists>x. start_admitted_run w' t' e' k (product_run env db' ops) = Inl x" for ops w' t' e'
  proof -
    have "db_forward db' (product_run env db' ops)" using ok' product_run_forward by blast
    moreover have "(k, acked) \<in> set (pd_admissions db')" using a(1) by (rule map_of_SomeD)
    ultimately obtain z where z: "(k, z) \<in> set (pd_admissions (product_run env db' ops))" "row_forward acked z"
      by (fastforce simp: db_forward_def)
    then have "z = acked" using a(2) by (simp add: row_forward_def is_final_def)
    with z(1) have m: "map_of (pd_admissions (product_run env db' ops)) k = Some acked"
      using keyed_map_of [OF db_ok_keyed(4) [OF product_run_ok]] ok' by blast
    have "\<exists>x. lease_scheduler_admission acked w' t' lease_duration = Inl x"
    proof (cases "lease_scheduler_admission acked w' t' lease_duration")
      case (Inr y)
      then obtain l f where "lease_scheduler_admission acked w' t' lease_duration = Inr (l, f)" by (cases y) auto
      from lease_Inr [OF this] a(2) show ?thesis by (simp add: is_final_def)
    qed simp
    with m show ?thesis by (auto simp: start_admitted_run_def)
  qed
  show ?thesis
  proof (intro exI conjI)
    show "map_of (pd_runs db') (sa_run_id s) = Some (row\<lparr>rr_run := started_run now (rr_run row),
        rr_revision := rr_revision row + 1, rr_sequence := rr_sequence row + 1\<rparr>)"
      using d row rid by (simp add: delivered_def map_of_update_row)
  qed (use s pending row ok' d a later in \<open>auto simp: delivered_def\<close>)
qed

theorem admitted_run_starts_once_witness:
  "\<exists>db'. start_admitted_run ''worker'' (at_us 20) ''S1'' ''ADM-1'' demo_admitted = Inr db'
    \<and> (\<forall>ops. \<exists>x. start_admitted_run ''other'' (at_us 999999999) ''S2'' ''ADM-1'' (product_run demo_env db' ops) = Inl x)"
proof -
  from demo_start_run obtain db' where s: "start_admitted_run ''worker'' (at_us 20) ''S1'' ''ADM-1'' demo_admitted = Inr db'"
    "db' \<noteq> demo_admitted" by blast
  from admitted_run_starts_once [OF demo_reachable(2) [symmetric] s] s(1) show ?thesis by blast
qed

end
