(* ===== verification/DraftWindows.thy ===== *)
theory DraftWindows
  imports RenewalScenario
begin

text \<open>
  The times in which a draft may be confirmed: its own thirty minutes and those of its renewals, which follow
  one another without overlap.
\<close>

section \<open>Chains of leases\<close>

fun lease_chain :: "timestamp \<Rightarrow> draft_lease list \<Rightarrow> bool" where
  "lease_chain t [] = True"
| "lease_chain t (l # ls) = (lease_valid l \<and> dl_previous_expires_at l = t \<and> lease_chain (dl_expires_at l) ls)"

definition window_end :: "timestamp \<Rightarrow> draft_lease list \<Rightarrow> timestamp" where
  "window_end t ls = (if ls = [] then t else dl_expires_at (last ls))"

lemma lease_chain_snoc [simp]:
  "lease_chain t (ls @ [l]) \<longleftrightarrow> lease_chain t ls \<and> lease_valid l \<and> dl_previous_expires_at l = window_end t ls"
  by (induction t ls rule: lease_chain.induct) (auto simp: window_end_def)

lemma lease_valid_span:
  "lease_valid l \<Longrightarrow> ts_instant (dl_previous_expires_at l) \<le> ts_instant (dl_authorized_at l)
     \<and> ts_instant (dl_authorized_at l) < ts_instant (dl_expires_at l)"
  by (auto simp: lease_valid_def earlier_def draft_expiry_def)

lemma lease_chain_all: "lease_chain t ls \<Longrightarrow> l \<in> set ls \<Longrightarrow> lease_valid l"
  by (induction t ls rule: lease_chain.induct) auto

lemma lease_chain_after:
  "lease_chain t ls \<Longrightarrow> l \<in> set ls \<Longrightarrow> ts_instant t \<le> ts_instant (dl_authorized_at l)"
proof (induction t ls rule: lease_chain.induct)
  case (2 t m ls)
  have m: "ts_instant t \<le> ts_instant (dl_authorized_at m)" "ts_instant (dl_authorized_at m) < ts_instant (dl_expires_at m)"
    using 2(2) lease_valid_span [of m] by auto
  with 2 show ?case by (cases "l = m") auto
qed simp

lemma lease_chain_disjoint:
  "lease_chain t ls \<Longrightarrow> i < j \<Longrightarrow> j < length ls \<Longrightarrow>
     ts_instant (dl_expires_at (ls ! i)) \<le> ts_instant (dl_authorized_at (ls ! j))"
proof (induction t ls arbitrary: i j rule: lease_chain.induct)
  case (2 t l ls)
  then obtain n where j: "j = Suc n" "n < length ls" by (cases j) auto
  show ?case
  proof (cases i)
    case 0
    with 2(2) j lease_chain_after [of "dl_expires_at l" ls "ls ! n"] show ?thesis by simp
  next
    case (Suc m)
    with 2 j show ?thesis by simp
  qed
qed simp

section \<open>Leases in the database\<close>

definition lease_rows :: "product_db \<Rightarrow> string \<Rightarrow> lease_row list" where
  "lease_rows db k = filter (\<lambda>r. lr_draft_id r = k) (map snd (pd_leases db))"

definition leases_of :: "product_db \<Rightarrow> string \<Rightarrow> draft_lease list" where
  "leases_of db k = map lr_lease (lease_rows db k)"

definition leases_ok :: "product_db \<Rightarrow> bool" where
  "leases_ok db \<longleftrightarrow>
     (\<forall>(i, r)\<in>set (pd_leases db). lr_authorized_at r = dl_authorized_at (lr_lease r) \<and> lr_draft_id r \<in> fst ` set (pd_drafts db))
     \<and> (\<forall>(k, w)\<in>set (pd_drafts db). lease_chain (dr_expires_at (wr_draft w)) (leases_of db k))"

lemma latest_of_chain:
  assumes "lease_chain t (map lr_lease rows)" and "\<forall>r\<in>set rows. lr_authorized_at r = dl_authorized_at (lr_lease r)"
  shows "foldl later_row None rows = (if rows = [] then None else Some (last rows))"
  using assms
proof (induction rows rule: rev_induct)
  case (snoc r rows)
  then have IH: "foldl later_row None rows = (if rows = [] then None else Some (last rows))" by simp
  show ?case
  proof (cases "rows = []")
    case True
    then show ?thesis by (simp add: later_row_def)
  next
    case False
    have l: "lease_valid (lr_lease (last rows))" "lease_valid (lr_lease r)"
      "dl_previous_expires_at (lr_lease r) = dl_expires_at (lr_lease (last rows))"
      using snoc.prems(1) False lease_chain_all [of t "map lr_lease rows" "lr_lease (last rows)"]
      by (auto simp: window_end_def last_map)
    have "lr_authorized_at (last rows) = dl_authorized_at (lr_lease (last rows))" "lr_authorized_at r = dl_authorized_at (lr_lease r)"
      using snoc.prems(2) False by auto
    with l lease_valid_span [OF l(1)] lease_valid_span [OF l(2)] have "earlier (lr_authorized_at (last rows)) (lr_authorized_at r)"
      by (simp add: earlier_def)
    then have "later_row (Some (last rows)) r = Some r" by (simp add: later_row_def)
    with False IH show ?thesis by simp
  qed
qed simp

lemma latest_lease_eq:
  assumes "wire_law env" and "leases_ok db" and "(k, w) \<in> set (pd_drafts db)"
  shows "latest_lease env db k = Inr (if leases_of db k = [] then None else Some (last (leases_of db k)))"
proof -
  have c: "lease_chain (dr_expires_at (wr_draft w)) (map lr_lease (lease_rows db k))"
    using assms(2,3) by (auto simp: leases_ok_def leases_of_def)
  have "latest_lease_row db k = (if lease_rows db k = [] then None else Some (last (lease_rows db k)))"
    unfolding latest_lease_row_def lease_rows_def [symmetric]
    by (rule latest_of_chain [OF c]) (use assms(2) in \<open>auto simp: leases_ok_def lease_rows_def\<close>)
  moreover have "reread_lease env (lr_lease (last (lease_rows db k))) = Inr (lr_lease (last (lease_rows db k)))"
    if "lease_rows db k \<noteq> []"
    using reread_lease_law [OF assms(1)] lease_chain_all [OF c] that by simp
  ultimately show ?thesis by (simp add: latest_lease_def leases_of_def last_map)
qed

lemma draft_record_end:
  assumes "wire_law env" and "leases_ok db" and "(k, w) \<in> set (pd_drafts db)" and "draft_valid (wr_draft w)"
    and "latest_lease env db k = Inr (rd_lease r)" and "reread_draft env (wr_draft w) = Inr (rd_draft r)"
  shows "effective_expires_at r = window_end (dr_expires_at (wr_draft w)) (leases_of db k)"
  using assms(5,6) latest_lease_eq [OF assms(1-3)] reread_draft_law [OF assms(1,4)]
  by (cases "rd_lease r") (auto simp: effective_expires_at_def window_end_def split: if_splits)

section \<open>Transactions keep the chains\<close>

lemma leases_ok_same:
  assumes "leases_ok db" and "pd_leases db' = pd_leases db"
    and "\<And>k w'. (k, w') \<in> set (pd_drafts db') \<Longrightarrow> (\<exists>w. (k, w) \<in> set (pd_drafts db) \<and> wr_draft w' = wr_draft w)
        \<or> k \<notin> fst ` set (pd_drafts db)"
    and "fst ` set (pd_drafts db) \<subseteq> fst ` set (pd_drafts db')"
  shows "leases_ok db'"
proof -
  have same: "leases_of db' = leases_of db" by (intro ext) (simp add: leases_of_def lease_rows_def assms(2))
  have rows: "lr_authorized_at r = dl_authorized_at (lr_lease r) \<and> lr_draft_id r \<in> fst ` set (pd_drafts db)"
    if "(i, r) \<in> set (pd_leases db)" for i r
    using assms(1) that unfolding leases_ok_def by blast
  have none: "leases_of db k = []" if "k \<notin> fst ` set (pd_drafts db)" for k
    using rows that by (auto simp: leases_of_def lease_rows_def filter_empty_conv)
  have "lease_chain (dr_expires_at (wr_draft w')) (leases_of db k)" if w': "(k, w') \<in> set (pd_drafts db')" for k w'
    using assms(3) [OF w']
  proof
    assume "\<exists>w. (k, w) \<in> set (pd_drafts db) \<and> wr_draft w' = wr_draft w"
    then show ?thesis using assms(1) by (auto simp: leases_ok_def)
  next
    assume "k \<notin> fst ` set (pd_drafts db)"
    then show ?thesis by (simp add: none)
  qed
  moreover have "lr_authorized_at r = dl_authorized_at (lr_lease r) \<and> lr_draft_id r \<in> fst ` set (pd_drafts db')"
    if "(i, r) \<in> set (pd_leases db')" for i r
    using rows [of i r] that assms(2,4) by auto
  ultimately show ?thesis unfolding leases_ok_def same by blast
qed

lemma load_record_Inr:
  assumes "load_record env db k = Inr r"
  shows "\<exists>w. map_of (pd_drafts db) k = Some w \<and> reread_draft env (wr_draft w) = Inr (rd_draft r)
    \<and> latest_lease env db k = Inr (rd_lease r)"
proof (cases "map_of (pd_drafts db) k")
  case None
  with assms show ?thesis by (simp add: load_record_def)
next
  case (Some w)
  with assms obtain d l where "reread_draft env (wr_draft w) = Inr d" "latest_lease env db k = Inr l"
    and m: "make_draft_record \<lparr>rd_draft = d, rd_consumed_at = wr_consumed_at w,
      rd_admission_id = wr_admission_id w, rd_run_id = wr_run_id w, rd_lease = l\<rparr> = Inr r"
    by (auto simp: load_record_def elim!: rbind_InrE)
  moreover from m have "r = \<lparr>rd_draft = d, rd_consumed_at = wr_consumed_at w,
      rd_admission_id = wr_admission_id w, rd_run_id = wr_run_id w, rd_lease = l\<rparr>"
    by (simp add: make_draft_record_def split: if_split_asm)
  ultimately show ?thesis using Some by simp
qed

lemma renewed_leases_ok:
  assumes "wire_law env" and "db_ok db" and "leases_ok db" and "renewed env now k fp l db db'"
  shows "leases_ok db'"
proof -
  have db': "pd_leases db' = pd_leases db @ [(dl_lease_id l, lease_row_of fp l)]" "pd_drafts db' = pd_drafts db"
    and l: "lease_valid l" "dl_draft_id l = k" using assms(4) by (auto simp: renewed_def)
  obtain r where r: "load_record env db k = Inr r" "dl_previous_expires_at l = effective_expires_at r"
    using assms(4) by (auto simp: renewed_def)
  from load_record_Inr [OF r(1)] obtain w where w: "map_of (pd_drafts db) k = Some w"
    "reread_draft env (wr_draft w) = Inr (rd_draft r)" "latest_lease env db k = Inr (rd_lease r)" by blast
  have row: "(k, w) \<in> set (pd_drafts db)" using w(1) by (rule map_of_SomeD)
  have "draft_valid (wr_draft w)" using db_ok_draft [OF assms(2) row] by (simp add: draft_row_ok_def)
  from draft_record_end [OF assms(1,3) row this w(3,2)] r(2)
  have prev: "dl_previous_expires_at l = window_end (dr_expires_at (wr_draft w)) (leases_of db k)" by simp
  have of: "leases_of db' i = (if i = k then leases_of db k @ [l] else leases_of db i)" for i
    using l(2) by (simp add: leases_of_def lease_rows_def db' lease_row_of_def)
  show ?thesis
    unfolding leases_ok_def
  proof (intro conjI)
    show "\<forall>(i, r)\<in>set (pd_leases db'). lr_authorized_at r = dl_authorized_at (lr_lease r)
        \<and> lr_draft_id r \<in> fst ` set (pd_drafts db')"
      using assms(3) row l(2) by (auto simp: leases_ok_def db' lease_row_of_def intro: image_eqI [of _ _ "(k, w)"])
    show "\<forall>(i, v)\<in>set (pd_drafts db'). lease_chain (dr_expires_at (wr_draft v)) (leases_of db' i)"
    proof clarify
      fix i v assume "(i, v) \<in> set (pd_drafts db')"
      then have v: "(i, v) \<in> set (pd_drafts db)" by (simp add: db')
      then have c: "lease_chain (dr_expires_at (wr_draft v)) (leases_of db i)" using assms(3) by (auto simp: leases_ok_def)
      show "lease_chain (dr_expires_at (wr_draft v)) (leases_of db' i)"
      proof (cases "i = k")
        case True
        with keyed_unique [OF db_ok_keyed(1) [OF assms(2)] row] v have "v = w" by simp
        with True c prev l(1) show ?thesis by (simp add: of)
      next
        case False
        with c show ?thesis by (simp add: of)
      qed
    qed
  qed
qed

lemma leases_ok_kept:
  assumes "leases_ok db" and "pd_leases db' = pd_leases db" and "pd_drafts db' = pd_drafts db"
  shows "leases_ok db'"
  by (rule leases_ok_same [OF assms(1,2)]) (use assms(3) in auto)

lemma transact_leases:
  assumes "wire_law env" and "db_ok db" and "leases_ok db" and "transact env db op = Inr db'"
  shows "leases_ok db'"
proof (cases op)
  case (OpPrepare plan ids now q key)
  with assms(4) obtain d where "prepare_run env plan ids now q key db = Inr (d, db')" by (auto elim!: rbind_InrE)
  from prepare_step [OF this] show ?thesis
  proof
    assume "db' = db"
    with assms(3) show ?thesis by simp
  next
    assume "\<exists>c. prepared db d c db' \<and> draft_valid d \<and> oc_payload c = BodyPrepare d
      \<and> is_ok (validate_outcome_identity prepare_route c)"
    then obtain c where c: "prepared db d c db'" by blast
    then have t: "pd_drafts db' = pd_drafts db @ [(dr_draft_id d, unconsumed_row d)]" "pd_leases db' = pd_leases db"
      "dr_draft_id d \<notin> fst ` set (pd_drafts db)" by (simp_all add: prepared_def)
    have "(i, w') \<in> set (pd_drafts db) \<or> i \<notin> fst ` set (pd_drafts db)" if "(i, w') \<in> set (pd_drafts db')" for i w'
      using that t(3) by (cases "i = dr_draft_id d") (simp_all add: t(1))
    then show ?thesis by (intro leases_ok_same [OF assms(3) t(2)]) (auto simp: t(1))
  qed
next
  case (OpRenew now k q key)
  with assms(4) obtain l where "renew_exact_draft env now k q key db = Inr (l, db')" by (auto elim!: rbind_InrE)
  from renew_step [OF this] renewed_leases_ok [OF assms(1-3)] assms(3) show ?thesis by blast
next
  case (OpConfirm be ids ck q key)
  with assms(4) obtain a replayed where t: "confirm_transaction env be ids ck q key db = Inr (a, replayed, db')"
    by (auto elim!: rbind_InrE)
  show ?thesis
  proof (cases replayed)
    case True
    with t confirm_replayed assms(3) show ?thesis by fastforce
  next
    case False
    with t have "confirm_transaction env be ids ck q key db = Inr (a, False, db')" by simp
    from confirm_step [OF this assms(2)] obtain c where c: "admitted (ck_created ck) db c db'" by metis
    show ?thesis
    proof (rule leases_ok_same [OF assms(3)])
      show "pd_leases db' = pd_leases db" using c by (simp add: admitted_def)
      show "fst ` set (pd_drafts db) \<subseteq> fst ` set (pd_drafts db')" by (simp add: admitted_tables(1) [OF c])
      show "(\<exists>w. (k, w) \<in> set (pd_drafts db) \<and> wr_draft w' = wr_draft w) \<or> k \<notin> fst ` set (pd_drafts db)"
        if "(k, w') \<in> set (pd_drafts db')" for k w'
        using that by (auto simp: admitted_tables(1) [OF c] set_update_row consume_row_def split: if_splits)
    qed
  qed
next
  case (OpStartRun worker now e k)
  with assms(4) have s: "start_admitted_run worker now e k db = Inr db'" by simp
  note b = db_ok_keyed [OF assms(2)]
  have "admission_valid x" if "map_of (pd_admissions db) k = Some x" for x
    using db_ok_delivery [OF assms(2) map_of_SomeD [OF that]] by (simp add: delivery_ok_def)
  from start_step [OF s b(4,3) this] have "pd_leases db' = pd_leases db" "pd_drafts db' = pd_drafts db"
    by (auto simp: delivered_def)
  then show ?thesis by (rule leases_ok_kept [OF assms(3)])
next
  case (OpProgress k st)
  with assms(4) progress_Inr [of k st db db'] have "pd_leases db' = pd_leases db" "pd_drafts db' = pd_drafts db" by auto
  then show ?thesis by (rule leases_ok_kept [OF assms(3)])
qed

interpretation windows: guarded_machine "transact env" "\<lambda>db. db_ok db \<and> (wire_law env \<longrightarrow> leases_ok db)" db_forward for env
  by unfold_locales (use transact_step transact_leases db_forward_refl db_forward_trans in blast)+

lemma new_db_leases: "leases_ok (new_db objects)"
  by (simp add: leases_ok_def new_db_def)

lemma product_run_leases:
  assumes "wire_law env"
  shows "leases_ok (product_run env (new_db objects) ops)"
proof -
  have "product_step env = windows.step env" by (intro ext) (simp add: product_step_def windows.step_def)
  with windows.run_valid [of "new_db objects" env ops] new_db_ok new_db_leases assms show ?thesis
    by (simp add: product_run_def)
qed

section \<open>Property\<close>

text \<open>
  C19. The windows in which a draft may be confirmed never overlap, whatever sequence of transactions ran: every
  renewal is valid for exactly thirty minutes from its authorization, and begins when everything before it, the
  draft's own time included, has run out. A confirmation of the draft is accepted only before the end of the last
  window, so repeating a renewal never extends one.
\<close>

theorem draft_windows_disjoint:
  assumes "wire_law env" and "db = product_run env (new_db objects) history"
    and "map_of (pd_drafts db) k = Some w" and "ls = leases_of db k"
  shows "(\<forall>l\<in>set ls. ts_instant (dl_expires_at l) - ts_instant (dl_authorized_at l) = draft_expiry
        \<and> ts_instant (dr_expires_at (wr_draft w)) \<le> ts_instant (dl_authorized_at l))
    \<and> (\<forall>i j. i < j \<and> j < length ls \<longrightarrow> ts_instant (dl_expires_at (ls ! i)) \<le> ts_instant (dl_authorized_at (ls ! j)))
    \<and> (cq_draft_id q = k \<and> confirm_transaction env be ids ck q key db = Inr (a, False, db') \<longrightarrow>
         earlier (ck_checked ck) (window_end (dr_expires_at (wr_draft w)) ls))"
proof -
  have ok: "db_ok db" unfolding assms(2) by (rule product_run_ok [OF new_db_ok])
  have leases: "leases_ok db" unfolding assms(2) by (rule product_run_leases [OF assms(1)])
  have row: "(k, w) \<in> set (pd_drafts db)" using assms(3) by (rule map_of_SomeD)
  have chain: "lease_chain (dr_expires_at (wr_draft w)) ls" using leases row by (auto simp: leases_ok_def assms(4))
  have "earlier (ck_checked ck) (window_end (dr_expires_at (wr_draft w)) ls)"
    if "cq_draft_id q = k" and "confirm_transaction env be ids ck q key db = Inr (a, False, db')"
  proof -
    from confirm_accepted [OF that(2)] obtain r v where r: "get_draft env db (cq_draft_id q) = Inr (Some r)"
      "validate_confirm_request env r q (ck_checked ck) = Inr v" by metis
    from get_draft_Inr [OF r(1)] assms(3) that(1) have "reread_draft env (wr_draft w) = Inr (rd_draft r)"
      "latest_lease env db k = Inr (rd_lease r)" by auto
    moreover have "draft_valid (wr_draft w)" using db_ok_draft [OF ok row] by (simp add: draft_row_ok_def)
    ultimately have "effective_expires_at r = window_end (dr_expires_at (wr_draft w)) ls"
      using draft_record_end [OF assms(1) leases row] by (simp add: assms(4))
    with validate_confirm_request_Inr [OF r(2)] show ?thesis by simp
  qed
  moreover have "\<forall>l\<in>set ls. ts_instant (dl_expires_at l) - ts_instant (dl_authorized_at l) = draft_expiry"
    using lease_chain_all [OF chain] by (auto simp: lease_valid_def)
  ultimately show ?thesis using lease_chain_after [OF chain] lease_chain_disjoint [OF chain] by blast
qed

text \<open>
  A draft renewed twice after it expired: three windows of thirty minutes one after another. And a draft that
  was accepted within its own time.
\<close>

definition windows_of :: "product_db \<Rightarrow> string \<Rightarrow> (int \<times> int) list" where
  "windows_of db k = map (\<lambda>l. (ts_instant (dl_authorized_at l), ts_instant (dl_expires_at l))) (leases_of db k)"

lemma renewed_leases: "leases_of renewed_db ''DRAFT-1'' =
    [renewal_lease ''KEY-R1'' (2 + draft_expiry) (7 + draft_expiry),
     renewal_lease ''KEY-R2'' (7 + 2 * draft_expiry) (9 + 2 * draft_expiry)]"
  by (simp add: leases_of_def lease_rows_def renewed_db_def renewal_row_def)

theorem draft_windows_disjoint_witness:
  "(\<exists>a e b f. windows_of (product_run renewal_env (new_db [''AAPL'']) renewal_history) ''DRAFT-1'' = [(a, e), (b, f)]
      \<and> 2 + draft_expiry \<le> a \<and> e - a = draft_expiry \<and> e \<le> b \<and> f - b = draft_expiry)
   \<and> earlier (at_us 10) (at_us (2 + draft_expiry))"
proof
  let ?ls = "leases_of renewed_db ''DRAFT-1''"
  have row: "map_of (pd_drafts renewed_db) ''DRAFT-1'' = Some (unconsumed_row next_draft)"
    "ts_instant (dr_expires_at (wr_draft (unconsumed_row next_draft))) = 2 + draft_expiry"
    by (simp_all add: renewed_db_def next_db_def unconsumed_row_def next_draft_def at_us_def)
  note w = draft_windows_disjoint [OF renewal_wire_law renewed_reachable [symmetric] row(1) refl]
  have mem: "?ls ! 0 \<in> set ?ls" "?ls ! 1 \<in> set ?ls" by (simp_all add: renewed_leases)
  have "(0 :: nat) < 1 \<and> 1 < length ?ls" by (simp add: renewed_leases)
  with w have "ts_instant (dl_expires_at (?ls ! 0)) \<le> ts_instant (dl_authorized_at (?ls ! 1))" by blast
  moreover have "windows_of renewed_db ''DRAFT-1'' =
      [(ts_instant (dl_authorized_at (?ls ! 0)), ts_instant (dl_expires_at (?ls ! 0))),
       (ts_instant (dl_authorized_at (?ls ! 1)), ts_instant (dl_expires_at (?ls ! 1)))]"
    by (simp add: windows_of_def renewed_leases)
  ultimately show "\<exists>a e b f. windows_of (product_run renewal_env (new_db [''AAPL'']) renewal_history) ''DRAFT-1''
      = [(a, e), (b, f)] \<and> 2 + draft_expiry \<le> a \<and> e - a = draft_expiry \<and> e \<le> b \<and> f - b = draft_expiry"
    unfolding renewed_reachable
    using w mem row(2) by auto
next
  have w: "map_of (pd_drafts demo_db) ''DRAFT-1'' = Some (unconsumed_row demo_draft)" "leases_of demo_db ''DRAFT-1'' = []"
    "dr_expires_at (wr_draft (unconsumed_row demo_draft)) = at_us (2 + draft_expiry)" "cq_draft_id demo_request = ''DRAFT-1''"
    "ck_checked (demo_clock 10) = at_us 10"
    by (simp_all add: demo_db_def leases_of_def lease_rows_def new_db_def unconsumed_row_def demo_draft_def demo_request_def
        demo_clock_def)
  have "earlier (ck_checked (demo_clock 10)) (window_end (dr_expires_at (wr_draft (unconsumed_row demo_draft))) [])"
    using draft_windows_disjoint [OF demo_wire_law demo_reachable(1) [symmetric] w(1) refl] demo_confirm_run w(2,4) by metis
  then show "earlier (at_us 10) (at_us (2 + draft_expiry))" by (simp add: w window_end_def)
qed

end
