(* ===== verification/ConfirmChecks.thy ===== *)
theory ConfirmChecks
  imports ProductScenario
begin

text \<open>
  What a confirmation has to satisfy before anything is written: the request against its draft, and the
  planned graph against the registered agents.
\<close>

section \<open>Graphs under a change of goals\<close>

lemma map_of_map_task:
  "map_of (rev (map (\<lambda>t. (t_task_id t, t_dependencies t)) (map (\<lambda>t. t\<lparr>t_goal := f t\<rparr>) ts)))
     = map_of (rev (map (\<lambda>t. (t_task_id t, t_dependencies t)) ts))"
  by (simp add: rev_map comp_def)

lemma task_ids_goal [simp]: "task_ids (map (\<lambda>t. t\<lparr>t_goal := f t\<rparr>) ts) = task_ids ts"
  by (simp add: task_ids_def comp_def)

lemma task_deps_goal [simp]: "task_deps (map (\<lambda>t. t\<lparr>t_goal := f t\<rparr>) ts) = task_deps ts"
  by (intro ext) (simp only: task_deps_def map_of_map_task)

lemma graph_wf_goal: "graph_wf (map (\<lambda>t. t\<lparr>t_goal := f t\<rparr>) ts) \<longleftrightarrow> graph_wf ts"
  by (simp add: graph_wf_def list_all_iff)

section \<open>The planned graph\<close>

text \<open>A task some registered agent can execute for the run.\<close>

definition executable :: "agent_registry \<Rightarrow> string \<Rightarrow> task \<Rightarrow> bool" where
  "executable registry run_id t \<longleftrightarrow> t_run_id t = run_id \<and> (\<exists>rest. t_task_id t = run_id @ '':'' @ rest)
     \<and> t_task_type t \<in> set (skill_task_types (t_skill_id t))
     \<and> (\<exists>supported. map_of registry (t_assigned_agent t) = Some supported
          \<and> (t_task_type t \<in> set supported \<or> t_task_type t \<in> set native_planning_task_types))"

lemma task_bound_executable: "task_bound registry run_id known t \<Longrightarrow> executable registry run_id t"
proof -
  assume b: "task_bound registry run_id known t"
  then obtain supported where m: "map_of registry (t_assigned_agent t) = Some supported"
    and t: "t_task_type t \<in> set (supported @ native_planning_task_types)" "t_task_type t \<in> set (skill_task_types (t_skill_id t))"
      "t_run_id t = run_id" "take (length run_id + 1) (t_task_id t) = run_id @ '':''"
    by (auto simp: task_bound_def split: option.split_asm)
  have "t_task_id t = take (length run_id + 1) (t_task_id t) @ drop (length run_id + 1) (t_task_id t)"
    by (simp only: append_take_drop_id)
  then have "t_task_id t = run_id @ '':'' @ drop (length run_id + 1) (t_task_id t)" unfolding t(4) by simp
  with m t show ?thesis unfolding executable_def by auto
qed

lemma plan_run_Inr:
  assumes "plan_run env be run_id g s = Inr (graph, g', s')"
  shows "\<exists>planned. validate_graph_runtime_bindings planned (be_agents be) (Some (sc_skills s')) \<and> g_run_id planned = run_id
    \<and> json_eq (scheme_dump env s') (scheme_dump env s) \<and> json_eq (goal_dump env g') (goal_dump env g)
    \<and> (case sc_context s' of None \<Rightarrow> graph = planned | Some c \<Rightarrow> bind_incremental_plan planned c = Inr graph)"
  using assms unfolding plan_run_def
  by (auto simp: guard_bind_Inr_iff elim!: rbind_InrE split: plan_outcome.split_asm option.split_asm) blast

lemma bind_incremental_plan_Inr:
  "bind_incremental_plan g c = Inr g' \<longleftrightarrow> g_run_id g \<noteq> ic_base_run_id c \<and> list_all (own_fresh_task (g_run_id g)) (g_tasks g)
     \<and> g' = g\<lparr>g_tasks := map (\<lambda>t. t\<lparr>t_goal := t_goal t @ constraint_of c\<rparr>) (g_tasks g)\<rparr>"
  by (auto simp: bind_incremental_plan_def rbind_Inr_iff guard_Inr_iff)

section \<open>Properties\<close>

text \<open>
  C23. Every plan a confirmation accepts can be executed: the graph belongs to the run, is not empty and has no
  cycle, every task has a registered agent and a skill for its type, the skills the scheme requires occur,
  and the planner changed neither the goal nor the scheme. An incremental plan is not bound to its base
  run, its tasks start without evidence of another run, and each carries the incremental policy in its goal.
\<close>

theorem accepted_plan_executable:
  assumes "plan_run env be run_id g s = Inr (graph, g', s')"
  shows "g_run_id graph = run_id \<and> g_tasks graph \<noteq> [] \<and> graph_wf (g_tasks graph)
    \<and> list_all (executable (be_agents be) run_id) (g_tasks graph) \<and> set (sc_skills s') \<subseteq> t_skill_id ` set (g_tasks graph)
    \<and> json_eq (scheme_dump env s') (scheme_dump env s) \<and> json_eq (goal_dump env g') (goal_dump env g)
    \<and> (case sc_context s' of None \<Rightarrow> True
        | Some c \<Rightarrow> run_id \<noteq> ic_base_run_id c
            \<and> list_all (\<lambda>t. t_task_input_evidence_ids t = [] \<and> t_task_output_evidence_ids t = []
                \<and> (\<exists>goal. t_goal t = goal @ constraint_of c)) (g_tasks graph))"
proof -
  from plan_run_Inr [OF assms] obtain p where
    b: "validate_graph_runtime_bindings p (be_agents be) (Some (sc_skills s'))" and p: "g_run_id p = run_id"
      "json_eq (scheme_dump env s') (scheme_dump env s)" "json_eq (goal_dump env g') (goal_dump env g)"
      "case sc_context s' of None \<Rightarrow> graph = p | Some c \<Rightarrow> bind_incremental_plan p c = Inr graph" by blast
  note f = bindings_facts [OF b]
  have e: "list_all (executable (be_agents be) run_id) (g_tasks p)" "set (sc_skills s') \<subseteq> t_skill_id ` set (g_tasks p)"
    using b p(1) task_bound_executable by (auto simp: validate_graph_runtime_bindings_def Let_def list_all_iff)
  show ?thesis
  proof (cases "sc_context s'")
    case None
    with p f e show ?thesis by simp
  next
    case (Some c)
    with p(4) have i: "g_run_id p \<noteq> ic_base_run_id c" "list_all (own_fresh_task (g_run_id p)) (g_tasks p)"
      "graph = p\<lparr>g_tasks := map (\<lambda>t. t\<lparr>t_goal := t_goal t @ constraint_of c\<rparr>) (g_tasks p)\<rparr>"
      by (simp_all add: bind_incremental_plan_Inr)
    with Some p f e show ?thesis
      by (simp add: graph_wf_goal list_all_iff executable_def own_fresh_task_def image_image)
  qed
qed

theorem accepted_plan_executable_witness:
  "graph_wf [demo_task ''RUN-1''] \<and> executable [(''data'', [''evidence_collection''])] ''RUN-1'' (demo_task ''RUN-1'')"
  using accepted_plan_executable [OF demo_plan_run] by (simp add: demo_graph_def demo_backend_def)



end
